(* ===== verification/Prelude.thy ===== *)
theory Prelude
  imports Complex_Main "HOL-Library.Word" "HOL-Library.Log_Nat" "HOL-Library.Monad_Syntax"
    "HOL-Library.Signed_Division"
begin

text \<open>
  What every component shares: the C types of src/task.h (lines 8-11), pointers that may be
  NULL, undefined behaviour as \<^term>\<open>None\<close>, C arrays, the C \<open>for\<close> loop, the C shift and
  division rules, and the word lemmas the component proofs rest on.

  Conventions. A C function that can run into undefined behaviour for some argument (a read
  past an array, a negative shift, a conversion out of range) returns \<open>'a option\<close> and is
  \<^term>\<open>None\<close> exactly there; a C function that is defined for every argument returns its value
  plainly. A C \<open>int\<close> is an \<^typ>\<open>int\<close>: every \<open>int\<close> of the program is an index, a count
  bounded by the number of array elements or a small enumeration, so no \<open>int\<close> arithmetic of
  the program leaves the range of the type.
\<close>

unbundle bit_operations_syntax

section \<open>C types\<close>

type_synonym u8 = "8 word"
type_synonym u32 = "32 word"
type_synonym u64 = "64 word"
type_synonym u128 = "128 word"

datatype 'a ptr = NULL | Ref 'a

named_theorems c_defs "closed forms of C operations on arguments where they are defined"
named_theorems u64_nat "unsigned 64-bit operations read as natural numbers"

definition c_assert :: "bool \<Rightarrow> unit option" where
  "c_assert b = (if b then Some () else None)"

fun c_deref :: "'a ptr \<Rightarrow> 'a option" where
  "c_deref NULL = None"
| "c_deref (Ref x) = Some x"

text \<open>Writing through a pointer: \<open>p->... = ...\<close>.\<close>

fun c_write :: "'a ptr \<Rightarrow> ('a \<Rightarrow> 'a) \<Rightarrow> 'a ptr option" where
  "c_write NULL f = None"
| "c_write (Ref x) f = Some (Ref (f x))"

lemma c_assert_eq_Some [simp]: "c_assert b = Some u \<longleftrightarrow> b"
  by (simp add: c_assert_def)

lemma c_assert_True [simp]: "c_assert True = Some ()"
  by (simp add: c_assert_def)

section \<open>Arrays\<close>

definition arr_get :: "'a list \<Rightarrow> int \<Rightarrow> 'a option" where
  "arr_get xs i = (if 0 \<le> i \<and> i < int (length xs) then Some (xs ! nat i) else None)"

definition arr_set :: "'a list \<Rightarrow> int \<Rightarrow> 'a \<Rightarrow> 'a list option" where
  "arr_set xs i x = (if 0 \<le> i \<and> i < int (length xs) then Some (xs[nat i := x]) else None)"

lemma arr_get_nat [simp]: "k < length xs \<Longrightarrow> arr_get xs (int k) = Some (xs ! k)"
  by (simp add: arr_get_def)

lemma arr_set_nat [simp]: "k < length xs \<Longrightarrow> arr_set xs (int k) x = Some (xs[k := x])"
  by (simp add: arr_set_def)

lemma arr_get_eq_None: "arr_get xs i = None \<longleftrightarrow> i < 0 \<or> int (length xs) \<le> i"
  by (auto simp: arr_get_def)

lemma arr_get_SomeD: "arr_get xs i = Some x \<Longrightarrow> \<exists>k. i = int k \<and> k < length xs \<and> x = xs ! k"
  by (auto simp: arr_get_def split: if_splits intro!: exI [of _ "nat i"])

section \<open>The C for loop\<close>

text \<open>
  \<open>for_loop i n body s\<close> is \<open>for (; i < n; i++) body\<close> on the loop state \<open>s\<close>; a body
  without defined behaviour ends the run.
\<close>

function for_loop :: "int \<Rightarrow> int \<Rightarrow> (int \<Rightarrow> 's \<Rightarrow> 's option) \<Rightarrow> 's \<Rightarrow> 's option" where
  "for_loop i n body s =
     (if i < n then body i s \<bind> (\<lambda>s'. for_loop (i + 1) n body s') else Some s)"
  by pat_completeness auto
termination
  by (relation "measure (\<lambda>(i, n, body, s). nat (n - i))") auto

declare for_loop.simps [simp del]

lemma for_loop_done [simp]: "n \<le> i \<Longrightarrow> for_loop i n body s = Some s"
  by (simp add: for_loop.simps)

lemma for_loop_step: "i < n \<Longrightarrow> for_loop i n body s = body i s \<bind> for_loop (i + 1) n body"
  by (simp add: for_loop.simps [of i])

text \<open>Total correctness of a loop over \<open>0..<n\<close> by an invariant indexed with the counter.\<close>

lemma for_loop_invariant:
  assumes "P k s" and "k \<le> n"
    and "\<And>j t. k \<le> j \<Longrightarrow> j < n \<Longrightarrow> P j t \<Longrightarrow> \<exists>t'. body (int j) t = Some t' \<and> P (Suc j) t'"
  shows "\<exists>s'. for_loop (int k) (int n) body s = Some s' \<and> P n s'"
  using assms
proof (induction "n - k" arbitrary: k s)
  case 0
  then show ?case by simp
next
  case (Suc d)
  from Suc.hyps(2) have kn: "k < n" by simp
  with Suc.prems obtain t where t: "body (int k) s = Some t" "P (Suc k) t" by blast
  have "\<exists>s'. for_loop (int (Suc k)) (int n) body t = Some s' \<and> P n s'"
    using Suc.hyps(2) kn t(2) Suc.prems(3) by (intro Suc.hyps(1)) auto
  then show ?case using kn t(1) by (simp add: for_loop_step add.commute)
qed

lemma for_loop_invariant0:
  assumes "P 0 s" and "\<And>j t. j < n \<Longrightarrow> P j t \<Longrightarrow> \<exists>t'. body (int j) t = Some t' \<and> P (Suc j) t'"
  obtains s' where "for_loop 0 (int n) body s = Some s'" and "P n s'"
  using for_loop_invariant [of P 0 s n body] assms by auto

text \<open>A loop whose body has a total functional reading is an iteration of that function.\<close>

lemma for_loop_fold:
  assumes "\<And>j s. k \<le> j \<Longrightarrow> j < n \<Longrightarrow> body (int j) s = Some (f j s)"
  shows "for_loop (int k) (int n) body s = Some (fold f [k..<n] s)"
  using assms
proof (induction "n - k" arbitrary: k s)
  case 0
  then show ?case by simp
next
  case (Suc d)
  from Suc.hyps(2) have kn: "k < n" by simp
  have "for_loop (int (Suc k)) (int n) body (f k s) = Some (fold f [Suc k..<n] (f k s))"
    using Suc.hyps(2) kn Suc.prems by (intro Suc.hyps(1)) auto
  then show ?case using kn Suc.prems by (simp add: for_loop_step upt_conv_Cons add.commute)
qed

lemma fold_upt_nth:
  "fold (\<lambda>j. f (xs ! j)) [0..<length xs] s = fold f xs s"
proof -
  have "fold (\<lambda>j. f (xs ! j)) [0..<length xs] s = fold f (map ((!) xs) [0..<length xs]) s"
    by (simp add: fold_map comp_def)
  then show ?thesis by (simp add: map_nth)
qed

text \<open>A loop that reads the cells of an array in turn folds over the list.\<close>

lemma for_loop_arr_fold [c_defs]:
  "for_loop 0 (int (length xs)) (\<lambda>i s. arr_get xs i \<bind> (\<lambda>x. Some (g x s))) s0 = Some (fold g xs s0)"
proof -
  have "for_loop (int 0) (int (length xs)) (\<lambda>i s. arr_get xs i \<bind> (\<lambda>x. Some (g x s))) s0
      = Some (fold (\<lambda>j. g (xs ! j)) [0..<length xs] s0)"
    by (rule for_loop_fold) simp
  then show ?thesis by (simp add: fold_upt_nth)
qed

text \<open>Such a loop is undefined exactly when it runs past the end of the array.\<close>

lemma for_loop_arr_None:
  assumes "0 \<le> i" and "i \<le> int (length xs)" and "int (length xs) < n"
  shows "for_loop i n (\<lambda>i s. arr_get xs i \<bind> (\<lambda>x. Some (g x s))) s0 = None"
  using assms
proof (induction "nat (int (length xs) - i)" arbitrary: i s0)
  case 0
  then have "arr_get xs i = None" and "i < n" by (simp_all add: arr_get_def)
  then show ?case by (subst for_loop_step) simp_all
next
  case (Suc d)
  then have i: "arr_get xs i = Some (xs ! nat i)" "i < n" by (simp_all add: arr_get_def)
  have "for_loop (i + 1) n (\<lambda>i s. arr_get xs i \<bind> (\<lambda>x. Some (g x s))) (g (xs ! nat i) s0) = None"
    using Suc.hyps(2) Suc.prems by (intro Suc.hyps(1)) auto
  then show ?case using i by (subst for_loop_step) simp_all
qed

text \<open>Updating every cell in turn is a map.\<close>

lemma take_update_Suc:
  "k < length xs \<Longrightarrow> (map f (take k xs) @ drop k xs)[k := f (xs ! k)]
     = map f (take (Suc k) xs) @ drop (Suc k) xs"
  by (rule nth_equalityI) (auto simp: nth_append nth_list_update less_Suc_eq min_def)

lemma fold_update_map:
  assumes "n \<le> length xs"
  shows "fold (\<lambda>j ys. ys[j := f (ys ! j)]) [0..<n] xs = map f (take n xs) @ drop n xs"
  using assms
proof (induction n)
  case 0
  then show ?case by simp
next
  case (Suc n)
  then have n: "n < length xs" by simp
  have at: "(map f (take n xs) @ drop n xs) ! n = xs ! n"
    using n by (simp add: nth_append)
  show ?case
    using n Suc.IH at take_update_Suc [OF n, of f] by simp
qed

lemma fold_update_map_all:
  "fold (\<lambda>j ys. ys[j := f (ys ! j)]) [0..<length xs] xs = map f xs"
  by (simp add: fold_update_map)

section \<open>Shifts and division\<close>

text \<open>A 64-bit right shift by an \<open>int\<close> is undefined outside \<open>0..63\<close>.\<close>

definition u64_shr :: "u64 \<Rightarrow> int \<Rightarrow> u64 option" where
  "u64_shr x k = (if 0 \<le> k \<and> k < 64 then Some (drop_bit (nat k) x) else None)"

lemma u64_shr_0 [simp]: "u64_shr x 0 = Some x"
  by (simp add: u64_shr_def)

text \<open>C's \<open>/\<close> and \<open>%\<close> on \<open>int\<close> truncate towards zero.\<close>

abbreviation c_div :: "int \<Rightarrow> int \<Rightarrow> int" where "c_div a b \<equiv> a sdiv b"
abbreviation c_mod :: "int \<Rightarrow> int \<Rightarrow> int" where "c_mod a b \<equiv> a smod b"

lemma c_div_nonneg: "0 \<le> a \<Longrightarrow> 0 < b \<Longrightarrow> c_div a b = a div b"
  by (simp add: signed_divide_int_def sgn_if)

lemma c_mod_nonneg: "0 \<le> a \<Longrightarrow> 0 < b \<Longrightarrow> c_mod a b = a mod b"
  by (cases "a = 0") (simp_all add: signed_modulo_int_def sgn_if)

section \<open>Words as numbers\<close>

lemma unat_u64_add [u64_nat]: "unat (a + b :: u64) = (unat a + unat b) mod 2 ^ 64"
  by (simp add: unat_word_ariths)

lemma unat_u64_mult [u64_nat]: "unat (a * b :: u64) = (unat a * unat b) mod 2 ^ 64"
  by (simp add: unat_word_ariths)

lemma unat_u64_add_small: "unat a + unat b < 2 ^ 64 \<Longrightarrow> unat (a + b :: u64) = unat a + unat b"
  by (simp add: unat_u64_add)

lemma unat_u64_mult_small: "unat a * unat b < 2 ^ 64 \<Longrightarrow> unat (a * b :: u64) = unat a * unat b"
  by (simp add: unat_u64_mult)

lemma unat_u64_sub: "b \<le> a \<Longrightarrow> unat (a - b :: u64) = unat a - unat b"
  by (rule unat_sub)

lemma unat_shr [u64_nat]: "unat (drop_bit n a :: 'a::len word) = unat a div 2 ^ n"
  by (metis drop_bit_eq_div unat_drop_bit_eq)

lemma unat_u64_lt [simp]: "unat (x :: u64) < 18446744073709551616"
  by (rule unsigned_less [where 'b = 64, simplified])

lemma unat_u32_lt [simp]: "unat (x :: u32) < 4294967296"
  by (rule unsigned_less [where 'b = 32, simplified])

lemma unat_of_nat_u64: "k < 18446744073709551616 \<Longrightarrow> unat (of_nat k :: u64) = k"
  by (simp add: unsigned_of_nat take_bit_nat_eq_self)

lemma of_nat_u64_nonzero: "k < 2 ^ 64 \<Longrightarrow> k \<noteq> 0 \<Longrightarrow> (of_nat k :: u64) \<noteq> 0"
proof
  assume k: "k < 2 ^ 64" "k \<noteq> 0" and "(of_nat k :: u64) = 0"
  then have "unat (of_nat k :: u64) = 0" by simp
  then show False using unat_of_nat_u64 [of k] k by simp
qed

lemma unat_ucast_u32_u64 [simp]: "unat (ucast (x :: u32) :: u64) = unat x"
  by (simp add: unsigned_ucast_eq take_bit_nat_eq_self_iff order_less_trans [OF unat_u32_lt])

lemma unat_ucast_u64_u128 [simp]: "unat (ucast (x :: u64) :: u128) = unat x"
  by (simp add: unsigned_ucast_eq take_bit_nat_eq_self_iff order_less_trans [OF unat_u64_lt])

lemma unat_ucast_u32_u128 [simp]: "unat (ucast (x :: u32) :: u128) = unat x"
  by (simp add: unsigned_ucast_eq take_bit_nat_eq_self_iff order_less_trans [OF unat_u32_lt])

lemma unat_ucast_u64_u32: "unat (ucast (x :: u64) :: u32) = unat x mod 2 ^ 32"
  by (simp add: unsigned_ucast_eq take_bit_eq_mod)

lemma unat_ucast_u128_u64: "unat (ucast (x :: u128) :: u64) = unat x mod 18446744073709551616"
  by (simp add: unsigned_ucast_eq take_bit_eq_mod)

text \<open>The wide product of a u64 and a u64 (or u32) in \<open>__uint128_t\<close> never wraps.\<close>

lemma unat_wide_mult:
  assumes "unat a < 18446744073709551616" and "unat b < 18446744073709551616"
  shows "unat (a * b :: u128) = unat a * unat b"
proof -
  have "unat a * unat b < 18446744073709551616 * 18446744073709551616"
    using assms by (intro mult_strict_mono) auto
  then show ?thesis by (simp add: unat_word_ariths)
qed

text \<open>The multiply-and-shift every component uses: \<open>(u64)(((__uint128_t)a * b) >> n)\<close>.\<close>

definition mul_shr :: "u64 \<Rightarrow> u64 \<Rightarrow> nat \<Rightarrow> u64" where
  "mul_shr a b n = ucast (drop_bit n (ucast a * ucast b :: u128))"

lemma unat_mul_shr [u64_nat]:
  "unat (mul_shr a b n) = (unat a * unat b div 2 ^ n) mod 2 ^ 64"
  by (simp add: mul_shr_def unat_ucast_u128_u64 unat_shr unat_wide_mult unat_u64_lt)

lemma unat_mul_shr_small:
  assumes "unat b \<le> 2 ^ n"
  shows "unat (mul_shr a b n) = unat a * unat b div 2 ^ n"
proof -
  have "unat a * unat b div 2 ^ n \<le> unat a * 2 ^ n div 2 ^ n"
    using assms by (intro div_le_mono mult_le_mono2)
  also have "\<dots> < 18446744073709551616" by simp
  finally show ?thesis by (simp add: unat_mul_shr)
qed

end
