(* ===== verification/IEEE_Double.thy ===== *)
theory IEEE_Double
  imports Prelude
begin

text \<open>
  The C type \<open>double\<close> as IEEE 754 binary64, executable. A finite double is its rational
  value (the two zeros are one value: nothing the program computes or prints separates
  them), and there are two infinities and one NaN. An operation computes the exact rational
  result and rounds it once, to nearest with ties to even, with the exponent range and the
  subnormals of binary64 (src/apex-cfs/Makefile builds with -std=c11, which forbids
  contraction, so each C operation is one rounding). Comparisons with NaN are false.
  The lemmas give what the components need of rounding: it is monotone, exact on values with
  at most 53 significant bits, and off by at most half a unit in the last place.
\<close>

datatype f64 = Fin rat | Inf bool | NaN  \<comment> \<open>\<open>Inf True\<close> is minus infinity\<close>

section \<open>Rounding\<close>

definition ilog2 :: "rat \<Rightarrow> int" where
  "ilog2 x = (let (p, q) = quotient_of x; k = bitlen p - bitlen q
              in if 2 powi k \<le> x then k else k - 1)"

text \<open>Round half to even, to an integer.\<close>

definition rne :: "rat \<Rightarrow> int" where
  "rne x = (let f = \<lfloor>x\<rfloor>; d = x - of_int f
            in if d < 1 / 2 then f else if 1 / 2 < d then f + 1 else if even f then f else f + 1)"

text \<open>The exponent of the unit in the last place, and rounding to a multiple of it.\<close>

definition ulp_exp :: "rat \<Rightarrow> int" where
  "ulp_exp x = max (ilog2 \<bar>x\<bar> - 52) (- 1074)"

definition rnd :: "rat \<Rightarrow> rat" where
  "rnd x = (if x = 0 then 0
            else let u = 2 powi ulp_exp x in of_int (rne (x / u)) * u)"

definition fround :: "rat \<Rightarrow> f64" where
  "fround x = (let r = rnd x in if r \<noteq> 0 \<and> 1024 \<le> ilog2 \<bar>r\<bar> then Inf (x < 0) else Fin r)"

section \<open>Operations\<close>

fun f_add :: "f64 \<Rightarrow> f64 \<Rightarrow> f64" where
  "f_add (Fin x) (Fin y) = fround (x + y)"
| "f_add NaN _ = NaN"
| "f_add _ NaN = NaN"
| "f_add (Inf s) (Inf t) = (if s = t then Inf s else NaN)"
| "f_add (Inf s) (Fin _) = Inf s"
| "f_add (Fin _) (Inf s) = Inf s"

fun f_neg :: "f64 \<Rightarrow> f64" where
  "f_neg (Fin x) = Fin (- x)"
| "f_neg (Inf s) = Inf (\<not> s)"
| "f_neg NaN = NaN"

definition f_sub :: "f64 \<Rightarrow> f64 \<Rightarrow> f64" where
  "f_sub x y = f_add x (f_neg y)"

fun f_mul :: "f64 \<Rightarrow> f64 \<Rightarrow> f64" where
  "f_mul (Fin x) (Fin y) = fround (x * y)"
| "f_mul NaN _ = NaN"
| "f_mul _ NaN = NaN"
| "f_mul (Inf s) (Inf t) = Inf (s \<noteq> t)"
| "f_mul (Inf s) (Fin y) = (if y = 0 then NaN else Inf (s \<noteq> (y < 0)))"
| "f_mul (Fin x) (Inf t) = (if x = 0 then NaN else Inf ((x < 0) \<noteq> t))"

fun f_div :: "f64 \<Rightarrow> f64 \<Rightarrow> f64" where
  "f_div (Fin x) (Fin y) =
     (if y = 0 then (if x = 0 then NaN else Inf (x < 0)) else fround (x / y))"
| "f_div NaN _ = NaN"
| "f_div _ NaN = NaN"
| "f_div (Inf _) (Inf _) = NaN"
| "f_div (Inf s) (Fin y) = Inf (s \<noteq> (y < 0))"
| "f_div (Fin _) (Inf _) = Fin 0"

fun f_abs :: "f64 \<Rightarrow> f64" where
  "f_abs (Fin x) = Fin \<bar>x\<bar>"
| "f_abs (Inf _) = Inf False"
| "f_abs NaN = NaN"

fun f_lt :: "f64 \<Rightarrow> f64 \<Rightarrow> bool" where
  "f_lt (Fin x) (Fin y) = (x < y)"
| "f_lt (Inf s) (Fin _) = s"
| "f_lt (Fin _) (Inf t) = (\<not> t)"
| "f_lt (Inf s) (Inf t) = (s \<and> \<not> t)"
| "f_lt _ _ = False"

abbreviation f_gt :: "f64 \<Rightarrow> f64 \<Rightarrow> bool" where "f_gt x y \<equiv> f_lt y x"

fun f_eq :: "f64 \<Rightarrow> f64 \<Rightarrow> bool" where
  "f_eq (Fin x) (Fin y) = (x = y)"
| "f_eq (Inf s) (Inf t) = (s = t)"
| "f_eq _ _ = False"

definition f_le :: "f64 \<Rightarrow> f64 \<Rightarrow> bool" where
  "f_le x y = (f_lt x y \<or> f_eq x y)"

text \<open>
  Conversions: from an integer with one rounding, to \<open>u64\<close> by truncation towards zero,
  undefined when the truncated value is not representable. A decimal constant of the
  source is the double nearest to it.
\<close>

definition f_of_int :: "int \<Rightarrow> f64" where
  "f_of_int n = fround (of_int n)"

definition f_of_u64 :: "u64 \<Rightarrow> f64" where
  "f_of_u64 w = f_of_int (uint w)"

definition f_of_u32 :: "u32 \<Rightarrow> f64" where
  "f_of_u32 w = f_of_int (uint w)"

definition rat_trunc :: "rat \<Rightarrow> int" where
  "rat_trunc x = (if 0 \<le> x then \<lfloor>x\<rfloor> else \<lceil>x\<rceil>)"

fun f_to_u64 :: "f64 \<Rightarrow> u64 option" where
  "f_to_u64 (Fin x) = (let t = rat_trunc x in if 0 \<le> t \<and> t < 2 ^ 64 then Some (of_int t) else None)"
| "f_to_u64 _ = None"

fun is_fin :: "f64 \<Rightarrow> bool" where
  "is_fin (Fin _) = True"
| "is_fin _ = False"

fun f_val :: "f64 \<Rightarrow> rat" where
  "f_val (Fin x) = x"
| "f_val _ = 0"

section \<open>C notation for doubles\<close>

instantiation f64 :: "{zero, one, plus, minus, uminus, times, inverse, abs, ord}"
begin

definition zero_f64 :: f64 where "0 = Fin 0"
definition one_f64 :: f64 where "1 = Fin 1"
definition plus_f64 :: "f64 \<Rightarrow> f64 \<Rightarrow> f64" where "plus_f64 = f_add"
definition minus_f64 :: "f64 \<Rightarrow> f64 \<Rightarrow> f64" where "minus_f64 = f_sub"
definition uminus_f64 :: "f64 \<Rightarrow> f64" where "uminus_f64 = f_neg"
definition times_f64 :: "f64 \<Rightarrow> f64 \<Rightarrow> f64" where "times_f64 = f_mul"
definition divide_f64 :: "f64 \<Rightarrow> f64 \<Rightarrow> f64" where "divide_f64 = f_div"
definition inverse_f64 :: "f64 \<Rightarrow> f64" where "inverse_f64 = f_div (Fin 1)"
definition abs_f64 :: "f64 \<Rightarrow> f64" where "abs_f64 = f_abs"
definition less_f64 :: "f64 \<Rightarrow> f64 \<Rightarrow> bool" where "less_f64 = f_lt"
definition less_eq_f64 :: "f64 \<Rightarrow> f64 \<Rightarrow> bool" where "less_eq_f64 = f_le"

instance ..

end

text \<open>A decimal constant: \<open>dec m k\<close> is the double nearest to \<open>m / 10 ^ k\<close>.\<close>

definition dec :: "int \<Rightarrow> nat \<Rightarrow> f64" where
  "dec m k = fround (of_int m / 10 ^ k)"

section \<open>The binary logarithm\<close>

lemma powi_add_rat: "(2::rat) powi (a + b) = 2 powi a * 2 powi b"
  by (simp add: power_int_add)

lemma powi_Suc_rat: "(2::rat) powi (a + 1) = 2 * 2 powi a"
  by (simp add: power_int_add)

lemma powi_pos [simp]: "0 < (2::rat) powi a"
  by simp

lemma powi_mono: "a \<le> b \<Longrightarrow> (2::rat) powi a \<le> 2 powi b"
  by (rule power_int_increasing) auto

lemma powi_less_iff: "(2::rat) powi a < 2 powi b \<longleftrightarrow> a < b"
  by (metis linorder_not_less one_less_numeral_iff power_int_strict_increasing powi_mono semiring_norm(76))

lemma powi_nat: "0 \<le> a \<Longrightarrow> (2::rat) powi a = 2 ^ nat a"
  by (simp add: power_int_def)

lemma powi_is_int: "0 \<le> a \<Longrightarrow> \<exists>n. (2::rat) powi a = of_int n"
  by (rule exI [of _ "2 ^ nat a"]) (simp add: powi_nat)

lemma bitlen_rat_bounds:
  assumes "0 < p"
  shows "2 powi (bitlen p - 1) \<le> (of_int p :: rat)" and "of_int p < (2::rat) powi bitlen p"
proof -
  have b12: "2 ^ nat (bitlen p - 1) \<le> p" "p < 2 ^ nat (bitlen p)"
    using bitlen_bounds [OF assms] by auto
  then have "bitlen p \<noteq> 0" using assms by auto
  with b12 have b: "2 ^ nat (bitlen p - 1) \<le> p" "p < 2 ^ nat (bitlen p)" "0 < bitlen p"
    using bitlen_nonneg [of p] by auto
  have "(of_int (2 ^ nat (bitlen p - 1)) :: rat) \<le> of_int p"
    using b(1) by (rule of_int_le_iff [THEN iffD2])
  then show "2 powi (bitlen p - 1) \<le> (of_int p :: rat)"
    using b(3) by (simp add: powi_nat)
  have "(of_int p :: rat) < of_int (2 ^ nat (bitlen p))"
    using b(2) by (rule of_int_less_iff [THEN iffD2])
  then show "of_int p < (2::rat) powi bitlen p"
    using b(3) by (simp add: powi_nat)
qed

lemma ilog2_bounds:
  assumes "0 < x"
  shows "2 powi ilog2 x \<le> x" and "x < 2 powi (ilog2 x + 1)"
proof -
  obtain p q where pq: "quotient_of x = (p, q)" by (cases "quotient_of x")
  have q: "0 < q" using pq quotient_of_denom_pos by blast
  have x: "x = of_int p / of_int q" using pq by (rule quotient_of_div)
  have p: "0 < p" using assms q unfolding x by (simp add: zero_less_divide_iff)
  define k where "k = bitlen p - bitlen q"
  have "x < 2 powi bitlen p / 2 powi (bitlen q - 1)"
    unfolding x using bitlen_rat_bounds [OF p] bitlen_rat_bounds [OF q] q p
    by (intro frac_less) auto
  also have "\<dots> = 2 powi (k + 1)"
    by (simp add: k_def algebra_simps flip: power_int_diff)
  finally have hi: "x < 2 powi (k + 1)" .
  have "2 powi (bitlen p - 1) / 2 powi bitlen q < x"
    unfolding x using bitlen_rat_bounds [OF p] bitlen_rat_bounds [OF q] q p
    by (intro frac_less2) auto
  then have lo: "2 powi (k - 1) < x"
    by (simp add: k_def algebra_simps flip: power_int_diff)
  show "2 powi ilog2 x \<le> x" "x < 2 powi (ilog2 x + 1)"
    using hi lo by (auto simp: ilog2_def pq k_def [symmetric])
qed

lemma ilog2_ge: "0 < x \<Longrightarrow> 2 powi e \<le> x \<Longrightarrow> e \<le> ilog2 x"
  using ilog2_bounds(2) [of x] powi_less_iff [of e "ilog2 x + 1"] by linarith

lemma ilog2_le: "0 < x \<Longrightarrow> x < 2 powi (e + 1) \<Longrightarrow> ilog2 x \<le> e"
  using ilog2_bounds(1) [of x] powi_less_iff [of "ilog2 x" "e + 1"] by linarith

lemma ilog2_eqI: "2 powi e \<le> x \<Longrightarrow> x < 2 powi (e + 1) \<Longrightarrow> ilog2 x = e"
  by (meson antisym ilog2_ge ilog2_le less_le_trans powi_pos)

lemma ilog2_mono: "0 < x \<Longrightarrow> x \<le> y \<Longrightarrow> ilog2 x \<le> ilog2 y"
  using ilog2_bounds(1) [of x] ilog2_ge [of y] by force

section \<open>Rounding to an integer\<close>

text \<open>The integer part \<open>n\<close> and the fraction \<open>d\<close> determine the result.\<close>

lemma rne_cases:
  assumes "x = of_int n + d" and "0 \<le> d" and "d < 1"
  shows "rne x = (if d < 1 / 2 then n else if 1 / 2 < d then n + 1 else if even n then n else n + 1)"
proof -
  have "\<lfloor>x\<rfloor> = n" using assms by (intro floor_unique) auto
  then show ?thesis using assms(1) by (simp add: rne_def)
qed

lemma floor_split_rat: "\<exists>n d. (x::rat) = of_int n + d \<and> 0 \<le> d \<and> d < 1"
  by (intro exI [of _ "\<lfloor>x\<rfloor>"] exI [of _ "x - of_int \<lfloor>x\<rfloor>"])
    (use floor_correct [of x] in auto)

lemma rne_error: "\<bar>of_int (rne x) - x\<bar> \<le> 1 / 2"
proof -
  obtain n d where "x = of_int n + d" "0 \<le> d" "d < 1" using floor_split_rat by blast
  then show ?thesis by (auto simp: rne_cases)
qed

lemma rne_of_int [simp]: "rne (of_int n) = n"
  by (simp add: rne_def)

lemma rne_numeral [simp]: "rne (numeral n) = numeral n"
  using rne_of_int [of "numeral n"] by simp

lemma rne_0 [simp]: "rne 0 = 0" and rne_1 [simp]: "rne 1 = 1"
  using rne_of_int [of 0] rne_of_int [of 1] by simp_all

lemma rne_mono:
  assumes "x \<le> y" shows "rne x \<le> rne y"
proof (rule ccontr)
  assume "\<not> rne x \<le> rne y"
  then have "of_int (rne y) + 1 \<le> (of_int (rne x) :: rat)"
    by (metis linorder_not_le of_int_1 of_int_add of_int_le_iff zless_imp_add1_zle)
  with rne_error [of x] rne_error [of y] assms have "x = y" by linarith
  with \<open>\<not> rne x \<le> rne y\<close> show False by simp
qed

lemma rne_minus [simp]: "rne (- x) = - rne x"
proof -
  obtain n d where x: "x = of_int n + d" "0 \<le> d" "d < 1" using floor_split_rat by blast
  show ?thesis
  proof (cases "d = 0")
    case True
    then have "x = of_int n" "- x = of_int (- n)" using x by simp_all
    then show ?thesis by (simp only: rne_of_int)
  next
    case False
    have m: "- x = of_int (- n - 1) + (1 - d)" "0 \<le> 1 - d" "1 - d < 1" using x False by auto
    show ?thesis unfolding rne_cases [OF m] rne_cases [OF x] by (auto simp: even_diff)
  qed
qed

section \<open>Rounding to double precision\<close>

lemma rnd_0 [simp]: "rnd 0 = 0"
  by (simp add: rnd_def)

lemma ulp_exp_minus [simp]: "ulp_exp (- x) = ulp_exp x"
  by (simp add: ulp_exp_def)

lemma rnd_minus [simp]: "rnd (- x) = - rnd x"
  by (simp add: rnd_def Let_def)

lemma rnd_pos_def: "0 < x \<Longrightarrow> rnd x = of_int (rne (x / 2 powi ulp_exp x)) * 2 powi ulp_exp x"
  by (simp add: rnd_def Let_def)

lemma rnd_error: "\<bar>rnd x - x\<bar> \<le> 2 powi ulp_exp x / 2"
proof (cases "x = 0")
  case False
  define u :: rat where "u = 2 powi ulp_exp x"
  have u: "0 < u" by (simp add: u_def)
  have "rnd x - x = (of_int (rne (x / u)) - x / u) * u"
    using False u by (simp add: rnd_def u_def [symmetric] left_diff_distrib)
  then have "\<bar>rnd x - x\<bar> = \<bar>of_int (rne (x / u)) - x / u\<bar> * u"
    using u by (simp add: abs_mult)
  also have "\<dots> \<le> 1 / 2 * u"
    using rne_error u by (intro mult_right_mono) auto
  finally show ?thesis by (simp add: u_def)
qed simp

text \<open>In the normal range the relative error is at most \<open>2 powi (- 53)\<close>.\<close>

lemma rnd_rel_error:
  assumes "2 powi (- 1022) \<le> \<bar>x\<bar>"
  shows "\<bar>rnd x - x\<bar> \<le> \<bar>x\<bar> * 2 powi (- 53)"
proof -
  have x: "0 < \<bar>x\<bar>" using assms powi_pos [of "- 1022"] by linarith
  have "- 1022 \<le> ilog2 \<bar>x\<bar>" using x assms by (rule ilog2_ge)
  then have e: "ulp_exp x = ilog2 \<bar>x\<bar> - 52" by (simp add: ulp_exp_def)
  have "(2::rat) powi ulp_exp x / 2 = 2 powi ilog2 \<bar>x\<bar> * 2 powi (- 53)"
    by (simp add: e power_int_diff power_int_minus field_simps)
  also have "\<dots> \<le> \<bar>x\<bar> * 2 powi (- 53)"
    using ilog2_bounds(1) [OF x] by (intro mult_right_mono) auto
  finally show ?thesis using rnd_error [of x] by linarith
qed

lemma rnd_grid:
  assumes "x \<noteq> 0" and "x = of_int m * 2 powi ulp_exp x"
  shows "rnd x = x"
proof -
  have "x / 2 powi ulp_exp x = of_int m" by (subst (1) assms(2)) simp
  then show ?thesis using assms by (simp add: rnd_def)
qed

text \<open>Values with at most 53 significant bits, and the powers of two, are exact.\<close>

lemma of_int_times_powi_grid:
  assumes "e \<le> k" shows "\<exists>n. (of_int m * 2 powi k :: rat) = of_int n * 2 powi e"
proof -
  obtain d where d: "(2::rat) powi (k - e) = of_int d" using powi_is_int [of "k - e"] assms by auto
  have "(2::rat) powi k = 2 powi (k - e) * 2 powi e" by (simp flip: power_int_add)
  then show ?thesis by (intro exI [of _ "m * d"]) (simp add: d)
qed

lemma rnd_exact:
  assumes x: "x = of_int m * 2 powi k" and m: "\<bar>m\<bar> \<le> 2 ^ 53" and k: "- 1074 \<le> k"
  shows "rnd x = x"
proof (cases "x = 0")
  case False
  then have pos: "0 < \<bar>x\<bar>" by simp
  have ax: "\<bar>x\<bar> = of_int \<bar>m\<bar> * 2 powi k" by (simp add: x abs_mult)
  show ?thesis
  proof (cases "ulp_exp x \<le> k")
    case True
    then obtain n where "x = of_int n * 2 powi ulp_exp x"
      using of_int_times_powi_grid [of "ulp_exp x" k m] x by auto
    then show ?thesis using rnd_grid False by blast
  next
    case e: False
    then have "k + 53 \<le> ilog2 \<bar>x\<bar>" using k by (simp add: ulp_exp_def)
    then have "2 powi (k + 53) \<le> \<bar>x\<bar>"
      using ilog2_bounds(1) [OF pos] powi_mono order_trans by blast
    then have "(of_int (2 ^ 53) :: rat) \<le> of_int \<bar>m\<bar>"
      by (simp add: ax power_int_add)
    then have m53: "\<bar>m\<bar> = 2 ^ 53" using m by (metis antisym of_int_le_iff)
    then have "\<bar>x\<bar> = 2 powi (k + 53)" by (simp add: ax power_int_add)
    then have "ilog2 \<bar>x\<bar> = k + 53" by (simp add: ilog2_eqI powi_less_iff)
    then have "ulp_exp x = k + 1" using e k by (auto simp: ulp_exp_def)
    moreover have "x = of_int (sgn m * 2 ^ 52) * 2 powi (k + 1)"
      using m53 by (simp add: x power_int_add sgn_if abs_if split: if_splits)
    ultimately show ?thesis using rnd_grid False by metis
  qed
qed simp

lemma rnd_of_int: "\<bar>n\<bar> \<le> 2 ^ 53 \<Longrightarrow> rnd (of_int n) = of_int n"
  using rnd_exact [of "of_int n" n 0] by simp

lemma rnd_1 [simp]: "rnd 1 = 1"
  using rnd_of_int [of 1] by simp

lemma rnd_powi: "- 1074 \<le> k \<Longrightarrow> rnd (2 powi k) = 2 powi k"
  using rnd_exact [of "2 powi k" 1 k] by simp

text \<open>Rounding is monotone, so it never crosses a representable value.\<close>

lemma rnd_nonneg: "0 \<le> x \<Longrightarrow> 0 \<le> rnd x"
  using rne_mono [of 0 "x / 2 powi ulp_exp x"] by (simp add: rnd_def Let_def)

lemma rnd_mono_pos:
  assumes x: "0 < x" and xy: "x \<le> y"
  shows "rnd x \<le> rnd y"
proof -
  have y: "0 < y" using x xy by simp
  let ?e = "ulp_exp x" and ?f = "ulp_exp y"
  have ef: "?e \<le> ?f" using ilog2_mono [OF x xy] x y by (simp add: ulp_exp_def)
  show ?thesis
  proof (cases "?e = ?f")
    case True
    then show ?thesis
      using rne_mono [of "x / 2 powi ?e" "y / 2 powi ?e"] xy x y
      by (simp add: rnd_pos_def divide_right_mono)
  next
    case False
    then have f: "?f = ilog2 y - 52" and lt: "ilog2 x + 1 \<le> ilog2 y" and el: "?e \<le> ilog2 y"
      using ef x y by (auto simp: ulp_exp_def max_def split: if_splits)
    let ?P = "(2::rat) powi ilog2 y"
    have xP: "x \<le> ?P" using ilog2_bounds(2) [OF x] powi_mono [OF lt] by linarith
    have Py: "?P \<le> y" by (rule ilog2_bounds(1) [OF y])
    obtain n where n: "?P = of_int n * 2 powi ?e"
      using of_int_times_powi_grid [OF el, of 1] by auto
    have "rne (x / 2 powi ?e) \<le> n"
      using rne_mono [of "x / 2 powi ?e" "of_int n"] xP by (simp add: n divide_le_eq)
    then have "(of_int (rne (x / 2 powi ?e)) :: rat) \<le> of_int n" by (rule of_int_le_iff [THEN iffD2])
    then have lo: "rnd x \<le> ?P" unfolding n using x by (simp add: rnd_pos_def)
    have P52: "?P = of_int (2 ^ 52) * 2 powi ?f" by (simp add: f power_int_diff)
    have "2 ^ 52 \<le> rne (y / 2 powi ?f)"
      using rne_mono [of "of_int (2 ^ 52)" "y / 2 powi ?f"] Py by (simp add: P52 le_divide_eq)
    then have "(of_int (2 ^ 52) :: rat) \<le> of_int (rne (y / 2 powi ?f))"
      by (rule of_int_le_iff [THEN iffD2])
    then have "?P \<le> rnd y" unfolding P52 using y by (simp add: rnd_pos_def)
    with lo show ?thesis by simp
  qed
qed

lemma rnd_mono:
  assumes "x \<le> y" shows "rnd x \<le> rnd y"
proof (cases "0 < x \<or> y < 0")
  case True
  then show ?thesis
    using assms rnd_mono_pos [of x y] rnd_mono_pos [of "- y" "- x"] by auto
next
  case False
  then show ?thesis
    using rnd_nonneg [of y] rnd_nonneg [of "- x"] by (simp add: linorder_not_less)
qed

lemma rnd_le_rep: "x \<le> y \<Longrightarrow> rnd y = y \<Longrightarrow> rnd x \<le> y"
  using rnd_mono [of x y] by simp

lemma rnd_ge_rep: "y \<le> x \<Longrightarrow> rnd y = y \<Longrightarrow> y \<le> rnd x"
  using rnd_mono [of y x] by simp

section \<open>Operations on finite doubles\<close>

lemma rnd_abs: "\<bar>rnd x\<bar> = rnd \<bar>x\<bar>"
  using rnd_nonneg [of x] rnd_nonneg [of "- x"] by (auto simp: abs_if)

lemma rnd_abs_le: "\<bar>x\<bar> \<le> y \<Longrightarrow> rnd y = y \<Longrightarrow> \<bar>rnd x\<bar> \<le> y"
  by (simp only: rnd_abs rnd_le_rep)

lemma fround_small:
  assumes "\<bar>x\<bar> \<le> 2 ^ 1023" shows "fround x = Fin (rnd x)"
proof -
  have p: "(2::rat) ^ 1023 = 2 powi 1023" by (simp only: power_int_numeral)
  have rep: "rnd (2 ^ 1023) = 2 ^ 1023" unfolding p by (rule rnd_powi) simp
  have "\<bar>rnd x\<bar> \<le> 2 ^ 1023"
    by (rule rnd_abs_le [OF assms rep])
  then have "rnd x \<noteq> 0 \<Longrightarrow> ilog2 \<bar>rnd x\<bar> \<le> 1023"
    unfolding p by (intro ilog2_le) (auto simp only: zero_less_abs_iff powi_Suc_rat intro: le_less_trans)
  then show ?thesis by (auto simp: fround_def Let_def)
qed

lemma fround_below: "\<bar>x\<bar> \<le> 2 ^ n \<Longrightarrow> n \<le> 1023 \<Longrightarrow> fround x = Fin (rnd x)"
  by (rule fround_small) (rule order_trans, assumption, rule power_increasing, auto)

lemma fround_nonneg_below:
  assumes "0 \<le> x" and "x \<le> 2 ^ n" and "n \<le> 1023"
  shows "fround x = Fin (rnd x) \<and> 0 \<le> rnd x \<and> rnd x \<le> 2 ^ n"
proof -
  have "\<bar>x\<bar> \<le> 2 ^ n" using assms(1,2) by simp
  then have "fround x = Fin (rnd x)" using assms(3) by (rule fround_below)
  moreover have "rnd x \<le> 2 ^ n" using assms(2) rnd_powi [of "int n"]
    by (intro rnd_le_rep) (simp_all add: powi_nat)
  ultimately show ?thesis using rnd_nonneg [OF assms(1)] by simp
qed

lemma fround_eq_Fin: "fround x = Fin y \<Longrightarrow> y = rnd x"
  by (auto simp: fround_def Let_def split: if_splits)

lemma fround_0 [simp]: "fround 0 = Fin 0"
  by (simp add: fround_def)

lemma f_of_int_small: "\<bar>n\<bar> \<le> 2 ^ 53 \<Longrightarrow> f_of_int n = Fin (of_int n)"
proof -
  assume n: "\<bar>n\<bar> \<le> 2 ^ 53"
  then have "\<bar>of_int n :: rat\<bar> \<le> 2 ^ 53" by (metis of_int_abs of_int_le_iff of_int_numeral of_int_power)
  then show ?thesis unfolding f_of_int_def using rnd_of_int [OF n] by (subst fround_below [of _ 53]) simp_all
qed

lemma f_of_int_64: "0 \<le> n \<Longrightarrow> n < 2 ^ 64 \<Longrightarrow> f_of_int n = Fin (rnd (of_int n))"
proof -
  assume n: "0 \<le> n" "n < 2 ^ 64"
  then have "(of_int n :: rat) \<le> of_int (2 ^ 64)" by (intro of_int_le_iff [THEN iffD2]) simp
  then have "\<bar>of_int n :: rat\<bar> \<le> 2 ^ 64" using n(1) by simp
  then show ?thesis unfolding f_of_int_def by (rule fround_below) simp
qed

lemma f_of_u64_Fin: "f_of_u64 w = Fin (rnd (of_int (uint w)))"
  using uint_bounded [of w] by (simp add: f_of_u64_def f_of_int_64)

lemma f_of_u32_exact: "f_of_u32 w = Fin (of_int (uint w))"
  using uint_bounded [of w] by (simp add: f_of_u32_def f_of_int_small)

lemma f_of_u64_exact: "uint w \<le> 2 ^ 53 \<Longrightarrow> f_of_u64 w = Fin (of_int (uint w))"
  by (simp only: f_of_u64_def f_of_int_small uint_ge_0 abs_of_nonneg)

lemmas f64_ops [simp] =
  zero_f64_def one_f64_def plus_f64_def minus_f64_def uminus_f64_def times_f64_def
  divide_f64_def abs_f64_def less_f64_def

lemma f_sub_Fin [simp]: "f_sub (Fin x) (Fin y) = fround (x - y)"
  by (simp add: f_sub_def)

text \<open>No comparison holds of NaN.\<close>

lemma f_lt_NaN [simp]: "\<not> f_lt NaN x" "\<not> f_lt x NaN"
  by (cases x; simp)+

section \<open>Evaluation on numerals\<close>

text \<open>
  Rounding a quotient of positive integers by integer arithmetic alone. The equations make
  closed double arithmetic a matter of \<open>simp add: f64_eval\<close>.
\<close>

named_theorems f64_eval "evaluation of closed double arithmetic"

definition qlog :: "int \<Rightarrow> int \<Rightarrow> int" where
  "qlog a b = (let k = bitlen a - bitlen b
               in if 0 \<le> k then (if b * 2 ^ nat k \<le> a then k else k - 1)
                  else (if b \<le> a * 2 ^ nat (- k) then k else k - 1))"

definition rne_div :: "int \<Rightarrow> int \<Rightarrow> int" where
  "rne_div a b = (let q = a div b; r = 2 * (a mod b)
                  in if r < b then q else if b < r then q + 1 else if even q then q else q + 1)"

definition rnd_div :: "int \<Rightarrow> int \<Rightarrow> rat" where
  "rnd_div a b = (let e = max (qlog a b - 52) (- 1074)
                  in if 0 \<le> e then of_int (rne_div a (b * 2 ^ nat e) * 2 ^ nat e)
                     else of_int (rne_div (a * 2 ^ nat (- e)) b) / 2 ^ nat (- e))"

primrec num_bits :: "num \<Rightarrow> int" where
  "num_bits num.One = 1"
| "num_bits (num.Bit0 n) = num_bits n + 1"
| "num_bits (num.Bit1 n) = num_bits n + 1"

lemma rne_div_eq: "0 < b \<Longrightarrow> rne (of_int a / of_int b) = rne_div a b"
proof -
  assume b: "0 < b"
  have "(of_int a :: rat) = of_int (a div b) * of_int b + of_int (a mod b)"
    by (metis div_mult_mod_eq of_int_add of_int_mult)
  then have "of_int a / of_int b = (of_int (a div b) + of_int (a mod b) / of_int b :: rat)"
    using b by (simp add: field_simps)
  moreover have "0 \<le> (of_int (a mod b) / of_int b :: rat)" "of_int (a mod b) / of_int b < (1 :: rat)"
    using b by simp_all
  ultimately have *: "rne (of_int a / of_int b) =
      (if of_int (a mod b) / of_int b < (1 / 2 :: rat) then a div b
       else if 1 / 2 < (of_int (a mod b) / of_int b :: rat) then a div b + 1
       else if even (a div b) then a div b else a div b + 1)"
    by (rule rne_cases)
  have "of_int (a mod b) / of_int b < (1 / 2 :: rat) \<longleftrightarrow> of_int (2 * (a mod b)) < (of_int b :: rat)"
    "1 / 2 < (of_int (a mod b) / of_int b :: rat) \<longleftrightarrow> of_int b < (of_int (2 * (a mod b)) :: rat)"
    using b by (simp_all add: field_simps)
  then show ?thesis unfolding * by (simp only: rne_div_def Let_def of_int_less_iff)
qed

lemma powi_le_quot_iff:
  assumes "0 < a" "0 < b"
  shows "2 powi k \<le> (of_int a / of_int b :: rat) \<longleftrightarrow>
    (if 0 \<le> k then b * 2 ^ nat k \<le> a else b \<le> a * 2 ^ nat (- k))"
proof (cases "0 \<le> k")
  case True
  then have "2 powi k \<le> (of_int a / of_int b :: rat) \<longleftrightarrow> of_int (b * 2 ^ nat k) \<le> (of_int a :: rat)"
    using assms by (simp add: powi_nat field_simps)
  then show ?thesis using True by (simp only: of_int_le_iff if_True)
next
  case False
  then have "2 powi k \<le> (of_int a / of_int b :: rat) \<longleftrightarrow> of_int b \<le> (of_int (a * 2 ^ nat (- k)) :: rat)"
    using assms by (simp add: power_int_def field_simps)
  then show ?thesis using False by (simp only: of_int_le_iff if_False)
qed

lemma qlog_eq: "0 < a \<Longrightarrow> 0 < b \<Longrightarrow> ilog2 (of_int a / of_int b) = qlog a b"
proof -
  assume a: "0 < a" and b: "0 < b"
  define k where "k = bitlen a - bitlen b"
  let ?x = "of_int a / of_int b :: rat"
  have "?x < 2 powi bitlen a / 2 powi (bitlen b - 1)"
    using bitlen_rat_bounds [OF a] bitlen_rat_bounds [OF b] a b by (intro frac_less) auto
  also have "\<dots> = 2 powi (k + 1)" by (simp add: k_def algebra_simps flip: power_int_diff)
  finally have hi: "?x < 2 powi (k + 1)" .
  have "2 powi (bitlen a - 1) / 2 powi bitlen b < ?x"
    using bitlen_rat_bounds [OF a] bitlen_rat_bounds [OF b] a b by (intro frac_less2) auto
  then have lo: "2 powi (k - 1) < ?x" by (simp add: k_def algebra_simps flip: power_int_diff)
  have "ilog2 ?x = (if 2 powi k \<le> ?x then k else k - 1)"
    using hi lo by (auto intro: ilog2_eqI)
  then show ?thesis using powi_le_quot_iff [OF a b, of k] by (simp add: qlog_def k_def [symmetric])
qed

lemma rnd_div_eq: "0 < a \<Longrightarrow> 0 < b \<Longrightarrow> rnd (of_int a / of_int b) = rnd_div a b"
proof -
  assume a: "0 < a" and b: "0 < b"
  define e where "e = max (qlog a b - 52) (- 1074)"
  have u: "ulp_exp (of_int a / of_int b) = e" using a b by (simp add: ulp_exp_def e_def qlog_eq)
  have r: "rnd (of_int a / of_int b) = of_int (rne (of_int a / of_int b / 2 powi e)) * 2 powi e"
    using a b by (simp add: rnd_pos_def u)
  show ?thesis
  proof (cases "0 \<le> e")
    case True
    then have "of_int a / of_int b / 2 powi e = (of_int a / of_int (b * 2 ^ nat e) :: rat)"
      by (simp add: powi_nat)
    moreover have "rne (of_int a / of_int (b * 2 ^ nat e)) = rne_div a (b * 2 ^ nat e)"
      using b by (intro rne_div_eq) simp
    ultimately have "rne (of_int a / of_int b / 2 powi e) = rne_div a (b * 2 ^ nat e)" by (simp only:)
    then show ?thesis using True by (simp add: r rnd_div_def Let_def e_def [symmetric] powi_nat)
  next
    case False
    then have p: "2 powi e = (1 / 2 ^ nat (- e) :: rat)" by (simp add: power_int_def field_simps)
    have "of_int a / of_int b / 2 powi e = (of_int (a * 2 ^ nat (- e)) / of_int b :: rat)"
      by (simp add: p)
    then have "rne (of_int a / of_int b / 2 powi e) = rne_div (a * 2 ^ nat (- e)) b"
      using b by (simp only: rne_div_eq)
    then show ?thesis using False by (simp add: r rnd_div_def Let_def e_def [symmetric] p)
  qed
qed

lemma rnd_code [code]:
  "rnd x = (let (p, q) = quotient_of x
            in if p = 0 then 0 else if 0 < p then rnd_div p q else - rnd_div (- p) q)"
proof -
  obtain p q where pq: "quotient_of x = (p, q)" by (cases "quotient_of x")
  have q: "0 < q" using pq quotient_of_denom_pos by blast
  have x: "x = of_int p / of_int q" using pq by (rule quotient_of_div)
  have "rnd x = - rnd_div (- p) q" if "p < 0"
  proof -
    have "x = - (of_int (- p) / of_int q)" by (simp add: x)
    then show ?thesis using that q rnd_div_eq [of "- p" q] by (simp only: rnd_minus)
  qed
  then show ?thesis using q rnd_div_eq [of p q] x unfolding pq by auto
qed

lemma bitlen_numeral [f64_eval]: "bitlen (numeral n) = num_bits n"
proof (induction n)
  case One
  then show ?case by (simp add: compute_bitlen [of 1])
next
  case (Bit0 n)
  have "numeral (num.Bit0 n) div 2 = (numeral n :: int)" by simp
  then show ?case using Bit0 by (subst compute_bitlen) simp
next
  case (Bit1 n)
  have "numeral (num.Bit1 n) div 2 = (numeral n :: int)" by simp
  then show ?case using Bit1 by (subst compute_bitlen) simp
qed

lemma bitlen_1 [f64_eval]: "bitlen 1 = 1"
  by (simp add: compute_bitlen [of 1])

lemma fround_div:
  assumes "0 < a" "0 < b" "bitlen a - bitlen b \<le> 1000"
  shows "fround (of_int a / of_int b) = Fin (rnd_div a b)"
proof -
  have x: "0 < (of_int a / of_int b :: rat)" using assms by simp
  have "ilog2 (of_int a / of_int b) \<le> 1000"
    using assms by (auto simp: qlog_eq qlog_def Let_def)
  then have "of_int a / of_int b < (2::rat) powi 1001"
    using ilog2_bounds(2) [OF x] powi_mono [of "ilog2 (of_int a / of_int b) + 1" 1001] by linarith
  then have "of_int a / of_int b \<le> (2::rat) ^ 1001" by (simp only: power_int_numeral less_imp_le)
  then have "\<bar>of_int a / of_int b :: rat\<bar> \<le> 2 ^ 1001" using x by (simp only: abs_of_pos)
  then have "fround (of_int a / of_int b) = Fin (rnd (of_int a / of_int b))"
    by (rule fround_below) simp
  then show ?thesis using assms by (simp add: rnd_div_eq)
qed

lemma fround_numeral [f64_eval]:
  "num_bits m - num_bits n \<le> 1000 \<Longrightarrow>
     fround (numeral m / numeral n) = Fin (rnd_div (numeral m) (numeral n))"
  "num_bits m \<le> 1000 \<Longrightarrow> fround (numeral m) = Fin (rnd_div (numeral m) 1)"
  "fround (1 / numeral n) = Fin (rnd_div 1 (numeral n))"
  "fround 1 = Fin 1"
  using fround_div [of "numeral m" "numeral n"] fround_div [of "numeral m" 1]
    fround_div [of 1 "numeral n"] fround_div [of 1 1] rnd_div_eq [of 1 1] bitlen_nonneg [of "numeral n"]
  by (simp_all add: bitlen_numeral bitlen_1)

lemma fround_minus: "fround (- x) = f_neg (fround x)"
  by (cases "x = 0") (auto simp: fround_def Let_def)

lemma fround_minus_numeral [f64_eval]:
  "fround (- (numeral m / numeral n)) = f_neg (fround (numeral m / numeral n))"
  "fround (- numeral m) = f_neg (fround (numeral m))"
  "fround (- (1 / numeral n)) = f_neg (fround (1 / numeral n))"
  "fround (- 1) = Fin (- 1)"
  using fround_minus [of 1] by (simp_all only: fround_minus fround_numeral f_neg.simps)

lemmas [f64_eval] = rnd_div_def rne_div_def qlog_def f_of_u64_def f_of_u32_def f_of_int_def dec_def
  rat_trunc_def f_le_def less_eq_f64_def Let_def

section \<open>Error tracking\<close>

text \<open>
  \<open>near x v e\<close>: the double is finite and within \<open>e\<close> of the real value \<open>v\<close>. Below 2 one
  rounding costs at most \<open>2 powi (- 53)\<close>, which is less than \<open>1 / 10 ^ 15\<close>.
\<close>

definition near :: "f64 \<Rightarrow> rat \<Rightarrow> rat \<Rightarrow> bool" where
  "near x v e \<longleftrightarrow> (\<exists>q. x = Fin q \<and> \<bar>q - v\<bar> \<le> e)"

lemma rnd_error_unit:
  assumes "\<bar>x\<bar> < 2" shows "\<bar>rnd x - x\<bar> \<le> 1 / 10 ^ 15"
proof (cases "x = 0")
  case False
  have "ilog2 \<bar>x\<bar> \<le> 0" by (rule ilog2_le) (use False assms in simp_all)
  then have "ulp_exp x \<le> - 52" by (simp add: ulp_exp_def)
  then have "(2::rat) powi ulp_exp x \<le> 2 powi (- 52)" by (rule powi_mono)
  also have "\<dots> = 1 / 2 ^ 52" by (simp add: power_int_minus inverse_eq_divide)
  finally have "(2::rat) powi ulp_exp x / 2 \<le> 1 / 10 ^ 15" by simp
  then show ?thesis using rnd_error [of x] by linarith
qed simp

lemma near_fround:
  assumes "\<bar>x - v\<bar> \<le> e" and "\<bar>v\<bar> + e < 2"
  shows "near (fround x) v (e + 1 / 10 ^ 15)"
proof -
  have x: "\<bar>x\<bar> < 2" using assms by linarith
  then have "fround x = Fin (rnd x)" by (intro fround_below [of _ 1]) simp_all
  moreover have "\<bar>rnd x - v\<bar> \<le> e + 1 / 10 ^ 15"
    using rnd_error_unit [OF x] assms(1) by linarith
  ultimately show ?thesis by (simp add: near_def)
qed

lemma near_dec:
  assumes "\<bar>of_int m / 10 ^ k :: rat\<bar> < 2"
  shows "near (dec m k) (of_int m / 10 ^ k) (1 / 10 ^ 15)"
  using near_fround [of "of_int m / 10 ^ k" "of_int m / 10 ^ k" 0] assms by (simp add: dec_def)

lemma near_neg: "near x v e \<Longrightarrow> near (- x) (- v) e"
  by (auto simp: near_def)

lemma near_add:
  assumes "near x v e" and "near y w f" and "\<bar>v + w\<bar> + (e + f) < 2"
  shows "near (x + y) (v + w) (e + f + 1 / 10 ^ 15)"
proof -
  obtain q r where qr: "x = Fin q" "\<bar>q - v\<bar> \<le> e" "y = Fin r" "\<bar>r - w\<bar> \<le> f"
    using assms(1,2) by (auto simp: near_def)
  then have "\<bar>(q + r) - (v + w)\<bar> \<le> e + f" by linarith
  then show ?thesis using near_fround [OF _ assms(3)] qr by simp
qed

lemma near_mult_int:
  assumes "near x v e" and "\<bar>n\<bar> \<le> k" and "k \<le> 1000" and "of_int k * (\<bar>v\<bar> + e) < 2"
  shows "near (f_of_int n * x) (of_int n * v) (of_int k * e + 1 / 10 ^ 15)"
proof -
  obtain q where q: "x = Fin q" "\<bar>q - v\<bar> \<le> e" using assms(1) by (auto simp: near_def)
  then have e: "0 \<le> e" by linarith
  have nk: "\<bar>of_int n :: rat\<bar> \<le> of_int k" using assms(2) by (metis of_int_abs of_int_le_iff)
  have "\<bar>n\<bar> \<le> 2 ^ 53" using assms(2,3) by simp
  then have n: "f_of_int n = Fin (of_int n)" by (rule f_of_int_small)
  have "\<bar>of_int n * q - of_int n * v\<bar> = \<bar>of_int n\<bar> * \<bar>q - v\<bar>"
    by (simp add: abs_mult [symmetric] right_diff_distrib)
  also have "\<dots> \<le> of_int k * e" using nk q(2) e by (intro mult_mono) auto
  finally have 1: "\<bar>of_int n * q - of_int n * v\<bar> \<le> of_int k * e" .
  have "\<bar>of_int n * v\<bar> \<le> of_int k * \<bar>v\<bar>" unfolding abs_mult using nk by (intro mult_right_mono) auto
  then have "\<bar>of_int n * v\<bar> + of_int k * e < 2" using assms(4) by (simp add: distrib_left)
  then show ?thesis using near_fround [OF 1] n q(1) by simp
qed

lemma near_weaken: "near x v e \<Longrightarrow> e \<le> f \<Longrightarrow> near x v f"
  by (auto simp: near_def)

text \<open>Clamping to the unit interval does not move a value away from a point of the interval.\<close>

lemma near_clamp:
  assumes "near x v e" and "0 \<le> v" and "v \<le> 1"
  shows "near (let r = (if 1 < x then 1 else x) in if r < 0 then 0 else r) v e"
proof -
  obtain q where q: "x = Fin q" "\<bar>q - v\<bar> \<le> e" using assms(1) by (auto simp: near_def)
  then show ?thesis using assms(2,3) by (auto simp: near_def Let_def)
qed

end
