(* ===== verification/Task.thy ===== *)
theory Task
  imports IEEE_Double
begin

text \<open>
  src/apex-cfs/src/task.h and task.c: the kernel constants and tables, the task, the
  runqueue and the metrics record, task creation, and the runqueue bookkeeping. C macros are
  abbreviations, structs are records with the fields in the order of the source. A pointer to
  a runqueue is a \<open>cfs_rq ptr\<close> and its array of tasks is a list behind a pointer; an
  operation that writes through its pointer returns the pointer to the written object.
  The warnings printed on stdout are not part of the state.
\<close>

section \<open>Constants and tables\<close>

abbreviation (input) NICE_0_LOAD :: u32 where "NICE_0_LOAD \<equiv> 1024"
abbreviation (input) LOAD_AVG_PERIOD :: int where "LOAD_AVG_PERIOD \<equiv> 32"
abbreviation (input) LOAD_AVG_MAX :: u64 where "LOAD_AVG_MAX \<equiv> 47742"
abbreviation (input) TICK_NS :: u64 where "TICK_NS \<equiv> 1000000"
abbreviation (input) WMULT_SHIFT :: int where "WMULT_SHIFT \<equiv> 32"

abbreviation (input) APAF_TIGHT :: int where "APAF_TIGHT \<equiv> 0"
abbreviation (input) APAF_MEDIUM :: int where "APAF_MEDIUM \<equiv> 1"
abbreviation (input) APAF_LOOSE :: int where "APAF_LOOSE \<equiv> 2"

definition runnable_avg_yN_inv :: "u32 list" where
  "runnable_avg_yN_inv =
    [0xffffffff, 0xfa83b2da, 0xf5257d14, 0xefe4b99a,
     0xeac0c6e6, 0xe5b906e6, 0xe0ccdeeb, 0xdbfbb796,
     0xd744fcc9, 0xd2a81d91, 0xce248c14, 0xc9b9bd85,
     0xc5672a10, 0xc12c4cc9, 0xbd08a39e, 0xb8fbaf46,
     0xb504f333, 0xb123f581, 0xad583ee9, 0xa9a15ab4,
     0xa5fed6a9, 0xa2704302, 0x9ef5325f, 0x9b8d39b9,
     0x9837f050, 0x94f4efa8, 0x91c3d373, 0x8ea4398a,
     0x8b95c1e3, 0x88980e80, 0x85aac367, 0x82cd8698]"

definition nice_to_weight :: "int list" where
  "nice_to_weight =
    [88761, 71755, 56483, 46273, 36291,
     29154, 23254, 18705, 14949, 11916,
      9548,  7620,  6100,  4904,  3906,
      3121,  2501,  1991,  1586,  1277,
      1024,   820,   655,   526,   423,
       335,   272,   215,   172,   137,
       110,    87,    70,    56,    45,
        36,    29,    23,    18,    15]"

section \<open>Tasks, runqueues, metrics\<close>

record cfs_task =
  t_id :: int
  nice :: int
  weight :: u64
  vruntime :: u64
  load_avg :: u64
  load_sum :: u64
  exec_runtime :: u64
  runnable :: int

record cfs_rq =
  tasks :: "cfs_task list ptr"
  nr_tasks :: int
  nr_running :: int
  clock :: u64
  tick :: u64
  approx_mode :: int
  apaf_state :: int
  jain_index :: f64

record metrics =
  m_tick :: u64
  logic_used :: int
  m_jain_index :: f64
  max_error_pct :: f64
  avg_error_pct :: f64
  ops_saved :: u64
  m_apaf_state :: int

section \<open>Operations\<close>

definition task_create :: "int \<Rightarrow> int \<Rightarrow> cfs_task option" where
  "task_create ident nc =
     (let clamped = (if nc < - 20 then - 20 else if 19 < nc then 19 else nc)
      in do {
        w \<leftarrow> arr_get nice_to_weight (clamped + 20);
        Some \<lparr>t_id = ident, nice = clamped, weight = word_of_int w, vruntime = 0,
              load_avg = 0, load_sum = 0, exec_runtime = 0, runnable = 1\<rparr>
      })"

definition task_set_runnable :: "cfs_task ptr \<Rightarrow> int \<Rightarrow> cfs_task ptr" where
  "task_set_runnable p r =
     (case p of NULL \<Rightarrow> NULL
      | Ref t \<Rightarrow> if r \<noteq> 0 \<and> r \<noteq> 1 then Ref (t\<lparr>runnable := 0\<rparr>)
                 else Ref (t\<lparr>runnable := r\<rparr>))"

definition task_get_weight :: "cfs_task ptr \<Rightarrow> u32" where
  "task_get_weight p = (case p of NULL \<Rightarrow> 0 | Ref t \<Rightarrow> ucast (weight t))"

definition rq_init :: "cfs_task list ptr \<Rightarrow> int \<Rightarrow> int \<Rightarrow> cfs_rq option" where
  "rq_init ts n mode0 =
     (let mode = (if mode0 < 0 \<or> 3 < mode0 then 0 else mode0)
      in do {
        running \<leftarrow>
          (case ts of NULL \<Rightarrow> Some 0
           | Ref xs \<Rightarrow>
               if 0 < n then
                 for_loop 0 n (\<lambda>i running. arr_get xs i \<bind>
                   (\<lambda>t. Some (if runnable t = 1 then running + 1 else running))) 0
               else Some 0);
        Some \<lparr>tasks = ts, nr_tasks = n, nr_running = running, clock = 0, tick = 0,
              approx_mode = mode, apaf_state = APAF_MEDIUM, jain_index = 1\<rparr>
      })"

definition rq_tick :: "cfs_rq ptr \<Rightarrow> cfs_rq ptr" where
  "rq_tick p = (case p of NULL \<Rightarrow> NULL
     | Ref rq \<Rightarrow> Ref (rq\<lparr>tick := tick rq + 1, clock := clock rq + TICK_NS\<rparr>))"

text \<open>The count is returned and, through a cast that drops \<open>const\<close>, stored in the runqueue.\<close>

definition rq_count_running :: "cfs_rq ptr \<Rightarrow> (int \<times> cfs_rq ptr) option" where
  "rq_count_running p =
     (case p of NULL \<Rightarrow> Some (0, p)
      | Ref rq \<Rightarrow>
          (case tasks rq of NULL \<Rightarrow> Some (0, p)
           | Ref xs \<Rightarrow>
               if nr_tasks rq \<le> 0 then Some (0, p)
               else do {
                 count \<leftarrow> for_loop 0 (nr_tasks rq) (\<lambda>i count. arr_get xs i \<bind>
                   (\<lambda>t. Some (if runnable t = 1 then count + 1 else count))) 0;
                 Some (count, Ref (rq\<lparr>nr_running := count\<rparr>))
               }))"

section \<open>Created tasks\<close>

text \<open>Every nice value is clamped into the table, so a task is always created.\<close>

lemma task_create_view:
  "task_create ident nc = Some \<lparr>t_id = ident, nice = max (- 20) (min 19 nc),
     weight = word_of_int (nice_to_weight ! nat (max (- 20) (min 19 nc) + 20)), vruntime = 0,
     load_avg = 0, load_sum = 0, exec_runtime = 0, runnable = 1\<rparr>"
proof -
  have "length nice_to_weight = 40" by (simp add: nice_to_weight_def)
  moreover have "(if nc < - 20 then - 20 else if 19 < nc then 19 else nc) = max (- 20) (min 19 nc)" by auto
  moreover have "0 \<le> max (- 20) (min 19 nc) + 20" "max (- 20) (min 19 nc) + 20 < 40" by linarith+
  ultimately show ?thesis by (simp only: task_create_def arr_get_def Let_def) simp
qed

section \<open>Well-formed runqueues\<close>

text \<open>
  The runqueue's array has exactly the elements the counter says. \<open>rq_view rq xs\<close> also
  names them; every component's lemmas are stated over it.
\<close>

definition rq_view :: "cfs_rq \<Rightarrow> cfs_task list \<Rightarrow> bool" where
  "rq_view rq xs \<longleftrightarrow> tasks rq = Ref xs \<and> nr_tasks rq = int (length xs)"

definition is_runnable :: "cfs_task \<Rightarrow> bool" where
  "is_runnable t \<longleftrightarrow> runnable t = 1"

definition n_running :: "cfs_task list \<Rightarrow> nat" where
  "n_running xs = length (filter is_runnable xs)"

lemma rq_view_tasks: "rq_view rq xs \<Longrightarrow> tasks rq = Ref xs"
  by (simp add: rq_view_def)

lemma rq_view_nr: "rq_view rq xs \<Longrightarrow> nr_tasks rq = int (length xs)"
  by (simp add: rq_view_def)

lemma rq_view_unique: "rq_view rq xs \<Longrightarrow> rq_view rq ys \<Longrightarrow> xs = ys"
  by (simp add: rq_view_def)

lemma rq_view_frame [simp]:
  "rq_view (rq\<lparr>nr_running := a\<rparr>) xs = rq_view rq xs"
  "rq_view (rq\<lparr>clock := b\<rparr>) xs = rq_view rq xs"
  "rq_view (rq\<lparr>tick := c\<rparr>) xs = rq_view rq xs"
  "rq_view (rq\<lparr>apaf_state := d\<rparr>) xs = rq_view rq xs"
  "rq_view (rq\<lparr>jain_index := e\<rparr>) xs = rq_view rq xs"
  by (simp_all add: rq_view_def)

lemma rq_view_tasks_update:
  "rq_view rq xs \<Longrightarrow> length ys = length xs \<Longrightarrow> rq_view (rq\<lparr>tasks := Ref ys\<rparr>) ys"
  by (simp add: rq_view_def)

lemma fold_count_running:
  "fold (\<lambda>t c. if runnable t = 1 then c + 1 else c) xs (c::int) = c + int (n_running xs)"
  by (induction xs arbitrary: c) (auto simp: n_running_def is_runnable_def)

lemma n_running_le: "n_running xs \<le> length xs"
  by (simp add: n_running_def)

lemma n_running_0: "n_running xs = 0 \<longleftrightarrow> (\<forall>t \<in> set xs. \<not> is_runnable t)"
  by (simp add: n_running_def filter_empty_conv)

lemma rq_count_running_view:
  assumes "rq_view rq xs"
  shows "rq_count_running (Ref rq) =
    Some (int (n_running xs), Ref (if xs = [] then rq else rq\<lparr>nr_running := int (n_running xs)\<rparr>))"
proof (cases "xs = []")
  case True
  then show ?thesis using rq_view_tasks [OF assms] rq_view_nr [OF assms]
    by (simp add: rq_count_running_def n_running_def)
next
  case False
  then show ?thesis
    using rq_view_tasks [OF assms] rq_view_nr [OF assms]
      for_loop_arr_fold [of xs "\<lambda>t c. if runnable t = 1 then c + 1 else c" "0::int"]
    by (simp add: rq_count_running_def fold_count_running)
qed

lemma rq_init_view:
  "rq_init (Ref xs) (int (length xs)) mode =
    Some \<lparr>tasks = Ref xs, nr_tasks = int (length xs), nr_running = int (n_running xs), clock = 0,
          tick = 0, approx_mode = (if mode < 0 \<or> 3 < mode then 0 else mode),
          apaf_state = APAF_MEDIUM, jain_index = 1\<rparr>"
  using for_loop_arr_fold [of xs "\<lambda>t c. if runnable t = 1 then c + 1 else c" "0::int"]
  by (cases "xs = []") (simp_all add: rq_init_def fold_count_running Let_def n_running_def [of "[]"])

lemma rq_tick_Ref [simp]: "rq_tick (Ref rq) = Ref (rq\<lparr>tick := tick rq + 1, clock := clock rq + TICK_NS\<rparr>)"
  by (simp add: rq_tick_def)

end
