(* ===== verification/Printf.thy ===== *)
theory Printf
  imports IEEE_Double
begin

text \<open>
  The conversions of \<open>printf\<close> the program uses: \<open>%d\<close>, \<open>%llu\<close>, \<open>%.kf\<close> on integers and doubles.
  \<open>%.kf\<close> prints the exact value rounded to \<open>k\<close> decimals, ties to even, as the C library does
  in the default rounding mode. The sign of a NaN is not modelled and a NaN prints as \<open>nan\<close>.
  The world of a run is its standard output and its files. The readers at the end are the inverse conversions of a consumer of the output.
\<close>

section \<open>Writing\<close>

definition digit :: "nat \<Rightarrow> char" where
  "digit d = ''0123456789'' ! d"

fun fmt_nat :: "nat \<Rightarrow> string" where
  "fmt_nat n = (if n < 10 then [digit n] else fmt_nat (n div 10) @ [digit (n mod 10)])"

declare fmt_nat.simps [simp del]

definition fmt_d :: "int \<Rightarrow> string" where
  "fmt_d i = (if i < 0 then ''-'' @ fmt_nat (nat (- i)) else fmt_nat (nat i))"

definition fmt_llu :: "u64 \<Rightarrow> string" where
  "fmt_llu w = fmt_nat (unat w)"

text \<open>Exactly \<open>k\<close> digits, with leading zeros.\<close>

fun fmt_pad :: "nat \<Rightarrow> nat \<Rightarrow> string" where
  "fmt_pad 0 n = []"
| "fmt_pad (Suc k) n = fmt_pad k (n div 10) @ [digit (n mod 10)]"

fun fmt_f :: "nat \<Rightarrow> f64 \<Rightarrow> string" where
  "fmt_f k (Fin x) =
     (let z = nat (rne (\<bar>x\<bar> * 10 ^ k))
      in (if x < 0 then ''-'' else []) @ fmt_nat (z div 10 ^ k) @ ''.'' @ fmt_pad k (z mod 10 ^ k))"
| "fmt_f k (Inf False) = ''inf''"
| "fmt_f k (Inf True) = ''-inf''"
| "fmt_f k NaN = ''nan''"

text \<open>A string, left-justified in a field of \<open>k\<close> characters: \<open>%-ks\<close>.\<close>

definition fmt_left :: "nat \<Rightarrow> string \<Rightarrow> string" where
  "fmt_left k s = s @ replicate (k - length s) CHR '' ''"

text \<open>Right-justified: \<open>%kllu\<close>, \<open>%k.jf\<close>.\<close>

definition fmt_right :: "nat \<Rightarrow> string \<Rightarrow> string" where
  "fmt_right k s = replicate (k - length s) CHR '' '' @ s"

text \<open>Lines, each with its line break.\<close>

definition nl :: string where "nl = [CHR 0x0A]"

definition lines_of :: "string list \<Rightarrow> string" where
  "lines_of ls = concat (map (\<lambda>l. l @ nl) ls)"

lemma lines_of_append: "lines_of (xs @ ys) = lines_of xs @ lines_of ys"
  by (simp add: lines_of_def)

text \<open>What the program writes: standard output and the files it creates, by name.\<close>

record io =
  stdout :: string
  files :: "string \<rightharpoonup> string"

definition put :: "string \<Rightarrow> io \<Rightarrow> io" where
  "put s w = w\<lparr>stdout := stdout w @ s\<rparr>"

lemma files_put [simp]: "files (put s w) = files w"
  by (simp add: put_def)

text \<open>\<open>fopen\<close> for writing, the writes, and \<open>fclose\<close> of one file.\<close>

definition write_file :: "string \<Rightarrow> string \<Rightarrow> io \<Rightarrow> io" where
  "write_file name s w = w\<lparr>files := (files w)(name \<mapsto> s)\<rparr>"

lemma files_write_file [simp]: "files (write_file name s w) = (files w)(name \<mapsto> s)"
  by (simp add: write_file_def)

lemma put_put: "put t (put s w) = put (s @ t) w"
  by (simp add: put_def)

section \<open>Reading\<close>

definition digit_val :: "char \<Rightarrow> nat option" where
  "digit_val c = (if c \<in> set ''0123456789'' then Some (of_char c - 48) else None)"

definition read_step :: "nat option \<Rightarrow> char \<Rightarrow> nat option" where
  "read_step acc c = (case (acc, digit_val c) of (Some n, Some d) \<Rightarrow> Some (10 * n + d) | _ \<Rightarrow> None)"

definition read_nat :: "string \<Rightarrow> nat option" where
  "read_nat s = (if s = [] then None else foldl read_step (Some 0) s)"

lemma digit_cases: "d < 10 \<Longrightarrow> d = 0 \<or> d = 1 \<or> d = 2 \<or> d = 3 \<or> d = 4 \<or> d = 5 \<or> d = 6 \<or> d = 7 \<or> d = 8 \<or> d = (9::nat)"
  by arith

lemma digit_val_digit: "d < 10 \<Longrightarrow> digit_val (digit d) = Some d"
  by (drule digit_cases, elim disjE) (simp_all add: digit_val_def digit_def)

lemma read_step_digit [simp]: "d < 10 \<Longrightarrow> read_step (Some n) (digit d) = Some (10 * n + d)"
  by (simp add: read_step_def digit_val_digit)

lemma foldl_read_nat: "foldl read_step (Some 0) (fmt_nat n) = Some n"
proof (induction n rule: fmt_nat.induct)
  case (1 n)
  show ?case
  proof (cases "n < 10")
    case True
    then show ?thesis by (subst fmt_nat.simps) simp
  next
    case False
    then show ?thesis using 1 by (subst fmt_nat.simps) simp
  qed
qed

lemma fmt_nat_not_Nil: "fmt_nat n \<noteq> []"
  by (subst fmt_nat.simps) simp

lemma read_fmt_nat: "read_nat (fmt_nat n) = Some n"
  by (simp add: read_nat_def fmt_nat_not_Nil foldl_read_nat)

lemma foldl_read_pad:
  "foldl read_step (Some m) (fmt_pad k n) = Some (m * 10 ^ k + n mod 10 ^ k)"
proof (induction k arbitrary: n)
  case (Suc k)
  have "n mod 10 ^ Suc k = 10 * (n div 10 mod 10 ^ k) + n mod 10"
    by (simp add: mod_mult2_eq mult.commute)
  then show ?case by (simp add: Suc)
qed simp

lemma length_fmt_pad [simp]: "length (fmt_pad k n) = k"
  by (induction k arbitrary: n) simp_all

lemma digit_in: "d < 10 \<Longrightarrow> digit d \<in> set ''0123456789''"
  unfolding digit_def by (rule nth_mem) simp

lemma set_fmt_nat: "set (fmt_nat n) \<subseteq> set ''0123456789''"
proof (induction n rule: fmt_nat.induct)
  case (1 n)
  show ?case
  proof (cases "n < 10")
    case False
    then have "fmt_nat n = fmt_nat (n div 10) @ [digit (n mod 10)]" by (subst fmt_nat.simps) (simp only: if_False)
    then show ?thesis using 1 [OF False] digit_in [of "n mod 10"] by (simp only: set_append) auto
  qed (subst fmt_nat.simps, use digit_in in auto)
qed

lemma set_fmt_pad: "set (fmt_pad k n) \<subseteq> set ''0123456789''"
proof (induction k arbitrary: n)
  case (Suc k)
  then show ?case using digit_in [of "n mod 10"] by (simp only: fmt_pad.simps set_append) auto
qed simp

text \<open>A printed non-negative double, its decimal point removed, is the rounded value.\<close>

lemma read_fmt_f:
  assumes "0 \<le> x"
  shows "read_nat (filter (\<lambda>c. c \<noteq> CHR ''.'') (fmt_f k (Fin x))) = Some (nat (rne (x * 10 ^ k)))"
proof -
  define z where "z = nat (rne (x * 10 ^ k))"
  have keep: "filter (\<lambda>c. c \<noteq> CHR ''.'') s = s" if "set s \<subseteq> set ''0123456789''" for s
    using that by (intro filter_True) auto
  have "filter (\<lambda>c. c \<noteq> CHR ''.'') (fmt_f k (Fin x)) = fmt_nat (z div 10 ^ k) @ fmt_pad k (z mod 10 ^ k)"
    using assms by (simp add: Let_def z_def keep [OF set_fmt_nat] keep [OF set_fmt_pad])
  moreover have "z div 10 ^ k * 10 ^ k + z mod 10 ^ k = z" by (rule div_mult_mod_eq)
  ultimately show ?thesis
    by (simp add: read_nat_def fmt_nat_not_Nil foldl_read_nat foldl_read_pad z_def)
qed

end
