(* ===== verification/Task_Print.thy ===== *)
theory Task_Print
  imports Task Printf
begin

text \<open>
  The two printing functions of src/apex-cfs/src/task.c. What they print is appended to the
  standard output of the world.
\<close>

definition task_lines :: "cfs_task \<Rightarrow> string list" where
  "task_lines t =
    [''[Task id='' @ fmt_d (t_id t) @ '' nice='' @ fmt_d (nice t) @
       '' weight='' @ fmt_nat (unat (ucast (weight t) :: u32)) @ '']'',
     ''  vruntime     = '' @ fmt_llu (vruntime t) @ '' ns'',
     ''  load_avg     = '' @ fmt_llu (load_avg t),
     ''  load_sum     = '' @ fmt_llu (load_sum t),
     ''  exec_runtime = '' @ fmt_llu (exec_runtime t) @ '' ns'',
     ''  runnable     = '' @ fmt_d (runnable t)]"

definition task_print :: "cfs_task ptr \<Rightarrow> io \<Rightarrow> io" where
  "task_print p w = (case p of NULL \<Rightarrow> w | Ref t \<Rightarrow> put (lines_of (task_lines t)) w)"

definition rq_print :: "cfs_rq ptr \<Rightarrow> io \<Rightarrow> io option" where
  "rq_print p w =
     (case p of NULL \<Rightarrow> Some w
      | Ref rq \<Rightarrow>
          let mode_str = (if approx_mode rq = 1 then ''BSA'' else if approx_mode rq = 2 then ''CLTI''
                          else if approx_mode rq = 3 then ''APAF'' else ''EXACT'');
              state_str = (if apaf_state rq = APAF_TIGHT then ''TIGHT''
                           else if apaf_state rq = APAF_LOOSE then ''LOOSE'' else ''MEDIUM'')
          in for_loop 0 (nr_tasks rq) (\<lambda>i w. do {
               xs \<leftarrow> c_deref (tasks rq);
               t \<leftarrow> arr_get xs i;
               Some (task_print (Ref t) w)
             })
             (put (lines_of
               [''[Runqueue tick='' @ fmt_llu (tick rq) @ '' clock='' @ fmt_llu (clock rq) @ '' ns]'',
                ''  nr_tasks    = '' @ fmt_d (nr_tasks rq),
                ''  nr_running  = '' @ fmt_d (nr_running rq),
                ''  approx_mode = '' @ fmt_d (approx_mode rq) @ '' ('' @ mode_str @ '')'',
                ''  apaf_state  = '' @ fmt_d (apaf_state rq) @ '' ('' @ state_str @ '')'',
                ''  jain_index  = '' @ fmt_f 6 (jain_index rq)]) w))"

lemma fold_task_print:
  "fold (\<lambda>t. task_print (Ref t)) xs w = put (concat (map (\<lambda>t. lines_of (task_lines t)) xs)) w"
  by (induction xs arbitrary: w) (simp_all add: task_print_def put_put, simp add: put_def)

text \<open>Printing a well-formed runqueue is defined, and writes the tasks in order at the end.\<close>

lemma rq_print_view:
  assumes "rq_view rq xs"
  shows "\<exists>head. rq_print (Ref rq) w = Some (put (head @ concat (map (\<lambda>t. lines_of (task_lines t)) xs)) w)"
  using for_loop_arr_fold [of xs "\<lambda>t. task_print (Ref t)"] rq_view_tasks [OF assms] rq_view_nr [OF assms]
  by (simp add: rq_print_def fold_task_print put_put) blast

end
