(* ===== verification/Fairness.thy ===== *)
theory Fairness
  imports Task
begin

text \<open>
  src/apex-cfs/src/fairness.h and fairness.c: Jain's index over the runnable tasks, the
  transition function of the APAF controller, CPU shares, ideal shares and the total weight.
  The sums of the index are 64-bit and wrap; the index itself is a double.
\<close>

section \<open>Thresholds\<close>

abbreviation (input) JAIN_LOOSE_TO_MEDIUM :: f64 where "JAIN_LOOSE_TO_MEDIUM \<equiv> dec 93 2"
abbreviation (input) JAIN_MEDIUM_TO_TIGHT :: f64 where "JAIN_MEDIUM_TO_TIGHT \<equiv> dec 90 2"
abbreviation (input) JAIN_MEDIUM_TO_LOOSE :: f64 where "JAIN_MEDIUM_TO_LOOSE \<equiv> dec 97 2"
abbreviation (input) JAIN_TIGHT_TO_MEDIUM :: f64 where "JAIN_TIGHT_TO_MEDIUM \<equiv> dec 95 2"
abbreviation (input) JAIN_MIN_TASKS :: int where "JAIN_MIN_TASKS \<equiv> 2"

section \<open>Jain's index\<close>

text \<open>One iteration of the accumulation loop over \<open>(sum0, sum_sq, n)\<close>.\<close>

definition jain_acc :: "cfs_task \<Rightarrow> u64 \<times> u64 \<times> int \<Rightarrow> u64 \<times> u64 \<times> int" where
  "jain_acc t s =
     (case s of (sum0, sum_sq, n) \<Rightarrow>
        if runnable t = 1
        then let x = exec_runtime t in (sum0 + x, sum_sq + x * x, n + 1)
        else s)"

text \<open>What follows the loop: the guards, the quotient and the clamps.\<close>

definition jain_finish :: "u64 \<times> u64 \<times> int \<Rightarrow> f64" where
  "jain_finish s =
     (case s of (sum0, sum_sq, n) \<Rightarrow>
        if n < JAIN_MIN_TASKS then 1
        else if sum0 = 0 \<or> sum_sq = 0 then 1
        else let j = f_of_u64 (sum0 * sum0) / f_of_u64 (word_of_int n * sum_sq)
             in if 1 < j then 1 else if j < 0 then 0 else j)"

definition fairness_jain_index :: "cfs_rq ptr \<Rightarrow> f64 option" where
  "fairness_jain_index p =
     (case p of NULL \<Rightarrow> Some 1
      | Ref rq \<Rightarrow>
          (case tasks rq of NULL \<Rightarrow> Some 1
           | Ref xs \<Rightarrow>
               if nr_tasks rq \<le> 0 then Some 1
               else do {
                 s \<leftarrow> for_loop 0 (nr_tasks rq) (\<lambda>i s. arr_get xs i \<bind> (\<lambda>t. Some (jain_acc t s)))
                       (0, 0, 0);
                 Some (jain_finish s)
               }))"

section \<open>The controller's transition function\<close>

definition fairness_apaf_next_state :: "int \<Rightarrow> f64 \<Rightarrow> int" where
  "fairness_apaf_next_state current_state jain =
     (let j = (if 1 < jain then 1 else if jain < 0 then 0 else jain)
      in if current_state = APAF_LOOSE then
           (if j < JAIN_LOOSE_TO_MEDIUM then APAF_MEDIUM else APAF_LOOSE)
         else if current_state = APAF_MEDIUM then
           (if j < JAIN_MEDIUM_TO_TIGHT then APAF_TIGHT
            else if JAIN_MEDIUM_TO_LOOSE < j then APAF_LOOSE
            else APAF_MEDIUM)
         else if current_state = APAF_TIGHT then
           (if JAIN_TIGHT_TO_MEDIUM < j then APAF_MEDIUM else APAF_TIGHT)
         else current_state)"

section \<open>Shares and weights\<close>

definition share_acc :: "cfs_task \<Rightarrow> u64 \<times> int \<Rightarrow> u64 \<times> int" where
  "share_acc t s = (case s of (total0, nr) \<Rightarrow>
     if runnable t = 1 then (total0 + exec_runtime t, nr + 1) else s)"

definition share_of :: "u64 \<Rightarrow> int \<Rightarrow> cfs_task \<Rightarrow> f64" where
  "share_of total0 nr t =
     (if runnable t = 1 then
        (if 0 < total0 then f_of_u64 (exec_runtime t) / f_of_u64 total0
         else if 0 < nr then 1 / f_of_int nr
         else 0)
      else 0)"

definition fairness_cpu_shares :: "cfs_rq ptr \<Rightarrow> f64 list ptr \<Rightarrow> int \<Rightarrow> f64 list ptr option" where
  "fairness_cpu_shares p shares max_tasks =
     (case shares of NULL \<Rightarrow> Some shares
      | Ref out \<Rightarrow>
          if max_tasks \<le> 0 then Some shares
          else
            (case (case p of NULL \<Rightarrow> NULL
                   | Ref rq \<Rightarrow> (case tasks rq of NULL \<Rightarrow> NULL
                               | Ref xs \<Rightarrow> if nr_tasks rq \<le> 0 then NULL else Ref (nr_tasks rq, xs))) of
               NULL \<Rightarrow> for_loop 0 max_tasks (\<lambda>i ys. arr_set ys i 0) out \<bind> (\<lambda>ys. Some (Ref ys))
             | Ref (nr, xs) \<Rightarrow> do {
                 let limit = (if nr < max_tasks then nr else max_tasks);
                 (total0, running) \<leftarrow>
                   for_loop 0 limit (\<lambda>i s. arr_get xs i \<bind> (\<lambda>t. Some (share_acc t s))) (0, 0);
                 ys \<leftarrow> for_loop 0 limit
                        (\<lambda>i ys. arr_get xs i \<bind> (\<lambda>t. arr_set ys i (share_of total0 running t))) out;
                 Some (Ref ys)
               }))"

definition fairness_ideal_share :: "u32 \<Rightarrow> u32 \<Rightarrow> f64" where
  "fairness_ideal_share task_weight total_weight =
     (if total_weight = 0 then 0 else f_of_u32 task_weight / f_of_u32 total_weight)"

definition fairness_total_weight :: "cfs_rq ptr \<Rightarrow> u32 option" where
  "fairness_total_weight p =
     (case p of NULL \<Rightarrow> Some 0
      | Ref rq \<Rightarrow>
          (case tasks rq of NULL \<Rightarrow> Some 0
           | Ref xs \<Rightarrow>
               if nr_tasks rq \<le> 0 then Some 0
               else for_loop 0 (nr_tasks rq) (\<lambda>i total0. arr_get xs i \<bind>
                      (\<lambda>t. Some (if runnable t = 1 then total0 + ucast (weight t) else total0))) 0))"

section \<open>The index as a function of the task list\<close>

definition jain_of :: "cfs_task list \<Rightarrow> f64" where
  "jain_of xs = jain_finish (fold jain_acc xs (0, 0, 0))"

lemma fairness_jain_index_view:
  assumes "rq_view rq xs" shows "fairness_jain_index (Ref rq) = Some (jain_of xs)"
proof (cases "xs = []")
  case True
  then show ?thesis using rq_view_tasks [OF assms] rq_view_nr [OF assms]
    by (simp add: fairness_jain_index_def jain_of_def jain_finish_def)
next
  case False
  then show ?thesis using rq_view_tasks [OF assms] rq_view_nr [OF assms]
    by (simp add: fairness_jain_index_def jain_of_def for_loop_arr_fold)
qed

text \<open>
  The wrapped sums are the images of the true sums over the runnable tasks, and only the
  execution times and the runnable flags matter.
\<close>

definition run_times :: "cfs_task list \<Rightarrow> nat list" where
  "run_times xs = map (unat \<circ> exec_runtime) (filter is_runnable xs)"

definition sq_sum :: "nat list \<Rightarrow> nat" where
  "sq_sum es = sum_list (map (\<lambda>e. e * e) es)"

lemma fold_jain_acc:
  "fold jain_acc xs (of_nat a, of_nat b, int c) =
    (of_nat (a + sum_list (run_times xs)), of_nat (b + sq_sum (run_times xs)),
     int (c + length (run_times xs)))"
proof (induction xs arbitrary: a b c)
  case Nil
  then show ?case by (simp add: run_times_def sq_sum_def)
next
  case (Cons t xs)
  have 1: "(of_nat a + exec_runtime t :: u64) = of_nat (a + unat (exec_runtime t))" by simp
  have 2: "(of_nat b + exec_runtime t * exec_runtime t :: u64)
      = of_nat (b + unat (exec_runtime t) * unat (exec_runtime t))" by simp
  have "jain_acc t (of_nat a, of_nat b, int c) =
      (if is_runnable t
       then (of_nat (a + unat (exec_runtime t)),
             of_nat (b + unat (exec_runtime t) * unat (exec_runtime t)), int (Suc c))
       else (of_nat a, of_nat b, int c))"
    unfolding jain_acc_def is_runnable_def Let_def prod.case 1 2 by simp
  then show ?case
    by (simp only: fold_simps Cons.IH if_distrib [of "fold jain_acc xs"] split: if_split)
      (auto simp: run_times_def sq_sum_def simp del: of_nat_add of_nat_mult, auto simp: algebra_simps)
qed

lemma jain_of_sums:
  "jain_of xs = jain_finish (of_nat (sum_list (run_times xs)), of_nat (sq_sum (run_times xs)),
     int (length (run_times xs)))"
  using fold_jain_acc [of xs 0 0 0] by (simp add: jain_of_def)

lemma length_run_times: "length (run_times xs) = n_running xs"
  by (simp add: run_times_def n_running_def)

section \<open>The index without wrap-around\<close>

lemma two_sum_le: "2 * sum_list es * e \<le> sq_sum es + length es * (e * e)" for e :: nat
proof (induction es)
  case (Cons x es)
  have "2 * (int x * int e) \<le> int x * int x + int e * int e"
    using zero_le_square [of "int x - int e"] by (simp add: algebra_simps)
  then have "2 * (x * e) \<le> x * x + e * e"
    by (simp flip: of_nat_mult of_nat_add)
  then show ?case using Cons by (simp add: sq_sum_def algebra_simps)
qed (simp add: sq_sum_def)

lemma cauchy_schwarz: "sum_list es * sum_list es \<le> length es * sq_sum es"
proof (induction es)
  case (Cons e es)
  then show ?case using two_sum_le [of es e] by (simp add: sq_sum_def algebra_simps)
qed (simp add: sq_sum_def)

lemma sum_list_sq_pos: "sum_list es \<noteq> 0 \<Longrightarrow> 0 < sq_sum es"
  using cauchy_schwarz [of es] by (cases "sq_sum es") auto

lemma sum_list_le_sq: "sum_list es \<le> sq_sum es" for es :: "nat list"
  by (induction es) (auto simp: sq_sum_def intro: add_mono)

text \<open>The quotient the code computes, for sums that fit 64 bits.\<close>

definition jain_quot :: "nat list \<Rightarrow> rat" where
  "jain_quot es = rnd (rnd (of_nat (sum_list es * sum_list es)) / rnd (of_nat (length es * sq_sum es)))"

lemma f_of_u64_nat: "k < 2 ^ 64 \<Longrightarrow> f_of_u64 (of_nat k) = Fin (rnd (of_nat k))"
  by (simp add: f_of_u64_Fin unsigned_of_nat take_bit_nat_eq_self)

lemma rnd_nat_ge_1: "1 \<le> k \<Longrightarrow> 1 \<le> rnd (of_nat k)"
  by (rule rnd_ge_rep) simp_all

lemma jain_quot_range:
  assumes "sum_list es \<noteq> 0"
  shows "jain_quot es \<le> 1" and "0 \<le> jain_quot es"
    and "0 < rnd (of_nat (length es * sq_sum es))"
    and "rnd (of_nat (sum_list es * sum_list es)) \<le> rnd (of_nat (length es * sq_sum es))"
proof -
  let ?a = "sum_list es * sum_list es" and ?b = "length es * sq_sum es"
  have "0 < ?a" using assms by (metis nat_0_less_mult_iff neq0_conv)
  then have b: "1 \<le> ?b" using cauchy_schwarz [of es] by linarith
  have ab: "rnd (of_nat ?a) \<le> rnd (of_nat ?b)"
    by (rule rnd_mono) (simp only: of_nat_le_iff cauchy_schwarz)
  have a0: "0 \<le> rnd (of_nat ?a)" by (rule rnd_nonneg) simp
  have b1: "1 \<le> rnd (of_nat ?b)" by (rule rnd_nat_ge_1 [OF b])
  show "rnd (of_nat ?a) \<le> rnd (of_nat ?b)" by (rule ab)
  show "0 < rnd (of_nat ?b)" using b1 by linarith
  have "rnd (of_nat ?a) / rnd (of_nat ?b) \<le> 1" using ab b1 by (simp add: divide_le_eq)
  then show "jain_quot es \<le> 1" unfolding jain_quot_def by (rule rnd_le_rep) simp
  show "0 \<le> jain_quot es" unfolding jain_quot_def by (rule rnd_nonneg) (use a0 b1 in simp)
qed

lemma jain_finish_small:
  assumes "2 \<le> length es" and "length es < 2 ^ 31" and "sum_list es \<noteq> 0" and "length es * sq_sum es < 2 ^ 64"
  shows "jain_finish (of_nat (sum_list es), of_nat (sq_sum es), int (length es)) = Fin (jain_quot es)"
proof -
  let ?S = "sum_list es" and ?Q = "sq_sum es" and ?n = "length es"
  have nQ: "?n * ?Q < 2 ^ 64" by (rule assms(4))
  have SS: "?S * ?S < 2 ^ 64" using cauchy_schwarz [of es] nQ by linarith
  have "2 * ?Q \<le> ?n * ?Q" using assms(1) by (rule mult_le_mono1)
  then have Q: "?Q < 2 ^ 64" using nQ by linarith
  then have S: "?S < 2 ^ 64" using sum_list_le_sq [of es] by linarith
  have S0: "(of_nat ?S :: u64) \<noteq> 0"
    by (rule of_nat_u64_nonzero [OF S assms(3)])
  have Q0: "(of_nat ?Q :: u64) \<noteq> 0"
    by (rule of_nat_u64_nonzero [OF Q]) (use sum_list_sq_pos [OF assms(3)] in simp)
  have num: "f_of_u64 (of_nat ?S * of_nat ?S) = Fin (rnd (of_nat (?S * ?S)))"
    using f_of_u64_nat [OF SS] by (simp only: of_nat_mult)
  have den: "f_of_u64 (word_of_int (int ?n) * of_nat ?Q) = Fin (rnd (of_nat (?n * ?Q)))"
    using f_of_u64_nat [OF nQ] by (simp only: of_nat_mult of_int_of_nat_eq)
  note r = jain_quot_range [OF assms(3)]
  let ?q = "rnd (of_nat (?S * ?S)) / rnd (of_nat (?n * ?Q))"
  have "0 \<le> rnd (of_nat (?S * ?S))" by (rule rnd_nonneg) simp
  then have q: "0 \<le> ?q" "?q \<le> 1" using r(3,4) by simp_all
  then have "\<bar>?q\<bar> \<le> 2 ^ 0" by simp
  then have "fround ?q = Fin (jain_quot es)" unfolding jain_quot_def by (rule fround_below) simp
  then have "f_of_u64 (of_nat ?S * of_nat ?S) / f_of_u64 (word_of_int (int ?n) * of_nat ?Q) = Fin (jain_quot es)"
    using num den r(3) by simp
  then show ?thesis using assms(1) S0 Q0 r(1,2)
    by (simp only: jain_finish_def prod.case Let_def) simp
qed

text \<open>Three roundings away from the real quotient.\<close>

lemma rnd_nat_rel:
  assumes "1 \<le> k" shows "\<bar>rnd (of_nat k) - of_nat k\<bar> \<le> of_nat k * (1 / 2 ^ 53)"
proof -
  have "(2::rat) powi (- 1022) \<le> 2 powi 0" by (rule powi_mono) simp
  also have "\<dots> \<le> \<bar>of_nat k\<bar>" using assms by simp
  finally have "\<bar>rnd (of_nat k) - of_nat k\<bar> \<le> \<bar>of_nat k\<bar> * 2 powi (- 53)" by (rule rnd_rel_error)
  then show ?thesis by (simp add: power_int_minus inverse_eq_divide)
qed

lemma quot_error:
  assumes "0 < a" and "a \<le> b" and "\<bar>a' - a\<bar> \<le> a * d" and "\<bar>b' - b\<bar> \<le> b * d" and "0 \<le> d" and "d \<le> 1 / 2"
  shows "\<bar>a' / b' - a / b\<bar> \<le> 4 * (d :: rat)"
proof -
  have b: "0 < b" using assms(1,2) by simp
  have "b * d \<le> b * (1 / 2)" using b assms(6) by (intro mult_left_mono) auto
  then have b': "b / 2 \<le> b'" using assms(4) by linarith
  then have b0: "0 < b'" using b by linarith
  have "\<bar>a' * b - a * b'\<bar> = \<bar>(a' - a) * b - a * (b' - b)\<bar>" by (simp add: algebra_simps)
  also have "\<dots> \<le> \<bar>a' - a\<bar> * b + a * \<bar>b' - b\<bar>"
    using assms(1) b by (intro order_trans [OF abs_triangle_ineq4]) (simp add: abs_mult)
  also have "\<dots> \<le> a * d * b + a * (b * d)"
    using assms(1,3,4) b by (intro add_mono mult_right_mono mult_left_mono) auto
  also have "\<dots> = 2 * d * b * a" by simp
  also have "\<dots> \<le> 2 * d * b * b" using assms(2,5) b by (intro mult_left_mono) auto
  finally have num: "\<bar>a' * b - a * b'\<bar> \<le> 2 * d * b * b" .
  have "\<bar>a' / b' - a / b\<bar> = \<bar>a' * b - a * b'\<bar> / (b' * b)"
    using b b0 by (simp add: diff_frac_eq abs_divide abs_mult)
  also have "\<dots> \<le> 2 * d * b * b / (b' * b)" using num b b0 by (intro divide_right_mono) auto
  also have "\<dots> = 2 * d * b / b'" using b by simp
  also have "\<dots> \<le> 2 * d * b / (b / 2)" using b b' assms(5) by (intro divide_left_mono) auto
  also have "\<dots> = 4 * d" using b by simp
  finally show ?thesis .
qed

lemma jain_quot_error:
  assumes "sum_list es \<noteq> 0"
  shows "\<bar>jain_quot es - of_nat (sum_list es * sum_list es) / of_nat (length es * sq_sum es)\<bar> \<le> 2 / 10 ^ 15"
proof -
  let ?a = "sum_list es * sum_list es" and ?b = "length es * sq_sum es"
  have a: "1 \<le> ?a" using assms by (metis One_nat_def Suc_leI nat_0_less_mult_iff neq0_conv)
  have ab: "?a \<le> ?b" by (rule cauchy_schwarz)
  then have b: "1 \<le> ?b" using a by linarith
  let ?q = "rnd (of_nat ?a) / rnd (of_nat ?b)"
  have "\<bar>?q - of_nat ?a / of_nat ?b\<bar> \<le> 4 * (1 / 2 ^ 53)"
  proof (rule quot_error)
    show "0 < (of_nat ?a :: rat)" using a by (simp only: of_nat_0_less_iff)
    show "(of_nat ?a :: rat) \<le> of_nat ?b" using ab by (simp only: of_nat_le_iff)
    show "\<bar>rnd (of_nat ?a) - of_nat ?a\<bar> \<le> of_nat ?a * (1 / 2 ^ 53)" by (rule rnd_nat_rel [OF a])
    show "\<bar>rnd (of_nat ?b) - of_nat ?b\<bar> \<le> of_nat ?b * (1 / 2 ^ 53)" by (rule rnd_nat_rel [OF b])
  qed simp_all
  moreover have "0 \<le> rnd (of_nat ?a)" by (rule rnd_nonneg) simp
  then have "\<bar>?q\<bar> < 2" using jain_quot_range(3,4) [OF assms] by (simp add: divide_less_eq)
  then have "\<bar>jain_quot es - ?q\<bar> \<le> 1 / 10 ^ 15" unfolding jain_quot_def by (rule rnd_error_unit)
  moreover have "4 * (1 / 2 ^ 53) + 1 / 10 ^ 15 \<le> (2 / 10 ^ 15 :: rat)" by simp
  ultimately show ?thesis by linarith
qed

lemma jain_of_small:
  assumes "2 \<le> n_running xs" and "n_running xs < 2 ^ 31" and "sum_list (run_times xs) \<noteq> 0"
    and "n_running xs * sq_sum (run_times xs) < 2 ^ 64"
  shows "jain_of xs = Fin (jain_quot (run_times xs))"
  unfolding jain_of_sums
  by (rule jain_finish_small) (use assms in \<open>simp_all only: length_run_times not_False_eq_True\<close>)

section \<open>Properties of the index\<close>

definition jain_task :: "u64 \<Rightarrow> cfs_task" where
  "jain_task x = \<lparr>t_id = 0, nice = 0, weight = 1024, vruntime = 0, load_avg = 0, load_sum = 0,
                 exec_runtime = x, runnable = 1\<rparr>"

definition jain_rq :: "cfs_task list \<Rightarrow> int \<Rightarrow> cfs_rq" where
  "jain_rq xs st = \<lparr>tasks = Ref xs, nr_tasks = int (length xs), nr_running = int (length xs),
     clock = 0, tick = 0, approx_mode = 3, apaf_state = st, jain_index = 1\<rparr>"

lemma jain_rq_view: "rq_view (jain_rq xs st) xs"
  by (simp add: rq_view_def jain_rq_def)

text \<open>
  C19. While the sums fit 64 bits the index of at least two runnable tasks is a double between 0
  and 1 within \<open>2 / 10 ^ 15\<close> of Jain's formula, the square of the sum of the execution times
  over their number times the sum of their squares.
\<close>

theorem jain_index_accurate:
  assumes "rq_view rq xs" and "2 \<le> n_running xs" and "n_running xs < 2 ^ 31"
    and "sum_list (run_times xs) \<noteq> 0" and "n_running xs * sq_sum (run_times xs) < 2 ^ 64"
  shows "\<exists>q. fairness_jain_index (Ref rq) = Some (Fin q) \<and> 0 \<le> q \<and> q \<le> 1 \<and>
    \<bar>q - of_nat (sum_list (run_times xs) * sum_list (run_times xs)) /
         of_nat (n_running xs * sq_sum (run_times xs))\<bar> \<le> 2 / 10 ^ 15"
  using jain_of_small [OF assms(2-5)] jain_quot_range(1,2) [OF assms(4)] jain_quot_error [OF assms(4)]
    fairness_jain_index_view [OF assms(1)]
  by (intro exI [of _ "jain_quot (run_times xs)"]) (simp only: length_run_times)

theorem jain_index_accurate_witness:
  "\<exists>q. fairness_jain_index (Ref (jain_rq [jain_task 3000000, jain_task 1000000] 0)) = Some (Fin q) \<and>
     \<bar>q - 4 / 5\<bar> \<le> 2 / 10 ^ 15"
proof -
  let ?xs = "[jain_task 3000000, jain_task 1000000]"
  have r: "run_times ?xs = [3000000, 1000000]" "n_running ?xs = 2"
    by (simp_all add: run_times_def n_running_def is_runnable_def jain_task_def)
  show ?thesis using jain_index_accurate [OF jain_rq_view, of ?xs 0] by (auto simp: r sq_sum_def)
qed

text \<open>
  Tasks that have run for the same positive time have index exactly 1, in double
  arithmetic too, while the sums fit 64 bits.
\<close>

theorem jain_index_equal:
  assumes "rq_view rq xs" and "2 \<le> n_running xs" and "n_running xs < 2 ^ 31" and "0 < c"
    and "run_times xs = replicate (n_running xs) c" and "n_running xs * (n_running xs * (c * c)) < 2 ^ 64"
  shows "fairness_jain_index (Ref rq) = Some 1"
proof -
  let ?n = "n_running xs"
  have S: "sum_list (run_times xs) = ?n * c" by (subst assms(5)) (simp add: sum_list_replicate)
  have Q: "sq_sum (run_times xs) = ?n * (c * c)"
    by (subst assms(5)) (simp add: sq_sum_def sum_list_replicate)
  have S0: "sum_list (run_times xs) \<noteq> 0" unfolding S using assms(2,4) by simp
  have eq: "sum_list (run_times xs) * sum_list (run_times xs) = length (run_times xs) * sq_sum (run_times xs)"
    unfolding S Q length_run_times by simp
  have "jain_quot (run_times xs) = 1"
    using jain_quot_range(3) [OF S0] unfolding jain_quot_def eq by simp
  moreover have "jain_of xs = Fin (jain_quot (run_times xs))"
    by (rule jain_of_small [OF assms(2,3) S0]) (use assms(6) in \<open>simp only: Q\<close>)
  ultimately show ?thesis using fairness_jain_index_view [OF assms(1)] by simp
qed

theorem jain_index_equal_witness:
  "fairness_jain_index (Ref (jain_rq [jain_task 7000000, jain_task 7000000, jain_task 7000000] 0)) = Some 1"
  by (rule jain_index_equal [OF jain_rq_view, of _ 7000000])
    (simp_all add: run_times_def n_running_def is_runnable_def jain_task_def numeral_3_eq_3)

text \<open>
  The sums wrap at 64 bits after about four seconds of CPU time: of two runnable tasks one
  has run 4.2 seconds and the other not at all, Jain's index is 1/2, and the code returns 1.
\<close>

theorem jain_index_wraps:
  "fairness_jain_index (Ref (jain_rq [jain_task 4200000000, jain_task 0] 0)) = Some 1"
  by (simp add: fairness_jain_index_view [OF jain_rq_view] jain_of_def jain_acc_def jain_finish_def
      jain_task_def f64_eval)

text \<open>
  Two tasks that have each run \<open>2 ^ 31 * 15625 ns\<close> (a whole number of ticks) are perfectly
  fair, but both products wrap to 0, the index is NaN, and the controller stays where it is in
  every state.
\<close>

theorem jain_index_nan:
  "fairness_jain_index (Ref (jain_rq [jain_task (2 ^ 31 * 15625), jain_task (2 ^ 31 * 15625)] 0)) = Some NaN \<and>
   (2 ^ 31 * 15625 :: u64) mod TICK_NS = 0 \<and> fairness_apaf_next_state st NaN = st"
proof -
  have "fairness_apaf_next_state st NaN = st" by (simp add: fairness_apaf_next_state_def)
  moreover have "fairness_jain_index (Ref (jain_rq [jain_task (2 ^ 31 * 15625), jain_task (2 ^ 31 * 15625)] 0)) = Some NaN"
    by (simp add: fairness_jain_index_view [OF jain_rq_view] jain_of_def jain_acc_def jain_finish_def
      jain_task_def f64_eval)
  ultimately show ?thesis by simp
qed

section \<open>Properties of the controller\<close>

text \<open>The four thresholds as doubles, and the transition function on a finite index.\<close>

definition thr :: "int \<Rightarrow> rat" where "thr m = f_val (dec m 2)"

lemma thr_near: "0 \<le> m \<Longrightarrow> m \<le> 100 \<Longrightarrow> dec m 2 = Fin (thr m) \<and> \<bar>thr m - of_int m / 100\<bar> \<le> 1 / 10 ^ 15"
proof -
  assume "0 \<le> m" "m \<le> 100"
  then have "0 \<le> (of_int m :: rat)" "(of_int m :: rat) \<le> 100"
    by (simp_all only: of_int_0_le_iff of_int_le_numeral_iff)
  then have "\<bar>of_int m / 10 ^ 2 :: rat\<bar> < 2" by simp
  from near_dec [OF this] show ?thesis by (auto simp: near_def thr_def)
qed

lemma thr_values:
  "\<bar>thr 90 - 90 / 100\<bar> \<le> 1 / 1000000" "\<bar>thr 93 - 93 / 100\<bar> \<le> 1 / 1000000"
  "\<bar>thr 95 - 95 / 100\<bar> \<le> 1 / 1000000" "\<bar>thr 97 - 97 / 100\<bar> \<le> 1 / 1000000"
  using thr_near [of 90] thr_near [of 93] thr_near [of 95] thr_near [of 97] by simp_all

lemma dec_thr: "dec 90 2 = Fin (thr 90)" "dec 93 2 = Fin (thr 93)" "dec 95 2 = Fin (thr 95)" "dec 97 2 = Fin (thr 97)"
  using thr_near [of 90] thr_near [of 93] thr_near [of 95] thr_near [of 97] by simp_all

lemma thr_order: "thr 90 < thr 93" "thr 93 < thr 95" "thr 95 < thr 97"
  "thr 90 + 39 / 1000 < thr 95" "thr 93 + 39 / 1000 < thr 97"
  using thr_values [THEN abs_le_D1] thr_values [THEN abs_le_D2] by linarith+

lemma next_state_Fin:
  "fairness_apaf_next_state s (Fin q) =
     (if s = 2 then (if q < thr 93 then 1 else 2)
      else if s = 1 then (if q < thr 90 then 0 else if thr 97 < q then 2 else 1)
      else if s = 0 then (if thr 95 < q then 1 else 0) else s)"
  using thr_values by (auto simp: fairness_apaf_next_state_def dec_thr Let_def abs_le_iff)

lemma next_state_Inf: "fairness_apaf_next_state s (Inf b) = fairness_apaf_next_state s (Fin (if b then 0 else 1))"
  by (simp add: fairness_apaf_next_state_def)

lemma next_state_NaN: "fairness_apaf_next_state s NaN = s"
  by (simp add: fairness_apaf_next_state_def)

abbreviation (input) apaf_states :: "int set" where "apaf_states \<equiv> {APAF_TIGHT, APAF_MEDIUM, APAF_LOOSE}"

lemma next_state_closed: "s \<in> apaf_states \<Longrightarrow> fairness_apaf_next_state s j \<in> apaf_states"
  by (cases j) (auto simp: next_state_Fin next_state_Inf next_state_NaN)

text \<open>The number of state changes along a sequence of measured indices.\<close>

fun n_changes :: "int \<Rightarrow> f64 list \<Rightarrow> nat" where
  "n_changes s [] = 0"
| "n_changes s (j # js) =
     (let s' = fairness_apaf_next_state s j in (if s' \<noteq> s then 1 else 0) + n_changes s' js)"

lemma n_changes_potential:
  assumes "\<forall>j \<in> set js. \<forall>s \<in> apaf_states. fairness_apaf_next_state s j \<in> apaf_states \<and>
      (fairness_apaf_next_state s j \<noteq> s \<longrightarrow> \<phi> (fairness_apaf_next_state s j) < \<phi> s)"
    and "s \<in> apaf_states"
  shows "n_changes s js \<le> \<phi> s"
  using assms
proof (induction js arbitrary: s)
  case (Cons j js)
  let ?t = "fairness_apaf_next_state s j"
  have t: "?t \<in> apaf_states" "?t \<noteq> s \<longrightarrow> \<phi> ?t < \<phi> s" using Cons.prems by auto
  have "n_changes ?t js \<le> \<phi> ?t" using Cons.prems(1) t(1) by (intro Cons.IH) auto
  then show ?case using t(2) by (auto simp: Let_def)
qed simp

text \<open>
  The controller moves one level at a time, whatever the index is, NaN and infinities
  included, and never leaves its three states.
\<close>

theorem apaf_one_level:
  assumes "s \<in> apaf_states"
  shows "fairness_apaf_next_state s j \<in> apaf_states \<and> \<bar>fairness_apaf_next_state s j - s\<bar> \<le> 1"
  using assms by (cases j) (auto simp: next_state_Fin next_state_Inf next_state_NaN)

theorem apaf_one_level_witness:
  "fairness_apaf_next_state APAF_LOOSE 0 \<in> apaf_states \<and> \<bar>fairness_apaf_next_state APAF_LOOSE 0 - APAF_LOOSE\<bar> \<le> 1"
  by (rule apaf_one_level) simp

text \<open>
  The controller is monotone: from a looser state and a fairer index it never goes to a
  tighter state than from a tighter state and a less fair index.
\<close>

theorem apaf_monotone:
  assumes "s \<in> apaf_states" and "s' \<in> apaf_states" and "s \<le> s'" and "q \<le> q'"
  shows "fairness_apaf_next_state s (Fin q) \<le> fairness_apaf_next_state s' (Fin q')"
  using assms thr_order(1-3) by (auto simp: next_state_Fin)

theorem apaf_monotone_witness:
  "fairness_apaf_next_state APAF_TIGHT (Fin (91 / 100)) \<le> fairness_apaf_next_state APAF_MEDIUM (Fin (98 / 100))"
  by (rule apaf_monotone) simp_all

text \<open>
  Under a constant index the controller settles after at most two measurements, from any
  state and for any index.
\<close>

theorem apaf_settles:
  assumes "s \<in> apaf_states"
  shows "let f = \<lambda>s. fairness_apaf_next_state s j in f (f (f s)) = f (f s)"
  using assms thr_order(1-3) by (cases j) (auto simp: next_state_Fin next_state_Inf next_state_NaN Let_def)

theorem apaf_settles_witness:
  "let f = \<lambda>s. fairness_apaf_next_state s (Fin (1 / 2)) in f (f (f APAF_LOOSE)) = f (f APAF_LOOSE)"
  by (rule apaf_settles) simp

text \<open>
  C18. Hysteresis: as long as the measured indices stay within a band of width 0.039, the
  controller changes its state at most twice, however long it runs, so it cannot oscillate.
\<close>

theorem apaf_no_oscillation:
  assumes "s \<in> apaf_states" and "\<forall>j \<in> set js. \<exists>q. j = Fin q \<and> lo \<le> q \<and> q \<le> hi"
    and "hi - lo \<le> 39 / 1000"
  shows "n_changes s js \<le> 2"
proof -
  note t = thr_order
  have band: "n_changes s js \<le> \<phi> s" if "\<forall>q. lo \<le> q \<longrightarrow> q \<le> hi \<longrightarrow> (\<forall>s \<in> apaf_states.
      fairness_apaf_next_state s (Fin q) \<noteq> s \<longrightarrow> \<phi> (fairness_apaf_next_state s (Fin q)) < \<phi> s)" for \<phi>
  proof (rule n_changes_potential [OF _ assms(1)], intro ballI)
    fix j s assume "j \<in> set js" and s: "s \<in> apaf_states"
    then obtain q where "j = Fin q" "lo \<le> q" "q \<le> hi" using assms(2) by blast
    then show "fairness_apaf_next_state s j \<in> apaf_states \<and>
        (fairness_apaf_next_state s j \<noteq> s \<longrightarrow> \<phi> (fairness_apaf_next_state s j) < \<phi> s)"
      using that s next_state_closed by blast
  qed
  consider "thr 93 \<le> lo" | "lo < thr 90" | "thr 90 \<le> lo" "lo < thr 93" by linarith
  then have "\<exists>\<phi>. n_changes s js \<le> \<phi> s \<and> (\<forall>s \<in> apaf_states. \<phi> s \<le> (2::nat))"
  proof cases
    case 1
    then have "n_changes s js \<le> nat (2 - s)"
      using t by (intro band [of "\<lambda>s. nat (2 - s)"]) (auto simp: next_state_Fin)
    then show ?thesis by (intro exI [of _ "\<lambda>s. nat (2 - s)"]) auto
  next
    case 2
    then have "n_changes s js \<le> nat s"
      using t assms(3) by (intro band [of nat]) (auto simp: next_state_Fin)
    then show ?thesis by (intro exI [of _ nat]) auto
  next
    case 3
    then have "n_changes s js \<le> nat \<bar>s - 1\<bar>"
      using t assms(3) by (intro band [of "\<lambda>s. nat \<bar>s - 1\<bar>"]) (auto simp: next_state_Fin)
    then show ?thesis by (intro exI [of _ "\<lambda>s. nat \<bar>s - 1\<bar>"]) auto
  qed
  then show ?thesis using assms(1) le_trans by blast
qed

theorem apaf_no_oscillation_witness:
  "n_changes APAF_TIGHT [Fin (94 / 100), Fin (96 / 100), Fin (97 / 100), Fin (94 / 100)] \<le> 2"
proof (rule apaf_no_oscillation [of _ _ "94 / 100" "97 / 100"])
  show "\<forall>j \<in> set [Fin (94 / 100), Fin (96 / 100), Fin (97 / 100), Fin (94 / 100)].
      \<exists>q. j = Fin q \<and> 94 / 100 \<le> q \<and> q \<le> 97 / 100"
    by (intro ballI) (auto intro: exI [of _ "94 / 100"] exI [of _ "96 / 100"] exI [of _ "97 / 100"])
qed simp_all

end
