(* ===== verification/Tick_Policy.thy ===== *)
theory Tick_Policy
  imports Fairness
begin

text \<open>
  What the four tick functions have in common, as an abstract specification. A policy is the
  record of the four things in which they differ: the vruntime charged for one tick, the decay
  of one period, the controller, and whether load averages are still updated when no task is
  runnable. \<open>spec_tick\<close> is the tick of a policy on the list of tasks. The locale
  \<open>task_updates\<close> is the interface of the per-task updates, the locale \<open>tick_policy\<close> the
  interface of a tick; the second holds the scheduler's guarantees, proved once.
\<close>

section \<open>The task to run\<close>

text \<open>The first of the runnable tasks with the least vruntime.\<close>

definition is_next :: "cfs_task list \<Rightarrow> nat \<Rightarrow> bool" where
  "is_next xs k \<longleftrightarrow> k < length xs \<and> is_runnable (xs ! k) \<and>
     (\<forall>j < length xs. is_runnable (xs ! j) \<longrightarrow>
        vruntime (xs ! k) \<le> vruntime (xs ! j) \<and> (j < k \<longrightarrow> vruntime (xs ! k) < vruntime (xs ! j)))"

definition next_task :: "cfs_task list \<Rightarrow> nat option" where
  "next_task xs = find (is_next xs) [0..<length xs]"

lemma is_next_unique: "is_next xs k \<Longrightarrow> is_next xs j \<Longrightarrow> k = j"
  unfolding is_next_def by (metis linorder_neqE_nat not_less)

lemma next_task_Some: "next_task xs = Some k \<longleftrightarrow> is_next xs k"
proof
  assume "next_task xs = Some k"
  then show "is_next xs k" by (auto simp: next_task_def find_Some_iff)
next
  assume k: "is_next xs k"
  then have "k < length xs" by (simp add: is_next_def)
  then have "next_task xs \<noteq> None" using k by (auto simp: next_task_def find_None_iff)
  then obtain j where j: "next_task xs = Some j" by auto
  then have "is_next xs j" by (auto simp: next_task_def find_Some_iff)
  then show "next_task xs = Some k" using j k is_next_unique by auto
qed

lemma next_task_None: "next_task xs = None \<longleftrightarrow> n_running xs = 0"
proof
  assume "n_running xs = 0"
  then show "next_task xs = None"
    by (auto simp: next_task_def find_None_iff is_next_def n_running_0)
next
  assume none: "next_task xs = None"
  define P where "P k \<longleftrightarrow> k < length xs \<and> is_runnable (xs ! k)" for k
  show "n_running xs = 0"
  proof (rule ccontr)
    assume "n_running xs \<noteq> 0"
    then obtain k0 where k0: "P k0" by (auto simp: n_running_0 in_set_conv_nth P_def)
    define v where "v = Min (vruntime ` (!) xs ` Collect P)"
    have fin: "finite (vruntime ` (!) xs ` Collect P)" by (simp add: P_def)
    have "v \<in> vruntime ` (!) xs ` Collect P"
      unfolding v_def using fin k0 by (intro Min_in) auto
    then obtain k1 where k1: "P k1 \<and> vruntime (xs ! k1) = v" by auto
    define k where "k = (LEAST k. P k \<and> vruntime (xs ! k) = v)"
    have k: "P k \<and> vruntime (xs ! k) = v" unfolding k_def using k1 by (rule LeastI)
    have least: "j < k \<Longrightarrow> P j \<Longrightarrow> vruntime (xs ! j) \<noteq> v" for j
      unfolding k_def using not_less_Least by blast
    have le: "P j \<Longrightarrow> v \<le> vruntime (xs ! j)" for j
      unfolding v_def using fin by (intro Min_le) auto
    have "is_next xs k"
      unfolding is_next_def
    proof (intro conjI allI impI)
      fix j assume j: "j < length xs" "is_runnable (xs ! j)"
      then show "vruntime (xs ! k) \<le> vruntime (xs ! j)" using k le by (simp add: P_def)
      assume "j < k"
      then show "vruntime (xs ! k) < vruntime (xs ! j)"
        using k le [of j] least [of j] j by (simp add: P_def order.strict_iff_order)
    qed (use k in \<open>simp_all add: P_def\<close>)
    then show False using none by (simp add: next_task_Some [symmetric])
  qed
qed

section \<open>Policies and the abstract tick\<close>

text \<open>
  The vruntime of one tick for a weight, the decay of one period and the controller all get the
  controller state of the runqueue; the controller also gets the tick number and the new index.
\<close>

record policy =
  pol_vdelta :: "int \<Rightarrow> u32 \<Rightarrow> u64"
  pol_decay :: "int \<Rightarrow> u64 \<Rightarrow> u64"
  pol_control :: "u64 \<Rightarrow> int \<Rightarrow> f64 \<Rightarrow> int"
  pol_idle :: bool

definition run_task :: "(u32 \<Rightarrow> u64) \<Rightarrow> cfs_task \<Rightarrow> cfs_task" where
  "run_task vd t = t\<lparr>exec_runtime := exec_runtime t + TICK_NS,
                    vruntime := vruntime t + vd (ucast (weight t))\<rparr>"

definition load_step :: "(u64 \<Rightarrow> u64) \<Rightarrow> cfs_task \<Rightarrow> cfs_task" where
  "load_step dc t =
     (let s = dc (load_sum t) + (if is_runnable t then weight t else 0);
          a = weight t * s div LOAD_AVG_MAX
      in t\<lparr>load_sum := s, load_avg := (if weight t < a then weight t else a)\<rparr>)"

definition run_at :: "policy \<Rightarrow> int \<Rightarrow> cfs_task list \<Rightarrow> nat \<Rightarrow> cfs_task list" where
  "run_at P s xs k = xs[k := run_task (pol_vdelta P s) (xs ! k)]"

definition spec_tasks :: "policy \<Rightarrow> int \<Rightarrow> cfs_task list \<Rightarrow> cfs_task list" where
  "spec_tasks P s xs =
     (case next_task xs of
        None \<Rightarrow> if pol_idle P then map (load_step (pol_decay P s)) xs else xs
      | Some k \<Rightarrow> map (load_step (pol_decay P s)) (run_at P s xs k))"

definition spec_tick :: "policy \<Rightarrow> cfs_rq \<Rightarrow> cfs_task list \<Rightarrow> cfs_rq" where
  "spec_tick P rq xs =
     (let rq1 = rq\<lparr>tick := tick rq + 1, clock := clock rq + TICK_NS\<rparr>;
          ys = spec_tasks P (apaf_state rq) xs
      in if next_task xs = None \<and> \<not> pol_idle P then rq1
         else rq1\<lparr>tasks := Ref ys, jain_index := jain_of ys,
                  apaf_state := pol_control P (tick rq + 1) (apaf_state rq) (jain_of ys),
                  nr_running := (if ys = [] then nr_running rq else int (n_running ys))\<rparr>)"

text \<open>Consecutive ticks, the way the experiments drive a runqueue.\<close>

fun run_ticks :: "(cfs_rq ptr \<Rightarrow> cfs_rq ptr option) \<Rightarrow> nat \<Rightarrow> cfs_rq ptr \<Rightarrow> cfs_rq ptr option" where
  "run_ticks tk 0 p = Some p"
| "run_ticks tk (Suc n) p = tk p \<bind> run_ticks tk n"

lemma run_task_simps [simp]:
  "t_id (run_task vd t) = t_id t" "nice (run_task vd t) = nice t" "weight (run_task vd t) = weight t"
  "runnable (run_task vd t) = runnable t" "load_avg (run_task vd t) = load_avg t"
  "load_sum (run_task vd t) = load_sum t" "is_runnable (run_task vd t) = is_runnable t"
  "exec_runtime (run_task vd t) = exec_runtime t + TICK_NS"
  "vruntime (run_task vd t) = vruntime t + vd (ucast (weight t))"
  by (simp_all add: run_task_def is_runnable_def)

lemma load_step_simps [simp]:
  "t_id (load_step dc t) = t_id t" "nice (load_step dc t) = nice t" "weight (load_step dc t) = weight t"
  "runnable (load_step dc t) = runnable t" "vruntime (load_step dc t) = vruntime t"
  "exec_runtime (load_step dc t) = exec_runtime t" "is_runnable (load_step dc t) = is_runnable t"
  by (simp_all add: load_step_def is_runnable_def Let_def)

lemma load_step_sum:
  "load_sum (load_step dc t) = dc (load_sum t) + (if is_runnable t then weight t else 0)"
  by (simp add: load_step_def Let_def)

lemma load_step_avg_le: "load_avg (load_step dc t) \<le> weight t"
  by (simp add: load_step_def Let_def not_less)

lemma length_run_at [simp]: "length (run_at P s xs k) = length xs"
  by (simp add: run_at_def)

lemma length_spec_tasks [simp]: "length (spec_tasks P s xs) = length xs"
  by (simp add: spec_tasks_def split: option.split)

lemma nth_spec_tasks:
  assumes "i < length xs"
  shows "spec_tasks P s xs ! i =
    (let t = (if next_task xs = Some i then run_task (pol_vdelta P s) (xs ! i) else xs ! i)
     in if next_task xs = None \<and> \<not> pol_idle P then t else load_step (pol_decay P s) t)"
  using assms by (auto simp: spec_tasks_def run_at_def nth_list_update split: option.split)

lemma spec_tasks_ball:
  assumes "\<forall>t \<in> set xs. Q t" and "\<And>t. Q t \<Longrightarrow> Q' t" and "\<And>t. Q t \<Longrightarrow> Q' (run_task (pol_vdelta P s) t)"
    and "\<And>t. Q' t \<Longrightarrow> Q' (load_step (pol_decay P s) t)"
  shows "\<forall>t \<in> set (spec_tasks P s xs). Q' t"
proof
  fix t assume "t \<in> set (spec_tasks P s xs)"
  then obtain i where i: "i < length xs" "t = spec_tasks P s xs ! i" by (auto simp: in_set_conv_nth)
  then have "Q (xs ! i)" using assms(1) by simp
  then show "Q' t" using i assms(2-4) by (simp add: nth_spec_tasks Let_def)
qed

lemma spec_tasks_frame:
  "map t_id (spec_tasks P s xs) = map t_id xs" "map nice (spec_tasks P s xs) = map nice xs"
  "map weight (spec_tasks P s xs) = map weight xs"
  "map runnable (spec_tasks P s xs) = map runnable xs"
  by (rule nth_equalityI; simp add: nth_spec_tasks Let_def)+

lemma n_running_runnable: "n_running xs = length (filter (\<lambda>r. r = 1) (map runnable xs))"
  by (simp add: n_running_def is_runnable_def [abs_def] filter_map comp_def)

lemma n_running_spec_tasks [simp]: "n_running (spec_tasks P s xs) = n_running xs"
  by (simp add: n_running_runnable spec_tasks_frame)

text \<open>The end of every tick: the index and the count of runnable tasks.\<close>

lemma close_tick:
  assumes "rq_view rq ys"
  shows "fairness_jain_index (Ref rq) \<bind> (\<lambda>j. c_write (Ref rq) (jain_index_update (\<lambda>_. j)) \<bind>
           (\<lambda>p. rq_count_running p \<bind> (\<lambda>(_, p). Some p))) =
         Some (Ref (rq\<lparr>jain_index := jain_of ys,
                        nr_running := (if ys = [] then nr_running rq else int (n_running ys))\<rparr>))"
  using rq_count_running_view [of "rq\<lparr>jain_index := jain_of ys\<rparr>" ys] assms
  by (simp add: fairness_jain_index_view)

section \<open>The interface of the per-task updates\<close>

locale task_updates =
  fixes update_curr update_load :: "cfs_rq ptr \<Rightarrow> int \<Rightarrow> cfs_rq ptr option"
    and P :: policy
  assumes curr: "rq_view rq xs \<Longrightarrow> k < length xs \<Longrightarrow> is_runnable (xs ! k) \<Longrightarrow>
      update_curr (Ref rq) (int k) = Some (Ref (rq\<lparr>tasks := Ref (run_at P (apaf_state rq) xs k)\<rparr>))"
    and load: "rq_view rq xs \<Longrightarrow> k < length xs \<Longrightarrow>
      update_load (Ref rq) (int k) =
        Some (Ref (rq\<lparr>tasks := Ref (xs[k := load_step (pol_decay P (apaf_state rq)) (xs ! k)])\<rparr>))"
begin

text \<open>The loop over all tasks is a map.\<close>

lemma load_loop:
  assumes v: "rq_view rq xs"
  shows "for_loop 0 (nr_tasks rq) (\<lambda>i q. update_load q i) (Ref rq) =
    Some (Ref (rq\<lparr>tasks := Ref (map (load_step (pol_decay P (apaf_state rq))) xs)\<rparr>))"
proof -
  let ?f = "load_step (pol_decay P (apaf_state rq))"
  let ?I = "\<lambda>j q. q = Ref (rq\<lparr>tasks := Ref (map ?f (take j xs) @ drop j xs)\<rparr>)"
  have init: "?I 0 (Ref rq)" using rq_view_tasks [OF v] by simp
  have step: "\<exists>q'. update_load q (int j) = Some q' \<and> ?I (Suc j) q'"
    if "0 \<le> j" "j < length xs" "?I j q" for j q
  proof -
    let ?ys = "map ?f (take j xs) @ drop j xs"
    have vw: "rq_view (rq\<lparr>tasks := Ref ?ys\<rparr>) ?ys" using rq_view_tasks_update [OF v, of ?ys] by simp
    have at: "?ys ! j = xs ! j" using that by (simp add: nth_append)
    have "update_load q (int j) = Some (Ref (rq\<lparr>tasks := Ref (?ys[j := ?f (?ys ! j)])\<rparr>))"
      using load [OF vw, of j] that by simp
    then show ?thesis using take_update_Suc [of j xs ?f] that at by simp
  qed
  have "\<exists>q'. for_loop (int 0) (int (length xs)) (\<lambda>i q. update_load q i) (Ref rq) = Some q'
      \<and> ?I (length xs) q'"
    by (rule for_loop_invariant [where P = ?I, OF init _ step]) auto
  then show ?thesis using rq_view_nr [OF v] by simp
qed

text \<open>Running the chosen task and then updating every load, whatever comes next.\<close>

lemma update_all:
  assumes v: "rq_view rq xs" and k: "k < length xs" "is_runnable (xs ! k)"
  shows "update_curr (Ref rq) (int k) \<bind> (\<lambda>p. c_deref p \<bind>
      (\<lambda>rq. for_loop 0 (nr_tasks rq) (\<lambda>i q. update_load q i) p \<bind> rest)) =
    rest (Ref (rq\<lparr>tasks := Ref (map (load_step (pol_decay P (apaf_state rq)))
                                (run_at P (apaf_state rq) xs k))\<rparr>))"
proof -
  let ?ys = "run_at P (apaf_state rq) xs k"
  have "rq_view (rq\<lparr>tasks := Ref ?ys\<rparr>) ?ys" by (rule rq_view_tasks_update [OF v]) simp
  then show ?thesis using curr [OF v k] load_loop [of "rq\<lparr>tasks := Ref ?ys\<rparr>" ?ys] by simp
qed

end

lemma sum_list_update_word:
  "k < length xs \<Longrightarrow> sum_list (xs[k := xs ! k + d]) = sum_list xs + (d :: u64)"
proof (induction xs arbitrary: k)
  case (Cons x xs)
  then show ?case by (cases k) (simp_all add: algebra_simps)
qed simp

section \<open>The interface of a tick\<close>

text \<open>
  The weights the program uses, the largest and the smallest vruntime any policy charges for
  a tick of such a task, and the bound on a load sum.
\<close>

definition sched_weights :: "u32 list" where
  "sched_weights = map word_of_int nice_to_weight"

definition wf_task :: "cfs_task \<Rightarrow> bool" where
  "wf_task t \<longleftrightarrow> weight t \<in> set (map word_of_int nice_to_weight)"

abbreviation (input) VDELTA_MAX :: nat where "VDELTA_MAX \<equiv> 68266666"
abbreviation (input) VDELTA_MIN :: nat where "VDELTA_MIN \<equiv> 11000"

definition load_ok :: "cfs_task \<Rightarrow> bool" where
  "load_ok t \<longleftrightarrow> load_avg t \<le> weight t \<and> unat (load_sum t) \<le> 49 * unat (weight t)"

definition spread_within :: "nat \<Rightarrow> cfs_task list \<Rightarrow> bool" where
  "spread_within d xs \<longleftrightarrow> (\<forall>t \<in> set xs. \<forall>u \<in> set xs. is_runnable t \<longrightarrow> is_runnable u \<longrightarrow>
     unat (vruntime t) \<le> unat (vruntime u) + d)"

definition spread_ok :: "cfs_task list \<Rightarrow> bool" where
  "spread_ok = spread_within VDELTA_MAX"

lemmas spread_ok_defs = spread_ok_def spread_within_def

definition vr_below :: "nat \<Rightarrow> cfs_task list \<Rightarrow> bool" where
  "vr_below b xs \<longleftrightarrow> (\<forall>t \<in> set xs. unat (vruntime t) \<le> b)"

lemma wf_task_weight: "wf_task t \<Longrightarrow> unat (weight t) \<le> 88761"
  by (auto simp: wf_task_def nice_to_weight_def)

lemma ucast_of_int_u64: "(ucast (word_of_int i :: u64) :: u32) = word_of_int i"
  by (rule bit_word_eqI) (simp add: bit_unsigned_iff bit_word_of_int_iff)

lemma wf_task_sched: "wf_task t \<Longrightarrow> ucast (weight t) \<in> set sched_weights"
  by (auto simp: wf_task_def sched_weights_def ucast_of_int_u64)

lemma wf_task_step [simp]:
  "wf_task (run_task vd t) = wf_task t" "wf_task (load_step dc t) = wf_task t"
  by (simp_all add: wf_task_def)

lemma load_ok_run [simp]: "load_ok (run_task vd t) = load_ok t"
  by (simp add: load_ok_def)

lemma wf_spec_tasks: "(\<forall>t \<in> set (spec_tasks P s xs). wf_task t) = (\<forall>t \<in> set xs. wf_task t)"
proof -
  have "(\<forall>t \<in> set ys. wf_task t) = (\<forall>w \<in> set (map weight ys). w \<in> set (map word_of_int nice_to_weight))"
    for ys by (simp add: wf_task_def)
  then show ?thesis by (simp only: spec_tasks_frame)
qed

text \<open>The sum of the vruntimes of the runnable tasks, and what the spread says of it.\<close>

definition run_vr :: "cfs_task list \<Rightarrow> nat" where
  "run_vr xs = (\<Sum>i<length xs. if is_runnable (xs ! i) then unat (vruntime (xs ! i)) else 0)"

lemma n_running_sum: "n_running xs * c = (\<Sum>i<length xs. if is_runnable (xs ! i) then c else 0)"
proof -
  have "n_running xs = card {i. i < length xs \<and> is_runnable (xs ! i)}"
    by (simp add: n_running_def length_filter_conv_card)
  moreover have "(\<Sum>i<length xs. if is_runnable (xs ! i) then c else 0) =
      (\<Sum>i \<in> {i. i < length xs \<and> is_runnable (xs ! i)}. c)"
    by (intro sum.mono_neutral_cong_right) auto
  ultimately show ?thesis by simp
qed

lemma run_vr_upper:
  assumes "spread_ok xs" and "i < length xs" and "is_runnable (xs ! i)"
  shows "run_vr xs \<le> n_running xs * (unat (vruntime (xs ! i)) + VDELTA_MAX)"
  unfolding run_vr_def n_running_sum
  by (rule sum_mono) (use assms in \<open>simp add: spread_ok_defs\<close>)

lemma run_vr_lower:
  assumes "spread_ok xs" and "i < length xs" and "is_runnable (xs ! i)"
  shows "n_running xs * unat (vruntime (xs ! i)) \<le> run_vr xs + n_running xs * VDELTA_MAX"
  unfolding run_vr_def n_running_sum sum.distrib [symmetric]
  by (rule sum_mono) (use assms in \<open>simp add: spread_ok_defs\<close>)

text \<open>After \<open>j\<close> ticks from \<open>xs\<close> the task \<open>i\<close> has had \<open>c\<close> of them.\<close>

definition ticks_of :: "cfs_task list \<Rightarrow> nat \<Rightarrow> nat \<Rightarrow> cfs_task list \<Rightarrow> bool" where
  "ticks_of xs i j ys \<longleftrightarrow> (\<exists>c \<le> j. exec_runtime (ys ! i) = exec_runtime (xs ! i) + of_nat c * TICK_NS
     \<and> (c = 0 \<longrightarrow> vruntime (ys ! i) = vruntime (xs ! i)))"

lemma ticks_of_step:
  assumes "i < length ys" and "ticks_of xs i j ys"
  shows "ticks_of xs i (Suc j) (spec_tasks P s ys)"
proof -
  from assms(2) obtain c where c: "c \<le> j" "exec_runtime (ys ! i) = exec_runtime (xs ! i) + of_nat c * TICK_NS"
    "c = 0 \<longrightarrow> vruntime (ys ! i) = vruntime (xs ! i)" by (auto simp: ticks_of_def)
  show ?thesis
  proof (cases "next_task ys = Some i")
    case True
    then have "exec_runtime (spec_tasks P s ys ! i) = exec_runtime (xs ! i) + of_nat (Suc c) * TICK_NS"
      using assms(1) c(2) by (simp add: nth_spec_tasks Let_def algebra_simps)
    then show ?thesis using c(1) unfolding ticks_of_def by (intro exI [of _ "Suc c"]) simp
  next
    case False
    then have "exec_runtime (spec_tasks P s ys ! i) = exec_runtime (ys ! i)"
      "vruntime (spec_tasks P s ys ! i) = vruntime (ys ! i)"
      using assms(1) by (simp_all add: nth_spec_tasks Let_def)
    then show ?thesis using c unfolding ticks_of_def by (intro exI [of _ c]) simp
  qed
qed

text \<open>A task that had no tick would lag behind the growing sum of the others.\<close>

lemma no_lag:
  assumes sp: "spread_ok xs" "spread_ok ys" and fr: "map runnable ys = map runnable xs"
    and S: "run_vr xs + n * VDELTA_MIN \<le> run_vr ys"
    and i: "i < length xs" "is_runnable (xs ! i)" and n: "12413 * n_running xs \<le> n"
  shows "vruntime (ys ! i) \<noteq> vruntime (xs ! i)"
proof
  assume eq: "vruntime (ys ! i) = vruntime (xs ! i)"
  have nr: "n_running xs \<noteq> 0" using i nth_mem [OF i(1)] by (auto simp: n_running_0 simp del: nth_mem)
  have iy: "i < length ys" "is_runnable (ys ! i)"
    using i map_eq_imp_length_eq [OF fr] arg_cong [OF fr, of "\<lambda>l. l ! i"] by (simp_all add: is_runnable_def)
  have "n_running ys = n_running xs" using fr by (simp add: n_running_runnable)
  then have "run_vr ys \<le> n_running xs * (unat (vruntime (xs ! i)) + VDELTA_MAX)"
    using run_vr_upper [OF sp(2) iy] eq by simp
  moreover have "n_running xs * unat (vruntime (xs ! i)) \<le> run_vr xs + n_running xs * VDELTA_MAX"
    by (rule run_vr_lower [OF sp(1) i])
  ultimately have "n * VDELTA_MIN \<le> 2 * n_running xs * VDELTA_MAX"
    using S by (simp add: algebra_simps)
  moreover have "12413 * n_running xs * VDELTA_MIN \<le> n * VDELTA_MIN" using n by (intro mult_le_mono1)
  ultimately show False using nr by simp
qed

locale tick_policy =
  fixes tick_fn :: "cfs_rq ptr \<Rightarrow> cfs_rq ptr option" and P :: policy
  assumes refines: "rq_view rq xs \<Longrightarrow> tick_fn (Ref rq) = Some (Ref (spec_tick P rq xs))"
    and vdelta_max: "w \<in> set sched_weights \<Longrightarrow> unat (pol_vdelta P s w) \<le> VDELTA_MAX"
    and vdelta_min: "w \<in> set sched_weights \<Longrightarrow> VDELTA_MIN \<le> unat (pol_vdelta P s w)"
    and decay_room: "m \<le> 88761 \<Longrightarrow> unat l \<le> 49 * m \<Longrightarrow> unat (pol_decay P s l) + m \<le> 49 * m"
begin

lemma view_spec_tick:
  "rq_view rq xs \<Longrightarrow> rq_view (spec_tick P rq xs) (spec_tasks P (apaf_state rq) xs)"
  by (auto simp: spec_tick_def Let_def spec_tasks_def rq_view_def split: option.split)

lemma clock_spec_tick:
  "tick (spec_tick P rq xs) = tick rq + 1" "clock (spec_tick P rq xs) = clock rq + TICK_NS"
  by (simp_all add: spec_tick_def Let_def)

text \<open>Total correctness of a run by an invariant indexed with the number of ticks.\<close>

lemma run_invariant:
  assumes "rq_view rq xs" and "I 0 rq xs"
    and "\<And>j rq xs. rq_view rq xs \<Longrightarrow> j < n \<Longrightarrow> I j rq xs
        \<Longrightarrow> I (Suc j) (spec_tick P rq xs) (spec_tasks P (apaf_state rq) xs)"
  shows "\<exists>rq' xs'. run_ticks tick_fn n (Ref rq) = Some (Ref rq') \<and> rq_view rq' xs' \<and> I n rq' xs'"
  using assms
proof (induction n arbitrary: rq xs I)
  case 0
  then show ?case by auto
next
  case (Suc n)
  let ?rq = "spec_tick P rq xs" and ?xs = "spec_tasks P (apaf_state rq) xs"
  have "\<exists>rq' xs'. run_ticks tick_fn n (Ref ?rq) = Some (Ref rq') \<and> rq_view rq' xs' \<and> I (Suc n) rq' xs'"
  proof (rule Suc.IH [where I = "\<lambda>j. I (Suc j)"])
    show "rq_view ?rq ?xs" by (rule view_spec_tick [OF Suc.prems(1)])
    show "I (Suc 0) ?rq ?xs" by (rule Suc.prems(3)) (use Suc.prems in auto)
    show "I (Suc (Suc j)) (spec_tick P r zs) (spec_tasks P (apaf_state r) zs)"
      if "rq_view r zs" "j < n" "I (Suc j) r zs" for j r zs
      using Suc.prems(3) [of r zs "Suc j"] that by simp
  qed
  then show ?case using refines [OF Suc.prems(1)] by simp
qed

subsection \<open>Time and identity\<close>

lemma run_frame:
  assumes "rq_view rq xs"
  shows "\<exists>rq' xs'. run_ticks tick_fn n (Ref rq) = Some (Ref rq') \<and> rq_view rq' xs' \<and>
    tick rq' = tick rq + of_nat n \<and> clock rq' = clock rq + of_nat n * TICK_NS \<and>
    map t_id xs' = map t_id xs \<and> map nice xs' = map nice xs \<and> map weight xs' = map weight xs \<and>
    map runnable xs' = map runnable xs"
proof -
  let ?I = "\<lambda>j rq' xs'. tick rq' = tick rq + of_nat j \<and> clock rq' = clock rq + of_nat j * TICK_NS \<and>
    map t_id xs' = map t_id xs \<and> map nice xs' = map nice xs \<and> map weight xs' = map weight xs \<and>
    map runnable xs' = map runnable xs"
  show ?thesis
    by (rule run_invariant [where I = ?I, OF assms])
      (simp_all add: clock_spec_tick spec_tasks_frame algebra_simps)
qed

subsection \<open>Execution time is conserved\<close>

lemma exec_spec_tasks:
  "sum_list (map exec_runtime (spec_tasks P s xs)) =
     sum_list (map exec_runtime xs) + (if n_running xs = 0 then 0 else TICK_NS)"
proof (cases "next_task xs")
  case None
  then have "n_running xs = 0" by (simp add: next_task_None)
  then show ?thesis using None by (simp add: spec_tasks_def comp_def)
next
  case (Some k)
  then have k: "k < length xs" and n: "n_running xs \<noteq> 0"
    by (auto simp: next_task_Some is_next_def next_task_None [symmetric])
  have "map exec_runtime (spec_tasks P s xs) = (map exec_runtime xs)[k := exec_runtime (xs ! k) + TICK_NS]"
    using Some by (simp add: spec_tasks_def run_at_def comp_def map_update)
  then show ?thesis using k n sum_list_update_word [of k "map exec_runtime xs" TICK_NS] by simp
qed

lemma run_exec:
  assumes "rq_view rq xs"
  shows "\<exists>rq' xs'. run_ticks tick_fn n (Ref rq) = Some (Ref rq') \<and> rq_view rq' xs' \<and>
    n_running xs' = n_running xs \<and>
    sum_list (map exec_runtime xs') =
      sum_list (map exec_runtime xs) + (if n_running xs = 0 then 0 else of_nat n * TICK_NS)"
proof -
  let ?I = "\<lambda>j rq' xs'. n_running xs' = n_running xs \<and> sum_list (map exec_runtime xs') =
      sum_list (map exec_runtime xs) + (if n_running xs = 0 then 0 else of_nat j * TICK_NS)"
  show ?thesis
    by (rule run_invariant [where I = ?I, OF assms])
      (auto simp: exec_spec_tasks algebra_simps)
qed

subsection \<open>Loads stay bounded\<close>

lemma load_ok_step:
  assumes "wf_task t" and "load_ok t"
  shows "load_ok (load_step (pol_decay P s) t)"
proof -
  have w: "unat (weight t) \<le> 88761" by (rule wf_task_weight [OF assms(1)])
  have l: "unat (load_sum t) \<le> 49 * unat (weight t)" using assms(2) by (simp add: load_ok_def)
  note room = decay_room [OF w l, of s]
  have "unat (pol_decay P s (load_sum t) + weight t) = unat (pol_decay P s (load_sum t)) + unat (weight t)"
    by (rule unat_u64_add_small) (use room w in simp)
  then show ?thesis using room load_step_avg_le [of "pol_decay P s" t]
    by (simp add: load_ok_def load_step_sum)
qed

lemma run_load:
  assumes "rq_view rq xs" and "\<forall>t \<in> set xs. wf_task t \<and> load_ok t"
  shows "\<exists>rq' xs'. run_ticks tick_fn n (Ref rq) = Some (Ref rq') \<and> rq_view rq' xs' \<and>
    (\<forall>t \<in> set xs'. wf_task t \<and> load_ok t)"
proof -
  have step: "\<forall>t \<in> set (spec_tasks P s ys). wf_task t \<and> load_ok t"
    if "\<forall>t \<in> set ys. wf_task t \<and> load_ok t" for s ys
    by (rule spec_tasks_ball [OF that]) (auto simp: load_ok_step)
  show ?thesis
    by (rule run_invariant [where I = "\<lambda>j rq' xs'. \<forall>t \<in> set xs'. wf_task t \<and> load_ok t", OF assms])
      (rule step)
qed

subsection \<open>Virtual runtimes stay together\<close>

lemma vruntime_spec_tasks:
  assumes "i < length xs"
  shows "vruntime (spec_tasks P s xs ! i) =
    vruntime (xs ! i) + (if next_task xs = Some i then pol_vdelta P s (ucast (weight (xs ! i))) else 0)"
  using assms by (simp add: nth_spec_tasks Let_def)

lemma unat_vruntime_spec_tasks:
  assumes "i < length xs" and "unat (pol_vdelta P s (ucast (weight (xs ! i)))) \<le> d"
    and "vr_below b xs" and "b + d < 2 ^ 64"
  shows "unat (vruntime (spec_tasks P s xs ! i)) = unat (vruntime (xs ! i)) +
    (if next_task xs = Some i then unat (pol_vdelta P s (ucast (weight (xs ! i)))) else 0)"
proof -
  have "unat (vruntime (xs ! i)) \<le> b" using assms(1,3) by (simp add: vr_below_def)
  then show ?thesis
    using assms(1,2,4) by (simp add: vruntime_spec_tasks unat_u64_add_small)
qed

lemma spread_within_step:
  assumes "\<forall>t \<in> set xs. unat (pol_vdelta P s (ucast (weight t))) \<le> m" and "spread_within m xs"
    and "vr_below b xs" and "b + m < 2 ^ 64"
  shows "spread_within m (spec_tasks P s xs)" and "vr_below (b + m) (spec_tasks P s xs)"
proof -
  let ?ys = "spec_tasks P s xs" and ?v = "\<lambda>i. unat (vruntime (xs ! i))"
  define d where "d i = (if next_task xs = Some i then unat (pol_vdelta P s (ucast (weight (xs ! i)))) else 0)" for i
  have v: "unat (vruntime (?ys ! i)) = ?v i + d i" if "i < length xs" for i
    unfolding d_def by (rule unat_vruntime_spec_tasks [OF that _ assms(3,4)]) (use that assms(1) in simp)
  have d: "d i \<le> m" if "i < length xs" for i
    using that assms(1) by (simp add: d_def)
  show "vr_below (b + m) ?ys"
    unfolding vr_below_def
  proof
    fix t assume "t \<in> set ?ys"
    then obtain i where i: "i < length xs" "t = ?ys ! i" by (auto simp: in_set_conv_nth)
    have "?v i \<le> b" using i(1) assms(3) by (simp add: vr_below_def)
    then show "unat (vruntime t) \<le> b + m" unfolding i(2) using v [OF i(1)] d [OF i(1)] by linarith
  qed
  have pair: "?v i + d i \<le> ?v j + m"
    if ij: "i < length xs" "j < length xs" "is_runnable (xs ! i)" "is_runnable (xs ! j)" for i j
  proof (cases "next_task xs = Some i")
    case True
    then have "?v i \<le> ?v j" using ij by (simp add: next_task_Some is_next_def word_le_nat_alt)
    then show ?thesis using d [OF ij(1)] by linarith
  next
    case False
    then show ?thesis using ij assms(2) by (simp add: d_def spread_within_def)
  qed
  have run: "is_runnable (?ys ! i) = is_runnable (xs ! i)" if "i < length xs" for i
    using that by (simp add: nth_spec_tasks Let_def)
  show "spread_within m ?ys"
    unfolding spread_within_def
  proof (intro ballI impI)
    fix t u assume "t \<in> set ?ys" "u \<in> set ?ys" and r: "is_runnable t" "is_runnable u"
    then obtain i j where i: "i < length xs" "t = ?ys ! i" and j: "j < length xs" "u = ?ys ! j"
      by (auto simp: in_set_conv_nth)
    have "?v i + d i \<le> ?v j + m" using pair i j r run by simp
    then show "unat (vruntime t) \<le> unat (vruntime u) + m"
      unfolding i(2) j(2) using v [OF i(1)] v [OF j(1)] by linarith
  qed
qed

lemma spread_step:
  assumes "\<forall>t \<in> set xs. wf_task t" and "spread_ok xs" and "vr_below b xs" and "b + VDELTA_MAX < 2 ^ 64"
  shows "spread_ok (spec_tasks P s xs)" and "vr_below (b + VDELTA_MAX) (spec_tasks P s xs)"
proof -
  have "\<forall>t \<in> set xs. unat (pol_vdelta P s (ucast (weight t))) \<le> VDELTA_MAX"
    using assms(1) by (simp add: vdelta_max wf_task_sched)
  then show "spread_ok (spec_tasks P s xs)" "vr_below (b + VDELTA_MAX) (spec_tasks P s xs)"
    using spread_within_step assms(2-4) by (simp_all add: spread_ok_def)
qed

lemma run_spread:
  assumes "rq_view rq xs" and "\<forall>t \<in> set xs. wf_task t" and "spread_ok xs" and "vr_below b xs"
    and "b + n * VDELTA_MAX < 2 ^ 64"
  shows "\<exists>rq' xs'. run_ticks tick_fn n (Ref rq) = Some (Ref rq') \<and> rq_view rq' xs' \<and>
    spread_ok xs' \<and> vr_below (b + n * VDELTA_MAX) xs'"
proof -
  let ?I = "\<lambda>j (rq' :: cfs_rq) xs'. (\<forall>t \<in> set xs'. wf_task t) \<and> spread_ok xs' \<and> vr_below (b + j * VDELTA_MAX) xs'"
  have "\<exists>rq' xs'. run_ticks tick_fn n (Ref rq) = Some (Ref rq') \<and> rq_view rq' xs' \<and> ?I n rq' xs'"
  proof (rule run_invariant [where I = ?I, OF assms(1)])
    show "?I 0 rq xs" using assms by simp
  next
    fix j rq xs assume j: "j < n" and I: "?I j rq xs"
    have "Suc j * VDELTA_MAX \<le> n * VDELTA_MAX" using j by (intro mult_le_mono1) simp
    then have room: "b + j * VDELTA_MAX + VDELTA_MAX < 2 ^ 64" using assms(5) by simp
    from I have wf: "\<forall>t \<in> set xs. wf_task t" and sp: "spread_ok xs" and vb: "vr_below (b + j * VDELTA_MAX) xs"
      by simp_all
    show "?I (Suc j) (spec_tick P rq xs) (spec_tasks P (apaf_state rq) xs)"
      using spread_step [OF wf sp vb room, of "apaf_state rq"] wf by (simp add: wf_spec_tasks ac_simps)
  qed
  then show ?thesis by auto
qed

subsection \<open>No runnable task starves\<close>

lemma run_vr_step:
  assumes "\<forall>t \<in> set xs. wf_task t" and "vr_below b xs" and "b + VDELTA_MAX < 2 ^ 64"
    and "n_running xs \<noteq> 0"
  shows "run_vr xs + VDELTA_MIN \<le> run_vr (spec_tasks P s xs)"
proof -
  let ?ys = "spec_tasks P s xs"
  obtain k where k: "next_task xs = Some k" using assms(4) next_task_None [of xs] by (cases "next_task xs") auto
  then have kr: "k < length xs" "is_runnable (xs ! k)" by (simp_all add: next_task_Some is_next_def)
  define d where "d = unat (pol_vdelta P s (ucast (weight (xs ! k))))"
  have d: "VDELTA_MIN \<le> d"
    unfolding d_def by (rule vdelta_min) (use kr assms(1) in \<open>simp add: wf_task_sched\<close>)
  have wd: "unat (pol_vdelta P s (ucast (weight (xs ! i)))) \<le> VDELTA_MAX" if "i < length xs" for i
    by (rule vdelta_max) (use that assms(1) in \<open>simp add: wf_task_sched\<close>)
  let ?r = "\<lambda>xs i. if is_runnable (xs ! i) then unat (vruntime (xs ! i)) else 0"
  have "?r ?ys i = ?r xs i + (if i = k then d else 0)" if i: "i < length xs" for i
  proof -
    have "is_runnable (?ys ! i) = is_runnable (xs ! i)" using i by (simp add: nth_spec_tasks Let_def)
    then show ?thesis
      using unat_vruntime_spec_tasks [OF i wd [OF i] assms(2,3)] k kr(2) by (auto simp: d_def)
  qed
  then have "run_vr ?ys = (\<Sum>i<length xs. ?r xs i + (if i = k then d else 0))"
    unfolding run_vr_def by (intro sum.cong) simp_all
  also have "\<dots> = run_vr xs + d" using kr(1) by (simp add: run_vr_def sum.distrib)
  finally show ?thesis using d by simp
qed

lemma run_progress:
  assumes v: "rq_view rq xs" and wf: "\<forall>t \<in> set xs. wf_task t" and sp: "spread_ok xs"
    and vb: "vr_below b xs" and room: "b + n * VDELTA_MAX < 2 ^ 64"
    and i: "i < length xs" "is_runnable (xs ! i)" and n: "12413 * n_running xs \<le> n"
  shows "\<exists>rq' xs' c. run_ticks tick_fn n (Ref rq) = Some (Ref rq') \<and> rq_view rq' xs' \<and>
    0 < c \<and> c \<le> n \<and> exec_runtime (xs' ! i) = exec_runtime (xs ! i) + of_nat c * TICK_NS"
proof -
  have nr: "n_running xs \<noteq> 0" using i nth_mem [OF i(1)] by (auto simp: n_running_0 simp del: nth_mem)
  let ?I = "\<lambda>j (rq' :: cfs_rq) ys. ((\<forall>t \<in> set ys. wf_task t) \<and> spread_ok ys \<and> vr_below (b + j * VDELTA_MAX) ys)
    \<and> map runnable ys = map runnable xs \<and> run_vr xs + j * VDELTA_MIN \<le> run_vr ys \<and> ticks_of xs i j ys"
  have "\<exists>rq' ys. run_ticks tick_fn n (Ref rq) = Some (Ref rq') \<and> rq_view rq' ys \<and> ?I n rq' ys"
  proof (rule run_invariant [where I = ?I, OF v])
    show "?I 0 rq xs" using wf sp vb by (simp add: ticks_of_def)
  next
    fix j and rq0 :: cfs_rq and ys assume j: "j < n" and I: "?I j rq0 ys"
    let ?zs = "spec_tasks P (apaf_state rq0) ys"
    have "Suc j * VDELTA_MAX \<le> n * VDELTA_MAX" using j by (intro mult_le_mono1) simp
    then have rm: "b + j * VDELTA_MAX + VDELTA_MAX < 2 ^ 64" using room by simp
    from I have wf: "\<forall>t \<in> set ys. wf_task t" and sp: "spread_ok ys" and vb: "vr_below (b + j * VDELTA_MAX) ys"
      and fr: "map runnable ys = map runnable xs" and S: "run_vr xs + j * VDELTA_MIN \<le> run_vr ys"
      and c: "ticks_of xs i j ys" by simp_all
    have "i < length ys" using i(1) map_eq_imp_length_eq [OF fr] by simp
    moreover have "n_running ys \<noteq> 0" using nr fr by (simp add: n_running_runnable)
    ultimately show "?I (Suc j) (spec_tick P rq0 ys) ?zs"
      using run_vr_step [OF wf vb rm, of "apaf_state rq0"] S ticks_of_step [OF _ c]
        spread_step [OF wf sp vb rm, of "apaf_state rq0"] wf fr
      by (simp add: wf_spec_tasks spec_tasks_frame ac_simps)
  qed
  then obtain rq' ys c where run: "run_ticks tick_fn n (Ref rq) = Some (Ref rq')" "rq_view rq' ys"
    and end0: "spread_ok ys" "map runnable ys = map runnable xs" "run_vr xs + n * VDELTA_MIN \<le> run_vr ys"
    and c: "c \<le> n" "exec_runtime (ys ! i) = exec_runtime (xs ! i) + of_nat c * TICK_NS"
      "c = 0 \<longrightarrow> vruntime (ys ! i) = vruntime (xs ! i)" by (auto simp: ticks_of_def)
  have "c \<noteq> 0" using no_lag [OF sp end0 i n] c(3) by auto
  then show ?thesis using run c by auto
qed

end

section \<open>Policies without a controller\<close>

text \<open>
  When the vruntime of a tick depends on the weight alone, a task that started fresh has had
  the same number of ticks in both clocks, and the spread bounds the weighted difference of
  the CPU times of any two runnable tasks.
\<close>

definition fresh :: "cfs_task \<Rightarrow> bool" where
  "fresh t \<longleftrightarrow> wf_task t \<and> vruntime t = 0 \<and> exec_runtime t = 0 \<and> load_sum t = 0 \<and> load_avg t = 0"

definition had_ticks :: "(u32 \<Rightarrow> u64) \<Rightarrow> nat \<Rightarrow> cfs_task \<Rightarrow> bool" where
  "had_ticks vd j t \<longleftrightarrow> wf_task t \<and> (\<exists>c \<le> j. exec_runtime t = of_nat c * TICK_NS \<and>
     vruntime t = of_nat c * vd (ucast (weight t)))"

lemma had_ticks_run: "had_ticks vd j t \<Longrightarrow> had_ticks vd (Suc j) (run_task vd t)"
proof -
  assume "had_ticks vd j t"
  then obtain c where "wf_task t" "c \<le> j" "exec_runtime t = of_nat c * TICK_NS"
    "vruntime t = of_nat c * vd (ucast (weight t))" by (auto simp: had_ticks_def)
  then show ?thesis unfolding had_ticks_def
    by (intro conjI exI [of _ "Suc c"]) (simp_all add: algebra_simps)
qed

lemma had_ticks_mono: "had_ticks vd j t \<Longrightarrow> had_ticks vd (Suc j) t"
  unfolding had_ticks_def by (auto intro: le_SucI)

lemma had_ticks_load [simp]: "had_ticks vd j (load_step dc t) = had_ticks vd j t"
  by (simp add: had_ticks_def)

lemma fresh_spread: "\<forall>t \<in> set xs. fresh t \<Longrightarrow> spread_ok xs \<and> vr_below 0 xs"
  by (simp add: fresh_def spread_ok_defs vr_below_def)

text \<open>Reading the two clocks as numbers.\<close>

lemma had_ticks_unat:
  assumes "had_ticks vd n t" and "unat (vd (ucast (weight t))) \<le> VDELTA_MAX" and "n * VDELTA_MAX < 2 ^ 64"
  shows "unat (exec_runtime t) * unat (vd (ucast (weight t))) = unat (vruntime t) * 1000000"
proof -
  from assms(1) obtain c where c: "c \<le> n" "exec_runtime t = of_nat c * TICK_NS"
    "vruntime t = of_nat c * vd (ucast (weight t))" by (auto simp: had_ticks_def)
  have cn: "c * VDELTA_MAX < 18446744073709551616"
    using mult_le_mono1 [OF c(1), of VDELTA_MAX] assms(3) by simp
  then have c64: "unat (of_nat c :: u64) = c"
    by (simp add: unsigned_of_nat take_bit_nat_eq_self_iff)
  have "c * unat (vd (ucast (weight t))) < 18446744073709551616"
    using order_le_less_trans [OF mult_le_mono2 [OF assms(2), of c] cn] .
  then have "unat (vruntime t) = c * unat (vd (ucast (weight t)))"
    unfolding c(3) by (subst unat_u64_mult_small) (simp_all add: c64)
  moreover have "unat (exec_runtime t) = c * 1000000"
    unfolding c(2) by (subst unat_u64_mult_small) (use cn in \<open>simp_all add: c64\<close>)
  ultimately show ?thesis by simp
qed

locale static_policy = tick_policy +
  assumes static: "pol_vdelta P s w = pol_vdelta P 0 w"
begin

lemma run_had_ticks:
  assumes "rq_view rq xs" and fr: "\<forall>t \<in> set xs. fresh t" and room: "n * VDELTA_MAX < 2 ^ 64"
  shows "\<exists>rq' xs'. run_ticks tick_fn n (Ref rq) = Some (Ref rq') \<and> rq_view rq' xs' \<and>
    spread_ok xs' \<and> (\<forall>t \<in> set xs'. had_ticks (pol_vdelta P 0) n t)"
proof -
  let ?I = "\<lambda>j (rq' :: cfs_rq) ys. (\<forall>t \<in> set ys. had_ticks (pol_vdelta P 0) j t)"
  have "\<exists>rq' ys. run_ticks tick_fn n (Ref rq) = Some (Ref rq') \<and> rq_view rq' ys \<and> ?I n rq' ys"
  proof (rule run_invariant [where I = ?I, OF assms(1)])
    show "?I 0 rq xs" using fr by (simp add: fresh_def had_ticks_def)
  next
    fix j and rq0 :: cfs_rq and ys assume I: "?I j rq0 ys"
    have vd: "pol_vdelta P (apaf_state rq0) = pol_vdelta P 0" using static by blast
    show "?I (Suc j) (spec_tick P rq0 ys) (spec_tasks P (apaf_state rq0) ys)"
      by (rule spec_tasks_ball [OF I]) (simp_all add: had_ticks_mono had_ticks_run vd)
  qed
  moreover have "\<exists>rq' xs'. run_ticks tick_fn n (Ref rq) = Some (Ref rq') \<and> rq_view rq' xs' \<and>
      spread_ok xs' \<and> vr_below (0 + n * VDELTA_MAX) xs'"
    by (rule run_spread [OF assms(1)]) (use fr room fresh_spread in \<open>auto simp: fresh_def\<close>)
  ultimately show ?thesis by (metis option.inject ptr.inject rq_view_unique)
qed

text \<open>Weighted fairness: CPU times in proportion to the weights, up to one long tick.\<close>

lemma run_share:
  assumes "rq_view rq xs" and "\<forall>t \<in> set xs. fresh t" and room: "n * VDELTA_MAX < 2 ^ 64"
  shows "\<exists>rq' xs'. run_ticks tick_fn n (Ref rq) = Some (Ref rq') \<and> rq_view rq' xs' \<and>
    (\<forall>t \<in> set xs'. \<forall>u \<in> set xs'. is_runnable t \<longrightarrow> is_runnable u \<longrightarrow>
       unat (exec_runtime t) * unat (pol_vdelta P 0 (ucast (weight t)))
       \<le> unat (exec_runtime u) * unat (pol_vdelta P 0 (ucast (weight u))) + VDELTA_MAX * 1000000)"
proof -
  obtain rq' xs' where r: "run_ticks tick_fn n (Ref rq) = Some (Ref rq')" "rq_view rq' xs'"
    and sp: "spread_ok xs'" and ht: "\<forall>t \<in> set xs'. had_ticks (pol_vdelta P 0) n t"
    using run_had_ticks [OF assms] by blast
  have at: "unat (exec_runtime t) * unat (pol_vdelta P 0 (ucast (weight t))) = unat (vruntime t) * 1000000"
    if "t \<in> set xs'" for t
    using ht that vdelta_max [of "ucast (weight t)"]
    by (intro had_ticks_unat [OF _ _ room]) (auto simp: had_ticks_def wf_task_sched)
  have "\<forall>t \<in> set xs'. \<forall>u \<in> set xs'. is_runnable t \<longrightarrow> is_runnable u \<longrightarrow>
       unat (vruntime t) * 1000000 \<le> unat (vruntime u) * 1000000 + VDELTA_MAX * 1000000"
    using sp unfolding spread_ok_defs by (metis add_mult_distrib mult_le_mono1)
  then show ?thesis using r at by auto
qed

end

section \<open>What is created is well-formed\<close>

text \<open>
  C34. Whatever ids, nice values and mode a caller passes, \<open>task_create\<close> and \<open>rq_init\<close> are defined
  and build a well-formed runqueue of fresh runnable tasks: nice values clamped into the table,
  the weight the table has for them, loads within their bounds, mode 0 to 3, controller MEDIUM,
  every task counted.
\<close>

theorem created_typed:
  "\<exists>ts rq. those (map (\<lambda>(i, nc). task_create i nc) args) = Some ts \<and>
    map (\<lambda>t. (t_id t, nice t)) ts = map (\<lambda>(i, nc). (i, max (- 20) (min 19 nc))) args \<and>
    list_all (\<lambda>t. fresh t \<and> load_ok t \<and> is_runnable t \<and>
      weight t = word_of_int (nice_to_weight ! nat (nice t + 20))) ts \<and>
    rq_init (Ref ts) (int (length ts)) mode = Some rq \<and> rq_view rq ts \<and>
    nr_running rq = int (length args) \<and> approx_mode rq \<in> {0..3} \<and> apaf_state rq = APAF_MEDIUM"
proof -
  let ?t = "\<lambda>i nc. \<lparr>t_id = i, nice = max (- 20) (min 19 nc),
     weight = word_of_int (nice_to_weight ! nat (max (- 20) (min 19 nc) + 20)), vruntime = 0,
     load_avg = 0, load_sum = 0, exec_runtime = 0, runnable = 1\<rparr> :: cfs_task"
  let ?ts = "map (\<lambda>(i, nc). ?t i nc) args"
  have made: "those (map (\<lambda>(i, nc). task_create i nc) args) = Some ?ts"
    by (induction args) (auto simp: task_create_view)
  have ok: "fresh (?t i nc) \<and> load_ok (?t i nc) \<and> is_runnable (?t i nc)" for i nc
  proof -
    have "length nice_to_weight = 40" by (simp add: nice_to_weight_def)
    moreover have "0 \<le> max (- 20) (min 19 nc) + 20" "max (- 20) (min 19 nc) + 20 < 40" by linarith+
    ultimately have "nice_to_weight ! nat (max (- 20) (min 19 nc) + 20) \<in> set nice_to_weight"
      by (intro nth_mem) simp
    then show ?thesis by (simp add: fresh_def wf_task_def load_ok_def is_runnable_def)
  qed
  have "n_running ?ts = length args"
    by (simp add: n_running_def is_runnable_def case_prod_beta filter_map comp_def)
  then show ?thesis
    using made ok rq_init_view [of ?ts mode]
    by (intro exI [of _ ?ts] exI conjI) (auto simp: list_all_iff rq_view_def)
qed

end
