(* ===== verification/Tick_Runs.thy ===== *)
theory Tick_Runs
  imports Tick_Policy
begin

text \<open>
  Runs from fresh tasks under any policy, as the self-tests start them: the loads of tasks that
  are runnable all the time, the round robin of nice-0 tasks, and a spread of the vruntimes
  bounded by the largest charge that occurs.
\<close>

section \<open>Loops of ticks\<close>

lemma run_ticks_Suc_end: "run_ticks tk (Suc n) p = run_ticks tk n p \<bind> tk"
proof (induction n arbitrary: p)
  case (Suc n)
  have "run_ticks tk (Suc n) = (\<lambda>q. run_ticks tk n q \<bind> tk)" by (intro ext) (rule Suc.IH)
  then have "run_ticks tk (Suc (Suc n)) p = tk p \<bind> (\<lambda>q. run_ticks tk n q \<bind> tk)"
    by (simp only: run_ticks.simps(2) [of tk "Suc n"])
  then show ?case by simp
next
  case 0
  show ?case by (cases "tk p") simp_all
qed

text \<open>A loop that does not look at its counter; its steps can be taken side by side.\<close>

primrec iter_opt :: "('s \<Rightarrow> 's option) \<Rightarrow> nat \<Rightarrow> 's \<Rightarrow> 's option" where
  "iter_opt f 0 s = Some s"
| "iter_opt f (Suc n) s = f s \<bind> iter_opt f n"

lemma for_loop_iter: "for_loop (int k) (int (k + n)) (\<lambda>_. f) s = iter_opt f n s"
proof (induction n arbitrary: k s)
  case (Suc n)
  have "for_loop (int (Suc k)) (int (k + Suc n)) (\<lambda>_. f) = iter_opt f n"
    using Suc.IH [of "Suc k"] by (intro ext) simp
  then show ?case by (simp add: for_loop_step add.commute)
qed simp

lemma run_ticks_iter: "run_ticks tk n = iter_opt tk n"
proof (induction n)
  case (Suc n)
  then show ?case by (intro ext) simp
qed (intro ext, simp)

lemma iter_pair:
  assumes "iter_opt f n p = Some p'" and "iter_opt g n q = Some q'"
  shows "iter_opt (\<lambda>(p, q). f p \<bind> (\<lambda>p. g q \<bind> (\<lambda>q. Some (p, q)))) n (p, q) = Some (p', q')"
  using assms by (induction n arbitrary: p q) (auto split: bind_splits)

section \<open>Loads\<close>

text \<open>The load sum of a runnable task of weight \<open>w\<close> after \<open>n\<close> ticks.\<close>

primrec load_after :: "(u64 \<Rightarrow> u64) \<Rightarrow> u64 \<Rightarrow> nat \<Rightarrow> u64" where
  "load_after dc w 0 = 0"
| "load_after dc w (Suc n) = dc (load_after dc w n) + w"

definition avg_of :: "u64 \<Rightarrow> u64 \<Rightarrow> u64" where
  "avg_of w s = (let a = w * s div LOAD_AVG_MAX in if w < a then w else a)"

lemma load_step_runnable:
  "is_runnable t \<Longrightarrow> load_sum (load_step dc t) = dc (load_sum t) + weight t"
  "is_runnable t \<Longrightarrow> load_avg (load_step dc t) = avg_of (weight t) (dc (load_sum t) + weight t)"
  by (simp_all add: load_step_def avg_of_def Let_def)

definition loaded :: "(u64 \<Rightarrow> u64) \<Rightarrow> nat \<Rightarrow> cfs_task \<Rightarrow> bool" where
  "loaded dc n t \<longleftrightarrow> is_runnable t \<and> load_sum t = load_after dc (weight t) n \<and>
     load_avg t = avg_of (weight t) (load_sum t)"

lemma loaded_run [simp]: "loaded dc n (run_task vd t) = loaded dc n t"
  by (simp add: loaded_def)

lemma loaded_step: "loaded dc n t \<Longrightarrow> loaded dc (Suc n) (load_step dc t)"
  by (simp add: loaded_def load_step_runnable is_runnable_def)

section \<open>Round robin\<close>

text \<open>The number of ticks task \<open>i\<close> of \<open>m\<close> has had after \<open>j\<close> ticks.\<close>

definition turns :: "nat \<Rightarrow> nat \<Rightarrow> nat \<Rightarrow> nat" where
  "turns m j i = j div m + (if i < j mod m then 1 else 0)"

lemma turns_Suc:
  assumes "i < m"
  shows "turns m (Suc j) i = turns m j i + (if i = j mod m then 1 else 0)"
  using assms by (auto simp: turns_def mod_Suc div_Suc)

lemma turns_le: "turns m j i \<le> j + 1"
  by (simp add: turns_def le_SucI)

definition turn_task :: "nat \<Rightarrow> cfs_task \<Rightarrow> bool" where
  "turn_task c t \<longleftrightarrow> weight t = 1024 \<and> is_runnable t \<and> vruntime t = of_nat c * TICK_NS \<and>
     exec_runtime t = of_nat c * TICK_NS"

lemma turn_task_run:
  "turn_task c t \<Longrightarrow> vd 1024 = TICK_NS \<Longrightarrow> turn_task (Suc c) (run_task vd t)"
proof -
  assume t: "turn_task c t" and vd: "vd 1024 = TICK_NS"
  have "of_nat (Suc c) * TICK_NS = of_nat c * TICK_NS + TICK_NS"
    by (simp only: of_nat_Suc distrib_right mult_1_left add.commute)
  then show "turn_task (Suc c) (run_task vd t)"
    using t vd unfolding turn_task_def by (simp only: run_task_simps) simp
qed

lemma turn_task_load [simp]: "turn_task c (load_step dc t) = turn_task c t"
  by (simp add: turn_task_def is_runnable_def)

definition in_turn :: "nat \<Rightarrow> cfs_task list \<Rightarrow> bool" where
  "in_turn j xs \<longleftrightarrow> (\<forall>i < length xs. turn_task (turns (length xs) j i) (xs ! i))"

lemma in_turn_0: "\<forall>t \<in> set xs. turn_task 0 t \<Longrightarrow> in_turn 0 xs"
  by (simp add: in_turn_def turns_def)

lemma turn_next:
  assumes "in_turn j xs" and "xs \<noteq> []" and "j < 2 ^ 40"
  shows "next_task xs = Some (j mod length xs)"
proof -
  let ?m = "length xs"
  have m: "0 < ?m" using assms(2) by simp
  have v: "unat (vruntime (xs ! i)) = turns ?m j i * 1000000" if "i < ?m" for i
  proof -
    have "turns ?m j i * 1000000 < 18446744073709551616" using turns_le [of ?m j i] assms(3) by simp
    then have "turns ?m j i < 18446744073709551616" by simp
    then have "unat (of_nat (turns ?m j i) * TICK_NS) = turns ?m j i * 1000000"
      using \<open>turns ?m j i * 1000000 < 18446744073709551616\<close>
      by (subst unat_u64_mult_small) (simp_all add: unat_of_nat_u64)
    then show ?thesis using assms(1) that by (simp add: in_turn_def turn_task_def)
  qed
  have run: "is_runnable (xs ! i)" if "i < ?m" for i
    using assms(1) that by (simp add: in_turn_def turn_task_def)
  have k: "j mod ?m < ?m" using m by simp
  have "turns ?m j (j mod ?m) \<le> turns ?m j i" "i < j mod ?m \<Longrightarrow> turns ?m j (j mod ?m) < turns ?m j i" for i
    by (simp_all add: turns_def)
  then have "is_next xs (j mod ?m)"
    unfolding is_next_def word_le_nat_alt word_less_nat_alt using run v k by simp
  then show ?thesis by (simp add: next_task_Some)
qed

context tick_policy
begin

lemma run_loads:
  assumes v: "rq_view rq xs" and fr: "\<forall>t \<in> set xs. fresh t \<and> is_runnable t"
    and dc: "\<And>s. pol_decay P s = dc"
  shows "\<exists>rq' xs'. run_ticks tick_fn n (Ref rq) = Some (Ref rq') \<and> rq_view rq' xs' \<and>
    (\<forall>t \<in> set xs'. loaded dc n t)"
proof (rule run_invariant [where I = "\<lambda>j _ ys. \<forall>t \<in> set ys. loaded dc j t", OF v])
  show "\<forall>t \<in> set xs. loaded dc 0 t"
    using fr by (simp add: fresh_def loaded_def avg_of_def)
next
  fix j and rq :: cfs_rq and xs assume I: "\<forall>t \<in> set xs. loaded dc j t"
  show "\<forall>t \<in> set (spec_tasks P (apaf_state rq) xs). loaded dc (Suc j) t"
  proof (cases "next_task xs")
    case None
    then have "xs = []" using I by (auto simp: next_task_None n_running_0 loaded_def)
    then show ?thesis by (simp add: spec_tasks_def next_task_def)
  next
    case (Some k)
    have "\<forall>t \<in> set (run_at P (apaf_state rq) xs k). loaded dc j t"
      using I Some set_update_subset_insert [of xs k]
      by (auto simp: run_at_def next_task_Some is_next_def dest!: set_mp [OF set_update_subset_insert])
    then show ?thesis using Some by (auto simp: spec_tasks_def dc loaded_step)
  qed
qed

text \<open>The same, with the weights and flags of the tasks, which do not change.\<close>

lemma run_loads_frame:
  assumes v: "rq_view rq xs" and fr: "\<forall>t \<in> set xs. fresh t \<and> is_runnable t"
    and dc: "\<And>s. pol_decay P s = dc"
  obtains rq' xs' where "run_ticks tick_fn n (Ref rq) = Some (Ref rq')" and "rq_view rq' xs'"
    and "length xs' = length xs"
    and "\<And>i. i < length xs \<Longrightarrow> weight (xs' ! i) = weight (xs ! i) \<and> loaded dc n (xs' ! i)"
proof -
  obtain rq' xs' where r: "run_ticks tick_fn n (Ref rq) = Some (Ref rq')" "rq_view rq' xs'"
    "\<forall>t \<in> set xs'. loaded dc n t"
    using run_loads [OF v fr dc, of n] by auto
  obtain ys where y: "rq_view rq' ys" "map weight ys = map weight xs"
    using run_frame [OF v, of n] r(1) by auto
  have ys: "ys = xs'" by (rule rq_view_unique [OF y(1) r(2)])
  then have len: "length xs' = length xs" using y(2) by (metis length_map)
  moreover have "weight (xs' ! i) = weight (xs ! i) \<and> loaded dc n (xs' ! i)" if "i < length xs" for i
    using that len y(2) ys r(3) by (metis nth_map nth_mem)
  ultimately show ?thesis using that r(1,2) by blast
qed

lemma lone_load:
  assumes v: "rq_view rq [t0]" and fr: "fresh t0" "is_runnable t0" and dc: "\<And>s. pol_decay P s = dc"
  obtains rq' t where "run_ticks tick_fn n (Ref rq) = Some (Ref rq')" and "rq_view rq' [t]"
    and "weight t = weight t0" and "is_runnable t" and "load_sum t = load_after dc (weight t0) n"
    and "load_avg t = avg_of (weight t0) (load_after dc (weight t0) n)"
proof -
  have "\<forall>t \<in> set [t0]. fresh t \<and> is_runnable t" using fr by simp
  then obtain rq' xs' where r: "run_ticks tick_fn n (Ref rq) = Some (Ref rq')" "rq_view rq' xs'"
    "length xs' = length [t0]"
    "\<And>i. i < length [t0] \<Longrightarrow> weight (xs' ! i) = weight ([t0] ! i) \<and> loaded dc n (xs' ! i)"
    using run_loads_frame [OF v _ dc] by metis
  obtain t where t: "xs' = [t]" using r(3) by (auto simp: length_Suc_conv)
  then have "weight t = weight t0" "loaded dc n t" using r(4) [of 0] by simp_all
  then show ?thesis using that [of rq' t] r(1,2) t by (simp add: loaded_def)
qed

text \<open>Tasks of nice 0 take turns, whatever the policy does to their loads.\<close>

lemma in_turn_step:
  assumes t: "in_turn j ys" and ne: "ys \<noteq> []" and vd: "pol_vdelta P s 1024 = TICK_NS" and j: "j < 2 ^ 40"
  shows "in_turn (Suc j) (spec_tasks P s ys)"
proof -
  let ?m = "length ys"
  have nx: "next_task ys = Some (j mod ?m)" by (rule turn_next [OF t ne j])
  have "turn_task (turns ?m (Suc j) i) (spec_tasks P s ys ! i)" if i: "i < ?m" for i
  proof -
    have "turn_task (turns ?m j i) (ys ! i)" using t i unfolding in_turn_def by blast
    then have "turn_task (turns ?m (Suc j) i)
        (if next_task ys = Some i then run_task (pol_vdelta P s) (ys ! i) else ys ! i)"
      using turn_task_run [of "turns ?m j i" "ys ! i" "pol_vdelta P s"] i by (simp add: nx turns_Suc vd)
    moreover have "spec_tasks P s ys ! i = load_step (pol_decay P s)
        (if next_task ys = Some i then run_task (pol_vdelta P s) (ys ! i) else ys ! i)"
      using i by (simp add: spec_tasks_def nx run_at_def nth_list_update)
    ultimately show ?thesis by simp
  qed
  then show ?thesis by (simp add: in_turn_def)
qed

lemma round_robin:
  assumes v: "rq_view rq xs" and ne: "xs \<noteq> []" and start: "\<forall>t \<in> set xs. turn_task 0 t"
    and vd: "\<And>s. pol_vdelta P s 1024 = TICK_NS" and n: "n < 2 ^ 40"
  shows "\<exists>rq' xs'. run_ticks tick_fn n (Ref rq) = Some (Ref rq') \<and> rq_view rq' xs' \<and>
    length xs' = length xs \<and> in_turn n xs'"
proof (rule run_invariant [where I = "\<lambda>j _ ys. length ys = length xs \<and> in_turn j ys", OF v])
  show "length xs = length xs \<and> in_turn 0 xs"
    using in_turn_0 [OF start] by simp
next
  fix j and rq :: cfs_rq and ys
  assume j: "j < n" and I: "length ys = length xs \<and> in_turn j ys"
  have "in_turn (Suc j) (spec_tasks P (apaf_state rq) ys)"
    by (rule in_turn_step) (use I ne vd j n in auto)
  then show "length (spec_tasks P (apaf_state rq) ys) = length xs \<and>
      in_turn (Suc j) (spec_tasks P (apaf_state rq) ys)"
    using I by simp
qed

lemma run_spread_within:
  assumes v: "rq_view rq xs" and sp: "spread_within m xs" and vb: "vr_below 0 xs"
    and dm: "\<And>s w. w \<in> set (map weight xs) \<Longrightarrow> unat (pol_vdelta P s (ucast w)) \<le> m"
    and room: "n * m < 2 ^ 64"
  shows "\<exists>rq' xs'. run_ticks tick_fn n (Ref rq) = Some (Ref rq') \<and> rq_view rq' xs' \<and>
    map runnable xs' = map runnable xs \<and> spread_within m xs'"
proof -
  let ?I = "\<lambda>j (_ :: cfs_rq) ys. map weight ys = map weight xs \<and> map runnable ys = map runnable xs \<and>
     spread_within m ys \<and> vr_below (j * m) ys"
  have "\<exists>rq' ys. run_ticks tick_fn n (Ref rq) = Some (Ref rq') \<and> rq_view rq' ys \<and> ?I n rq' ys"
  proof (rule run_invariant [where I = ?I, OF v])
    show "?I 0 rq xs" using sp vb by simp
  next
    fix j and rq :: cfs_rq and ys assume j: "j < n" and I: "?I j rq ys"
    have "Suc j * m \<le> n * m" using j by (intro mult_le_mono1) simp
    then have "j * m + m < 2 ^ 64" using room by simp
    moreover have "\<forall>t \<in> set ys. unat (pol_vdelta P (apaf_state rq) (ucast (weight t))) \<le> m"
      using I dm by (metis image_eqI image_set)
    ultimately show "?I (Suc j) (spec_tick P rq ys) (spec_tasks P (apaf_state rq) ys)"
      using spread_within_step [of ys "apaf_state rq" m "j * m"] I
      by (simp add: spec_tasks_frame add.commute)
  qed
  then show ?thesis by blast
qed

text \<open>With nothing to run, a policy that updates idle tasks decays their loads and does nothing else.\<close>

lemma run_idle:
  assumes v: "rq_view rq xs" and no: "n_running xs = 0" and idle: "pol_idle P"
    and dc: "\<And>s. pol_decay P s = dc"
  shows "\<exists>rq' xs'. run_ticks tick_fn n (Ref rq) = Some (Ref rq') \<and> rq_view rq' xs' \<and>
    length xs' = length xs \<and> (\<forall>i < length xs. weight (xs' ! i) = weight (xs ! i) \<and>
      load_sum (xs' ! i) = (dc ^^ n) (load_sum (xs ! i)) \<and>
      (0 < n \<longrightarrow> load_avg (xs' ! i) = avg_of (weight (xs ! i)) (load_sum (xs' ! i))))"
proof -
  let ?I = "\<lambda>j (_ :: cfs_rq) ys. n_running ys = 0 \<and> length ys = length xs \<and>
    (\<forall>i < length xs. weight (ys ! i) = weight (xs ! i) \<and>
      load_sum (ys ! i) = (dc ^^ j) (load_sum (xs ! i)) \<and>
      (0 < j \<longrightarrow> load_avg (ys ! i) = avg_of (weight (xs ! i)) (load_sum (ys ! i))))"
  have "\<exists>rq' ys. run_ticks tick_fn n (Ref rq) = Some (Ref rq') \<and> rq_view rq' ys \<and> ?I n rq' ys"
  proof (rule run_invariant [where I = ?I, OF v])
    show "?I 0 rq xs" using no by simp
  next
    fix j and rq :: cfs_rq and ys assume I: "?I j rq ys"
    then have nx: "next_task ys = None" by (simp add: next_task_None)
    have nr: "\<not> is_runnable (ys ! i)" if "i < length xs" for i
      using I that by (auto simp: n_running_0)
    have "spec_tasks P (apaf_state rq) ys ! i = load_step dc (ys ! i)" if "i < length xs" for i
      using I that nx idle dc by (simp add: nth_spec_tasks)
    then show "?I (Suc j) (spec_tick P rq ys) (spec_tasks P (apaf_state rq) ys)"
      using I nr by (simp add: load_step_def avg_of_def Let_def)
  qed
  then show ?thesis by blast
qed

end

section \<open>Evaluation\<close>

lemma load_after_numeral:
  "load_after dc w (numeral k) = dc (load_after dc w (pred_numeral k)) + w"
  by (simp add: numeral_eq_Suc)

lemma funpow_numeral: "(f ^^ numeral k) x = f ((f ^^ pred_numeral k) x)"
  by (simp add: numeral_eq_Suc)

end
