(* ===== verification/CFS_Exact.thy ===== *)
theory CFS_Exact
  imports Tick_Runs
begin

text \<open>
  src/apex-cfs/src/cfs_exact.h and cfs_exact.c: the exact fixed-point arithmetic, the
  per-task updates, the choice of the next task and one scheduler tick. The other policies
  reuse the multiply-and-shift and the choice of the next task.
\<close>

abbreviation (input) PELT_SHIFT :: int where "PELT_SHIFT \<equiv> 32"
abbreviation (input) PELT_MAX_PERIODS :: int where "PELT_MAX_PERIODS \<equiv> 63"
abbreviation (input) WMULT_CONST :: u64 where "WMULT_CONST \<equiv> 0x100000000"
abbreviation (input) UINT32_MAX :: u64 where "UINT32_MAX \<equiv> 0xffffffff"

section \<open>Arithmetic\<close>

definition exact_mul_u64_u32_shr :: "u64 \<Rightarrow> u32 \<Rightarrow> int \<Rightarrow> u64 option" where
  "exact_mul_u64_u32_shr a b shift =
     (let prod = (ucast a * ucast b :: u128)
      in if 0 \<le> shift \<and> shift < 128 then Some (ucast (drop_bit (nat shift) prod)) else None)"

definition exact_decay_load :: "u64 \<Rightarrow> int \<Rightarrow> u64 option" where
  "exact_decay_load load periods =
     (if periods = 0 then Some load
      else if PELT_MAX_PERIODS * LOAD_AVG_PERIOD \<le> periods then Some 0
      else do {
        let coarse = c_div periods LOAD_AVG_PERIOD;
        let local_n = c_mod periods LOAD_AVG_PERIOD;
        load1 \<leftarrow> u64_shr load coarse;
        if 0 < local_n then do {
          y \<leftarrow> arr_get runnable_avg_yN_inv local_n;
          exact_mul_u64_u32_shr load1 y PELT_SHIFT
        } else Some load1
      })"

definition exact_calc_delta_fair :: "u64 \<Rightarrow> u32 \<Rightarrow> u64 option" where
  "exact_calc_delta_fair delta_exec w =
     (if w = NICE_0_LOAD then Some delta_exec
      else if w = 0 then Some 0
      else do {
        let (delta1, scaled) =
          (if UINT32_MAX < delta_exec then (drop_bit 1 delta_exec, True) else (delta_exec, False));
        let inv_weight = WMULT_CONST div ucast w;
        result \<leftarrow> exact_mul_u64_u32_shr delta1 (ucast inv_weight) (WMULT_SHIFT - 10);
        Some (if scaled then push_bit 1 result else result)
      })"

section \<open>Updates of one task\<close>

definition exact_update_curr :: "cfs_rq ptr \<Rightarrow> int \<Rightarrow> cfs_rq ptr option" where
  "exact_update_curr p task_idx =
     (case p of NULL \<Rightarrow> Some p
      | Ref rq \<Rightarrow>
          (case tasks rq of NULL \<Rightarrow> Some p
           | Ref xs \<Rightarrow>
               if task_idx < 0 \<or> nr_tasks rq \<le> task_idx then Some p
               else do {
                 curr \<leftarrow> arr_get xs task_idx;
                 if runnable curr = 0 then Some p
                 else do {
                   let delta_exec = TICK_NS;
                   let curr1 = curr\<lparr>exec_runtime := exec_runtime curr + delta_exec\<rparr>;
                   d \<leftarrow> exact_calc_delta_fair delta_exec (ucast (weight curr1));
                   ys \<leftarrow> arr_set xs task_idx (curr1\<lparr>vruntime := vruntime curr1 + d\<rparr>);
                   Some (Ref (rq\<lparr>tasks := Ref ys\<rparr>))
                 }
               }))"

definition exact_update_load_avg :: "cfs_rq ptr \<Rightarrow> int \<Rightarrow> cfs_rq ptr option" where
  "exact_update_load_avg p task_idx =
     (case p of NULL \<Rightarrow> Some p
      | Ref rq \<Rightarrow>
          (case tasks rq of NULL \<Rightarrow> Some p
           | Ref xs \<Rightarrow>
               if task_idx < 0 \<or> nr_tasks rq \<le> task_idx then Some p
               else do {
                 t \<leftarrow> arr_get xs task_idx;
                 decayed \<leftarrow> exact_decay_load (load_sum t) 1;
                 let t1 = t\<lparr>load_sum := decayed\<rparr>;
                 let t2 = (if runnable t1 = 1 then t1\<lparr>load_sum := load_sum t1 + weight t1\<rparr> else t1);
                 let t3 = t2\<lparr>load_avg := (weight t2 * load_sum t2) div LOAD_AVG_MAX\<rparr>;
                 let t4 = (if weight t3 < load_avg t3 then t3\<lparr>load_avg := weight t3\<rparr> else t3);
                 ys \<leftarrow> arr_set xs task_idx t4;
                 Some (Ref (rq\<lparr>tasks := Ref ys\<rparr>))
               }))"

section \<open>The next task\<close>

text \<open>One iteration of the minimum search over \<open>(min_idx, min_vruntime)\<close>.\<close>

definition pick_acc :: "int \<Rightarrow> cfs_task \<Rightarrow> int \<times> u64 \<Rightarrow> int \<times> u64" where
  "pick_acc i t s =
     (case s of (min_idx, min_vruntime) \<Rightarrow>
        if runnable t = 1 \<and> (min_idx = - 1 \<or> vruntime t < min_vruntime)
        then (i, vruntime t) else s)"

definition exact_pick_next_task :: "cfs_rq ptr \<Rightarrow> int option" where
  "exact_pick_next_task p =
     (case p of NULL \<Rightarrow> Some (- 1)
      | Ref rq \<Rightarrow>
          (case tasks rq of NULL \<Rightarrow> Some (- 1)
           | Ref xs \<Rightarrow>
               if nr_tasks rq \<le> 0 then Some (- 1)
               else do {
                 (min_idx, _) \<leftarrow>
                   for_loop 0 (nr_tasks rq) (\<lambda>i s. arr_get xs i \<bind> (\<lambda>t. Some (pick_acc i t s))) (- 1, 0);
                 Some min_idx
               }))"

section \<open>One tick\<close>

definition exact_tick :: "cfs_rq ptr \<Rightarrow> cfs_rq ptr option" where
  "exact_tick p =
     (case p of NULL \<Rightarrow> Some p
      | Ref _ \<Rightarrow> do {
          let p = rq_tick p;
          nxt \<leftarrow> exact_pick_next_task p;
          p \<leftarrow> (if nxt \<noteq> - 1 then exact_update_curr p nxt else Some p);
          rq \<leftarrow> c_deref p;
          p \<leftarrow> for_loop 0 (nr_tasks rq) (\<lambda>i q. exact_update_load_avg q i) p;
          j \<leftarrow> fairness_jain_index p;
          p \<leftarrow> c_write p (jain_index_update (\<lambda>_. j));
          (_, p) \<leftarrow> rq_count_running p;
          Some p
        })"

section \<open>The choice of the next task\<close>

text \<open>What the search loop of \<open>exact_pick_next_task\<close> has found after \<open>j\<close> tasks.\<close>

definition pick_inv :: "cfs_task list \<Rightarrow> nat \<Rightarrow> int \<times> u64 \<Rightarrow> bool" where
  "pick_inv xs j s = (case s of (m, v) \<Rightarrow>
     (m = - 1 \<and> (\<forall>i < j. \<not> is_runnable (xs ! i))) \<or>
     (\<exists>k < j. m = int k \<and> v = vruntime (xs ! k) \<and> is_runnable (xs ! k) \<and>
        (\<forall>i < j. is_runnable (xs ! i) \<longrightarrow> v \<le> vruntime (xs ! i) \<and> (i < k \<longrightarrow> v < vruntime (xs ! i)))))"

lemma pick_inv_step:
  assumes "pick_inv xs j s"
  shows "pick_inv xs (Suc j) (pick_acc (int j) (xs ! j) s)"
proof -
  obtain m v where s: "s = (m, v)" by (cases s)
  show ?thesis
  proof (cases "is_runnable (xs ! j) \<and> (m = - 1 \<or> vruntime (xs ! j) < v)")
    case True
    then have "pick_acc (int j) (xs ! j) s = (int j, vruntime (xs ! j))"
      by (auto simp: pick_acc_def s is_runnable_def)
    moreover have "pick_inv xs (Suc j) (int j, vruntime (xs ! j))"
      using True assms unfolding pick_inv_def s
      by (auto simp: less_Suc_eq intro: order_trans less_imp_le less_le_trans)
    ultimately show ?thesis by simp
  next
    case False
    then have "pick_acc (int j) (xs ! j) s = (m, v)"
      by (auto simp: pick_acc_def s is_runnable_def)
    moreover have "pick_inv xs (Suc j) (m, v)"
      using False assms unfolding pick_inv_def s by (auto simp: less_Suc_eq)
    ultimately show ?thesis by simp
  qed
qed

lemma exact_pick_next_task_view:
  assumes "rq_view rq xs"
  shows "exact_pick_next_task (Ref rq) =
    Some (case next_task xs of None \<Rightarrow> - 1 | Some k \<Rightarrow> int k)"
proof (cases "xs = []")
  case True
  then show ?thesis using rq_view_tasks [OF assms] rq_view_nr [OF assms]
    by (simp add: exact_pick_next_task_def next_task_def)
next
  case False
  have "\<exists>s'. for_loop (int 0) (int (length xs))
      (\<lambda>i s. arr_get xs i \<bind> (\<lambda>t. Some (pick_acc i t s))) (- 1, 0) = Some s' \<and> pick_inv xs (length xs) s'"
    by (rule for_loop_invariant) (auto simp: pick_inv_step, simp add: pick_inv_def)
  then obtain m v where s: "for_loop 0 (int (length xs))
      (\<lambda>i s. arr_get xs i \<bind> (\<lambda>t. Some (pick_acc i t s))) (- 1, 0) = Some (m, v)"
      and inv: "pick_inv xs (length xs) (m, v)" by auto
  have pick: "exact_pick_next_task (Ref rq) = Some m"
    using False rq_view_tasks [OF assms] rq_view_nr [OF assms] s by (simp add: exact_pick_next_task_def)
  have found: "(m = - 1 \<and> (\<forall>i < length xs. \<not> is_runnable (xs ! i))) \<or> (\<exists>k. m = int k \<and> is_next xs k)"
    using inv unfolding pick_inv_def is_next_def by auto
  show ?thesis
  proof (cases "next_task xs")
    case None
    then have "\<not> is_next xs k" for k using next_task_Some [of xs k] by simp
    then show ?thesis using found None pick by simp
  next
    case (Some k)
    then have k: "is_next xs k" by (simp add: next_task_Some)
    then have "is_runnable (xs ! k)" "k < length xs" by (simp_all add: is_next_def)
    then have "m = int k" using found is_next_unique [OF k] by auto
    then show ?thesis using Some pick by simp
  qed
qed

section \<open>Closed forms\<close>

lemma exact_mul_shr:
  assumes "0 \<le> s" and "s < 128"
  shows "exact_mul_u64_u32_shr a b s = Some (mul_shr a (ucast b) (nat s))"
proof -
  have "(ucast (ucast b :: u64) :: u128) = ucast b"
    by (rule bit_word_eqI) (auto simp: bit_unsigned_iff dest: bit_imp_le_length)
  then show ?thesis using assms by (simp add: exact_mul_u64_u32_shr_def mul_shr_def)
qed

text \<open>The decay of one period and the vruntime of one tick.\<close>

definition exact_decay1 :: "u64 \<Rightarrow> u64" where
  "exact_decay1 load = mul_shr load 0xfa83b2da 32"

definition exact_vdelta :: "u32 \<Rightarrow> u64" where
  "exact_vdelta w = (if w = NICE_0_LOAD then TICK_NS else if w = 0 then 0
     else mul_shr TICK_NS (ucast (ucast (WMULT_CONST div ucast w) :: u32)) 22)"

lemma exact_decay_load_1: "exact_decay_load load 1 = Some (exact_decay1 load)"
  by (simp add: exact_decay_load_def c_div_nonneg c_mod_nonneg exact_mul_shr arr_get_def
      runnable_avg_yN_inv_def exact_decay1_def)

text \<open>The decay over any number of periods, read on numbers.\<close>

lemma exact_decay_load_view:
  obtains e where "exact_decay_load v (int p) = Some e"
    and "unat e = (if p = 0 then unat v else if 2016 \<le> p then 0
           else if p mod 32 = 0 then unat v div 2 ^ (p div 32)
           else unat v div 2 ^ (p div 32) * unat (runnable_avg_yN_inv ! (p mod 32)) div 2 ^ 32)"
proof (cases "p = 0 \<or> 2016 \<le> p")
  case True
  then show ?thesis using that by (cases "p = 0") (auto simp: exact_decay_load_def)
next
  case False
  then have p: "p \<noteq> 0" "p < 2016" "p div 32 < 64" by auto
  have len: "length runnable_avg_yN_inv = 32" by (simp add: runnable_avg_yN_inv_def)
  let ?v = "drop_bit (p div 32) v" and ?y = "runnable_avg_yN_inv ! (p mod 32)"
  have dm: "c_div (int p) 32 = int (p div 32)" "c_mod (int p) 32 = int (p mod 32)"
    by (simp_all add: c_div_nonneg c_mod_nonneg zdiv_int zmod_int)
  have shift: "u64_shr v (int (p div 32)) = Some ?v" using p by (simp add: u64_shr_def)
  show ?thesis
  proof (cases "p mod 32 = 0")
    case True
    then show ?thesis using p dm shift that [of ?v] by (simp add: exact_decay_load_def unat_shr)
  next
    case False
    have "arr_get runnable_avg_yN_inv (int (p mod 32)) = Some ?y" using len by (simp del: zmod_int)
    moreover have "unat (mul_shr ?v (ucast ?y) 32) = unat v div 2 ^ (p div 32) * unat ?y div 2 ^ 32"
      using unat_mul_shr_small [of "ucast ?y" 32 ?v] by (simp add: unat_shr less_imp_le)
    ultimately show ?thesis
      using p dm shift False that [of "mul_shr ?v (ucast ?y) 32"]
      by (simp add: exact_decay_load_def exact_mul_shr del: of_nat_mod)
  qed
qed

lemma exact_calc_delta_fair_tick: "exact_calc_delta_fair TICK_NS w = Some (exact_vdelta w)"
  by (simp add: exact_calc_delta_fair_def exact_vdelta_def exact_mul_shr Let_def)

definition exact_policy :: policy where
  "exact_policy = \<lparr>pol_vdelta = \<lambda>_. exact_vdelta, pol_decay = \<lambda>_. exact_decay1,
                   pol_control = \<lambda>_ s _. s, pol_idle = True\<rparr>"

lemma exact_policy_simps [simp]:
  "pol_vdelta exact_policy s = exact_vdelta" "pol_decay exact_policy s = exact_decay1"
  "pol_control exact_policy c s j = s" "pol_idle exact_policy"
  by (simp_all add: exact_policy_def)

interpretation exact_up: task_updates exact_update_curr exact_update_load_avg exact_policy
proof unfold_locales
  fix rq :: cfs_rq and xs k
  assume v: "rq_view rq xs" and k: "k < length xs"
  note view = rq_view_tasks [OF v] rq_view_nr [OF v]
  show "exact_update_curr (Ref rq) (int k) =
      Some (Ref (rq\<lparr>tasks := Ref (run_at exact_policy (apaf_state rq) xs k)\<rparr>))"
    if "is_runnable (xs ! k)"
    using that k view by (simp add: exact_update_curr_def exact_calc_delta_fair_tick run_at_def
        run_task_def is_runnable_def)
  show "exact_update_load_avg (Ref rq) (int k) = Some (Ref (rq\<lparr>tasks :=
      Ref (xs[k := load_step (pol_decay exact_policy (apaf_state rq)) (xs ! k)])\<rparr>))"
    using k view by (simp add: exact_update_load_avg_def exact_decay_load_1 load_step_def
        is_runnable_def Let_def)
qed

lemma exact_tick_view:
  assumes v: "rq_view rq xs"
  shows "exact_tick (Ref rq) = Some (Ref (spec_tick exact_policy rq xs))"
proof -
  let ?r1 = "rq\<lparr>tick := tick rq + 1, clock := clock rq + TICK_NS\<rparr>"
  have v1: "rq_view ?r1 xs" using v by simp
  note pick = exact_pick_next_task_view [OF v1]
  show ?thesis
  proof (cases "next_task xs")
    case None
    show ?thesis using pick None exact_up.load_loop [OF v1]
        close_tick [OF rq_view_tasks_update [OF v1, of "map (load_step exact_decay1) xs"]]
      by (simp add: exact_tick_def spec_tick_def spec_tasks_def Let_def)
  next
    case (Some k)
    then have k: "k < length xs" "is_runnable (xs ! k)" by (simp_all add: next_task_Some is_next_def)
    let ?ys = "map (load_step exact_decay1) (run_at exact_policy (apaf_state rq) xs k)"
    show ?thesis using pick Some close_tick [OF rq_view_tasks_update [OF v1, of ?ys]]
      by (simp add: exact_up.update_all [OF v1 k] exact_tick_def spec_tick_def spec_tasks_def Let_def)
  qed
qed

section \<open>The numbers\<close>

lemma sched_weights_range: "w \<in> set sched_weights \<Longrightarrow> 15 \<le> unat w \<and> unat w \<le> 88761"
  by (auto simp: sched_weights_def nice_to_weight_def)

text \<open>The inverse weight fits 32 bits for every weight but 0 and 1.\<close>

lemma unat_inv_weight:
  assumes "2 \<le> unat (w :: u32)"
  shows "unat (ucast (WMULT_CONST div ucast w) :: u32) = 4294967296 div unat w"
proof -
  have "4294967296 div unat w \<le> 4294967296 div 2" by (rule div_le_mono2) (use assms in simp_all)
  then show ?thesis by (simp add: unat_ucast_u64_u32 unat_div)
qed

lemma unat_exact_vdelta:
  assumes "2 \<le> unat w"
  shows "unat (exact_vdelta w) = 1000000 * (4294967296 div unat w) div 4194304"
proof (cases "w = 1024")
  case True
  then show ?thesis by (simp add: exact_vdelta_def)
next
  case False
  have "4294967296 div unat w \<le> 4294967296 div 2" by (rule div_le_mono2) (use assms in simp_all)
  then have "1000000 * (4294967296 div unat w) div 4194304 < 18446744073709551616"
    by (intro order_le_less_trans [OF div_le_dividend]) simp
  moreover have "w \<noteq> 0" using assms by auto
  ultimately show ?thesis using False
    by (simp add: exact_vdelta_def unat_mul_shr unat_inv_weight [OF assms])
qed

lemma exact_vdelta_bounds:
  assumes "15 \<le> unat w" and "unat w \<le> 88761"
  shows "unat (exact_vdelta w) \<le> VDELTA_MAX" and "VDELTA_MIN \<le> unat (exact_vdelta w)"
proof -
  have le: "4294967296 div unat w \<le> 286331153"
    using div_le_mono2 [of 15 "unat w" 4294967296] assms(1) by simp
  have ge: "48388 \<le> 4294967296 div unat w"
    using div_le_mono2 [of "unat w" 88761 4294967296] assms by simp
  have "1000000 * (4294967296 div unat w) div 4194304 \<le> 1000000 * 286331153 div 4194304"
    using le by (intro div_le_mono mult_le_mono2)
  then show "unat (exact_vdelta w) \<le> VDELTA_MAX" using assms by (simp add: unat_exact_vdelta)
  have "1000000 * 48388 div 4194304 \<le> 1000000 * (4294967296 div unat w) div 4194304"
    using ge by (intro div_le_mono mult_le_mono2)
  then show "VDELTA_MIN \<le> unat (exact_vdelta w)" using assms by (simp add: unat_exact_vdelta)
qed

lemma unat_exact_decay1: "unat (exact_decay1 l) = unat l * 4202935002 div 4294967296"
  using unat_mul_shr_small [of "0xfa83b2da" 32 l] by (simp add: exact_decay1_def)

lemma exact_decay1_eval:
  "exact_decay1 (numeral k) = of_nat (unat (numeral k :: u64) * 4202935002 div 4294967296)"
  "exact_decay1 0 = 0"
  by (simp_all only: unat_exact_decay1 [symmetric] of_nat_unat) (simp_all add: exact_decay1_def mul_shr_def)

lemma exact_decay_room: "unat l \<le> 49 * m \<Longrightarrow> unat (exact_decay1 l) + m \<le> 49 * m"
  by (simp add: unat_exact_decay1)

interpretation exact: static_policy exact_tick exact_policy
proof unfold_locales
  fix w s assume "w \<in> set sched_weights"
  then have w: "15 \<le> unat w" "unat w \<le> 88761" using sched_weights_range by auto
  show "unat (pol_vdelta exact_policy s w) \<le> VDELTA_MAX" using exact_vdelta_bounds(1) [OF w] by simp
  show "VDELTA_MIN \<le> unat (pol_vdelta exact_policy s w)" using exact_vdelta_bounds(2) [OF w] by simp
qed (simp_all add: exact_tick_view exact_decay_room)

end
