(* ===== verification/Approx_BSA.thy ===== *)
theory Approx_BSA
  imports CFS_Exact
begin

text \<open>
  src/apex-cfs/src/approx_bsa.h and approx_bsa.c: the bit-shift approximation. Decay by
  \<open>load - (load >> 5)\<close> per period, the reciprocal of a weight by an affine start at the
  nearest power of two and Newton steps, and the tick built from them.
\<close>

abbreviation (input) BSA_DECAY_SHIFT :: nat where "BSA_DECAY_SHIFT \<equiv> 5"
abbreviation (input) BSA_NEWTON_ITERS :: int where "BSA_NEWTON_ITERS \<equiv> 1"

section \<open>Arithmetic\<close>

text \<open>
  The search loop doubles \<open>f\<close> while the double is neither wrapped to 0 nor above the
  weight. Doubling a 32-bit word reaches 0 after at most 32 steps, so it ends for every \<open>f\<close>.
\<close>

definition shift_room :: "u32 \<Rightarrow> nat" where
  "shift_room f = card {k. k < 32 \<and> push_bit k f \<noteq> 0}"

lemma shift_room_decreases:
  assumes "push_bit 1 f \<noteq> 0"
  shows "shift_room (push_bit 1 f) < shift_room f"
proof -
  let ?S = "\<lambda>f :: u32. {k. k < 32 \<and> push_bit k f \<noteq> 0}"
  have zero: "push_bit 32 f = 0"
    by (rule bit_word_eqI) (simp add: bit_push_bit_iff)
  have "Suc ` ?S (push_bit 1 f) \<subseteq> ?S f - {0}"
  proof
    fix k assume "k \<in> Suc ` ?S (push_bit 1 f)"
    then obtain j where j: "k = Suc j" "j < 32" "push_bit (Suc j) f \<noteq> 0"
      by (auto simp: push_bit_push_bit)
    then have "Suc j \<noteq> 32" using zero by metis
    with j show "k \<in> ?S f - {0}" by auto
  qed
  then have "card (Suc ` ?S (push_bit 1 f)) \<le> card (?S f - {0})" by (rule card_mono [rotated]) simp
  moreover have "f \<noteq> 0" using assms by auto
  then have "card (?S f - {0}) < card (?S f)" by (intro card_Diff1_less) auto
  ultimately show ?thesis unfolding shift_room_def by (simp add: card_image)
qed

function bsa_floor_loop :: "u32 \<Rightarrow> u32 \<Rightarrow> u32" where
  "bsa_floor_loop floor_pow2 w =
     (if push_bit 1 floor_pow2 \<noteq> 0 \<and> push_bit 1 floor_pow2 \<le> w
      then bsa_floor_loop (push_bit 1 floor_pow2) w
      else floor_pow2)"
  by pat_completeness auto
termination
  by (relation "measure (\<lambda>(f, w). shift_room f)") (use shift_room_decreases in auto)

declare bsa_floor_loop.simps [simp del]

definition bsa_nearest_pow2 :: "u32 \<Rightarrow> u32" where
  "bsa_nearest_pow2 w =
     (if w = 0 then 1
      else
        let floor_pow2 = bsa_floor_loop 1 w
        in if floor_pow2 = w then w
           else if push_bit 1 floor_pow2 = 0 then floor_pow2
           else
             let ceil_pow2 = push_bit 1 floor_pow2;
                 dist_floor = w - floor_pow2;
                 dist_ceil = ceil_pow2 - w
             in if dist_floor \<le> dist_ceil then floor_pow2 else ceil_pow2)"

text \<open>The Newton loop, \<open>n\<close> iterations left; it breaks when the correction would go negative.\<close>

fun bsa_newton_loop :: "nat \<Rightarrow> u32 \<Rightarrow> u64 \<Rightarrow> u64" where
  "bsa_newton_loop 0 w x = x"
| "bsa_newton_loop (Suc n) w x =
     (let wx = ucast (ucast w * ucast x :: u128) :: u64
      in if push_bit 32 2 \<le> wx then x
         else let two_minus_wx = push_bit 32 2 - wx
              in bsa_newton_loop n w (ucast (drop_bit 32 (ucast x * ucast two_minus_wx :: u128))))"

definition bsa_newton_reciprocal :: "u32 \<Rightarrow> int \<Rightarrow> u64" where
  "bsa_newton_reciprocal w iterations =
     (if w = 0 then WMULT_CONST
      else
        let p2 = bsa_nearest_pow2 w;
            x = WMULT_CONST div ucast p2;
            m_q32 = push_bit 32 (ucast w :: u64) div ucast p2;
            affine_q32 = push_bit 31 3 - drop_bit 1 m_q32;
            x1 = ucast (drop_bit 32 (ucast x * ucast affine_q32 :: u128))
        in bsa_newton_loop (nat iterations) w x1)"

definition bsa_decay_load :: "u64 \<Rightarrow> int \<Rightarrow> u64 option" where
  "bsa_decay_load load periods =
     (if periods = 0 then Some load
      else if PELT_MAX_PERIODS * LOAD_AVG_PERIOD \<le> periods then Some 0
      else do {
        let coarse = c_div periods LOAD_AVG_PERIOD;
        let local_n = c_mod periods LOAD_AVG_PERIOD;
        load1 \<leftarrow> u64_shr load coarse;
        for_loop 0 local_n (\<lambda>_ l. Some (l - drop_bit BSA_DECAY_SHIFT l)) load1
      })"

definition bsa_vruntime_delta :: "u64 \<Rightarrow> u32 \<Rightarrow> u64 option" where
  "bsa_vruntime_delta delta_exec w =
     (if w = NICE_0_LOAD then Some delta_exec
      else if w = 0 then Some 0
      else
        let inv_w = bsa_newton_reciprocal w BSA_NEWTON_ITERS
        in exact_mul_u64_u32_shr delta_exec (ucast inv_w) (WMULT_SHIFT - 10))"

section \<open>Updates of one task\<close>

definition bsa_update_curr :: "cfs_rq ptr \<Rightarrow> int \<Rightarrow> cfs_rq ptr option" where
  "bsa_update_curr p task_idx =
     (case p of NULL \<Rightarrow> Some p
      | Ref rq \<Rightarrow>
          (case tasks rq of NULL \<Rightarrow> Some p
           | Ref xs \<Rightarrow>
               if task_idx < 0 \<or> nr_tasks rq \<le> task_idx then Some p
               else do {
                 curr \<leftarrow> arr_get xs task_idx;
                 if runnable curr = 0 then Some p
                 else do {
                   let delta_exec = TICK_NS;
                   let curr1 = curr\<lparr>exec_runtime := exec_runtime curr + delta_exec\<rparr>;
                   d \<leftarrow> bsa_vruntime_delta delta_exec (ucast (weight curr1));
                   ys \<leftarrow> arr_set xs task_idx (curr1\<lparr>vruntime := vruntime curr1 + d\<rparr>);
                   Some (Ref (rq\<lparr>tasks := Ref ys\<rparr>))
                 }
               }))"

definition bsa_update_load_avg :: "cfs_rq ptr \<Rightarrow> int \<Rightarrow> cfs_rq ptr option" where
  "bsa_update_load_avg p task_idx =
     (case p of NULL \<Rightarrow> Some p
      | Ref rq \<Rightarrow>
          (case tasks rq of NULL \<Rightarrow> Some p
           | Ref xs \<Rightarrow>
               if task_idx < 0 \<or> nr_tasks rq \<le> task_idx then Some p
               else do {
                 t \<leftarrow> arr_get xs task_idx;
                 decayed \<leftarrow> bsa_decay_load (load_sum t) 1;
                 let t1 = t\<lparr>load_sum := decayed\<rparr>;
                 let t2 = (if runnable t1 = 1 then t1\<lparr>load_sum := load_sum t1 + weight t1\<rparr> else t1);
                 let t3 = t2\<lparr>load_avg := (weight t2 * load_sum t2) div LOAD_AVG_MAX\<rparr>;
                 let t4 = (if weight t3 < load_avg t3 then t3\<lparr>load_avg := weight t3\<rparr> else t3);
                 ys \<leftarrow> arr_set xs task_idx t4;
                 Some (Ref (rq\<lparr>tasks := Ref ys\<rparr>))
               }))"

definition bsa_pick_next_task :: "cfs_rq ptr \<Rightarrow> int option" where
  "bsa_pick_next_task p = exact_pick_next_task p"

section \<open>One tick\<close>

text \<open>Unlike the exact tick, this one returns early when no task is runnable.\<close>

definition bsa_tick :: "cfs_rq ptr \<Rightarrow> cfs_rq ptr option" where
  "bsa_tick p =
     (case p of NULL \<Rightarrow> Some p
      | Ref _ \<Rightarrow> do {
          let p = rq_tick p;
          nxt \<leftarrow> bsa_pick_next_task p;
          if nxt = - 1 then Some p
          else do {
            p \<leftarrow> bsa_update_curr p nxt;
            rq \<leftarrow> c_deref p;
            p \<leftarrow> for_loop 0 (nr_tasks rq) (\<lambda>i q. bsa_update_load_avg q i) p;
            j \<leftarrow> fairness_jain_index p;
            p \<leftarrow> c_write p (jain_index_update (\<lambda>_. j));
            (_, p) \<leftarrow> rq_count_running p;
            Some p
          }
        })"

section \<open>The nearest power of two\<close>

lemma unat_push1: "unat (push_bit 1 (f :: u32)) = 2 * unat f mod 4294967296"
  by (simp add: unat_word_ariths mult.commute)

lemma bsa_floor_loop_pow:
  assumes "unat f = 2 ^ k" and "k < 32" and "2 ^ k \<le> unat w"
  shows "\<exists>m < 32. unat (bsa_floor_loop f w) = 2 ^ m \<and> 2 ^ m \<le> unat w \<and> unat w < 2 ^ Suc m"
  using assms
proof (induction f w arbitrary: k rule: bsa_floor_loop.induct)
  case (1 f w)
  have dbl: "unat (push_bit 1 f) = 2 * 2 ^ k mod 4294967296" using 1 unat_push1 [of f] by simp
  show ?case
  proof (cases "k < 31 \<and> 2 ^ Suc k \<le> unat w")
    case True
    then have "(2::nat) ^ Suc k < 2 ^ 32" by (intro power_strict_increasing) auto
    then have d: "unat (push_bit 1 f) = 2 ^ Suc k" using dbl by simp
    then have "push_bit 1 f \<noteq> 0" "push_bit 1 f \<le> w"
      using True by (auto simp: word_le_nat_alt)
    with 1(1) [of "Suc k"] d True show ?thesis by (subst (1) bsa_floor_loop.simps) simp
  next
    case False
    have "\<not> (push_bit 1 f \<noteq> 0 \<and> push_bit 1 f \<le> w)"
    proof (cases "k < 31")
      case True
      then have "(2::nat) ^ Suc k < 2 ^ 32" by (intro power_strict_increasing) auto
      then have "unat (push_bit 1 f) = 2 ^ Suc k" using dbl by simp
      then show ?thesis using True False by (auto simp: word_le_nat_alt)
    next
      case f: False
      then have "k = 31" using 1 by simp
      then have "unat (push_bit 1 f) = 0" using dbl by simp
      then show ?thesis by (simp only: unat_eq_zero) simp
    qed
    then have "bsa_floor_loop f w = f" by (subst bsa_floor_loop.simps) (simp only: if_False)
    moreover have "unat w < 2 ^ Suc k"
    proof (cases "k < 31")
      case f: False
      then have "k = 31" using 1 by simp
      then show ?thesis by simp
    qed (use False in simp)
    ultimately show ?thesis using 1 by auto
  qed
qed

text \<open>
  The result is the power of two at or below the weight, or the one above when that is nearer;
  the one above \<open>2 ^ 31\<close> does not fit and is never chosen.
\<close>

lemma bsa_nearest_pow2_cases:
  assumes "w \<noteq> 0"
  obtains m where "m < 32" and "2 ^ m \<le> unat w" and "unat w < 2 ^ Suc m"
    and "unat (bsa_nearest_pow2 w) =
      (if m = 31 \<or> 2 * unat w \<le> 3 * 2 ^ m then 2 ^ m else 2 ^ Suc m)"
proof -
  have "1 \<le> unat w" using assms by (simp add: Suc_leI unat_gt_0)
  then obtain m where m: "m < 32" "unat (bsa_floor_loop 1 w) = 2 ^ m" "2 ^ m \<le> unat w" "unat w < 2 ^ Suc m"
    using bsa_floor_loop_pow [of 1 0 w] by auto
  let ?f = "bsa_floor_loop 1 w"
  have "unat (bsa_nearest_pow2 w) = (if m = 31 \<or> 2 * unat w \<le> 3 * 2 ^ m then 2 ^ m else 2 ^ Suc m)"
  proof (cases "?f = w")
    case True
    then show ?thesis using assms m(2) by (simp add: bsa_nearest_pow2_def)
  next
    case neq: False
    show ?thesis
    proof (cases "m = 31")
      case True
      then have "unat (push_bit 1 ?f) = 0" using m(2) unat_push1 [of ?f] by simp
      then have "push_bit 1 ?f = 0" by (simp only: unat_eq_zero)
      then show ?thesis using assms neq m(2) True by (simp add: bsa_nearest_pow2_def Let_def)
    next
      case False
      then have "(2::nat) ^ Suc m < 2 ^ 32" using m(1) by (intro power_strict_increasing) auto
      then have c: "unat (push_bit 1 ?f) = 2 ^ Suc m" using m(2) unat_push1 [of ?f] by simp
      then have nz: "push_bit 1 ?f \<noteq> 0" by (metis unat_0 power_not_zero zero_neq_numeral)
      have "w - ?f \<le> push_bit 1 ?f - w \<longleftrightarrow> 2 * unat w \<le> 3 * 2 ^ m"
        using m c by (simp only: word_le_nat_alt unat_sub) auto
      then show ?thesis using assms neq nz m(2) c False
        by (simp only: bsa_nearest_pow2_def Let_def if_False split: if_split) auto
    qed
  qed
  then show thesis using that [of m] m by simp
qed

lemma bsa_nearest_pow2_ratio:
  assumes "w \<noteq> 0"
  obtains e where "e < 32" and "unat (bsa_nearest_pow2 w) = 2 ^ e" and "3 * 2 ^ e \<le> 4 * unat w"
    and "unat w < 2 * 2 ^ e" and "unat w < 2 ^ 31 \<Longrightarrow> 2 * unat w \<le> 3 * 2 ^ e"
proof -
  obtain m where m: "m < 32" "2 ^ m \<le> unat w" "unat w < 2 ^ Suc m"
    "unat (bsa_nearest_pow2 w) = (if m = 31 \<or> 2 * unat w \<le> 3 * 2 ^ m then 2 ^ m else 2 ^ Suc m)"
    by (rule bsa_nearest_pow2_cases [OF assms])
  show thesis
  proof (cases "m = 31 \<or> 2 * unat w \<le> 3 * 2 ^ m")
    case True
    then show thesis using m by (intro that [of m]) auto
  next
    case False
    then show thesis using m by (intro that [of "Suc m"]) auto
  qed
qed

section \<open>Newton's iteration\<close>

text \<open>One step on natural numbers, with \<open>2 ^ 32\<close> as the unit.\<close>

definition newton_next :: "nat \<Rightarrow> nat \<Rightarrow> nat" where
  "newton_next w x = x * (8589934592 - w * x) div 4294967296"

lemma unat_newton_step:
  assumes "unat w * unat x < 8589934592" and "w \<noteq> 0"
  shows "\<exists>x'. bsa_newton_loop (Suc n) w x = bsa_newton_loop n w x'
    \<and> unat x' = newton_next (unat w) (unat x)"
proof -
  define wx :: u64 where "wx = ucast (ucast w * ucast x :: u128)"
  have wx: "unat wx = unat w * unat x"
    using assms by (simp add: wx_def unat_ucast_u128_u64 unat_wide_mult order_less_trans [OF unat_u32_lt])
  then have lt: "wx < push_bit 32 2" using assms by (simp add: word_less_nat_alt)
  then have sub: "unat (push_bit 32 2 - wx) = 8589934592 - unat w * unat x"
    using wx by (simp add: unat_sub order_less_imp_le)
  let ?x' = "ucast (drop_bit 32 (ucast x * ucast (push_bit 32 2 - wx) :: u128)) :: u64"
  have "1 \<le> unat w" using assms(2) by (simp add: Suc_leI unat_gt_0)
  then have "1 * unat x \<le> unat w * unat x" by (rule mult_le_mono1)
  then have "unat x < 8589934592" using assms(1) by linarith
  then have "unat x * (8589934592 - unat w * unat x) \<le> 8589934592 * 8589934592"
    by (intro mult_le_mono) simp_all
  then have "unat x * (8589934592 - unat w * unat x) div 4294967296 < 18446744073709551616"
    using div_le_mono [of _ "8589934592 * 8589934592" 4294967296] by fastforce
  then have "unat ?x' = newton_next (unat w) (unat x)"
    using sub by (simp add: unat_ucast_u128_u64 unat_shr unat_wide_mult newton_next_def)
  moreover have "bsa_newton_loop (Suc n) w x = bsa_newton_loop n w ?x'"
    using lt [folded not_le] by (simp only: bsa_newton_loop.simps Let_def wx_def [symmetric] if_False)
  ultimately show ?thesis by blast
qed

lemma nat_mult_div_le: "a * (b div c) \<le> a * b div (c :: nat)"
  by (cases "c = 0") (simp_all add: less_eq_div_iff_mult_less_eq mult.assoc)

text \<open>A step never overestimates the reciprocal, and squares the error.\<close>

lemma newton_next_upper:
  assumes "w * x \<le> 8589934592"
  shows "w * newton_next w x \<le> 4294967296"
proof -
  have "int (w * x) * (8589934592 - int (w * x)) \<le> 4294967296 * 4294967296"
    using zero_le_square [of "int (w * x) - 4294967296"] by (simp add: algebra_simps)
  then have "(w * x) * (8589934592 - w * x) \<le> 4294967296 * 4294967296"
    using assms by (simp only: of_nat_le_iff [where 'a = int, symmetric] of_nat_mult of_nat_diff) simp
  then have "w * (x * (8589934592 - w * x)) div 4294967296 \<le> 4294967296"
    using div_le_mono [of _ "4294967296 * 4294967296" 4294967296] by (fastforce simp: mult.assoc)
  moreover have "w * newton_next w x \<le> w * (x * (8589934592 - w * x)) div 4294967296"
    unfolding newton_next_def by (rule nat_mult_div_le)
  ultimately show ?thesis by simp
qed

lemma newton_next_lower:
  assumes "w * x \<le> 4294967296 + d" and "4294967296 \<le> w * x + d" and "d \<le> 4294967296"
  shows "4294967296 * 4294967296 \<le> 4294967296 * (w * newton_next w x + w) + d * d"
proof -
  let ?a = "x * (8589934592 - w * x)"
  have "int (w * x) \<le> 4294967296 + int d" "4294967296 \<le> int (w * x) + int d"
    using assms(1,2) by linarith+
  then have "(int (w * x) - 4294967296) * (int (w * x) - 4294967296) \<le> int d * int d"
    by (simp del: of_nat_mult add: abs_le_square_iff [symmetric] power2_eq_square [symmetric] abs_le_iff)
  then have "4294967296 * 4294967296 \<le> int (w * x) * (8589934592 - int (w * x)) + int d * int d"
    by (simp add: algebra_simps)
  then have "4294967296 * 4294967296 \<le> (w * x) * (8589934592 - w * x) + d * d"
    using assms by (simp only: of_nat_le_iff [where 'a = int, symmetric] of_nat_mult of_nat_diff of_nat_add) simp
  moreover have "w * ?a \<le> w * (4294967296 * (?a div 4294967296 + 1))"
    by (intro mult_le_mono2) (use div_mult_mod_eq [of ?a 4294967296] in simp)
  ultimately show ?thesis by (simp add: newton_next_def algebra_simps)
qed

text \<open>The affine start is within \<open>5/32\<close> of the reciprocal.\<close>

definition affine_start :: "nat \<Rightarrow> nat \<Rightarrow> nat" where
  "affine_start e w = (6442450944 - w * 2 ^ (31 - e)) div 2 ^ e"

lemma affine_start_bounds:
  assumes "e < 32" and "3 * 2 ^ e \<le> 4 * w" and "w < 2 * 2 ^ e"
  shows "w * affine_start e w \<le> 4831838208" and "3623878656 \<le> w * affine_start e w + w"
proof -
  define q :: int where "q = 2 ^ e"
  define r :: int where "r = 2 ^ (31 - e)"
  have qr: "q * r = 2147483648"
    using assms(1) by (simp add: q_def r_def power_add [symmetric])
  have q: "0 < q" and r: "0 < r" by (simp_all add: q_def r_def)
  have w: "3 * q \<le> 4 * int w" "int w < 2 * q"
    using assms(2,3) by (simp_all add: q_def flip: of_nat_le_iff [where 'a = int] of_nat_less_iff [where 'a = int])
  have "int w * r \<le> 2 * q * r" using w(2) r by (intro mult_right_mono) auto
  then have wr: "int w * r \<le> 4294967296" using qr by simp
  have iw: "int (w * 2 ^ (31 - e)) = int w * r" by (simp add: r_def)
  then have "w * 2 ^ (31 - e) \<le> 6442450944" using wr by linarith
  then have sub: "int (6442450944 - w * 2 ^ (31 - e)) = 3 * (q * r) - int w * r"
    using qr iw by (simp add: of_nat_diff del: of_nat_mult)
  let ?a = "3 * (q * r) - int w * r"
  have st: "int (affine_start e w) = ?a div q"
    by (simp only: affine_start_def zdiv_int sub) (simp add: q_def)
  have "0 \<le> r * ((2 * int w - 3 * q) * (2 * int w - 3 * q))" using r by simp
  then have up: "4 * (int w * ?a) \<le> 9 * (q * r) * q" by (simp add: algebra_simps)
  have "0 \<le> r * ((4 * int w - 3 * q) * (9 * q - 4 * int w))" using r w q by simp
  then have lo: "27 * (q * r) * q \<le> 16 * (int w * ?a)" by (simp add: algebra_simps)
  have "?a div q * q \<le> ?a"
    using div_mult_mod_eq [of ?a q] pos_mod_sign [OF q, of ?a] by linarith
  then have "int w * (?a div q) * q \<le> int w * ?a"
    unfolding mult.assoc by (rule mult_left_mono) simp
  then have "4 * (int w * (?a div q)) * q \<le> 9 * (q * r) * q" using up by (simp add: algebra_simps)
  then have "4 * (int w * (?a div q)) \<le> 9 * (q * r)" by (rule mult_right_le_imp_le [OF _ q])
  then have "4 * (int w * int (affine_start e w)) \<le> 9 * 2147483648" unfolding st qr .
  then have "int (w * affine_start e w) \<le> 4831838208" by simp
  then show "w * affine_start e w \<le> 4831838208" by linarith
  have "?a \<le> (?a div q + 1) * q"
    unfolding distrib_right mult_1 using pos_mod_bound [OF q, of ?a] div_mult_mod_eq [of ?a q] by linarith
  then have "int w * ?a \<le> int w * ((?a div q + 1) * q)" by (intro mult_left_mono) auto
  then have "27 * (q * r) * q \<le> 16 * (int w * (?a div q) + int w) * q"
    using lo by (simp add: algebra_simps)
  then have "27 * (q * r) \<le> 16 * (int w * (?a div q) + int w)" by (rule mult_right_le_imp_le [OF _ q])
  then have "27 * 2147483648 \<le> 16 * (int w * int (affine_start e w) + int w)" unfolding st qr .
  then have "3623878656 \<le> int (w * affine_start e w + w)" by simp
  then show "3623878656 \<le> w * affine_start e w + w" by linarith
qed

lemma unat_newton_start:
  assumes "e < 32" and "unat (bsa_nearest_pow2 w) = 2 ^ e" and "3 * 2 ^ e \<le> 4 * unat w"
    and "unat w < 2 * 2 ^ e" and "w \<noteq> 0"
  shows "\<exists>x. bsa_newton_reciprocal w n = bsa_newton_loop (nat n) w x \<and> unat x = affine_start e (unat w)"
proof -
  let ?p = "ucast (bsa_nearest_pow2 w) :: u64"
  have p: "unat ?p = 2 ^ e" using assms(2) by simp
  have split: "(4294967296::nat) = 2 ^ (32 - e) * 2 ^ e" "(2::nat) ^ (32 - e) = 2 * 2 ^ (31 - e)"
    using assms(1) by (simp_all add: power_add [symmetric] power_Suc [symmetric] Suc_diff_Suc del: power_Suc)
  have x: "unat (WMULT_CONST div ?p) = 2 ^ (32 - e)"
    by (simp add: unat_div assms(2)) (simp only: split(1), simp)
  have "unat w * 4294967296 < 4294967296 * 4294967296" by (rule mult_strict_right_mono) simp_all
  then have sh: "unat (push_bit 32 (ucast w :: u64)) = unat w * 4294967296"
    using unat_u64_mult_small [of "ucast w" 4294967296] by (simp add: push_bit_eq_mult)
  have m: "unat (push_bit 32 (ucast w :: u64) div ?p) = unat w * 2 ^ (32 - e)"
    by (simp only: unat_div sh p split(1)) (simp add: mult.assoc [symmetric])
  have le: "unat w * 2 ^ (31 - e) \<le> 4294967296"
  proof -
    have "unat w * 2 ^ (31 - e) \<le> 2 * 2 ^ e * 2 ^ (31 - e)"
      using assms(4) by (intro mult_le_mono1) simp
    also have "\<dots> = 2 ^ 32" using assms(1) by (simp add: power_add [symmetric] power_Suc [symmetric] del: power_Suc)
    finally show ?thesis by simp
  qed
  have half: "unat (drop_bit 1 (push_bit 32 (ucast w :: u64) div ?p)) = unat w * 2 ^ (31 - e)"
    by (simp only: unat_shr m split(2)) simp
  let ?a = "push_bit 31 3 - drop_bit 1 (push_bit 32 (ucast w :: u64) div ?p)"
  have a: "unat ?a = 6442450944 - unat w * 2 ^ (31 - e)"
    using half le by (subst unat_sub) (simp_all only: word_le_nat_alt, simp_all)
  let ?x = "ucast (drop_bit 32 (ucast (WMULT_CONST div ?p) * ucast ?a :: u128)) :: u64"
  have "2 ^ (32 - e) * unat ?a div (2 ^ (32 - e) * 2 ^ e) = unat ?a div 2 ^ e"
    by (rule div_mult_mult1) simp
  then have q: "2 ^ (32 - e) * unat ?a div 4294967296 = affine_start e (unat w)"
    unfolding affine_start_def a split(1) [symmetric] .
  have small: "affine_start e (unat w) < 18446744073709551616"
    unfolding affine_start_def by (rule order_le_less_trans [OF div_le_dividend]) simp
  have "unat ?x = affine_start e (unat w)"
    using unat_mul_shr [of "WMULT_CONST div ?p" ?a 32, unfolded mul_shr_def x] q small by simp
  then show ?thesis using assms(5)
    by (intro exI [of _ ?x]) (simp only: bsa_newton_reciprocal_def Let_def if_False)
qed

section \<open>The reciprocal\<close>

lemma bsa_newton_loop_upper:
  assumes "w \<noteq> 0" and "unat w * unat x \<le> 4294967296"
  shows "unat w * unat (bsa_newton_loop n w x) \<le> 4294967296"
  using assms(2)
proof (induction n arbitrary: x)
  case (Suc n)
  then obtain x' where "bsa_newton_loop (Suc n) w x = bsa_newton_loop n w x'"
    "unat x' = newton_next (unat w) (unat x)" using unat_newton_step [OF _ assms(1), of x n] by auto
  then show ?case using Suc newton_next_upper [of "unat w" "unat x"] by simp
qed simp

lemma bsa_newton_loop_lower:
  assumes "w \<noteq> 0" and "unat w \<le> 1048576"
    and "unat w * unat x \<le> 4294967296" and "4188000000 \<le> unat w * unat x"
  shows "4188000000 \<le> unat w * unat (bsa_newton_loop n w x)"
  using assms(3,4)
proof (induction n arbitrary: x)
  case (Suc n)
  then obtain x' where x': "bsa_newton_loop (Suc n) w x = bsa_newton_loop n w x'"
    "unat x' = newton_next (unat w) (unat x)" using unat_newton_step [OF _ assms(1), of x n] by auto
  have "4188000000 \<le> unat w * unat x'"
    using Suc.prems newton_next_lower [of "unat w" "unat x" 106967296] assms(2) x'(2) by simp
  moreover have "unat w * unat x' \<le> 4294967296"
    using Suc.prems newton_next_upper [of "unat w" "unat x"] x'(2) by simp
  ultimately show ?case using Suc.IH [of x'] x'(1) by simp
qed simp

text \<open>After the first step the reciprocal is never too large, and at most 2.5 percent too small.\<close>

lemma bsa_newton_first:
  assumes "w \<noteq> 0" and "1 \<le> n"
  obtains x where "bsa_newton_reciprocal w n = bsa_newton_loop (nat n - 1) w x"
    and "unat w * unat x \<le> 4294967296"
    and "unat w \<le> 1048576 \<Longrightarrow> 4188000000 \<le> unat w * unat x"
proof -
  obtain e where e: "e < 32" "unat (bsa_nearest_pow2 w) = 2 ^ e" "3 * 2 ^ e \<le> 4 * unat w" "unat w < 2 * 2 ^ e"
    by (rule bsa_nearest_pow2_ratio [OF assms(1)])
  obtain x0 where x0: "bsa_newton_reciprocal w n = bsa_newton_loop (nat n) w x0"
    "unat x0 = affine_start e (unat w)" using unat_newton_start [OF e assms(1)] by blast
  have st: "unat w * unat x0 \<le> 4831838208" "3623878656 \<le> unat w * unat x0 + unat w"
    unfolding x0(2) by (rule affine_start_bounds [OF e(1,3,4)])+
  have n: "nat n = Suc (nat n - 1)" using assms(2) by simp
  obtain x where x: "bsa_newton_loop (nat n) w x0 = bsa_newton_loop (nat n - 1) w x"
    "unat x = newton_next (unat w) (unat x0)"
    using unat_newton_step [of w x0 "nat n - 1"] st(1) assms(1) n by auto
  show thesis
  proof (rule that)
    show "bsa_newton_reciprocal w n = bsa_newton_loop (nat n - 1) w x" using x0(1) x(1) by simp
    show "unat w * unat x \<le> 4294967296"
      using newton_next_upper [of "unat w" "unat x0"] st(1) x(2) by simp
    show "4188000000 \<le> unat w * unat x" if "unat w \<le> 1048576"
      using newton_next_lower [of "unat w" "unat x0" 672137216] st that x(2) by simp
  qed
qed

lemma newton_loop_2: "bsa_newton_loop 2 w x = bsa_newton_loop (Suc (Suc 0)) w x"
  by (simp add: numeral_2_eq_2)

lemma bsa_newton_reciprocal_upper:
  assumes "w \<noteq> 0" and "1 \<le> n"
  shows "unat w * unat (bsa_newton_reciprocal w n) \<le> 4294967296"
proof -
  obtain x where "bsa_newton_reciprocal w n = bsa_newton_loop (nat n - 1) w x" "unat w * unat x \<le> 4294967296"
    by (rule bsa_newton_first [OF assms])
  then show ?thesis using bsa_newton_loop_upper [OF assms(1)] by simp
qed

lemma bsa_newton_reciprocal_lower:
  assumes "w \<noteq> 0" and "1 \<le> n" and "unat w \<le> 1048576"
  shows "4188000000 \<le> unat w * unat (bsa_newton_reciprocal w n)"
proof -
  obtain x where "bsa_newton_reciprocal w n = bsa_newton_loop (nat n - 1) w x" "unat w * unat x \<le> 4294967296"
    "4188000000 \<le> unat w * unat x" by (rule bsa_newton_first [OF assms(1,2)]) (use assms(3) in blast)
  then show ?thesis using bsa_newton_loop_lower [OF assms(1,3)] by simp
qed

text \<open>On a power of two the reciprocal is exact, whatever the number of steps.\<close>

lemma bsa_newton_loop_exact:
  assumes "w \<noteq> 0" and "unat w * unat x = 4294967296"
  shows "bsa_newton_loop n w x = x"
proof (induction n)
  case (Suc n)
  obtain x' where x': "bsa_newton_loop (Suc n) w x = bsa_newton_loop n w x'"
    "unat x' = newton_next (unat w) (unat x)" using unat_newton_step [OF _ assms(1), of x n] assms(2) by auto
  then have "x' = x" using assms(2) by (simp add: newton_next_def word_unat_eq_iff)
  then show ?case using x'(1) Suc.IH by simp
qed simp

lemma bsa_newton_reciprocal_pow2:
  assumes "unat w = 2 ^ e" and "e < 32"
  shows "unat (bsa_newton_reciprocal w n) = 2 ^ (32 - e)"
proof -
  have w: "w \<noteq> 0" using assms(1) by (metis unat_0 power_not_zero zero_neq_numeral)
  obtain d where d: "d < 32" "unat (bsa_nearest_pow2 w) = 2 ^ d" "3 * 2 ^ d \<le> 4 * unat w" "unat w < 2 * 2 ^ d"
    by (rule bsa_nearest_pow2_ratio [OF w])
  have "(2::nat) ^ e < 2 ^ Suc d" using d(4) assms(1) by simp
  then have "e < Suc d" by (simp only: power_strict_increasing_iff)
  moreover have "(2::nat) ^ d < 2 ^ Suc e" 
    unfolding power_Suc using d(3) assms(1) zero_less_power [of "2::nat" e, OF pos2] by linarith
  then have "d < Suc e" by (simp only: power_strict_increasing_iff)
  ultimately have de: "d = e" by simp
  obtain x where x: "bsa_newton_reciprocal w n = bsa_newton_loop (nat n) w x" "unat x = affine_start e (unat w)"
    using unat_newton_start [OF d w] de by blast
  have p: "(2::nat) ^ e * 2 ^ (31 - e) = 2147483648" "(4294967296::nat) = 2 ^ e * 2 ^ (32 - e)"
    using assms(2) by (simp_all add: power_add [symmetric])
  have "unat x = 2 ^ (32 - e)"
    unfolding x(2) affine_start_def assms(1) p(1) by (simp, simp only: p(2)) simp
  moreover from this have "bsa_newton_loop (nat n) w x = x"
    using w assms(1) p(2) by (intro bsa_newton_loop_exact) simp_all
  ultimately show ?thesis using x(1) by simp
qed

section \<open>The vruntime of a tick\<close>

text \<open>One tick scaled by the reciprocal after \<open>n\<close> Newton steps; the other policies use it too.\<close>

definition newton_vdelta :: "int \<Rightarrow> u32 \<Rightarrow> u64" where
  "newton_vdelta n w = (if w = NICE_0_LOAD then TICK_NS else if w = 0 then 0
     else mul_shr TICK_NS (ucast (ucast (bsa_newton_reciprocal w n) :: u32)) 22)"

lemma bsa_vruntime_delta_tick: "bsa_vruntime_delta TICK_NS w = Some (newton_vdelta BSA_NEWTON_ITERS w)"
  by (simp add: bsa_vruntime_delta_def newton_vdelta_def exact_mul_shr Let_def)

lemma bsa_newton_reciprocal_fits:
  assumes "2 \<le> unat w" and "1 \<le> n"
  shows "unat (bsa_newton_reciprocal w n) \<le> 2147483648"
proof -
  have "w \<noteq> 0" using assms(1) by auto
  then have "unat w * unat (bsa_newton_reciprocal w n) \<le> 4294967296"
    by (rule bsa_newton_reciprocal_upper [OF _ assms(2)])
  moreover have "2 * unat (bsa_newton_reciprocal w n) \<le> unat w * unat (bsa_newton_reciprocal w n)"
    using assms(1) by (rule mult_le_mono1)
  ultimately show ?thesis by linarith
qed

lemma unat_newton_scaled:
  assumes "2 \<le> unat w" and "1 \<le> n"
  shows "unat (mul_shr d (ucast (ucast (bsa_newton_reciprocal w n) :: u32)) 22)
    = (unat d * unat (bsa_newton_reciprocal w n) div 4194304) mod 18446744073709551616"
  using bsa_newton_reciprocal_fits [OF assms] by (simp add: unat_mul_shr unat_ucast_u64_u32)

lemma unat_newton_vdelta:
  assumes "2 \<le> unat w" and "1 \<le> n" and "w \<noteq> 1024"
  shows "unat (newton_vdelta n w) = 1000000 * unat (bsa_newton_reciprocal w n) div 4194304"
proof -
  have w: "w \<noteq> 0" using assms(1) by auto
  have "1000000 * unat (bsa_newton_reciprocal w n) div 4194304 \<le> 1000000 * 2147483648 div 4194304"
    using bsa_newton_reciprocal_fits [OF assms(1,2)] by (intro div_le_mono mult_le_mono2)
  then show ?thesis
    using w assms(3) unat_newton_scaled [OF assms(1,2), of TICK_NS] by (simp add: newton_vdelta_def)
qed

lemma newton_vdelta_le_exact:
  assumes "2 \<le> unat w" and "1 \<le> n"
  shows "unat (newton_vdelta n w) \<le> unat (exact_vdelta w)"
proof (cases "w = 1024")
  case False
  have w: "w \<noteq> 0" using assms(1) by auto
  have "unat (bsa_newton_reciprocal w n) * unat w \<le> 4294967296"
    using bsa_newton_reciprocal_upper [OF w assms(2)] by (simp add: mult.commute)
  then have "unat (bsa_newton_reciprocal w n) \<le> 4294967296 div unat w"
    using assms(1) by (simp add: less_eq_div_iff_mult_less_eq)
  then have "1000000 * unat (bsa_newton_reciprocal w n) div 4194304
      \<le> 1000000 * (4294967296 div unat w) div 4194304" by (intro div_le_mono mult_le_mono2)
  then show ?thesis by (simp add: unat_newton_vdelta [OF assms False] unat_exact_vdelta [OF assms(1)])
qed (simp add: newton_vdelta_def exact_vdelta_def)

lemma newton_vdelta_bounds:
  assumes "15 \<le> unat w" and "unat w \<le> 88761" and "1 \<le> n"
  shows "unat (newton_vdelta n w) \<le> VDELTA_MAX" and "VDELTA_MIN \<le> unat (newton_vdelta n w)"
proof -
  have "unat (newton_vdelta n w) \<le> unat (exact_vdelta w)"
    by (rule newton_vdelta_le_exact) (use assms in simp_all)
  then show "unat (newton_vdelta n w) \<le> VDELTA_MAX" using exact_vdelta_bounds(1) [OF assms(1,2)] by simp
  show "VDELTA_MIN \<le> unat (newton_vdelta n w)"
  proof (cases "w = 1024")
    case False
    have "w \<noteq> 0" using assms(1) by auto
    then have "4188000000 \<le> unat w * unat (bsa_newton_reciprocal w n)"
      by (rule bsa_newton_reciprocal_lower) (use assms in simp_all)
    also have "\<dots> \<le> 88761 * unat (bsa_newton_reciprocal w n)" using assms(2) by (rule mult_le_mono1)
    finally have "47182 \<le> unat (bsa_newton_reciprocal w n)" by simp
    then have "1000000 * 47182 div 4194304 \<le> 1000000 * unat (bsa_newton_reciprocal w n) div 4194304"
      by (intro div_le_mono mult_le_mono2)
    then show ?thesis using assms False by (simp add: unat_newton_vdelta)
  qed (simp add: newton_vdelta_def)
qed

section \<open>The decay of one period\<close>

definition bsa_decay1 :: "u64 \<Rightarrow> u64" where
  "bsa_decay1 load = load - drop_bit BSA_DECAY_SHIFT load"

lemma bsa_decay_load_1: "bsa_decay_load load 1 = Some (bsa_decay1 load)"
  by (simp add: bsa_decay_load_def c_div_nonneg c_mod_nonneg for_loop_step bsa_decay1_def)

lemma unat_bsa_decay1: "unat (bsa_decay1 l) = unat l - unat l div 32"
proof -
  have "drop_bit 5 l \<le> l" by (simp add: word_le_nat_alt unat_shr)
  then show ?thesis by (simp add: bsa_decay1_def unat_sub unat_shr)
qed

lemma bsa_decay_room: "unat l \<le> 49 * m \<Longrightarrow> unat (bsa_decay1 l) + m \<le> 49 * m"
  by (simp add: unat_bsa_decay1)

section \<open>The policy\<close>

definition bsa_policy :: policy where
  "bsa_policy = \<lparr>pol_vdelta = \<lambda>_. newton_vdelta BSA_NEWTON_ITERS, pol_decay = \<lambda>_. bsa_decay1,
                 pol_control = \<lambda>_ s _. s, pol_idle = False\<rparr>"

lemma bsa_policy_simps [simp]:
  "pol_vdelta bsa_policy s = newton_vdelta BSA_NEWTON_ITERS" "pol_decay bsa_policy s = bsa_decay1"
  "pol_control bsa_policy c s j = s" "\<not> pol_idle bsa_policy"
  by (simp_all add: bsa_policy_def)

interpretation bsa_up: task_updates bsa_update_curr bsa_update_load_avg bsa_policy
proof unfold_locales
  fix rq :: cfs_rq and xs k
  assume v: "rq_view rq xs" and k: "k < length xs"
  note view = rq_view_tasks [OF v] rq_view_nr [OF v]
  show "bsa_update_curr (Ref rq) (int k) =
      Some (Ref (rq\<lparr>tasks := Ref (run_at bsa_policy (apaf_state rq) xs k)\<rparr>))"
    if "is_runnable (xs ! k)"
    using that k view by (simp add: bsa_update_curr_def bsa_vruntime_delta_tick run_at_def
        run_task_def is_runnable_def)
  show "bsa_update_load_avg (Ref rq) (int k) = Some (Ref (rq\<lparr>tasks :=
      Ref (xs[k := load_step (pol_decay bsa_policy (apaf_state rq)) (xs ! k)])\<rparr>))"
    using k view by (simp add: bsa_update_load_avg_def bsa_decay_load_1 load_step_def
        is_runnable_def Let_def)
qed

lemma bsa_tick_view:
  assumes v: "rq_view rq xs"
  shows "bsa_tick (Ref rq) = Some (Ref (spec_tick bsa_policy rq xs))"
proof -
  let ?r1 = "rq\<lparr>tick := tick rq + 1, clock := clock rq + TICK_NS\<rparr>"
  have v1: "rq_view ?r1 xs" using v by simp
  note pick = exact_pick_next_task_view [OF v1]
  show ?thesis
  proof (cases "next_task xs")
    case None
    then show ?thesis using pick
      by (simp add: bsa_tick_def bsa_pick_next_task_def spec_tick_def Let_def)
  next
    case (Some k)
    then have k: "k < length xs" "is_runnable (xs ! k)" by (simp_all add: next_task_Some is_next_def)
    let ?ys = "map (load_step bsa_decay1) (run_at bsa_policy (apaf_state rq) xs k)"
    show ?thesis using pick Some close_tick [OF rq_view_tasks_update [OF v1, of ?ys]]
      by (simp add: bsa_up.update_all [OF v1 k] bsa_tick_def bsa_pick_next_task_def spec_tick_def
          spec_tasks_def Let_def)
  qed
qed

interpretation bsa: static_policy bsa_tick bsa_policy
proof unfold_locales
  fix w s assume "w \<in> set sched_weights"
  then have w: "15 \<le> unat w" "unat w \<le> 88761" using sched_weights_range by auto
  show "unat (pol_vdelta bsa_policy s w) \<le> VDELTA_MAX" using newton_vdelta_bounds(1) [OF w] by simp
  show "VDELTA_MIN \<le> unat (pol_vdelta bsa_policy s w)" using newton_vdelta_bounds(2) [OF w] by simp
qed (simp_all add: bsa_tick_view bsa_decay_room)

end
