(* ===== verification/Approx_CLTI.thy ===== *)
theory Approx_CLTI
  imports Approx_BSA
begin

text \<open>
  src/apex-cfs/src/approx_clti.h and approx_clti.c: the coarse-table approximation. Decay by
  an 8-entry Q0.15 table with linear interpolation, vruntime scaling by the reciprocal of the
  representative of the nearest of 8 weight classes, and the tick built from them.
\<close>

abbreviation (input) CLTI_TABLE_SIZE :: int where "CLTI_TABLE_SIZE \<equiv> 8"
abbreviation (input) CLTI_TABLE_STEP :: int where "CLTI_TABLE_STEP \<equiv> 4"
abbreviation (input) CLTI_SHIFT :: int where "CLTI_SHIFT \<equiv> 15"

definition clti_decay_table :: "u32 list" where
  "clti_decay_table = [32768, 30048, 27554, 25268, 23170, 21247, 19484, 17867]"

definition clti_weight_class :: "u32 list" where
  "clti_weight_class = [65536, 16384, 4096, 2048, 1024, 256, 64, 16]"

section \<open>Arithmetic\<close>

definition clti_class_diff :: "u32 \<Rightarrow> u32 \<Rightarrow> u64" where
  "clti_class_diff w c = (if c < w then ucast (w - c) else ucast (c - w))"

definition clti_weight_to_class :: "u32 \<Rightarrow> int option" where
  "clti_weight_to_class w =
     (if w = 1024 then Some 4
      else do {
        c0 \<leftarrow> arr_get clti_weight_class 0;
        (best, _) \<leftarrow>
          for_loop 1 CLTI_TABLE_SIZE
            (\<lambda>i (best, best_diff). do {
               c \<leftarrow> arr_get clti_weight_class i;
               let diff = clti_class_diff w c;
               Some (if diff < best_diff then (i, diff) else (best, best_diff))
             }) (0, clti_class_diff w c0);
        Some best
      })"

definition clti_decay_interpolate :: "u64 \<Rightarrow> int \<Rightarrow> u64 option" where
  "clti_decay_interpolate load local_n =
     (if local_n = 0 then Some load
      else
        let idx = c_div local_n CLTI_TABLE_STEP;
            rem = c_mod local_n CLTI_TABLE_STEP
        in if CLTI_TABLE_SIZE \<le> idx then Some 0
           else do {
             y \<leftarrow> arr_get clti_decay_table idx;
             base \<leftarrow> exact_mul_u64_u32_shr load y CLTI_SHIFT;
             if 0 < rem then
               (if idx + 1 < CLTI_TABLE_SIZE then do {
                  z \<leftarrow> arr_get clti_decay_table (idx + 1);
                  nxt \<leftarrow> exact_mul_u64_u32_shr load z CLTI_SHIFT;
                  let diff = (if nxt \<le> base then base - nxt else 0);
                  let correction = (diff * word_of_int rem) div 4;
                  Some (if correction \<le> base then base - correction else 0)
                } else Some (drop_bit 1 base))
             else Some base
           })"

definition clti_decay_load :: "u64 \<Rightarrow> int \<Rightarrow> u64 option" where
  "clti_decay_load load periods =
     (if periods = 0 then Some load
      else if PELT_MAX_PERIODS * LOAD_AVG_PERIOD \<le> periods then Some 0
      else do {
        let coarse = c_div periods LOAD_AVG_PERIOD;
        load1 \<leftarrow> u64_shr load coarse;
        let local_n = c_mod periods LOAD_AVG_PERIOD;
        clti_decay_interpolate load1 local_n
      })"

definition clti_vruntime_delta :: "u64 \<Rightarrow> u32 \<Rightarrow> u64 option" where
  "clti_vruntime_delta delta_exec w =
     (if w = NICE_0_LOAD then Some delta_exec
      else if w = 0 then Some 0
      else do {
        cls \<leftarrow> clti_weight_to_class w;
        w_rep \<leftarrow> arr_get clti_weight_class cls;
        let inv_w = bsa_newton_reciprocal w_rep 1;
        exact_mul_u64_u32_shr delta_exec (ucast inv_w) (WMULT_SHIFT - 10)
      })"

section \<open>Updates of one task\<close>

definition clti_update_curr :: "cfs_rq ptr \<Rightarrow> int \<Rightarrow> cfs_rq ptr option" where
  "clti_update_curr p task_idx =
     (case p of NULL \<Rightarrow> Some p
      | Ref rq \<Rightarrow>
          (case tasks rq of NULL \<Rightarrow> Some p
           | Ref xs \<Rightarrow>
               if task_idx < 0 \<or> nr_tasks rq \<le> task_idx then Some p
               else do {
                 curr \<leftarrow> arr_get xs task_idx;
                 if runnable curr = 0 then Some p
                 else do {
                   let delta_exec = TICK_NS;
                   let curr1 = curr\<lparr>exec_runtime := exec_runtime curr + delta_exec\<rparr>;
                   d \<leftarrow> clti_vruntime_delta delta_exec (ucast (weight curr1));
                   ys \<leftarrow> arr_set xs task_idx (curr1\<lparr>vruntime := vruntime curr1 + d\<rparr>);
                   Some (Ref (rq\<lparr>tasks := Ref ys\<rparr>))
                 }
               }))"

definition clti_update_load_avg :: "cfs_rq ptr \<Rightarrow> int \<Rightarrow> cfs_rq ptr option" where
  "clti_update_load_avg p task_idx =
     (case p of NULL \<Rightarrow> Some p
      | Ref rq \<Rightarrow>
          (case tasks rq of NULL \<Rightarrow> Some p
           | Ref xs \<Rightarrow>
               if task_idx < 0 \<or> nr_tasks rq \<le> task_idx then Some p
               else do {
                 t \<leftarrow> arr_get xs task_idx;
                 decayed \<leftarrow> clti_decay_load (load_sum t) 1;
                 let t1 = t\<lparr>load_sum := decayed\<rparr>;
                 let t2 = (if runnable t1 = 1 then t1\<lparr>load_sum := load_sum t1 + weight t1\<rparr> else t1);
                 let t3 = t2\<lparr>load_avg := (weight t2 * load_sum t2) div LOAD_AVG_MAX\<rparr>;
                 let t4 = (if weight t3 < load_avg t3 then t3\<lparr>load_avg := weight t3\<rparr> else t3);
                 ys \<leftarrow> arr_set xs task_idx t4;
                 Some (Ref (rq\<lparr>tasks := Ref ys\<rparr>))
               }))"

definition clti_pick_next_task :: "cfs_rq ptr \<Rightarrow> int option" where
  "clti_pick_next_task p = exact_pick_next_task p"

section \<open>One tick\<close>

definition clti_tick :: "cfs_rq ptr \<Rightarrow> cfs_rq ptr option" where
  "clti_tick p =
     (case p of NULL \<Rightarrow> Some p
      | Ref _ \<Rightarrow> do {
          let p = rq_tick p;
          nxt \<leftarrow> clti_pick_next_task p;
          if nxt = - 1 then Some p
          else do {
            p \<leftarrow> clti_update_curr p nxt;
            rq \<leftarrow> c_deref p;
            p \<leftarrow> for_loop 0 (nr_tasks rq) (\<lambda>i q. clti_update_load_avg q i) p;
            j \<leftarrow> fairness_jain_index p;
            p \<leftarrow> c_write p (jain_index_update (\<lambda>_. j));
            (_, p) \<leftarrow> rq_count_running p;
            Some p
          }
        })"

section \<open>The nearest class\<close>

definition class_dist :: "u32 \<Rightarrow> nat \<Rightarrow> nat" where
  "class_dist w k = unat (clti_class_diff w (clti_weight_class ! k))"

lemma class_dist_diff:
  "class_dist w k = (let c = unat (clti_weight_class ! k) in
     if c < unat w then unat w - c else c - unat w)"
  by (simp add: class_dist_def clti_class_diff_def Let_def word_less_nat_alt unat_sub word_le_nat_alt)

text \<open>The search returns the first class whose representative is at the least distance.\<close>

lemma clti_weight_to_class_spec:
  "\<exists>k < 8. clti_weight_to_class w = Some (int k) \<and> (\<forall>j < 8. class_dist w k \<le> class_dist w j)"
proof (cases "w = 1024")
  case True
  have "class_dist 1024 4 = 0" by (simp add: class_dist_def clti_class_diff_def clti_weight_class_def)
  then show ?thesis using True by (intro exI [of _ 4]) (simp add: clti_weight_to_class_def)
next
  case False
  let ?C = "clti_weight_class"
  let ?body = "\<lambda>i (best, best_diff). do {
               c \<leftarrow> arr_get ?C i;
               let diff = clti_class_diff w c;
               Some (if diff < best_diff then (i, diff) else (best, best_diff))
             }"
  let ?I = "\<lambda>i (best, bd). \<exists>k < i. best = int k \<and> bd = clti_class_diff w (?C ! k) \<and>
      (\<forall>j < i. class_dist w k \<le> class_dist w j)"
  have len: "length ?C = 8" by (simp add: clti_weight_class_def)
  have step: "\<exists>t'. ?body (int i) t = Some t' \<and> ?I (Suc i) t'" if i: "1 \<le> i" "i < 8" "?I i t" for i t
  proof -
    obtain best bd where t: "t = (best, bd)" by (cases t)
    from i(3) t obtain k where k: "k < i" "best = int k" "bd = clti_class_diff w (?C ! k)"
      "\<forall>j < i. class_dist w k \<le> class_dist w j" by auto
    have "arr_get ?C (int i) = Some (?C ! i)" using i len by simp
    moreover have "clti_class_diff w (?C ! i) < bd \<longleftrightarrow> class_dist w i < class_dist w k"
      by (simp add: k(3) class_dist_def word_less_nat_alt)
    ultimately show ?thesis using k t
      by (auto simp: less_Suc_eq Let_def intro: less_imp_le less_le_trans exI [of _ k])
  qed
  have "\<exists>s'. for_loop (int 1) (int 8) ?body (0, clti_class_diff w (?C ! 0)) = Some s' \<and> ?I 8 s'"
    by (rule for_loop_invariant [where P = ?I, OF _ _ step]) auto
  then obtain best bd where b: "for_loop 1 8 ?body (0, clti_class_diff w (?C ! 0)) = Some (best, bd)"
    "?I 8 (best, bd)" by auto
  moreover have "arr_get ?C 0 = Some (?C ! 0)" using len by (simp add: arr_get_def)
  ultimately show ?thesis using False by (auto simp: clti_weight_to_class_def)
qed

section \<open>The vruntime of a tick\<close>

definition clti_rep :: "u32 \<Rightarrow> u32" where
  "clti_rep w = clti_weight_class ! nat (the (clti_weight_to_class w))"

definition clti_vdelta :: "u32 \<Rightarrow> u64" where
  "clti_vdelta w = (if w = NICE_0_LOAD then TICK_NS else if w = 0 then 0
     else mul_shr TICK_NS (ucast (ucast (bsa_newton_reciprocal (clti_rep w) 1) :: u32)) 22)"

lemma clti_rep_class:
  obtains k where "k < 8" and "clti_weight_to_class w = Some (int k)" and "clti_rep w = clti_weight_class ! k"
  using clti_weight_to_class_spec [of w] by (auto simp: clti_rep_def)

lemma clti_vruntime_delta_tick: "clti_vruntime_delta TICK_NS w = Some (clti_vdelta w)"
proof -
  obtain k where "k < 8" "clti_weight_to_class w = Some (int k)" "clti_rep w = clti_weight_class ! k"
    by (rule clti_rep_class)
  moreover have "length clti_weight_class = 8" by (simp add: clti_weight_class_def)
  ultimately show ?thesis by (simp add: clti_vruntime_delta_def clti_vdelta_def exact_mul_shr)
qed

lemma clti_rep_pow2: "\<exists>e \<in> {16, 14, 12, 11, 10, 8, 6, 4}. unat (clti_rep w) = 2 ^ e"
proof -
  obtain k where "k < 8" "clti_rep w = clti_weight_class ! k" by (rule clti_rep_class)
  moreover have "length clti_weight_class = 8" by (simp add: clti_weight_class_def)
  ultimately have "clti_rep w \<in> set clti_weight_class" by simp
  then show ?thesis by (auto simp: clti_weight_class_def)
qed

text \<open>The charge is exactly that of the representative weight, with no rounding at all.\<close>

lemma unat_clti_vdelta:
  assumes "w \<noteq> 0" and "w \<noteq> 1024"
  shows "unat (clti_vdelta w) = 1024000000 div unat (clti_rep w)"
proof -
  obtain e where e: "e \<in> {16, 14, 12, 11, 10, 8, 6, 4}" "unat (clti_rep w) = 2 ^ e"
    using clti_rep_pow2 by blast
  then have r: "unat (bsa_newton_reciprocal (clti_rep w) 1) = 2 ^ (32 - e)"
    by (intro bsa_newton_reciprocal_pow2) auto
  show ?thesis using assms e r
    by (auto simp: clti_vdelta_def unat_mul_shr unat_ucast_u64_u32)
qed

lemma clti_vdelta_bounds:
  assumes "w \<noteq> 0"
  shows "15625 \<le> unat (clti_vdelta w)" and "unat (clti_vdelta w) \<le> 64000000"
proof -
  have "15625 \<le> unat (clti_vdelta w) \<and> unat (clti_vdelta w) \<le> 64000000"
  proof (cases "w = 1024")
    case False
    then show ?thesis using clti_rep_pow2 [of w] by (auto simp: unat_clti_vdelta [OF assms])
  qed (simp add: clti_vdelta_def)
  then show "15625 \<le> unat (clti_vdelta w)" "unat (clti_vdelta w) \<le> 64000000" by simp_all
qed

section \<open>The decay of one period\<close>

definition clti_decay1 :: "u64 \<Rightarrow> u64" where
  "clti_decay1 load = load - (load - mul_shr load 30048 15) div 4"

lemma unat_clti_step: "unat (mul_shr l 30048 15) = unat l * 30048 div 32768"
  using unat_mul_shr_small [of 30048 15 l] by simp

lemma clti_decay_load_1: "clti_decay_load load 1 = Some (clti_decay1 load)"
proof -
  have base: "mul_shr load 32768 15 = load"
    using unat_mul_shr_small [of 32768 15 load] by (simp add: word_unat_eq_iff)
  have le: "mul_shr load 30048 15 \<le> load"
    by (simp add: word_le_nat_alt unat_clti_step)
  have "(load - mul_shr load 30048 15) div 4 \<le> load"
    using le by (simp add: word_le_nat_alt unat_div unat_sub)
  then show ?thesis using base le
    by (simp add: clti_decay_load_def clti_decay_interpolate_def c_div_nonneg c_mod_nonneg
        arr_get_def clti_decay_table_def exact_mul_shr clti_decay1_def Let_def)
qed

lemma unat_clti_decay1:
  "unat (clti_decay1 l) = unat l - (unat l - unat l * 30048 div 32768) div 4"
proof -
  have le: "mul_shr l 30048 15 \<le> l" by (simp add: word_le_nat_alt unat_clti_step)
  moreover have "(l - mul_shr l 30048 15) div 4 \<le> l"
    using le by (simp add: word_le_nat_alt unat_div unat_sub)
  ultimately show ?thesis by (simp add: clti_decay1_def unat_sub unat_div unat_clti_step)
qed

lemma clti_decay_room: "unat l \<le> 49 * m \<Longrightarrow> unat (clti_decay1 l) + m \<le> 49 * m"
  by (simp add: unat_clti_decay1)

section \<open>The policy\<close>

definition clti_policy :: policy where
  "clti_policy = \<lparr>pol_vdelta = \<lambda>_. clti_vdelta, pol_decay = \<lambda>_. clti_decay1,
                  pol_control = \<lambda>_ s _. s, pol_idle = False\<rparr>"

lemma clti_policy_simps [simp]:
  "pol_vdelta clti_policy s = clti_vdelta" "pol_decay clti_policy s = clti_decay1"
  "pol_control clti_policy c s j = s" "\<not> pol_idle clti_policy"
  by (simp_all add: clti_policy_def)

interpretation clti_up: task_updates clti_update_curr clti_update_load_avg clti_policy
proof unfold_locales
  fix rq :: cfs_rq and xs k
  assume v: "rq_view rq xs" and k: "k < length xs"
  note view = rq_view_tasks [OF v] rq_view_nr [OF v]
  show "clti_update_curr (Ref rq) (int k) =
      Some (Ref (rq\<lparr>tasks := Ref (run_at clti_policy (apaf_state rq) xs k)\<rparr>))"
    if "is_runnable (xs ! k)"
    using that k view by (simp add: clti_update_curr_def clti_vruntime_delta_tick run_at_def
        run_task_def is_runnable_def)
  show "clti_update_load_avg (Ref rq) (int k) = Some (Ref (rq\<lparr>tasks :=
      Ref (xs[k := load_step (pol_decay clti_policy (apaf_state rq)) (xs ! k)])\<rparr>))"
    using k view by (simp add: clti_update_load_avg_def clti_decay_load_1 load_step_def
        is_runnable_def Let_def)
qed

lemma clti_tick_view:
  assumes v: "rq_view rq xs"
  shows "clti_tick (Ref rq) = Some (Ref (spec_tick clti_policy rq xs))"
proof -
  let ?r1 = "rq\<lparr>tick := tick rq + 1, clock := clock rq + TICK_NS\<rparr>"
  have v1: "rq_view ?r1 xs" using v by simp
  note pick = exact_pick_next_task_view [OF v1]
  show ?thesis
  proof (cases "next_task xs")
    case None
    then show ?thesis using pick
      by (simp add: clti_tick_def clti_pick_next_task_def spec_tick_def Let_def)
  next
    case (Some k)
    then have k: "k < length xs" "is_runnable (xs ! k)" by (simp_all add: next_task_Some is_next_def)
    let ?ys = "map (load_step clti_decay1) (run_at clti_policy (apaf_state rq) xs k)"
    show ?thesis using pick Some close_tick [OF rq_view_tasks_update [OF v1, of ?ys]]
      by (simp add: clti_up.update_all [OF v1 k] clti_tick_def clti_pick_next_task_def spec_tick_def
          spec_tasks_def Let_def)
  qed
qed

interpretation clti: static_policy clti_tick clti_policy
proof unfold_locales
  fix w s assume "w \<in> set sched_weights"
  then have w: "w \<noteq> 0" using sched_weights_range [of w] by auto
  show "unat (pol_vdelta clti_policy s w) \<le> VDELTA_MAX" using clti_vdelta_bounds(2) [OF w] by simp
  show "VDELTA_MIN \<le> unat (pol_vdelta clti_policy s w)" using clti_vdelta_bounds(1) [OF w] by simp
qed (simp_all add: clti_tick_view clti_decay_room)

end
