(* ===== verification/Approx_APAF.thy ===== *)
theory Approx_APAF
  imports Approx_BSA
begin

text \<open>
  src/apex-cfs/src/approx_apaf.h and approx_apaf.c: the adaptive approximation. Decay by a
  polynomial in double precision whose coefficients depend on the controller state, vruntime
  scaling with one or two Newton steps, the fairness monitor that moves the controller every
  fourth tick, and the tick built from them.
\<close>

section \<open>Coefficients\<close>

abbreviation (input) APAF_TIGHT_A0 :: f64 where "APAF_TIGHT_A0 \<equiv> dec 999755378067218 15"
abbreviation (input) APAF_TIGHT_A1 :: f64 where "APAF_TIGHT_A1 \<equiv> - dec 21439723696865 15"
abbreviation (input) APAF_TIGHT_A2 :: f64 where "APAF_TIGHT_A2 \<equiv> dec 197742040395 15"

abbreviation (input) APAF_MEDIUM_A0 :: f64 where "APAF_MEDIUM_A0 \<equiv> dec 998121961273224 15"
abbreviation (input) APAF_MEDIUM_A1 :: f64 where "APAF_MEDIUM_A1 \<equiv> - dec 20869371290712 15"
abbreviation (input) APAF_MEDIUM_A2 :: f64 where "APAF_MEDIUM_A2 \<equiv> dec 167397421507 15"

abbreviation (input) APAF_LOOSE_A0 :: f64 where "APAF_LOOSE_A0 \<equiv> dec 977779922300000 15"
abbreviation (input) APAF_LOOSE_A1 :: f64 where "APAF_LOOSE_A1 \<equiv> - dec 15578660700000 15"
abbreviation (input) APAF_LOOSE_A2 :: f64 where "APAF_LOOSE_A2 \<equiv> 0"

abbreviation (input) APAF_MONITOR_INTERVAL :: u64 where "APAF_MONITOR_INTERVAL \<equiv> 4"
abbreviation (input) APAF_TIGHT_NEWTON_ITERS :: int where "APAF_TIGHT_NEWTON_ITERS \<equiv> 2"
abbreviation (input) APAF_MEDIUM_NEWTON_ITERS :: int where "APAF_MEDIUM_NEWTON_ITERS \<equiv> 2"
abbreviation (input) APAF_LOOSE_NEWTON_ITERS :: int where "APAF_LOOSE_NEWTON_ITERS \<equiv> 1"

section \<open>Arithmetic\<close>

text \<open>The table entry as a fraction of \<open>0xFFFFFFFF\<close>.\<close>

definition table_factor :: "int \<Rightarrow> f64 option" where
  "table_factor n = do {
     y \<leftarrow> arr_get runnable_avg_yN_inv n;
     Some (f_of_u32 y / f_of_u64 0xFFFFFFFF)
   }"

definition apaf_coefficients :: "int \<Rightarrow> f64 \<times> f64 \<times> f64" where
  "apaf_coefficients state =
     (if state = APAF_TIGHT then (APAF_TIGHT_A0, APAF_TIGHT_A1, APAF_TIGHT_A2)
      else if state = APAF_LOOSE then (APAF_LOOSE_A0, APAF_LOOSE_A1, APAF_LOOSE_A2)
      else (APAF_MEDIUM_A0, APAF_MEDIUM_A1, APAF_MEDIUM_A2))"

definition apaf_poly_eval :: "int \<Rightarrow> int \<Rightarrow> f64 option" where
  "apaf_poly_eval n state =
     (if state = APAF_TIGHT \<and> 16 < n then
        let idx = (if n < 0 then 0 else n);
            idx = (if LOAD_AVG_PERIOD \<le> idx then LOAD_AVG_PERIOD - 1 else idx)
        in table_factor idx
      else
        let (a0, a1, a2) = apaf_coefficients state;
            result = a0 + f_of_int n * (a1 + f_of_int n * a2);
            result = (if 1 < result then 1 else result);
            result = (if result < 0 then 0 else result)
        in Some result)"

definition apaf_decay_load :: "u64 \<Rightarrow> int \<Rightarrow> int \<Rightarrow> u64 option" where
  "apaf_decay_load load periods state =
     (if periods = 0 then Some load
      else if PELT_MAX_PERIODS * LOAD_AVG_PERIOD \<le> periods then Some 0
      else do {
        let coarse = c_div periods LOAD_AVG_PERIOD;
        load1 \<leftarrow> u64_shr load coarse;
        let local_n = c_mod periods LOAD_AVG_PERIOD;
        if 0 < local_n then do {
          factor \<leftarrow> apaf_poly_eval local_n state;
          factor \<leftarrow>
            (if state = APAF_LOOSE then do {
               exact_factor \<leftarrow> table_factor local_n;
               Some (if factor < exact_factor then exact_factor else factor)
             } else Some factor);
          f_to_u64 (f_of_u64 load1 * factor)
        } else Some load1
      })"

definition apaf_vruntime_delta :: "u64 \<Rightarrow> u32 \<Rightarrow> int \<Rightarrow> u64 option" where
  "apaf_vruntime_delta delta_exec w state =
     (if w = NICE_0_LOAD then Some delta_exec
      else if w = 0 then Some 0
      else
        let iters = (if state = APAF_TIGHT then APAF_TIGHT_NEWTON_ITERS
                     else if state = APAF_LOOSE then APAF_LOOSE_NEWTON_ITERS
                     else APAF_MEDIUM_NEWTON_ITERS);
            inv_w = bsa_newton_reciprocal w iters
        in exact_mul_u64_u32_shr delta_exec (ucast inv_w) (WMULT_SHIFT - 10))"

section \<open>The controller\<close>

definition apaf_update_state :: "cfs_rq ptr \<Rightarrow> cfs_rq ptr option" where
  "apaf_update_state p =
     (case p of NULL \<Rightarrow> Some p
      | Ref rq \<Rightarrow>
          if tick rq mod APAF_MONITOR_INTERVAL \<noteq> 0 then Some p
          else do {
            j \<leftarrow> fairness_jain_index p;
            let rq1 = rq\<lparr>jain_index := j\<rparr>;
            let nxt = fairness_apaf_next_state (apaf_state rq1) j;
            Some (Ref (if nxt \<noteq> apaf_state rq1 then rq1\<lparr>apaf_state := nxt\<rparr> else rq1))
          })"

section \<open>Updates of one task\<close>

definition apaf_update_curr :: "cfs_rq ptr \<Rightarrow> int \<Rightarrow> cfs_rq ptr option" where
  "apaf_update_curr p task_idx =
     (case p of NULL \<Rightarrow> Some p
      | Ref rq \<Rightarrow>
          (case tasks rq of NULL \<Rightarrow> Some p
           | Ref xs \<Rightarrow>
               if task_idx < 0 \<or> nr_tasks rq \<le> task_idx then Some p
               else do {
                 curr \<leftarrow> arr_get xs task_idx;
                 if runnable curr = 0 then Some p
                 else do {
                   let delta_exec = TICK_NS;
                   let curr1 = curr\<lparr>exec_runtime := exec_runtime curr + delta_exec\<rparr>;
                   d \<leftarrow> apaf_vruntime_delta delta_exec (ucast (weight curr1)) (apaf_state rq);
                   ys \<leftarrow> arr_set xs task_idx (curr1\<lparr>vruntime := vruntime curr1 + d\<rparr>);
                   Some (Ref (rq\<lparr>tasks := Ref ys\<rparr>))
                 }
               }))"

definition apaf_update_load_avg :: "cfs_rq ptr \<Rightarrow> int \<Rightarrow> cfs_rq ptr option" where
  "apaf_update_load_avg p task_idx =
     (case p of NULL \<Rightarrow> Some p
      | Ref rq \<Rightarrow>
          (case tasks rq of NULL \<Rightarrow> Some p
           | Ref xs \<Rightarrow>
               if task_idx < 0 \<or> nr_tasks rq \<le> task_idx then Some p
               else do {
                 t \<leftarrow> arr_get xs task_idx;
                 decayed \<leftarrow> apaf_decay_load (load_sum t) 1 (apaf_state rq);
                 let t1 = t\<lparr>load_sum := decayed\<rparr>;
                 let t2 = (if runnable t1 = 1 then t1\<lparr>load_sum := load_sum t1 + weight t1\<rparr> else t1);
                 let t3 = t2\<lparr>load_avg := (weight t2 * load_sum t2) div LOAD_AVG_MAX\<rparr>;
                 let t4 = (if weight t3 < load_avg t3 then t3\<lparr>load_avg := weight t3\<rparr> else t3);
                 ys \<leftarrow> arr_set xs task_idx t4;
                 Some (Ref (rq\<lparr>tasks := Ref ys\<rparr>))
               }))"

definition apaf_pick_next_task :: "cfs_rq ptr \<Rightarrow> int option" where
  "apaf_pick_next_task p = exact_pick_next_task p"

section \<open>One tick\<close>

definition apaf_tick :: "cfs_rq ptr \<Rightarrow> cfs_rq ptr option" where
  "apaf_tick p =
     (case p of NULL \<Rightarrow> Some p
      | Ref _ \<Rightarrow> do {
          let p = rq_tick p;
          nxt \<leftarrow> apaf_pick_next_task p;
          if nxt = - 1 then Some p
          else do {
            p \<leftarrow> apaf_update_curr p nxt;
            rq \<leftarrow> c_deref p;
            p \<leftarrow> for_loop 0 (nr_tasks rq) (\<lambda>i q. apaf_update_load_avg q i) p;
            p \<leftarrow> apaf_update_state p;
            j \<leftarrow> fairness_jain_index p;
            p \<leftarrow> c_write p (jain_index_update (\<lambda>_. j));
            (_, p) \<leftarrow> rq_count_running p;
            Some p
          }
        })"

section \<open>The polynomial against the table\<close>

text \<open>The factor of the local periods, and its exact reading over the rationals.\<close>

definition apaf_factor :: "int \<Rightarrow> int \<Rightarrow> f64 option" where
  "apaf_factor n state = do {
     factor \<leftarrow> apaf_poly_eval n state;
     if state = APAF_LOOSE then do {
       exact_factor \<leftarrow> table_factor n;
       Some (if factor < exact_factor then exact_factor else factor)
     } else Some factor
   }"

definition poly_coeffs :: "int \<Rightarrow> rat \<times> rat \<times> rat" where
  "poly_coeffs state =
     (if state = APAF_TIGHT then (999755378067218 / 10 ^ 15, - 21439723696865 / 10 ^ 15, 197742040395 / 10 ^ 15)
      else if state = APAF_LOOSE then (977779922300000 / 10 ^ 15, - 15578660700000 / 10 ^ 15, 0)
      else (998121961273224 / 10 ^ 15, - 20869371290712 / 10 ^ 15, 167397421507 / 10 ^ 15))"

definition poly_rat :: "int \<Rightarrow> int \<Rightarrow> rat" where
  "poly_rat n state = (case poly_coeffs state of (a0, a1, a2) \<Rightarrow>
     a0 + of_int n * (a1 + of_int n * a2))"

definition table_rat :: "int \<Rightarrow> rat" where
  "table_rat n = of_int (uint (runnable_avg_yN_inv ! nat n)) / 4294967295"

lemma apaf_decay_load_factor:
  assumes "0 < c_mod periods LOAD_AVG_PERIOD" and "periods < PELT_MAX_PERIODS * LOAD_AVG_PERIOD"
  shows "apaf_decay_load load periods state = u64_shr load (c_div periods LOAD_AVG_PERIOD) \<bind>
    (\<lambda>l. apaf_factor (c_mod periods LOAD_AVG_PERIOD) state \<bind> (\<lambda>f. f_to_u64 (f_of_u64 l * f)))"
proof -
  have "periods \<noteq> 0" using assms(1) by auto
  then show ?thesis using assms
    by (cases "state = APAF_LOOSE") (simp_all add: apaf_decay_load_def apaf_factor_def Let_def)
qed

lemma horner_near:
  assumes A: "near A0 a0 (1 / 10 ^ 15)" "near A1 a1 (1 / 10 ^ 15)" "near A2 a2 (1 / 10 ^ 15)"
    and a: "\<bar>a0\<bar> \<le> 1" "\<bar>a1\<bar> \<le> 1 / 40" "\<bar>a2\<bar> \<le> 1 / 5000" and n: "\<bar>n\<bar> \<le> 31"
  shows "near (A0 + f_of_int n * (A1 + f_of_int n * A2)) (a0 + of_int n * (a1 + of_int n * a2)) (2 / 10 ^ 12)"
proof -
  have nr: "\<bar>of_int n :: rat\<bar> \<le> 31" using n by (metis of_int_abs of_int_le_iff of_int_numeral)
  have "\<bar>of_int n * a2\<bar> \<le> 31 * (1 / 5000)"
    unfolding abs_mult using nr a(3) by (intro mult_mono) auto
  then have s1: "\<bar>a1 + of_int n * a2\<bar> \<le> 1 / 32" using a(2) by linarith
  have "\<bar>of_int n * (a1 + of_int n * a2)\<bar> \<le> 31 * (1 / 32)"
    unfolding abs_mult using nr s1 by (intro mult_mono) auto
  then have s2: "\<bar>a0 + of_int n * (a1 + of_int n * a2)\<bar> \<le> 63 / 32" using a(1) by linarith
  have 1: "near (f_of_int n * A2) (of_int n * a2) (of_int 31 * (1 / 10 ^ 15) + 1 / 10 ^ 15)"
    by (rule near_mult_int [OF A(3) n]) (use a(3) in simp_all)
  have 2: "near (A1 + f_of_int n * A2) (a1 + of_int n * a2) (34 / 10 ^ 15)"
    using near_add [OF A(2) 1] s1 by simp
  have 3: "near (f_of_int n * (A1 + f_of_int n * A2)) (of_int n * (a1 + of_int n * a2)) (1055 / 10 ^ 15)"
    using near_mult_int [OF 2 n] s1 by simp
  have "near (A0 + f_of_int n * (A1 + f_of_int n * A2)) (a0 + of_int n * (a1 + of_int n * a2))
      (1 / 10 ^ 15 + 1055 / 10 ^ 15 + 1 / 10 ^ 15)"
    by (rule near_add [OF A(1) 3]) (use s2 in simp)
  then show ?thesis by (rule near_weaken) simp
qed

lemma near_dec15:
  "near (dec (numeral k) 15) (numeral k / 10 ^ 15) (1 / 10 ^ 15)"
  "near (- dec (numeral k) 15) (- numeral k / 10 ^ 15) (1 / 10 ^ 15)"
  if "(numeral k :: rat) < 2 * 10 ^ 15"
proof -
  have "\<bar>of_int (numeral k) / 10 ^ 15 :: rat\<bar> < 2" using that by (simp add: divide_less_eq)
  from near_dec [OF this]
  show d: "near (dec (numeral k) 15) (numeral k / 10 ^ 15) (1 / 10 ^ 15)" by (simp only: of_int_numeral)
  show "near (- dec (numeral k) 15) (- numeral k / 10 ^ 15) (1 / 10 ^ 15)"
    using near_neg [OF d] by (simp only: minus_divide_left)
qed

lemma coefficients_near:
  assumes "apaf_coefficients state = (A0, A1, A2)" and "poly_coeffs state = (a0, a1, a2)"
  shows "near A0 a0 (1 / 10 ^ 15)" and "near A1 a1 (1 / 10 ^ 15)" and "near A2 a2 (1 / 10 ^ 15)"
proof -
  have z: "near 0 0 (1 / 10 ^ 15)" by (simp add: near_def)
  have c: "(A0, A1, A2) = apaf_coefficients state" "(a0, a1, a2) = poly_coeffs state"
    using assms by simp_all
  consider "state = APAF_TIGHT" | "state = APAF_LOOSE" | "state \<noteq> APAF_TIGHT" "state \<noteq> APAF_LOOSE" by blast
  then have "near A0 a0 (1 / 10 ^ 15) \<and> near A1 a1 (1 / 10 ^ 15) \<and> near A2 a2 (1 / 10 ^ 15)"
  proof cases
    case 1
    have e: "A0 = APAF_TIGHT_A0" "A1 = APAF_TIGHT_A1" "A2 = APAF_TIGHT_A2"
      "a0 = 999755378067218 / 10 ^ 15" "a1 = - 21439723696865 / 10 ^ 15" "a2 = 197742040395 / 10 ^ 15"
      using c 1 unfolding apaf_coefficients_def poly_coeffs_def by simp_all
    show ?thesis unfolding e by (intro conjI near_dec15) simp_all
  next
    case 2
    have e: "A0 = APAF_LOOSE_A0" "A1 = APAF_LOOSE_A1" "A2 = APAF_LOOSE_A2"
      "a0 = 977779922300000 / 10 ^ 15" "a1 = - 15578660700000 / 10 ^ 15" "a2 = 0"
      using c 2 unfolding apaf_coefficients_def poly_coeffs_def by simp_all
    show ?thesis unfolding e by (intro conjI near_dec15 z) simp_all
  next
    case 3
    have e: "A0 = APAF_MEDIUM_A0" "A1 = APAF_MEDIUM_A1" "A2 = APAF_MEDIUM_A2"
      "a0 = 998121961273224 / 10 ^ 15" "a1 = - 20869371290712 / 10 ^ 15" "a2 = 167397421507 / 10 ^ 15"
      using c 3 unfolding apaf_coefficients_def poly_coeffs_def by simp_all
    show ?thesis unfolding e by (intro conjI near_dec15) simp_all
  qed
  then show "near A0 a0 (1 / 10 ^ 15)" "near A1 a1 (1 / 10 ^ 15)" "near A2 a2 (1 / 10 ^ 15)" by simp_all
qed

lemma apaf_poly_near:
  assumes "0 \<le> n" and "n \<le> 31" and "\<not> (state = APAF_TIGHT \<and> 16 < n)"
    and "0 \<le> poly_rat n state" and "poly_rat n state \<le> 98 / 100"
  shows "\<exists>f. apaf_poly_eval n state = Some f \<and> near f (poly_rat n state) (2 / 10 ^ 12)"
proof -
  obtain A0 A1 A2 where A: "apaf_coefficients state = (A0, A1, A2)" by (cases "apaf_coefficients state")
  obtain a0 a1 a2 where a: "poly_coeffs state = (a0, a1, a2)" by (cases "poly_coeffs state")
  note near = coefficients_near [OF A a]
  moreover have "\<bar>a0\<bar> \<le> 1" "\<bar>a1\<bar> \<le> 1 / 40" "\<bar>a2\<bar> \<le> 1 / 5000"
    using a by (auto simp: poly_coeffs_def split: if_splits)
  ultimately have "near (A0 + f_of_int n * (A1 + f_of_int n * A2)) (poly_rat n state) (2 / 10 ^ 12)"
    using assms(1,2) a horner_near [of A0 a0 A1 a1 A2 a2 n] by (simp add: poly_rat_def)
  then have "near (let r = A0 + f_of_int n * (A1 + f_of_int n * A2); r = (if 1 < r then 1 else r)
      in if r < 0 then 0 else r) (poly_rat n state) (2 / 10 ^ 12)"
    using near_clamp assms(4,5) by (simp only: Let_def)
  then show ?thesis using assms(3) A by (auto simp: apaf_poly_eval_def Let_def)
qed

text \<open>The error the documentation allows in each state.\<close>

definition apaf_error_bound :: "int \<Rightarrow> rat" where
  "apaf_error_bound state =
     (if state = APAF_TIGHT then 1 / 100 else if state = APAF_LOOSE then 4147 / 100000 else 3 / 100)"

lemma apaf_error_bound_range: "1 / 100 \<le> apaf_error_bound state" "apaf_error_bound state \<le> 1 / 20"
  by (simp_all add: apaf_error_bound_def)

lemma table_near:
  assumes "0 \<le> n" and "n \<le> 31"
  shows "\<exists>f. table_factor n = Some f \<and> near f (table_rat n) (1 / 10 ^ 15)"
proof -
  let ?y = "runnable_avg_yN_inv ! nat n"
  have len: "length runnable_avg_yN_inv = 32" by (simp add: runnable_avg_yN_inv_def)
  then have y: "arr_get runnable_avg_yN_inv n = Some ?y" using assms by (simp add: arr_get_def)
  have d: "f_of_u64 0xFFFFFFFF = Fin 4294967295" by (simp add: f_of_u64_exact)
  have "uint ?y \<le> 4294967295" using uint_bounded [of ?y] by simp
  then have "(of_int (uint ?y) :: rat) \<le> 4294967295" by (metis of_int_le_iff of_int_numeral)
  moreover have "0 \<le> (of_int (uint ?y) :: rat)" by (simp only: of_int_0_le_iff uint_ge_0)
  ultimately have "\<bar>table_rat n\<bar> < 2" by (simp add: table_rat_def del: of_int_uint)
  then have "near (fround (table_rat n)) (table_rat n) (0 + 1 / 10 ^ 15)" by (intro near_fround) simp_all
  then show ?thesis using y d by (simp add: table_factor_def f_of_u32_exact table_rat_def)
qed

lemma table_rat_range:
  assumes "1 \<le> n" and "n \<le> 31"
  shows "1 / 2 \<le> table_rat n" and "table_rat n \<le> 9786 / 10000"
proof -
  have n: "n \<in> set [1..31]" using assms by simp
  have "list_all (\<lambda>n. 1 / 2 \<le> table_rat n \<and> table_rat n \<le> 9786 / 10000) [1..31]"
    by (simp add: upto_rec_numeral upto.simps table_rat_def runnable_avg_yN_inv_def)
  with n show "1 / 2 \<le> table_rat n" "table_rat n \<le> 9786 / 10000" by (auto simp only: list_all_iff)
qed

lemma poly_table:
  assumes "1 \<le> n" and "n \<le> 31"
  shows "n \<le> 16 \<Longrightarrow> \<bar>poly_rat n APAF_TIGHT - table_rat n\<bar> \<le> 4 / 10000"
    and "\<bar>poly_rat n APAF_MEDIUM - table_rat n\<bar> \<le> 12 / 10000"
    and "\<bar>poly_rat n APAF_LOOSE - table_rat n\<bar> \<le> 32 / 1000 * table_rat n"
proof -
  show "\<bar>poly_rat n APAF_TIGHT - table_rat n\<bar> \<le> 4 / 10000" if "n \<le> 16"
  proof -
    have n: "n \<in> set [1..16]" using assms that by simp
    have "list_all (\<lambda>n. \<bar>poly_rat n APAF_TIGHT - table_rat n\<bar> \<le> 4 / 10000) [1..16]"
      by (simp add: upto_rec_numeral upto.simps table_rat_def runnable_avg_yN_inv_def poly_rat_def poly_coeffs_def)
    with n show ?thesis by (auto simp only: list_all_iff)
  qed
  have n: "n \<in> set [1..31]" using assms by simp
  have "list_all (\<lambda>n. \<bar>poly_rat n APAF_MEDIUM - table_rat n\<bar> \<le> 12 / 10000) [1..31]"
    by (simp add: upto_rec_numeral upto.simps table_rat_def runnable_avg_yN_inv_def poly_rat_def poly_coeffs_def)
  with n show "\<bar>poly_rat n APAF_MEDIUM - table_rat n\<bar> \<le> 12 / 10000" by (auto simp only: list_all_iff)
  have "list_all (\<lambda>n. \<bar>poly_rat n APAF_LOOSE - table_rat n\<bar> \<le> 32 / 1000 * table_rat n) [1..31]"
    by (simp add: upto_rec_numeral upto.simps table_rat_def runnable_avg_yN_inv_def poly_rat_def poly_coeffs_def)
  with n show "\<bar>poly_rat n APAF_LOOSE - table_rat n\<bar> \<le> 32 / 1000 * table_rat n" by (auto simp only: list_all_iff)
qed

lemma poly_rat_range:
  assumes "1 \<le> n" and "n \<le> 31" and "\<not> (state = APAF_TIGHT \<and> 16 < n)"
  shows "0 \<le> poly_rat n state" and "poly_rat n state \<le> 98 / 100"
    and "\<bar>poly_rat n state - table_rat n\<bar> + 3 / 10 ^ 12 \<le> apaf_error_bound state * table_rat n"
proof -
  have other: "poly_rat n state = poly_rat n APAF_MEDIUM" if "state \<noteq> APAF_TIGHT" "state \<noteq> APAF_LOOSE"
    using that by (simp add: poly_rat_def poly_coeffs_def)
  note t = table_rat_range [OF assms(1,2)]
  have tiny: "(3::rat) / 10 ^ 12 \<le> 1 / 1000000" by simp
  have "\<bar>poly_rat n state - table_rat n\<bar> \<le> 32 / 1000 * table_rat n \<and>
      \<bar>poly_rat n state - table_rat n\<bar> + 3 / 10 ^ 12 \<le> apaf_error_bound state * table_rat n \<and>
      poly_rat n state \<le> 98 / 100"
  proof -
    consider "state = APAF_TIGHT" | "state = APAF_LOOSE" | "state \<noteq> APAF_TIGHT" "state \<noteq> APAF_LOOSE" by blast
    then show ?thesis
    proof cases
      case 1
      then have "\<bar>poly_rat n state - table_rat n\<bar> \<le> 4 / 10000" "apaf_error_bound state = 1 / 100"
        using poly_table(1) [OF assms(1,2)] assms(3) by (simp_all add: apaf_error_bound_def)
      then show ?thesis using t tiny by (intro conjI; simp only:; linarith)
    next
      case 2
      have "poly_rat n APAF_LOOSE \<le> 98 / 100"
        using assms(1) by (simp add: poly_rat_def poly_coeffs_def)
      moreover have "apaf_error_bound state = 4147 / 100000" using 2 by (simp add: apaf_error_bound_def)
      ultimately show ?thesis using 2 poly_table(3) [OF assms(1,2)] t tiny
        by (intro conjI; simp only:; linarith)
    next
      case 3
      then have "\<bar>poly_rat n state - table_rat n\<bar> \<le> 12 / 10000" "apaf_error_bound state = 3 / 100"
        using poly_table(2) [OF assms(1,2)] other by (simp_all add: apaf_error_bound_def)
      then show ?thesis using t tiny by (intro conjI; simp only:; linarith)
    qed
  qed
  then show "0 \<le> poly_rat n state" "poly_rat n state \<le> 98 / 100"
    "\<bar>poly_rat n state - table_rat n\<bar> + 3 / 10 ^ 12 \<le> apaf_error_bound state * table_rat n"
    using t by (elim conjE; linarith)+
qed

text \<open>
  The factor of every state and every local period is a finite double within the documented
  error of the table entry, and the loose factor is never below the double table entry.
\<close>

lemma apaf_factor_accuracy:
  assumes "1 \<le> n" and "n \<le> 31"
  shows "\<exists>q. apaf_factor n state = Some (Fin q) \<and>
    \<bar>q - table_rat n\<bar> \<le> apaf_error_bound state * table_rat n \<and> 0 \<le> q \<and>
    q \<le> max (table_rat n) (poly_rat n state) + 2 / 10 ^ 12 \<and>
    (state = APAF_LOOSE \<longrightarrow> table_rat n - 1 / 10 ^ 15 \<le> q)"
proof -
  obtain f where f: "table_factor n = Some f" "near f (table_rat n) (1 / 10 ^ 15)"
    using table_near [of n] assms by auto
  obtain y where y: "f = Fin y" "\<bar>y - table_rat n\<bar> \<le> 1 / 10 ^ 15" using f(2) by (auto simp: near_def)
  note t = table_rat_range [OF assms]
  have tiny: "(1::rat) / 10 ^ 15 \<le> 1 / 1000000" by simp
  have b: "1 / 100 * table_rat n \<le> apaf_error_bound state * table_rat n"
    using t apaf_error_bound_range by (intro mult_right_mono) auto
  have yb: "\<bar>y - table_rat n\<bar> \<le> 1 / 100 * table_rat n" "0 \<le> y"
    using y(2) t tiny by linarith+
  have oy: "\<bar>y - table_rat n\<bar> \<le> apaf_error_bound state * table_rat n" using yb(1) b by linarith
  have "(1::rat) / 10 ^ 15 \<le> 2 / 10 ^ 12" by simp
  then have ymax: "y \<le> max (table_rat n) (poly_rat n state) + 2 / 10 ^ 12" using y(2) by linarith
  show ?thesis
  proof (cases "state = APAF_TIGHT \<and> 16 < n")
    case True
    then have "apaf_factor n state = Some f"
      using f(1) assms by (simp add: apaf_factor_def apaf_poly_eval_def)
    then show ?thesis using y(1) yb(2) oy ymax True by auto
  next
    case False
    note r = poly_rat_range [OF assms False]
    obtain g where g: "apaf_poly_eval n state = Some g" "near g (poly_rat n state) (2 / 10 ^ 12)"
      using apaf_poly_near [of n state] assms False r by auto
    obtain x where x: "g = Fin x" "\<bar>x - poly_rat n state\<bar> \<le> 2 / 10 ^ 12" using g(2) by (auto simp: near_def)
    have ox: "\<bar>x - table_rat n\<bar> \<le> apaf_error_bound state * table_rat n" using x(2) r(3) by linarith
    have xmax: "x \<le> max (table_rat n) (poly_rat n state) + 2 / 10 ^ 12" using x(2) by linarith
    have "apaf_error_bound state * table_rat n \<le> 1 / 20 * table_rat n"
      using t apaf_error_bound_range by (intro mult_right_mono) auto
    then have x0: "0 \<le> x" using ox t by linarith
    show ?thesis
    proof (cases "state = APAF_LOOSE")
      case loose: True
      define q where "q = (if x < y then y else x)"
      have "apaf_factor n state = Some (Fin q)"
        using loose f(1) g(1) x(1) y(1) by (simp add: apaf_factor_def q_def)
      moreover have "y \<le> q" "0 \<le> q" using x0 by (auto simp: q_def)
      moreover from this have "table_rat n - 1 / 10 ^ 15 \<le> q" using y(2) by linarith
      ultimately show ?thesis using ox oy xmax ymax by (auto simp: q_def)
    next
      case tight: False
      then show ?thesis using g(1) x(1) ox x0 xmax by (auto simp: apaf_factor_def)
    qed
  qed
qed

section \<open>Scaling a load by a factor\<close>

lemma f_scale_u64:
  assumes "0 \<le> q" and "q \<le> 127 / 128"
  shows "f_to_u64 (f_of_u64 l * Fin q) = Some (of_int \<lfloor>rnd (rnd (of_int (uint l)) * q)\<rfloor>)"
    and "0 \<le> \<lfloor>rnd (rnd (of_int (uint l)) * q)\<rfloor>"
    and "\<lfloor>rnd (rnd (of_int (uint l)) * q)\<rfloor> < 18446744073709551616"
proof -
  let ?L = "rnd (of_int (uint l))"
  have rep: "rnd (18446744073709551616 :: rat) = 18446744073709551616"
    using rnd_powi [of 64] by simp
  have rep2: "rnd (18302628885633695744 :: rat) = 18302628885633695744"
    using rnd_exact [of "18302628885633695744" 127 57] by simp
  have "(of_int (uint l) :: rat) \<le> of_int 18446744073709551616"
    using uint_bounded [of l] by (intro of_int_le_iff [THEN iffD2]) simp
  then have L: "?L \<le> 18446744073709551616" by (intro rnd_le_rep [OF _ rep]) simp
  have L0: "0 \<le> ?L" by (rule rnd_nonneg) (simp only: of_int_0_le_iff uint_ge_0)
  have p0: "0 \<le> ?L * q" using L0 assms(1) by simp
  have "?L * q \<le> 18446744073709551616 * (127 / 128)" using L L0 assms by (intro mult_mono) auto
  then have p1: "?L * q \<le> 18302628885633695744" by simp
  have r0: "0 \<le> rnd (?L * q)" by (rule rnd_nonneg [OF p0])
  have r1: "rnd (?L * q) \<le> 18302628885633695744" by (rule rnd_le_rep [OF p1 rep2])
  have "\<bar>?L * q\<bar> \<le> 2 ^ 64" using p0 p1 by simp
  then have "fround (?L * q) = Fin (rnd (?L * q))" by (rule fround_below) simp
  moreover show f0: "0 \<le> \<lfloor>rnd (?L * q)\<rfloor>" using r0 by simp
  moreover show f1: "\<lfloor>rnd (?L * q)\<rfloor> < 18446744073709551616" using r1 by (simp add: floor_less_iff)
  ultimately show "f_to_u64 (f_of_u64 l * Fin q) = Some (of_int \<lfloor>rnd (?L * q)\<rfloor>)"
    using r0 by (simp add: f_of_u64_Fin rat_trunc_def Let_def del: of_int_uint)
qed

text \<open>For loads below \<open>2 ^ 53\<close> the conversion is exact and the result obeys the bound on the factor.\<close>

lemma unat_of_int_le:
  "z \<le> int k \<Longrightarrow> 0 \<le> z \<Longrightarrow> z < 18446744073709551616 \<Longrightarrow> unat (of_int z :: u64) \<le> k"
  by (simp add: unsigned_of_int take_bit_int_eq_self nat_le_iff)

lemma f_scale_u64_le:
  assumes "0 \<le> q" and "q \<le> 127 / 128" and "unat l \<le> 2 ^ 53" and "of_nat (unat l) * q \<le> of_nat k" and "k \<le> 2 ^ 53"
  shows "\<exists>v. f_to_u64 (f_of_u64 l * Fin q) = Some v \<and> unat v \<le> k"
proof -
  have ul: "uint l \<le> 2 ^ 53" using assms(3) by (metis uint_nat of_nat_le_iff of_nat_numeral of_nat_power)
  have "\<bar>uint l\<bar> \<le> 2 ^ 53" using ul by simp
  then have L: "rnd (of_int (uint l)) = of_int (uint l)" by (rule rnd_of_int)
  have "(of_int (uint l) :: rat) = of_nat (unat l)" by (metis of_int_of_nat_eq uint_nat)
  then have "of_int (uint l) * q \<le> of_int (int k)" using assms(4) by simp
  moreover have "rnd (of_int (int k)) = of_int (int k)" using assms(5) by (intro rnd_of_int) simp
  ultimately have "rnd (of_int (uint l) * q) \<le> of_int (int k)" by (rule rnd_le_rep)
  then have "\<lfloor>rnd (of_int (uint l) * q)\<rfloor> \<le> int k" by (simp add: floor_le_iff)
  then have "unat (of_int \<lfloor>rnd (rnd (of_int (uint l)) * q)\<rfloor> :: u64) \<le> k"
    using f_scale_u64(2,3) [OF assms(1,2), of l] unfolding L by (rule unat_of_int_le)
  then show ?thesis using f_scale_u64(1) [OF assms(1,2)] by blast
qed

lemma apaf_factor_range:
  assumes "1 \<le> n" and "n \<le> 31"
  shows "\<exists>q. apaf_factor n state = Some (Fin q) \<and> 0 \<le> q \<and> q \<le> 127 / 128"
proof -
  obtain q where q: "apaf_factor n state = Some (Fin q)" "0 \<le> q"
    "q \<le> max (table_rat n) (poly_rat n state) + 2 / 10 ^ 12"
    "\<bar>q - table_rat n\<bar> \<le> apaf_error_bound state * table_rat n"
    using apaf_factor_accuracy [OF assms, of state] by auto
  have "(2::rat) / 10 ^ 12 \<le> 1 / 1000000" by simp
  moreover have "q \<le> 127 / 128"
  proof (cases "state = APAF_TIGHT \<and> 16 < n")
    case True
    then have "apaf_error_bound state * table_rat n \<le> 1 / 100 * (9786 / 10000)"
      using table_rat_range [OF assms] by (intro mult_mono) (simp_all add: apaf_error_bound_def)
    then show ?thesis using q(4) table_rat_range(2) [OF assms] by linarith
  next
    case False
    then show ?thesis
      using q(3) poly_rat_range(2) [OF assms False] table_rat_range(2) [OF assms] calculation by linarith
  qed
  ultimately show ?thesis using q(1,2) by auto
qed

text \<open>So the decay has a value for every load, every count of periods and every state.\<close>

lemma apaf_decay_load_total:
  assumes "0 \<le> periods" shows "\<exists>v. apaf_decay_load load periods state = Some v"
proof -
  let ?c = "c_div periods LOAD_AVG_PERIOD" and ?n = "c_mod periods LOAD_AVG_PERIOD"
  have n: "?n = periods mod 32" "?c = periods div 32" using assms by (simp_all add: c_div_nonneg c_mod_nonneg)
  show ?thesis
  proof (cases "periods = 0 \<or> 2016 \<le> periods")
    case True
    then show ?thesis by (auto simp: apaf_decay_load_def)
  next
    case False
    then have "0 \<le> ?c" "?c < 64" using assms n(2) by auto
    then obtain l where l: "u64_shr load ?c = Some l" unfolding u64_shr_def by simp
    show ?thesis
    proof (cases "0 < ?n")
      case True
      then have "1 \<le> ?n" "?n \<le> 31" using n by auto
      then obtain q where q: "apaf_factor ?n state = Some (Fin q)" "0 \<le> q" "q \<le> 127 / 128"
        using apaf_factor_range by blast
      then show ?thesis using True False l f_scale_u64(1) [OF q(2,3), of l]
        by (subst apaf_decay_load_factor) simp_all
    qed (use False l in \<open>simp add: apaf_decay_load_def\<close>)
  qed
qed

section \<open>The policy\<close>

definition apaf_decay1 :: "int \<Rightarrow> u64 \<Rightarrow> u64" where
  "apaf_decay1 state load = the (apaf_decay_load load 1 state)"

definition apaf_iters :: "int \<Rightarrow> int" where
  "apaf_iters state = (if state = APAF_LOOSE then 1 else 2)"

definition apaf_control :: "u64 \<Rightarrow> int \<Rightarrow> f64 \<Rightarrow> int" where
  "apaf_control c state j = (if c mod APAF_MONITOR_INTERVAL = 0 then fairness_apaf_next_state state j else state)"

definition apaf_policy :: policy where
  "apaf_policy = \<lparr>pol_vdelta = \<lambda>s. newton_vdelta (apaf_iters s), pol_decay = apaf_decay1,
                  pol_control = apaf_control, pol_idle = False\<rparr>"

lemma apaf_policy_simps [simp]:
  "pol_vdelta apaf_policy s = newton_vdelta (apaf_iters s)" "pol_decay apaf_policy s = apaf_decay1 s"
  "pol_control apaf_policy = apaf_control" "\<not> pol_idle apaf_policy"
  by (simp_all add: apaf_policy_def)

lemma apaf_decay_load_1: "apaf_decay_load load 1 state = Some (apaf_decay1 state load)"
  using apaf_decay_load_total [of 1 load state] by (auto simp: apaf_decay1_def)

lemma apaf_vruntime_delta_tick:
  "apaf_vruntime_delta TICK_NS w state = Some (newton_vdelta (apaf_iters state) w)"
  by (simp add: apaf_vruntime_delta_def newton_vdelta_def apaf_iters_def exact_mul_shr Let_def)

lemma poly_rat_1: "poly_rat 1 state \<le> 979 / 1000" "table_rat 1 \<le> 979 / 1000"
  by (simp_all add: poly_rat_def poly_coeffs_def table_rat_def runnable_avg_yN_inv_def)

lemma apaf_decay_room:
  assumes "m \<le> 88761" and "unat l \<le> 49 * m"
  shows "unat (apaf_decay1 state l) + m \<le> 49 * m"
proof -
  obtain q where q: "apaf_factor 1 state = Some (Fin q)" "0 \<le> q"
    "q \<le> max (table_rat 1) (poly_rat 1 state) + 2 / 10 ^ 12"
    using apaf_factor_accuracy [of 1 state] by auto
  have "(2::rat) / 10 ^ 12 \<le> 1 / 1000000" by simp
  then have qb: "q \<le> 48 / 49" using q(3) poly_rat_1(1) [of state] poly_rat_1(2) by linarith
  have "(of_nat (unat l) :: rat) \<le> of_nat (49 * m)" using assms(2) by (rule of_nat_mono)
  then have "of_nat (unat l) * q \<le> of_nat (49 * m) * (48 / 49)" using q(2) qb by (intro mult_mono) auto
  then have "of_nat (unat l) * q \<le> of_nat (48 * m)" by simp
  then have "\<exists>v. f_to_u64 (f_of_u64 l * Fin q) = Some v \<and> unat v \<le> 48 * m"
    using q(2) qb assms by (intro f_scale_u64_le) auto
  moreover have "apaf_decay_load l 1 state = f_to_u64 (f_of_u64 l * Fin q)"
    using q(1) by (subst apaf_decay_load_factor) (simp_all add: c_mod_nonneg c_div_nonneg)
  ultimately show ?thesis by (auto simp: apaf_decay1_def)
qed

interpretation apaf_up: task_updates apaf_update_curr apaf_update_load_avg apaf_policy
proof unfold_locales
  fix rq :: cfs_rq and xs k
  assume v: "rq_view rq xs" and k: "k < length xs"
  note view = rq_view_tasks [OF v] rq_view_nr [OF v]
  show "apaf_update_curr (Ref rq) (int k) =
      Some (Ref (rq\<lparr>tasks := Ref (run_at apaf_policy (apaf_state rq) xs k)\<rparr>))"
    if "is_runnable (xs ! k)"
    using that k view by (simp add: apaf_update_curr_def apaf_vruntime_delta_tick run_at_def
        run_task_def is_runnable_def)
  show "apaf_update_load_avg (Ref rq) (int k) = Some (Ref (rq\<lparr>tasks :=
      Ref (xs[k := load_step (pol_decay apaf_policy (apaf_state rq)) (xs ! k)])\<rparr>))"
    using k view by (simp add: apaf_update_load_avg_def apaf_decay_load_1 load_step_def
        is_runnable_def Let_def)
qed

lemma apaf_update_state_view:
  assumes v: "rq_view rq xs"
  shows "apaf_update_state (Ref rq) =
    Some (Ref (if tick rq mod APAF_MONITOR_INTERVAL = 0
               then rq\<lparr>jain_index := jain_of xs,
                       apaf_state := fairness_apaf_next_state (apaf_state rq) (jain_of xs)\<rparr>
               else rq))"
  by (simp add: apaf_update_state_def fairness_jain_index_view [OF v] Let_def)

lemma apaf_tick_view:
  assumes v: "rq_view rq xs"
  shows "apaf_tick (Ref rq) = Some (Ref (spec_tick apaf_policy rq xs))"
proof -
  let ?r1 = "rq\<lparr>tick := tick rq + 1, clock := clock rq + TICK_NS\<rparr>"
  have v1: "rq_view ?r1 xs" using v by simp
  note pick = exact_pick_next_task_view [OF v1]
  show ?thesis
  proof (cases "next_task xs")
    case None
    then show ?thesis using pick
      by (simp add: apaf_tick_def apaf_pick_next_task_def spec_tick_def Let_def)
  next
    case (Some k)
    then have k: "k < length xs" "is_runnable (xs ! k)" by (simp_all add: next_task_Some is_next_def)
    let ?ys = "map (load_step (apaf_decay1 (apaf_state rq))) (run_at apaf_policy (apaf_state rq) xs k)"
    let ?r2 = "?r1\<lparr>tasks := Ref ?ys\<rparr>"
    let ?r3 = "if tick ?r2 mod APAF_MONITOR_INTERVAL = 0
      then ?r2\<lparr>jain_index := jain_of ?ys,
               apaf_state := fairness_apaf_next_state (apaf_state ?r2) (jain_of ?ys)\<rparr> else ?r2"
    have v2: "rq_view ?r2 ?ys" by (rule rq_view_tasks_update [OF v1]) simp
    then have v3: "rq_view ?r3 ?ys" by simp
    note st = apaf_update_state_view [OF v2]
    show ?thesis using pick Some st close_tick [OF v3]
      by (simp add: apaf_up.update_all [OF v1 k] apaf_tick_def apaf_pick_next_task_def spec_tick_def
          spec_tasks_def apaf_control_def Let_def split: if_splits)
  qed
qed

interpretation apaf: tick_policy apaf_tick apaf_policy
proof unfold_locales
  fix w s assume "w \<in> set sched_weights"
  then have w: "15 \<le> unat w" "unat w \<le> 88761" using sched_weights_range by auto
  have i: "1 \<le> apaf_iters s" by (simp add: apaf_iters_def)
  show "unat (pol_vdelta apaf_policy s w) \<le> VDELTA_MAX" using newton_vdelta_bounds(1) [OF w i] by simp
  show "VDELTA_MIN \<le> unat (pol_vdelta apaf_policy s w)" using newton_vdelta_bounds(2) [OF w i] by simp
qed (simp_all add: apaf_tick_view apaf_decay_room)

end
