(* ===== verification/Metrics.thy ===== *)
theory Metrics
  imports Fairness Printf
begin

text \<open>
  src/apex-cfs/src/metrics.h and metrics.c: clearing the metrics buffer, recording one tick by
  comparing an approximate runqueue with an exact one, the CSV file, the printed summary and
  the name tables. Whether a file can be opened is a parameter; the messages of
  \<open>metrics_init\<close> about a bad count are not modelled.
\<close>

abbreviation (input) METRICS_MAX_TICKS :: int where "METRICS_MAX_TICKS \<equiv> 10000"

definition METRICS_CSV_HEADER :: string where
  "METRICS_CSV_HEADER = ''tick,logic,n_tasks,jain_index,'' @ ''max_error_pct,avg_error_pct,'' @
     ''ops_saved,apaf_state'' @ nl"

section \<open>The buffer\<close>

definition zero_metrics :: metrics where
  "zero_metrics = \<lparr>m_tick = 0, logic_used = 0, m_jain_index = 0, max_error_pct = 0,
                  avg_error_pct = 0, ops_saved = 0, m_apaf_state = 0\<rparr>"

definition metrics_init :: "metrics list ptr \<Rightarrow> int \<Rightarrow> metrics list ptr option" where
  "metrics_init buf n =
     (case buf of NULL \<Rightarrow> Some buf
      | Ref xs \<Rightarrow>
          if n \<le> 0 then Some buf
          else do {
            let count = (if METRICS_MAX_TICKS < n then METRICS_MAX_TICKS else n);
            xs \<leftarrow> for_loop 0 count (\<lambda>i ys. arr_set ys i zero_metrics) xs;
            xs \<leftarrow> for_loop 0 count (\<lambda>i ys. do {
              m \<leftarrow> arr_get ys i;
              arr_set ys i (m\<lparr>m_apaf_state := APAF_MEDIUM, m_jain_index := 1\<rparr>)
            }) xs;
            Some (Ref xs)
          })"

section \<open>One tick\<close>

text \<open>One iteration of the error loop over \<open>(max_error, sum_error, count)\<close>.\<close>

definition error_acc :: "u64 \<Rightarrow> u64 \<Rightarrow> f64 \<times> f64 \<times> int \<Rightarrow> f64 \<times> f64 \<times> int" where
  "error_acc approx_load exact_load s =
     (case s of (max_error, sum_error, count) \<Rightarrow>
        if 0 < exact_load then
          let err = \<bar>f_of_u64 approx_load - f_of_u64 exact_load\<bar> / f_of_u64 exact_load * dec 100 0
          in (if max_error < err then err else max_error, sum_error + err, count + 1)
        else s)"

definition metrics_ops_saved :: "int \<Rightarrow> int \<Rightarrow> int \<Rightarrow> u64" where
  "metrics_ops_saved mode state running =
     (if mode = 1 then word_of_int running
      else if mode = 2 then word_of_int running * 4
      else if mode = 3 then
        (if state = APAF_TIGHT then word_of_int running * 2
         else if state = APAF_MEDIUM then word_of_int running * 3
         else word_of_int running * 4)
      else 0)"

definition metrics_record :: "metrics ptr \<Rightarrow> cfs_rq ptr \<Rightarrow> cfs_rq ptr \<Rightarrow> metrics ptr option" where
  "metrics_record entry approx_rq exact_rq =
     (case (entry, approx_rq, exact_rq) of
        (Ref m, Ref a, Ref e) \<Rightarrow> do {
          let m = m\<lparr>m_tick := tick a, logic_used := approx_mode a, m_apaf_state := apaf_state a\<rparr>;
          j \<leftarrow> fairness_jain_index approx_rq;
          let m = m\<lparr>m_jain_index := j\<rparr>;
          (max_error, sum_error, count) \<leftarrow>
            for_loop 0 (nr_tasks a) (\<lambda>i s. do {
              xs \<leftarrow> c_deref (tasks a);
              t \<leftarrow> arr_get xs i;
              ys \<leftarrow> c_deref (tasks e);
              u \<leftarrow> arr_get ys i;
              Some (error_acc (load_avg t) (load_avg u) s)
            }) (0, 0, 0);
          let avg_error = (if 0 < count then sum_error / f_of_int count else 0);
          Some (Ref (m\<lparr>max_error_pct := max_error, avg_error_pct := avg_error,
                       ops_saved := metrics_ops_saved (approx_mode a) (apaf_state a) (nr_running a)\<rparr>))
        }
      | _ \<Rightarrow> Some entry)"

section \<open>Names\<close>

definition metrics_get_logic_name :: "int \<Rightarrow> string" where
  "metrics_get_logic_name mode =
     (if mode = 0 then ''EXACT'' else if mode = 1 then ''BSA'' else if mode = 2 then ''CLTI''
      else if mode = 3 then ''APAF'' else ''UNKNOWN'')"

definition metrics_get_state_name :: "int \<Rightarrow> int \<Rightarrow> string" where
  "metrics_get_state_name mode state =
     (if mode \<noteq> 3 then ''N/A''
      else if state = APAF_TIGHT then ''TIGHT'' else if state = APAF_MEDIUM then ''MEDIUM''
      else if state = APAF_LOOSE then ''LOOSE'' else ''UNKNOWN'')"

section \<open>The CSV file\<close>

definition csv_row :: "metrics \<Rightarrow> int \<Rightarrow> string" where
  "csv_row m n_tasks =
     fmt_llu (m_tick m) @ '','' @ metrics_get_logic_name (logic_used m) @ '','' @ fmt_d n_tasks @ '','' @
     fmt_f 6 (m_jain_index m) @ '','' @ fmt_f 6 (max_error_pct m) @ '','' @ fmt_f 6 (avg_error_pct m) @ '','' @
     fmt_llu (ops_saved m) @ '','' @ metrics_get_state_name (logic_used m) (m_apaf_state m) @ nl"

definition metrics_write_csv ::
  "(string \<Rightarrow> bool) \<Rightarrow> metrics list ptr \<Rightarrow> int \<Rightarrow> int \<Rightarrow> string ptr \<Rightarrow> io \<Rightarrow> io option" where
  "metrics_write_csv can_open buf n_entries n_tasks filename w =
     (case (buf, filename) of
        (Ref xs, Ref name) \<Rightarrow>
          if n_entries \<le> 0 then Some w
          else if \<not> can_open name then
            Some (put (''[ERROR] metrics_write_csv: cannot open '' @ name @ nl) w)
          else do {
            content \<leftarrow> for_loop 0 n_entries
              (\<lambda>i s. arr_get xs i \<bind> (\<lambda>m. Some (s @ csv_row m n_tasks))) METRICS_CSV_HEADER;
            Some (put (''Wrote '' @ fmt_d n_entries @ '' entries to '' @ name @ nl)
                      (w\<lparr>files := (files w)(name \<mapsto> content)\<rparr>))
          }
      | _ \<Rightarrow> Some w)"

section \<open>The summary\<close>

record summary =
  avg_jain :: f64
  min_jain :: f64
  overall_max_error :: f64
  overall_avg_error :: f64
  total_ops_saved :: u64
  transitions :: int

text \<open>One iteration of the summary loop; \<open>prev\<close> is the state of the entry before.\<close>

definition summary_acc :: "int \<Rightarrow> int \<Rightarrow> metrics \<Rightarrow> int \<Rightarrow> summary \<Rightarrow> summary" where
  "summary_acc logic_mode i m prev s =
     s\<lparr>avg_jain := avg_jain s + m_jain_index m,
       min_jain := (if m_jain_index m < min_jain s then m_jain_index m else min_jain s),
       overall_max_error := (if overall_max_error s < max_error_pct m then max_error_pct m
                             else overall_max_error s),
       overall_avg_error := overall_avg_error s + avg_error_pct m,
       total_ops_saved := total_ops_saved s + ops_saved m,
       transitions := (if logic_mode = 3 \<and> 0 < i \<and> m_apaf_state m \<noteq> prev then transitions s + 1
                       else transitions s)\<rparr>"

definition summary_of :: "metrics list \<Rightarrow> int \<Rightarrow> int \<Rightarrow> summary option" where
  "summary_of xs n_entries logic_mode = do {
     s \<leftarrow> for_loop 0 n_entries (\<lambda>i s. do {
         m \<leftarrow> arr_get xs i;
         prev \<leftarrow> (if logic_mode = 3 \<and> 0 < i
                  then arr_get xs (i - 1) \<bind> (\<lambda>m'. Some (m_apaf_state m')) else Some 0);
         Some (summary_acc logic_mode i m prev s)
       }) \<lparr>avg_jain = 0, min_jain = 1, overall_max_error = 0, overall_avg_error = 0,
           total_ops_saved = 0, transitions = 0\<rparr>;
     Some (s\<lparr>avg_jain := avg_jain s / f_of_int n_entries,
             overall_avg_error := overall_avg_error s / f_of_int n_entries\<rparr>)
   }"

definition metrics_print_summary :: "metrics list ptr \<Rightarrow> int \<Rightarrow> int \<Rightarrow> io \<Rightarrow> io option" where
  "metrics_print_summary buf n_entries n_tasks w =
     (case buf of NULL \<Rightarrow> Some w
      | Ref xs \<Rightarrow>
          if n_entries \<le> 0 then Some w
          else do {
            m0 \<leftarrow> arr_get xs 0;
            let logic_mode = logic_used m0;
            s \<leftarrow> summary_of xs n_entries logic_mode;
            Some (put (lines_of (
              [''================================'',
               ''APEX-CFS Experiment Summary'',
               ''================================'',
               ''Tasks:          '' @ fmt_d n_tasks,
               ''Ticks:          '' @ fmt_d n_entries,
               ''Logic:          '' @ metrics_get_logic_name logic_mode,
               ''--------------------------------'',
               ''Fairness (Jain's Index):'',
               ''  Average:      '' @ fmt_f 6 (avg_jain s),
               ''  Minimum:      '' @ fmt_f 6 (min_jain s),
               ''Error vs Exact:'',
               ''  Max observed: '' @ fmt_f 6 (overall_max_error s) @ ''%'',
               ''  Avg observed: '' @ fmt_f 6 (overall_avg_error s) @ ''%'',
               ''Operations saved:'',
               ''  Total:        '' @ fmt_llu (total_ops_saved s),
               ''  Per tick avg: '' @ fmt_f 2 (f_of_u64 (total_ops_saved s) / f_of_int n_entries)] @
              (if logic_mode = 3 then [''APAF transitions: '' @ fmt_d (transitions s)] else []) @
              [''================================''])) w)
          })"

section \<open>The buffer after clearing\<close>

definition clear_metrics :: metrics where
  "clear_metrics = zero_metrics\<lparr>m_apaf_state := APAF_MEDIUM, m_jain_index := 1\<rparr>"

lemma replicate_step:
  "k < n \<Longrightarrow> n \<le> length xs \<Longrightarrow> (replicate k z @ drop k xs)[k := z] = replicate (Suc k) z @ drop (Suc k) xs"
  by (rule nth_equalityI) (auto simp: nth_append nth_list_update less_Suc_eq simp del: replicate_Suc)

lemma for_loop_fill:
  assumes "n \<le> length xs"
    and "\<And>j ys. j < n \<Longrightarrow> length ys = length xs \<Longrightarrow> ys ! j = xs ! j \<Longrightarrow> body (int j) ys = Some (ys[j := z])"
  shows "for_loop 0 (int n) body xs = Some (replicate n z @ drop n xs)"
proof -
  let ?I = "\<lambda>j ys. ys = replicate j z @ drop j xs"
  have "\<exists>ys. for_loop (int 0) (int n) body xs = Some ys \<and> ?I n ys"
  proof (rule for_loop_invariant [where P = ?I])
    fix j ys assume j: "j < n" and I: "?I j ys"
    have "length ys = length xs" "ys ! j = xs ! j" using I j assms(1) by (simp_all add: nth_append)
    then show "\<exists>t'. body (int j) ys = Some t' \<and> ?I (Suc j) t'"
      using assms(2) [OF j] I replicate_step [OF j assms(1)] by simp
  qed simp_all
  then show ?thesis by simp
qed

lemma metrics_init_view:
  assumes "0 < n" and "min n METRICS_MAX_TICKS \<le> int (length xs)"
  shows "metrics_init (Ref xs) n =
    (let c = nat (min n METRICS_MAX_TICKS) in Some (Ref (replicate c clear_metrics @ drop c xs)))"
proof -
  define c where "c = nat (min n METRICS_MAX_TICKS)"
  have c: "(if METRICS_MAX_TICKS < n then METRICS_MAX_TICKS else n) = int c" "c \<le> length xs"
    using assms by (auto simp: c_def min_def)
  let ?ys = "replicate c zero_metrics @ drop c xs"
  have 1: "for_loop 0 (int c) (\<lambda>i ys. arr_set ys i zero_metrics) xs = Some ?ys"
    by (rule for_loop_fill [OF c(2)]) (use c(2) in simp)
  have "for_loop 0 (int c) (\<lambda>i ys. do {
      m \<leftarrow> arr_get ys i;
      arr_set ys i (m\<lparr>m_apaf_state := APAF_MEDIUM, m_jain_index := 1\<rparr>) }) ?ys
    = Some (replicate c clear_metrics @ drop c ?ys)"
    by (rule for_loop_fill) (use c(2) in \<open>simp_all add: nth_append clear_metrics_def\<close>)
  then show ?thesis using assms(1) 1 c by (simp add: metrics_init_def Let_def c_def [symmetric])
qed

section \<open>What one tick records\<close>

text \<open>The error of one load in percent, for a positive exact load.\<close>

definition load_error :: "u64 \<Rightarrow> u64 \<Rightarrow> f64" where
  "load_error a e = \<bar>f_of_u64 a - f_of_u64 e\<bar> / f_of_u64 e * dec 100 0"

definition error_fold :: "cfs_task list \<Rightarrow> cfs_task list \<Rightarrow> f64 \<times> f64 \<times> int" where
  "error_fold xs ys = fold (\<lambda>j. error_acc (load_avg (xs ! j)) (load_avg (ys ! j))) [0..<length xs] (0, 0, 0)"

lemma metrics_record_view:
  assumes a: "rq_view a xs" and e: "rq_view e ys" and len: "length xs \<le> length ys"
  shows "metrics_record (Ref m) (Ref a) (Ref e) =
    (case error_fold xs ys of (max_error, sum_error, count) \<Rightarrow>
      Some (Ref (m\<lparr>m_tick := tick a, logic_used := approx_mode a, m_apaf_state := apaf_state a,
         m_jain_index := jain_of xs, max_error_pct := max_error,
         avg_error_pct := (if 0 < count then sum_error / f_of_int count else 0),
         ops_saved := metrics_ops_saved (approx_mode a) (apaf_state a) (nr_running a)\<rparr>)))"
proof -
  have "for_loop (int 0) (int (length xs)) (\<lambda>i s. do {
              xs \<leftarrow> c_deref (tasks a);
              t \<leftarrow> arr_get xs i;
              ys \<leftarrow> c_deref (tasks e);
              u \<leftarrow> arr_get ys i;
              Some (error_acc (load_avg t) (load_avg u) s)
            }) (0, 0, 0) = Some (error_fold xs ys)"
    unfolding error_fold_def
    by (rule for_loop_fold) (use rq_view_tasks [OF a] rq_view_tasks [OF e] len in simp)
  then show ?thesis
    by (simp add: metrics_record_def fairness_jain_index_view [OF a] rq_view_nr [OF a] Let_def
        split: prod.split)
qed

text \<open>The error of a load is finite and not negative, and zero exactly for equal loads.\<close>

lemma f_of_u64_pos: "0 < e \<Longrightarrow> \<exists>q. f_of_u64 e = Fin q \<and> 1 \<le> q \<and> q \<le> 2 ^ 64"
proof -
  assume "0 < e"
  then have "1 \<le> uint e" by (simp add: word_less_def)
  then have "(1::rat) \<le> of_int (uint e)" by (metis of_int_1_le_iff)
  then have 1: "1 \<le> rnd (of_int (uint e))" by (rule rnd_ge_rep) simp
  have "(of_int (uint e) :: rat) \<le> of_int (2 ^ 64)"
    using uint_bounded [of e] by (intro of_int_le_iff [THEN iffD2]) simp
  then have "rnd (of_int (uint e)) \<le> 2 ^ 64"
    using rnd_powi [of 64] by (intro rnd_le_rep) simp_all
  then show ?thesis using 1 f_of_u64_Fin by blast
qed

lemma load_error_equal: "0 < e \<Longrightarrow> load_error e e = Fin 0"
proof -
  assume "0 < e"
  then obtain q where "f_of_u64 e = Fin q" "1 \<le> q" using f_of_u64_pos by blast
  moreover have "dec 100 0 = Fin 100" by (simp add: f64_eval)
  ultimately show ?thesis by (simp add: load_error_def)
qed

lemma load_error_Fin:
  assumes "0 < e"
  shows "\<exists>q. load_error a e = Fin q \<and> 0 \<le> q"
proof -
  obtain E where E: "f_of_u64 e = Fin E" "1 \<le> E" "E \<le> 2 ^ 64" using f_of_u64_pos [OF assms] by blast
  have "\<exists>A. f_of_u64 a = Fin A \<and> 0 \<le> A \<and> A \<le> 2 ^ 64"
  proof (cases "0 < a")
    case True
    then show ?thesis using f_of_u64_pos by fastforce
  next
    case False
    then have "a = 0" by (simp add: word_neq_0_conv [symmetric])
    then show ?thesis by (simp add: f_of_u64_def f_of_int_def)
  qed
  then obtain A where A: "f_of_u64 a = Fin A" "0 \<le> A" "A \<le> 2 ^ 64" by blast
  have "\<bar>A - E\<bar> \<le> 2 ^ 64" using A E by (simp add: abs_le_iff)
  then have d: "fround (A - E) = Fin (rnd (A - E))" "\<bar>rnd (A - E)\<bar> \<le> 2 ^ 64"
    using rnd_powi [of 64] by (auto intro!: fround_below rnd_abs_le simp del: power_numeral)
  define D where "D = \<bar>rnd (A - E)\<bar>"
  have D: "0 \<le> D" "D \<le> 2 ^ 64" using d(2) by (simp_all add: D_def)
  have "D / E \<le> D" using D E(2) by (simp add: divide_le_eq mult_left_mono [of 1 E D, simplified])
  then have q: "fround (D / E) = Fin (rnd (D / E))" "0 \<le> rnd (D / E)" "rnd (D / E) \<le> 2 ^ 64"
    using D E(2) fround_nonneg_below [of "D / E" 64] by (simp_all del: power_numeral)
  have "rnd (D / E) * 100 \<le> 2 ^ 71" using q(3) by simp
  then have "fround (rnd (D / E) * 100) = Fin (rnd (rnd (D / E) * 100))" "0 \<le> rnd (rnd (D / E) * 100)"
    using q(2) fround_nonneg_below [of "rnd (D / E) * 100" 71] by (simp_all del: power_numeral)
  moreover have "dec 100 0 = Fin 100" by (simp add: f64_eval)
  ultimately show ?thesis using A(1) E(1,2) d(1) q(1) by (simp add: load_error_def D_def)
qed

lemma error_acc_simp:
  "error_acc a e (mx, sm, c) =
    (if 0 < e then (if mx < load_error a e then load_error a e else mx, sm + load_error a e, c + 1)
     else (mx, sm, c))"
  by (simp add: error_acc_def load_error_def Let_def)

text \<open>The errors that count, and the recorded maximum of the first \<open>n\<close> of them.\<close>

definition error_at :: "cfs_task list \<Rightarrow> cfs_task list \<Rightarrow> nat \<Rightarrow> rat \<Rightarrow> bool" where
  "error_at xs ys j q \<longleftrightarrow> 0 < load_avg (ys ! j) \<and> load_error (load_avg (xs ! j)) (load_avg (ys ! j)) = Fin q"

lemma error_fold_max:
  "\<exists>M S c. fold (\<lambda>j. error_acc (load_avg (xs ! j)) (load_avg (ys ! j))) [0..<n] (0, 0, 0) = (Fin M, S, c) \<and>
     0 \<le> M \<and> (\<forall>j < n. \<forall>q. error_at xs ys j q \<longrightarrow> q \<le> M) \<and> (M = 0 \<or> (\<exists>j < n. error_at xs ys j M))"
proof (induction n)
  case 0
  then show ?case by (intro exI [of _ 0] exI conjI) auto
next
  case (Suc n)
  then obtain M S c where M: "fold (\<lambda>j. error_acc (load_avg (xs ! j)) (load_avg (ys ! j))) [0..<n] (0, 0, 0) = (Fin M, S, c)"
    "0 \<le> M" "\<forall>j < n. \<forall>q. error_at xs ys j q \<longrightarrow> q \<le> M" "M = 0 \<or> (\<exists>j < n. error_at xs ys j M)" by blast
  show ?case
  proof (cases "0 < load_avg (ys ! n)")
    case False
    then have "fold (\<lambda>j. error_acc (load_avg (xs ! j)) (load_avg (ys ! j))) [0..<Suc n] (0, 0, 0) = (Fin M, S, c)"
      using M(1) by (simp add: error_acc_simp)
    moreover have "\<not> error_at xs ys n q" for q using False by (simp add: error_at_def)
    ultimately show ?thesis using M(2-4) by (auto simp: less_Suc_eq)
  next
    case True
    then obtain q where q: "load_error (load_avg (xs ! n)) (load_avg (ys ! n)) = Fin q" "0 \<le> q"
      using load_error_Fin by blast
    then have at: "error_at xs ys n r \<longleftrightarrow> r = q" for r using True by (auto simp: error_at_def)
    have "fold (\<lambda>j. error_acc (load_avg (xs ! j)) (load_avg (ys ! j))) [0..<Suc n] (0, 0, 0)
        = (Fin (if M < q then q else M), S + Fin q, c + 1)"
      using M(1) True q(1) by (simp add: error_acc_simp)
    moreover have "\<forall>j < Suc n. \<forall>r. error_at xs ys j r \<longrightarrow> r \<le> (if M < q then q else M)"
    proof (intro allI impI)
      fix j r assume j: "j < Suc n" "error_at xs ys j r"
      show "r \<le> (if M < q then q else M)"
      proof (cases "j = n")
        case False
        then have "r \<le> M" using M(3) j by (auto simp: less_Suc_eq)
        then show ?thesis by simp
      qed (use at j in auto)
    qed
    moreover have "(if M < q then q else M) = 0 \<or> (\<exists>j < Suc n. error_at xs ys j (if M < q then q else M))"
      using M(4) at by (auto simp: less_Suc_eq)
    ultimately show ?thesis using M(2) q(2) by (intro exI conjI) auto
  qed
qed

lemma error_fold_equal:
  assumes "\<And>j. j < n \<Longrightarrow> load_avg (xs ! j) = load_avg (ys ! j)"
  shows "\<exists>c. fold (\<lambda>j. error_acc (load_avg (xs ! j)) (load_avg (ys ! j))) [0..<n] (0, 0, 0) = (Fin 0, Fin 0, int c) \<and> c \<le> n"
  using assms
proof (induction n)
  case (Suc n)
  then obtain c where c: "fold (\<lambda>j. error_acc (load_avg (xs ! j)) (load_avg (ys ! j))) [0..<n] (0, 0, 0) = (Fin 0, Fin 0, int c)"
    "c \<le> n" by auto
  have eq: "load_avg (xs ! n) = load_avg (ys ! n)" using Suc.prems by simp
  show ?case
  proof (cases "0 < load_avg (ys ! n)")
    case True
    then show ?thesis using c eq by (intro exI [of _ "Suc c"]) (simp add: error_acc_simp load_error_equal)
  next
    case False
    then show ?thesis using c by (intro exI [of _ c]) (simp add: error_acc_simp)
  qed
qed simp

text \<open>
  C20. Recording a tick is defined for two well-formed runqueues of the same length. The recorded
  maximum is a finite non-negative double, no task whose exact load is positive has a larger
  error, and it is 0 or the error of such a task. Tasks whose exact load is 0 do not count,
  whatever their approximate load.
\<close>

theorem metrics_record_max:
  assumes "rq_view a xs" and "rq_view e ys" and "length xs = length ys"
  shows "\<exists>m' M. metrics_record (Ref m) (Ref a) (Ref e) = Some (Ref m') \<and>
    max_error_pct m' = Fin M \<and> 0 \<le> M \<and>
    (\<forall>j < length xs. \<forall>q. error_at xs ys j q \<longrightarrow> q \<le> M) \<and>
    (M = 0 \<or> (\<exists>j < length xs. error_at xs ys j M)) \<and>
    m_tick m' = tick a \<and> logic_used m' = approx_mode a \<and> m_apaf_state m' = apaf_state a \<and>
    m_jain_index m' = jain_of xs"
proof -
  obtain M S c where M: "error_fold xs ys = (Fin M, S, c)" "0 \<le> M"
    "\<forall>j < length xs. \<forall>q. error_at xs ys j q \<longrightarrow> q \<le> M" "M = 0 \<or> (\<exists>j < length xs. error_at xs ys j M)"
    using error_fold_max [of xs ys "length xs"] unfolding error_fold_def by blast
  then show ?thesis using metrics_record_view [OF assms(1,2), of m] assms(3)
    by simp
qed

definition sample_task :: "u64 \<Rightarrow> u64 \<Rightarrow> cfs_task" where
  "sample_task l x = \<lparr>t_id = 0, nice = 0, weight = 1024, vruntime = 0, load_avg = l, load_sum = 0,
                     exec_runtime = x, runnable = 1\<rparr>"

definition sample_rq :: "cfs_task list \<Rightarrow> int \<Rightarrow> cfs_rq" where
  "sample_rq xs mode = \<lparr>tasks = Ref xs, nr_tasks = int (length xs), nr_running = int (length xs),
     clock = 0, tick = 0, approx_mode = mode, apaf_state = APAF_MEDIUM, jain_index = 1\<rparr>"

lemma sample_view: "rq_view (sample_rq xs mode) xs"
  by (simp add: rq_view_def sample_rq_def)

theorem metrics_record_max_witness:
  "\<exists>m' M. metrics_record (Ref zero_metrics) (Ref (sample_rq [sample_task 90 0] 1))
      (Ref (sample_rq [sample_task 100 0] 0)) = Some (Ref m') \<and> max_error_pct m' = Fin M \<and> 0 < M"
proof -
  have "\<exists>q. load_error 90 100 = Fin q \<and> 0 < q" by (simp add: load_error_def f64_eval)
  then obtain q where q: "error_at [sample_task 90 0] [sample_task 100 0] 0 q" "0 < q"
    by (auto simp: error_at_def sample_task_def)
  then show ?thesis
    using metrics_record_max [OF sample_view sample_view, of "[sample_task 90 0]" "[sample_task 100 0]" zero_metrics 1 0]
    by (auto intro: less_le_trans)
qed

lemma zero_div_count: "0 < k \<Longrightarrow> Fin 0 / f_of_int (int k) = Fin 0"
proof -
  assume "0 < k"
  then have "1 \<le> rnd (of_nat k)" using rnd_ge_rep [of 1 "of_nat k"] by simp
  then show ?thesis by (auto simp: f_of_int_def fround_def Let_def)
qed

text \<open>Equal load averages give no error at all.\<close>

lemma metrics_record_zero:
  assumes "rq_view a xs" and "rq_view e ys" and "map load_avg xs = map load_avg ys"
  shows "\<exists>m'. metrics_record (Ref m) (Ref a) (Ref e) = Some (Ref m') \<and>
    max_error_pct m' = 0 \<and> avg_error_pct m' = 0 \<and>
    ops_saved m' = metrics_ops_saved (approx_mode a) (apaf_state a) (nr_running a)"
proof -
  have len: "length xs = length ys" using map_eq_imp_length_eq [OF assms(3)] .
  have "load_avg (xs ! j) = load_avg (ys ! j)" if "j < length xs" for j
    using arg_cong [OF assms(3), of "\<lambda>l. l ! j"] that len by simp
  then obtain c where "error_fold xs ys = (Fin 0, Fin 0, int c)" "c \<le> length xs"
    using error_fold_equal [of "length xs" xs ys] unfolding error_fold_def by blast
  then show ?thesis using metrics_record_view [OF assms(1,2), of m] len zero_div_count by auto
qed

text \<open>
  A runqueue whose load averages equal those of the exact runqueue is recorded with
  maximal and average error exactly 0, and with the operations saved of its mode.
\<close>

theorem metrics_record_equal:
  assumes "rq_view a xs" and "rq_view e ys" and "map load_avg xs = map load_avg ys"
  shows "\<exists>m'. metrics_record (Ref m) (Ref a) (Ref e) = Some (Ref m') \<and>
    max_error_pct m' = 0 \<and> avg_error_pct m' = 0 \<and>
    ops_saved m' = metrics_ops_saved (approx_mode a) (apaf_state a) (nr_running a)"
  by (rule metrics_record_zero [OF assms])

theorem metrics_record_equal_witness:
  "\<exists>m'. metrics_record (Ref clear_metrics) (Ref (sample_rq [sample_task 90 5, sample_task 7 0] 2))
      (Ref (sample_rq [sample_task 90 0, sample_task 7 3] 0)) = Some (Ref m') \<and>
    max_error_pct m' = 0 \<and> avg_error_pct m' = 0 \<and> ops_saved m' = 8"
  using metrics_record_equal [OF sample_view sample_view, of "[sample_task 90 5, sample_task 7 0]"
      "[sample_task 90 0, sample_task 7 3]" clear_metrics 2 0]
  by (simp add: sample_task_def) (simp add: metrics_ops_saved_def sample_rq_def)

text \<open>
  Clearing a buffer of at least \<open>n\<close> entries resets its first \<open>n\<close> entries (10000 at most) to
  tick 0, no errors, the MEDIUM state and index 1, and leaves the entries behind them alone.
\<close>

theorem metrics_init_clears:
  assumes "0 < n" and "min n METRICS_MAX_TICKS \<le> int (length xs)"
  shows "\<exists>ys. metrics_init (Ref xs) n = Some (Ref ys) \<and> length ys = length xs \<and>
    (\<forall>j < length xs. ys ! j = (if int j < min n METRICS_MAX_TICKS
       then \<lparr>m_tick = 0, logic_used = 0, m_jain_index = 1, max_error_pct = 0, avg_error_pct = 0,
             ops_saved = 0, m_apaf_state = APAF_MEDIUM\<rparr>
       else xs ! j))"
proof -
  define c where "c = nat (min n METRICS_MAX_TICKS)"
  have c: "c \<le> length xs" "int j < min n METRICS_MAX_TICKS \<longleftrightarrow> j < c" for j
    using assms by (auto simp: c_def)
  have "metrics_init (Ref xs) n = Some (Ref (replicate c clear_metrics @ drop c xs))"
    using metrics_init_view [OF assms] by (simp add: c_def Let_def)
  then show ?thesis
    unfolding c(2) using c(1)
    by (intro exI [of _ "replicate c clear_metrics @ drop c xs"])
      (simp add: nth_append clear_metrics_def zero_metrics_def)
qed

theorem metrics_init_clears_witness:
  "\<exists>ys. metrics_init (Ref [zero_metrics, zero_metrics, zero_metrics]) 2 = Some (Ref ys) \<and>
     length ys = 3 \<and> m_jain_index (ys ! 1) = 1 \<and> ys ! 2 = zero_metrics"
proof -
  obtain ys where "metrics_init (Ref [zero_metrics, zero_metrics, zero_metrics]) 2 = Some (Ref ys)"
    "length ys = 3" "\<forall>j < 3. ys ! j = (if int j < 2
       then \<lparr>m_tick = 0, logic_used = 0, m_jain_index = 1, max_error_pct = 0, avg_error_pct = 0,
             ops_saved = 0, m_apaf_state = APAF_MEDIUM\<rparr>
       else [zero_metrics, zero_metrics, zero_metrics] ! j)"
    using metrics_init_clears [of 2 "[zero_metrics, zero_metrics, zero_metrics]"] by auto
  then show ?thesis by (intro exI [of _ ys]) simp
qed

section \<open>The lines of the CSV file\<close>

text \<open>A reader's view: the fields of a line between its commas.\<close>

fun csv_fields :: "string \<Rightarrow> string list" where
  "csv_fields [] = [[]]"
| "csv_fields (c # s) =
     (if c = CHR '','' then [] # csv_fields s
      else (case csv_fields s of [] \<Rightarrow> [[c]] | f # fs \<Rightarrow> (c # f) # fs))"

lemma csv_fields_cons: "CHR '','' \<notin> set f \<Longrightarrow> csv_fields (f @ CHR '','' # s) = f # csv_fields s"
  by (induction f) auto

lemma csv_fields_last: "CHR '','' \<notin> set f \<Longrightarrow> csv_fields f = [f]"
  by (induction f) auto

lemma no_comma_digits: "set s \<subseteq> set ''0123456789'' \<Longrightarrow> CHR '','' \<notin> set s"
  by auto

lemma no_comma_numbers [simp]:
  "CHR '','' \<notin> set (fmt_nat n)" "CHR '','' \<notin> set (fmt_d i)" "CHR '','' \<notin> set (fmt_llu w)"
  "CHR '','' \<notin> set (fmt_f k x)"
proof -
  show n: "CHR '','' \<notin> set (fmt_nat n)" for n by (rule no_comma_digits [OF set_fmt_nat])
  show "CHR '','' \<notin> set (fmt_d i)" by (simp add: fmt_d_def n)
  show "CHR '','' \<notin> set (fmt_llu w)" by (simp add: fmt_llu_def n)
  show "CHR '','' \<notin> set (fmt_f k x)"
    by (cases "(k, x)" rule: fmt_f.cases) (auto simp: Let_def n no_comma_digits [OF set_fmt_pad])
qed

lemma no_comma_names [simp]:
  "CHR '','' \<notin> set (metrics_get_logic_name m)" "CHR '','' \<notin> set (metrics_get_state_name m s)"
  by (simp_all add: metrics_get_logic_name_def metrics_get_state_name_def)

text \<open>
  Every row of the CSV file has exactly the eight fields of the header, in its order,
  whatever the recorded values (infinities and NaN included), and the tick and the
  operations saved read back from their fields as the recorded numbers.
\<close>

theorem csv_row_fields:
  "csv_fields (csv_row m n) =
     [fmt_llu (m_tick m), metrics_get_logic_name (logic_used m), fmt_d n, fmt_f 6 (m_jain_index m),
      fmt_f 6 (max_error_pct m), fmt_f 6 (avg_error_pct m), fmt_llu (ops_saved m),
      metrics_get_state_name (logic_used m) (m_apaf_state m) @ nl] \<and>
   length (csv_fields (csv_row m n)) = length (csv_fields METRICS_CSV_HEADER) \<and>
   read_nat (csv_fields (csv_row m n) ! 0) = Some (unat (m_tick m)) \<and>
   read_nat (csv_fields (csv_row m n) ! 6) = Some (unat (ops_saved m))"
proof -
  have "CHR '','' \<notin> set nl" by (simp add: nl_def)
  then have f: "csv_fields (csv_row m n) =
     [fmt_llu (m_tick m), metrics_get_logic_name (logic_used m), fmt_d n, fmt_f 6 (m_jain_index m),
      fmt_f 6 (max_error_pct m), fmt_f 6 (avg_error_pct m), fmt_llu (ops_saved m),
      metrics_get_state_name (logic_used m) (m_apaf_state m) @ nl]"
    by (simp add: csv_row_def csv_fields_cons csv_fields_last)
  moreover have "length (csv_fields METRICS_CSV_HEADER) = 8"
    by (simp add: METRICS_CSV_HEADER_def nl_def)
  ultimately show ?thesis by (simp add: fmt_llu_def read_fmt_nat)
qed

lemma metrics_write_csv_view:
  assumes "0 < n" and "n \<le> int (length xs)"
  shows "\<exists>w'. metrics_write_csv can_open (Ref xs) n n_tasks (Ref name) w = Some w' \<and>
    files w' = (if can_open name
      then (files w)(name \<mapsto> METRICS_CSV_HEADER @ concat (map (\<lambda>m. csv_row m n_tasks) (take (nat n) xs)))
      else files w)"
proof -
  have loop: "for_loop 0 (int k) (\<lambda>i s. arr_get xs i \<bind> (\<lambda>m. Some (s @ csv_row m n_tasks))) h
      = Some (h @ concat (map (\<lambda>m. csv_row m n_tasks) (take k xs)))" if "k \<le> length xs" for k h
  proof -
    have "\<exists>s. for_loop (int 0) (int k) (\<lambda>i s. arr_get xs i \<bind> (\<lambda>m. Some (s @ csv_row m n_tasks))) h = Some s
        \<and> s = h @ concat (map (\<lambda>m. csv_row m n_tasks) (take k xs))"
      by (rule for_loop_invariant [where P = "\<lambda>j s. s = h @ concat (map (\<lambda>m. csv_row m n_tasks) (take j xs))"])
        (use that in \<open>auto simp: take_Suc_conv_app_nth\<close>)
    then show ?thesis by simp
  qed
  show ?thesis using assms loop [of "nat n" METRICS_CSV_HEADER]
    by (cases "can_open name") (simp_all add: metrics_write_csv_def)
qed

text \<open>
  Writing the file succeeds exactly when it can be opened: then its content is the header
  and one row per entry in order, replacing what the file held, and every other file is as it
  was; otherwise no file changes.
\<close>

theorem metrics_write_csv_content:
  assumes "0 < n" and "n \<le> int (length xs)"
  shows "\<exists>w'. metrics_write_csv can_open (Ref xs) n n_tasks (Ref name) w = Some w' \<and>
    files w' = (if can_open name
      then (files w)(name \<mapsto> METRICS_CSV_HEADER @ concat (map (\<lambda>m. csv_row m n_tasks) (take (nat n) xs)))
      else files w)"
  by (rule metrics_write_csv_view [OF assms])

theorem metrics_write_csv_content_witness:
  "\<exists>w'. metrics_write_csv (\<lambda>_. True) (Ref [clear_metrics, clear_metrics]) 1 3 (Ref ''out.csv'')
      \<lparr>stdout = [], files = Map.empty\<rparr> = Some w' \<and>
    files w' ''out.csv'' = Some (METRICS_CSV_HEADER @ csv_row clear_metrics 3)"
  using metrics_write_csv_content [of 1 "[clear_metrics, clear_metrics]" "\<lambda>_. True" 3 "''out.csv''"
      "\<lparr>stdout = [], files = Map.empty\<rparr>"] by auto

section \<open>What is printed\<close>

lemma summary_of_defined:
  assumes "0 < n" and "n \<le> int (length xs)"
  obtains s where "summary_of xs n mode = Some s"
proof -
  have "nat n \<le> length xs" and n: "n = int (nat n)" using assms by simp_all
  let ?b = "\<lambda>i s. do {
      m \<leftarrow> arr_get xs i;
      prev \<leftarrow> (if mode = 3 \<and> 0 < i then arr_get xs (i - 1) \<bind> (\<lambda>m'. Some (m_apaf_state m')) else Some 0);
      Some (summary_acc mode i m prev s)
    }"
  let ?s0 = "\<lparr>avg_jain = 0, min_jain = 1, overall_max_error = 0, overall_avg_error = 0,
           total_ops_saved = 0, transitions = 0\<rparr>"
  have step: "\<exists>t'. ?b (int j) t = Some t' \<and> True" if "j < nat n" for j t
  proof -
    have "j < length xs" using that assms(2) by linarith
    moreover have "0 < j \<Longrightarrow> arr_get xs (int j - 1) = Some (xs ! (j - 1))"
      using \<open>j < length xs\<close> arr_get_nat [of "j - 1" xs] by (simp add: of_nat_diff del: arr_get_nat)
    ultimately show ?thesis by simp
  qed
  obtain s where "for_loop 0 (int (nat n)) ?b ?s0 = Some s"
    by (rule for_loop_invariant0 [of "\<lambda>_ _. True" ?s0 "nat n" ?b]) (use step in blast)+
  then show ?thesis using n that by (simp add: summary_of_def)
qed

text \<open>The summary of a part of the buffer is defined and begins with a ruler.\<close>

lemma metrics_print_summary_says:
  assumes "0 < n" and "n \<le> int (length xs)"
  obtains s where "metrics_print_summary (Ref xs) n k w = Some (put s w)" and "take 1 s = ''=''"
proof -
  have m0: "arr_get xs 0 = Some (xs ! 0)" using assms arr_get_nat [of 0 xs] by (cases xs) simp_all
  obtain s where s: "summary_of xs n (logic_used (xs ! 0)) = Some s"
    by (rule summary_of_defined [OF assms])
  have "\<exists>ls. metrics_print_summary (Ref xs) n k w = Some (put (lines_of (''================================'' # ls)) w)"
    using assms(1) m0 s by (intro exI) (simp add: metrics_print_summary_def Let_def)
  then show ?thesis using that by (auto simp: lines_of_def)
qed

lemma metrics_write_csv_says:
  assumes "metrics_write_csv can_open (Ref xs) n k (Ref name) w = Some w'" and "0 < n"
  obtains s where "stdout w' = stdout w @ (if can_open name then CHR ''W'' # s else CHR ''['' # s)"
  using assms by (auto simp: metrics_write_csv_def put_def split: if_splits bind_splits)

end
