(* ===== verification/Exp1_Equal_Weight.thy ===== *)
theory Exp1_Equal_Weight
  imports Approx_CLTI Approx_APAF Metrics
begin

text \<open>
  src/apex-cfs/experiments/exp1_equal_weight.c, function \<open>run_experiment\<close>: equal-weight tasks
  under the exact policy and under one other policy side by side, a metrics entry per tick,
  and the aggregated result. What \<open>malloc\<close> returns is a parameter: a block of any content and
  the asked size, or NULL. The runqueue and the caller's array of tasks are the same memory,
  so the array is read through the runqueue.
\<close>

record exp1_result =
  e1_n_tasks :: int
  e1_logic :: int
  e1_ticks :: int
  e1_final_jain :: f64
  e1_min_jain :: f64
  e1_avg_jain :: f64
  e1_max_error_pct :: f64
  e1_avg_error_pct :: f64
  e1_total_ops_saved :: u64
  e1_final_apaf_state :: int
  e1_final_load_avg :: u64

definition exp1_zero :: exp1_result where
  "exp1_zero = \<lparr>e1_n_tasks = 0, e1_logic = 0, e1_ticks = 0, e1_final_jain = 0, e1_min_jain = 0,
    e1_avg_jain = 0, e1_max_error_pct = 0, e1_avg_error_pct = 0, e1_total_ops_saved = 0,
    e1_final_apaf_state = 0, e1_final_load_avg = 0\<rparr>"

text \<open>The tick function of a logic number, the switch of every experiment.\<close>

definition approx_tick :: "int \<Rightarrow> cfs_rq ptr \<Rightarrow> cfs_rq ptr option" where
  "approx_tick logic =
     (if logic = 0 then exact_tick else if logic = 1 then bsa_tick else if logic = 2 then clti_tick
      else if logic = 3 then apaf_tick else exact_tick)"

text \<open>One iteration of the main loop: both runqueues tick, then the entry is recorded.\<close>

definition exp_step :: "int \<Rightarrow> int \<Rightarrow> cfs_rq ptr \<times> cfs_rq ptr \<times> metrics list
    \<Rightarrow> (cfs_rq ptr \<times> cfs_rq ptr \<times> metrics list) option" where
  "exp_step logic i s =
     (case s of (e, a, mbuf) \<Rightarrow> do {
        e \<leftarrow> exact_tick e;
        a \<leftarrow> approx_tick logic a;
        m \<leftarrow> arr_get mbuf i;
        p \<leftarrow> metrics_record (Ref m) a e;
        m \<leftarrow> c_deref p;
        mbuf \<leftarrow> arr_set mbuf i m;
        Some (e, a, mbuf)
      })"

text \<open>One iteration of the aggregation over \<open>(sum_jain, sum_err, total_ops, min_jain, max_err)\<close>.\<close>

definition exp1_acc :: "metrics \<Rightarrow> f64 \<times> f64 \<times> u64 \<times> f64 \<times> f64 \<Rightarrow> f64 \<times> f64 \<times> u64 \<times> f64 \<times> f64" where
  "exp1_acc m s = (case s of (sum_jain, sum_err, total_ops, mn, mx) \<Rightarrow>
     (sum_jain + m_jain_index m, sum_err + avg_error_pct m, total_ops + ops_saved m,
      if m_jain_index m < mn then m_jain_index m else mn,
      if mx < max_error_pct m then max_error_pct m else mx))"

text \<open>The file name, cut to the 64 bytes of its buffer.\<close>

definition exp1_file :: "int \<Rightarrow> int \<Rightarrow> string" where
  "exp1_file n logic = take 63 (''results/exp1_n'' @ fmt_d n @ ''_'' @ metrics_get_logic_name logic @ ''.csv'')"

definition run_experiment ::
  "cfs_task list ptr \<Rightarrow> cfs_task list ptr \<Rightarrow> metrics list ptr \<Rightarrow> (string \<Rightarrow> bool)
    \<Rightarrow> int \<Rightarrow> int \<Rightarrow> int \<Rightarrow> io \<Rightarrow> (exp1_result \<times> io) option" where
  "run_experiment exact_mem approx_mem metrics_mem can_open n_tasks logic ticks w =
     (let result = exp1_zero\<lparr>e1_n_tasks := n_tasks, e1_logic := logic, e1_ticks := ticks\<rparr>
      in case (exact_mem, approx_mem, metrics_mem) of
        (Ref xs, Ref ys, Ref _) \<Rightarrow> do {
          (xs, ys) \<leftarrow> for_loop 0 n_tasks (\<lambda>i (xs, ys). do {
              t \<leftarrow> task_create i 0;
              xs \<leftarrow> arr_set xs i t;
              u \<leftarrow> task_create i 0;
              ys \<leftarrow> arr_set ys i u;
              Some (xs, ys)
            }) (xs, ys);
          exact_rq \<leftarrow> rq_init (Ref xs) n_tasks 0;
          approx_rq \<leftarrow> rq_init (Ref ys) n_tasks logic;
          p \<leftarrow> metrics_init metrics_mem ticks;
          mbuf \<leftarrow> c_deref p;
          (e, a, mbuf) \<leftarrow> for_loop 0 ticks (exp_step logic) (Ref exact_rq, Ref approx_rq, mbuf);
          (sum_jain, sum_err, total_ops, mn, mx) \<leftarrow>
            for_loop 0 ticks (\<lambda>i s. arr_get mbuf i \<bind> (\<lambda>m. Some (exp1_acc m s))) (0, 0, 0, 1, 0);
          rq \<leftarrow> c_deref a;
          ts \<leftarrow> c_deref (tasks rq);
          t0 \<leftarrow> arr_get ts 0;
          let filename = exp1_file n_tasks logic;
          w \<leftarrow> metrics_write_csv can_open (Ref mbuf) ticks n_tasks (Ref filename) w;
          Some (result\<lparr>e1_final_jain := jain_index rq, e1_min_jain := mn,
                       e1_avg_jain := sum_jain / f_of_int ticks, e1_max_error_pct := mx,
                       e1_avg_error_pct := sum_err / f_of_int ticks,
                       e1_total_ops_saved := total_ops, e1_final_apaf_state := apaf_state rq,
                       e1_final_load_avg := load_avg t0\<rparr>, w)
        }
      | _ \<Rightarrow> Some (result, put (''ERROR: allocation failed for N='' @ fmt_d n_tasks @ '' logic='' @ fmt_d logic @ nl) w))"

section \<open>The setup\<close>

definition nice0_task :: "int \<Rightarrow> cfs_task" where
  "nice0_task i = \<lparr>t_id = i, nice = 0, weight = 1024, vruntime = 0, load_avg = 0, load_sum = 0,
                  exec_runtime = 0, runnable = 1\<rparr>"

lemma task_create_nice0: "task_create i 0 = Some (nice0_task i)"
  by (simp add: task_create_def arr_get_def nice_to_weight_def nice0_task_def)

lemma exp1_setup:
  assumes "length xs = n" and "length ys = n"
  shows "for_loop 0 (int n) (\<lambda>i (xs, ys). do {
              t \<leftarrow> task_create i 0;
              xs \<leftarrow> arr_set xs i t;
              u \<leftarrow> task_create i 0;
              ys \<leftarrow> arr_set ys i u;
              Some (xs, ys)
            }) (xs, ys) =
    Some (map (\<lambda>i. nice0_task (int i)) [0..<n], map (\<lambda>i. nice0_task (int i)) [0..<n])"
proof -
  let ?new = "\<lambda>j zs. map (\<lambda>i. nice0_task (int i)) [0..<j] @ drop j zs"
  have upd: "(?new j zs)[j := nice0_task (int j)] = ?new (Suc j) zs" if "j < n" "length zs = n" for j zs
    using that by (intro nth_equalityI) (auto simp: nth_append nth_list_update less_Suc_eq)
  have "\<exists>s'. for_loop (int 0) (int n) (\<lambda>i (xs, ys). do {
              t \<leftarrow> task_create i 0;
              xs \<leftarrow> arr_set xs i t;
              u \<leftarrow> task_create i 0;
              ys \<leftarrow> arr_set ys i u;
              Some (xs, ys)
            }) (xs, ys) = Some s' \<and> s' = (?new n xs, ?new n ys)"
    by (rule for_loop_invariant [where P = "\<lambda>j s. s = (?new j xs, ?new j ys)"])
      (use assms upd in \<open>auto simp: task_create_nice0\<close>)
  then show ?thesis using assms by simp
qed

section \<open>The main loop\<close>

text \<open>Every tick function keeps a well-formed runqueue and its number of tasks.\<close>

lemma approx_tick_view:
  assumes "rq_view rq xs"
  shows "\<exists>rq' xs'. approx_tick logic (Ref rq) = Some (Ref rq') \<and> rq_view rq' xs' \<and> length xs' = length xs"
proof -
  have "\<exists>rq' xs'. tk (Ref rq) = Some (Ref rq') \<and> rq_view rq' xs' \<and> length xs' = length xs"
    if "tk \<in> {exact_tick, bsa_tick, clti_tick, apaf_tick}" for tk
    using that exact.refines [OF assms] exact.view_spec_tick [OF assms]
      bsa.refines [OF assms] bsa.view_spec_tick [OF assms]
      clti.refines [OF assms] clti.view_spec_tick [OF assms]
      apaf.refines [OF assms] apaf.view_spec_tick [OF assms] length_spec_tasks
    by (elim insertE emptyE) blast+
  then show ?thesis by (simp add: approx_tick_def)
qed

lemma metrics_record_defined:
  assumes "rq_view a xs" and "rq_view e ys" and "length xs = length ys"
  shows "\<exists>m'. metrics_record (Ref m) (Ref a) (Ref e) = Some (Ref m')"
  using metrics_record_view [OF assms(1,2), of m] assms(3) by (auto split: prod.splits)

definition exp_state :: "nat \<Rightarrow> nat \<Rightarrow> cfs_rq ptr \<times> cfs_rq ptr \<times> metrics list \<Rightarrow> bool" where
  "exp_state n k s \<longleftrightarrow> (\<exists>e a mbuf xs ys. s = (Ref e, Ref a, mbuf) \<and> rq_view e xs \<and> rq_view a ys \<and>
     length xs = n \<and> length ys = n \<and> length mbuf = k)"

lemma exp_step_defined:
  assumes "exp_state n k s" and "j < k"
  shows "\<exists>s'. exp_step logic (int j) s = Some s' \<and> exp_state n k s'"
proof -
  obtain e a mbuf xs ys where s: "s = (Ref e, Ref a, mbuf)" "rq_view e xs" "rq_view a ys"
    "length xs = n" "length ys = n" "length mbuf = k" using assms(1) by (auto simp: exp_state_def)
  note e' = exact.refines [OF s(2)] exact.view_spec_tick [OF s(2)]
  obtain a' ys' where a': "approx_tick logic (Ref a) = Some (Ref a')" "rq_view a' ys'" "length ys' = n"
    using approx_tick_view [OF s(3)] s(5) by metis
  obtain m' where "metrics_record (Ref (mbuf ! j)) (Ref a') (Ref (spec_tick exact_policy e xs)) = Some (Ref m')"
    using metrics_record_defined [OF a'(2) e'(2)] a'(3) s(4) by auto
  moreover have "exp_state n k (Ref (spec_tick exact_policy e xs), Ref a', mbuf[j := m'])" for m'
    unfolding exp_state_def using e'(2) a'(2,3) s(4,6) length_spec_tasks by (metis length_list_update)
  ultimately show ?thesis using s e'(1) a'(1) assms(2) by (simp add: exp_step_def)
qed

lemma exp_loop_defined:
  assumes "exp_state n k s"
  shows "\<exists>s'. for_loop 0 (int k) (exp_step logic) s = Some s' \<and> exp_state n k s'"
  using for_loop_invariant [of "\<lambda>_. exp_state n k" 0 s k "exp_step logic"] assms exp_step_defined by auto

text \<open>With the exact policy on both sides the two runqueues hold the same tasks throughout.\<close>

definition exp_same :: "nat \<Rightarrow> cfs_rq ptr \<times> cfs_rq ptr \<times> metrics list \<Rightarrow> bool" where
  "exp_same j s \<longleftrightarrow> (\<exists>e a mbuf xs. s = (Ref e, Ref a, mbuf) \<and> rq_view e xs \<and> rq_view a xs \<and>
     (\<forall>i < j. i < length mbuf \<longrightarrow> max_error_pct (mbuf ! i) = 0 \<and> avg_error_pct (mbuf ! i) = 0))"

lemma exp_step_same:
  assumes "exp_same j s" and "exp_state n k s" and "j < k" and "approx_tick logic = exact_tick"
  shows "\<exists>s'. exp_step logic (int j) s = Some s' \<and> exp_same (Suc j) s' \<and> exp_state n k s'"
proof -
  obtain e a mbuf xs where s: "s = (Ref e, Ref a, mbuf)" "rq_view e xs" "rq_view a xs"
    "\<forall>i < j. i < length mbuf \<longrightarrow> max_error_pct (mbuf ! i) = 0 \<and> avg_error_pct (mbuf ! i) = 0"
    using assms(1) by (auto simp: exp_same_def)
  have len: "length mbuf = k" "length xs = n" using assms(2) s rq_view_unique by (auto simp: exp_state_def)
  note e' = exact.refines [OF s(2)] exact.view_spec_tick [OF s(2)]
  note a' = exact.refines [OF s(3)] exact.view_spec_tick [OF s(3)]
  have eq: "spec_tasks exact_policy (apaf_state a) xs = spec_tasks exact_policy (apaf_state e) xs"
    by (simp add: spec_tasks_def run_at_def split: option.split)
  obtain m' where m': "metrics_record (Ref (mbuf ! j)) (Ref (spec_tick exact_policy a xs))
      (Ref (spec_tick exact_policy e xs)) = Some (Ref m')" "max_error_pct m' = 0" "avg_error_pct m' = 0"
    using metrics_record_zero [OF a'(2) e'(2)] eq by auto
  have "exp_step logic (int j) s = Some (Ref (spec_tick exact_policy e xs), Ref (spec_tick exact_policy a xs), mbuf[j := m'])"
    using s(1) e'(1) a'(1) m'(1) len assms(3,4) by (simp add: exp_step_def)
  moreover have "exp_same (Suc j) (Ref (spec_tick exact_policy e xs), Ref (spec_tick exact_policy a xs), mbuf[j := m'])"
    using e'(2) a'(2) eq s(4) m'(2,3) by (auto simp: exp_same_def nth_list_update less_Suc_eq)
  moreover have "exp_state n k (Ref (spec_tick exact_policy e xs), Ref (spec_tick exact_policy a xs), mbuf[j := m'])"
    unfolding exp_state_def using e'(2) a'(2) len length_spec_tasks by (metis length_list_update)
  ultimately show ?thesis by blast
qed

section \<open>The whole run\<close>

text \<open>A run is its setup, its main loop and an aggregation that cannot fail.\<close>

lemma run_experiment_view:
  assumes n: "0 < n" and k: "0 < k" and len: "length xs = n" "length ys = n" "length ms = k"
    and I0: "\<forall>e a mbuf zs. rq_view e zs \<and> rq_view a zs \<longrightarrow> I (Ref e, Ref a, mbuf)"
    and run: "\<forall>s. I s \<and> exp_state n k s \<longrightarrow>
      (\<exists>s'. for_loop 0 (int k) (exp_step logic) s = Some s' \<and> exp_state n k s' \<and> J s')"
  shows "\<exists>r w' e a mbuf. run_experiment (Ref xs) (Ref ys) (Ref ms) can_open (int n) logic (int k) w = Some (r, w') \<and>
    J (Ref e, Ref a, mbuf) \<and> length mbuf = k \<and> e1_n_tasks r = int n \<and> e1_logic r = logic \<and> e1_ticks r = int k \<and>
    (case fold exp1_acc mbuf (0, 0, 0, 1, 0) of (sj, se, ops, mn, mx) \<Rightarrow>
       e1_max_error_pct r = mx \<and> e1_min_jain r = mn \<and> e1_total_ops_saved r = ops \<and>
       e1_avg_error_pct r = se / f_of_int (int k) \<and> e1_avg_jain r = sj / f_of_int (int k)) \<and>
    e1_final_jain r = jain_index a \<and> e1_final_apaf_state r = apaf_state a \<and>
    files w' = (if can_open (exp1_file (int n) logic)
      then (files w)(exp1_file (int n) logic \<mapsto> METRICS_CSV_HEADER @ concat (map (\<lambda>m. csv_row m (int n)) mbuf))
      else files w)"
proof -
  let ?ts = "map (\<lambda>i. nice0_task (int i)) [0..<n]"
  have lt: "length ?ts = n" by simp
  define init where "init mode = \<lparr>tasks = Ref ?ts, nr_tasks = int n, nr_running = int (n_running ?ts), clock = 0,
          tick = 0, approx_mode = (if mode < 0 \<or> 3 < mode then 0 else mode),
          apaf_state = APAF_MEDIUM, jain_index = 1\<rparr>" for mode
  have init: "rq_init (Ref ?ts) (int n) mode = Some (init mode)" "rq_view (init mode) ?ts" for mode
    using rq_init_view [of ?ts mode] by (simp_all add: init_def rq_view_def)
  have "min (int k) METRICS_MAX_TICKS \<le> int (length ms)" using len(3) by simp
  then obtain mb where mb: "metrics_init (Ref ms) (int k) = Some (Ref mb)" "length mb = k"
    using metrics_init_view [of "int k" ms] k len(3) by (auto simp: Let_def min_def)
  have "exp_state n k (Ref (init 0), Ref (init logic), mb)"
    unfolding exp_state_def using init(2) lt mb(2) by blast
  moreover have "I (Ref (init 0), Ref (init logic), mb)" using I0 init(2) by blast
  ultimately obtain s' where s':
    "for_loop 0 (int k) (exp_step logic) (Ref (init 0), Ref (init logic), mb) = Some s'" "exp_state n k s'" "J s'" using run by blast
  then obtain e a mbuf zs us where st: "s' = (Ref e, Ref a, mbuf)" "rq_view a us" "length us = n" "length mbuf = k"
    by (auto simp: exp_state_def)
  have agg: "for_loop 0 (int k) (\<lambda>i s. arr_get mbuf i \<bind> (\<lambda>m. Some (exp1_acc m s))) z = Some (fold exp1_acc mbuf z)" for z
    using for_loop_arr_fold [of mbuf exp1_acc z] st(4) by simp
  have t0: "arr_get us 0 = Some (us ! 0)" using st(3) n by (simp add: arr_get_def)
  obtain w' where w': "metrics_write_csv can_open (Ref mbuf) (int k) (int n) (Ref (exp1_file (int n) logic)) w = Some w'"
    "files w' = (if can_open (exp1_file (int n) logic)
      then (files w)(exp1_file (int n) logic \<mapsto> METRICS_CSV_HEADER @ concat (map (\<lambda>m. csv_row m (int n)) mbuf))
      else files w)"
    using metrics_write_csv_view [of "int k" mbuf can_open "int n" "exp1_file (int n) logic" w] k st(4) by auto
  obtain sj se ops mn mx where f: "fold exp1_acc mbuf (0, 0, 0, 1, 0) = (sj, se, ops, mn, mx)"
    by (cases "fold exp1_acc mbuf (0, 0, 0, 1, 0)")
  let ?r = "exp1_zero\<lparr>e1_n_tasks := int n, e1_logic := logic, e1_ticks := int k, e1_final_jain := jain_index a,
      e1_min_jain := mn, e1_avg_jain := sj / f_of_int (int k), e1_max_error_pct := mx,
      e1_avg_error_pct := se / f_of_int (int k), e1_total_ops_saved := ops,
      e1_final_apaf_state := apaf_state a, e1_final_load_avg := load_avg (us ! 0)\<rparr>"
  have "run_experiment (Ref xs) (Ref ys) (Ref ms) can_open (int n) logic (int k) w = Some (?r, w')"
    using exp1_setup [OF len(1,2)] init mb s'(1) st agg t0 w'(1) f rq_view_tasks [OF st(2)]
    by (simp add: run_experiment_def Let_def)
  then show ?thesis using s'(3) st(1,4) f w'(2)
    by (intro exI [of _ ?r] exI [of _ w'] exI [of _ e] exI [of _ a] exI [of _ mbuf] conjI) (simp_all only:, simp_all)
qed

lemma run_experiment_defined:
  assumes "0 < n" and "0 < k" and "length xs = n" and "length ys = n" and "length ms = k"
  shows "\<exists>r w' mbuf. run_experiment (Ref xs) (Ref ys) (Ref ms) can_open (int n) logic (int k) w = Some (r, w') \<and>
    e1_n_tasks r = int n \<and> e1_logic r = logic \<and> e1_ticks r = int k \<and> length mbuf = k \<and>
    files w' = (if can_open (exp1_file (int n) logic)
      then (files w)(exp1_file (int n) logic \<mapsto> METRICS_CSV_HEADER @ concat (map (\<lambda>m. csv_row m (int n)) mbuf))
      else files w)"
  using run_experiment_view [OF assms, of "\<lambda>_. True" logic "\<lambda>_. True" can_open w] exp_loop_defined by auto

text \<open>
  The experiment is defined for every positive number of tasks and ticks and every logic
  number, given the memory it asks for: it reports its parameters, and writes one CSV file
  with the header and exactly one row per tick, if the file can be opened.
\<close>

theorem exp1_defined:
  assumes "0 < n" and "0 < k" and "length xs = n" and "length ys = n" and "length ms = k"
  shows "\<exists>r w' mbuf. run_experiment (Ref xs) (Ref ys) (Ref ms) can_open (int n) logic (int k) w = Some (r, w') \<and>
    e1_n_tasks r = int n \<and> e1_logic r = logic \<and> e1_ticks r = int k \<and> length mbuf = k \<and>
    files w' = (if can_open (exp1_file (int n) logic)
      then (files w)(exp1_file (int n) logic \<mapsto> METRICS_CSV_HEADER @ concat (map (\<lambda>m. csv_row m (int n)) mbuf))
      else files w)"
  by (rule run_experiment_defined [OF assms])

theorem exp1_defined_witness:
  "\<exists>r w'. run_experiment (Ref [nice0_task 7, nice0_task 7]) (Ref [nice0_task 8, nice0_task 8])
      (Ref [zero_metrics, zero_metrics, zero_metrics]) (\<lambda>_. True) 2 3 3 \<lparr>stdout = [], files = Map.empty\<rparr> = Some (r, w') \<and>
    e1_n_tasks r = 2 \<and> e1_logic r = 3 \<and> files w' ''results/exp1_n2_APAF.csv'' \<noteq> None"
proof -
  have f: "exp1_file 2 3 = ''results/exp1_n2_APAF.csv''"
    by (simp add: exp1_file_def fmt_d_def fmt_nat.simps digit_def metrics_get_logic_name_def)
  show ?thesis
    using exp1_defined [of 2 3 "[nice0_task 7, nice0_task 7]" "[nice0_task 8, nice0_task 8]"
        "[zero_metrics, zero_metrics, zero_metrics]" "\<lambda>_. True" 3 "\<lparr>stdout = [], files = Map.empty\<rparr>"]
    by (auto simp: f)
qed

text \<open>The aggregation of entries without error.\<close>

lemma fold_exp1_zero:
  assumes "\<forall>m \<in> set ms. max_error_pct m = 0 \<and> avg_error_pct m = 0"
  shows "\<exists>sj ops mn. fold exp1_acc ms (sj0, Fin 0, ops0, mn0, Fin 0) = (sj, Fin 0, ops, mn, Fin 0)"
  using assms
proof (induction ms arbitrary: sj0 ops0 mn0)
  case (Cons m ms)
  then show ?case by (simp add: exp1_acc_def)
qed simp

text \<open>
  The control run of the experiment is sound: with the exact policy on both sides (logic 0
  or any unknown logic number) the reported maximal and average errors are exactly 0.
\<close>

theorem exp1_control:
  assumes "0 < n" and "0 < k" and "length xs = n" and "length ys = n" and "length ms = k"
    and "logic \<notin> {1, 2, 3}"
  shows "\<exists>r w'. run_experiment (Ref xs) (Ref ys) (Ref ms) can_open (int n) logic (int k) w = Some (r, w') \<and>
    e1_max_error_pct r = 0 \<and> e1_avg_error_pct r = 0"
proof -
  have tk: "approx_tick logic = exact_tick" using assms(6) by (auto simp: approx_tick_def)
  have run: "\<forall>s. exp_same 0 s \<and> exp_state n k s \<longrightarrow>
      (\<exists>s'. for_loop 0 (int k) (exp_step logic) s = Some s' \<and> exp_state n k s' \<and> exp_same k s')"
  proof (intro allI impI)
    fix s assume s: "exp_same 0 s \<and> exp_state n k s"
    show "\<exists>s'. for_loop 0 (int k) (exp_step logic) s = Some s' \<and> exp_state n k s' \<and> exp_same k s'"
      using for_loop_invariant [of "\<lambda>j s. exp_same j s \<and> exp_state n k s" 0 s k "exp_step logic"]
        s exp_step_same [OF _ _ _ tk] by auto
  qed
  have I0: "\<forall>e a mbuf zs. rq_view e zs \<and> rq_view a zs \<longrightarrow> exp_same 0 (Ref e, Ref a, mbuf)"
    by (auto simp: exp_same_def)
  obtain r w' e a mbuf where r: "run_experiment (Ref xs) (Ref ys) (Ref ms) can_open (int n) logic (int k) w = Some (r, w')"
    "exp_same k (Ref e, Ref a, mbuf)" "length mbuf = k"
    "case fold exp1_acc mbuf (0, 0, 0, 1, 0) of (sj, se, ops, mn, mx) \<Rightarrow>
       e1_max_error_pct r = mx \<and> e1_min_jain r = mn \<and> e1_total_ops_saved r = ops \<and>
       e1_avg_error_pct r = se / f_of_int (int k) \<and> e1_avg_jain r = sj / f_of_int (int k)"
    using run_experiment_view [OF assms(1-5), of "exp_same 0" logic "exp_same k" can_open w, OF I0 run]
    by (elim exE conjE) (rule that; assumption)
  have "\<forall>m \<in> set mbuf. max_error_pct m = 0 \<and> avg_error_pct m = 0"
    using r(2,3) by (auto simp: exp_same_def in_set_conv_nth)
  then obtain sj ops mn where "fold exp1_acc mbuf (Fin 0, Fin 0, 0, Fin 1, Fin 0) = (sj, Fin 0, ops, mn, Fin 0)"
    using fold_exp1_zero by blast
  then show ?thesis using r(1,4) zero_div_count [OF assms(2)] by auto
qed

theorem exp1_control_witness:
  "\<exists>r w'. run_experiment (Ref [nice0_task 7]) (Ref [nice0_task 8])
      (Ref [zero_metrics, zero_metrics]) (\<lambda>_. True) 1 0 2 \<lparr>stdout = [], files = Map.empty\<rparr> = Some (r, w') \<and>
    e1_max_error_pct r = 0 \<and> e1_avg_error_pct r = 0"
  using exp1_control [of 1 2 "[nice0_task 7]" "[nice0_task 8]" "[zero_metrics, zero_metrics]" 0
      "\<lambda>_. True" "\<lparr>stdout = [], files = Map.empty\<rparr>"] by simp

end
