(* ===== verification/Exp1_Report.thy ===== *)
theory Exp1_Report
  imports Exp1_Equal_Weight
begin

text \<open>
  src/apex-cfs/experiments/exp1_equal_weight.c, function \<open>main\<close>: the twelve runs of the
  experiment, the tables on the standard output, the summary file and the warnings. The memory
  of every run is a parameter, indexed with the number of tasks and the logic. The arrays of
  results are written before they are read, so their first content does not matter.
\<close>

type_synonym run_memory = "cfs_task list ptr \<times> cfs_task list ptr \<times> metrics list ptr"

definition exp1_row :: "int \<Rightarrow> exp1_result \<Rightarrow> string" where
  "exp1_row logic r =
     (let state_str = (if logic = 3 then metrics_get_state_name 3 (e1_final_apaf_state r) else ''N/A'')
      in ''  '' @ fmt_left 8 (metrics_get_logic_name logic) @ '' '' @ fmt_left 10 (fmt_f 4 (e1_final_jain r)) @ '' '' @
         fmt_left 10 (fmt_f 4 (e1_min_jain r)) @ '' '' @ fmt_left 10 (fmt_f 4 (e1_max_error_pct r)) @ '' '' @
         fmt_left 12 (fmt_llu (e1_total_ops_saved r)) @ '' '' @ fmt_left 8 state_str)"

definition exp1_table :: "int \<Rightarrow> int \<Rightarrow> exp1_result list \<Rightarrow> string list" where
  "exp1_table n ticks rs =
     [''  Results Table (N='' @ fmt_d n @ '', '' @ fmt_d ticks @ '' ticks):'',
      ''  '' @ fmt_left 8 ''Logic'' @ '' '' @ fmt_left 10 ''Jain(fin)'' @ '' '' @ fmt_left 10 ''Jain(min)'' @ '' '' @
        fmt_left 10 ''MaxErr%'' @ '' '' @ fmt_left 12 ''Ops_Saved'' @ '' '' @ fmt_left 8 ''State'',
      ''  '' @ fmt_left 8 ''-----'' @ '' '' @ fmt_left 10 ''---------'' @ '' '' @ fmt_left 10 ''---------'' @ '' '' @
        fmt_left 10 ''-------'' @ '' '' @ fmt_left 12 ''---------'' @ '' '' @ fmt_left 8 ''-----''] @
     map (\<lambda>(logic, r). exp1_row logic r) (zip [0, 1, 2, 3] rs) @ [[]]"

text \<open>The four runs with \<open>n\<close> tasks and their table.\<close>

definition exp1_group ::
  "(int \<Rightarrow> int \<Rightarrow> run_memory) \<Rightarrow> (string \<Rightarrow> bool) \<Rightarrow> int \<Rightarrow> int \<Rightarrow> io \<Rightarrow> (exp1_result list \<times> io) option" where
  "exp1_group mem can_open ticks n w = do {
     let w = put (''--- N='' @ fmt_d n @ '' tasks ---'' @ nl) w;
     (results, w) \<leftarrow> for_loop 0 4 (\<lambda>li (results, w). do {
         logic \<leftarrow> arr_get [0, 1, 2, 3] li;
         let (xs, ys, ms) = mem n logic;
         (r, w) \<leftarrow> run_experiment xs ys ms can_open n logic ticks w;
         results \<leftarrow> arr_set results logic r;
         Some (results,
           put (''  '' @ metrics_get_logic_name logic @ '': Jain='' @ fmt_f 4 (e1_final_jain r) @ '' err='' @
                fmt_f 4 (e1_max_error_pct r) @ ''% ops_saved='' @ fmt_llu (e1_total_ops_saved r) @ nl) w)
       }) (replicate 4 exp1_zero, w);
     Some (results, put (lines_of ([] # exp1_table n ticks results)) w)
   }"

definition exp1_summary :: "int \<Rightarrow> exp1_result list list \<Rightarrow> string" where
  "exp1_summary ticks all_results =
     lines_of ([''APEX-CFS Experiment 1 -- Equal Weight Tasks'', ''Ticks: 1000'',
       ''N values tested: 10, 50, 100'', ''Logics tested: EXACT, BSA, CLTI, APAF'', []] @
       concat (map (\<lambda>(n, rs). (''--- N='' @ fmt_d n @ '' tasks ---'') # exp1_table n ticks rs)
         (zip [10, 50, 100] all_results)))"

definition exp1_warnings :: "exp1_result list \<Rightarrow> string list" where
  "exp1_warnings rs =
     concat (map (\<lambda>(li, r). if e1_final_jain r < dec 85 2
         then [''WARNING: Jain below 0.85 (N='' @ fmt_d (e1_n_tasks r) @ '' logic='' @
               metrics_get_logic_name li @ '' jain='' @ fmt_f 4 (e1_final_jain r) @ '')''] else [])
       (zip [0, 1, 2, 3] rs)) @
     (if e1_total_ops_saved (rs ! 3) \<le> e1_total_ops_saved (rs ! 0)
      then [''WARNING: APAF ops_saved not greater than EXACT at N='' @ fmt_d (e1_n_tasks (rs ! 3))] else [])"

definition exp1_main :: "(int \<Rightarrow> int \<Rightarrow> run_memory) \<Rightarrow> (string \<Rightarrow> bool) \<Rightarrow> io \<Rightarrow> (int \<times> io) option" where
  "exp1_main mem can_open w = do {
     let ticks = 1000;
     let w = put (lines_of
       [''================================'', ''APEX-CFS Experiment 1'', ''Equal Weight Tasks'',
        ''Ticks: '' @ fmt_d ticks, ''================================'', []]) w;
     (all_results, w) \<leftarrow> for_loop 0 3 (\<lambda>ni (all_results, w). do {
         n \<leftarrow> arr_get [10, 50, 100] ni;
         (results, w) \<leftarrow> exp1_group mem can_open ticks n w;
         all_results \<leftarrow> arr_set all_results ni results;
         Some (all_results, w)
       }) (replicate 3 (replicate 4 exp1_zero), w);
     if \<not> can_open ''results/exp1_summary.txt'' then
       Some (1, put (''ERROR: failed to write results/exp1_summary.txt'' @ nl) w)
     else do {
       let w = write_file ''results/exp1_summary.txt'' (exp1_summary ticks all_results) w;
       Some (0, put (lines_of (concat (map exp1_warnings all_results) @
         [[], ''================================'', ''Experiment 1 COMPLETE'',
          ''CSV files written to results/'', ''Summary: results/exp1_summary.txt'',
          ''================================''])) w)
     }
   }"

section \<open>The files of the experiment\<close>

definition exp1_grid :: "(int \<times> int) set" where
  "exp1_grid = {10, 50, 100} \<times> {0, 1, 2, 3}"

definition exp1_csv :: "nat \<Rightarrow> int \<Rightarrow> int \<Rightarrow> io \<Rightarrow> bool" where
  "exp1_csv k n logic w \<longleftrightarrow> (\<exists>mbuf. length mbuf = k \<and>
     files w (exp1_file n logic) = Some (METRICS_CSV_HEADER @ concat (map (\<lambda>m. csv_row m n) mbuf)))"

definition exp1_mem :: "nat \<Rightarrow> int \<Rightarrow> run_memory \<Rightarrow> bool" where
  "exp1_mem k n b \<longleftrightarrow> (\<exists>xs ys ms. b = (Ref xs, Ref ys, Ref ms) \<and> length xs = nat n \<and>
     length ys = nat n \<and> length ms = k)"

text \<open>The names of the twelve files are different from each other and from the summary's.\<close>

lemma exp1_file_names:
  "exp1_file 10 0 = ''results/exp1_n10_EXACT.csv''" "exp1_file 10 1 = ''results/exp1_n10_BSA.csv''"
  "exp1_file 10 2 = ''results/exp1_n10_CLTI.csv''" "exp1_file 10 3 = ''results/exp1_n10_APAF.csv''"
  "exp1_file 50 0 = ''results/exp1_n50_EXACT.csv''" "exp1_file 50 1 = ''results/exp1_n50_BSA.csv''"
  "exp1_file 50 2 = ''results/exp1_n50_CLTI.csv''" "exp1_file 50 3 = ''results/exp1_n50_APAF.csv''"
  "exp1_file 100 0 = ''results/exp1_n100_EXACT.csv''" "exp1_file 100 1 = ''results/exp1_n100_BSA.csv''"
  "exp1_file 100 2 = ''results/exp1_n100_CLTI.csv''" "exp1_file 100 3 = ''results/exp1_n100_APAF.csv''"
  by (simp_all add: exp1_file_def fmt_d_def fmt_nat.simps digit_def metrics_get_logic_name_def)

lemma exp1_file_inj: "inj_on (\<lambda>(n, l). exp1_file n l) exp1_grid"
  by (auto simp: inj_on_def exp1_grid_def exp1_file_names)

lemma exp1_file_summary: "(n, l) \<in> exp1_grid \<Longrightarrow> exp1_file n l \<noteq> ''results/exp1_summary.txt''"
  by (auto simp: exp1_grid_def exp1_file_names)

text \<open>What is known of the world after the runs in \<open>D\<close>, from the world \<open>w0\<close>.\<close>

definition exp1_progress :: "(string \<Rightarrow> bool) \<Rightarrow> io \<Rightarrow> (int \<times> int) set \<Rightarrow> io \<Rightarrow> bool" where
  "exp1_progress can_open w0 D w \<longleftrightarrow> D \<subseteq> exp1_grid \<and>
     (\<forall>(n, l) \<in> D. can_open (exp1_file n l) \<longrightarrow> exp1_csv 1000 n l w) \<and>
     (\<forall>f. f \<notin> (\<lambda>(n, l). exp1_file n l) ` exp1_grid \<longrightarrow> files w f = files w0 f)"

lemma exp1_progress_put [simp]:
  "exp1_progress can_open w0 D (put s w) = exp1_progress can_open w0 D w"
  by (simp add: exp1_progress_def exp1_csv_def)

lemma exp1_progress_run:
  assumes P: "exp1_progress can_open w0 D w" and g: "(n, logic) \<in> exp1_grid"
    and b: "exp1_mem 1000 n (xs, ys, ms)"
  shows "\<exists>r w'. run_experiment xs ys ms can_open n logic 1000 w = Some (r, w') \<and>
    exp1_progress can_open w0 (insert (n, logic) D) w'"
proof -
  obtain xl yl ml where m: "xs = Ref xl" "ys = Ref yl" "ms = Ref ml" "length xl = nat n" "length yl = nat n"
    "length ml = 1000" using b by (auto simp: exp1_mem_def)
  have n: "0 < nat n" "int (nat n) = n" using g by (auto simp: exp1_grid_def)
  obtain r w' mbuf where r: "run_experiment xs ys ms can_open n logic 1000 w = Some (r, w')"
    "length mbuf = 1000" "files w' = (if can_open (exp1_file n logic)
      then (files w)(exp1_file n logic \<mapsto> METRICS_CSV_HEADER @ concat (map (\<lambda>m. csv_row m n) mbuf))
      else files w)"
    using run_experiment_defined [OF n(1) _ m(4-6), of can_open logic w] m(1-3) unfolding n(2)
    by auto
  have "exp1_csv 1000 n' l' w'" if "(n', l') \<in> D" "can_open (exp1_file n' l')" "(n', l') \<noteq> (n, logic)" for n' l'
  proof -
    have "(n', l') \<in> exp1_grid" "exp1_csv 1000 n' l' w" using P that by (auto simp: exp1_progress_def)
    then show ?thesis using that(3) r(3) inj_onD [OF exp1_file_inj _ _ g, of "(n', l')"]
      by (auto simp: exp1_csv_def)
  qed
  moreover have "exp1_csv 1000 n logic w'" if "can_open (exp1_file n logic)"
    using that r(2,3) by (auto simp: exp1_csv_def)
  ultimately have "exp1_progress can_open w0 (insert (n, logic) D) w'"
    using P g r(3) by (auto simp: exp1_progress_def)
  then show ?thesis using r(1) by blast
qed

lemma exp1_group_progress:
  assumes P: "exp1_progress can_open w0 D w" and n: "n \<in> {10, 50, 100}"
    and b: "\<forall>logic \<in> {0, 1, 2, 3}. exp1_mem 1000 n (mem n logic)"
  shows "\<exists>rs w'. exp1_group mem can_open 1000 n w = Some (rs, w') \<and> length rs = 4 \<and>
    exp1_progress can_open w0 (D \<union> {n} \<times> {0, 1, 2, 3}) w'"
proof -
  let ?body = "\<lambda>li (results, w). do {
         logic \<leftarrow> arr_get [0, 1, 2, 3] li;
         let (xs, ys, ms) = mem n logic;
         (r, w) \<leftarrow> run_experiment xs ys ms can_open n logic 1000 w;
         results \<leftarrow> arr_set results logic r;
         Some (results,
           put (''  '' @ metrics_get_logic_name logic @ '': Jain='' @ fmt_f 4 (e1_final_jain r) @ '' err='' @
                fmt_f 4 (e1_max_error_pct r) @ ''% ops_saved='' @ fmt_llu (e1_total_ops_saved r) @ nl) w)
       }"
  let ?I = "\<lambda>j (rs :: exp1_result list, w). length rs = 4 \<and> exp1_progress can_open w0 (D \<union> {n} \<times> int ` {..<j}) w"
  have "\<exists>s. for_loop (int 0) (int 4) ?body (replicate 4 exp1_zero, put (''--- N='' @ fmt_d n @ '' tasks ---'' @ nl) w) = Some s
      \<and> ?I 4 s"
  proof (rule for_loop_invariant [where P = ?I])
    fix j s assume j: "j < 4" and I: "?I j s"
    obtain rs v where s: "s = (rs, v)" by (cases s)
    have l: "arr_get [0, 1, 2, 3 :: int] (int j) = Some (int j)" "int j \<in> {0, 1, 2, 3}"
      using j by (auto simp: less_Suc_eq numeral_eq_Suc arr_get_def)
    obtain xs ys ms where m: "mem n (int j) = (xs, ys, ms)" by (cases "mem n (int j)")
    have "(n, int j) \<in> exp1_grid" using n l(2) by (auto simp: exp1_grid_def)
    then obtain r w' where r: "run_experiment xs ys ms can_open n (int j) 1000 v = Some (r, w')"
      "exp1_progress can_open w0 (insert (n, int j) (D \<union> {n} \<times> int ` {..<j})) w'"
      using exp1_progress_run [of can_open w0 "D \<union> {n} \<times> int ` {..<j}" v n "int j"] I s m b l(2) by fastforce
    have "insert (n, int j) (D \<union> {n} \<times> int ` {..<j}) = D \<union> {n} \<times> int ` {..<Suc j}"
      by (auto simp: lessThan_Suc)
    then show "\<exists>s'. ?body (int j) s = Some s' \<and> ?I (Suc j) s'"
      using I s j l(1) m r by simp
  qed (use P in auto)
  moreover have "int ` {..<4} = {0, 1, 2, 3}" by (auto simp: lessThan_Suc numeral_eq_Suc)
  ultimately show ?thesis by (auto simp: exp1_group_def)
qed

text \<open>
  C21. The whole experiment is defined, whatever the memory it is given holds: it returns 0 exactly
  when its summary file can be opened and 1 otherwise; every CSV file that can be opened holds
  the header and exactly 1000 rows, the later runs leave the files of the earlier ones alone,
  and no file outside the experiment's own changes.
\<close>

theorem exp1_main_files:
  assumes "\<forall>(n, logic) \<in> exp1_grid. exp1_mem 1000 n (mem n logic)"
  shows "\<exists>c w'. exp1_main mem can_open w = Some (c, w') \<and>
    c = (if can_open ''results/exp1_summary.txt'' then 0 else 1) \<and>
    (\<forall>(n, logic) \<in> exp1_grid. can_open (exp1_file n logic) \<longrightarrow> exp1_csv 1000 n logic w') \<and>
    (\<forall>f. f \<notin> insert ''results/exp1_summary.txt'' ((\<lambda>(n, l). exp1_file n l) ` exp1_grid) \<longrightarrow>
       files w' f = files w f)"
proof -
  let ?head = "lines_of
       [''================================'', ''APEX-CFS Experiment 1'', ''Equal Weight Tasks'',
        ''Ticks: '' @ fmt_d 1000, ''================================'', []]"
  have mem: "\<forall>logic \<in> {0, 1, 2, 3}. exp1_mem 1000 n (mem n logic)" if "n \<in> {10, 50, 100}" for n
    using assms that by (auto simp: exp1_grid_def)
  have "exp1_progress can_open w {} (put ?head w)" by (simp add: exp1_progress_def)
  then obtain r0 w0 where 0: "exp1_group mem can_open 1000 10 (put ?head w) = Some (r0, w0)" "length r0 = 4"
    "exp1_progress can_open w ({} \<union> {10} \<times> {0, 1, 2, 3}) w0"
    using exp1_group_progress [of can_open w "{}" "put ?head w" 10 mem] mem [of 10] by auto
  obtain r1 w1 where 1: "exp1_group mem can_open 1000 50 w0 = Some (r1, w1)" "length r1 = 4"
    "exp1_progress can_open w ({} \<union> {10} \<times> {0, 1, 2, 3} \<union> {50} \<times> {0, 1, 2, 3}) w1"
    using exp1_group_progress [OF 0(3), of 50 mem] mem [of 50] by auto
  obtain r2 w2 where 2: "exp1_group mem can_open 1000 100 w1 = Some (r2, w2)" "length r2 = 4"
    "exp1_progress can_open w ({} \<union> {10} \<times> {0, 1, 2, 3} \<union> {50} \<times> {0, 1, 2, 3} \<union> {100} \<times> {0, 1, 2, 3}) w2"
    using exp1_group_progress [OF 1(3), of 100 mem] mem [of 100] by auto
  have grid: "{} \<union> {10} \<times> {0, 1, 2, 3} \<union> {50} \<times> {0, 1, 2, 3} \<union> {100} \<times> {0, 1, 2, 3} = exp1_grid"
    by (auto simp: exp1_grid_def)
  have P: "exp1_progress can_open w exp1_grid w2" using 2(3) unfolding grid .
  have "\<exists>c w'. exp1_main mem can_open w = Some (c, w') \<and>
      c = (if can_open ''results/exp1_summary.txt'' then 0 else 1) \<and>
      (\<forall>f. f \<noteq> ''results/exp1_summary.txt'' \<longrightarrow> files w' f = files w2 f)"
    using 0(1) 1(1) 2(1) by (simp add: exp1_main_def for_loop_step arr_get_def arr_set_def)
  then obtain c w' where "exp1_main mem can_open w = Some (c, w')"
    "c = (if can_open ''results/exp1_summary.txt'' then 0 else 1)"
    and same: "\<forall>f. f \<noteq> ''results/exp1_summary.txt'' \<longrightarrow> files w' f = files w2 f" by blast
  moreover have "\<forall>(n, logic) \<in> exp1_grid. can_open (exp1_file n logic) \<longrightarrow> exp1_csv 1000 n logic w'"
    using P same exp1_file_summary by (fastforce simp: exp1_progress_def exp1_csv_def)
  ultimately show ?thesis using P same by (auto simp: exp1_progress_def)
qed

theorem exp1_main_files_witness:
  "\<exists>w'. exp1_main (\<lambda>n _. (Ref (replicate (nat n) (nice0_task 0)), Ref (replicate (nat n) (nice0_task 0)),
      Ref (replicate 1000 zero_metrics))) (\<lambda>_. True) \<lparr>stdout = [], files = Map.empty\<rparr> = Some (0, w') \<and>
    exp1_csv 1000 100 3 w'"
proof -
  let ?mem = "\<lambda>(n::int) (_::int). (Ref (replicate (nat n) (nice0_task 0)), Ref (replicate (nat n) (nice0_task 0)),
      Ref (replicate 1000 zero_metrics))"
  have "\<forall>(n, logic) \<in> exp1_grid. exp1_mem 1000 n (?mem n logic)" by (simp add: exp1_mem_def)
  then show ?thesis using exp1_main_files [of ?mem "\<lambda>_. True" "\<lparr>stdout = [], files = Map.empty\<rparr>"]
    by (fastforce simp: exp1_grid_def)
qed

end
