(* ===== verification/Exp2_Mixed_Load.thy ===== *)
theory Exp2_Mixed_Load
  imports Exp1_Report
begin

text \<open>
  src/apex-cfs/experiments/exp2_mixed_load.c: one interactive task (nice -10) that is runnable
  for 5 ticks and asleep for 5, and 10 batch tasks, under the exact policy and under one other
  policy side by side, with the waiting time of the interactive task measured. As in the first
  experiment the memory is a parameter and the tasks are read through the runqueues.
\<close>

abbreviation (input) N_BATCH :: int where "N_BATCH \<equiv> 10"
abbreviation (input) N_TOTAL :: int where "N_TOTAL \<equiv> 11"
abbreviation (input) INTERACTIVE :: int where "INTERACTIVE \<equiv> 0"
abbreviation (input) INTERACTIVE_NICE :: int where "INTERACTIVE_NICE \<equiv> - 10"
abbreviation (input) BATCH_NICE :: int where "BATCH_NICE \<equiv> 0"
abbreviation (input) INTERACTIVE_ON :: int where "INTERACTIVE_ON \<equiv> 5"
abbreviation (input) INTERACTIVE_OFF :: int where "INTERACTIVE_OFF \<equiv> 5"
abbreviation (input) UINT64_MAX :: u64 where "UINT64_MAX \<equiv> 0xffffffffffffffff"

record exp2_result =
  e2_logic :: int
  e2_ticks :: int
  interactive_exec_runtime :: u64
  interactive_cpu_share :: f64
  max_wait_ticks :: u64
  avg_wait_ticks :: f64
  total_wait_events :: int
  batch_avg_jain :: f64
  batch_throughput :: f64
  e2_final_jain :: f64
  e2_max_error_pct :: f64
  e2_avg_error_pct :: f64
  e2_total_ops_saved :: u64
  e2_final_apaf_state :: int

definition exp2_zero :: exp2_result where
  "exp2_zero = \<lparr>e2_logic = 0, e2_ticks = 0, interactive_exec_runtime = 0, interactive_cpu_share = 0,
     max_wait_ticks = 0, avg_wait_ticks = 0, total_wait_events = 0, batch_avg_jain = 0,
     batch_throughput = 0, e2_final_jain = 0, e2_max_error_pct = 0, e2_avg_error_pct = 0,
     e2_total_ops_saved = 0, e2_final_apaf_state = 0\<rparr>"

section \<open>One tick\<close>

text \<open>The waiting-time counters of the run.\<close>

record waits =
  max_wait :: u64
  sum_wait :: u64
  wait_events :: int
  current_wait :: u64
  was_blocked :: int

definition set_interactive :: "int \<Rightarrow> cfs_rq ptr \<Rightarrow> cfs_rq ptr option" where
  "set_interactive r p = do {
     rq \<leftarrow> c_deref p;
     ts \<leftarrow> c_deref (tasks rq);
     t \<leftarrow> arr_get ts INTERACTIVE;
     t \<leftarrow> c_deref (task_set_runnable (Ref t) r);
     ts \<leftarrow> arr_set ts INTERACTIVE t;
     Some (Ref (rq\<lparr>tasks := Ref ts\<rparr>))
   }"

definition exp2_switch :: "int \<Rightarrow> cfs_rq ptr \<times> cfs_rq ptr \<times> waits \<Rightarrow> (cfs_rq ptr \<times> cfs_rq ptr \<times> waits) option" where
  "exp2_switch cycle_pos s =
     (case s of (e, a, v) \<Rightarrow>
        if cycle_pos < INTERACTIVE_ON then do {
          e \<leftarrow> set_interactive 1 e;
          a \<leftarrow> set_interactive 1 a;
          Some (e, a, if was_blocked v = 1 then v\<lparr>current_wait := 0, was_blocked := 0\<rparr> else v)
        } else do {
          e \<leftarrow> set_interactive 0 e;
          a \<leftarrow> set_interactive 0 a;
          Some (e, a, v\<lparr>was_blocked := 1, current_wait := 0\<rparr>)
        })"

definition min_acc :: "int \<Rightarrow> cfs_task \<Rightarrow> u64 \<times> int \<Rightarrow> u64 \<times> int" where
  "min_acc j t s = (case s of (min_vrt, min_idx) \<Rightarrow>
     if runnable t = 1 \<and> vruntime t < min_vrt then (vruntime t, j) else s)"

definition wait_step :: "int \<Rightarrow> waits \<Rightarrow> waits" where
  "wait_step min_idx v =
     (if min_idx \<noteq> INTERACTIVE then
        let v = v\<lparr>current_wait := current_wait v + 1\<rparr>
        in if max_wait v < current_wait v then v\<lparr>max_wait := current_wait v\<rparr> else v
      else
        let v = (if 0 < current_wait v
                 then v\<lparr>sum_wait := sum_wait v + current_wait v, wait_events := wait_events v + 1\<rparr> else v)
        in v\<lparr>current_wait := 0\<rparr>)"

definition exp2_measure :: "cfs_rq ptr \<Rightarrow> waits \<Rightarrow> waits option" where
  "exp2_measure a v = do {
     rq \<leftarrow> c_deref a;
     ts \<leftarrow> c_deref (tasks rq);
     t0 \<leftarrow> arr_get ts INTERACTIVE;
     if runnable t0 = 1 then do {
       (_, min_idx) \<leftarrow> for_loop 0 N_TOTAL (\<lambda>j s. arr_get ts j \<bind> (\<lambda>t. Some (min_acc j t s))) (UINT64_MAX, - 1);
       Some (wait_step min_idx v)
     } else Some v
   }"

definition exp2_step :: "int \<Rightarrow> int \<Rightarrow> cfs_rq ptr \<times> cfs_rq ptr \<times> metrics list \<times> waits
    \<Rightarrow> (cfs_rq ptr \<times> cfs_rq ptr \<times> metrics list \<times> waits) option" where
  "exp2_step logic i s =
     (case s of (e, a, mbuf, v) \<Rightarrow> do {
        (e, a, v) \<leftarrow> exp2_switch (c_mod i (INTERACTIVE_ON + INTERACTIVE_OFF)) (e, a, v);
        e \<leftarrow> exact_tick e;
        a \<leftarrow> approx_tick logic a;
        v \<leftarrow> exp2_measure a v;
        m \<leftarrow> arr_get mbuf i;
        p \<leftarrow> metrics_record (Ref m) a e;
        m \<leftarrow> c_deref p;
        mbuf \<leftarrow> arr_set mbuf i m;
        (_, e) \<leftarrow> rq_count_running e;
        (_, a) \<leftarrow> rq_count_running a;
        Some (e, a, mbuf, v)
      })"

section \<open>The run\<close>

definition exp2_acc :: "metrics \<Rightarrow> f64 \<times> u64 \<times> f64 \<Rightarrow> f64 \<times> u64 \<times> f64" where
  "exp2_acc m s = (case s of (sum_err, total_ops, max_err) \<Rightarrow>
     (sum_err + avg_error_pct m, total_ops + ops_saved m,
      if max_err < max_error_pct m then max_error_pct m else max_err))"

definition exp2_batch :: "cfs_task list \<Rightarrow> (f64 \<times> f64) option" where
  "exp2_batch ts = do {
     (b_sum, b_sq) \<leftarrow> for_loop 1 N_TOTAL (\<lambda>i (b_sum, b_sq). do {
         t \<leftarrow> arr_get ts i;
         let rt = f_of_u64 (exec_runtime t);
         Some (b_sum + rt, b_sq + rt * rt)
       }) (0, 0);
     Some (if 0 < b_sq then (b_sum * b_sum) / (f_of_int N_BATCH * b_sq) else 1, b_sum / f_of_int N_BATCH)
   }"

definition exp2_share :: "cfs_task list \<Rightarrow> f64 option" where
  "exp2_share ts = do {
     total_rt \<leftarrow> for_loop 0 N_TOTAL (\<lambda>i total_rt. arr_get ts i \<bind> (\<lambda>t. Some (total_rt + exec_runtime t))) 0;
     t0 \<leftarrow> arr_get ts INTERACTIVE;
     Some (if 0 < total_rt then f_of_u64 (exec_runtime t0) / f_of_u64 total_rt else 0)
   }"

definition exp2_file :: "int \<Rightarrow> string" where
  "exp2_file logic = take 63 (''results/exp2_'' @ metrics_get_logic_name logic @ ''.csv'')"

text \<open>The result of a run from its final state, and the file.\<close>

definition exp2_finish :: "(string \<Rightarrow> bool) \<Rightarrow> int \<Rightarrow> int \<Rightarrow> cfs_rq ptr \<Rightarrow> metrics list \<Rightarrow> waits \<Rightarrow> io
    \<Rightarrow> (exp2_result \<times> io) option" where
  "exp2_finish can_open logic ticks a mbuf v w = do {
     (sum_err, total_ops, max_err) \<leftarrow>
       for_loop 0 ticks (\<lambda>i s. arr_get mbuf i \<bind> (\<lambda>m. Some (exp2_acc m s))) (0, 0, 0);
     rq \<leftarrow> c_deref a;
     ts \<leftarrow> c_deref (tasks rq);
     (jain, throughput) \<leftarrow> exp2_batch ts;
     share \<leftarrow> exp2_share ts;
     t0 \<leftarrow> arr_get ts INTERACTIVE;
     w \<leftarrow> metrics_write_csv can_open (Ref mbuf) ticks N_TOTAL (Ref (exp2_file logic)) w;
     Some (\<lparr>e2_logic = logic, e2_ticks = ticks, interactive_exec_runtime = exec_runtime t0,
            interactive_cpu_share = share, max_wait_ticks = max_wait v,
            avg_wait_ticks = (if 0 < wait_events v then f_of_u64 (sum_wait v) / f_of_int (wait_events v) else 0),
            total_wait_events = wait_events v, batch_avg_jain = jain, batch_throughput = throughput,
            e2_final_jain = jain_index rq, e2_max_error_pct = max_err,
            e2_avg_error_pct = sum_err / f_of_int ticks, e2_total_ops_saved = total_ops,
            e2_final_apaf_state = apaf_state rq\<rparr>, w)
   }"

definition exp2_setup :: "cfs_task list \<Rightarrow> cfs_task list \<Rightarrow> (cfs_task list \<times> cfs_task list) option" where
  "exp2_setup xs ys = do {
     t \<leftarrow> task_create INTERACTIVE INTERACTIVE_NICE;
     xs \<leftarrow> arr_set xs INTERACTIVE t;
     u \<leftarrow> task_create INTERACTIVE INTERACTIVE_NICE;
     ys \<leftarrow> arr_set ys INTERACTIVE u;
     for_loop 1 N_TOTAL (\<lambda>i (xs, ys). do {
       t \<leftarrow> task_create i BATCH_NICE;
       xs \<leftarrow> arr_set xs i t;
       u \<leftarrow> task_create i BATCH_NICE;
       ys \<leftarrow> arr_set ys i u;
       Some (xs, ys)
     }) (xs, ys)
   }"

definition run_exp2 :: "run_memory \<Rightarrow> (string \<Rightarrow> bool) \<Rightarrow> int \<Rightarrow> int \<Rightarrow> io \<Rightarrow> (exp2_result \<times> io) option" where
  "run_exp2 mem can_open logic ticks w =
     (case mem of
        (Ref xs, Ref ys, Ref ms) \<Rightarrow> do {
          (xs, ys) \<leftarrow> exp2_setup xs ys;
          exact_rq \<leftarrow> rq_init (Ref xs) N_TOTAL 0;
          approx_rq \<leftarrow> rq_init (Ref ys) N_TOTAL logic;
          p \<leftarrow> metrics_init (Ref ms) ticks;
          mbuf \<leftarrow> c_deref p;
          (e, a, mbuf, v) \<leftarrow> for_loop 0 ticks (exp2_step logic)
            (Ref exact_rq, Ref approx_rq, mbuf,
             \<lparr>max_wait = 0, sum_wait = 0, wait_events = 0, current_wait = 0, was_blocked = 1\<rparr>);
          exp2_finish can_open logic ticks a mbuf v w
        }
      | _ \<Rightarrow> Some (exp2_zero\<lparr>e2_logic := logic, e2_ticks := ticks\<rparr>,
                  put (''ERROR: allocation failed for logic='' @ fmt_d logic @ nl) w))"

section \<open>The report\<close>

definition exp2_table :: "exp2_result list \<Rightarrow> string list" where
  "exp2_table rs =
     [fmt_left 8 ''Logic'' @ '' '' @ fmt_left 12 ''CPU_Share%'' @ '' '' @ fmt_left 10 ''MaxWait'' @ '' '' @
        fmt_left 10 ''AvgWait'' @ '' '' @ fmt_left 10 ''BatchJain'' @ '' '' @ fmt_left 10 ''MaxErr%'',
      fmt_left 8 ''-----'' @ '' '' @ fmt_left 12 ''----------'' @ '' '' @ fmt_left 10 ''-------'' @ '' '' @
        fmt_left 10 ''-------'' @ '' '' @ fmt_left 10 ''---------'' @ '' '' @ fmt_left 10 ''-------''] @
     map (\<lambda>(logic, r). fmt_left 8 (metrics_get_logic_name logic) @ '' '' @
          fmt_left 12 (fmt_f 4 (interactive_cpu_share r * dec 100 0)) @ '' '' @
          fmt_left 10 (fmt_llu (max_wait_ticks r)) @ '' '' @ fmt_left 10 (fmt_f 2 (avg_wait_ticks r)) @ '' '' @
          fmt_left 10 (fmt_f 4 (batch_avg_jain r)) @ '' '' @ fmt_left 10 (fmt_f 4 (e2_max_error_pct r)))
       (zip [0, 1, 2, 3] rs)"

definition exp2_lines :: "int \<Rightarrow> exp2_result \<Rightarrow> string list" where
  "exp2_lines logic r =
     [metrics_get_logic_name logic @ '':'',
      ''  Interactive CPU share: '' @ fmt_f 4 (interactive_cpu_share r * dec 100 0) @ ''%'',
      ''  Max wait (tail latency): '' @ fmt_llu (max_wait_ticks r) @ '' ticks'',
      ''  Avg wait: '' @ fmt_f 2 (avg_wait_ticks r) @ '' ticks'',
      ''  Batch Jain: '' @ fmt_f 4 (batch_avg_jain r),
      ''  Max error: '' @ fmt_f 4 (e2_max_error_pct r) @ ''%'',
      ''  Ops saved: '' @ fmt_llu (e2_total_ops_saved r)] @
     (if logic = 3 then [''  APAF state: '' @ metrics_get_state_name 3 (e2_final_apaf_state r)] else []) @ [[]]"

definition exp2_summary :: "exp2_result list \<Rightarrow> string" where
  "exp2_summary rs =
     (let exact_share = interactive_cpu_share (rs ! 0) * dec 100 0;
          apaf_share = interactive_cpu_share (rs ! 3) * dec 100 0;
          share_diff = apaf_share - exact_share;
          fair_ok = (if batch_avg_jain (rs ! 0) < dec 90 2 \<or> batch_avg_jain (rs ! 1) < dec 90 2 \<or>
                        batch_avg_jain (rs ! 2) < dec 90 2 \<or> batch_avg_jain (rs ! 3) < dec 90 2
                     then ''NO'' else ''YES'')
      in lines_of (
        [''APEX-CFS Experiment 2 -- Mixed Workload'', ''Ticks: 2000'',
         ''Workload: 1 interactive (nice=-10) + 10 batch (nice=0)'', ''Interactive pattern: 5 on / 5 off'', [],
         ''Comparison Table (2000 ticks):''] @ exp2_table rs @
        [[], ''Key Findings:'',
         ''- Interactive task CPU share (EXACT):    '' @ fmt_f 2 exact_share @ ''%'',
         ''- Interactive task CPU share (APAF):     '' @ fmt_f 2 apaf_share @ ''%'',
         ''- Share difference EXACT vs APAF: '' @ fmt_f 2 share_diff @ ''%'',
         ''- Max wait ticks (EXACT): '' @ fmt_llu (max_wait_ticks (rs ! 0)),
         ''- Max wait ticks (APAF):  '' @ fmt_llu (max_wait_ticks (rs ! 3)),
         ''- Batch fairness preserved: '' @ fair_ok]))"

definition exp2_warnings :: "exp2_result list \<Rightarrow> string list" where
  "exp2_warnings rs =
     concat (map (\<lambda>(i, r). if interactive_cpu_share r \<le> 0
         then [''WARNING: interactive CPU share is 0 (logic='' @ metrics_get_logic_name i @ '')''] else [])
       (zip [0, 1, 2, 3] rs)) @
     (if max_wait_ticks (rs ! 0) * 2 < max_wait_ticks (rs ! 3)
      then [''WARNING: APAF max_wait > 2x EXACT (APAF='' @ fmt_llu (max_wait_ticks (rs ! 3)) @ '' EXACT='' @
            fmt_llu (max_wait_ticks (rs ! 0)) @ '')''] else [])"

definition exp2_main :: "(int \<Rightarrow> run_memory) \<Rightarrow> (string \<Rightarrow> bool) \<Rightarrow> io \<Rightarrow> (int \<times> io) option" where
  "exp2_main mem can_open w = do {
     let ticks = 2000;
     let w = put (lines_of
       [''================================'', ''APEX-CFS Experiment 2'', ''Mixed Workload'',
        ''1 interactive (nice=-10) + 10 batch (nice=0)'', ''Ticks: '' @ fmt_d ticks,
        ''Interactive: ON '' @ fmt_d INTERACTIVE_ON @ '' ticks, OFF '' @ fmt_d INTERACTIVE_OFF @ '' ticks'',
        ''================================'', []]) w;
     (results, w) \<leftarrow> for_loop 0 4 (\<lambda>i (results, w). do {
         logic \<leftarrow> arr_get [0, 1, 2, 3] i;
         (r, w) \<leftarrow> run_exp2 (mem logic) can_open logic ticks w;
         results \<leftarrow> arr_set results logic r;
         Some (results, put (lines_of (exp2_lines logic r)) w)
       }) (replicate 4 exp2_zero, w);
     let w = put (lines_of (''Comparison Table (2000 ticks):'' # exp2_table results)) w;
     if \<not> can_open ''results/exp2_summary.txt'' then
       Some (1, put (''ERROR: failed to write results/exp2_summary.txt'' @ nl) w)
     else do {
       let w = write_file ''results/exp2_summary.txt'' (exp2_summary results) w;
       Some (0, put (lines_of (exp2_warnings results @
         [[], ''================================'', ''Experiment 2 COMPLETE'',
          ''CSV files written to results/'', ''Summary: results/exp2_summary.txt'',
          ''================================''])) w)
     }
   }"

section \<open>The main loop\<close>

lemma set_interactive_view:
  assumes "rq_view rq xs" and "length xs = 11" and "r \<in> {0, 1}"
  shows "set_interactive r (Ref rq) = Some (Ref (rq\<lparr>tasks := Ref (xs[0 := (xs ! 0)\<lparr>runnable := r\<rparr>])\<rparr>))"
    and "rq_view (rq\<lparr>tasks := Ref (xs[0 := (xs ! 0)\<lparr>runnable := r\<rparr>])\<rparr>) (xs[0 := (xs ! 0)\<lparr>runnable := r\<rparr>])"
proof -
  have "arr_get xs 0 = Some (xs ! 0)" "arr_set xs 0 t = Some (xs[0 := t])" for t
    using assms(2) by (simp_all add: arr_get_def arr_set_def)
  then show "set_interactive r (Ref rq) = Some (Ref (rq\<lparr>tasks := Ref (xs[0 := (xs ! 0)\<lparr>runnable := r\<rparr>])\<rparr>))"
    using rq_view_tasks [OF assms(1)] assms(3) by (auto simp: set_interactive_def task_set_runnable_def)
  show "rq_view (rq\<lparr>tasks := Ref (xs[0 := (xs ! 0)\<lparr>runnable := r\<rparr>])\<rparr>) (xs[0 := (xs ! 0)\<lparr>runnable := r\<rparr>])"
    by (rule rq_view_tasks_update [OF assms(1)]) simp
qed

lemma count_running_view:
  assumes "rq_view rq xs"
  shows "\<exists>c rq'. rq_count_running (Ref rq) = Some (c, Ref rq') \<and> rq_view rq' xs"
  using rq_count_running_view [OF assms] assms by auto

text \<open>How long the interactive task can have waited before tick \<open>i\<close>: the ticks of the current ON phase.\<close>

definition wait_ok :: "nat \<Rightarrow> waits \<Rightarrow> bool" where
  "wait_ok i v \<longleftrightarrow> unat (current_wait v) \<le> min (i mod 10) 5 \<and> max_wait v \<le> 5"

lemma wait_step_ok:
  assumes "unat (current_wait v) \<le> i mod 10" and "i mod 10 < 5" and "max_wait v \<le> 5"
  shows "wait_ok (Suc i) (wait_step m v)"
proof -
  have m: "Suc i mod 10 = Suc (i mod 10)" using assms(2) by (simp add: mod_Suc)
  have s: "unat (current_wait v + 1) = unat (current_wait v) + 1"
    using assms by (subst unat_u64_add_small) simp_all
  then have "current_wait v + 1 \<le> 5" using assms by (simp add: word_le_nat_alt)
  then show ?thesis using assms m s by (auto simp: wait_ok_def wait_step_def Let_def)
qed

definition exp2_state :: "nat \<Rightarrow> nat \<Rightarrow> cfs_rq ptr \<times> cfs_rq ptr \<times> metrics list \<times> waits \<Rightarrow> bool" where
  "exp2_state k i s \<longleftrightarrow> (\<exists>e a mbuf v xs ys. s = (Ref e, Ref a, mbuf, v) \<and> rq_view e xs \<and> rq_view a ys \<and>
     length xs = 11 \<and> length ys = 11 \<and> length mbuf = k \<and> wait_ok i v)"

text \<open>After the switch of the interactive task, a tick that is off has no wait to count.\<close>

lemma exp2_switch_view:
  assumes "rq_view e xs" and "rq_view a ys" and "length xs = 11" and "length ys = 11" and "wait_ok i v"
  shows "\<exists>e' a' v' xs' ys'. exp2_switch (int (i mod 10)) (Ref e, Ref a, v) = Some (Ref e', Ref a', v') \<and>
    rq_view e' xs' \<and> rq_view a' ys' \<and> length xs' = 11 \<and> length ys' = 11 \<and> max_wait v' \<le> 5 \<and>
    unat (current_wait v') \<le> (if i mod 10 < 5 then i mod 10 else 0) \<and>
    runnable (ys' ! 0) = (if i mod 10 < 5 then 1 else 0)"
proof -
  define r :: int where "r = (if i mod 10 < 5 then 1 else 0)"
  have r: "r \<in> {0, 1}" by (simp add: r_def)
  note e = set_interactive_view [OF assms(1,3) r] and a = set_interactive_view [OF assms(2,4) r]
  have flag: "runnable (ys[0 := (ys ! 0)\<lparr>runnable := r\<rparr>] ! 0) = r"
    using assms(4) by (subst nth_list_update_eq) auto
  show ?thesis
  proof (cases "i mod 10 < 5")
    case True
    then have "exp2_switch (int (i mod 10)) (Ref e, Ref a, v) =
        Some (Ref (e\<lparr>tasks := Ref (xs[0 := (xs ! 0)\<lparr>runnable := r\<rparr>])\<rparr>), Ref (a\<lparr>tasks := Ref (ys[0 := (ys ! 0)\<lparr>runnable := r\<rparr>])\<rparr>),
              if was_blocked v = 1 then v\<lparr>current_wait := 0, was_blocked := 0\<rparr> else v)"
      using e(1) a(1) by (simp add: exp2_switch_def r_def)
    then show ?thesis using e(2) a(2) flag assms(3-5) True
      by (intro exI conjI) (assumption | simp add: r_def wait_ok_def)+
  next
    case False
    then have "exp2_switch (int (i mod 10)) (Ref e, Ref a, v) =
        Some (Ref (e\<lparr>tasks := Ref (xs[0 := (xs ! 0)\<lparr>runnable := r\<rparr>])\<rparr>), Ref (a\<lparr>tasks := Ref (ys[0 := (ys ! 0)\<lparr>runnable := r\<rparr>])\<rparr>),
              v\<lparr>was_blocked := 1, current_wait := 0\<rparr>)"
      using e(1) a(1) by (simp add: exp2_switch_def r_def)
    then show ?thesis using e(2) a(2) flag assms(3-5) False
      by (intro exI conjI) (assumption | simp add: r_def wait_ok_def)+
  qed
qed

lemma exp2_measure_view:
  assumes "rq_view a ys" and "length ys = 11" and "max_wait v \<le> 5"
    and "unat (current_wait v) \<le> (if i mod 10 < 5 then i mod 10 else 0)"
    and "i mod 10 < 5 \<or> runnable (ys ! 0) \<noteq> 1"
  shows "\<exists>v'. exp2_measure (Ref a) v = Some v' \<and> wait_ok (Suc i) v'"
proof (cases "runnable (ys ! 0) = 1")
  case True
  have "for_loop 0 11 (\<lambda>j s. arr_get ys j \<bind> (\<lambda>t. Some (min_acc j t s))) (UINT64_MAX, - 1) =
      Some (fold (\<lambda>j. min_acc (int j) (ys ! j)) [0..<11] (UINT64_MAX, - 1))"
    using for_loop_fold [of 0 11 "\<lambda>j s. arr_get ys j \<bind> (\<lambda>t. Some (min_acc j t s))" "\<lambda>j. min_acc (int j) (ys ! j)"]
      assms(2) by simp
  moreover have "i mod 10 < 5" using True assms(5) by simp
  then have "wait_ok (Suc i) (wait_step m v)" for m using assms by (intro wait_step_ok) auto
  ultimately show ?thesis using True rq_view_tasks [OF assms(1)] assms(2)
    by (auto simp: exp2_measure_def arr_get_def split: prod.split)
next
  case False
  have "Suc i mod 10 = Suc (i mod 10)" if "i mod 10 < 5" using that by (simp add: mod_Suc)
  then have "wait_ok (Suc i) v" using assms(3,4) by (auto simp: wait_ok_def split: if_splits)
  moreover have "arr_get ys 0 = Some (ys ! 0)" using assms(2) by (simp add: arr_get_def)
  ultimately show ?thesis using False rq_view_tasks [OF assms(1)] by (simp add: exp2_measure_def)
qed

text \<open>Ticks leave the runnable flags alone.\<close>

lemma approx_tick_member: "approx_tick logic \<in> {exact_tick, bsa_tick, clti_tick, apaf_tick}"
  by (simp add: approx_tick_def)

lemma approx_tick_runnable:
  assumes "rq_view rq xs"
  obtains rq' xs' where "approx_tick logic (Ref rq) = Some (Ref rq')" and "rq_view rq' xs'"
    and "length xs' = length xs" and "map runnable xs' = map runnable xs"
proof -
  have one: "run_ticks tk 1 p = tk p" for tk p by (cases "tk p") simp_all
  have "\<exists>rq' xs'. approx_tick logic (Ref rq) = Some (Ref rq') \<and> rq_view rq' xs' \<and> map runnable xs' = map runnable xs"
    using approx_tick_member [of logic]
      exact.run_frame [OF assms, of 1, unfolded one] bsa.run_frame [OF assms, of 1, unfolded one]
      clti.run_frame [OF assms, of 1, unfolded one] apaf.run_frame [OF assms, of 1, unfolded one]
    by (elim insertE emptyE) (simp only:, blast)+
  then show thesis using that map_eq_imp_length_eq by metis
qed

lemma exp2_step_state:
  assumes "exp2_state k i s" and "i < k"
  shows "\<exists>s'. exp2_step logic (int i) s = Some s' \<and> exp2_state k (Suc i) s'"
proof -
  obtain e a mbuf v xs ys where s: "s = (Ref e, Ref a, mbuf, v)" "rq_view e xs" "rq_view a ys"
    "length xs = 11" "length ys = 11" "length mbuf = k" "wait_ok i v" using assms(1) by (auto simp: exp2_state_def)
  obtain e1 a1 v1 xs1 ys1 where 1: "exp2_switch (int (i mod 10)) (Ref e, Ref a, v) = Some (Ref e1, Ref a1, v1)"
    "rq_view e1 xs1" "rq_view a1 ys1" "length xs1 = 11" "length ys1 = 11" "max_wait v1 \<le> 5"
    "unat (current_wait v1) \<le> (if i mod 10 < 5 then i mod 10 else 0)"
    "runnable (ys1 ! 0) = (if i mod 10 < 5 then 1 else 0)"
    using exp2_switch_view [OF s(2-5,7)] by (elim exE conjE) (rule that; assumption)
  have pos: "c_mod (int i) 10 = int (i mod 10)"
    by (simp add: c_mod_nonneg zmod_int)
  obtain e2 xs2 where 2: "exact_tick (Ref e1) = Some (Ref e2)" "rq_view e2 xs2" "length xs2 = 11"
    using exact.refines [OF 1(2)] exact.view_spec_tick [OF 1(2)] 1(4) length_spec_tasks by metis
  obtain a2 ys2 where 3: "approx_tick logic (Ref a1) = Some (Ref a2)" "rq_view a2 ys2" "length ys2 = 11"
    "map runnable ys2 = map runnable ys1" using approx_tick_runnable [OF 1(3), of logic] 1(5) by metis
  have "runnable (ys2 ! 0) = runnable (ys1 ! 0)"
    using 3(3,4) 1(5) by (metis nth_map zero_less_numeral)
  then obtain v2 where 4: "exp2_measure (Ref a2) v1 = Some v2" "wait_ok (Suc i) v2"
    using exp2_measure_view [OF 3(2,3) 1(6,7)] 1(8) by (auto split: if_splits)
  obtain m where 5: "metrics_record (Ref (mbuf ! i)) (Ref a2) (Ref e2) = Some (Ref m)"
    using metrics_record_defined [OF 3(2) 2(2)] 3(3) 2(3) by auto
  obtain c e3 where 6: "rq_count_running (Ref e2) = Some (c, Ref e3)" "rq_view e3 xs2"
    using count_running_view [OF 2(2)] by blast
  obtain d a3 where 7: "rq_count_running (Ref a2) = Some (d, Ref a3)" "rq_view a3 ys2"
    using count_running_view [OF 3(2)] by blast
  have "exp2_step logic (int i) s = Some (Ref e3, Ref a3, mbuf[i := m], v2)"
    using s(1,6) 1(1) 2(1) 3(1) 4(1) 5 6(1) 7(1) assms(2) by (simp add: exp2_step_def pos)
  moreover have "exp2_state k (Suc i) (Ref e3, Ref a3, mbuf[i := m], v2)"
    using 6(2) 7(2) 2(3) 3(3) 4(2) s(6) by (auto simp: exp2_state_def)
  ultimately show ?thesis by blast
qed

lemma exp2_loop:
  assumes "exp2_state k 0 s"
  shows "\<exists>s'. for_loop 0 (int k) (exp2_step logic) s = Some s' \<and> exp2_state k k s'"
  using for_loop_invariant [of "exp2_state k" 0 s k "exp2_step logic"] assms exp2_step_state by auto

section \<open>The whole run\<close>

lemma exp2_setup_view:
  assumes "length xs = 11" and "length ys = 11"
  obtains xs' ys' where "exp2_setup xs ys = Some (xs', ys')" and "length xs' = 11" and "length ys' = 11"
proof -
  let ?body = "\<lambda>i (xs, ys). do {
       t \<leftarrow> task_create i BATCH_NICE;
       xs \<leftarrow> arr_set xs i t;
       u \<leftarrow> task_create i BATCH_NICE;
       ys \<leftarrow> arr_set ys i u;
       Some (xs, ys)
     }"
  let ?I = "\<lambda>_ (xs :: cfs_task list, ys :: cfs_task list). length xs = 11 \<and> length ys = 11"
  have "arr_set zs 0 t = Some (zs[0 := t])" if "length zs = 11" for zs and t :: cfs_task
    using that by (simp add: arr_set_def)
  moreover have "\<exists>s. for_loop (int 1) (int 11) ?body (xs[0 := t], ys[0 := t]) = Some s \<and> ?I 11 s" for t
    by (rule for_loop_invariant [where P = ?I]) (use assms in \<open>auto simp: task_create_view\<close>)
  ultimately show thesis using assms that by (fastforce simp: exp2_setup_def task_create_view)
qed

lemma exp2_finish_view:
  assumes "rq_view rq ts" and "length ts = 11" and "length mbuf = k" and "0 < k"
  obtains r w' where "exp2_finish can_open logic (int k) (Ref rq) mbuf v w = Some (r, w')"
    and "e2_logic r = logic" and "e2_ticks r = int k" and "max_wait_ticks r = max_wait v"
    and "files w' = (if can_open (exp2_file logic)
      then (files w)(exp2_file logic \<mapsto> METRICS_CSV_HEADER @ concat (map (\<lambda>m. csv_row m N_TOTAL) mbuf))
      else files w)"
proof -
  have agg: "for_loop 0 (int k) (\<lambda>i s. arr_get mbuf i \<bind> (\<lambda>m. Some (exp2_acc m s))) z = Some (fold exp2_acc mbuf z)" for z
    using for_loop_arr_fold [of mbuf exp2_acc z] assms(3) by simp
  obtain se ops mx where f: "fold exp2_acc mbuf (0, 0, 0) = (se, ops, mx)" by (cases "fold exp2_acc mbuf (0, 0, 0)")
  have "\<exists>s. for_loop (int 1) (int 11) (\<lambda>i (b_sum, b_sq). do {
         t \<leftarrow> arr_get ts i;
         let rt = f_of_u64 (exec_runtime t);
         Some (b_sum + rt, b_sq + rt * rt)
       }) (0, 0) = Some s \<and> True"
    by (rule for_loop_invariant) (use assms(2) in \<open>auto simp: Let_def split: prod.splits\<close>)
  then obtain j t where batch: "exp2_batch ts = Some (j, t)" by (auto simp: exp2_batch_def split: prod.splits)
  have t0: "arr_get ts 0 = Some (ts ! 0)" using assms(2) by (simp add: arr_get_def)
  obtain sh where share: "exp2_share ts = Some sh"
    using for_loop_arr_fold [of ts "\<lambda>t s. s + exec_runtime t" 0] assms(2) t0 by (simp add: exp2_share_def)
  obtain w' where w': "metrics_write_csv can_open (Ref mbuf) (int k) N_TOTAL (Ref (exp2_file logic)) w = Some w'"
    "files w' = (if can_open (exp2_file logic)
      then (files w)(exp2_file logic \<mapsto> METRICS_CSV_HEADER @ concat (map (\<lambda>m. csv_row m N_TOTAL) mbuf))
      else files w)"
    using metrics_write_csv_view [of "int k" mbuf can_open N_TOTAL "exp2_file logic" w] assms(3,4) by auto
  show thesis
    by (rule that [OF _ _ _ _ w'(2)])
      (use agg f batch share t0 w'(1) rq_view_tasks [OF assms(1)] in \<open>simp add: exp2_finish_def\<close>, simp_all)
qed

lemma run_exp2_view:
  assumes "exp1_mem k 11 mem" and "0 < k"
  obtains r w' mbuf where "run_exp2 mem can_open logic (int k) w = Some (r, w')"
    and "e2_logic r = logic" and "e2_ticks r = int k" and "max_wait_ticks r \<le> 5" and "length mbuf = k"
    and "files w' = (if can_open (exp2_file logic)
      then (files w)(exp2_file logic \<mapsto> METRICS_CSV_HEADER @ concat (map (\<lambda>m. csv_row m N_TOTAL) mbuf))
      else files w)"
proof -
  obtain xl yl ms where m: "mem = (Ref xl, Ref yl, Ref ms)" "length xl = 11" "length yl = 11" "length ms = k"
    using assms(1) by (auto simp: exp1_mem_def)
  obtain xs ys where su: "exp2_setup xl yl = Some (xs, ys)" "length xs = 11" "length ys = 11"
    using exp2_setup_view [OF m(2,3)] by blast
  have init: "\<exists>rq. rq_init (Ref zs) 11 mode = Some rq \<and> rq_view rq zs" if "length zs = 11" for zs mode
    using rq_init_view [of zs mode] that by (simp add: rq_view_def)
  obtain e a where ea: "rq_init (Ref xs) 11 0 = Some e" "rq_view e xs" "rq_init (Ref ys) 11 logic = Some a" "rq_view a ys"
    using init [OF su(2)] init [OF su(3)] by blast
  have "min (int k) METRICS_MAX_TICKS \<le> int (length ms)" using m(4) by simp
  then obtain mb where mb: "metrics_init (Ref ms) (int k) = Some (Ref mb)" "length mb = k"
    using metrics_init_view [of "int k" ms] assms(2) m(4) by (auto simp: Let_def min_def)
  let ?v = "\<lparr>max_wait = 0, sum_wait = 0, wait_events = 0, current_wait = 0, was_blocked = 1\<rparr>"
  have "exp2_state k 0 (Ref e, Ref a, mb, ?v)"
    unfolding exp2_state_def using ea(2,4) su(2,3) mb(2) by (auto simp: wait_ok_def)
  from exp2_loop [OF this, of logic] obtain e' a' mbuf v zs where run:
    "for_loop 0 (int k) (exp2_step logic) (Ref e, Ref a, mb, ?v) = Some (Ref e', Ref a', mbuf, v)"
    "rq_view a' zs" "length zs = 11" "length mbuf = k" "wait_ok k v" by (auto simp: exp2_state_def)
  obtain r w' where fin: "exp2_finish can_open logic (int k) (Ref a') mbuf v w = Some (r, w')"
    "e2_logic r = logic" "e2_ticks r = int k" "max_wait_ticks r = max_wait v"
    "files w' = (if can_open (exp2_file logic)
      then (files w)(exp2_file logic \<mapsto> METRICS_CSV_HEADER @ concat (map (\<lambda>m. csv_row m N_TOTAL) mbuf))
      else files w)"
    by (rule exp2_finish_view [OF run(2-4) assms(2)])
  have "run_exp2 mem can_open logic (int k) w = Some (r, w')"
    using m(1) su(1) ea(1,3) mb(1) run(1) fin(1) by (simp add: run_exp2_def)
  then show thesis using that fin(2-5) run(4,5) by (auto simp: wait_ok_def)
qed

text \<open>
  C22. The tail latency the experiment reports can never exceed 5 ticks, whatever the policy and
  however long it runs: the wait is cut off when the interactive task goes to sleep, which
  it does after 5 ticks. So the comparison of tail latencies across policies has a ceiling.
\<close>

theorem exp2_wait_bounded:
  assumes "exp1_mem k 11 mem" and "0 < k"
  shows "\<exists>r w'. run_exp2 mem can_open logic (int k) w = Some (r, w') \<and>
    e2_logic r = logic \<and> e2_ticks r = int k \<and> max_wait_ticks r \<le> 5"
  by (rule run_exp2_view [OF assms, of can_open logic w]) blast

theorem exp2_wait_bounded_witness:
  "\<exists>r w'. run_exp2 (Ref (replicate 11 (nice0_task 0)), Ref (replicate 11 (nice0_task 0)), Ref (replicate 2000 zero_metrics))
     (\<lambda>_. True) 3 2000 \<lparr>stdout = [], files = Map.empty\<rparr> = Some (r, w') \<and> max_wait_ticks r \<le> 5"
  using exp2_wait_bounded [of 2000 "(Ref (replicate 11 (nice0_task 0)), Ref (replicate 11 (nice0_task 0)),
      Ref (replicate 2000 zero_metrics))" "\<lambda>_. True" 3 "\<lparr>stdout = [], files = Map.empty\<rparr>"]
  by (auto simp: exp1_mem_def)

section \<open>The whole experiment\<close>

lemma exp2_file_names:
  "exp2_file 0 = ''results/exp2_EXACT.csv''" "exp2_file 1 = ''results/exp2_BSA.csv''"
  "exp2_file 2 = ''results/exp2_CLTI.csv''" "exp2_file 3 = ''results/exp2_APAF.csv''"
  by (simp_all add: exp2_file_def metrics_get_logic_name_def)

definition exp2_csv :: "nat \<Rightarrow> int \<Rightarrow> io \<Rightarrow> bool" where
  "exp2_csv k logic w \<longleftrightarrow> (\<exists>mbuf. length mbuf = k \<and>
     files w (exp2_file logic) = Some (METRICS_CSV_HEADER @ concat (map (\<lambda>m. csv_row m N_TOTAL) mbuf)))"

lemma run_exp2_csv:
  assumes "exp1_mem 2000 11 mem"
  obtains r w' c where "run_exp2 mem can_open logic 2000 w = Some (r, w')" and "max_wait_ticks r \<le> 5"
    and "files w' = (if can_open (exp2_file logic) then (files w)(exp2_file logic \<mapsto> c) else files w)"
    and "\<exists>mbuf. length mbuf = (2000::nat) \<and> c = METRICS_CSV_HEADER @ concat (map (\<lambda>m. csv_row m N_TOTAL) mbuf)"
  by (rule run_exp2_view [OF assms, of can_open logic w]) (simp, rule that, simp_all, blast)

text \<open>
  The second experiment is defined, whatever the memory it is given holds: it returns 0 exactly
  when its summary file can be opened and 1 otherwise, and every CSV file that can be opened
  holds the header and exactly 2000 rows.
\<close>

theorem exp2_main_files:
  assumes "\<forall>logic \<in> {0, 1, 2, 3}. exp1_mem 2000 11 (mem logic)"
  shows "\<exists>c w'. exp2_main mem can_open w = Some (c, w') \<and>
    c = (if can_open ''results/exp2_summary.txt'' then 0 else 1) \<and>
    (\<forall>logic \<in> {0, 1, 2, 3}. can_open (exp2_file logic) \<longrightarrow> exp2_csv 2000 logic w')"
proof -
  have mem: "exp1_mem 2000 11 (mem 0)" "exp1_mem 2000 11 (mem 1)" "exp1_mem 2000 11 (mem 2)" "exp1_mem 2000 11 (mem 3)"
    using assms by simp_all
  let ?w = "put (lines_of
       [''================================'', ''APEX-CFS Experiment 2'', ''Mixed Workload'',
        ''1 interactive (nice=-10) + 10 batch (nice=0)'', ''Ticks: '' @ fmt_d 2000,
        ''Interactive: ON '' @ fmt_d INTERACTIVE_ON @ '' ticks, OFF '' @ fmt_d INTERACTIVE_OFF @ '' ticks'',
        ''================================'', []]) w"
  let ?p = "\<lambda>l r w. put (lines_of (exp2_lines l r)) w"
  obtain r0 w0 c0 where 0: "run_exp2 (mem 0) can_open 0 2000 ?w = Some (r0, w0)"
    "files w0 = (if can_open (exp2_file 0) then (files ?w)(exp2_file 0 \<mapsto> c0) else files ?w)"
    "\<exists>mbuf. length mbuf = (2000::nat) \<and> c0 = METRICS_CSV_HEADER @ concat (map (\<lambda>m. csv_row m N_TOTAL) mbuf)"
    by (rule run_exp2_csv [OF mem(1)])
  obtain r1 w1 c1 where 1: "run_exp2 (mem 1) can_open 1 2000 (?p 0 r0 w0) = Some (r1, w1)"
    "files w1 = (if can_open (exp2_file 1) then (files (?p 0 r0 w0))(exp2_file 1 \<mapsto> c1) else files (?p 0 r0 w0))"
    "\<exists>mbuf. length mbuf = (2000::nat) \<and> c1 = METRICS_CSV_HEADER @ concat (map (\<lambda>m. csv_row m N_TOTAL) mbuf)"
    by (rule run_exp2_csv [OF mem(2)])
  obtain r2 w2 c2 where 2: "run_exp2 (mem 2) can_open 2 2000 (?p 1 r1 w1) = Some (r2, w2)"
    "files w2 = (if can_open (exp2_file 2) then (files (?p 1 r1 w1))(exp2_file 2 \<mapsto> c2) else files (?p 1 r1 w1))"
    "\<exists>mbuf. length mbuf = (2000::nat) \<and> c2 = METRICS_CSV_HEADER @ concat (map (\<lambda>m. csv_row m N_TOTAL) mbuf)"
    by (rule run_exp2_csv [OF mem(3)])
  obtain r3 w3 c3 where 3: "run_exp2 (mem 3) can_open 3 2000 (?p 2 r2 w2) = Some (r3, w3)"
    "files w3 = (if can_open (exp2_file 3) then (files (?p 2 r2 w2))(exp2_file 3 \<mapsto> c3) else files (?p 2 r2 w2))"
    "\<exists>mbuf. length mbuf = (2000::nat) \<and> c3 = METRICS_CSV_HEADER @ concat (map (\<lambda>m. csv_row m N_TOTAL) mbuf)"
    by (rule run_exp2_csv [OF mem(4)])
  have "\<exists>c w'. exp2_main mem can_open w = Some (c, w') \<and> c = (if can_open ''results/exp2_summary.txt'' then 0 else 1) \<and>
      (\<forall>f. f \<noteq> ''results/exp2_summary.txt'' \<longrightarrow> files w' f = files w3 f)"
    using 0(1) 1(1) 2(1) 3(1) by (simp add: exp2_main_def for_loop_step arr_get_def arr_set_def)
  then obtain c w' where m: "exp2_main mem can_open w = Some (c, w')"
    "c = (if can_open ''results/exp2_summary.txt'' then 0 else 1)"
    and same: "\<forall>f. f \<noteq> ''results/exp2_summary.txt'' \<longrightarrow> files w' f = files w3 f" by blast
  note at = 0(2) 1(2) 2(2) 3(2)
  have "can_open (exp2_file 0) \<longrightarrow> files w' (exp2_file 0) = Some c0" "can_open (exp2_file 1) \<longrightarrow> files w' (exp2_file 1) = Some c1"
    "can_open (exp2_file 2) \<longrightarrow> files w' (exp2_file 2) = Some c2" "can_open (exp2_file 3) \<longrightarrow> files w' (exp2_file 3) = Some c3"
    using same at by (simp_all add: exp2_file_names)
  then have "\<forall>logic \<in> {0, 1, 2, 3}. can_open (exp2_file logic) \<longrightarrow> exp2_csv 2000 logic w'"
    using 0(3) 1(3) 2(3) 3(3) by (simp add: exp2_csv_def)
  then show ?thesis using m by blast
qed

theorem exp2_main_files_witness:
  "\<exists>w'. exp2_main (\<lambda>_. (Ref (replicate 11 (nice0_task 0)), Ref (replicate 11 (nice0_task 0)), Ref (replicate 2000 zero_metrics)))
     (\<lambda>_. True) \<lparr>stdout = [], files = Map.empty\<rparr> = Some (0, w') \<and> exp2_csv 2000 3 w'"
  using exp2_main_files [of "\<lambda>_. (Ref (replicate 11 (nice0_task 0)), Ref (replicate 11 (nice0_task 0)),
      Ref (replicate 2000 zero_metrics))" "\<lambda>_. True" "\<lparr>stdout = [], files = Map.empty\<rparr>"]
  by (auto simp: exp1_mem_def)

end
