(* ===== verification/Exp3_Dynamic_Spike.thy ===== *)
theory Exp3_Dynamic_Spike
  imports Exp1_Report
begin

text \<open>
  src/apex-cfs/experiments/exp3_dynamic_spike.c: 5, then 55, then 15 runnable tasks under the
  exact policy and under APAF side by side; every change of the controller's state is logged,
  and the log and the phases are summarised. The local variables of \<open>main\<close> that the loop
  changes are the record \<open>exp3\<close>; the four blocks of memory are parameters, and the tasks are read
  through the runqueues.
\<close>

abbreviation (input) PHASE1_TASKS :: int where "PHASE1_TASKS \<equiv> 5"
abbreviation (input) PHASE2_TASKS :: int where "PHASE2_TASKS \<equiv> 55"
abbreviation (input) PHASE3_TASKS :: int where "PHASE3_TASKS \<equiv> 15"
abbreviation (input) MAX_TASKS :: int where "MAX_TASKS \<equiv> 55"
abbreviation (input) PHASE1_END :: int where "PHASE1_END \<equiv> 500"
abbreviation (input) PHASE2_END :: int where "PHASE2_END \<equiv> 1500"
abbreviation (input) TOTAL_TICKS :: int where "TOTAL_TICKS \<equiv> 2001"

record transition_event =
  te_tick :: u64
  old_state :: int
  new_state :: int
  jain_at_transition :: f64
  te_phase :: int

record phase_summary =
  ps_phase :: int
  ps_n_tasks :: int
  tick_start :: u64
  tick_end :: u64
  ps_avg_jain :: f64
  ps_min_jain :: f64
  dominant_state :: int
  ps_n_transitions :: int

record exp3 =
  x_exact :: "cfs_rq ptr"
  x_apaf :: "cfs_rq ptr"
  x_exact_buf :: "metrics list"
  x_apaf_buf :: "metrics list"
  x_transitions :: "transition_event list"
  x_n_transitions :: int
  x_phases :: "phase_summary list"
  x_state_counts :: "int list list"
  x_prev_state :: int
  x_phase :: int
  x_out :: io

section \<open>The loop\<close>

text \<open>The runnable flag of the tasks from \<open>lo\<close> on, below \<open>hi\<close>.\<close>

definition set_runnable_range :: "int \<Rightarrow> int \<Rightarrow> int \<Rightarrow> cfs_rq ptr \<Rightarrow> cfs_rq ptr option" where
  "set_runnable_range lo hi r p = do {
     rq \<leftarrow> c_deref p;
     ts \<leftarrow> c_deref (tasks rq);
     ts \<leftarrow> for_loop lo hi (\<lambda>t ts. arr_get ts t \<bind> (\<lambda>u. arr_set ts t (u\<lparr>runnable := r\<rparr>))) ts;
     Some (Ref (rq\<lparr>tasks := Ref ts\<rparr>))
   }"

definition exp3_change :: "int \<Rightarrow> int \<Rightarrow> int \<Rightarrow> int \<Rightarrow> exp3 \<Rightarrow> exp3 option" where
  "exp3_change lo hi r phase s = do {
     e \<leftarrow> set_runnable_range lo hi r (x_exact s);
     a \<leftarrow> set_runnable_range lo hi r (x_apaf s);
     (_, e) \<leftarrow> rq_count_running e;
     (_, a) \<leftarrow> rq_count_running a;
     Some (s\<lparr>x_exact := e, x_apaf := a, x_phase := phase\<rparr>)
   }"

definition exp3_phase_change :: "int \<Rightarrow> exp3 \<Rightarrow> exp3 option" where
  "exp3_phase_change i s = do {
     s \<leftarrow> (if i = PHASE1_END then
             exp3_change PHASE1_TASKS PHASE2_TASKS 1 2
               (s\<lparr>x_out := put (''[tick '' @ fmt_d i @ ''] SPIKE: '' @ fmt_d PHASE1_TASKS @ '' -> '' @
                                fmt_d PHASE2_TASKS @ '' tasks'' @ nl) (x_out s)\<rparr>)
           else Some s);
     if i = PHASE2_END then
       exp3_change PHASE3_TASKS MAX_TASKS 0 3
         (s\<lparr>x_out := put (''[tick '' @ fmt_d i @ ''] RECOVERY: '' @ fmt_d PHASE2_TASKS @ '' -> '' @
                          fmt_d PHASE3_TASKS @ '' tasks'' @ nl) (x_out s)\<rparr>)
     else Some s
   }"

text \<open>A change of the controller's state is logged, while the log of 100 entries has room.\<close>

definition exp3_log :: "int \<Rightarrow> cfs_rq \<Rightarrow> exp3 \<Rightarrow> exp3 option" where
  "exp3_log i rq s =
     (if apaf_state rq \<noteq> x_prev_state s then do {
        s \<leftarrow> (if x_n_transitions s < 100 then do {
                ts \<leftarrow> arr_set (x_transitions s) (x_n_transitions s)
                  \<lparr>te_tick = word_of_int i, old_state = x_prev_state s, new_state = apaf_state rq,
                   jain_at_transition = jain_index rq, te_phase = x_phase s\<rparr>;
                Some (s\<lparr>x_transitions := ts, x_n_transitions := x_n_transitions s + 1\<rparr>)
              } else Some s);
        Some (s\<lparr>x_out := put (''[tick '' @ fmt_d i @ ''] APAF: '' @ metrics_get_state_name 3 (x_prev_state s) @
                 '' -> '' @ metrics_get_state_name 3 (apaf_state rq) @ '' (J='' @ fmt_f 4 (jain_index rq) @
                 '', phase='' @ fmt_d (x_phase s) @ '')'' @ nl) (x_out s),
               x_prev_state := apaf_state rq\<rparr>)
      } else Some s)"

definition exp3_phase :: "int \<Rightarrow> cfs_rq \<Rightarrow> exp3 \<Rightarrow> exp3 option" where
  "exp3_phase i rq s = do {
     let ph = x_phase s - 1;
     let j = jain_index rq;
     p \<leftarrow> arr_get (x_phases s) ph;
     let p = p\<lparr>ps_phase := x_phase s,
               ps_n_tasks := (if x_phase s = 1 then PHASE1_TASKS else if x_phase s = 2 then PHASE2_TASKS
                              else PHASE3_TASKS),
               tick_start := word_of_int (if ph = 0 then 0 else if ph = 1 then PHASE1_END else PHASE2_END),
               tick_end := word_of_int i, ps_avg_jain := ps_avg_jain p + j\<rparr>;
     let p = (if j < ps_min_jain p then p\<lparr>ps_min_jain := j\<rparr> else p);
     ps \<leftarrow> arr_set (x_phases s) ph p;
     counts \<leftarrow> (if APAF_TIGHT \<le> apaf_state rq \<and> apaf_state rq \<le> APAF_LOOSE then do {
         row \<leftarrow> arr_get (x_state_counts s) ph;
         c \<leftarrow> arr_get row (apaf_state rq);
         row \<leftarrow> arr_set row (apaf_state rq) (c + 1);
         arr_set (x_state_counts s) ph row
       } else Some (x_state_counts s));
     Some (s\<lparr>x_phases := ps, x_state_counts := counts\<rparr>)
   }"

definition exp3_record :: "int \<Rightarrow> exp3 \<Rightarrow> exp3 option" where
  "exp3_record i s = do {
     m \<leftarrow> arr_get (x_exact_buf s) i;
     p \<leftarrow> metrics_record (Ref m) (x_exact s) (x_exact s);
     m \<leftarrow> c_deref p;
     eb \<leftarrow> arr_set (x_exact_buf s) i m;
     m \<leftarrow> arr_get (x_apaf_buf s) i;
     p \<leftarrow> metrics_record (Ref m) (x_apaf s) (x_exact s);
     m \<leftarrow> c_deref p;
     ab \<leftarrow> arr_set (x_apaf_buf s) i m;
     Some (s\<lparr>x_exact_buf := eb, x_apaf_buf := ab\<rparr>)
   }"

definition exp3_step :: "int \<Rightarrow> exp3 \<Rightarrow> exp3 option" where
  "exp3_step i s = do {
     s \<leftarrow> exp3_phase_change i s;
     e \<leftarrow> exact_tick (x_exact s);
     a \<leftarrow> apaf_tick (x_apaf s);
     let s = s\<lparr>x_exact := e, x_apaf := a\<rparr>;
     rq \<leftarrow> c_deref a;
     s \<leftarrow> exp3_log i rq s;
     s \<leftarrow> exp3_phase i rq s;
     exp3_record i s
   }"

section \<open>The setup\<close>

text \<open>The head of the output, and the state of \<open>main\<close> before its loop.\<close>

definition exp3_head :: "string list" where
  "exp3_head =
     [''================================'', ''APEX-CFS Experiment 3'', ''Dynamic Spike -- APAF Controller'',
      ''Phase 1: '' @ fmt_d PHASE1_TASKS @ '' tasks  (ticks 0-499)'',
      ''Phase 2: '' @ fmt_d PHASE2_TASKS @ '' tasks  (ticks 500-1499)'',
      ''Phase 3: '' @ fmt_d PHASE3_TASKS @ '' tasks  (ticks 1500-2000)'',
      ''================================'', []]"

definition exp3_tasks :: "cfs_task list \<Rightarrow> cfs_task list option" where
  "exp3_tasks ts = do {
     ts \<leftarrow> for_loop 0 MAX_TASKS (\<lambda>i ts. task_create i 0 \<bind> arr_set ts i) ts;
     ts \<leftarrow> for_loop 0 PHASE1_TASKS (\<lambda>i ts. arr_get ts i \<bind> (\<lambda>u. arr_set ts i (u\<lparr>runnable := 1\<rparr>))) ts;
     for_loop PHASE1_TASKS MAX_TASKS (\<lambda>i ts. arr_get ts i \<bind> (\<lambda>u. arr_set ts i (u\<lparr>runnable := 0\<rparr>))) ts
   }"

definition exp3_init :: "cfs_task list \<Rightarrow> cfs_task list \<Rightarrow> metrics list \<Rightarrow> metrics list \<Rightarrow> io \<Rightarrow> exp3 option" where
  "exp3_init xs ys ms ns w = do {
     xs \<leftarrow> exp3_tasks xs;
     ys \<leftarrow> exp3_tasks ys;
     exact_rq \<leftarrow> rq_init (Ref xs) MAX_TASKS 0;
     apaf_rq \<leftarrow> rq_init (Ref ys) MAX_TASKS 3;
     p \<leftarrow> metrics_init (Ref ms) TOTAL_TICKS;
     ms \<leftarrow> c_deref p;
     p \<leftarrow> metrics_init (Ref ns) TOTAL_TICKS;
     ns \<leftarrow> c_deref p;
     Some \<lparr>x_exact = Ref exact_rq, x_apaf = Ref apaf_rq, x_exact_buf = ms, x_apaf_buf = ns,
           x_transitions = replicate 100 \<lparr>te_tick = 0, old_state = 0, new_state = 0, jain_at_transition = 0, te_phase = 0\<rparr>,
           x_n_transitions = 0,
           x_phases = replicate 3 \<lparr>ps_phase = 0, ps_n_tasks = 0, tick_start = 0, tick_end = 0, ps_avg_jain = 0,
                                   ps_min_jain = 1, dominant_state = 0, ps_n_transitions = 0\<rparr>,
           x_state_counts = replicate 3 (replicate 3 0), x_prev_state = apaf_state apaf_rq, x_phase = 1,
           x_out = put (lines_of exp3_head) w\<rparr>
   }"

section \<open>The summary of the phases and of the log\<close>

definition exp3_averages :: "phase_summary list \<Rightarrow> phase_summary list option" where
  "exp3_averages ps = do {
     p0 \<leftarrow> arr_get ps 0;
     ps \<leftarrow> arr_set ps 0 (p0\<lparr>ps_avg_jain := ps_avg_jain p0 / f_of_int PHASE1_END\<rparr>);
     p1 \<leftarrow> arr_get ps 1;
     ps \<leftarrow> arr_set ps 1 (p1\<lparr>ps_avg_jain := ps_avg_jain p1 / f_of_int (PHASE2_END - PHASE1_END)\<rparr>);
     p2 \<leftarrow> arr_get ps 2;
     arr_set ps 2 (p2\<lparr>ps_avg_jain := ps_avg_jain p2 / f_of_int (TOTAL_TICKS - PHASE2_END)\<rparr>)
   }"

text \<open>The first state of the three with the largest count.\<close>

definition dominant_of :: "int list \<Rightarrow> int option" where
  "dominant_of row = do {
     (best_state, _) \<leftarrow> for_loop 0 3 (\<lambda>s (best_state, best_count). do {
         c \<leftarrow> arr_get row s;
         Some (if best_count < c then (s, c) else (best_state, best_count))
       }) (APAF_MEDIUM, - 1);
     Some best_state
   }"

definition exp3_dominant :: "int list list \<Rightarrow> phase_summary list \<Rightarrow> phase_summary list option" where
  "exp3_dominant counts ps =
     for_loop 0 3 (\<lambda>i ps. do {
       row \<leftarrow> arr_get counts i;
       d \<leftarrow> dominant_of row;
       p \<leftarrow> arr_get ps i;
       arr_set ps i (p\<lparr>dominant_state := d, ps_n_transitions := 0\<rparr>)
     }) ps"

text \<open>
  The phases with their transitions counted, and the first transition at or after the spike and
  at or after the recovery, with whether there is one.
\<close>

record reactions =
  reaction_ticks :: u64
  recovery_ticks :: u64
  found_reaction :: int
  found_recovery :: int

definition react :: "transition_event \<Rightarrow> reactions \<Rightarrow> reactions" where
  "react ev r =
     (let r = (if found_reaction r = 0 \<and> 500 \<le> te_tick ev
               then r\<lparr>reaction_ticks := te_tick ev - 500, found_reaction := 1\<rparr> else r)
      in if found_recovery r = 0 \<and> 1500 \<le> te_tick ev
         then r\<lparr>recovery_ticks := te_tick ev - 1500, found_recovery := 1\<rparr> else r)"

definition exp3_analyse :: "transition_event list \<Rightarrow> int \<Rightarrow> phase_summary list
    \<Rightarrow> (phase_summary list \<times> reactions) option" where
  "exp3_analyse ts n ps =
     for_loop 0 n (\<lambda>i (ps, r). do {
       ev \<leftarrow> arr_get ts i;
       let ph = te_phase ev - 1;
       ps \<leftarrow> (if 0 \<le> ph \<and> ph < 3 then do {
                p \<leftarrow> arr_get ps ph;
                arr_set ps ph (p\<lparr>ps_n_transitions := ps_n_transitions p + 1\<rparr>)
              } else Some ps);
       Some (ps, react ev r)
     }) (ps, \<lparr>reaction_ticks = 0, recovery_ticks = 0, found_reaction = 0, found_recovery = 0\<rparr>)"

section \<open>The report\<close>

definition exp3_phase_lines :: "phase_summary \<Rightarrow> string list" where
  "exp3_phase_lines p =
     [''Phase '' @ fmt_d (ps_phase p) @ '' ('' @ fmt_d (ps_n_tasks p) @ '' tasks, ticks '' @
        fmt_llu (tick_start p) @ ''-'' @ fmt_llu (tick_end p) @ ''):'',
      ''  Avg Jain:       '' @ fmt_f 4 (ps_avg_jain p), ''  Min Jain:       '' @ fmt_f 4 (ps_min_jain p),
      ''  Dominant state: '' @ metrics_get_state_name 3 (dominant_state p)]"

definition exp3_report :: "int list list \<Rightarrow> phase_summary list \<Rightarrow> transition_event list \<Rightarrow> reactions \<Rightarrow> string list" where
  "exp3_report counts ps evs r =
     [[], ''==== Phase Summary ===='', []] @
     concat (map (\<lambda>(p, row). exp3_phase_lines p @
       [''  State counts:'', ''    TIGHT:  '' @ fmt_d (row ! 0) @ '' ticks'',
        ''    MEDIUM: '' @ fmt_d (row ! 1) @ '' ticks'', ''    LOOSE:  '' @ fmt_d (row ! 2) @ '' ticks'', []])
       (zip ps counts)) @
     [''==== Transition Log ===='', [], ''Total transitions: '' @ fmt_d (int (length evs)), []] @
     map (\<lambda>ev. ''  tick='' @ fmt_llu (te_tick ev) @ ''  phase='' @ fmt_d (te_phase ev) @ ''  '' @
          metrics_get_state_name 3 (old_state ev) @ '' -> '' @ metrics_get_state_name 3 (new_state ev) @
          ''  J='' @ fmt_f 4 (jain_at_transition ev)) evs @
     [[], ''==== Controller Performance ===='', [], ''Spike at tick 500:''] @
     (if found_reaction r \<noteq> 0
      then [''  Controller reaction: '' @ fmt_llu (reaction_ticks r) @ '' ticks'',
            ''  Reaction time: '' @ fmt_llu (reaction_ticks r) @ '' ms'']
      else [''  Controller reaction: 0 ticks'', ''  Reaction time: 0 ms'']) @
     [''Recovery at tick 1500:''] @
     (if found_recovery r \<noteq> 0
      then [''  Controller recovery: '' @ fmt_llu (recovery_ticks r) @ '' ticks after spike removal'']
      else [''  Controller recovery: 0 ticks after spike removal''])"

definition exp3_transitions_file :: "transition_event list \<Rightarrow> string" where
  "exp3_transitions_file evs = lines_of (
     [''APEX-CFS Experiment 3 -- APAF State Transitions'', ''Spike at tick 500 (5->55 tasks)'',
      ''Recovery at tick 1500 (55->15 tasks)'', []] @
     map (\<lambda>ev. ''tick='' @ fmt_llu (te_tick ev) @ '' phase='' @ fmt_d (te_phase ev) @ '' '' @
          metrics_get_state_name 3 (old_state ev) @ ''->'' @ metrics_get_state_name 3 (new_state ev) @
          '' J='' @ fmt_f 4 (jain_at_transition ev)) evs)"

definition exp3_summary_file :: "phase_summary list \<Rightarrow> reactions \<Rightarrow> string" where
  "exp3_summary_file ps r =
     (let reaction = ''- Reaction time: '' @ fmt_llu (reaction_ticks r) @ '' ticks ('' @ fmt_llu (reaction_ticks r) @ '' ms)''
      in lines_of (
        [''APEX-CFS Experiment 3 -- Dynamic Spike (APAF)'', []] @
        concat (map (\<lambda>p. exp3_phase_lines p @ [[]]) ps) @
        [''Controller performance:'', reaction,
         ''- Recovery time: '' @ fmt_llu (recovery_ticks r) @ '' ticks'', [],
         ''APAF controller confirmed adaptive:'',
         ''- Phase 1 (light): dominant='' @ metrics_get_state_name 3 (dominant_state (ps ! 0)),
         ''- Phase 2 (spike): dominant='' @ metrics_get_state_name 3 (dominant_state (ps ! 1)),
         ''- Phase 3 (recovery): dominant='' @ metrics_get_state_name 3 (dominant_state (ps ! 2)),
         reaction]))"

text \<open>Everything after the loop.\<close>

definition exp3_finish :: "(string \<Rightarrow> bool) \<Rightarrow> exp3 \<Rightarrow> (int \<times> io) option" where
  "exp3_finish can_open s = do {
     ps \<leftarrow> exp3_averages (x_phases s);
     ps \<leftarrow> exp3_dominant (x_state_counts s) ps;
     (ps, r) \<leftarrow> exp3_analyse (x_transitions s) (x_n_transitions s) ps;
     let evs = take (nat (x_n_transitions s)) (x_transitions s);
     let w = put (lines_of (exp3_report (x_state_counts s) ps evs r)) (x_out s);
     w \<leftarrow> metrics_write_csv can_open (Ref (x_exact_buf s)) TOTAL_TICKS MAX_TASKS (Ref ''results/exp3_EXACT.csv'') w;
     w \<leftarrow> metrics_write_csv can_open (Ref (x_apaf_buf s)) TOTAL_TICKS MAX_TASKS (Ref ''results/exp3_APAF.csv'') w;
     let w = (if can_open ''results/exp3_transitions.txt''
              then write_file ''results/exp3_transitions.txt'' (exp3_transitions_file evs) w else w);
     let w = (if can_open ''results/exp3_summary.txt''
              then write_file ''results/exp3_summary.txt'' (exp3_summary_file ps r) w else w);
     Some (0, put (lines_of
       [[], ''================================'', ''Experiment 3 COMPLETE'',
        ''Transitions logged: '' @ fmt_d (x_n_transitions s), ''CSV files: results/exp3_*.csv'',
        ''Transitions: results/exp3_transitions.txt'', ''Summary: results/exp3_summary.txt'',
        ''================================'']) w)
   }"

definition exp3_main :: "cfs_task list ptr \<Rightarrow> cfs_task list ptr \<Rightarrow> metrics list ptr \<Rightarrow> metrics list ptr
    \<Rightarrow> (string \<Rightarrow> bool) \<Rightarrow> io \<Rightarrow> (int \<times> io) option" where
  "exp3_main exact_mem apaf_mem exact_buf apaf_buf can_open w =
     (case (exact_mem, apaf_mem, exact_buf, apaf_buf) of
        (Ref xs, Ref ys, Ref ms, Ref ns) \<Rightarrow> do {
          s \<leftarrow> exp3_init xs ys ms ns w;
          s \<leftarrow> for_loop 0 TOTAL_TICKS exp3_step s;
          exp3_finish can_open s
        }
      | _ \<Rightarrow> Some (1, put (''ERROR: allocation failed'' @ nl) w))"

section \<open>The invariant of the loop\<close>

text \<open>An event of the log: one level, at a tick before \<open>i\<close> at which the controller runs, in its phase.\<close>

definition event_ok :: "nat \<Rightarrow> transition_event \<Rightarrow> bool" where
  "event_ok i ev \<longleftrightarrow> unat (te_tick ev) < i \<and> unat (te_tick ev) mod 4 = 3 \<and>
     old_state ev \<in> apaf_states \<and> new_state ev \<in> apaf_states \<and> \<bar>new_state ev - old_state ev\<bar> = 1 \<and>
     te_phase ev = (if unat (te_tick ev) < 500 then 1 else if unat (te_tick ev) < 1500 then 2 else 3)"

text \<open>How many of the ticks before \<open>i\<close> belong to the phase with index \<open>ph\<close>.\<close>

definition phase_ticks :: "nat \<Rightarrow> nat \<Rightarrow> int" where
  "phase_ticks ph i = int (if ph = 0 then min i 500 else if ph = 1 then min i 1500 - min i 500 else i - min i 1500)"

text \<open>The part of the state that a change of the phase leaves alone.\<close>

definition exp3_rest :: "exp3 \<Rightarrow> metrics list \<times> metrics list \<times> transition_event list \<times> int
    \<times> phase_summary list \<times> int list list \<times> int" where
  "exp3_rest s = (x_exact_buf s, x_apaf_buf s, x_transitions s, x_n_transitions s, x_phases s,
     x_state_counts s, x_prev_state s)"

definition exp3_core :: "nat \<Rightarrow> int \<Rightarrow> exp3 \<Rightarrow> bool" where
  "exp3_core i st s \<longleftrightarrow> (\<exists>e a xs ys. x_exact s = Ref e \<and> x_apaf s = Ref a \<and> rq_view e xs \<and> rq_view a ys \<and>
     length xs = 55 \<and> length ys = 55 \<and> tick a = of_nat i \<and> apaf_state a = st)"

definition log_ok :: "nat \<Rightarrow> exp3 \<Rightarrow> bool" where
  "log_ok i s \<longleftrightarrow> length (x_transitions s) = 100 \<and> 0 \<le> x_n_transitions s \<and> x_n_transitions s \<le> 100 \<and>
     (\<forall>k < nat (x_n_transitions s). event_ok i (x_transitions s ! k))"

definition counts_ok :: "nat \<Rightarrow> int list list \<Rightarrow> bool" where
  "counts_ok i cs \<longleftrightarrow> length cs = 3 \<and> (\<forall>ph < 3. length (cs ! ph) = 3 \<and> sum_list (cs ! ph) = phase_ticks ph i)"

definition exp3_inv :: "nat \<Rightarrow> exp3 \<Rightarrow> bool" where
  "exp3_inv i s \<longleftrightarrow> exp3_core i (x_prev_state s) s \<and> x_prev_state s \<in> apaf_states \<and>
     length (x_exact_buf s) = 2001 \<and> length (x_apaf_buf s) = 2001 \<and> log_ok i s \<and>
     length (x_phases s) = 3 \<and> counts_ok i (x_state_counts s) \<and>
     x_phase s = (if i \<le> 500 then 1 else if i \<le> 1500 then 2 else 3)"

lemma set_runnable_range_view:
  assumes "rq_view rq xs" and "length xs = 55" and "lo \<le> hi" and "hi \<le> 55"
  obtains xs' where "set_runnable_range (int lo) (int hi) r (Ref rq) = Some (Ref (rq\<lparr>tasks := Ref xs'\<rparr>))"
    and "rq_view (rq\<lparr>tasks := Ref xs'\<rparr>) xs'" and "length xs' = 55"
proof -
  have "\<exists>ts. for_loop (int lo) (int hi) (\<lambda>t ts. arr_get ts t \<bind> (\<lambda>u. arr_set ts t (u\<lparr>runnable := r\<rparr>))) xs = Some ts
      \<and> length ts = 55"
    by (rule for_loop_invariant) (use assms in auto)
  then obtain ts where "for_loop (int lo) (int hi) (\<lambda>t ts. arr_get ts t \<bind> (\<lambda>u. arr_set ts t (u\<lparr>runnable := r\<rparr>))) xs = Some ts"
    "length ts = 55" by blast
  then show thesis using that [of ts] rq_view_tasks [OF assms(1)] rq_view_tasks_update [OF assms(1), of ts] assms(2)
    by (simp add: set_runnable_range_def)
qed

lemma exp3_change_view:
  assumes "exp3_core i st s" and "lo \<le> hi" and "hi \<le> 55"
  obtains s' where "exp3_change (int lo) (int hi) r ph s = Some s'" and "exp3_core i st s'"
    and "exp3_rest s' = exp3_rest s" and "x_phase s' = ph"
proof -
  obtain e a xs ys where s: "x_exact s = Ref e" "x_apaf s = Ref a" "rq_view e xs" "rq_view a ys"
    "length xs = 55" "length ys = 55" "tick a = of_nat i" "apaf_state a = st" using assms(1) by (auto simp: exp3_core_def)
  obtain xs' where e: "set_runnable_range (int lo) (int hi) r (Ref e) = Some (Ref (e\<lparr>tasks := Ref xs'\<rparr>))"
    "rq_view (e\<lparr>tasks := Ref xs'\<rparr>) xs'" "length xs' = 55" by (rule set_runnable_range_view [OF s(3,5) assms(2,3)])
  obtain ys' where a: "set_runnable_range (int lo) (int hi) r (Ref a) = Some (Ref (a\<lparr>tasks := Ref ys'\<rparr>))"
    "rq_view (a\<lparr>tasks := Ref ys'\<rparr>) ys'" "length ys' = 55" by (rule set_runnable_range_view [OF s(4,6) assms(2,3)])
  note ce = rq_count_running_view [OF e(2)] and ca = rq_count_running_view [OF a(2)]
  have ne: "xs' \<noteq> []" "ys' \<noteq> []" using e(3) a(3) by auto
  let ?e = "e\<lparr>tasks := Ref xs', nr_running := int (n_running xs')\<rparr>"
  let ?a = "a\<lparr>tasks := Ref ys', nr_running := int (n_running ys')\<rparr>"
  let ?s = "s\<lparr>x_exact := Ref ?e, x_apaf := Ref ?a, x_phase := ph\<rparr>"
  have "exp3_change (int lo) (int hi) r ph s = Some ?s"
    using s(1,2) e(1) a(1) ce ca ne by (simp add: exp3_change_def)
  moreover have "exp3_core i st ?s"
    unfolding exp3_core_def using e(2,3) a(2,3) s(7,8)
    by (intro exI [of _ ?e] exI [of _ ?a] exI [of _ xs'] exI [of _ ys']) simp
  ultimately show thesis by (rule that) (simp_all add: exp3_rest_def)
qed

lemma exp3_phase_change_view:
  assumes "exp3_core i st s" and "x_phase s = (if i \<le> 500 then 1 else if i \<le> 1500 then 2 else 3)"
  obtains s' where "exp3_phase_change (int i) s = Some s'" and "exp3_core i st s'"
    and "exp3_rest s' = exp3_rest s" and "x_phase s' = (if i < 500 then 1 else if i < 1500 then 2 else 3)"
proof -
  have core: "exp3_core i st (s\<lparr>x_out := w\<rparr>)" "exp3_rest (s\<lparr>x_out := w\<rparr>) = exp3_rest s" for w
    using assms(1) by (simp_all add: exp3_core_def exp3_rest_def)
  have r: "(5::nat) \<le> 55" "(55::nat) \<le> 55" "(15::nat) \<le> 55" by simp_all
  consider "i = 500" | "i = 1500" | "i \<noteq> 500" "i \<noteq> 1500" by blast
  then show thesis
  proof cases
    case 1
    let ?w = "put (''[tick '' @ fmt_d i @ ''] SPIKE: '' @ fmt_d PHASE1_TASKS @ '' -> '' @ fmt_d PHASE2_TASKS @
      '' tasks'' @ nl) (x_out s)"
    obtain s' where "exp3_change (int 5) (int 55) 1 2 (s\<lparr>x_out := ?w\<rparr>) = Some s'" "exp3_core i st s'"
      "exp3_rest s' = exp3_rest (s\<lparr>x_out := ?w\<rparr>)" "x_phase s' = 2" by (rule exp3_change_view [OF core(1) r(1,2)])
    then show thesis using 1 core(2) by (intro that [of s']) (simp_all add: exp3_phase_change_def)
  next
    case 2
    let ?w = "put (''[tick '' @ fmt_d i @ ''] RECOVERY: '' @ fmt_d PHASE2_TASKS @ '' -> '' @ fmt_d PHASE3_TASKS @
      '' tasks'' @ nl) (x_out s)"
    obtain s' where "exp3_change (int 15) (int 55) 0 3 (s\<lparr>x_out := ?w\<rparr>) = Some s'" "exp3_core i st s'"
      "exp3_rest s' = exp3_rest (s\<lparr>x_out := ?w\<rparr>)" "x_phase s' = 3" by (rule exp3_change_view [OF core(1) r(3,2)])
    then show thesis using 2 core(2) by (intro that [of s']) (simp_all add: exp3_phase_change_def)
  next
    case 3
    then show thesis using assms by (intro that [of s]) (auto simp: exp3_phase_change_def)
  qed
qed

text \<open>A tick of APAF changes the state of the controller only every fourth tick, by one level.\<close>

lemma apaf_tick_state:
  assumes "rq_view rq xs" and "apaf_state rq \<in> apaf_states" and "tick rq = of_nat i"
  obtains rq' xs' where "apaf_tick (Ref rq) = Some (Ref rq')" and "rq_view rq' xs'" and "length xs' = length xs"
    and "tick rq' = of_nat (Suc i)" and "apaf_state rq' \<in> apaf_states"
    and "apaf_state rq' \<noteq> apaf_state rq \<longrightarrow>
      (of_nat (Suc i) :: u64) mod 4 = 0 \<and> \<bar>apaf_state rq' - apaf_state rq\<bar> = 1"
proof -
  let ?r = "spec_tick apaf_policy rq xs" and ?s = "apaf_state rq"
  have step: "fairness_apaf_next_state ?s j \<in> apaf_states \<and>
      (fairness_apaf_next_state ?s j \<noteq> ?s \<longrightarrow> \<bar>fairness_apaf_next_state ?s j - ?s\<bar> = 1)" for j
    using assms(2) by (cases j) (auto simp: next_state_Fin next_state_Inf next_state_NaN)
  have "tick ?r = of_nat (Suc i)" using assms(3) by (simp add: spec_tick_def Let_def)
  moreover have "apaf_state ?r \<in> apaf_states \<and> (apaf_state ?r \<noteq> ?s \<longrightarrow>
      (of_nat (Suc i) :: u64) mod 4 = 0 \<and> \<bar>apaf_state ?r - ?s\<bar> = 1)"
    using assms(2) step [of "jain_of (spec_tasks apaf_policy ?s xs)"] assms(3)
    unfolding spec_tick_def apaf_control_def apaf_policy_simps Let_def by (simp add: add.commute)
  ultimately show thesis
    using that apaf.refines [OF assms(1)] apaf.view_spec_tick [OF assms(1)] length_spec_tasks by metis
qed

abbreviation (input) phase_at :: "nat \<Rightarrow> int" where
  "phase_at i \<equiv> if i < 500 then 1 else if i < 1500 then 2 else 3"

lemma exp3_log_view:
  assumes l: "log_ok i s" and i: "i < 2001" and ph: "x_phase s = phase_at i"
    and st: "apaf_state rq \<in> apaf_states" "x_prev_state s \<in> apaf_states"
    and ch: "apaf_state rq \<noteq> x_prev_state s \<longrightarrow>
      (of_nat (Suc i) :: u64) mod 4 = 0 \<and> \<bar>apaf_state rq - x_prev_state s\<bar> = 1"
  obtains ts n w where "exp3_log (int i) rq s = Some (s\<lparr>x_transitions := ts, x_n_transitions := n, x_out := w,
      x_prev_state := apaf_state rq\<rparr>)"
    and "log_ok (Suc i) (s\<lparr>x_transitions := ts, x_n_transitions := n, x_out := w, x_prev_state := apaf_state rq\<rparr>)"
proof -
  have mono: "event_ok i ev \<Longrightarrow> event_ok (Suc i) ev" for ev by (auto simp: event_ok_def)
  show thesis
  proof (cases "apaf_state rq = x_prev_state s")
    case True
    then show thesis using l mono by (intro that [where ts = "x_transitions s" and n = "x_n_transitions s" and w = "x_out s"])
        (simp_all add: exp3_log_def log_ok_def)
  next
    case False
    let ?ev = "\<lparr>te_tick = word_of_int (int i), old_state = x_prev_state s, new_state = apaf_state rq,
                   jain_at_transition = jain_index rq, te_phase = x_phase s\<rparr>"
    have "unat ((of_nat (Suc i) :: u64) mod 4) = 0" using ch False by simp
    moreover have "unat (of_nat (Suc i) :: u64) = Suc i" using i by (intro unat_of_nat_u64) simp
    ultimately have "Suc i mod 4 = 0" by (simp only: unat_mod) simp
    then have "i mod 4 = 3" by presburger
    moreover have t: "unat (word_of_int (int i) :: u64) = i" using i unat_of_nat_u64 [of i] by simp
    ultimately have ev: "event_ok (Suc i) ?ev" using st ch False ph by (simp add: event_ok_def)
    let ?w = "put (''[tick '' @ fmt_d (int i) @ ''] APAF: '' @ metrics_get_state_name 3 (x_prev_state s) @
                 '' -> '' @ metrics_get_state_name 3 (apaf_state rq) @ '' (J='' @ fmt_f 4 (jain_index rq) @
                 '', phase='' @ fmt_d (x_phase s) @ '')'' @ nl) (x_out s)"
    show thesis
    proof (cases "x_n_transitions s < 100")
      case True
      let ?ts = "(x_transitions s)[nat (x_n_transitions s) := ?ev]"
      have "arr_set (x_transitions s) (x_n_transitions s) ?ev = Some ?ts"
        using l True by (simp add: log_ok_def arr_set_def)
      then have "exp3_log (int i) rq s = Some (s\<lparr>x_transitions := ?ts, x_n_transitions := x_n_transitions s + 1,
          x_out := ?w, x_prev_state := apaf_state rq\<rparr>)" using True False by (simp add: exp3_log_def)
      moreover have "nat (x_n_transitions s + 1) = Suc (nat (x_n_transitions s))"
        using l unfolding log_ok_def by linarith
      ultimately show thesis using l True ev mono
        by (intro that [where ts = ?ts and n = "x_n_transitions s + 1" and w = ?w])
          (assumption, auto simp: log_ok_def less_Suc_eq nth_list_update)
    next
      case full: False
      then show thesis using l mono False
        by (intro that [where ts = "x_transitions s" and n = "x_n_transitions s" and w = ?w]) (simp_all add: exp3_log_def log_ok_def)
    qed
  qed
qed

lemma sum_list_incr: "k < length xs \<Longrightarrow> sum_list (xs[k := xs ! k + (1::int)]) = sum_list xs + 1"
proof (induction xs arbitrary: k)
  case (Cons x xs)
  then show ?case by (cases k) simp_all
qed simp

lemma counts_ok_step:
  assumes "counts_ok i cs" and "st \<in> {0, 1, 2}"
  defines "ph \<equiv> nat (phase_at i - 1)"
  shows "counts_ok (Suc i) (cs[ph := (cs ! ph)[nat st := cs ! ph ! nat st + 1]])"
proof -
  have ph: "ph < 3" by (simp add: ph_def)
  have t: "phase_ticks p (Suc i) = (if p = ph then phase_ticks p i + 1 else phase_ticks p i)" if "p < 3" for p
    using that by (auto simp: phase_ticks_def ph_def)
  have "nat st < 3" using assms(2) by auto
  then show ?thesis using assms(1) t ph sum_list_incr [of "nat st" "cs ! ph"]
    by (auto simp: counts_ok_def nth_list_update)
qed

lemma exp3_phase_view:
  assumes "length (x_phases s) = 3" and "counts_ok i (x_state_counts s)" and "x_phase s = phase_at i"
    and "apaf_state rq \<in> apaf_states"
  obtains ps cs where "exp3_phase (int i) rq s = Some (s\<lparr>x_phases := ps, x_state_counts := cs\<rparr>)"
    and "length ps = 3" and "counts_ok (Suc i) cs"
proof -
  define ph where "ph = nat (phase_at i - 1)"
  define st where "st = nat (apaf_state rq)"
  let ?cs = "x_state_counts s"
  have ph: "x_phase s - 1 = int ph" "ph < 3" using assms(3) by (simp_all add: ph_def)
  have st: "apaf_state rq = int st" "st < 3" using assms(4) by (auto simp: st_def)
  have len: "length ?cs = 3" "length (?cs ! ph) = 3" using assms(2) ph(2) by (auto simp: counts_ok_def)
  let ?cs' = "?cs[ph := (?cs ! ph)[st := ?cs ! ph ! st + 1]]"
  have rows: "arr_get ?cs (int ph) = Some (?cs ! ph)" "arr_get (?cs ! ph) (int st) = Some (?cs ! ph ! st)"
    "arr_set (?cs ! ph) (int st) c = Some ((?cs ! ph)[st := c])" "arr_set ?cs (int ph) r = Some (?cs[ph := r])" for c r
    using len ph(2) st(2) by simp_all
  have phs: "arr_get (x_phases s) (int ph) = Some (x_phases s ! ph)"
    "arr_set (x_phases s) (int ph) p = Some ((x_phases s)[ph := p])" for p
    using assms(1) ph(2) by simp_all
  have "APAF_TIGHT \<le> apaf_state rq \<and> apaf_state rq \<le> APAF_LOOSE" using assms(4) by auto
  then have "\<exists>p. exp3_phase (int i) rq s = Some (s\<lparr>x_phases := (x_phases s)[ph := p], x_state_counts := ?cs'\<rparr>)"
    unfolding exp3_phase_def Let_def ph(1) phs bind.bind_lunit using rows st(1) by simp blast
  then obtain p where "exp3_phase (int i) rq s = Some (s\<lparr>x_phases := (x_phases s)[ph := p],
      x_state_counts := ?cs[ph := (?cs ! ph)[st := ?cs ! ph ! st + 1]]\<rparr>)" by blast
  moreover have "counts_ok (Suc i) (?cs[ph := (?cs ! ph)[st := ?cs ! ph ! st + 1]])"
    unfolding ph_def st_def by (rule counts_ok_step [OF assms(2,4)])
  ultimately show thesis using that assms(1) by simp
qed

lemma exp3_record_view:
  assumes "exp3_core (Suc i) st s" and "i < 2001" and "length (x_exact_buf s) = 2001" and "length (x_apaf_buf s) = 2001"
  obtains eb ab where "exp3_record (int i) s = Some (s\<lparr>x_exact_buf := eb, x_apaf_buf := ab\<rparr>)"
    and "length eb = 2001" and "length ab = 2001"
proof -
  obtain e a xs ys where s: "x_exact s = Ref e" "x_apaf s = Ref a" "rq_view e xs" "rq_view a ys"
    "length xs = 55" "length ys = 55" using assms(1) by (auto simp: exp3_core_def)
  obtain m where m: "metrics_record (Ref (x_exact_buf s ! i)) (Ref e) (Ref e) = Some (Ref m)"
    using metrics_record_defined [OF s(3,3)] by auto
  obtain n where n: "metrics_record (Ref (x_apaf_buf s ! i)) (Ref a) (Ref e) = Some (Ref n)"
    using metrics_record_defined [OF s(4,3)] s(5,6) by auto
  have "exp3_record (int i) s = Some (s\<lparr>x_exact_buf := (x_exact_buf s)[i := m], x_apaf_buf := (x_apaf_buf s)[i := n]\<rparr>)"
    using s(1,2) m n assms(2-4) by (simp add: exp3_record_def)
  then show thesis by (rule that) (use assms(3,4) in simp_all)
qed

lemma exp3_step_inv:
  assumes "exp3_inv i s" and "i < 2001"
  shows "\<exists>s'. exp3_step (int i) s = Some s' \<and> exp3_inv (Suc i) s'"
proof -
  have I: "exp3_core i (x_prev_state s) s" "x_prev_state s \<in> apaf_states" "length (x_exact_buf s) = 2001"
    "length (x_apaf_buf s) = 2001" "log_ok i s" "length (x_phases s) = 3" "counts_ok i (x_state_counts s)"
    "x_phase s = (if i \<le> 500 then 1 else if i \<le> 1500 then 2 else 3)" using assms(1) unfolding exp3_inv_def by auto
  obtain s1 where 1: "exp3_phase_change (int i) s = Some s1" "exp3_core i (x_prev_state s) s1"
    "exp3_rest s1 = exp3_rest s" "x_phase s1 = phase_at i" by (rule exp3_phase_change_view [OF I(1,8)])
  have r: "x_exact_buf s1 = x_exact_buf s" "x_apaf_buf s1 = x_apaf_buf s" "log_ok i s1" "x_phases s1 = x_phases s"
    "x_state_counts s1 = x_state_counts s" "x_prev_state s1 = x_prev_state s"
    using 1(3) I(5) by (simp_all add: exp3_rest_def log_ok_def)
  obtain e a xs ys where c: "x_exact s1 = Ref e" "x_apaf s1 = Ref a" "rq_view e xs" "rq_view a ys"
    "length xs = 55" "length ys = 55" "tick a = of_nat i" "apaf_state a = x_prev_state s"
    using 1(2) by (auto simp: exp3_core_def)
  obtain e' xs' where e: "exact_tick (Ref e) = Some (Ref e')" "rq_view e' xs'" "length xs' = 55"
    using exact.refines [OF c(3)] exact.view_spec_tick [OF c(3)] c(5) length_spec_tasks by metis
  have "apaf_state a \<in> apaf_states" using I(2) c(8) by simp
  then obtain a' ys' where a: "apaf_tick (Ref a) = Some (Ref a')" "rq_view a' ys'" "length ys' = length ys"
    "tick a' = of_nat (Suc i)" "apaf_state a' \<in> apaf_states"
    "apaf_state a' \<noteq> apaf_state a \<longrightarrow> (of_nat (Suc i) :: u64) mod 4 = 0 \<and> \<bar>apaf_state a' - apaf_state a\<bar> = 1"
    by (rule apaf_tick_state [OF c(4) _ c(7)])
  let ?s2 = "s1\<lparr>x_exact := Ref e', x_apaf := Ref a'\<rparr>"
  have p2: "log_ok i ?s2" "x_phase ?s2 = phase_at i" "x_prev_state ?s2 \<in> apaf_states"
    "apaf_state a' \<noteq> x_prev_state ?s2 \<longrightarrow> (of_nat (Suc i) :: u64) mod 4 = 0 \<and> \<bar>apaf_state a' - x_prev_state ?s2\<bar> = 1"
    using r(3,6) 1(4) I(2) a(6) c(8) by (simp_all add: log_ok_def)
  obtain ts n w where 3: "exp3_log (int i) a' ?s2 = Some (?s2\<lparr>x_transitions := ts, x_n_transitions := n, x_out := w,
      x_prev_state := apaf_state a'\<rparr>)"
    "log_ok (Suc i) (?s2\<lparr>x_transitions := ts, x_n_transitions := n, x_out := w, x_prev_state := apaf_state a'\<rparr>)"
    by (rule exp3_log_view [OF p2(1) assms(2) p2(2) a(5) p2(3,4)])
  let ?s3 = "?s2\<lparr>x_transitions := ts, x_n_transitions := n, x_out := w, x_prev_state := apaf_state a'\<rparr>"
  have p3: "length (x_phases ?s3) = 3" "counts_ok i (x_state_counts ?s3)" "x_phase ?s3 = phase_at i"
    using r(4,5) 1(4) I(6,7) by simp_all
  obtain ps cs where 4: "exp3_phase (int i) a' ?s3 = Some (?s3\<lparr>x_phases := ps, x_state_counts := cs\<rparr>)"
    "length ps = 3" "counts_ok (Suc i) cs" by (rule exp3_phase_view [OF p3 a(5)])
  let ?s4 = "?s3\<lparr>x_phases := ps, x_state_counts := cs\<rparr>"
  have core: "exp3_core (Suc i) (apaf_state a') ?s4"
    unfolding exp3_core_def using e(2,3) a(2,3,4) c(6)
    by (intro exI [of _ e'] exI [of _ a'] exI [of _ xs'] exI [of _ ys']) simp
  have len: "length (x_exact_buf ?s4) = 2001" "length (x_apaf_buf ?s4) = 2001" using r(1,2) I(3,4) by simp_all
  obtain eb ab where 5: "exp3_record (int i) ?s4 = Some (?s4\<lparr>x_exact_buf := eb, x_apaf_buf := ab\<rparr>)"
    "length eb = 2001" "length ab = 2001" by (rule exp3_record_view [OF core assms(2) len])
  have "exp3_step (int i) s = Some (?s4\<lparr>x_exact_buf := eb, x_apaf_buf := ab\<rparr>)"
    unfolding exp3_step_def 1(1) bind.bind_lunit c(1,2) e(1) a(1) c_deref.simps Let_def 3(1) 4(1) 5(1) ..
  moreover have "exp3_inv (Suc i) (?s4\<lparr>x_exact_buf := eb, x_apaf_buf := ab\<rparr>)"
    using core 3(2) 4(2,3) 5(2,3) a(5) 1(4) by (simp add: exp3_inv_def exp3_core_def log_ok_def)
  ultimately show ?thesis by blast
qed

section \<open>The whole loop\<close>

lemma exp3_tasks_view:
  assumes "length ts = 55"
  obtains ts' where "exp3_tasks ts = Some ts'" and "length ts' = 55"
proof -
  have create: "\<exists>us. for_loop (int 0) (int 55) (\<lambda>i ts. task_create i 0 \<bind> arr_set ts i) ts = Some us \<and> length us = 55"
    by (rule for_loop_invariant) (use assms in \<open>auto simp: task_create_nice0\<close>)
  have flag: "\<exists>us. for_loop (int lo) (int hi) (\<lambda>i ts. arr_get ts i \<bind> (\<lambda>u. arr_set ts i (u\<lparr>runnable := r\<rparr>))) vs = Some us
      \<and> length us = 55" if "length vs = 55" "lo \<le> hi" "hi \<le> 55" for vs lo hi r
    by (rule for_loop_invariant) (use that in auto)
  obtain us where 1: "for_loop 0 55 (\<lambda>i ts. task_create i 0 \<bind> arr_set ts i) ts = Some us" "length us = 55"
    using create by auto
  obtain vs where 2: "for_loop 0 5 (\<lambda>i ts. arr_get ts i \<bind> (\<lambda>u. arr_set ts i (u\<lparr>runnable := 1\<rparr>))) us = Some vs"
    "length vs = 55" using flag [of us 0 5 1] 1(2) by auto
  obtain zs where 3: "for_loop 5 55 (\<lambda>i ts. arr_get ts i \<bind> (\<lambda>u. arr_set ts i (u\<lparr>runnable := 0\<rparr>))) vs = Some zs"
    "length zs = 55" using flag [of vs 5 55 0] 2(2) by auto
  show thesis by (rule that [OF _ 3(2)]) (simp add: exp3_tasks_def 1(1) 2(1) 3(1))
qed

lemma exp3_init_view:
  assumes "length xs = 55" and "length ys = 55" and "length ms = 2001" and "length ns = 2001"
  obtains s where "exp3_init xs ys ms ns w = Some s" and "exp3_inv 0 s"
proof -
  obtain xs' where x: "exp3_tasks xs = Some xs'" "length xs' = 55" by (rule exp3_tasks_view [OF assms(1)])
  obtain ys' where y: "exp3_tasks ys = Some ys'" "length ys' = 55" by (rule exp3_tasks_view [OF assms(2)])
  have init: "\<exists>rq. rq_init (Ref zs) 55 mode = Some rq \<and> rq_view rq zs \<and> tick rq = 0 \<and> apaf_state rq = 1"
    if "length zs = 55" for zs mode using rq_init_view [of zs mode] that by (simp add: rq_view_def)
  obtain e where e: "rq_init (Ref xs') 55 0 = Some e" "rq_view e xs'" using init [OF x(2)] by blast
  obtain a where a: "rq_init (Ref ys') 55 3 = Some a" "rq_view a ys'" "tick a = 0" "apaf_state a = 1"
    using init [OF y(2)] by blast
  obtain ms' where m: "metrics_init (Ref ms) 2001 = Some (Ref ms')" "length ms' = 2001"
    using metrics_init_view [of 2001 ms] assms(3) by (auto simp: Let_def)
  obtain ns' where n: "metrics_init (Ref ns) 2001 = Some (Ref ns')" "length ns' = 2001"
    using metrics_init_view [of 2001 ns] assms(4) by (auto simp: Let_def)
  show thesis
  proof (rule that)
    show "exp3_init xs ys ms ns w = Some \<lparr>x_exact = Ref e, x_apaf = Ref a, x_exact_buf = ms', x_apaf_buf = ns',
           x_transitions = replicate 100 \<lparr>te_tick = 0, old_state = 0, new_state = 0, jain_at_transition = 0, te_phase = 0\<rparr>,
           x_n_transitions = 0,
           x_phases = replicate 3 \<lparr>ps_phase = 0, ps_n_tasks = 0, tick_start = 0, tick_end = 0, ps_avg_jain = 0,
                                   ps_min_jain = 1, dominant_state = 0, ps_n_transitions = 0\<rparr>,
           x_state_counts = replicate 3 (replicate 3 0), x_prev_state = 1, x_phase = 1,
           x_out = put (lines_of exp3_head) w\<rparr>" (is "_ = Some ?s")
      by (simp add: exp3_init_def x(1) y(1) e(1) a(1,4) m(1) n(1))
    have "exp3_core 0 1 ?s" unfolding exp3_core_def using e(2) a(2-4) x(2) y(2)
      by (intro exI [of _ e] exI [of _ a] exI [of _ xs'] exI [of _ ys']) simp
    then show "exp3_inv 0 ?s" using m(2) n(2) by (simp add: exp3_inv_def log_ok_def counts_ok_def phase_ticks_def sum_list_replicate)
  qed
qed

lemma exp3_loop:
  assumes "exp3_inv 0 s"
  obtains s' where "for_loop 0 2001 exp3_step s = Some s'" and "exp3_inv 2001 s'"
  using for_loop_invariant [of exp3_inv 0 s 2001 exp3_step] assms exp3_step_inv by auto

text \<open>
  C23. The log of the controller is sound: from any memory the loop is defined; every one of its at
  most 100 events is a change by one level between states of the controller, at a tick that is
  3 modulo 4 (so no reaction is reported faster than 3 ticks after the spike at tick 500) and
  with the phase of its tick; and the ticks counted per controller state add up to the length of
  each phase, 500, 1000 and 501 ticks.
\<close>

theorem exp3_log_sound:
  assumes "length xs = 55" and "length ys = 55" and "length ms = 2001" and "length ns = 2001"
  shows "\<exists>s. exp3_init xs ys ms ns w \<bind> for_loop 0 2001 exp3_step = Some s \<and>
    0 \<le> x_n_transitions s \<and> x_n_transitions s \<le> 100 \<and>
    (\<forall>k < nat (x_n_transitions s). event_ok 2001 (x_transitions s ! k)) \<and>
    map sum_list (x_state_counts s) = [500, 1000, 501]"
proof -
  obtain s0 where s0: "exp3_init xs ys ms ns w = Some s0" "exp3_inv 0 s0" by (rule exp3_init_view [OF assms])
  obtain s where s: "for_loop 0 2001 exp3_step s0 = Some s" "exp3_inv 2001 s" by (rule exp3_loop [OF s0(2)])
  have c: "counts_ok 2001 (x_state_counts s)" "log_ok 2001 s" using s(2) by (simp_all add: exp3_inv_def)
  obtain r0 r1 r2 where r: "x_state_counts s = [r0, r1, r2]"
    using c(1) by (auto simp: counts_ok_def length_Suc_conv numeral_3_eq_3)
  have "sum_list (x_state_counts s ! ph) = phase_ticks ph 2001" if "ph < 3" for ph
    using c(1) that by (simp add: counts_ok_def)
  from this [of 0] this [of 1] this [of 2] have "map sum_list (x_state_counts s) = [500, 1000, 501]"
    by (simp add: r phase_ticks_def)
  then show ?thesis using s0(1) s(1) c(2) by (auto simp: log_ok_def)
qed

theorem exp3_log_sound_witness:
  "\<exists>s. exp3_init (replicate 55 (nice0_task 0)) (replicate 55 (nice0_task 0)) (replicate 2001 zero_metrics)
      (replicate 2001 zero_metrics) \<lparr>stdout = [], files = Map.empty\<rparr> \<bind> for_loop 0 2001 exp3_step = Some s \<and>
    map sum_list (x_state_counts s) = [500, 1000, 501]"
  using exp3_log_sound [OF length_replicate [of 55 "nice0_task 0"] length_replicate [of 55 "nice0_task 0"]
      length_replicate [of 2001 zero_metrics] length_replicate [of 2001 zero_metrics], of "\<lparr>stdout = [], files = Map.empty\<rparr>"] by (elim exE conjE, intro exI conjI)

section \<open>The whole experiment\<close>

lemma dominant_of_view:
  assumes "length row = 3"
  obtains d where "dominant_of row = Some d"
proof -
  let ?body = "\<lambda>s (best_state, best_count). do {
         c \<leftarrow> arr_get row s;
         Some (if best_count < c then (s, c) else (best_state, best_count))
       }"
  have "\<exists>s. for_loop (int 0) (int 3) ?body (APAF_MEDIUM, - 1) = Some s \<and> True"
    by (rule for_loop_invariant) (use assms in \<open>auto split: prod.splits\<close>)
  then obtain st c where "for_loop 0 3 ?body (APAF_MEDIUM, - 1) = Some (st, c)" by auto
  then show thesis using that by (simp add: dominant_of_def)
qed

lemma exp3_finish_view:
  assumes "exp3_inv 2001 s"
  obtains w' where "exp3_finish can_open s = Some (0, w')"
    and "can_open ''results/exp3_APAF.csv'' \<longrightarrow> files w' ''results/exp3_APAF.csv'' =
      Some (METRICS_CSV_HEADER @ concat (map (\<lambda>m. csv_row m 55) (x_apaf_buf s)))"
    and "can_open ''results/exp3_EXACT.csv'' \<longrightarrow> files w' ''results/exp3_EXACT.csv'' =
      Some (METRICS_CSV_HEADER @ concat (map (\<lambda>m. csv_row m 55) (x_exact_buf s)))"
proof -
  have I: "length (x_exact_buf s) = 2001" "length (x_apaf_buf s) = 2001" "log_ok 2001 s" "length (x_phases s) = 3"
    "counts_ok 2001 (x_state_counts s)" using assms by (simp_all add: exp3_inv_def)
  obtain ps where ps: "exp3_averages (x_phases s) = Some ps" "length ps = 3"
    using I(4) by (simp add: exp3_averages_def arr_get_def arr_set_def)
  have row: "arr_get (x_state_counts s) (int j) = Some (x_state_counts s ! j) \<and>
      (\<exists>d. dominant_of (x_state_counts s ! j) = Some d)" if "j < 3" for j
    using I(5) that dominant_of_view [of "x_state_counts s ! j"] unfolding counts_ok_def by (metis arr_get_nat)
  have "\<exists>qs. for_loop (int 0) (int 3) (\<lambda>i ps. do {
       row \<leftarrow> arr_get (x_state_counts s) i;
       d \<leftarrow> dominant_of row;
       p \<leftarrow> arr_get ps i;
       arr_set ps i (p\<lparr>dominant_state := d, ps_n_transitions := 0\<rparr>)
     }) ps = Some qs \<and> length qs = 3"
    by (rule for_loop_invariant) (use row ps(2) in fastforce)+
  then obtain qs where qs: "exp3_dominant (x_state_counts s) ps = Some qs" "length qs = 3"
    by (auto simp: exp3_dominant_def)
  define n where "n = nat (x_n_transitions s)"
  have n: "x_n_transitions s = int n" "n \<le> 100" "length (x_transitions s) = 100" using I(3) by (auto simp: log_ok_def n_def)
  have "\<exists>z. exp3_analyse (x_transitions s) (int n) qs = Some z"
    unfolding exp3_analyse_def
  proof (rule for_loop_invariant0 [where P = "\<lambda>_ z. length (fst z) = 3"])
    fix j and z :: "phase_summary list \<times> reactions" assume j: "j < n" and z: "length (fst z) = 3"
    obtain vs r where zz: "z = (vs, r)" by (cases z)
    have ev: "arr_get (x_transitions s) (int j) = Some (x_transitions s ! j)" using j n by simp
    have ix: "arr_get vs p = Some (vs ! nat p)" "arr_set vs p q = Some (vs[nat p := q])" if "0 \<le> p" "p < 3" for p q
      using that z zz by (simp_all add: arr_get_def arr_set_def)
    show "\<exists>z'. (case z of (ps, r) \<Rightarrow> arr_get (x_transitions s) (int j) \<bind> (\<lambda>ev. let ph = te_phase ev - 1
           in (if 0 \<le> ph \<and> ph < 3 then arr_get ps ph \<bind> (\<lambda>p. arr_set ps ph (p\<lparr>ps_n_transitions := ps_n_transitions p + 1\<rparr>))
               else Some ps) \<bind> (\<lambda>ps. Some (ps, react ev r)))) = Some z' \<and> length (fst z') = 3"
      using zz ev ix z by (simp add: Let_def)
  qed (use qs in auto)
  then obtain vs r where vs: "exp3_analyse (x_transitions s) (x_n_transitions s) qs = Some (vs, r)" using n by auto
  define w0 where "w0 = put (lines_of (exp3_report (x_state_counts s) vs
    (take (nat (x_n_transitions s)) (x_transitions s)) r)) (x_out s)"
  obtain w1 where w1: "metrics_write_csv can_open (Ref (x_exact_buf s)) 2001 55 (Ref ''results/exp3_EXACT.csv'') w0 = Some w1"
    "files w1 = (if can_open ''results/exp3_EXACT.csv'' then (files w0)(''results/exp3_EXACT.csv'' \<mapsto>
        METRICS_CSV_HEADER @ concat (map (\<lambda>m. csv_row m 55) (x_exact_buf s))) else files w0)"
    using metrics_write_csv_view [of 2001 "x_exact_buf s" can_open 55 "''results/exp3_EXACT.csv''" w0] I(1) by auto
  obtain w2 where w2: "metrics_write_csv can_open (Ref (x_apaf_buf s)) 2001 55 (Ref ''results/exp3_APAF.csv'') w1 = Some w2"
    "files w2 = (if can_open ''results/exp3_APAF.csv'' then (files w1)(''results/exp3_APAF.csv'' \<mapsto>
        METRICS_CSV_HEADER @ concat (map (\<lambda>m. csv_row m 55) (x_apaf_buf s))) else files w1)"
    using metrics_write_csv_view [of 2001 "x_apaf_buf s" can_open 55 "''results/exp3_APAF.csv''" w1] I(2) by auto
  have fin: "\<exists>w'. exp3_finish can_open s = Some (0, w') \<and>
      (\<forall>f. f \<notin> {''results/exp3_transitions.txt'', ''results/exp3_summary.txt''} \<longrightarrow> files w' f = files w2 f)"
    using ps(1) qs(1) vs w1(1) w2(1) by (simp add: exp3_finish_def Let_def w0_def)
  then obtain w' where w': "exp3_finish can_open s = Some (0, w')"
    and same: "\<forall>f. f \<notin> {''results/exp3_transitions.txt'', ''results/exp3_summary.txt''} \<longrightarrow> files w' f = files w2 f"
    by blast
  have "files w' ''results/exp3_APAF.csv'' = files w2 ''results/exp3_APAF.csv''"
    "files w' ''results/exp3_EXACT.csv'' = files w2 ''results/exp3_EXACT.csv''" by (rule same [rule_format]; simp)+
  then show thesis by (intro that [OF w']) (simp_all add: w1(2) w2(2))
qed

text \<open>
  The third experiment is defined whatever its memory holds: it returns 0, and each of its two CSV
  files that can be opened holds the header and exactly 2001 rows. Without memory it returns 1.
\<close>

theorem exp3_main_files:
  assumes "length xs = 55" and "length ys = 55" and "length ms = 2001" and "length ns = 2001"
  shows "\<exists>w' eb ab. exp3_main (Ref xs) (Ref ys) (Ref ms) (Ref ns) can_open w = Some (0, w') \<and>
    length eb = 2001 \<and> length ab = 2001 \<and>
    (can_open ''results/exp3_EXACT.csv'' \<longrightarrow> files w' ''results/exp3_EXACT.csv'' =
       Some (METRICS_CSV_HEADER @ concat (map (\<lambda>m. csv_row m 55) eb))) \<and>
    (can_open ''results/exp3_APAF.csv'' \<longrightarrow> files w' ''results/exp3_APAF.csv'' =
       Some (METRICS_CSV_HEADER @ concat (map (\<lambda>m. csv_row m 55) ab))) \<and>
    exp3_main NULL (Ref ys) (Ref ms) (Ref ns) can_open w = Some (1, put (''ERROR: allocation failed'' @ nl) w)"
proof -
  obtain s0 where s0: "exp3_init xs ys ms ns w = Some s0" "exp3_inv 0 s0" by (rule exp3_init_view [OF assms])
  obtain s where s: "for_loop 0 2001 exp3_step s0 = Some s" "exp3_inv 2001 s" by (rule exp3_loop [OF s0(2)])
  obtain w' where w': "exp3_finish can_open s = Some (0, w')"
    "can_open ''results/exp3_APAF.csv'' \<longrightarrow> files w' ''results/exp3_APAF.csv'' =
      Some (METRICS_CSV_HEADER @ concat (map (\<lambda>m. csv_row m 55) (x_apaf_buf s)))"
    "can_open ''results/exp3_EXACT.csv'' \<longrightarrow> files w' ''results/exp3_EXACT.csv'' =
      Some (METRICS_CSV_HEADER @ concat (map (\<lambda>m. csv_row m 55) (x_exact_buf s)))"
    by (rule exp3_finish_view [OF s(2), where can_open = can_open])
  have "length (x_exact_buf s) = 2001" "length (x_apaf_buf s) = 2001" using s(2) by (simp_all add: exp3_inv_def)
  moreover have "exp3_main (Ref xs) (Ref ys) (Ref ms) (Ref ns) can_open w = Some (0, w')"
    by (simp add: exp3_main_def s0(1) s(1) w'(1))
  ultimately show ?thesis using w'(2,3)
    by (intro exI [of _ w'] exI [of _ "x_exact_buf s"] exI [of _ "x_apaf_buf s"]) (simp add: exp3_main_def)
qed

theorem exp3_main_files_witness:
  "\<exists>w'. exp3_main (Ref (replicate 55 (nice0_task 0))) (Ref (replicate 55 (nice0_task 0)))
      (Ref (replicate 2001 zero_metrics)) (Ref (replicate 2001 zero_metrics)) (\<lambda>_. True)
      \<lparr>stdout = [], files = Map.empty\<rparr> = Some (0, w')"
  using exp3_main_files [OF length_replicate [of 55 "nice0_task 0"] length_replicate [of 55 "nice0_task 0"]
      length_replicate [of 2001 zero_metrics] length_replicate [of 2001 zero_metrics], of "\<lambda>_. True" "\<lparr>stdout = [], files = Map.empty\<rparr>"] by blast

end
