(* ===== verification/Exp4_Error_Bound.thy ===== *)
theory Exp4_Error_Bound
  imports Exp1_Report
begin

text \<open>
  src/apex-cfs/experiments/exp4_error_bound.c: 20 tasks of four nice values under the exact policy
  and under one approximate policy, 1000 ticks; at every tick the error of the one-period decay
  of \<open>LOAD_AVG_MAX\<close> is compared with the documented bound of the policy. The global list of
  violations and its counter are passed through; the bounds are the decimal literals of the
  source, added in double arithmetic.
\<close>

abbreviation (input) EXP4_N_TASKS :: int where "EXP4_N_TASKS \<equiv> 20"
abbreviation (input) EXP4_TICKS :: int where "EXP4_TICKS \<equiv> 1000"
abbreviation (input) BOUND_BSA_DECAY :: f64 where "BOUND_BSA_DECAY \<equiv> dec 10037 4"
abbreviation (input) BOUND_CLTI_DECAY :: f64 where "BOUND_CLTI_DECAY \<equiv> dec 938 4"
abbreviation (input) BOUND_APAF_TIGHT :: f64 where "BOUND_APAF_TIGHT \<equiv> dec 10000 4"
abbreviation (input) BOUND_APAF_MEDIUM :: f64 where "BOUND_APAF_MEDIUM \<equiv> dec 30000 4"
abbreviation (input) BOUND_APAF_LOOSE :: f64 where "BOUND_APAF_LOOSE \<equiv> dec 41474 4"
abbreviation (input) BOUND_TOLERANCE :: f64 where "BOUND_TOLERANCE \<equiv> dec 5000 4"
abbreviation (input) EFF_BSA :: f64 where "EFF_BSA \<equiv> BOUND_BSA_DECAY + BOUND_TOLERANCE"
abbreviation (input) EFF_CLTI :: f64 where "EFF_CLTI \<equiv> BOUND_CLTI_DECAY + BOUND_TOLERANCE"
abbreviation (input) EFF_TIGHT :: f64 where "EFF_TIGHT \<equiv> BOUND_APAF_TIGHT + BOUND_TOLERANCE"
abbreviation (input) EFF_MEDIUM :: f64 where "EFF_MEDIUM \<equiv> BOUND_APAF_MEDIUM + BOUND_TOLERANCE"
abbreviation (input) EFF_LOOSE :: f64 where "EFF_LOOSE \<equiv> BOUND_APAF_LOOSE + BOUND_TOLERANCE"

record exp4_result =
  e4_logic :: int
  max_error_ever :: f64
  avg_error_overall :: f64
  e4_n_violations :: int
  first_violation_tick :: u64
  ticks_under_1pct :: int
  ticks_1_to_3pct :: int
  ticks_3_to_5pct :: int
  ticks_over_5pct :: int
  ticks_in_tight :: int
  ticks_in_medium :: int
  ticks_in_loose :: int
  bound_verified :: int
  theoretical_bound :: f64

record exp4_violation =
  v_logic :: int
  v_tick :: u64
  v_err_pct :: f64
  v_bound_pct :: f64

text \<open>The global variables \<open>g_violations\<close> and \<open>g_violation_count\<close>.\<close>

record exp4_globals =
  g_violations :: "exp4_violation list"
  g_violation_count :: int

definition exp4_zero :: exp4_result where
  "exp4_zero = \<lparr>e4_logic = 0, max_error_ever = 0, avg_error_overall = 0, e4_n_violations = 0,
     first_violation_tick = 0, ticks_under_1pct = 0, ticks_1_to_3pct = 0, ticks_3_to_5pct = 0,
     ticks_over_5pct = 0, ticks_in_tight = 0, ticks_in_medium = 0, ticks_in_loose = 0,
     bound_verified = 0, theoretical_bound = 0\<rparr>"

definition exp4_globals0 :: exp4_globals where
  "exp4_globals0 = \<lparr>g_violations = replicate 4096 \<lparr>v_logic = 0, v_tick = 0, v_err_pct = 0, v_bound_pct = 0\<rparr>,
                    g_violation_count = 0\<rparr>"

section \<open>The error of one tick and its bound\<close>

definition exp4_tick_err :: "int \<Rightarrow> int \<Rightarrow> f64 option" where
  "exp4_tick_err logic state_before = do {
     let base = LOAD_AVG_MAX;
     exact_d \<leftarrow> exact_decay_load base 1;
     approx_d \<leftarrow> (if logic = 1 then bsa_decay_load base 1 else if logic = 2 then clti_decay_load base 1
                   else if logic = 3 then apaf_decay_load base 1 state_before
                   else exact_decay_load base 1);
     if 0 < exact_d then do {
       let exact_factor = f_of_u64 exact_d / f_of_u64 base;
       let approx_factor = f_of_u64 approx_d / f_of_u64 base;
       Some (\<bar>exact_factor - approx_factor\<bar> / exact_factor * dec 1000 1)
     } else Some 0
   }"

definition exp4_bound :: "int \<Rightarrow> int \<Rightarrow> f64" where
  "exp4_bound logic state =
     (if logic = 2 then EFF_CLTI
      else if logic = 3 then
        (if state = APAF_TIGHT then EFF_TIGHT else if state = APAF_MEDIUM then EFF_MEDIUM else EFF_LOOSE)
      else EFF_BSA)"

section \<open>The loop\<close>

text \<open>The counters of a run.\<close>

record exp4_counts =
  n_violations :: int
  first_violation :: u64
  violation_found :: int
  under1 :: int
  b1to3 :: int
  b3to5 :: int
  over5 :: int
  tight_count :: int
  med_count :: int
  loose_count :: int
  max_err :: f64
  sum_err :: f64

definition exp4_violate :: "int \<Rightarrow> int \<Rightarrow> f64 \<Rightarrow> f64 \<Rightarrow> exp4_counts \<times> exp4_globals \<times> io
    \<Rightarrow> (exp4_counts \<times> exp4_globals \<times> io) option" where
  "exp4_violate logic i tick_err bound s =
     (case s of (c, g, w) \<Rightarrow> do {
        let c = c\<lparr>n_violations := n_violations c + 1\<rparr>;
        let c = (if violation_found c = 0 then c\<lparr>first_violation := word_of_int i, violation_found := 1\<rparr> else c);
        let w = put (''  VIOLATION tick='' @ fmt_d i @ '' err='' @ fmt_f 4 tick_err @ ''% bound='' @
                     fmt_f 4 bound @ ''%'' @ nl) w;
        if g_violation_count g < 4096 then do {
          vs \<leftarrow> arr_set (g_violations g) (g_violation_count g)
                  \<lparr>v_logic = logic, v_tick = word_of_int i, v_err_pct = tick_err, v_bound_pct = bound\<rparr>;
          Some (c, \<lparr>g_violations = vs, g_violation_count = g_violation_count g + 1\<rparr>, w)
        } else Some (c, g, w)
      })"

definition exp4_count :: "int \<Rightarrow> f64 \<Rightarrow> int \<Rightarrow> exp4_counts \<Rightarrow> exp4_counts" where
  "exp4_count logic tick_err state c =
     (let c = (if max_err c < tick_err then c\<lparr>max_err := tick_err\<rparr> else c);
          c = c\<lparr>sum_err := sum_err c + tick_err\<rparr>;
          c = (if tick_err < 1 then c\<lparr>under1 := under1 c + 1\<rparr>
               else if tick_err < dec 30 1 then c\<lparr>b1to3 := b1to3 c + 1\<rparr>
               else if tick_err < dec 50 1 then c\<lparr>b3to5 := b3to5 c + 1\<rparr>
               else c\<lparr>over5 := over5 c + 1\<rparr>)
      in if logic = 3 then
           (if state = APAF_TIGHT then c\<lparr>tight_count := tight_count c + 1\<rparr>
            else if state = APAF_MEDIUM then c\<lparr>med_count := med_count c + 1\<rparr>
            else c\<lparr>loose_count := loose_count c + 1\<rparr>)
         else c)"

text \<open>The switch of this experiment has no case for the exact policy, whose number falls to the default.\<close>

definition exp4_approx_tick :: "int \<Rightarrow> cfs_rq ptr \<Rightarrow> cfs_rq ptr option" where
  "exp4_approx_tick logic =
     (if logic = 1 then bsa_tick else if logic = 2 then clti_tick else if logic = 3 then apaf_tick
      else exact_tick)"

type_synonym exp4_state = "cfs_rq ptr \<times> cfs_rq ptr \<times> metrics list \<times> exp4_counts \<times> exp4_globals \<times> io"

definition exp4_step :: "int \<Rightarrow> int \<Rightarrow> exp4_state \<Rightarrow> exp4_state option" where
  "exp4_step logic i s =
     (case s of (e, a, mbuf, c, g, w) \<Rightarrow> do {
        rq \<leftarrow> c_deref a;
        tick_err \<leftarrow> exp4_tick_err logic (apaf_state rq);
        e \<leftarrow> exact_tick e;
        a \<leftarrow> exp4_approx_tick logic a;
        m \<leftarrow> arr_get mbuf i;
        p \<leftarrow> metrics_record (Ref m) a e;
        m \<leftarrow> c_deref p;
        mbuf \<leftarrow> arr_set mbuf i m;
        rq \<leftarrow> c_deref a;
        let bound = exp4_bound logic (apaf_state rq);
        (c, g, w) \<leftarrow> (if bound < tick_err then exp4_violate logic i tick_err bound (c, g, w) else Some (c, g, w));
        Some (e, a, mbuf, exp4_count logic tick_err (apaf_state rq) c, g, w)
      })"

section \<open>The run\<close>

definition exp4_file :: "int \<Rightarrow> string" where
  "exp4_file logic = take 63 (''results/exp4_'' @ metrics_get_logic_name logic @ ''.csv'')"

definition exp4_result_of :: "int \<Rightarrow> exp4_counts \<Rightarrow> exp4_result" where
  "exp4_result_of logic c =
     \<lparr>e4_logic = logic, max_error_ever = max_err c, avg_error_overall = sum_err c / f_of_int EXP4_TICKS,
      e4_n_violations = n_violations c, first_violation_tick = first_violation c,
      ticks_under_1pct = under1 c, ticks_1_to_3pct = b1to3 c, ticks_3_to_5pct = b3to5 c,
      ticks_over_5pct = over5 c, ticks_in_tight = tight_count c, ticks_in_medium = med_count c,
      ticks_in_loose = loose_count c, bound_verified = (if n_violations c = 0 then 1 else 0),
      theoretical_bound = (if logic = 1 then BOUND_BSA_DECAY else if logic = 2 then BOUND_CLTI_DECAY
                           else BOUND_APAF_LOOSE)\<rparr>"

definition run_exp4 :: "run_memory \<Rightarrow> (string \<Rightarrow> bool) \<Rightarrow> int \<Rightarrow> exp4_globals \<Rightarrow> io
    \<Rightarrow> (exp4_result \<times> exp4_globals \<times> io) option" where
  "run_exp4 mem can_open logic g w =
     (case mem of
        (Ref xs, Ref ys, Ref ms) \<Rightarrow> do {
          (xs, ys) \<leftarrow> for_loop 0 EXP4_N_TASKS (\<lambda>i (xs, ys). do {
              nc \<leftarrow> arr_get [- 5, 0, 5, 10] (c_div i 5);
              t \<leftarrow> task_create i nc;
              xs \<leftarrow> arr_set xs i t;
              u \<leftarrow> task_create i nc;
              ys \<leftarrow> arr_set ys i u;
              Some (xs, ys)
            }) (xs, ys);
          exact_rq \<leftarrow> rq_init (Ref xs) EXP4_N_TASKS 0;
          approx_rq \<leftarrow> rq_init (Ref ys) EXP4_N_TASKS logic;
          let approx_rq = approx_rq\<lparr>apaf_state := APAF_MEDIUM\<rparr>;
          p \<leftarrow> metrics_init (Ref ms) EXP4_TICKS;
          mbuf \<leftarrow> c_deref p;
          (e, a, mbuf, c, g, w) \<leftarrow> for_loop 0 EXP4_TICKS (exp4_step logic)
            (Ref exact_rq, Ref approx_rq, mbuf,
             \<lparr>n_violations = 0, first_violation = 0, violation_found = 0, under1 = 0, b1to3 = 0,
              b3to5 = 0, over5 = 0, tight_count = 0, med_count = 0, loose_count = 0, max_err = 0, sum_err = 0\<rparr>,
             g, w);
          w \<leftarrow> metrics_write_csv can_open (Ref mbuf) EXP4_TICKS EXP4_N_TASKS (Ref (exp4_file logic)) w;
          Some (exp4_result_of logic c, g, w)
        }
      | _ \<Rightarrow> Some (exp4_zero\<lparr>e4_logic := logic\<rparr>, g, put (''ERROR: allocation failed for logic='' @ fmt_d logic @ nl) w))"

section \<open>The report\<close>

definition exp4_yes_no :: "exp4_result \<Rightarrow> string" where
  "exp4_yes_no r = (if bound_verified r \<noteq> 0 then ''YES'' else ''NO'')"

definition exp4_table :: "exp4_result list \<Rightarrow> string list" where
  "exp4_table rs =
     [fmt_left 8 ''Logic'' @ '' '' @ fmt_left 12 ''Theoretical'' @ '' '' @ fmt_left 12 ''MaxObserved'' @ '' '' @
        fmt_left 12 ''AvgObserved'' @ '' '' @ fmt_left 10 ''Violations'' @ '' '' @ fmt_left 10 ''Verified'',
      fmt_left 8 ''-----'' @ '' '' @ fmt_left 12 ''-----------'' @ '' '' @ fmt_left 12 ''-----------'' @ '' '' @
        fmt_left 12 ''-----------'' @ '' '' @ fmt_left 10 ''----------'' @ '' '' @ fmt_left 10 ''--------''] @
     map (\<lambda>(logic, r). fmt_left 8 (metrics_get_logic_name logic) @ '' '' @
          fmt_left 12 (fmt_f 4 (theoretical_bound r)) @ '' '' @ fmt_left 12 (fmt_f 4 (max_error_ever r)) @ '' '' @
          fmt_left 12 (fmt_f 4 (avg_error_overall r)) @ '' '' @ fmt_left 10 (fmt_d (e4_n_violations r)) @ '' '' @
          fmt_left 10 (exp4_yes_no r)) (zip [1, 2, 3] rs)"

definition exp4_distribution :: "exp4_result list \<Rightarrow> string list" where
  "exp4_distribution rs =
     [[], ''Error Distribution (ticks by error range):'', [],
      fmt_left 8 ''Logic'' @ '' '' @ fmt_left 12 ''<1%'' @ '' '' @ fmt_left 12 ''1-3%'' @ '' '' @
        fmt_left 12 ''3-5%'' @ '' '' @ fmt_left 12 ''>5%'',
      fmt_left 8 ''-----'' @ '' '' @ fmt_left 12 ''---'' @ '' '' @ fmt_left 12 ''----'' @ '' '' @
        fmt_left 12 ''----'' @ '' '' @ fmt_left 12 ''---''] @
     map (\<lambda>(logic, r). fmt_left 8 (metrics_get_logic_name logic) @ '' '' @
          fmt_left 12 (fmt_d (ticks_under_1pct r)) @ '' '' @ fmt_left 12 (fmt_d (ticks_1_to_3pct r)) @ '' '' @
          fmt_left 12 (fmt_d (ticks_3_to_5pct r)) @ '' '' @ fmt_left 12 (fmt_d (ticks_over_5pct r)))
       (zip [1, 2, 3] rs)"

text \<open>A number of ticks as a percentage of the run.\<close>

definition exp4_pct :: "int \<Rightarrow> string" where
  "exp4_pct n = fmt_f 1 (dec 1000 1 * f_of_int n / f_of_int EXP4_TICKS) @ ''%''"

definition exp4_violations_file :: "exp4_result list \<Rightarrow> exp4_globals \<Rightarrow> string option" where
  "exp4_violations_file rs g =
     (if e4_n_violations (rs ! 0) = 0 \<and> e4_n_violations (rs ! 1) = 0 \<and> e4_n_violations (rs ! 2) = 0
      then Some (lines_of [''NO VIOLATIONS DETECTED'', ''All error bounds verified across 1000 ticks'',
                           ''All 3 logics confirmed safe''])
      else for_loop 0 (g_violation_count g) (\<lambda>i s. do {
             v \<leftarrow> arr_get (g_violations g) i;
             Some (s @ ''tick='' @ fmt_llu (v_tick v) @ '' logic='' @ metrics_get_logic_name (v_logic v) @
                   '' err='' @ fmt_f 4 (v_err_pct v) @ ''% bound='' @ fmt_f 4 (v_bound_pct v) @ ''%'' @ nl)
           }) (''Violations detected:'' @ nl))"

definition exp4_summary :: "exp4_result list \<Rightarrow> int \<Rightarrow> string" where
  "exp4_summary rs n_verified =
     (let r = rs ! 2 in lines_of (
       [''APEX-CFS Experiment 4 -- Error Bound Verification'', ''Tasks: 20 mixed nice'', ''Ticks: 1000'', []] @
       exp4_table rs @ exp4_distribution rs @
       [[], ''APAF State Distribution:'',
        ''  TIGHT='' @ fmt_d (ticks_in_tight r) @ ''('' @ exp4_pct (ticks_in_tight r) @
        '')  MEDIUM='' @ fmt_d (ticks_in_medium r) @ ''('' @ exp4_pct (ticks_in_medium r) @
        '')  LOOSE='' @ fmt_d (ticks_in_loose r) @ ''('' @ exp4_pct (ticks_in_loose r) @ '')'',
        [], ''CONCLUSION:''] @
       (if n_verified = 3 then
          [''All 3 approximation logics maintain'', ''error within theoretical bounds'',
           ''across 1000 ticks with mixed workload.'', ''Mathematical derivations confirmed.'']
        else [''WARNING: '' @ fmt_d (3 - n_verified) @ '' violations detected.'', ''See exp4_violations.txt''])))"

definition exp4_head :: "string list" where
  "exp4_head =
     [''================================'', ''APEX-CFS Experiment 4'', ''Error Bound Verification'',
      ''Tasks: 20 mixed nice values'', ''       5x nice=-5  (w=3121)'', ''       5x nice= 0  (w=1024)'',
      ''       5x nice=+5  (w=335)'', ''       5x nice=+10 (w=110)'', ''Ticks: '' @ fmt_d EXP4_TICKS,
      ''Theoretical bounds:'', ''  BSA:         <= '' @ fmt_f 4 BOUND_BSA_DECAY @ ''%'',
      ''  CLTI:        <= '' @ fmt_f 4 BOUND_CLTI_DECAY @ ''%'',
      ''  APAF-TIGHT:  <= '' @ fmt_f 4 BOUND_APAF_TIGHT @ ''%'',
      ''  APAF-MEDIUM: <= '' @ fmt_f 4 BOUND_APAF_MEDIUM @ ''%'',
      ''  APAF-LOOSE:  <= '' @ fmt_f 4 BOUND_APAF_LOOSE @ ''%'',
      ''================================'', []]"

text \<open>The three runs over \<open>(results, n_verified, globals, world)\<close>.\<close>

definition exp4_runs :: "(int \<Rightarrow> run_memory) \<Rightarrow> (string \<Rightarrow> bool) \<Rightarrow> exp4_globals \<Rightarrow> io
    \<Rightarrow> (exp4_result list \<times> int \<times> exp4_globals \<times> io) option" where
  "exp4_runs mem can_open g w =
     for_loop 0 3 (\<lambda>i (results, n_verified, g, w). do {
       logic \<leftarrow> arr_get [1, 2, 3] i;
       let w = put (''Running '' @ metrics_get_logic_name logic @ ''...'' @ nl) w;
       (r, g, w) \<leftarrow> run_exp4 (mem logic) can_open logic g w;
       results \<leftarrow> arr_set results i r;
       let w = put (lines_of [''  Max error:     '' @ fmt_f 4 (max_error_ever r) @ ''%'',
                              ''  Avg error:     '' @ fmt_f 4 (avg_error_overall r) @ ''%'',
                              ''  Violations:    '' @ fmt_d (e4_n_violations r),
                              ''  Bound verified: '' @ exp4_yes_no r, []]) w;
       Some (results, if bound_verified r \<noteq> 0 then n_verified + 1 else n_verified, g, w)
     }) (replicate 3 exp4_zero, 0, g, w)"

definition exp4_main :: "(int \<Rightarrow> run_memory) \<Rightarrow> (string \<Rightarrow> bool) \<Rightarrow> io \<Rightarrow> (int \<times> io) option" where
  "exp4_main mem can_open w = do {
     (rs, n_verified, g, w) \<leftarrow> exp4_runs mem can_open exp4_globals0 (put (lines_of exp4_head) w);
     let r = rs ! 2;
     let w = put (lines_of (
       [''Error Bound Verification Table'', ''('' @ fmt_d EXP4_TICKS @ '' ticks, 20 mixed-nice tasks)'', []] @
       exp4_table rs @ exp4_distribution rs @
       [[], ''APAF State Distribution (logic 3 only):'',
        ''  TIGHT:  '' @ fmt_d (ticks_in_tight r) @ '' ticks ('' @ exp4_pct (ticks_in_tight r) @ '')'',
        ''  MEDIUM: '' @ fmt_d (ticks_in_medium r) @ '' ticks ('' @ exp4_pct (ticks_in_medium r) @ '')'',
        ''  LOOSE:  '' @ fmt_d (ticks_in_loose r) @ '' ticks ('' @ exp4_pct (ticks_in_loose r) @ '')''])) w;
     w \<leftarrow> (if can_open ''results/exp4_violations.txt''
          then exp4_violations_file rs g \<bind> (\<lambda>c. Some (write_file ''results/exp4_violations.txt'' c w))
          else Some w);
     let w = (if can_open ''results/exp4_summary.txt''
              then write_file ''results/exp4_summary.txt'' (exp4_summary rs n_verified) w else w);
     Some (if n_verified = 3 then 0 else 1, put (lines_of (
       [[], ''================================''] @
       (if n_verified = 3
        then [''- ALL BOUNDS VERIFIED'', ''Mathematical proof confirmed'', ''3/3 logics within bounds'']
        else [''WARNING: '' @ fmt_d n_verified @ ''/3 bounds verified'', ''See violations.txt'']) @
       [[], ''CSV files: results/exp4_*.csv'', ''Violations: results/exp4_violations.txt'',
        ''Summary: results/exp4_summary.txt'', ''================================''])) w)
   }"

section \<open>What the loop measures\<close>

lemma floor_numeral_div [f64_eval]: "\<lfloor>numeral a / numeral b :: rat\<rfloor> = numeral a div numeral b"
  by (metis floor_divide_of_int_eq of_int_numeral)

lemmas decay_eval = exact_decay_load_1 exact_decay1_def bsa_decay_load_1 bsa_decay1_def
  clti_decay_load_1 clti_decay1_def mul_shr_def f64_eval

text \<open>The decay of one period by APAF, in its three states.\<close>

lemma apaf_decay_base:
  "apaf_decay_load 47742 1 0 = Some 46716" "apaf_decay_load 47742 1 2 = Some 46718"
  "s \<noteq> 0 \<Longrightarrow> s \<noteq> 2 \<Longrightarrow> apaf_decay_load 47742 1 s = Some 46663"
  by (simp_all add: apaf_decay_load_def apaf_poly_eval_def apaf_coefficients_def table_factor_def
      arr_get_def runnable_avg_yN_inv_def c_div_nonneg c_mod_nonneg f64_eval)

text \<open>
  The measured error does not depend on the run: it is the error of one constant, below one
  percent for every policy, whatever state the controller is in.
\<close>

lemma exp4_err_values:
  "exp4_tick_err 1 s = Some (Fin (1125466108342619 / 1125899906842624))"
  "exp4_tick_err 2 s = Some (Fin (5244141866709659 / 72057594037927936))"
  "exp4_tick_err 3 0 = Some (Fin (4935662933380721 / 1152921504606846976))" "exp4_tick_err 3 2 = Some (Fin 0)"
  "s \<noteq> 0 \<Longrightarrow> s \<noteq> 2 \<Longrightarrow> exp4_tick_err 3 s = Some (Fin (8483170666736669 / 72057594037927936))"
  by (simp_all add: exp4_tick_err_def decay_eval apaf_decay_base)

lemma exp4_bound_values:
  "exp4_bound logic s = Fin b \<Longrightarrow> logic \<noteq> 2 \<Longrightarrow> 3 / 2 \<le> b" "exp4_bound 2 s = Fin b \<Longrightarrow> 1 / 2 \<le> b"
  "exp4_bound logic s = Fin (f_val (exp4_bound logic s))"
  by (auto simp: exp4_bound_def f64_eval split: if_splits)

lemma exp4_err_ok:
  assumes "logic \<in> {1, 2, 3}"
  obtains q where "exp4_tick_err logic s = Some (Fin q)" and "0 \<le> q" and "q < 1"
    and "\<not> exp4_bound logic s' < Fin q"
proof -
  obtain b where b: "exp4_bound logic s' = Fin b" using exp4_bound_values(3) by blast
  define q :: rat where "q = (if logic = 1 then 1125466108342619 / 1125899906842624
    else if logic = 2 then 5244141866709659 / 72057594037927936
    else if s = 0 then 4935662933380721 / 1152921504606846976 else if s = 2 then 0
    else 8483170666736669 / 72057594037927936)"
  have "exp4_tick_err logic s = Some (Fin q)"
    using assms exp4_err_values by (auto simp: q_def)
  moreover have "0 \<le> q" "q < 1" "logic = 2 \<longrightarrow> q \<le> 1 / 2" by (simp_all add: q_def)
  ultimately have q: "exp4_tick_err logic s = Some (Fin q)" "0 \<le> q" "q < 1" "logic = 2 \<longrightarrow> q \<le> 1 / 2" .
  have "q \<le> b" using q(3,4) b exp4_bound_values(1) [of logic s' b] exp4_bound_values(2) [of s' b]
    by (cases "logic = 2") auto
  then show thesis using that [OF q(1-3)] b by simp
qed

section \<open>The runs\<close>

definition exp4_inv :: "int \<Rightarrow> nat \<Rightarrow> exp4_globals \<Rightarrow> io \<Rightarrow> nat \<Rightarrow> exp4_state \<Rightarrow> bool" where
  "exp4_inv logic k g w i s \<longleftrightarrow> (\<exists>e a mbuf c xs ys. s = (Ref e, Ref a, mbuf, c, g, w) \<and> rq_view e xs \<and>
     rq_view a ys \<and> length xs = 20 \<and> length ys = 20 \<and> length mbuf = k \<and> n_violations c = 0 \<and>
     under1 c = int i \<and> b1to3 c = 0 \<and> b3to5 c = 0 \<and> over5 c = 0 \<and>
     tight_count c + med_count c + loose_count c = (if logic = 3 then int i else 0))"

lemma exp4_step_inv:
  assumes "logic \<in> {1, 2, 3}" and "exp4_inv logic k g w i s" and "i < k"
  shows "\<exists>s'. exp4_step logic (int i) s = Some s' \<and> exp4_inv logic k g w (Suc i) s'"
proof -
  obtain e a mbuf c xs ys where s: "s = (Ref e, Ref a, mbuf, c, g, w)" "rq_view e xs" "rq_view a ys"
    "length xs = 20" "length ys = 20" "length mbuf = k" "n_violations c = 0" "under1 c = int i"
    "b1to3 c = 0" "b3to5 c = 0" "over5 c = 0"
    "tight_count c + med_count c + loose_count c = (if logic = 3 then int i else 0)"
    using assms(2) unfolding exp4_inv_def by (elim exE conjE) (rule that; assumption)
  obtain e' xs' where e: "exact_tick (Ref e) = Some (Ref e')" "rq_view e' xs'" "length xs' = 20"
    using exact.refines [OF s(2)] exact.view_spec_tick [OF s(2)] s(4) length_spec_tasks by metis
  have tk: "exp4_approx_tick logic = approx_tick logic"
    using assms(1) by (auto simp: exp4_approx_tick_def approx_tick_def)
  obtain a' ys' where a: "exp4_approx_tick logic (Ref a) = Some (Ref a')" "rq_view a' ys'" "length ys' = 20"
    using approx_tick_view [OF s(3), of logic] s(5) tk by metis
  obtain m where m: "metrics_record (Ref (mbuf ! i)) (Ref a') (Ref e') = Some (Ref m)"
    using metrics_record_defined [OF a(2) e(2)] a(3) e(3) by auto
  obtain q where q: "exp4_tick_err logic (apaf_state a) = Some (Fin q)" "q < 1"
    "\<not> exp4_bound logic (apaf_state a') < Fin q" by (rule exp4_err_ok [OF assms(1)])
  let ?c = "exp4_count logic (Fin q) (apaf_state a') c"
  have "exp4_step logic (int i) s = Some (Ref e', Ref a', mbuf[i := m], ?c, g, w)"
    using s(1,6) e(1) a(1) m q(1,3) assms(3) by (simp add: exp4_step_def Let_def)
  moreover have "exp4_inv logic k g w (Suc i) (Ref e', Ref a', mbuf[i := m], ?c, g, w)"
    unfolding exp4_inv_def using e(2,3) a(2,3) s(6-12) q(2)
    by (intro exI conjI) (rule refl | assumption | simp add: exp4_count_def Let_def split: if_splits)+
  ultimately show ?thesis by blast
qed

lemma exp4_setup:
  assumes "length xs = 20" and "length ys = 20"
  obtains xs' ys' where "for_loop 0 20 (\<lambda>i (xs, ys). do {
              nc \<leftarrow> arr_get [- 5, 0, 5, 10] (c_div i 5);
              t \<leftarrow> task_create i nc;
              xs \<leftarrow> arr_set xs i t;
              u \<leftarrow> task_create i nc;
              ys \<leftarrow> arr_set ys i u;
              Some (xs, ys)
            }) (xs, ys) = Some (xs', ys')" and "length xs' = 20" and "length ys' = 20"
proof -
  let ?body = "\<lambda>i (xs, ys). do {
              nc \<leftarrow> arr_get [- 5, 0, 5, 10] (c_div i 5);
              t \<leftarrow> task_create i nc;
              xs \<leftarrow> arr_set xs i t;
              u \<leftarrow> task_create i nc;
              ys \<leftarrow> arr_set ys i u;
              Some (xs, ys)
            }"
  let ?I = "\<lambda>_ (xs :: cfs_task list, ys :: cfs_task list). length xs = 20 \<and> length ys = 20"
  have idx: "arr_get [- 5, 0, 5, 10 :: int] (c_div (int j) 5) = Some ([- 5, 0, 5, 10] ! (j div 5))" if "j < 20" for j
  proof -
    have "c_div (int j) 5 = int (j div 5)" by (simp add: c_div_nonneg zdiv_int)
    moreover have "j div 5 < 4" using that by (simp add: div_less_iff_less_mult)
    ultimately show ?thesis by simp
  qed
  have "\<exists>s. for_loop (int 0) (int 20) ?body (xs, ys) = Some s \<and> ?I 20 s"
    by (rule for_loop_invariant [where P = ?I]) (use assms idx in \<open>auto simp: task_create_view\<close>)
  then show thesis using that by auto
qed

lemma run_exp4_view:
  assumes "logic \<in> {1, 2, 3}" and "exp1_mem 1000 20 mem"
  obtains r w' mbuf where "run_exp4 mem can_open logic g w = Some (r, g, w')"
    and "e4_n_violations r = 0" and "bound_verified r = 1" and "ticks_under_1pct r = 1000"
    and "ticks_in_tight r + ticks_in_medium r + ticks_in_loose r = (if logic = 3 then 1000 else 0)"
    and "length mbuf = 1000"
    and "files w' = (if can_open (exp4_file logic)
      then (files w)(exp4_file logic \<mapsto> METRICS_CSV_HEADER @ concat (map (\<lambda>m. csv_row m 20) mbuf))
      else files w)"
proof -
  obtain xl yl ms where m: "mem = (Ref xl, Ref yl, Ref ms)" "length xl = 20" "length yl = 20" "length ms = 1000"
    using assms(2) by (auto simp: exp1_mem_def)
  obtain xs ys where su: "for_loop 0 20 (\<lambda>i (xs, ys). do {
              nc \<leftarrow> arr_get [- 5, 0, 5, 10] (c_div i 5);
              t \<leftarrow> task_create i nc;
              xs \<leftarrow> arr_set xs i t;
              u \<leftarrow> task_create i nc;
              ys \<leftarrow> arr_set ys i u;
              Some (xs, ys)
            }) (xl, yl) = Some (xs, ys)" "length xs = 20" "length ys = 20"
    by (rule exp4_setup [OF m(2,3)])
  have init: "\<exists>rq. rq_init (Ref zs) 20 mode = Some rq \<and> rq_view rq zs" if "length zs = 20" for zs mode
    using rq_init_view [of zs mode] that by (simp add: rq_view_def)
  obtain e a where ea: "rq_init (Ref xs) 20 0 = Some e" "rq_view e xs" "rq_init (Ref ys) 20 logic = Some a" "rq_view a ys"
    using init [OF su(2)] init [OF su(3)] by blast
  obtain mb where mb: "metrics_init (Ref ms) 1000 = Some (Ref mb)" "length mb = 1000"
    using metrics_init_view [of 1000 ms] m(4) by (auto simp: Let_def)
  let ?c = "\<lparr>n_violations = 0, first_violation = 0, violation_found = 0, under1 = 0, b1to3 = 0,
              b3to5 = 0, over5 = 0, tight_count = 0, med_count = 0, loose_count = 0, max_err = 0, sum_err = 0\<rparr>"
  have "rq_view (a\<lparr>apaf_state := APAF_MEDIUM\<rparr>) ys" using ea(4) by simp
  then have I: "exp4_inv logic 1000 g w 0 (Ref e, Ref (a\<lparr>apaf_state := APAF_MEDIUM\<rparr>), mb, ?c, g, w)"
    unfolding exp4_inv_def using ea(2) su(2,3) mb(2) by (intro exI conjI) (rule refl | assumption | simp)+
  have "\<exists>s'. for_loop (int 0) (int 1000) (exp4_step logic) (Ref e, Ref (a\<lparr>apaf_state := APAF_MEDIUM\<rparr>), mb, ?c, g, w) = Some s'
      \<and> exp4_inv logic 1000 g w 1000 s'"
    by (rule for_loop_invariant [where P = "exp4_inv logic 1000 g w", OF I]) (use exp4_step_inv [OF assms(1)] in auto)
  then obtain e' a' mbuf c where run:
    "for_loop 0 1000 (exp4_step logic) (Ref e, Ref (a\<lparr>apaf_state := APAF_MEDIUM\<rparr>), mb, ?c, g, w) = Some (Ref e', Ref a', mbuf, c, g, w)"
    "length mbuf = 1000" "n_violations c = 0" "under1 c = 1000"
    "tight_count c + med_count c + loose_count c = (if logic = 3 then 1000 else 0)"
    by (auto simp: exp4_inv_def)
  obtain w' where w': "metrics_write_csv can_open (Ref mbuf) 1000 20 (Ref (exp4_file logic)) w = Some w'"
    "files w' = (if can_open (exp4_file logic)
      then (files w)(exp4_file logic \<mapsto> METRICS_CSV_HEADER @ concat (map (\<lambda>m. csv_row m 20) mbuf))
      else files w)"
    using metrics_write_csv_view [of 1000 mbuf can_open 20 "exp4_file logic" w] run(2) by auto
  have "run_exp4 mem can_open logic g w = Some (exp4_result_of logic c, g, w')"
    using m(1) su(1) ea(1,3) mb(1) run(1) w'(1) by (simp add: run_exp4_def Let_def)
  then show thesis
    by (rule that [OF _ _ _ _ _ run(2) w'(2)]) (use run(3-5) in \<open>simp_all add: exp4_result_of_def\<close>)
qed

text \<open>
  C24. A run of the verification experiment cannot find a violation, whatever the scheduler under
  test does with the tasks: for every logic of the experiment all 1000 ticks are below one
  percent, no violation is recorded and the bound is reported as verified, because the
  measured error is that of one constant and does not depend on the runqueues.
\<close>

theorem exp4_verified:
  assumes "logic \<in> {1, 2, 3}" and "exp1_mem 1000 20 mem"
  shows "\<exists>r w'. run_exp4 mem can_open logic g w = Some (r, g, w') \<and>
    e4_n_violations r = 0 \<and> bound_verified r = 1 \<and> ticks_under_1pct r = 1000 \<and>
    ticks_in_tight r + ticks_in_medium r + ticks_in_loose r = (if logic = 3 then 1000 else 0)"
  by (rule run_exp4_view [OF assms, of can_open g w]) blast

theorem exp4_verified_witness:
  "\<exists>r w'. run_exp4 (Ref (replicate 20 (nice0_task 0)), Ref (replicate 20 (nice0_task 0)), Ref (replicate 1000 zero_metrics))
     (\<lambda>_. False) 3 exp4_globals0 \<lparr>stdout = [], files = Map.empty\<rparr> = Some (r, exp4_globals0, w') \<and> bound_verified r = 1"
  using exp4_verified [of 3 "(Ref (replicate 20 (nice0_task 0)), Ref (replicate 20 (nice0_task 0)),
      Ref (replicate 1000 zero_metrics))" "\<lambda>_. False" exp4_globals0 "\<lparr>stdout = [], files = Map.empty\<rparr>"]
  by (auto simp: exp1_mem_def)

section \<open>The whole experiment\<close>

lemma exp4_runs_view:
  assumes "\<forall>logic \<in> {1, 2, 3}. exp1_mem 1000 20 (mem logic)"
  obtains r1 r2 r3 w' where "exp4_runs mem can_open g w = Some ([r1, r2, r3], 3, g, w')"
    and "\<forall>r \<in> {r1, r2, r3}. e4_n_violations r = 0"
proof -
  have run: "\<exists>r w'. run_exp4 (mem logic) can_open logic g w = Some (r, g, w') \<and> e4_n_violations r = 0 \<and> bound_verified r = 1"
    if "logic \<in> {1, 2, 3}" for logic w
    by (rule run_exp4_view [OF that bspec [OF assms that], of can_open g w]) blast
  then obtain r w' where *: "\<And>logic w. logic \<in> {1, 2, 3} \<Longrightarrow>
      run_exp4 (mem logic) can_open logic g w = Some (r logic w, g, w' logic w) \<and>
      e4_n_violations (r logic w) = 0 \<and> bound_verified (r logic w) = 1" by metis
  show thesis
    by (rule that) (auto simp: exp4_runs_def for_loop_step arr_get_def arr_set_def * numeral_eq_Suc Let_def)
qed

text \<open>
  So the whole experiment always returns 0, and the violations file, if it can be opened, always
  says that no violations were detected.
\<close>

theorem exp4_main_verdict:
  assumes "\<forall>logic \<in> {1, 2, 3}. exp1_mem 1000 20 (mem logic)"
  shows "\<exists>w'. exp4_main mem can_open w = Some (0, w') \<and>
    (can_open ''results/exp4_violations.txt'' \<longrightarrow> files w' ''results/exp4_violations.txt'' =
       Some (lines_of [''NO VIOLATIONS DETECTED'', ''All error bounds verified across 1000 ticks'',
                       ''All 3 logics confirmed safe'']))"
proof -
  obtain r1 r2 r3 w1 where "exp4_runs mem can_open exp4_globals0 (put (lines_of exp4_head) w) =
      Some ([r1, r2, r3], 3, exp4_globals0, w1)" "\<forall>r \<in> {r1, r2, r3}. e4_n_violations r = 0"
    by (rule exp4_runs_view [OF assms])
  then show ?thesis by (simp add: exp4_main_def exp4_violations_file_def Let_def)
qed

theorem exp4_main_verdict_witness:
  "\<exists>w'. exp4_main (\<lambda>_. (Ref (replicate 20 (nice0_task 0)), Ref (replicate 20 (nice0_task 0)), Ref (replicate 1000 zero_metrics)))
     (\<lambda>_. True) \<lparr>stdout = [], files = Map.empty\<rparr> = Some (0, w')"
  using exp4_main_verdict [of "\<lambda>_. (Ref (replicate 20 (nice0_task 0)), Ref (replicate 20 (nice0_task 0)),
      Ref (replicate 1000 zero_metrics))" "\<lambda>_. True" "\<lparr>stdout = [], files = Map.empty\<rparr>"]
  by (auto simp: exp1_mem_def)

end

