(* ===== verification/Kernel_Pelt.thy ===== *)
theory Kernel_Pelt
  imports CFS_Exact
begin

text \<open>
  src/apex-cfs/docs/pelt.c: the kernel's load tracking as the repository keeps it, with the
  stubs the repository adds in front (lines 55 to 87). cfs_exact.c rewrites \<open>decay_load\<close>
  from this file; the last section compares the two.

  \<open>unsigned long\<close> has 64 bits. The conversions the C standard leaves to the implementation
  (\<open>u64\<close> to \<open>s64\<close> or \<open>int\<close>) keep the low bits, as gcc defines them. An entity is named by
  its address where the code compares pointers (\<open>cfs_rq->curr == se\<close>). The empty trace
  stubs and \<open>cfs_se_util_change\<close>, which do nothing, have no definition.
\<close>

section \<open>State\<close>

record sched_avg =
  sa_load_sum :: u64
  sa_runnable_sum :: u64
  sa_util_sum :: u64
  last_update_time :: u64
  period_contrib :: u64
  sa_load_avg :: u64
  sa_runnable_avg :: u64
  sa_util_avg :: u64

record sched_entity =
  se_avg :: sched_avg
  on_rq :: int

record kernel_cfs_rq =
  cfs_avg :: sched_avg
  load_weight :: u64
  h_nr_running :: int
  curr :: "nat ptr"

record kernel_rq =
  avg_rt :: sched_avg
  avg_dl :: sched_avg
  avg_thermal :: sched_avg
  avg_irq :: sched_avg
  rq_clock :: u64

section \<open>Stubs and table\<close>

abbreviation (input) SCHED_CAPACITY_SHIFT :: nat where "SCHED_CAPACITY_SHIFT \<equiv> 10"

definition mul_u64_u32_shr :: "u64 \<Rightarrow> u32 \<Rightarrow> int \<Rightarrow> u64 option" where
  "mul_u64_u32_shr a b shift = u64_shr (a * ucast b) shift"

definition div_u64 :: "u64 \<Rightarrow> u32 \<Rightarrow> u64 option" where
  "div_u64 a b = (if b = 0 then None else Some (a div ucast b))"

definition get_pelt_divider :: "sched_avg \<Rightarrow> u32" where "get_pelt_divider sa = 1024"
definition se_weight :: "sched_entity \<Rightarrow> u64" where "se_weight se = 1"
definition se_runnable :: "sched_entity \<Rightarrow> u64" where "se_runnable se = 1"
definition scale_load_down :: "u64 \<Rightarrow> u64" where "scale_load_down w = w"
definition cpu_of :: "kernel_rq \<Rightarrow> u64" where "cpu_of rq = 0"
definition cap_scale :: "u64 \<Rightarrow> u64 \<Rightarrow> u64" where "cap_scale v cap = v"
definition arch_scale_freq_capacity :: "u64 \<Rightarrow> u64" where "arch_scale_freq_capacity cpu = 1024"
definition arch_scale_cpu_capacity :: "u64 \<Rightarrow> u64" where "arch_scale_cpu_capacity cpu = 1024"

definition pelt_yN_inv :: "u32 list" where
  "pelt_yN_inv =
    [0xffffffff, 0xfa83b2da, 0xf5257d14, 0xefe4b99a,
     0xeac0c6e6, 0xe5b906e6, 0xe0ccdeeb, 0xdbfbb796,
     0xd744fcc9, 0xd2a81d91, 0xce248c14, 0xc9b9bd85,
     0xc5672a10, 0xc12c4cc9, 0xbd08a39e, 0xb8fbaf46,
     0xb504f333, 0xb123f581, 0xad583ee9, 0xa9a15ab4,
     0xa5fed6a9, 0xa2704302, 0x9ef5325f, 0x9b8d39b9,
     0x9837f050, 0x94f4efa8, 0x91c3d373, 0x8ea4398a,
     0x8b95c1e3, 0x88980e80, 0x85aac367, 0x82cd8698]"

section \<open>Sums\<close>

definition decay_load :: "u64 \<Rightarrow> u64 \<Rightarrow> u64 option" where
  "decay_load val n =
     (if 32 * 63 < n then Some 0
      else do {
        let local_n = (ucast n :: u32);
        (val1, local_n1) \<leftarrow>
          (if 32 \<le> local_n
           then do { v \<leftarrow> u64_shr val (uint (local_n div 32)); Some (v, local_n mod 32) }
           else Some (val, local_n));
        y \<leftarrow> arr_get pelt_yN_inv (uint local_n1);
        mul_u64_u32_shr val1 y 32
      })"

definition accumulate_pelt_segments :: "u64 \<Rightarrow> u32 \<Rightarrow> u32 \<Rightarrow> u32 option" where
  "accumulate_pelt_segments periods d1 d3 = do {
     l \<leftarrow> decay_load (ucast d1) periods;
     let c1 = (ucast l :: u32);
     m \<leftarrow> decay_load LOAD_AVG_MAX periods;
     let c2 = (ucast (LOAD_AVG_MAX - m - 1024) :: u32);
     Some (c1 + c2 + d3)
   }"

definition accumulate_sum ::
  "u64 \<Rightarrow> sched_avg \<Rightarrow> u64 \<Rightarrow> u64 \<Rightarrow> int \<Rightarrow> (u32 \<times> sched_avg) option" where
  "accumulate_sum delta sa load rnbl running = do {
     let contrib = (ucast delta :: u32);
     let delta1 = delta + period_contrib sa;
     let periods = delta1 div 1024;
     (sa1, delta2, contrib1) \<leftarrow>
       (if periods \<noteq> 0 then do {
          l \<leftarrow> decay_load (sa_load_sum sa) periods;
          r \<leftarrow> decay_load (sa_runnable_sum sa) periods;
          u \<leftarrow> decay_load (sa_util_sum sa) periods;
          let delta2 = delta1 mod 1024;
          c \<leftarrow> (if load \<noteq> 0
               then accumulate_pelt_segments periods (ucast (1024 - period_contrib sa)) (ucast delta2)
               else Some contrib);
          Some (sa\<lparr>sa_load_sum := l, sa_runnable_sum := r, sa_util_sum := u\<rparr>, delta2, c)
        } else Some (sa, delta1, contrib));
     let sa2 = sa1\<lparr>period_contrib := delta2\<rparr>;
     let sa3 = (if load \<noteq> 0
                then sa2\<lparr>sa_load_sum := sa_load_sum sa2 + load * ucast contrib1\<rparr> else sa2);
     let sa4 = (if rnbl \<noteq> 0
                then sa3\<lparr>sa_runnable_sum := sa_runnable_sum sa3
                           + push_bit SCHED_CAPACITY_SHIFT (rnbl * ucast contrib1)\<rparr> else sa3);
     let sa5 = (if running \<noteq> 0
                then sa4\<lparr>sa_util_sum := sa_util_sum sa4
                           + ucast (push_bit SCHED_CAPACITY_SHIFT contrib1)\<rparr> else sa4);
     Some (ucast periods, sa5)
   }"

definition update_load_sum ::
  "u64 \<Rightarrow> sched_avg \<Rightarrow> u64 \<Rightarrow> u64 \<Rightarrow> int \<Rightarrow> (int \<times> sched_avg) option" where
  "update_load_sum now sa load rnbl running =
     (let delta = now - last_update_time sa in
      if sint delta < 0 then Some (0, sa\<lparr>last_update_time := now\<rparr>)
      else let delta1 = drop_bit 10 delta in
        if delta1 = 0 then Some (0, sa)
        else do {
          let sa1 = sa\<lparr>last_update_time := last_update_time sa + push_bit 10 delta1\<rparr>;
          let (rnbl1, running1) = (if load = 0 then (0, 0) else (rnbl, running));
          (periods, sa2) \<leftarrow> accumulate_sum delta1 sa1 load rnbl1 running1;
          Some (if periods = 0 then 0 else 1, sa2)
        })"

definition update_load_avg :: "sched_avg \<Rightarrow> u64 \<Rightarrow> sched_avg option" where
  "update_load_avg sa load = do {
     let divider = get_pelt_divider sa;
     l \<leftarrow> div_u64 (load * sa_load_sum sa) divider;
     r \<leftarrow> div_u64 (sa_runnable_sum sa) divider;
     u \<leftarrow> div_u64 (sa_util_sum sa) divider;
     Some (sa\<lparr>sa_load_avg := l, sa_runnable_avg := r, sa_util_avg := u\<rparr>)
   }"

section \<open>The entry points\<close>


definition update_load_avg_se ::
  "u64 \<Rightarrow> kernel_cfs_rq \<Rightarrow> nat \<Rightarrow> sched_entity \<Rightarrow> (int \<times> sched_entity) option" where
  "update_load_avg_se now cfs_rq addr se = do {
     (r, sa) \<leftarrow> update_load_sum now (se_avg se) (if on_rq se = 0 then 0 else 1) (se_runnable se)
                 (if curr cfs_rq = Ref addr then 1 else 0);
     if r \<noteq> 0 then do {
       sa1 \<leftarrow> update_load_avg sa (se_weight se);
       Some (1, se\<lparr>se_avg := sa1\<rparr>)
     } else Some (0, se\<lparr>se_avg := sa\<rparr>)
   }"

definition update_load_avg_cfs_rq :: "u64 \<Rightarrow> kernel_cfs_rq \<Rightarrow> (int \<times> kernel_cfs_rq) option" where
  "update_load_avg_cfs_rq now cfs_rq = do {
     (r, sa) \<leftarrow> update_load_sum now (cfs_avg cfs_rq) (scale_load_down (load_weight cfs_rq))
                 (of_int (h_nr_running cfs_rq)) (if curr cfs_rq = NULL then 0 else 1);
     if r \<noteq> 0 then do {
       sa1 \<leftarrow> update_load_avg sa 1;
       Some (1, cfs_rq\<lparr>cfs_avg := sa1\<rparr>)
     } else Some (0, cfs_rq\<lparr>cfs_avg := sa\<rparr>)
   }"

definition update_rt_rq_load_avg :: "u64 \<Rightarrow> kernel_rq \<Rightarrow> int \<Rightarrow> (int \<times> kernel_rq) option" where
  "update_rt_rq_load_avg now rq running = do {
     (r, sa) \<leftarrow> update_load_sum now (avg_rt rq) (of_int running) (of_int running) running;
     if r \<noteq> 0 then do {
       sa1 \<leftarrow> update_load_avg sa 1;
       Some (1, rq\<lparr>avg_rt := sa1\<rparr>)
     } else Some (0, rq\<lparr>avg_rt := sa\<rparr>)
   }"

definition update_dl_rq_load_avg :: "u64 \<Rightarrow> kernel_rq \<Rightarrow> int \<Rightarrow> (int \<times> kernel_rq) option" where
  "update_dl_rq_load_avg now rq running = do {
     (r, sa) \<leftarrow> update_load_sum now (avg_dl rq) (of_int running) (of_int running) running;
     if r \<noteq> 0 then do {
       sa1 \<leftarrow> update_load_avg sa 1;
       Some (1, rq\<lparr>avg_dl := sa1\<rparr>)
     } else Some (0, rq\<lparr>avg_dl := sa\<rparr>)
   }"

definition update_thermal_load_avg :: "u64 \<Rightarrow> kernel_rq \<Rightarrow> u64 \<Rightarrow> (int \<times> kernel_rq) option" where
  "update_thermal_load_avg now rq capacity = do {
     (r, sa) \<leftarrow> update_load_sum now (avg_thermal rq) capacity capacity (sint (ucast capacity :: u32));
     if r \<noteq> 0 then do {
       sa1 \<leftarrow> update_load_avg sa 1;
       Some (1, rq\<lparr>avg_thermal := sa1\<rparr>)
     } else Some (0, rq\<lparr>avg_thermal := sa\<rparr>)
   }"

definition update_irq_load_avg :: "kernel_rq \<Rightarrow> u64 \<Rightarrow> (int \<times> kernel_rq) option" where
  "update_irq_load_avg rq running = do {
     let running1 = cap_scale running (arch_scale_freq_capacity (cpu_of rq));
     let running2 = cap_scale running1 (arch_scale_cpu_capacity (cpu_of rq));
     (r1, sa1) \<leftarrow> update_load_sum (rq_clock rq - running2) (avg_irq rq) 0 0 0;
     (r2, sa2) \<leftarrow> update_load_sum (rq_clock rq) sa1 1 1 1;
     let ret = r1 + r2;
     if ret \<noteq> 0 then do {
       sa3 \<leftarrow> update_load_avg sa2 1;
       Some (ret, rq\<lparr>avg_irq := sa3\<rparr>)
     } else Some (ret, rq\<lparr>avg_irq := sa2\<rparr>)
   }"

section \<open>Decay as a function on numbers\<close>

definition pelt_decay :: "nat \<Rightarrow> nat \<Rightarrow> nat" where
  "pelt_decay v p =
     (if 2016 < p then 0
      else v div 2 ^ (p div 32) * unat (pelt_yN_inv ! (p mod 32)) div 4294967296)"

text \<open>The table: entry 0 is just below one, all others are at most y, and all fit 32 bits.\<close>

lemma pelt_yN_inv_length: "length pelt_yN_inv = 32"
  by (simp add: pelt_yN_inv_def)

lemma pelt_yN_inv_table: "pelt_yN_inv = runnable_avg_yN_inv"
  by (simp add: pelt_yN_inv_def runnable_avg_yN_inv_def)

lemma pelt_yN_inv_tail: "\<forall>y \<in> set (tl pelt_yN_inv). unat y \<le> 4202935002"
  by (simp add: pelt_yN_inv_def)

lemma pelt_yN_inv_le:
  assumes "0 < i" and "i < 32"
  shows "unat (pelt_yN_inv ! i) \<le> 4202935002"
proof -
  have "pelt_yN_inv ! i = tl pelt_yN_inv ! (i - 1)"
    using assms by (simp add: nth_tl pelt_yN_inv_length)
  then show ?thesis
    using assms pelt_yN_inv_tail by (auto simp: pelt_yN_inv_length intro!: bspec [OF pelt_yN_inv_tail] nth_mem)
qed

lemma pelt_yN_inv_0: "unat (pelt_yN_inv ! 0) = 4294967295"
  by (simp add: pelt_yN_inv_def)

text \<open>The decay is defined for every load and every number of periods.\<close>

lemma decay_load_word:
  "decay_load v n = Some (if 2016 < unat n then 0
     else drop_bit 32 (drop_bit (unat n div 32) v * ucast (pelt_yN_inv ! (unat n mod 32))))"
proof (cases "2016 < unat n")
  case True
  then have "32 * 63 < n" by (simp add: word_less_nat_alt)
  then show ?thesis using True by (simp add: decay_load_def)
next
  case False
  then have n: "\<not> 32 * 63 < n" by (simp add: word_less_nat_alt)
  let ?m = "ucast n :: u32"
  have m: "unat ?m = unat n" using False by (simp add: unat_ucast_u64_u32)
  have mi: "uint ?m = uint n" using arg_cong [OF m, of int] by simp
  have get: "arr_get pelt_yN_inv (int (unat n mod 32)) = Some (pelt_yN_inv ! (unat n mod 32))"
    by (simp add: pelt_yN_inv_length)
  show ?thesis
  proof (cases "32 \<le> ?m")
    case True
    have d: "uint (?m div 32) = int (unat n div 32)" "uint (?m mod 32) = int (unat n mod 32)"
      using mi by (simp_all add: uint_div uint_mod zdiv_int zmod_int)
    have "unat n div 32 < 64" using False by simp
    then show ?thesis using n False True d get
      by (simp add: decay_load_def mul_u64_u32_shr_def u64_shr_def)
  next
    case small: False
    then have "unat n < 32" using m by (simp add: word_le_nat_alt)
    then show ?thesis using n False small get mi
      by (simp add: decay_load_def mul_u64_u32_shr_def u64_shr_def)
  qed
qed

text \<open>Below 32 bits the 64-bit product of the stub does not wrap.\<close>

lemma decay_load_view:
  assumes "unat v < 4294967296"
  obtains k where "decay_load v n = Some k" and "unat k = pelt_decay (unat v) (unat n)"
proof (cases "2016 < unat n")
  case True
  then show ?thesis using that [of 0] by (simp add: decay_load_word pelt_decay_def)
next
  case False
  let ?y = "pelt_yN_inv ! (unat n mod 32)"
  have "unat v div 2 ^ (unat n div 32) \<le> unat v" by simp
  then have "unat v div 2 ^ (unat n div 32) < 4294967296" using assms by linarith
  then have "unat v div 2 ^ (unat n div 32) * unat ?y < 4294967296 * 4294967296"
    by (intro mult_strict_mono) auto
  then show ?thesis using False that [OF decay_load_word]
    by (simp add: pelt_decay_def unat_shr unat_u64_mult)
qed

text \<open>Decay is superadditive and contracts by at least y once a period has passed.\<close>

lemma div_superadd: "a div c + b div c \<le> (a + b) div (c :: nat)"
  by (subst div_add1_eq [of a b]) simp

lemma div_mult_superadd: "a div d * m div e + b div d * m div e \<le> (a + b) div d * m div (e :: nat)"
proof -
  have "a div d * m div e + b div d * m div e \<le> (a div d * m + b div d * m) div e"
    by (rule div_superadd)
  also have "\<dots> \<le> (a + b) div d * m div e"
    by (intro div_le_mono) (simp add: div_superadd flip: add_mult_distrib)
  finally show ?thesis .
qed

lemma pelt_decay_superadd: "pelt_decay a p + pelt_decay b p \<le> pelt_decay (a + b) p"
  by (simp add: pelt_decay_def div_mult_superadd)

lemma pelt_decay_mono: "a \<le> b \<Longrightarrow> pelt_decay a p \<le> pelt_decay b p"
  using pelt_decay_superadd [of a p "b - a"] by simp

lemma pelt_decay_less:
  assumes "0 < p"
  shows "pelt_decay v p \<le> v * 4202935002 div 4294967296"
proof (cases "p < 32")
  case True
  have "v * unat (pelt_yN_inv ! p) div 4294967296 \<le> v * 4202935002 div 4294967296"
    using pelt_yN_inv_le [OF assms True] by (intro div_le_mono mult_le_mono2)
  then show ?thesis using True by (simp add: pelt_decay_def)
next
  case False
  let ?y = "unat (pelt_yN_inv ! (p mod 32))"
  have "v div 2 ^ (p div 32) * ?y div 4294967296 \<le> v div 2 ^ (p div 32) * 4294967296 div 4294967296"
    by (intro div_le_mono mult_le_mono2) (simp add: less_imp_le)
  also have "\<dots> \<le> v div 2"
    using div_le_mono2 [of 2 "2 ^ (p div 32)" v] power_increasing [of 1 "p div 32" "2 :: nat"] False
    by simp
  also have "\<dots> \<le> v * 4202935002 div 4294967296" by simp
  finally show ?thesis by (simp add: pelt_decay_def)
qed

lemma pelt_decay_le: "pelt_decay v p \<le> v"
proof (cases "p = 0")
  case True
  have "v * 4294967295 div 4294967296 \<le> v * 4294967296 div 4294967296"
    by (intro div_le_mono mult_le_mono2) simp
  then show ?thesis using True by (simp add: pelt_decay_def pelt_yN_inv_0)
next
  case False
  then show ?thesis using pelt_decay_less [of p v] by simp
qed

lemma pelt_decay_mult: "k * pelt_decay x p \<le> pelt_decay (k * x) p"
proof (induction k)
  case (Suc k)
  then show ?case using pelt_decay_superadd [of x p "k * x"] by simp
qed simp

text \<open>
  Scaling by 1024 before the decay gains at most 96256, the fixed point of the two roundings
  the unscaled decay loses.
\<close>

lemma pelt_decay_scaled:
  assumes "0 < p"
  shows "pelt_decay (1024 * 47742 + 96256) p \<le> 1024 * pelt_decay 47742 p + 96256"
proof (cases "2016 < p")
  case True
  then show ?thesis by (simp add: pelt_decay_def)
next
  case False
  define q m where "q = (2 :: nat) ^ (p div 32)" and "m = unat (pelt_yN_inv ! (p mod 32))"
  define A where "A = 4294967296 * q"
  have dec: "pelt_decay v p = v div q * m div 4294967296" for v
    using False by (simp add: pelt_decay_def q_def m_def)
  have q: "0 < q" by (simp add: q_def)
  have m: "m * 4294967296 \<le> 4202935002 * A"
  proof (cases "p < 32")
    case True
    then show ?thesis using pelt_yN_inv_le [of p] assms by (simp add: m_def A_def q_def)
  next
    case False
    then have "2 \<le> q" using power_increasing [of 1 "p div 32" "2 :: nat"] by (simp add: q_def)
    moreover have "m \<le> 4294967296" by (simp add: m_def less_imp_le)
    ultimately show ?thesis by (simp add: A_def)
  qed
  have up: "pelt_decay v p * A \<le> v * m" for v
  proof -
    have "v div q * m div 4294967296 * 4294967296 * q \<le> v div q * m * q"
      by (intro mult_le_mono1) (rule div_times_less_eq_dividend)
    also have "\<dots> \<le> v * m" by (metis div_times_less_eq_dividend mult.assoc mult.commute mult_le_mono1)
    finally show ?thesis by (simp add: dec A_def mult.assoc)
  qed
  have low: "47742 * m < (pelt_decay 47742 p + 2) * A"
  proof -
    let ?d = "47742 div q"
    have "47742 < (?d + 1) * q" using dividend_less_times_div [of q 47742] q by (simp add: algebra_simps)
    then have "47742 * m \<le> (?d + 1) * q * m" by (intro mult_le_mono1) simp
    also have "\<dots> = (?d * m + m) * q" by (simp add: algebra_simps)
    also have "\<dots> < (?d * m div 4294967296 * 4294967296 + 4294967296 + 4294967296) * q"
    proof (intro mult_strict_right_mono)
      have "m < 4294967296" by (simp add: m_def)
      moreover have "?d * m < ?d * m div 4294967296 * 4294967296 + 4294967296"
        using dividend_less_times_div [of 4294967296 "?d * m"] by simp
      ultimately show "?d * m + m < ?d * m div 4294967296 * 4294967296 + 4294967296 + 4294967296"
        by simp
    qed (use q in simp)
    finally show ?thesis by (simp add: dec A_def algebra_simps)
  qed
  show ?thesis
  proof (rule ccontr)
    assume "\<not> ?thesis"
    then have "1024 * pelt_decay 47742 p + 96257 \<le> pelt_decay (1024 * 47742 + 96256) p" by simp
    then have "(1024 * pelt_decay 47742 p + 96257) * A \<le> pelt_decay (1024 * 47742 + 96256) p * A"
      by (rule mult_le_mono1)
    with up [of "1024 * 47742 + 96256"] low m show False by (simp add: algebra_simps)
  qed
qed

section \<open>The sums stay below the maximum of the geometric series\<close>

text \<open>
  \<open>LOAD_AVG_MAX - 1024 + period_contrib\<close> is the bound the comment at pelt.c:306-322 gives;
  the sums scaled by 1024 exceed 1024 times that bound by rounding only.
\<close>

definition pelt_ok :: "sched_avg \<Rightarrow> bool" where
  "pelt_ok sa \<longleftrightarrow> unat (period_contrib sa) < 1024
     \<and> unat (sa_load_sum sa) \<le> 46718 + unat (period_contrib sa)
     \<and> unat (sa_runnable_sum sa) \<le> 1024 * (46718 + unat (period_contrib sa)) + 96256
     \<and> unat (sa_util_sum sa) \<le> 1024 * (46718 + unat (period_contrib sa)) + 96256"

lemma pelt_decay_max: "0 < p \<Longrightarrow> pelt_decay 47742 p \<le> 46718"
  using pelt_decay_less [of p 47742] by simp

lemma segments_view:
  assumes "0 < unat p" and "unat d1 \<le> 1024" and "unat d3 < 1024"
  obtains c where "accumulate_pelt_segments p d1 d3 = Some c"
    and "unat c = pelt_decay (unat d1) (unat p) + (46718 - pelt_decay 47742 (unat p)) + unat d3"
proof -
  obtain l where l: "decay_load (ucast d1) p = Some l" "unat l = pelt_decay (unat d1) (unat p)"
    by (rule decay_load_view [of "ucast d1" p]) simp_all
  obtain m where m: "decay_load 47742 p = Some m" "unat m = pelt_decay 47742 (unat p)"
    by (rule decay_load_view [of 47742 p]) simp_all
  have l_le: "unat l \<le> 1024" using l(2) pelt_decay_le [of "unat d1" "unat p"] assms(2) by simp
  have m_le: "unat m \<le> 46718" using m(2) pelt_decay_max assms(1) by simp
  have "m \<le> 46718" using m_le by (simp add: word_le_nat_alt)
  then have m2: "unat (46718 - m) = 46718 - unat m" by (simp add: unat_u64_sub)
  let ?c = "ucast l + ucast (46718 - m) + d3 :: u32"
  have "unat ?c = unat l + (46718 - unat m) + unat d3"
    using m2 l_le assms(3) by (simp add: unat_word_ariths unat_ucast_u64_u32)
  then show ?thesis using that [of ?c] l m by (simp add: accumulate_pelt_segments_def)
qed

text \<open>The arithmetic of one period boundary, unscaled and scaled.\<close>

lemma pelt_load_room:
  assumes "0 < p" and "pc < 1024" and "s \<le> 46718 + pc"
  shows "pelt_decay s p + (pelt_decay (1024 - pc) p + (46718 - pelt_decay 47742 p) + d) \<le> 46718 + d"
    and "pelt_decay s p \<le> 46718"
proof -
  have "pelt_decay s p + pelt_decay (1024 - pc) p \<le> pelt_decay (s + (1024 - pc)) p"
    by (rule pelt_decay_superadd)
  also have "\<dots> \<le> pelt_decay 47742 p" using assms by (intro pelt_decay_mono) simp
  finally have *: "pelt_decay s p + pelt_decay (1024 - pc) p \<le> pelt_decay 47742 p" .
  with pelt_decay_max [OF assms(1)]
  show "pelt_decay s p + (pelt_decay (1024 - pc) p + (46718 - pelt_decay 47742 p) + d) \<le> 46718 + d"
    and "pelt_decay s p \<le> 46718" by simp_all
qed

lemma pelt_scaled_room:
  assumes "0 < p" and "pc < 1024" and "s \<le> 1024 * (46718 + pc) + 96256"
  shows "pelt_decay s p + 1024 * (pelt_decay (1024 - pc) p + (46718 - pelt_decay 47742 p) + d)
           \<le> 1024 * (46718 + d) + 96256"
    and "pelt_decay s p \<le> 1024 * 46718 + 96256"
proof -
  have "pelt_decay s p + 1024 * pelt_decay (1024 - pc) p
      \<le> pelt_decay s p + pelt_decay (1024 * (1024 - pc)) p"
    by (simp add: pelt_decay_mult)
  also have "\<dots> \<le> pelt_decay (s + 1024 * (1024 - pc)) p" by (rule pelt_decay_superadd)
  also have "\<dots> \<le> pelt_decay (1024 * 47742 + 96256) p" using assms by (intro pelt_decay_mono) simp
  also have "\<dots> \<le> 1024 * pelt_decay 47742 p + 96256" using assms(1) by (rule pelt_decay_scaled)
  finally have *: "pelt_decay s p + 1024 * pelt_decay (1024 - pc) p \<le> 1024 * pelt_decay 47742 p + 96256" .
  with pelt_decay_max [OF assms(1)]
  show "pelt_decay s p + 1024 * (pelt_decay (1024 - pc) p + (46718 - pelt_decay 47742 p) + d)
           \<le> 1024 * (46718 + d) + 96256"
    and "pelt_decay s p \<le> 1024 * 46718 + 96256" by simp_all
qed

text \<open>The contribution of the elapsed time, added to the three sums; a factor 0 adds nothing.\<close>

definition pelt_add :: "u64 \<Rightarrow> u64 \<Rightarrow> int \<Rightarrow> u32 \<Rightarrow> sched_avg \<Rightarrow> sched_avg" where
  "pelt_add load rnbl running c sa = sa\<lparr>
     sa_load_sum := sa_load_sum sa + load * ucast c,
     sa_runnable_sum := sa_runnable_sum sa + push_bit 10 (rnbl * ucast c),
     sa_util_sum := sa_util_sum sa + (if running = 0 then 0 else ucast (push_bit 10 c))\<rparr>"

lemma accumulate_sum_within:
  assumes "(delta + period_contrib sa) div 1024 = 0"
  shows "accumulate_sum delta sa load rnbl running =
    Some (0, pelt_add load rnbl running (ucast delta) (sa\<lparr>period_contrib := delta + period_contrib sa\<rparr>))"
  using assms by (cases sa) (simp add: accumulate_sum_def pelt_add_def Let_def)

lemma accumulate_sum_across:
  assumes "(delta + period_contrib sa) div 1024 = p" and "p \<noteq> 0"
    and "decay_load (sa_load_sum sa) p = Some l" and "decay_load (sa_runnable_sum sa) p = Some r"
    and "decay_load (sa_util_sum sa) p = Some u"
    and "d = (delta + period_contrib sa) mod 1024"
    and "accumulate_pelt_segments p (ucast (1024 - period_contrib sa)) (ucast d) = Some c"
    and "load = 0 \<longrightarrow> rnbl = 0 \<and> running = 0"
  shows "accumulate_sum delta sa load rnbl running =
    Some (ucast p, pelt_add load rnbl running c (sa\<lparr>sa_load_sum := l, sa_runnable_sum := r,
      sa_util_sum := u, period_contrib := d\<rparr>))"
  using assms by (cases sa) (simp add: accumulate_sum_def pelt_add_def Let_def)

lemma pelt_add_ok:
  assumes load: "load = 1 \<and> rnbl \<in> {0, 1} \<or> load = 0 \<and> rnbl = 0 \<and> running = 0"
    and pc: "unat (period_contrib sa) < 1024" and c: "unat c < 65536"
    and l: "unat (sa_load_sum sa) + (if load = 0 then 0 else unat c) \<le> 46718 + unat (period_contrib sa)"
    and r: "unat (sa_runnable_sum sa) + (if load = 0 then 0 else 1024 * unat c)
              \<le> 1024 * (46718 + unat (period_contrib sa)) + 96256"
    and u: "unat (sa_util_sum sa) + (if load = 0 then 0 else 1024 * unat c)
              \<le> 1024 * (46718 + unat (period_contrib sa)) + 96256"
  shows "pelt_ok (pelt_add load rnbl running c sa)"
proof -
  have c64: "unat (push_bit 10 (ucast c :: u64)) = 1024 * unat c"
    using c by (simp add: push_bit_eq_mult unat_word_ariths)
  have "unat (push_bit 10 c) = 1024 * unat c"
    using c by (simp add: push_bit_eq_mult unat_word_ariths)
  then have c32: "unat (ucast (push_bit 10 c) :: u64) = 1024 * unat c" by simp
  have L: "unat (sa_load_sum sa + load * ucast c) \<le> 46718 + unat (period_contrib sa)"
    using load l pc by (auto simp: unat_u64_add_small)
  have R: "unat (sa_runnable_sum sa + push_bit 10 (rnbl * ucast c))
      \<le> 1024 * (46718 + unat (period_contrib sa)) + 96256"
    using load r pc c64 by (auto simp: unat_u64_add_small)
  have U: "unat (sa_util_sum sa + (if running = 0 then 0 else ucast (push_bit 10 c)))
      \<le> 1024 * (46718 + unat (period_contrib sa)) + 96256"
    using load u pc c32 by (auto simp: unat_u64_add_small)
  show ?thesis using L R U pc by (simp add: pelt_ok_def pelt_add_def)
qed

lemma accumulate_sum_ok:
  assumes ok: "pelt_ok sa" and d: "unat delta \<le> 2 ^ 54"
    and load: "load = 1 \<and> rnbl \<in> {0, 1} \<or> load = 0 \<and> rnbl = 0 \<and> running = 0"
  obtains r sa' where "accumulate_sum delta sa load rnbl running = Some (r, sa')" and "pelt_ok sa'"
    and "last_update_time sa' = last_update_time sa"
    and "sa_load_avg sa' = sa_load_avg sa" and "sa_runnable_avg sa' = sa_runnable_avg sa"
    and "sa_util_avg sa' = sa_util_avg sa"
proof -
  define pc where "pc = unat (period_contrib sa)"
  define p where "p = (delta + period_contrib sa) div 1024"
  define e where "e = (delta + period_contrib sa) mod 1024"
  have pc: "pc < 1024" and sums: "unat (sa_load_sum sa) \<le> 46718 + pc"
    "unat (sa_runnable_sum sa) \<le> 1024 * (46718 + pc) + 96256"
    "unat (sa_util_sum sa) \<le> 1024 * (46718 + pc) + 96256"
    using ok by (simp_all add: pelt_ok_def pc_def)
  have d1: "unat (delta + period_contrib sa) = unat delta + pc"
    using d pc by (simp add: unat_u64_add_small pc_def)
  have p: "unat p = (unat delta + pc) div 1024" by (simp add: unat_div d1 p_def)
  have e: "unat e < 1024" by (simp add: unat_mod e_def)
  show ?thesis
  proof (cases "p = 0")
    case True
    then have small: "unat delta + pc < 1024" using p by simp
    then have c: "unat (ucast delta :: u32) = unat delta" by (simp add: unat_ucast_u64_u32)
    have "pelt_ok (pelt_add load rnbl running (ucast delta) (sa\<lparr>period_contrib := delta + period_contrib sa\<rparr>))"
      using load small c sums d1 by (intro pelt_add_ok) auto
    then show ?thesis
      using True by (intro that [OF accumulate_sum_within]) (simp_all add: p_def pelt_add_def)
  next
    case False
    then have p0: "0 < unat p" by (simp add: unat_gt_0)
    obtain l where l: "decay_load (sa_load_sum sa) p = Some l" "unat l = pelt_decay (unat (sa_load_sum sa)) (unat p)"
      by (rule decay_load_view [of "sa_load_sum sa" p]) (use sums pc in simp_all)
    obtain r where r: "decay_load (sa_runnable_sum sa) p = Some r"
      "unat r = pelt_decay (unat (sa_runnable_sum sa)) (unat p)"
      by (rule decay_load_view [of "sa_runnable_sum sa" p]) (use sums pc in simp_all)
    obtain u where u: "decay_load (sa_util_sum sa) p = Some u"
      "unat u = pelt_decay (unat (sa_util_sum sa)) (unat p)"
      by (rule decay_load_view [of "sa_util_sum sa" p]) (use sums pc in simp_all)
    have "period_contrib sa \<le> 1024" using pc by (simp add: word_le_nat_alt pc_def)
    then have d1': "unat (ucast (1024 - period_contrib sa) :: u32) = 1024 - pc"
      by (simp add: unat_ucast_u64_u32 unat_u64_sub pc_def)
    have e': "unat (ucast e :: u32) = unat e" using e by (simp add: unat_ucast_u64_u32)
    obtain c where c: "accumulate_pelt_segments p (ucast (1024 - period_contrib sa)) (ucast e) = Some c"
      "unat c = pelt_decay (1024 - pc) (unat p) + (46718 - pelt_decay 47742 (unat p)) + unat e"
      by (rule segments_view [OF p0, of "ucast (1024 - period_contrib sa)" "ucast e"])
        (use d1' e e' in simp_all)
    let ?sa = "sa\<lparr>sa_load_sum := l, sa_runnable_sum := r, sa_util_sum := u, period_contrib := e\<rparr>"
    have "unat c < 65536" using c(2) e pelt_decay_le [of "1024 - pc" "unat p"] by simp
    moreover have "unat l + (if load = 0 then 0 else unat c) \<le> 46718 + unat e"
      using pelt_load_room(1) [OF p0 pc sums(1), of "unat e"] pelt_load_room(2) [OF p0 pc sums(1)] l(2) c(2) by simp
    moreover have "unat r + (if load = 0 then 0 else 1024 * unat c) \<le> 1024 * (46718 + unat e) + 96256"
      using pelt_scaled_room(1) [OF p0 pc sums(2), of "unat e"] pelt_scaled_room(2) [OF p0 pc sums(2)] r(2) c(2) by simp
    moreover have "unat u + (if load = 0 then 0 else 1024 * unat c) \<le> 1024 * (46718 + unat e) + 96256"
      using pelt_scaled_room(1) [OF p0 pc sums(3), of "unat e"] pelt_scaled_room(2) [OF p0 pc sums(3)] u(2) c(2) by simp
    ultimately have "pelt_ok (pelt_add load rnbl running c ?sa)"
      using load e by (intro pelt_add_ok) auto
    then show ?thesis
      using False load by (intro that [OF accumulate_sum_across [OF _ _ l(1) r(1) u(1) _ c(1)]])
        (auto simp: p_def e_def pelt_add_def)
  qed
qed

section \<open>Updates\<close>

lemma accumulate_sum_last:
  "accumulate_sum delta sa load rnbl running = Some (r, sa') \<Longrightarrow> last_update_time sa' = last_update_time sa"
  by (auto simp: accumulate_sum_def Let_def split: if_splits bind_splits)

lemma sint_small_nonneg: "unat (x :: u64) < 1024 \<Longrightarrow> \<not> sint x < 0"
proof -
  assume "unat x < 1024"
  then have u: "uint x < 1024" by (simp add: nat_less_iff flip: nat_uint_eq)
  have "signed_take_bit 63 (uint x) = uint x"
    using u by (intro signed_take_bit_int_eq_self order_trans [OF _ uint_ge_0]) simp_all
  then have "sint x = uint x" by (simp add: sint_uint)
  then show "\<not> sint x < 0" by (simp add: not_less)
qed

text \<open>The time not yet accounted for is what the shift by ten drops.\<close>

lemma push_drop_mod: "(x :: u64) - push_bit 10 (drop_bit 10 x) = x mod 1024"
proof -
  have "push_bit 10 (drop_bit 10 x) = x div 1024 * 1024"
    by (simp add: push_bit_eq_mult drop_bit_eq_div)
  then show ?thesis by (simp add: minus_div_mult_eq_mod)
qed

lemma update_load_sum_lag:
  assumes "update_load_sum now sa load rnbl running = Some (r, sa')"
  shows "unat (now - last_update_time sa') < 1024"
proof (cases "sint (now - last_update_time sa) < 0")
  case True
  then have "last_update_time sa' = now" using assms by (auto simp: update_load_sum_def)
  then show ?thesis by simp
next
  case False
  let ?d = "now - last_update_time sa"
  show ?thesis
  proof (cases "drop_bit 10 ?d = 0")
    case True
    then have "?d = ?d mod 1024" using push_drop_mod [of ?d] by simp
    moreover have "unat (?d mod 1024) < 1024" by (simp add: unat_mod)
    ultimately have "unat ?d < 1024" by metis
    then show ?thesis using True False assms by (auto simp: update_load_sum_def Let_def)
  next
    case nz: False
    then have "last_update_time sa' = last_update_time sa + push_bit 10 (drop_bit 10 ?d)"
      using False assms accumulate_sum_last
      by (fastforce simp: update_load_sum_def Let_def split: bind_splits if_splits)
    then have "now - last_update_time sa' = ?d mod 1024"
      using push_drop_mod [of ?d] by (simp add: diff_diff_eq)
    then show ?thesis by (simp add: unat_mod)
  qed
qed

lemma update_load_sum_ok:
  assumes ok: "pelt_ok sa" and load: "load = 1 \<and> rnbl \<in> {0, 1} \<or> load = 0"
  obtains r sa' where "update_load_sum now sa load rnbl running = Some (r, sa')" and "pelt_ok sa'"
    and "r \<in> {0, 1}" and "sa_load_avg sa' = sa_load_avg sa"
    and "sa_runnable_avg sa' = sa_runnable_avg sa" and "sa_util_avg sa' = sa_util_avg sa"
proof -
  let ?d = "now - last_update_time sa"
  let ?d1 = "drop_bit 10 ?d"
  consider (past) "sint ?d < 0" | (same) "\<not> sint ?d < 0" "?d1 = 0" | (forward) "\<not> sint ?d < 0" "?d1 \<noteq> 0"
    by blast
  then show ?thesis
  proof cases
    case past
    then show ?thesis using ok
      by (intro that [of 0 "sa\<lparr>last_update_time := now\<rparr>"]) (simp_all add: update_load_sum_def pelt_ok_def)
  next
    case same
    then show ?thesis using ok by (intro that [of 0 sa]) (simp_all add: update_load_sum_def)
  next
    case forward
    let ?sa = "sa\<lparr>last_update_time := last_update_time sa + push_bit 10 ?d1\<rparr>"
    let ?rn = "if load = 0 then 0 else rnbl" and ?ru = "if load = 0 then 0 else running"
    have "unat ?d div 1024 \<le> 18446744073709551616 div 1024"
      by (intro div_le_mono less_imp_le) simp
    then have "unat ?d1 \<le> 2 ^ 54" by (simp add: unat_shr)
    then obtain r sa' where a: "accumulate_sum ?d1 ?sa load ?rn ?ru = Some (r, sa')" "pelt_ok sa'"
      "sa_load_avg sa' = sa_load_avg ?sa" "sa_runnable_avg sa' = sa_runnable_avg ?sa"
      "sa_util_avg sa' = sa_util_avg ?sa"
      by (rule accumulate_sum_ok [of ?sa ?d1 load ?rn ?ru, rotated])
        (use ok load in \<open>auto simp: pelt_ok_def\<close>)
    then show ?thesis using forward
      by (intro that [of "if r = 0 then 0 else 1" sa']) (auto simp: update_load_sum_def Let_def)
  qed
qed

text \<open>The averages the stub divider 1024 makes of such sums.\<close>

definition pelt_avg_ok :: "sched_avg \<Rightarrow> bool" where
  "pelt_avg_ok sa \<longleftrightarrow> unat (sa_load_avg sa) \<le> 46 \<and> unat (sa_runnable_avg sa) \<le> 47835
     \<and> unat (sa_util_avg sa) \<le> 47835"

lemma update_load_avg_ok:
  assumes "pelt_ok sa"
  obtains sa' where "update_load_avg sa 1 = Some sa'" and "pelt_ok sa'" and "pelt_avg_ok sa'"
    and "last_update_time sa' = last_update_time sa"
  using assms by (intro that [of "sa\<lparr>sa_load_avg := sa_load_sum sa div 1024,
      sa_runnable_avg := sa_runnable_sum sa div 1024, sa_util_avg := sa_util_sum sa div 1024\<rparr>"])
    (auto simp: update_load_avg_def div_u64_def get_pelt_divider_def pelt_ok_def pelt_avg_ok_def unat_div)

definition se_ok :: "sched_entity \<Rightarrow> bool" where
  "se_ok se \<longleftrightarrow> pelt_ok (se_avg se) \<and> pelt_avg_ok (se_avg se)"

lemma update_load_avg_se_ok:
  assumes "se_ok se"
  obtains r se' where "update_load_avg_se now cfs_rq a se = Some (r, se')" and "se_ok se'"
    and "on_rq se' = on_rq se"
proof -
  let ?l = "if on_rq se = 0 then 0 else 1 :: u64" and ?c = "if curr cfs_rq = Ref a then 1 else 0 :: int"
  obtain r sa' where s: "update_load_sum now (se_avg se) ?l 1 ?c = Some (r, sa')" "pelt_ok sa'"
    "sa_load_avg sa' = sa_load_avg (se_avg se)" "sa_runnable_avg sa' = sa_runnable_avg (se_avg se)"
    "sa_util_avg sa' = sa_util_avg (se_avg se)"
    by (rule update_load_sum_ok [of "se_avg se" ?l 1 now ?c]) (use assms in \<open>auto simp: se_ok_def\<close>)
  obtain sa2 where a: "update_load_avg sa' 1 = Some sa2" "pelt_ok sa2" "pelt_avg_ok sa2"
    using update_load_avg_ok [OF s(2)] by metis
  show ?thesis
  proof (cases "r = 0")
    case True
    then show ?thesis using assms s
      by (intro that [of 0 "se\<lparr>se_avg := sa'\<rparr>"])
        (simp_all add: update_load_avg_se_def se_runnable_def se_ok_def pelt_avg_ok_def)
  next
    case False
    then show ?thesis using s a
      by (intro that [of 1 "se\<lparr>se_avg := sa2\<rparr>"])
        (simp_all add: update_load_avg_se_def se_runnable_def se_weight_def se_ok_def)
  qed
qed


section \<open>The life of an entity\<close>



definition new_se :: "u64 \<Rightarrow> int \<Rightarrow> sched_entity" where
  "new_se now q = \<lparr>se_avg = \<lparr>sa_load_sum = 0, sa_runnable_sum = 0, sa_util_sum = 0,
     last_update_time = now, period_contrib = 0, sa_load_avg = 0, sa_runnable_avg = 0,
     sa_util_avg = 0\<rparr>, on_rq = q\<rparr>"

lemma new_se_ok: "se_ok (new_se now q)"
  by (simp add: se_ok_def pelt_ok_def pelt_avg_ok_def new_se_def)




text \<open>An entity that ran for 48 ms and was then updated once more.\<close>

definition demo_cfs_rq :: kernel_cfs_rq where
  "demo_cfs_rq = \<lparr>cfs_avg = se_avg (new_se 0 0), load_weight = 1, h_nr_running = 1, curr = Ref 7\<rparr>"

definition demo_se :: sched_entity where
  "demo_se = snd (the (update_load_avg_se 48000000 demo_cfs_rq 7 (new_se 0 1)))"



text \<open>
  After an update the entity lags behind the clock by less than 1024 ns, whether time went
  forward or backward, and a second update at the same time changes nothing and reports that
  nothing changed.
\<close>

theorem update_twice:
  assumes "update_load_avg_se now cfs_rq a se = Some (r, se')"
  shows "unat (now - last_update_time (se_avg se')) < 1024
    \<and> update_load_avg_se now cfs_rq a se' = Some (0, se')"
proof -
  let ?l = "if on_rq se = 0 then 0 else 1 :: u64" and ?c = "if curr cfs_rq = Ref a then 1 else 0 :: int"
  obtain r1 sa1 where s: "update_load_sum now (se_avg se) ?l 1 ?c = Some (r1, sa1)"
    using assms by (auto simp: update_load_avg_se_def se_runnable_def split: bind_splits)
  have lag: "unat (now - last_update_time (se_avg se')) < 1024" and q: "on_rq se' = on_rq se"
    using assms s update_load_sum_lag [OF s]
    by (auto simp: update_load_avg_se_def se_runnable_def update_load_avg_def div_u64_def
        get_pelt_divider_def split: if_splits)
  then have small: "drop_bit 10 (now - last_update_time (se_avg se')) = 0"
    by (simp add: unat_eq_0 [symmetric] unat_shr)
  have "\<not> sint (now - last_update_time (se_avg se')) < 0"
    using lag by (rule sint_small_nonneg)
  then show ?thesis using lag small q
    by (simp add: update_load_avg_se_def update_load_sum_def Let_def)
qed

theorem update_twice_witness:
  "unat (48000000 - last_update_time (se_avg demo_se)) < 1024
    \<and> update_load_avg_se 48000000 demo_cfs_rq 7 demo_se = Some (0, demo_se)"
proof -
  obtain r se' where u: "update_load_avg_se 48000000 demo_cfs_rq 7 (new_se 0 1) = Some (r, se')"
    using update_load_avg_se_ok [OF new_se_ok] by metis
  show ?thesis using update_twice [OF u] u by (simp add: demo_se_def)
qed

section \<open>The decay of cfs_exact.c against the kernel's\<close>

lemma div_pred_mult: "e * (n - 1) div n \<le> e \<and> e \<le> e * (n - 1) div n + 1"
  if "0 < e" "e \<le> n" for e n :: nat
proof -
  have "e * (n - 1) = (e - 1) * n + (n - e)" using that by (cases e; cases n) (auto simp: algebra_simps)
  moreover have "((e - 1) * n + (n - e)) div n = (e - 1) + (n - e) div n"
    using that by (subst add.commute) (rule div_mult_self1, simp)
  moreover have "(n - e) div n = 0" using that by simp
  ultimately show ?thesis using that by simp
qed

text \<open>
  C25. For every load below 2^32 and every number of periods the decay of cfs_exact.c returns the
  kernel's value, except at whole multiples of 32 periods, where it may be larger by one: there
  the kernel still multiplies by 0xffffffff / 2^32 and cfs_exact.c does not.
\<close>

theorem exact_decay_is_kernel_decay:
  assumes "unat load < 4294967296" and "p < 2147483648"
  shows "\<exists>e k. exact_decay_load load (int p) = Some e \<and> decay_load load (of_nat p) = Some k
    \<and> unat k \<le> unat e \<and> unat e \<le> unat k + 1 \<and> (p mod 32 \<noteq> 0 \<longrightarrow> e = k)"
proof -
  obtain e where e: "exact_decay_load load (int p) = Some e"
    "unat e = (if p = 0 then unat load else if 2016 \<le> p then 0
       else if p mod 32 = 0 then unat load div 2 ^ (p div 32)
       else unat load div 2 ^ (p div 32) * unat (runnable_avg_yN_inv ! (p mod 32)) div 2 ^ 32)"
    by (rule exact_decay_load_view)
  obtain k where k: "decay_load load (of_nat p) = Some k" "unat k = pelt_decay (unat load) p"
    by (rule decay_load_view [OF assms(1), of "of_nat p"]) (use assms(2) in \<open>simp add: unat_of_nat_u64\<close>)
  have zero: "unat load div 2 ^ 63 = 0" using assms(1) by simp
  consider "2016 \<le> p" | "p < 2016" "p mod 32 = 0" | "p < 2016" "p mod 32 \<noteq> 0" by linarith
  then have "unat k \<le> unat e \<and> unat e \<le> unat k + 1 \<and> (p mod 32 \<noteq> 0 \<longrightarrow> unat e = unat k)"
  proof cases
    case 1
    then have "p = 2016 \<or> 2016 < p" by auto
    then show ?thesis using 1 e(2) k(2) zero by (auto simp: pelt_decay_def)
  next
    case 2
    let ?v = "unat load div 2 ^ (p div 32)"
    have v: "unat e = ?v" using e(2) 2 by auto
    have "?v \<le> unat load" by simp
    then have "?v \<le> 4294967296" using assms(1) by linarith
    then have "?v = 0 \<or> ?v * (4294967296 - 1) div 4294967296 \<le> ?v \<and> ?v \<le> ?v * (4294967296 - 1) div 4294967296 + 1"
      using div_pred_mult [of ?v 4294967296] by blast
    then show ?thesis using 2 v k(2) by (auto simp: pelt_decay_def pelt_yN_inv_0)
  next
    case 3
    then have "p \<noteq> 0" by auto
    then show ?thesis using 3 e(2) k(2) by (simp add: pelt_decay_def pelt_yN_inv_table)
  qed
  moreover have "unat e = unat k \<Longrightarrow> e = k" by (rule unsigned_word_eqI)
  ultimately show ?thesis using e(1) k(1) by blast
qed

theorem exact_decay_is_kernel_decay_witness:
  "\<exists>e k. exact_decay_load 47742 (int 33) = Some e \<and> decay_load 47742 (of_nat 33) = Some k \<and> e = k"
  using exact_decay_is_kernel_decay [of 47742 33] by auto

text \<open>The product of the stub wraps for large loads, the 128-bit product of cfs_exact.c does not.\<close>

lemma stub_product_wraps:
  "exact_decay_load 0x200000000 1 = Some 8405870004" "decay_load 0x200000000 1 = Some 4110902708"
  by (simp_all add: exact_decay_load_1 exact_decay1_def mul_shr_def decay_load_word pelt_yN_inv_def)

end
