(* ===== verification/Kernel_Fair.thy ===== *)
theory Kernel_Fair
  imports CFS_Exact
begin

text \<open>
  The vruntime core of src/apex-cfs/docs/fair.c, the kernel file cfs_exact.c rewrites: scaling
  a time by a weight, the order of entities, the minimal vruntime of a runqueue, slices,
  placement of a new or woken entity, the charge of the running one, and the choice of the next
  one with its buddies. The configuration is 64 bits, without group scheduling, bandwidth
  control, schedstats and core scheduling.

  Entities are named by their addresses; \<open>ents\<close> is the memory that holds them. What fair.c
  takes from kernel headers and libraries that are not in the repository is an argument: the
  bit and multiplication helpers and the red-black tree of the timeline (\<open>kernel_lib\<close>), and
  the scheduler features with the tunables (\<open>fair_config\<close>).
\<close>

section \<open>State and environment\<close>

record load_weight =
  lw_weight :: u64
  inv_weight :: u32

record fair_entity =
  se_load :: load_weight
  se_on_rq :: u32
  exec_start :: u64
  sum_exec_runtime :: u64
  se_vruntime :: u64
  prev_sum_exec_runtime :: u64

record 't fair_rq =
  rq_load :: load_weight
  cfs_nr_running :: u32
  cfs_h_nr_running :: u32
  cfs_idle_nr_running :: u32
  cfs_min_vruntime :: u64
  timeline :: 't
  cfs_curr :: "nat ptr"
  cfs_next :: "nat ptr"
  cfs_last :: "nat ptr"
  cfs_skip :: "nat ptr"
  ents :: "nat \<Rightarrow> fair_entity"

record 't kernel_lib =
  k_fls :: "u32 \<Rightarrow> int"
  k_mul_u32_u32 :: "u32 \<Rightarrow> u32 \<Rightarrow> u64"
  k_mul_u64_u32_shr :: "u64 \<Rightarrow> u32 \<Rightarrow> int \<Rightarrow> u64 option"
  k_rb_first :: "'t \<Rightarrow> nat ptr"
  k_rb_next :: "'t \<Rightarrow> nat \<Rightarrow> nat ptr"
  k_rb_add :: "(nat \<Rightarrow> nat \<Rightarrow> bool) \<Rightarrow> nat \<Rightarrow> 't \<Rightarrow> 't"
  k_rb_erase :: "nat \<Rightarrow> 't \<Rightarrow> 't"

record fair_config =
  sysctl_latency :: u32
  sysctl_min_granularity :: u32
  sysctl_idle_min_granularity :: u32
  sched_nr_latency :: u32
  sysctl_wakeup_granularity :: u32
  ALT_PERIOD :: bool
  BASE_SLICE :: bool
  START_DEBIT :: bool
  GENTLE_FAIR_SLEEPERS :: bool

text \<open>The initial values of the tunables.\<close>

definition default_tunables :: "fair_config \<Rightarrow> fair_config" where
  "default_tunables G = G\<lparr>sysctl_latency := 6000000, sysctl_min_granularity := 750000,
     sysctl_idle_min_granularity := 750000, sched_nr_latency := 8, sysctl_wakeup_granularity := 1000000\<rparr>"

definition ent_update :: "nat \<Rightarrow> (fair_entity \<Rightarrow> fair_entity) \<Rightarrow> 't fair_rq \<Rightarrow> 't fair_rq" where
  "ent_update a f rq = rq\<lparr>ents := (ents rq)(a := f (ents rq a))\<rparr>"

section \<open>Weights\<close>

definition update_load_add :: "load_weight \<Rightarrow> u64 \<Rightarrow> load_weight" where
  "update_load_add lw inc = lw\<lparr>lw_weight := lw_weight lw + inc, inv_weight := 0\<rparr>"

definition update_load_sub :: "load_weight \<Rightarrow> u64 \<Rightarrow> load_weight" where
  "update_load_sub lw d = lw\<lparr>lw_weight := lw_weight lw - d, inv_weight := 0\<rparr>"

definition update_load_set :: "load_weight \<Rightarrow> u64 \<Rightarrow> load_weight" where
  "update_load_set lw w = lw\<lparr>lw_weight := w, inv_weight := 0\<rparr>"

definition scale_load :: "u64 \<Rightarrow> u64" where
  "scale_load w = push_bit 10 w"

definition scale_load_down :: "u64 \<Rightarrow> u64" where
  "scale_load_down w = (if w \<noteq> 0 then max 2 (drop_bit 10 w) else w)"

abbreviation (input) K_NICE_0_LOAD :: u64 where "K_NICE_0_LOAD \<equiv> 1048576"
abbreviation (input) K_WMULT_CONST :: u32 where "K_WMULT_CONST \<equiv> 0xffffffff"

definition update_inv_weight :: "load_weight \<Rightarrow> load_weight" where
  "update_inv_weight lw =
     (if inv_weight lw \<noteq> 0 then lw
      else let w = scale_load_down (lw_weight lw) in
        if ucast K_WMULT_CONST \<le> w then lw\<lparr>inv_weight := 1\<rparr>
        else if w = 0 then lw\<lparr>inv_weight := K_WMULT_CONST\<rparr>
        else lw\<lparr>inv_weight := ucast (ucast K_WMULT_CONST div w :: u64)\<rparr>)"

text \<open>The step both halves of \<open>__calc_delta\<close> share: drop the bits of \<open>fact\<close> above 32.\<close>

definition fit_fact :: "'t kernel_lib \<Rightarrow> u64 \<Rightarrow> int \<Rightarrow> (u64 \<times> int) option" where
  "fit_fact K fct shift =
     (let fact_hi = (ucast (drop_bit 32 fct) :: u32) in
      if fact_hi \<noteq> 0
      then do {
        let fs = k_fls K fact_hi;
        fct \<leftarrow> u64_shr fct fs;
        Some (fct, shift - fs)
      } else Some (fct, shift))"

definition calc_delta :: "'t kernel_lib \<Rightarrow> u64 \<Rightarrow> u64 \<Rightarrow> load_weight \<Rightarrow> (u64 \<times> load_weight) option" where
  "calc_delta K delta_exec w lw = do {
     let fct = scale_load_down w;
     let lw = update_inv_weight lw;
     (fct, shift) \<leftarrow> fit_fact K fct WMULT_SHIFT;
     let fct = k_mul_u32_u32 K (ucast fct) (inv_weight lw);
     (fct, shift) \<leftarrow> fit_fact K fct shift;
     d \<leftarrow> k_mul_u64_u32_shr K delta_exec (ucast fct) shift;
     Some (d, lw)
   }"

definition calc_delta_fair :: "'t kernel_lib \<Rightarrow> u64 \<Rightarrow> load_weight \<Rightarrow> (u64 \<times> load_weight) option" where
  "calc_delta_fair K delta lw =
     (if lw_weight lw \<noteq> K_NICE_0_LOAD then calc_delta K delta K_NICE_0_LOAD lw else Some (delta, lw))"

text \<open>The same for an entity in memory, whose inverse weight is cached.\<close>

definition entity_delta_fair ::
  "'t kernel_lib \<Rightarrow> u64 \<Rightarrow> nat \<Rightarrow> 't fair_rq \<Rightarrow> (u64 \<times> 't fair_rq) option" where
  "entity_delta_fair K delta a rq = do {
     (d, lw) \<leftarrow> calc_delta_fair K delta (se_load (ents rq a));
     Some (d, ent_update a (se_load_update (\<lambda>_. lw)) rq)
   }"

section \<open>The order of vruntimes\<close>

definition max_vruntime :: "u64 \<Rightarrow> u64 \<Rightarrow> u64" where
  "max_vruntime m v = (let delta = v - m in if 0 < sint delta then v else m)"

definition min_vruntime :: "u64 \<Rightarrow> u64 \<Rightarrow> u64" where
  "min_vruntime m v = (let delta = v - m in if sint delta < 0 then v else m)"

definition entity_before :: "fair_entity \<Rightarrow> fair_entity \<Rightarrow> bool" where
  "entity_before a b \<longleftrightarrow> sint (se_vruntime a - se_vruntime b) < 0"

definition update_min_vruntime :: "'t kernel_lib \<Rightarrow> 't fair_rq \<Rightarrow> 't fair_rq" where
  "update_min_vruntime K rq =
     (let leftmost = k_rb_first K (timeline rq);
          vruntime = cfs_min_vruntime rq;
          (vruntime, cur) =
            (case cfs_curr rq of
               NULL \<Rightarrow> (vruntime, False)
             | Ref c \<Rightarrow> if se_on_rq (ents rq c) \<noteq> 0 then (se_vruntime (ents rq c), True) else (vruntime, False));
          vruntime =
            (case leftmost of
               NULL \<Rightarrow> vruntime
             | Ref se \<Rightarrow>
                 if \<not> cur then se_vruntime (ents rq se)
                 else min_vruntime vruntime (se_vruntime (ents rq se)))
      in rq\<lparr>cfs_min_vruntime := max_vruntime (cfs_min_vruntime rq) vruntime\<rparr>)"

section \<open>The timeline\<close>

definition entity_less :: "'t fair_rq \<Rightarrow> nat \<Rightarrow> nat \<Rightarrow> bool" where
  "entity_less rq a b \<longleftrightarrow> entity_before (ents rq a) (ents rq b)"

definition enqueue_entity :: "'t kernel_lib \<Rightarrow> nat \<Rightarrow> 't fair_rq \<Rightarrow> 't fair_rq" where
  "enqueue_entity K a rq = rq\<lparr>timeline := k_rb_add K (entity_less rq) a (timeline rq)\<rparr>"

definition dequeue_entity :: "'t kernel_lib \<Rightarrow> nat \<Rightarrow> 't fair_rq \<Rightarrow> 't fair_rq" where
  "dequeue_entity K a rq = rq\<lparr>timeline := k_rb_erase K a (timeline rq)\<rparr>"

definition pick_first_entity :: "'t kernel_lib \<Rightarrow> 't fair_rq \<Rightarrow> nat ptr" where
  "pick_first_entity K rq =
     (let left = k_rb_first K (timeline rq) in if left = NULL then NULL else left)"

definition next_entity :: "'t kernel_lib \<Rightarrow> 't fair_rq \<Rightarrow> nat \<Rightarrow> nat ptr" where
  "next_entity K rq se =
     (let nxt = k_rb_next K (timeline rq) se in if nxt = NULL then NULL else nxt)"

section \<open>Slices and placement\<close>

definition sched_period :: "fair_config \<Rightarrow> u64 \<Rightarrow> u64" where
  "sched_period G nr =
     (if ucast (sched_nr_latency G) < nr then nr * ucast (sysctl_min_granularity G)
      else ucast (sysctl_latency G))"

definition se_is_idle :: "nat \<Rightarrow> bool" where
  "se_is_idle se = False"

definition sched_idle_cfs_rq :: "'t fair_rq \<Rightarrow> bool" where
  "sched_idle_cfs_rq rq \<longleftrightarrow> cfs_nr_running rq \<noteq> 0 \<and> cfs_nr_running rq = cfs_idle_nr_running rq"

definition sched_slice :: "'t kernel_lib \<Rightarrow> fair_config \<Rightarrow> nat \<Rightarrow> 't fair_rq \<Rightarrow> (u64 \<times> 't fair_rq) option" where
  "sched_slice K G se rq = do {
     let nr = (if ALT_PERIOD G then cfs_h_nr_running rq else cfs_nr_running rq);
     let slice = sched_period G (ucast (nr + (if se_on_rq (ents rq se) = 0 then 1 else 0)));
     let w = lw_weight (se_load (ents rq se));
     (slice, rq) \<leftarrow>
       (if se_on_rq (ents rq se) = 0 then do {
          (s, _) \<leftarrow> calc_delta K slice w (update_load_add (rq_load rq) w);
          Some (s, rq)
        } else do {
          (s, lw) \<leftarrow> calc_delta K slice w (rq_load rq);
          Some (s, rq\<lparr>rq_load := lw\<rparr>)
        });
     let slice =
       (if BASE_SLICE G then
          let min_gran = (if se_is_idle se \<and> \<not> sched_idle_cfs_rq rq then sysctl_idle_min_granularity G
                          else sysctl_min_granularity G)
          in max slice (ucast min_gran)
        else slice);
     Some (slice, rq)
   }"

definition sched_vslice :: "'t kernel_lib \<Rightarrow> fair_config \<Rightarrow> nat \<Rightarrow> 't fair_rq \<Rightarrow> (u64 \<times> 't fair_rq) option" where
  "sched_vslice K G se rq = do {
     (s, rq) \<leftarrow> sched_slice K G se rq;
     entity_delta_fair K s se rq
   }"

definition place_entity :: "'t kernel_lib \<Rightarrow> fair_config \<Rightarrow> nat \<Rightarrow> bool \<Rightarrow> 't fair_rq \<Rightarrow> 't fair_rq option" where
  "place_entity K G se initial rq = do {
     let vruntime = cfs_min_vruntime rq;
     (vruntime, rq) \<leftarrow>
       (if initial \<and> START_DEBIT G then do {
          (v, rq) \<leftarrow> sched_vslice K G se rq;
          Some (vruntime + v, rq)
        } else Some (vruntime, rq));
     let vruntime =
       (if \<not> initial then
          let thresh = (ucast (if se_is_idle se then sysctl_min_granularity G else sysctl_latency G) :: u64);
              thresh = (if GENTLE_FAIR_SLEEPERS G then drop_bit 1 thresh else thresh)
          in vruntime - thresh
        else vruntime);
     Some (ent_update se (\<lambda>e. e\<lparr>se_vruntime := max_vruntime (se_vruntime e) vruntime\<rparr>) rq)
   }"

section \<open>The running entity\<close>

text \<open>\<open>now\<close> is the reading of the runqueue's task clock.\<close>

definition update_curr :: "'t kernel_lib \<Rightarrow> u64 \<Rightarrow> 't fair_rq \<Rightarrow> 't fair_rq option" where
  "update_curr K now rq =
     (case cfs_curr rq of
        NULL \<Rightarrow> Some rq
      | Ref c \<Rightarrow>
          let delta_exec = now - exec_start (ents rq c) in
          if sint delta_exec \<le> 0 then Some rq
          else do {
            let rq = ent_update c (\<lambda>e. e\<lparr>exec_start := now,
                       sum_exec_runtime := sum_exec_runtime e + delta_exec\<rparr>) rq;
            (d, rq) \<leftarrow> entity_delta_fair K delta_exec c rq;
            let rq = ent_update c (\<lambda>e. e\<lparr>se_vruntime := se_vruntime e + d\<rparr>) rq;
            Some (update_min_vruntime K rq)
          })"

definition clear_buddies :: "nat \<Rightarrow> 't fair_rq \<Rightarrow> 't fair_rq" where
  "clear_buddies se rq =
     (let rq = (if cfs_last rq = Ref se then rq\<lparr>cfs_last := NULL\<rparr> else rq);
          rq = (if cfs_next rq = Ref se then rq\<lparr>cfs_next := NULL\<rparr> else rq);
          rq = (if cfs_skip rq = Ref se then rq\<lparr>cfs_skip := NULL\<rparr> else rq)
      in rq)"

text \<open>The first component says whether \<open>resched_curr\<close> was called.\<close>

definition check_preempt_tick ::
  "'t kernel_lib \<Rightarrow> fair_config \<Rightarrow> nat \<Rightarrow> 't fair_rq \<Rightarrow> (bool \<times> 't fair_rq) option" where
  "check_preempt_tick K G cur rq = do {
     (ideal_runtime, rq) \<leftarrow> sched_slice K G cur rq;
     let delta_exec = sum_exec_runtime (ents rq cur) - prev_sum_exec_runtime (ents rq cur);
     if ideal_runtime < delta_exec then Some (True, clear_buddies cur rq)
     else if delta_exec < ucast (sysctl_min_granularity G) then Some (False, rq)
     else do {
       se \<leftarrow> c_deref (pick_first_entity K rq);
       let delta = se_vruntime (ents rq cur) - se_vruntime (ents rq se);
       if sint delta < 0 then Some (False, rq)
       else Some (ideal_runtime < delta, rq)
     }
   }"

section \<open>The next entity\<close>

definition wakeup_gran :: "'t kernel_lib \<Rightarrow> fair_config \<Rightarrow> nat \<Rightarrow> 't fair_rq \<Rightarrow> (u64 \<times> 't fair_rq) option" where
  "wakeup_gran K G se rq = entity_delta_fair K (ucast (sysctl_wakeup_granularity G)) se rq"

definition wakeup_preempt_entity ::
  "'t kernel_lib \<Rightarrow> fair_config \<Rightarrow> nat \<Rightarrow> nat \<Rightarrow> 't fair_rq \<Rightarrow> (int \<times> 't fair_rq) option" where
  "wakeup_preempt_entity K G cur se rq =
     (let vdiff = sint (se_vruntime (ents rq cur) - se_vruntime (ents rq se)) in
      if vdiff \<le> 0 then Some (- 1, rq)
      else do {
        (gran, rq) \<leftarrow> wakeup_gran K G se rq;
        Some (if sint gran < vdiff then 1 else 0, rq)
      })"

text \<open>\<open>b && wakeup_preempt_entity(b, left) < 1\<close>; the call dereferences \<open>left\<close>.\<close>

definition buddy_fair ::
  "'t kernel_lib \<Rightarrow> fair_config \<Rightarrow> nat ptr \<Rightarrow> nat ptr \<Rightarrow> 't fair_rq \<Rightarrow> (bool \<times> 't fair_rq) option" where
  "buddy_fair K G b left rq =
     (case b of
        NULL \<Rightarrow> Some (False, rq)
      | Ref b \<Rightarrow> do {
          l \<leftarrow> c_deref left;
          (r, rq) \<leftarrow> wakeup_preempt_entity K G b l rq;
          Some (r < 1, rq)
        })"

definition before_ptr :: "'t fair_rq \<Rightarrow> nat ptr \<Rightarrow> nat ptr \<Rightarrow> bool" where
  "before_ptr rq p q =
     (case (p, q) of (Ref a, Ref b) \<Rightarrow> entity_before (ents rq a) (ents rq b) | _ \<Rightarrow> False)"

definition pick_left :: "'t kernel_lib \<Rightarrow> nat ptr \<Rightarrow> 't fair_rq \<Rightarrow> nat ptr" where
  "pick_left K cur rq =
     (let left = pick_first_entity K rq in if left = NULL \<or> before_ptr rq cur left then cur else left)"

text \<open>The entity to run instead of the skip buddy \<open>se\<close>.\<close>

definition pick_second :: "'t kernel_lib \<Rightarrow> nat ptr \<Rightarrow> nat \<Rightarrow> 't fair_rq \<Rightarrow> nat ptr" where
  "pick_second K cur se rq =
     (if Ref se = cur then pick_first_entity K rq
      else let second = next_entity K rq se
           in if second = NULL \<or> before_ptr rq cur second then cur else second)"

definition pick_next_entity ::
  "'t kernel_lib \<Rightarrow> fair_config \<Rightarrow> nat ptr \<Rightarrow> 't fair_rq \<Rightarrow> (nat ptr \<times> 't fair_rq) option" where
  "pick_next_entity K G cur rq = do {
     let left = pick_left K cur rq;
     let se = left;
     (se, rq) \<leftarrow>
       (case se of
          NULL \<Rightarrow> Some (se, rq)
        | Ref s \<Rightarrow>
            if cfs_skip rq = Ref s then do {
              let second = pick_second K cur s rq;
              (ok, rq) \<leftarrow> buddy_fair K G second left rq;
              Some (if ok then second else se, rq)
            } else Some (se, rq));
     (ok, rq) \<leftarrow> buddy_fair K G (cfs_next rq) left rq;
     if ok then Some (cfs_next rq, rq)
     else do {
       (ok, rq) \<leftarrow> buddy_fair K G (cfs_last rq) left rq;
       Some (if ok then cfs_last rq else se, rq)
     }
   }"

section \<open>What the kernel headers provide\<close>

text \<open>
  The documented behaviour of the helpers: \<open>fls\<close> is the position of the last set bit, counted
  from 1; the multiplications are exact, the second one on 128 bits before the shift.
\<close>

definition kernel_math_ok :: "'t kernel_lib \<Rightarrow> bool" where
  "kernel_math_ok K \<longleftrightarrow>
     (\<forall>x. x \<noteq> 0 \<longrightarrow> 1 \<le> k_fls K x \<and> 2 ^ (nat (k_fls K x) - 1) \<le> unat x \<and> unat x < 2 ^ nat (k_fls K x)) \<and>
     (\<forall>a b. k_mul_u32_u32 K a b = ucast a * ucast b) \<and>
     (\<forall>a m s. 0 \<le> s \<and> s < 64 \<longrightarrow> k_mul_u64_u32_shr K a m s = Some (mul_shr a (ucast m) (nat s)))"

lemma kernel_fls:
  assumes "kernel_math_ok K" and "x \<noteq> 0" and "unat x < 2 ^ n"
  obtains f where "k_fls K x = int f" and "1 \<le> f" and "f \<le> n" and "unat x < 2 ^ f"
proof -
  let ?f = "nat (k_fls K x)"
  have f: "1 \<le> k_fls K x" "2 ^ (?f - 1) \<le> unat x" "unat x < 2 ^ ?f"
    using assms(1,2) by (auto simp: kernel_math_ok_def)
  then have "(2::nat) ^ (?f - 1) < 2 ^ n" using assms(3) by linarith
  then have "?f - 1 < n" by (simp only: power_strict_increasing_iff)
  then show ?thesis using that [of ?f] f by simp
qed

section \<open>A concrete environment\<close>

text \<open>
  The helpers computed, and a timeline kept as the list of its addresses in order. It shows that
  the hypotheses of the theorems can hold, and runs the model on small runqueues.
\<close>

definition demo_lib :: "nat list kernel_lib" where
  "demo_lib = \<lparr>k_fls = \<lambda>x. bitlen (uint x), k_mul_u32_u32 = \<lambda>a b. ucast a * ucast b,
     k_mul_u64_u32_shr = \<lambda>a m s. if 0 \<le> s \<and> s < 64 then Some (mul_shr a (ucast m) (nat s)) else None,
     k_rb_first = \<lambda>t. case t of [] \<Rightarrow> NULL | a # _ \<Rightarrow> Ref a,
     k_rb_next = \<lambda>t a. case dropWhile (\<lambda>b. b \<noteq> a) t of _ # b # _ \<Rightarrow> Ref b | _ \<Rightarrow> NULL,
     k_rb_add = \<lambda>less a t. takeWhile (\<lambda>b. \<not> less a b) t @ a # dropWhile (\<lambda>b. \<not> less a b) t,
     k_rb_erase = remove1\<rparr>"

lemma demo_lib_ok: "kernel_math_ok demo_lib"
proof -
  have "1 \<le> bitlen (uint x) \<and> 2 ^ (nat (bitlen (uint x)) - 1) \<le> unat x \<and> unat x < 2 ^ nat (bitlen (uint x))"
    if "x \<noteq> 0" for x :: u32
  proof -
    have p: "0 < uint x" using that by (simp add: word_neq_0_conv word_less_def)
    have b: "2 ^ nat (bitlen (uint x) - 1) \<le> uint x" "uint x < 2 ^ nat (bitlen (uint x))"
      using bitlen_bounds [OF p] by auto
    have "bitlen (uint x) \<noteq> 0" using b(2) p by auto
    then have l: "1 \<le> bitlen (uint x)" using bitlen_nonneg [of "uint x"] by linarith
    have "nat (bitlen (uint x) - 1) = nat (bitlen (uint x)) - 1" using l by simp
    then have "int (2 ^ (nat (bitlen (uint x)) - 1)) \<le> int (unat x)" "int (unat x) < int (2 ^ nat (bitlen (uint x)))"
      using b by simp_all
    then show ?thesis using l by (simp only: of_nat_le_iff of_nat_less_iff simp_thms)
  qed
  then show ?thesis by (simp add: kernel_math_ok_def demo_lib_def)
qed

section \<open>Scaling by the inverse weight\<close>

text \<open>With \<open>NICE_0_LOAD\<close> as the numerator the adjustments of the shift lose nothing.\<close>

lemma calc_delta_nice_0:
  assumes K: "kernel_math_ok K"
  shows "calc_delta K delta K_NICE_0_LOAD lw =
    Some (mul_shr delta (ucast (inv_weight (update_inv_weight lw))) 22, update_inv_weight lw)"
proof -
  let ?inv = "inv_weight (update_inv_weight lw)"
  define F where "F = k_mul_u32_u32 K 1024 ?inv"
  have mul: "k_mul_u64_u32_shr K delta m (int s) = Some (mul_shr delta (ucast m) s)" if "s < 64" for m s
    using K that by (simp add: kernel_math_ok_def)
  have inv: "unat ?inv < 4294967296" by simp
  have "F = ucast (1024 :: u32) * ucast ?inv" using K by (simp only: F_def kernel_math_ok_def)
  then have F: "unat F = 1024 * unat ?inv"
    using unat_u64_mult_small [of "ucast (1024 :: u32)" "ucast ?inv"] order_less_trans [OF inv] by simp
  have start: "calc_delta K delta K_NICE_0_LOAD lw = fit_fact K F 32 \<bind>
      (\<lambda>(fct, shift). k_mul_u64_u32_shr K delta (ucast fct) shift \<bind> (\<lambda>d. Some (d, update_inv_weight lw)))"
    by (simp add: calc_delta_def scale_load_down_def fit_fact_def F_def Let_def)
  let ?hi = "(ucast (drop_bit 32 F) :: u32)"
  have "unat ?inv div 4194304 < 1024" using inv by (simp add: div_less_iff_less_mult)
  then have hi: "unat ?hi = unat F div 2 ^ 32" "unat ?hi < 2 ^ 10"
    using F by (simp_all add: unat_ucast_u64_u32 unat_shr)
  have eq: "mul_shr delta (ucast (ucast G :: u32)) s = mul_shr delta (ucast ?inv) 22"
    if "unat G = 2 ^ (s - 22) * unat ?inv" "22 \<le> s" "unat G < 2 ^ 32" for G :: u64 and s
  proof -
    have "(2::nat) ^ s = 2 ^ (s - 22 + 22)" using that(2) by simp
    then have "(2::nat) ^ s = 2 ^ (s - 22) * 2 ^ 22" by (simp only: power_add)
    then have "unat delta * unat G div 2 ^ s = unat delta * unat ?inv div 2 ^ 22"
      unfolding that(1) by (simp add: mult.left_commute [of "unat delta"] del: power_numeral)
    then show ?thesis using that(3)
      by (simp add: word_unat_eq_iff unat_mul_shr unat_ucast_u64_u32)
  qed
  show ?thesis
  proof (cases "?hi = 0")
    case True
    then have "unat F < 2 ^ 32" using hi(1) by (simp add: div_eq_0_iff)
    then show ?thesis using True F mul [of 32] eq [of F 32] by (simp add: start fit_fact_def)
  next
    case False
    obtain f where f: "k_fls K ?hi = int f" "1 \<le> f" "f \<le> 10" "unat ?hi < 2 ^ f"
      by (rule kernel_fls [OF K False hi(2)])
    have "(1024::nat) = 2 ^ f * 2 ^ (10 - f)" using f(3) by (simp flip: power_add)
    then have "unat F = 2 ^ f * (2 ^ (10 - f) * unat ?inv)" unfolding F by (simp only: mult.assoc)
    then have G: "unat (drop_bit f F) = 2 ^ (32 - f - 22) * unat ?inv"
      by (simp add: unat_shr)
    have "unat F < 2 ^ f * 2 ^ 32" using f(4) hi(1) by (simp add: div_less_iff_less_mult)
    then have lt: "unat (drop_bit f F) < 2 ^ 32"
      by (simp add: unat_shr div_less_iff_less_mult mult.commute)
    have "int 32 - int f = int (32 - f)" using f(3) by simp
    then show ?thesis
      using False f eq [OF G _ lt] mul [of "32 - f"] by (simp add: start fit_fact_def u64_shr_def Let_def)
  qed
qed

lemma scale_load_round_trip:
  assumes "2 \<le> unat (w :: u32)"
  shows "scale_load_down (scale_load (ucast w)) = ucast w"
proof -
  have p: "unat (push_bit 10 (ucast w :: u64)) = unat w * 1024"
    using unat_u32_lt [of w] by (simp add: push_bit_eq_mult unat_u64_mult mult.commute del: unat_u32_lt)
  then have "push_bit 10 (ucast w :: u64) \<noteq> 0" using assms by (metis unat_0 mult_eq_0_iff not_numeral_le_zero zero_neq_numeral)
  moreover have "drop_bit 10 (push_bit 10 (ucast w :: u64)) = ucast w"
    by (simp add: word_unat_eq_iff unat_shr p)
  moreover have "2 \<le> (ucast w :: u64)" using assms by (simp add: word_le_nat_alt)
  ultimately show ?thesis by (simp add: scale_load_down_def scale_load_def max_def)
qed

text \<open>A cached inverse is either absent or the one \<open>update_inv_weight\<close> would compute.\<close>

definition inv_ok :: "load_weight \<Rightarrow> bool" where
  "inv_ok lw \<longleftrightarrow> inv_weight lw = 0 \<or> inv_weight lw = inv_weight (update_inv_weight (lw\<lparr>inv_weight := 0\<rparr>))"

lemma update_inv_weight_simps [simp]:
  "lw_weight (update_inv_weight lw) = lw_weight lw" "update_inv_weight (update_inv_weight lw) = update_inv_weight lw"
  by (simp_all add: update_inv_weight_def Let_def)

lemma inv_ok_value:
  assumes "inv_ok lw"
  shows "inv_weight (update_inv_weight lw) = inv_weight (update_inv_weight (lw\<lparr>inv_weight := 0\<rparr>))"
    and "inv_ok (update_inv_weight lw)"
proof -
  show v: "inv_weight (update_inv_weight lw) = inv_weight (update_inv_weight (lw\<lparr>inv_weight := 0\<rparr>))"
  proof (cases "inv_weight lw = 0")
    case True
    then have "lw\<lparr>inv_weight := 0\<rparr> = lw" by simp
    then show ?thesis by simp
  next
    case False
    then show ?thesis using assms by (simp add: inv_ok_def update_inv_weight_def)
  qed
  have eq: "(update_inv_weight lw)\<lparr>inv_weight := 0\<rparr> = lw\<lparr>inv_weight := 0\<rparr>"
    by (simp add: update_inv_weight_def Let_def)
  show "inv_ok (update_inv_weight lw)" unfolding inv_ok_def eq v by simp
qed

lemma kernel_inv_weight:
  assumes "2 \<le> unat (w :: u32)" and "\<not> unat w dvd 4294967296" and "lw_weight lw = scale_load (ucast w)" and "inv_ok lw"
  shows "unat (inv_weight (update_inv_weight lw)) = 4294967296 div unat w"
proof -
  have sd: "scale_load_down (lw_weight lw) = ucast w" using scale_load_round_trip [OF assms(1)] assms(3) by simp
  have dv: "4294967295 div unat w = 4294967296 div unat w"
    using assms(2) div_Suc [of 4294967295 "unat w"] by (simp add: dvd_eq_mod_eq_0)
  have le: "4294967296 div unat w < 4294967296" using assms(1) by (simp add: div_less_iff_less_mult)
  have "unat (inv_weight (update_inv_weight (lw\<lparr>inv_weight := 0\<rparr>))) = 4294967296 div unat w"
  proof (cases "unat w = 4294967295")
    case True
    then show ?thesis by (simp add: update_inv_weight_def sd word_le_nat_alt)
  next
    case False
    have "\<not> ucast (0xffffffff :: u32) \<le> (ucast w :: u64)" using False unat_u32_lt [of w]
      by (simp add: word_le_nat_alt del: unat_u32_lt)
    moreover have "(ucast w :: u64) \<noteq> 0" using assms(1) by (metis unat_0 unat_ucast_u32_u64 not_numeral_le_zero)
    moreover have "unat (ucast (0xffffffff div ucast w :: u64) :: u32) = 4294967296 div unat w"
      using le dv by (simp add: unat_ucast_u64_u32 unat_div)
    ultimately show ?thesis by (simp add: update_inv_weight_def sd)
  qed
  then show ?thesis by (simp add: inv_ok_value(1) [OF assms(4)])
qed

text \<open>
  C29. For every weight of at least 2 that is not a power of two (or is 1024) and every time
  below \<open>2 ^ 32\<close> ns, \<open>exact_calc_delta_fair\<close> of cfs_exact.c computes what the kernel's
  \<open>calc_delta_fair\<close> computes for the entity of that weight, whether its inverse weight is cached
  or not, although the kernel scales the weight up by \<open>2 ^ 10\<close>, adjusts the shift with \<open>fls\<close> and
  starts from \<open>2 ^ 32 - 1\<close> instead of \<open>2 ^ 32\<close>. The cached inverse stays the right one.
\<close>

theorem kernel_delta_exact:
  assumes "kernel_math_ok K" and "2 \<le> unat w" and "w = 1024 \<or> \<not> unat w dvd 4294967296"
    and "unat delta < 4294967296" and "lw_weight lw = scale_load (ucast w)" and "inv_ok lw"
  shows "\<exists>d lw'. exact_calc_delta_fair delta w = Some d \<and> calc_delta_fair K delta lw = Some (d, lw') \<and>
    lw_weight lw' = lw_weight lw \<and> inv_ok lw'"
proof (cases "w = 1024")
  case True
  then show ?thesis using assms(5,6)
    by (simp add: exact_calc_delta_fair_def calc_delta_fair_def scale_load_def)
next
  case False
  let ?inv = "ucast (WMULT_CONST div ucast w) :: u32"
  have "unat (scale_load (ucast w)) = unat w * 1024"
    using unat_u32_lt [of w] by (simp add: scale_load_def push_bit_eq_mult unat_u64_mult mult.commute del: unat_u32_lt)
  moreover have "unat w \<noteq> 1024" using False by (simp add: word_unat_eq_iff)
  ultimately have nn: "lw_weight lw \<noteq> K_NICE_0_LOAD" using assms(5) by (auto simp: word_unat_eq_iff)
  have "inv_weight (update_inv_weight lw) = ?inv"
    using kernel_inv_weight [OF assms(2) _ assms(5,6)] unat_inv_weight [OF assms(2)] assms(3) False
    by (simp add: word_unat_eq_iff)
  then have k: "calc_delta_fair K delta lw = Some (mul_shr delta (ucast ?inv) 22, update_inv_weight lw)"
    using calc_delta_nice_0 [OF assms(1), of delta lw] nn by (simp add: calc_delta_fair_def)
  have "w \<noteq> 0" using assms(2) by auto
  moreover have "\<not> UINT32_MAX < delta" using assms(4) by (simp add: word_less_nat_alt)
  ultimately have "exact_calc_delta_fair delta w = Some (mul_shr delta (ucast ?inv) 22)"
    using False by (simp add: exact_calc_delta_fair_def exact_mul_shr Let_def)
  then show ?thesis using k inv_ok_value(2) [OF assms(6)] by simp
qed

theorem kernel_delta_exact_witness:
  "\<exists>d lw'. exact_calc_delta_fair 1000000 820 = Some d \<and>
     calc_delta_fair demo_lib 1000000 \<lparr>lw_weight = 839680, inv_weight = 0\<rparr> = Some (d, lw') \<and>
     lw_weight lw' = 839680 \<and> inv_ok lw'"
  using kernel_delta_exact [OF demo_lib_ok, of 820 1000000 "\<lparr>lw_weight = 839680, inv_weight = 0\<rparr>"]
  by (simp add: scale_load_def inv_ok_def)

end
