(* ===== verification/Kernel_Fair_Run.thy ===== *)
theory Kernel_Fair_Run
  imports Kernel_Fair
begin

text \<open>
  What the vruntime core of fair.c guarantees over a runqueue: \<open>min_vruntime\<close> is the least
  vruntime in spite of wrap-around, nothing moves backwards, the choice of the next entity stays
  within a granularity of the leftmost one, and the slices of a round fit into the period.
\<close>

section \<open>The least vruntime\<close>

text \<open>Within a window of \<open>2 ^ 62\<close> above a base the signed comparison is that of the distances.\<close>

lemma sint_window:
  assumes "unat (u - m :: u64) < 2 ^ 62" and "unat (v - m) < 2 ^ 62"
  shows "sint (u - v) = uint (u - m) - uint (v - m)"
proof -
  let ?a = "u - m" and ?b = "v - m"
  have b: "0 \<le> uint x" "uint x < 2 ^ 62" if "unat x < 2 ^ 62" for x :: u64
  proof -
    have "int (unat x) < int (2 ^ 62)" using that by (simp only: of_nat_less_iff)
    then show "uint x < 2 ^ 62" by simp
  qed simp
  have s: "sint x = uint x" if "unat x < 2 ^ 62" for x :: u64
    unfolding sint_uint using b [OF that]
    by (intro signed_take_bit_int_eq_self) (simp_all add: order_trans [of _ 0])
  have power_numerals: "(2::int) ^ 62 = 4611686018427387904" "(2::int) ^ 63 = 9223372036854775808"
    by simp_all
  have "u - v = ?a - ?b" by simp
  then have "sint (u - v) = signed_take_bit 63 (sint ?a - sint ?b)"
    by (simp only: sint_word_ariths(2)) simp
  also have "\<dots> = sint ?a - sint ?b"
    unfolding s [OF assms(1)] s [OF assms(2)] using b [OF assms(1)] b [OF assms(2)] unfolding power_numerals
    by - (rule signed_take_bit_int_eq_self; simp only: power_numerals; linarith)
  finally show ?thesis using s assms by simp
qed

lemma sint_window_neg:
  assumes "unat (u - m :: u64) < 2 ^ 62" and "unat (v - m) < 2 ^ 62"
  shows "sint (u - v) < 0 \<longleftrightarrow> unat (u - m) < unat (v - m)"
  using sint_window [OF assms] by (simp add: word_less_nat_alt [symmetric] word_less_def)

text \<open>The entities that compete: those of the timeline, and the running one while it is queued.\<close>

definition competing :: "nat set \<Rightarrow> 't fair_rq \<Rightarrow> nat set" where
  "competing queued rq = queued \<union> {c. cfs_curr rq = Ref c \<and> se_on_rq (ents rq c) \<noteq> 0}"

text \<open>The law of the tree: its first node is the leftmost one.\<close>

definition leftmost_ok :: "'t kernel_lib \<Rightarrow> nat set \<Rightarrow> 't fair_rq \<Rightarrow> bool" where
  "leftmost_ok K queued rq \<longleftrightarrow>
     (case k_rb_first K (timeline rq) of
        NULL \<Rightarrow> queued = {}
      | Ref a \<Rightarrow> a \<in> queued \<and> (\<forall>b \<in> queued. \<not> entity_before (ents rq b) (ents rq a)))"

definition in_window :: "nat set \<Rightarrow> 't fair_rq \<Rightarrow> bool" where
  "in_window A rq \<longleftrightarrow> (\<forall>a \<in> A. unat (se_vruntime (ents rq a) - cfs_min_vruntime rq) < 2 ^ 62)"

text \<open>A runqueue of three entities in that environment.\<close>

definition demo_entity :: "u64 \<Rightarrow> u64 \<Rightarrow> fair_entity" where
  "demo_entity w v = \<lparr>se_load = \<lparr>lw_weight = w, inv_weight = 0\<rparr>, se_on_rq = 1, exec_start = 0,
     sum_exec_runtime = 0, se_vruntime = v, prev_sum_exec_runtime = 0\<rparr>"

text \<open>
  Entity 0 runs, entities 1 and 2 wait; the vruntimes are about to wrap around. Entity 2 is the
  next buddy, and the leftmost entity 1 has weight 820.
\<close>

definition demo_fair :: "nat list fair_rq" where
  "demo_fair = \<lparr>rq_load = \<lparr>lw_weight = 2936832, inv_weight = 0\<rparr>, cfs_nr_running = 3, cfs_h_nr_running = 3,
     cfs_idle_nr_running = 0, cfs_min_vruntime = - 1000, timeline = [1, 2], cfs_curr = Ref 0, cfs_next = Ref 2,
     cfs_last = NULL, cfs_skip = Ref 1,
     ents = \<lambda>a. if a = 0 then demo_entity 1048576 500 else if a = 1 then demo_entity 839680 (- 300) else demo_entity 1048576 700\<rparr>"

definition demo_config :: fair_config where
  "demo_config = default_tunables \<lparr>sysctl_latency = 0, sysctl_min_granularity = 0, sysctl_idle_min_granularity = 0,
     sched_nr_latency = 0, sysctl_wakeup_granularity = 0, ALT_PERIOD = True, BASE_SLICE = False,
     START_DEBIT = True, GENTLE_FAIR_SLEEPERS = True\<rparr>"

lemma demo_competing: "competing {1, 2} demo_fair = {0, 1, 2}"
  by (auto simp: competing_def demo_fair_def demo_entity_def)

lemma max_vruntime_window:
  "unat (v - m) < 2 ^ 62 \<Longrightarrow> max_vruntime m v = v"
  using sint_window_neg [of m m v] sint_window [of v m m]
  by (auto simp: max_vruntime_def Let_def uint_0_iff not_less)

lemma min_vruntime_window:
  "unat (u - m) < 2 ^ 62 \<Longrightarrow> unat (v - m) < 2 ^ 62 \<Longrightarrow>
     min_vruntime u v = (if unat (v - m) < unat (u - m) then v else u)"
  using sint_window_neg [of v m u] by (simp add: min_vruntime_def Let_def)

text \<open>
  C30. While the vruntimes of the competing entities are within \<open>2 ^ 62\<close> above \<open>min_vruntime\<close>,
  \<open>update_min_vruntime\<close> moves it exactly to the least of them, wrap-around of the 64 bits
  included, and leaves it alone when nothing competes; so it stays a lower bound.
\<close>

theorem kernel_min_vruntime:
  assumes "leftmost_ok K queued rq" and "in_window (competing queued rq) rq"
  shows "if competing queued rq = {} then update_min_vruntime K rq = rq
    else \<exists>a \<in> competing queued rq. update_min_vruntime K rq = rq\<lparr>cfs_min_vruntime := se_vruntime (ents rq a)\<rparr> \<and>
      (\<forall>b \<in> competing queued rq. unat (se_vruntime (ents rq a) - cfs_min_vruntime rq)
         \<le> unat (se_vruntime (ents rq b) - cfs_min_vruntime rq))"
proof -
  let ?m = "cfs_min_vruntime rq" and ?v = "\<lambda>a. se_vruntime (ents rq a)" and ?C = "competing queued rq"
  have w: "unat (?v a - ?m) < 2 ^ 62" if "a \<in> ?C" for a using assms(2) that by (auto simp: in_window_def)
  have mm: "max_vruntime ?m ?m = ?m" by (simp add: max_vruntime_def)
  have q: "queued \<subseteq> ?C" by (auto simp: competing_def)
  have left: "unat (?v a - ?m) \<le> unat (?v b - ?m)"
    if "k_rb_first K (timeline rq) = Ref a" "b \<in> queued" for a b
  proof -
    have "a \<in> queued" "\<not> sint (?v b - ?v a) < 0"
      using assms(1) that by (auto simp: leftmost_ok_def entity_before_def)
    moreover from this have "a \<in> ?C" "b \<in> ?C" using q that(2) by auto
    ultimately show ?thesis using sint_window_neg [OF w w, of b a] by simp
  qed
  show ?thesis
  proof (cases "\<exists>c. cfs_curr rq = Ref c \<and> se_on_rq (ents rq c) \<noteq> 0")
    case True
    then obtain c where c: "cfs_curr rq = Ref c" "se_on_rq (ents rq c) \<noteq> 0" by blast
    then have C: "?C = insert c queued" by (auto simp: competing_def)
    show ?thesis
    proof (cases "k_rb_first K (timeline rq)")
      case NULL
      then have "queued = {}" using assms(1) by (simp add: leftmost_ok_def)
      then show ?thesis using NULL c C w [of c] by (simp add: update_min_vruntime_def max_vruntime_window Let_def)
    next
      case (Ref a)
      then have a: "a \<in> ?C" using assms(1) q by (auto simp: leftmost_ok_def)
      let ?w = "if unat (?v a - ?m) < unat (?v c - ?m) then a else c"
      have "min_vruntime (?v c) (?v a) = ?v ?w" using min_vruntime_window [OF w w, of c a] a C by simp
      moreover have "?w \<in> ?C" using a C by simp
      ultimately have "update_min_vruntime K rq = rq\<lparr>cfs_min_vruntime := ?v ?w\<rparr>"
        using Ref c w [of ?w] by (simp add: update_min_vruntime_def max_vruntime_window Let_def)
      moreover have "unat (?v ?w - ?m) \<le> unat (?v b - ?m)" if "b \<in> ?C" for b
      proof -
        have "b = c \<or> unat (?v a - ?m) \<le> unat (?v b - ?m)" using left [OF Ref] that C by auto
        then show ?thesis by (cases "unat (?v a - ?m) < unat (?v c - ?m)") auto
      qed
      moreover have "?C \<noteq> {}" using C by blast
      ultimately show ?thesis using \<open>?w \<in> ?C\<close> by (simp only: if_False) blast
    qed
  next
    case False
    then have C: "?C = queued" by (auto simp: competing_def)
    have v: "update_min_vruntime K rq = rq\<lparr>cfs_min_vruntime := max_vruntime ?m
        (case k_rb_first K (timeline rq) of NULL \<Rightarrow> ?m | Ref a \<Rightarrow> ?v a)\<rparr>"
      using False by (auto simp: update_min_vruntime_def Let_def split: ptr.splits)
    show ?thesis
    proof (cases "k_rb_first K (timeline rq)")
      case NULL
      then show ?thesis using assms(1) C v mm by (simp add: leftmost_ok_def)
    next
      case (Ref a)
      then have a: "a \<in> ?C" using assms(1) q by (auto simp: leftmost_ok_def)
      then have "update_min_vruntime K rq = rq\<lparr>cfs_min_vruntime := ?v a\<rparr>"
        using v Ref w by (simp add: max_vruntime_window)
      then show ?thesis using a left [OF Ref] C by auto
    qed
  qed
qed

theorem kernel_min_vruntime_witness:
  "\<exists>a \<in> {0, 1, 2}. update_min_vruntime demo_lib demo_fair = demo_fair\<lparr>cfs_min_vruntime := se_vruntime (ents demo_fair a)\<rparr>"
proof -
  have "leftmost_ok demo_lib {1, 2} demo_fair"
    by (simp add: leftmost_ok_def demo_lib_def demo_fair_def entity_before_def demo_entity_def)
  moreover have "in_window (competing {1, 2} demo_fair) demo_fair"
    unfolding demo_competing by (simp add: in_window_def demo_fair_def demo_entity_def)
  ultimately show ?thesis using kernel_min_vruntime [of demo_lib "{1, 2}" demo_fair]
    by (simp only: demo_competing insert_not_empty if_False) blast
qed

section \<open>Buddies\<close>

text \<open>Scaling for an entity in memory: the value, and the runqueue with the inverse weight cached.\<close>

definition fair_scaled :: "u64 \<Rightarrow> load_weight \<Rightarrow> u64" where
  "fair_scaled d lw =
     (if lw_weight lw \<noteq> K_NICE_0_LOAD then mul_shr d (ucast (inv_weight (update_inv_weight lw))) 22 else d)"

definition cached :: "nat \<Rightarrow> 't fair_rq \<Rightarrow> 't fair_rq" where
  "cached a rq = ent_update a (\<lambda>e. e\<lparr>se_load := (if lw_weight (se_load e) \<noteq> K_NICE_0_LOAD
     then update_inv_weight (se_load e) else se_load e)\<rparr>) rq"

lemma cached_simps [simp]:
  "se_vruntime (ents (cached a rq) b) = se_vruntime (ents rq b)"
  "se_on_rq (ents (cached a rq) b) = se_on_rq (ents rq b)"
  "fair_scaled d (se_load (ents (cached a rq) b)) = fair_scaled d (se_load (ents rq b))"
  "cached a (cached a rq) = cached a rq"
  "timeline (cached a rq) = timeline rq" "cfs_curr (cached a rq) = cfs_curr rq"
  "cfs_next (cached a rq) = cfs_next rq" "cfs_last (cached a rq) = cfs_last rq"
  by (auto simp: cached_def ent_update_def fair_scaled_def intro!: fair_rq.equality)

lemma entity_delta_fair_view:
  assumes "kernel_math_ok K"
  shows "entity_delta_fair K d a rq = Some (fair_scaled d (se_load (ents rq a)), cached a rq)"
  by (simp add: entity_delta_fair_def calc_delta_fair_def fair_scaled_def cached_def ent_update_def
      calc_delta_nice_0 [OF assms])

text \<open>A buddy is taken when it is not ahead of the leftmost entity by more than its granularity.\<close>

definition close_enough :: "fair_config \<Rightarrow> nat \<Rightarrow> 't fair_rq \<Rightarrow> nat \<Rightarrow> bool" where
  "close_enough G l rq b \<longleftrightarrow>
     (let vdiff = sint (se_vruntime (ents rq b) - se_vruntime (ents rq l))
      in vdiff \<le> 0 \<or> vdiff \<le> sint (fair_scaled (ucast (sysctl_wakeup_granularity G)) (se_load (ents rq l))))"

lemma close_enough_cached [simp]: "close_enough G l (cached a rq) b = close_enough G l rq b"
  by (simp add: close_enough_def)

lemma buddy_fair_Ref:
  assumes "kernel_math_ok K"
  shows "buddy_fair K G (Ref b) (Ref l) rq = Some (close_enough G l rq b,
    if sint (se_vruntime (ents rq b) - se_vruntime (ents rq l)) \<le> 0 then rq else cached l rq)"
  by (simp add: buddy_fair_def wakeup_preempt_entity_def wakeup_gran_def entity_delta_fair_view [OF assms]
      close_enough_def Let_def)

lemma buddy_fair_view:
  assumes "kernel_math_ok K" and "rq' \<in> {rq, cached l rq}"
  obtains rq'' where "buddy_fair K G p (Ref l) rq' = Some ((case p of NULL \<Rightarrow> False | Ref b \<Rightarrow> close_enough G l rq b), rq'')"
    and "rq'' \<in> {rq, cached l rq}"
proof (cases p)
  case NULL
  then show ?thesis using that assms(2) by (simp add: buddy_fair_def)
next
  case (Ref b)
  let ?r = "if sint (se_vruntime (ents rq' b) - se_vruntime (ents rq' l)) \<le> 0 then rq' else cached l rq'"
  have "close_enough G l rq' b = close_enough G l rq b" "?r \<in> {rq, cached l rq}"
    using assms(2) by auto
  then show ?thesis using that [of ?r] Ref buddy_fair_Ref [OF assms(1), of G b l rq'] by simp
qed

lemma pick_next_view:
  assumes "kernel_math_ok K" and "pick_left K cur rq = Ref l"
  obtains s rq' where "pick_next_entity K G cur rq = Some (Ref s, rq')"
    and "s = l \<or> close_enough G l rq s \<and> (Ref s \<in> {cfs_next rq, cfs_last rq} \<or> pick_second K cur l rq = Ref s)"
    and "\<forall>b. cfs_next rq = Ref b \<and> close_enough G l rq b \<longrightarrow> s = b" and "rq' \<in> {rq, cached l rq}"
proof -
  let ?second = "pick_second K cur l rq"
  let ?skip = "if cfs_skip rq = Ref l then buddy_fair K G ?second (Ref l) rq \<bind>
      (\<lambda>(ok, r). Some (if ok then ?second else Ref l, r)) else Some (Ref l, rq)"
  have "\<exists>s r. ?skip = Some (Ref s, r) \<and> (s = l \<or> close_enough G l rq s \<and> ?second = Ref s) \<and> r \<in> {rq, cached l rq}"
  proof (cases "cfs_skip rq = Ref l")
    case True
    obtain r where "buddy_fair K G ?second (Ref l) rq =
        Some ((case ?second of NULL \<Rightarrow> False | Ref b \<Rightarrow> close_enough G l rq b), r)" "r \<in> {rq, cached l rq}"
      by (rule buddy_fair_view [OF assms(1), of rq rq l G ?second]) simp
    then show ?thesis using True by (cases ?second) auto
  qed simp
  then obtain s1 r1 where s1: "?skip = Some (Ref s1, r1)" "s1 = l \<or> close_enough G l rq s1 \<and> ?second = Ref s1"
    "r1 \<in> {rq, cached l rq}" by blast
  obtain r2 where r2: "buddy_fair K G (cfs_next rq) (Ref l) r1 =
      Some ((case cfs_next rq of NULL \<Rightarrow> False | Ref b \<Rightarrow> close_enough G l rq b), r2)" "r2 \<in> {rq, cached l rq}"
    by (rule buddy_fair_view [OF assms(1) s1(3)])
  obtain r3 where r3: "buddy_fair K G (cfs_last rq) (Ref l) r2 =
      Some ((case cfs_last rq of NULL \<Rightarrow> False | Ref b \<Rightarrow> close_enough G l rq b), r3)" "r3 \<in> {rq, cached l rq}"
    by (rule buddy_fair_view [OF assms(1) r2(2)])
  have same: "cfs_next r1 = cfs_next rq" "cfs_next r2 = cfs_next rq" "cfs_last r2 = cfs_last rq"
    "cfs_last r3 = cfs_last rq"
    using s1(3) r2(2) r3(2) by auto
  have pick: "pick_next_entity K G cur rq = buddy_fair K G (cfs_next rq) (Ref l) r1 \<bind>
      (\<lambda>(ok, r). if ok then Some (cfs_next r, r) else buddy_fair K G (cfs_last r) (Ref l) r \<bind>
        (\<lambda>(ok, r). Some (if ok then cfs_last r else Ref s1, r)))"
    unfolding pick_next_entity_def Let_def assms(2) ptr.case s1(1) by (simp add: same(1))
  let ?near = "\<lambda>p. case p of NULL \<Rightarrow> False | Ref b \<Rightarrow> close_enough G l rq b"
  have near: "\<exists>b. p = Ref b \<and> close_enough G l rq b" if "?near p" for p
    using that by (cases p) auto
  show ?thesis
  proof (cases "?near (cfs_next rq)")
    case True
    then obtain b where b: "cfs_next rq = Ref b" "close_enough G l rq b" using near by blast
    have "pick_next_entity K G cur rq = Some (Ref b, r2)"
      using r2(1) b by (simp add: pick same)
    then show ?thesis by (rule that) (use b r2(2) in simp_all)
  next
    case no_next: False
    show ?thesis
    proof (cases "?near (cfs_last rq)")
      case True
      then obtain b where b: "cfs_last rq = Ref b" "close_enough G l rq b" using near by blast
      have "pick_next_entity K G cur rq = Some (Ref b, r3)"
        using r2(1) r3(1) no_next b by (simp add: pick same)
      then show ?thesis by (rule that) (use b no_next r3(2) in auto)
    next
      case False
      have "pick_next_entity K G cur rq = Some (Ref s1, r3)"
        using r2(1) r3(1) no_next False by (simp add: pick same)
      then show ?thesis by (rule that) (use s1(2) no_next r3(2) in auto)
    qed
  qed
qed

text \<open>
  When the timeline or the running entity offers a leftmost entity \<open>l\<close>, \<open>pick_next_entity\<close>
  is defined and its choice is \<open>l\<close>, or a buddy or neighbour whose vruntime is at most one
  wakeup granularity, scaled by the weight of \<open>l\<close>, after that of \<open>l\<close>; no vruntime changes.
  The next buddy is taken whenever it is that close.
\<close>

theorem kernel_pick_fair:
  assumes "kernel_math_ok K" and "pick_left K cur rq = Ref l"
  shows "\<exists>s rq'. pick_next_entity K G cur rq = Some (Ref s, rq') \<and> (s = l \<or> close_enough G l rq s) \<and>
    (\<forall>b. cfs_next rq = Ref b \<and> close_enough G l rq b \<longrightarrow> s = b) \<and>
    (\<forall>a. se_vruntime (ents rq' a) = se_vruntime (ents rq a))"
proof -
  obtain s rq' where "pick_next_entity K G cur rq = Some (Ref s, rq')" "s = l \<or> close_enough G l rq s"
    "\<forall>b. cfs_next rq = Ref b \<and> close_enough G l rq b \<longrightarrow> s = b" and r: "rq' \<in> {rq, cached l rq}"
    by (rule pick_next_view [OF assms, of G]) blast
  moreover have "\<forall>a. se_vruntime (ents rq' a) = se_vruntime (ents rq a)" using r by auto
  ultimately show ?thesis by blast
qed

theorem kernel_pick_fair_witness:
  "\<exists>s rq'. pick_next_entity demo_lib demo_config (Ref 0) demo_fair = Some (Ref s, rq') \<and>
     (s = 1 \<or> close_enough demo_config 1 demo_fair s)"
proof -
  have "pick_left demo_lib (Ref 0) demo_fair = Ref 1"
    by (simp add: pick_left_def pick_first_entity_def before_ptr_def entity_before_def demo_lib_def demo_fair_def
        demo_entity_def Let_def)
  then show ?thesis using kernel_pick_fair [OF demo_lib_ok] by blast
qed

section \<open>No vruntime moves backwards\<close>

lemma max_vruntime_forward: "0 \<le> sint (max_vruntime m v - m)"
  by (simp add: max_vruntime_def Let_def)

text \<open>The charge of the running entity is defined, adds the elapsed time, and never takes \<open>min_vruntime\<close> back.\<close>

lemma update_curr_defined:
  assumes "kernel_math_ok K"
  obtains rq' where "update_curr K now rq = Some rq'"
    and "0 \<le> sint (cfs_min_vruntime rq' - cfs_min_vruntime rq)"
    and "\<And>c. cfs_curr rq = Ref c \<Longrightarrow> 0 < sint (now - exec_start (ents rq c)) \<Longrightarrow>
      exec_start (ents rq' c) = now \<and>
      sum_exec_runtime (ents rq' c) = sum_exec_runtime (ents rq c) + (now - exec_start (ents rq c)) \<and>
      se_vruntime (ents rq' c) = se_vruntime (ents rq c) + fair_scaled (now - exec_start (ents rq c)) (se_load (ents rq c))"
proof (cases "cfs_curr rq")
  case NULL
  then show ?thesis using that [of rq] by (simp add: update_curr_def)
next
  case (Ref c)
  let ?d = "now - exec_start (ents rq c)"
  show ?thesis
  proof (cases "sint ?d \<le> 0")
    case True
    then show ?thesis using that [of rq] Ref by (simp add: update_curr_def Let_def)
  next
    case False
    let ?r1 = "ent_update c (\<lambda>e. e\<lparr>exec_start := now, sum_exec_runtime := sum_exec_runtime e + ?d\<rparr>) rq"
    let ?r2 = "ent_update c (\<lambda>e. e\<lparr>se_vruntime := se_vruntime e + fair_scaled ?d (se_load (ents rq c))\<rparr>) (cached c ?r1)"
    have "update_curr K now rq = Some (update_min_vruntime K ?r2)"
      using False Ref by (simp add: update_curr_def entity_delta_fair_view [OF assms] Let_def ent_update_def)
    moreover have "0 \<le> sint (cfs_min_vruntime (update_min_vruntime K ?r2) - cfs_min_vruntime rq)"
      by (simp add: update_min_vruntime_def Let_def ent_update_def cached_def max_vruntime_forward split: prod.split)
    moreover have "ents (update_min_vruntime K ?r2) c = ents ?r2 c"
      by (simp add: update_min_vruntime_def Let_def split: prod.split)
    ultimately show ?thesis using that [of "update_min_vruntime K ?r2"] Ref
      by (simp add: ent_update_def cached_def)
  qed
qed

text \<open>
  A woken entity keeps a vruntime that is ahead, or is set back by at most one latency from
  \<open>min_vruntime\<close> (half of it with \<open>GENTLE_FAIR_SLEEPERS\<close>).
\<close>

lemma place_entity_woken:
  "place_entity K G a False rq = Some (ent_update a (\<lambda>e. e\<lparr>se_vruntime := max_vruntime (se_vruntime e)
     (cfs_min_vruntime rq - (if GENTLE_FAIR_SLEEPERS G then drop_bit 1 (ucast (sysctl_latency G)) else ucast (sysctl_latency G)))\<rparr>) rq)"
  by (simp add: place_entity_def se_is_idle_def Let_def)

section \<open>Slices\<close>

text \<open>When a part of the load scales a time, no shift is adjusted: the quotient is below 1.\<close>

lemma calc_delta_part:
  assumes K: "kernel_math_ok K" and inv: "inv_ok lw"
    and w: "unat (scale_load_down w) \<le> unat (scale_load_down (lw_weight lw))"
    and W: "unat (scale_load_down (lw_weight lw)) < 4294967295"
  obtains d where "calc_delta K t w lw = Some (d, update_inv_weight lw)"
    and "unat d = unat t * (unat (scale_load_down w) * unat (inv_weight (update_inv_weight lw))) div 4294967296"
    and "unat (scale_load_down (lw_weight lw)) * unat (inv_weight (update_inv_weight lw)) \<le> 4294967295 \<or>
      unat (scale_load_down (lw_weight lw)) = 0"
proof -
  let ?W = "scale_load_down (lw_weight lw)" and ?i = "inv_weight (update_inv_weight lw)" and ?w = "scale_load_down w"
  have big: "\<not> ucast (0xffffffff :: u32) \<le> ?W" using W by (simp add: word_le_nat_alt)
  have i: "unat ?i = (if ?W = 0 then 4294967295 else 4294967295 div unat ?W)"
  proof -
    have "4294967295 div unat ?W < 4294967296" by (rule order_le_less_trans [OF div_le_dividend]) simp
    then show ?thesis using big
      by (simp add: inv_ok_value(1) [OF inv]) (simp add: update_inv_weight_def unat_ucast_u64_u32 unat_div Let_def)
  qed
  have Wi: "unat ?W * unat ?i \<le> 4294967295 \<or> unat ?W = 0"
    using i by (auto simp: unat_eq_0)
  then have wi: "unat ?w * unat ?i \<le> 4294967295"
    using w order_trans [OF mult_le_mono1 [OF w, of "unat ?i"]] by auto
  have hi0: "(ucast (drop_bit 32 x :: u64) :: u32) = 0" if "unat x < 4294967296" for x :: u64
    using that by (simp add: word_unat_eq_iff unat_ucast_u64_u32 unat_shr)
  have w32: "unat ?w < 4294967296" using w W by simp
  let ?f = "k_mul_u32_u32 K (ucast ?w) ?i"
  have "?f = ucast (ucast ?w :: u32) * ucast ?i" using K by (simp only: kernel_math_ok_def)
  moreover have "unat (ucast (ucast ?w :: u32) :: u64) = unat ?w" using w32 by (simp add: unat_ucast_u64_u32)
  ultimately have f: "unat ?f = unat ?w * unat ?i" using wi by (simp add: unat_u64_mult)
  then have f32: "unat ?f < 4294967296" using wi by simp
  have "k_mul_u64_u32_shr K t (ucast ?f) 32 = Some (mul_shr t (ucast (ucast ?f :: u32)) 32)"
    using K by (simp add: kernel_math_ok_def)
  then have c: "calc_delta K t w lw = Some (mul_shr t (ucast (ucast ?f :: u32)) 32, update_inv_weight lw)"
    by (simp add: calc_delta_def fit_fact_def hi0 [OF w32] hi0 [OF f32] Let_def)
  have "unat (ucast (ucast ?f :: u32) :: u64) = unat ?f" using f32 by (simp add: unat_ucast_u64_u32)
  then have "unat (mul_shr t (ucast (ucast ?f :: u32)) 32) = unat t * (unat ?w * unat ?i) div 4294967296"
    using unat_mul_shr_small [of "ucast (ucast ?f :: u32)" 32 t] f f32 by simp
  then show ?thesis using that c Wi by blast
qed

lemma sched_slice_queued:
  assumes "kernel_math_ok K" and "\<not> BASE_SLICE G" and "se_on_rq (ents rq a) \<noteq> 0" and "inv_ok (rq_load rq)"
    and "unat (scale_load_down (lw_weight (se_load (ents rq a)))) \<le> unat (scale_load_down (lw_weight (rq_load rq)))"
    and "unat (scale_load_down (lw_weight (rq_load rq))) < 4294967295"
  obtains s where "sched_slice K G a rq = Some (s, rq\<lparr>rq_load := update_inv_weight (rq_load rq)\<rparr>)"
    and "unat s = unat (sched_period G (ucast (if ALT_PERIOD G then cfs_h_nr_running rq else cfs_nr_running rq))) *
      (unat (scale_load_down (lw_weight (se_load (ents rq a)))) * unat (inv_weight (update_inv_weight (rq_load rq))))
      div 4294967296"
proof -
  let ?p = "sched_period G (ucast (if ALT_PERIOD G then cfs_h_nr_running rq else cfs_nr_running rq))"
  obtain d where d: "calc_delta K ?p (lw_weight (se_load (ents rq a))) (rq_load rq) = Some (d, update_inv_weight (rq_load rq))"
    "unat d = unat ?p * (unat (scale_load_down (lw_weight (se_load (ents rq a)))) *
       unat (inv_weight (update_inv_weight (rq_load rq)))) div 4294967296"
    by (rule calc_delta_part [OF assms(1,4-6), of ?p])
  have "sched_slice K G a rq = Some (d, rq\<lparr>rq_load := update_inv_weight (rq_load rq)\<rparr>)"
    using assms(2,3) d(1) by (simp add: sched_slice_def Let_def)
  then show ?thesis using that d(2) by blast
qed

lemma sum_list_div_le: "sum_list (map (\<lambda>x. p * f x div n) xs) \<le> p * sum_list (map f xs) div (n :: nat)"
proof (induction xs)
  case (Cons x xs)
  have "p * f x div n + p * sum_list (map f xs) div n \<le> (p * f x + p * sum_list (map f xs)) div n"
    by (cases "n = 0") (simp_all add: less_eq_div_iff_mult_less_eq add_mult_distrib add_mono)
  then show ?case using Cons by (simp add: distrib_left)
qed simp

text \<open>
  C31. The slices of one round fit into the period: for queued entities whose weights add up to at
  most the load of the runqueue, \<open>sched_slice\<close> is defined for each of them and the sum of the
  slices is at most \<open>__sched_period\<close> (without the lower bound of \<open>BASE_SLICE\<close>).
\<close>

theorem kernel_slices_fit:
  assumes "kernel_math_ok K" and "\<not> BASE_SLICE G" and "inv_ok (rq_load rq)"
    and "\<forall>a \<in> set as. se_on_rq (ents rq a) \<noteq> 0"
    and "(\<Sum>a\<leftarrow>as. unat (scale_load_down (lw_weight (se_load (ents rq a))))) \<le> unat (scale_load_down (lw_weight (rq_load rq)))"
    and "unat (scale_load_down (lw_weight (rq_load rq))) < 4294967295"
  shows "\<exists>s. (\<forall>a \<in> set as. \<exists>rq'. sched_slice K G a rq = Some (s a, rq')) \<and>
    (\<Sum>a\<leftarrow>as. unat (s a)) \<le> unat (sched_period G (ucast (if ALT_PERIOD G then cfs_h_nr_running rq else cfs_nr_running rq)))"
proof -
  let ?p = "unat (sched_period G (ucast (if ALT_PERIOD G then cfs_h_nr_running rq else cfs_nr_running rq)))"
  let ?w = "\<lambda>a. unat (scale_load_down (lw_weight (se_load (ents rq a))))"
  let ?W = "unat (scale_load_down (lw_weight (rq_load rq)))" and ?i = "unat (inv_weight (update_inv_weight (rq_load rq)))"
  have le: "?w a \<le> ?W" if "a \<in> set as" for a
    using assms(5) member_le_sum_list [of "?w a" "map ?w as"] that by simp
  have ex: "\<exists>s. (\<exists>rq'. sched_slice K G a rq = Some (s, rq')) \<and> unat s = ?p * (?w a * ?i) div 4294967296"
    if "a \<in> set as" for a
    by (rule sched_slice_queued [OF assms(1,2) _ assms(3) le [OF that] assms(6)]) (use that assms(4) in blast)+
  then obtain s where s: "\<forall>a \<in> set as. (\<exists>rq'. sched_slice K G a rq = Some (s a, rq')) \<and>
      unat (s a) = ?p * (?w a * ?i) div 4294967296" by metis
  have "map (\<lambda>a. unat (s a)) as = map (\<lambda>a. ?p * (?w a * ?i) div 4294967296) as" using s by simp
  then have "(\<Sum>a\<leftarrow>as. unat (s a)) \<le> ?p * (\<Sum>a\<leftarrow>as. ?w a * ?i) div 4294967296"
    by (simp only: sum_list_div_le)
  also have "(\<Sum>a\<leftarrow>as. ?w a * ?i) = (\<Sum>a\<leftarrow>as. ?w a) * ?i" by (simp add: sum_list_mult_const)
  also have "?p * ((\<Sum>a\<leftarrow>as. ?w a) * ?i) div 4294967296 \<le> ?p * 4294967296 div 4294967296"
  proof -
    have "?W * ?i \<le> 4294967295 \<or> ?W = 0"
      by (rule calc_delta_part [OF assms(1,3) order_refl assms(6), of 0]) blast
    then have "(\<Sum>a\<leftarrow>as. ?w a) * ?i \<le> 4294967296"
      using order_trans [OF mult_le_mono1 [OF assms(5), of ?i]] assms(5) by auto
    then show ?thesis by (intro div_le_mono mult_le_mono2)
  qed
  also have "\<dots> = ?p" by simp
  finally show ?thesis using s by (intro exI [of _ s] conjI) blast+
qed

theorem kernel_slices_fit_witness:
  "\<exists>s. (\<forall>a \<in> set [0, 1, 2]. \<exists>rq'. sched_slice demo_lib demo_config a demo_fair = Some (s a, rq')) \<and>
     (\<Sum>a\<leftarrow>[0, 1, 2]. unat (s a)) \<le> unat (sched_period demo_config (ucast
       (if ALT_PERIOD demo_config then cfs_h_nr_running demo_fair else cfs_nr_running demo_fair)))"
  by (rule kernel_slices_fit [OF demo_lib_ok])
    (simp_all add: demo_fair_def demo_config_def default_tunables_def demo_entity_def inv_ok_def scale_load_down_def)


end
