(* ===== verification/Kernel_Sched.thy ===== *)
theory Kernel_Sched
  imports Kernel_Fair_Run
begin

text \<open>
  The fair scheduling class of src/apex-cfs/docs/fair.c on top of the vruntime core of
  \<open>Kernel_Fair\<close>: an entity is enqueued and dequeued, becomes and ceases to be the running one;
  a task is forked, woken, put to sleep, ticked, yields and is preempted, and the next one is picked.

  The configuration is that of \<open>Kernel_Fair\<close> on one processor: 64 bits, no CONFIG_SMP, no group
  scheduling and so no bandwidth control, no high-resolution tick, no core scheduling, no
  schedstats. There \<open>for_each_sched_entity\<close> visits the entity alone, a task and its entity are
  named by one address, \<open>update_load_avg\<close> only tells the frequency governor, and
  \<open>newidle_balance\<close> finds nothing. \<open>now\<close> is the reading of the task clock of the runqueue.
  \<open>resched_curr\<close>, from another file of the kernel, marks the running task; the mark is
  \<open>need_resched\<close>.
\<close>

section \<open>State\<close>

datatype policy = SCHED_NORMAL | SCHED_BATCH | SCHED_IDLE

record 't sched_rq =
  cfs :: "'t fair_rq"
  idle_h_nr_running :: u32
  rq_nr_running :: u32
  rq_curr :: nat
  rq_idle :: nat
  next_balance :: u64
  need_resched :: bool
  policies :: "nat \<Rightarrow> policy"

record 't class_env =
  lib :: "'t kernel_lib"
  conf :: fair_config
  NEXT_BUDDY :: bool
  LAST_BUDDY :: bool
  WAKEUP_PREEMPTION :: bool
  child_runs_first :: u32

abbreviation (input) DEQUEUE_SLEEP :: u32 where "DEQUEUE_SLEEP \<equiv> 0x01"
abbreviation (input) DEQUEUE_SAVE :: u32 where "DEQUEUE_SAVE \<equiv> 0x02"
abbreviation (input) DEQUEUE_MOVE :: u32 where "DEQUEUE_MOVE \<equiv> 0x04"
abbreviation (input) ENQUEUE_WAKEUP :: u32 where "ENQUEUE_WAKEUP \<equiv> 0x01"
abbreviation (input) ENQUEUE_MIGRATED :: u32 where "ENQUEUE_MIGRATED \<equiv> 0x00"
abbreviation (input) WF_FORK :: u32 where "WF_FORK \<equiv> 0x04"

definition resched_curr :: "'t sched_rq \<Rightarrow> 't sched_rq" where
  "resched_curr rq = rq\<lparr>need_resched := True\<rparr>"

definition task_has_idle_policy :: "'t sched_rq \<Rightarrow> nat \<Rightarrow> bool" where
  "task_has_idle_policy rq p \<longleftrightarrow> policies rq p = SCHED_IDLE"

definition sched_idle_rq :: "'t sched_rq \<Rightarrow> bool" where
  "sched_idle_rq rq \<longleftrightarrow> rq_nr_running rq = idle_h_nr_running rq \<and> rq_nr_running rq \<noteq> 0"

section \<open>Entities\<close>

definition init_cfs_rq :: "'t \<Rightarrow> 't fair_rq \<Rightarrow> 't fair_rq" where
  "init_cfs_rq rb_root rq = rq\<lparr>timeline := rb_root, cfs_min_vruntime := - 1048576\<rparr>"

definition account_entity_enqueue :: "nat \<Rightarrow> 't fair_rq \<Rightarrow> 't fair_rq" where
  "account_entity_enqueue se rq =
     (let rq = rq\<lparr>rq_load := update_load_add (rq_load rq) (lw_weight (se_load (ents rq se)))\<rparr>;
          rq = rq\<lparr>cfs_nr_running := cfs_nr_running rq + 1\<rparr>
      in if se_is_idle se then rq\<lparr>cfs_idle_nr_running := cfs_idle_nr_running rq + 1\<rparr> else rq)"

definition account_entity_dequeue :: "nat \<Rightarrow> 't fair_rq \<Rightarrow> 't fair_rq" where
  "account_entity_dequeue se rq =
     (let rq = rq\<lparr>rq_load := update_load_sub (rq_load rq) (lw_weight (se_load (ents rq se)))\<rparr>;
          rq = rq\<lparr>cfs_nr_running := cfs_nr_running rq - 1\<rparr>
      in if se_is_idle se then rq\<lparr>cfs_idle_nr_running := cfs_idle_nr_running rq - 1\<rparr> else rq)"

definition add_vruntime :: "nat \<Rightarrow> u64 \<Rightarrow> 't fair_rq \<Rightarrow> 't fair_rq" where
  "add_vruntime se d rq = ent_update se (\<lambda>e. e\<lparr>se_vruntime := se_vruntime e + d\<rparr>) rq"

definition enqueue_entity_fair ::
  "'t kernel_lib \<Rightarrow> fair_config \<Rightarrow> u64 \<Rightarrow> nat \<Rightarrow> u32 \<Rightarrow> 't fair_rq \<Rightarrow> 't fair_rq option" where
  "enqueue_entity_fair K G now se flags rq = do {
     let renorm = (flags AND ENQUEUE_WAKEUP = 0 \<or> flags AND ENQUEUE_MIGRATED \<noteq> 0);
     let cur = (cfs_curr rq = Ref se);
     let rq = (if renorm \<and> cur then add_vruntime se (cfs_min_vruntime rq) rq else rq);
     rq \<leftarrow> update_curr K now rq;
     let rq = (if renorm \<and> \<not> cur then add_vruntime se (cfs_min_vruntime rq) rq else rq);
     let rq = account_entity_enqueue se rq;
     rq \<leftarrow> (if flags AND ENQUEUE_WAKEUP \<noteq> 0 then place_entity K G se False rq else Some rq);
     let rq = (if \<not> cur then enqueue_entity K se rq else rq);
     Some (ent_update se (\<lambda>e. e\<lparr>se_on_rq := 1\<rparr>) rq)
   }"

definition dequeue_entity_fair ::
  "'t kernel_lib \<Rightarrow> u64 \<Rightarrow> nat \<Rightarrow> u32 \<Rightarrow> 't fair_rq \<Rightarrow> 't fair_rq option" where
  "dequeue_entity_fair K now se flags rq = do {
     rq \<leftarrow> update_curr K now rq;
     let rq = clear_buddies se rq;
     let rq = (if cfs_curr rq \<noteq> Ref se then dequeue_entity K se rq else rq);
     let rq = ent_update se (\<lambda>e. e\<lparr>se_on_rq := 0\<rparr>) rq;
     let rq = account_entity_dequeue se rq;
     let rq = (if flags AND DEQUEUE_SLEEP = 0 then add_vruntime se (- cfs_min_vruntime rq) rq else rq);
     Some (if flags AND (DEQUEUE_SAVE OR DEQUEUE_MOVE) \<noteq> DEQUEUE_SAVE then update_min_vruntime K rq else rq)
   }"

definition update_stats_curr_start :: "u64 \<Rightarrow> nat \<Rightarrow> 't fair_rq \<Rightarrow> 't fair_rq" where
  "update_stats_curr_start now se rq = ent_update se (\<lambda>e. e\<lparr>exec_start := now\<rparr>) rq"

definition set_next_entity :: "'t kernel_lib \<Rightarrow> u64 \<Rightarrow> nat \<Rightarrow> 't fair_rq \<Rightarrow> 't fair_rq" where
  "set_next_entity K now se rq =
     (let rq = clear_buddies se rq;
          rq = (if se_on_rq (ents rq se) \<noteq> 0 then dequeue_entity K se rq else rq);
          rq = update_stats_curr_start now se rq;
          rq = rq\<lparr>cfs_curr := Ref se\<rparr>
      in ent_update se (\<lambda>e. e\<lparr>prev_sum_exec_runtime := sum_exec_runtime e\<rparr>) rq)"

definition put_prev_entity :: "'t kernel_lib \<Rightarrow> u64 \<Rightarrow> nat \<Rightarrow> 't fair_rq \<Rightarrow> 't fair_rq option" where
  "put_prev_entity K now prev rq = do {
     rq \<leftarrow> (if se_on_rq (ents rq prev) \<noteq> 0 then update_curr K now rq else Some rq);
     let rq = (if se_on_rq (ents rq prev) \<noteq> 0 then enqueue_entity K prev rq else rq);
     Some (rq\<lparr>cfs_curr := NULL\<rparr>)
   }"

text \<open>The first component says whether \<open>resched_curr\<close> was called.\<close>

definition entity_tick ::
  "'t kernel_lib \<Rightarrow> fair_config \<Rightarrow> u64 \<Rightarrow> nat \<Rightarrow> 't fair_rq \<Rightarrow> (bool \<times> 't fair_rq) option" where
  "entity_tick K G now cur rq = do {
     rq \<leftarrow> update_curr K now rq;
     if 1 < cfs_nr_running rq then check_preempt_tick K G cur rq else Some (False, rq)
   }"

definition reweight_entity :: "'t kernel_lib \<Rightarrow> u64 \<Rightarrow> nat \<Rightarrow> u64 \<Rightarrow> 't fair_rq \<Rightarrow> 't fair_rq option" where
  "reweight_entity K now se w rq = do {
     rq \<leftarrow> (if se_on_rq (ents rq se) \<noteq> 0
            then do {
              rq \<leftarrow> (if cfs_curr rq = Ref se then update_curr K now rq else Some rq);
              Some (rq\<lparr>rq_load := update_load_sub (rq_load rq) (lw_weight (se_load (ents rq se)))\<rparr>)
            } else Some rq);
     let rq = ent_update se (\<lambda>e. e\<lparr>se_load := update_load_set (se_load e) w\<rparr>) rq;
     Some (if se_on_rq (ents rq se) \<noteq> 0
           then rq\<lparr>rq_load := update_load_add (rq_load rq) (lw_weight (se_load (ents rq se)))\<rparr> else rq)
   }"

text \<open>The tables \<open>sched_prio_to_weight\<close> and \<open>sched_prio_to_wmult\<close> are in another file of the kernel.\<close>

definition reweight_task ::
  "'t kernel_lib \<Rightarrow> u64 \<Rightarrow> (nat \<Rightarrow> u64) \<Rightarrow> (nat \<Rightarrow> u32) \<Rightarrow> nat \<Rightarrow> nat \<Rightarrow> 't fair_rq \<Rightarrow> 't fair_rq option" where
  "reweight_task K now prio_to_weight prio_to_wmult p prio rq = do {
     rq \<leftarrow> reweight_entity K now p (scale_load (prio_to_weight prio)) rq;
     Some (ent_update p (\<lambda>e. e\<lparr>se_load := (se_load e)\<lparr>inv_weight := prio_to_wmult prio\<rparr>\<rparr>) rq)
   }"

definition set_last_buddy :: "nat \<Rightarrow> 't fair_rq \<Rightarrow> 't fair_rq" where
  "set_last_buddy se rq =
     (if se_on_rq (ents rq se) = 0 then rq else if se_is_idle se then rq else rq\<lparr>cfs_last := Ref se\<rparr>)"

definition set_next_buddy :: "nat \<Rightarrow> 't fair_rq \<Rightarrow> 't fair_rq" where
  "set_next_buddy se rq =
     (if se_on_rq (ents rq se) = 0 then rq else if se_is_idle se then rq else rq\<lparr>cfs_next := Ref se\<rparr>)"

definition set_skip_buddy :: "nat \<Rightarrow> 't fair_rq \<Rightarrow> 't fair_rq" where
  "set_skip_buddy se rq = rq\<lparr>cfs_skip := Ref se\<rparr>"

section \<open>Tasks\<close>

definition on_cfs :: "('t fair_rq \<Rightarrow> 't fair_rq) \<Rightarrow> 't sched_rq \<Rightarrow> 't sched_rq" where
  "on_cfs f rq = rq\<lparr>cfs := f (cfs rq)\<rparr>"

definition on_cfs_opt :: "('t fair_rq \<Rightarrow> 't fair_rq option) \<Rightarrow> 't sched_rq \<Rightarrow> 't sched_rq option" where
  "on_cfs_opt f rq = do { c \<leftarrow> f (cfs rq); Some (rq\<lparr>cfs := c\<rparr>) }"

definition count_enqueued :: "nat \<Rightarrow> 't sched_rq \<Rightarrow> 't sched_rq" where
  "count_enqueued p rq =
     (let rq = on_cfs (\<lambda>c. c\<lparr>cfs_h_nr_running := cfs_h_nr_running c + 1\<rparr>) rq
      in rq\<lparr>idle_h_nr_running := idle_h_nr_running rq + (if task_has_idle_policy rq p then 1 else 0)\<rparr>)"

definition count_dequeued :: "nat \<Rightarrow> 't sched_rq \<Rightarrow> 't sched_rq" where
  "count_dequeued p rq =
     (let rq = on_cfs (\<lambda>c. c\<lparr>cfs_h_nr_running := cfs_h_nr_running c - 1\<rparr>) rq
      in rq\<lparr>idle_h_nr_running := idle_h_nr_running rq - (if task_has_idle_policy rq p then 1 else 0)\<rparr>)"

text \<open>
  An entity that is on the runqueue already is left to the second loop of the code, which counts it
  as well.
\<close>

definition enqueue_task_fair :: "'t class_env \<Rightarrow> u64 \<Rightarrow> nat \<Rightarrow> u32 \<Rightarrow> 't sched_rq \<Rightarrow> 't sched_rq option" where
  "enqueue_task_fair E now p flags rq = do {
     rq \<leftarrow> (if se_on_rq (ents (cfs rq) p) \<noteq> 0 then Some rq
            else on_cfs_opt (enqueue_entity_fair (lib E) (conf E) now p flags) rq);
     let rq = count_enqueued p rq;
     Some (rq\<lparr>rq_nr_running := rq_nr_running rq + 1\<rparr>)
   }"

definition dequeue_task_fair :: "'t class_env \<Rightarrow> u64 \<Rightarrow> u64 \<Rightarrow> nat \<Rightarrow> u32 \<Rightarrow> 't sched_rq \<Rightarrow> 't sched_rq option" where
  "dequeue_task_fair E now jiffies p flags rq = do {
     let was_sched_idle = sched_idle_rq rq;
     rq \<leftarrow> on_cfs_opt (dequeue_entity_fair (lib E) now p flags) rq;
     let rq = count_dequeued p rq;
     let rq = rq\<lparr>rq_nr_running := rq_nr_running rq - 1\<rparr>;
     Some (if \<not> was_sched_idle \<and> sched_idle_rq rq then rq\<lparr>next_balance := jiffies\<rparr> else rq)
   }"

definition check_preempt_wakeup :: "'t class_env \<Rightarrow> u64 \<Rightarrow> nat \<Rightarrow> u32 \<Rightarrow> 't sched_rq \<Rightarrow> 't sched_rq option" where
  "check_preempt_wakeup E now p wake_flags rq =
     (let se = rq_curr rq;
          scale = (sched_nr_latency (conf E) \<le> cfs_nr_running (cfs rq));
          preempt = (\<lambda>rq.
            let rq = resched_curr rq in
            if se_on_rq (ents (cfs rq) se) = 0 \<or> rq_curr rq = rq_idle rq then rq
            else if LAST_BUDDY E \<and> scale then on_cfs (set_last_buddy se) rq else rq)
      in
        if se = p then Some rq
        else
          let next_buddy_marked = (NEXT_BUDDY E \<and> scale \<and> wake_flags AND WF_FORK = 0);
              rq = (if next_buddy_marked then on_cfs (set_next_buddy p) rq else rq)
          in
            if need_resched rq then Some rq
            else if task_has_idle_policy rq se \<and> \<not> task_has_idle_policy rq p then Some (preempt rq)
            else if policies rq p \<noteq> SCHED_NORMAL \<or> \<not> WAKEUP_PREEMPTION E then Some rq
            else if se_is_idle se \<and> \<not> se_is_idle p then Some (preempt rq)
            else if se_is_idle se \<noteq> se_is_idle p then Some rq
            else do {
              rq \<leftarrow> on_cfs_opt (update_curr (lib E) now) rq;
              (r, c) \<leftarrow> wakeup_preempt_entity (lib E) (conf E) se p (cfs rq);
              let rq = rq\<lparr>cfs := c\<rparr>;
              if r = 1
              then let rq = (if \<not> next_buddy_marked then on_cfs (set_next_buddy p) rq else rq)
                in Some (preempt rq)
              else Some rq
            })"

definition put_prev_task_fair :: "'t class_env \<Rightarrow> u64 \<Rightarrow> nat \<Rightarrow> 't sched_rq \<Rightarrow> 't sched_rq option" where
  "put_prev_task_fair E now prev rq = on_cfs_opt (put_prev_entity (lib E) now prev) rq"

text \<open>
  \<open>prev\<close> is NULL or the fair task that ran; a task of another class is put back by its class,
  before. The first component is the task to run, NULL when there is none.
\<close>

definition pick_next_task_fair ::
  "'t class_env \<Rightarrow> u64 \<Rightarrow> nat ptr \<Rightarrow> 't sched_rq \<Rightarrow> (nat ptr \<times> 't sched_rq) option" where
  "pick_next_task_fair E now prev rq =
     (if cfs_nr_running (cfs rq) = 0 then Some (NULL, rq)
      else do {
        rq \<leftarrow> (case prev of NULL \<Rightarrow> Some rq | Ref q \<Rightarrow> put_prev_task_fair E now q rq);
        (s, c) \<leftarrow> pick_next_entity (lib E) (conf E) NULL (cfs rq);
        se \<leftarrow> c_deref s;
        let c = set_next_entity (lib E) now se c;
        Some (Ref se, rq\<lparr>cfs := c\<rparr>)
      })"

definition set_next_task_fair :: "'t class_env \<Rightarrow> u64 \<Rightarrow> nat \<Rightarrow> 't sched_rq \<Rightarrow> 't sched_rq" where
  "set_next_task_fair E now p rq = on_cfs (set_next_entity (lib E) now p) rq"

definition yield_task_fair :: "'t class_env \<Rightarrow> u64 \<Rightarrow> 't sched_rq \<Rightarrow> 't sched_rq option" where
  "yield_task_fair E now rq =
     (let se = rq_curr rq in
      if rq_nr_running rq = 1 then Some rq
      else do {
        let rq = on_cfs (clear_buddies se) rq;
        rq \<leftarrow> (if policies rq se \<noteq> SCHED_BATCH then on_cfs_opt (update_curr (lib E) now) rq else Some rq);
        Some (on_cfs (set_skip_buddy se) rq)
      })"

definition yield_to_task_fair :: "'t class_env \<Rightarrow> u64 \<Rightarrow> nat \<Rightarrow> 't sched_rq \<Rightarrow> (bool \<times> 't sched_rq) option" where
  "yield_to_task_fair E now p rq =
     (if se_on_rq (ents (cfs rq) p) = 0 then Some (False, rq)
      else do {
        let rq = on_cfs (set_next_buddy p) rq;
        rq \<leftarrow> yield_task_fair E now rq;
        Some (True, rq)
      })"

definition task_tick_fair :: "'t class_env \<Rightarrow> u64 \<Rightarrow> nat \<Rightarrow> 't sched_rq \<Rightarrow> 't sched_rq option" where
  "task_tick_fair E now cur rq = do {
     (resched, c) \<leftarrow> entity_tick (lib E) (conf E) now cur (cfs rq);
     let rq = rq\<lparr>cfs := c\<rparr>;
     Some (if resched then resched_curr rq else rq)
   }"

text \<open>\<open>swap\<close> of the vruntimes of two entities.\<close>

definition swap_vruntimes :: "nat \<Rightarrow> nat \<Rightarrow> 't fair_rq \<Rightarrow> 't fair_rq" where
  "swap_vruntimes a b c =
     (let va = se_vruntime (ents c a); vb = se_vruntime (ents c b)
      in ent_update b (\<lambda>e. e\<lparr>se_vruntime := va\<rparr>) (ent_update a (\<lambda>e. e\<lparr>se_vruntime := vb\<rparr>) c))"

definition task_fork_fair :: "'t class_env \<Rightarrow> u64 \<Rightarrow> nat \<Rightarrow> 't sched_rq \<Rightarrow> 't sched_rq option" where
  "task_fork_fair E now se rq = do {
     let cur = cfs_curr (cfs rq);
     c \<leftarrow> (case cur of
             NULL \<Rightarrow> Some (cfs rq)
           | Ref a \<Rightarrow> do {
               c \<leftarrow> update_curr (lib E) now (cfs rq);
               Some (ent_update se (\<lambda>e. e\<lparr>se_vruntime := se_vruntime (ents c a)\<rparr>) c)
             });
     c \<leftarrow> place_entity (lib E) (conf E) se True c;
     let (resched, c) =
       (case cur of
          NULL \<Rightarrow> (False, c)
        | Ref a \<Rightarrow>
            if child_runs_first E \<noteq> 0 \<and> entity_before (ents c a) (ents c se)
            then (True, swap_vruntimes a se c)
            else (False, c));
     let rq = (if resched then resched_curr rq else rq);
     Some (rq\<lparr>cfs := add_vruntime se (- cfs_min_vruntime c) c\<rparr>)
   }"

text \<open>
  \<open>on_rq\<close> of the task, and whether it is being woken from another processor, are in
  \<open>task_struct\<close>.
\<close>

definition vruntime_normalized :: "bool \<Rightarrow> bool \<Rightarrow> fair_entity \<Rightarrow> bool" where
  "vruntime_normalized p_on_rq waking_remotely se \<longleftrightarrow>
     (if p_on_rq then True else sum_exec_runtime se = 0 \<or> waking_remotely)"

definition detach_task_cfs_rq ::
  "'t class_env \<Rightarrow> bool \<Rightarrow> bool \<Rightarrow> nat \<Rightarrow> 't fair_rq \<Rightarrow> 't fair_rq option" where
  "detach_task_cfs_rq E p_on_rq waking_remotely p c =
     (if \<not> vruntime_normalized p_on_rq waking_remotely (ents c p)
      then do {
        c \<leftarrow> place_entity (lib E) (conf E) p False c;
        Some (add_vruntime p (- cfs_min_vruntime c) c)
      } else Some c)"

definition attach_task_cfs_rq :: "bool \<Rightarrow> bool \<Rightarrow> nat \<Rightarrow> 't fair_rq \<Rightarrow> 't fair_rq" where
  "attach_task_cfs_rq p_on_rq waking_remotely p c =
     (if \<not> vruntime_normalized p_on_rq waking_remotely (ents c p)
      then add_vruntime p (cfs_min_vruntime c) c else c)"

end
