(* ===== verification/Kernel_Sched_Queue.thy ===== *)
theory Kernel_Sched_Queue
  imports Kernel_Sched
begin

text \<open>
  The books of a fair runqueue: which entities are on it, its counters and total weight, its
  timeline and its buddies. The invariant \<open>queue_ok\<close> says that they agree. Most operations are
  calm, they change neither the books nor a vruntime in the tree; the others link an entity,
  unlink one, or move the running one out of the tree and back.
\<close>

section \<open>The tree\<close>

text \<open>
  What lib/rbtree.c promises, for a tree seen as the list \<open>ord\<close> of its nodes in order: the first
  node is the first of the list, the next node follows in the list, erasing takes a node out of
  the list, and \<open>rb_add_cached\<close>, which goes left where the new node is lt and right
  elsewhere, ends up behind a node the new one is not less than and before one it is less than.
\<close>

definition rb_ok :: "'t kernel_lib \<Rightarrow> ('t \<Rightarrow> nat list) \<Rightarrow> bool" where
  "rb_ok K ord \<longleftrightarrow>
     (\<forall>t. k_rb_first K t = (case ord t of [] \<Rightarrow> NULL | a # _ \<Rightarrow> Ref a)) \<and>
     (\<forall>t a. a \<in> set (ord t) \<longrightarrow>
        k_rb_next K t a = (case dropWhile (\<lambda>b. b \<noteq> a) (ord t) of _ # b # _ \<Rightarrow> Ref b | _ \<Rightarrow> NULL)) \<and>
     (\<forall>t a. a \<in> set (ord t) \<longrightarrow> ord (k_rb_erase K a t) = remove1 a (ord t)) \<and>
     (\<forall>t a lt. \<exists>xs ys. ord t = xs @ ys \<and> ord (k_rb_add K lt a t) = xs @ a # ys \<and>
        (xs \<noteq> [] \<longrightarrow> \<not> lt a (last xs)) \<and> (ys \<noteq> [] \<longrightarrow> lt a (hd ys)))"

lemma demo_lib_rb: "rb_ok demo_lib (\<lambda>t. t)"
proof -
  have "\<exists>xs ys. t = xs @ ys \<and> k_rb_add demo_lib lt a t = xs @ a # ys \<and>
      (xs \<noteq> [] \<longrightarrow> \<not> lt a (last xs)) \<and> (ys \<noteq> [] \<longrightarrow> lt a (hd ys))" for t a lt
  proof (intro exI conjI impI)
    show "t = takeWhile (\<lambda>b. \<not> lt a b) t @ dropWhile (\<lambda>b. \<not> lt a b) t" by simp
    show "k_rb_add demo_lib lt a t = takeWhile (\<lambda>b. \<not> lt a b) t @ a # dropWhile (\<lambda>b. \<not> lt a b) t"
      by (simp add: demo_lib_def)
    show "\<not> lt a (last (takeWhile (\<lambda>b. \<not> lt a b) t))" if "takeWhile (\<lambda>b. \<not> lt a b) t \<noteq> []"
      using set_takeWhileD [OF last_in_set [OF that]] by simp
    show "lt a (hd (dropWhile (\<lambda>b. \<not> lt a b) t))" if "dropWhile (\<lambda>b. \<not> lt a b) t \<noteq> []"
      using hd_dropWhile [OF that] by simp
  qed
  then show ?thesis
    unfolding rb_ok_def by (auto simp: demo_lib_def split: list.split)
qed

lemma rb_first: "rb_ok K ord \<Longrightarrow> k_rb_first K t = (case ord t of [] \<Rightarrow> NULL | a # _ \<Rightarrow> Ref a)"
  by (simp add: rb_ok_def)

lemma rb_erase: "rb_ok K ord \<Longrightarrow> a \<in> set (ord t) \<Longrightarrow> ord (k_rb_erase K a t) = remove1 a (ord t)"
  by (simp add: rb_ok_def)

lemma rb_add:
  assumes "rb_ok K ord"
  obtains xs ys where "ord t = xs @ ys" and "ord (k_rb_add K lt a t) = xs @ a # ys"
    and "xs \<noteq> [] \<Longrightarrow> \<not> lt a (last xs)" and "ys \<noteq> [] \<Longrightarrow> lt a (hd ys)"
proof -
  have "\<exists>xs ys. ord t = xs @ ys \<and> ord (k_rb_add K lt a t) = xs @ a # ys \<and>
      (xs \<noteq> [] \<longrightarrow> \<not> lt a (last xs)) \<and> (ys \<noteq> [] \<longrightarrow> lt a (hd ys))"
    using assms unfolding rb_ok_def by (elim conjE) (erule allE)+
  then show ?thesis using that by blast
qed

lemma rb_next_in:
  assumes "rb_ok K ord" and "a \<in> set (ord t)" and "k_rb_next K t a = Ref b"
  shows "b \<in> set (ord t)"
proof -
  obtain x ys where "dropWhile (\<lambda>b. b \<noteq> a) (ord t) = x # b # ys"
    using assms by (auto simp: rb_ok_def split: list.splits)
  then show ?thesis by (metis list.set_intros(1) set_dropWhileD set_subset_Cons subset_iff)
qed

section \<open>What is on a runqueue\<close>

definition queued :: "'t fair_rq \<Rightarrow> nat set" where
  "queued rq = {a. se_on_rq (ents rq a) \<noteq> 0}"

abbreviation se_weight :: "'t fair_rq \<Rightarrow> nat \<Rightarrow> nat" where
  "se_weight rq a \<equiv> unat (lw_weight (se_load (ents rq a)))"

text \<open>
  The books of a runqueue. The total weight is below \<open>2 ^ 42 - 2 ^ 10\<close>, so the weight
  \<open>__calc_delta\<close> divides by fits 32 bits.
\<close>

abbreviation (input) max_load :: nat where "max_load \<equiv> 4294967295 * 1024"

definition buddies_ok :: "'t fair_rq \<Rightarrow> bool" where
  "buddies_ok rq \<longleftrightarrow> (\<forall>b. Ref b \<in> {cfs_next rq, cfs_last rq, cfs_skip rq} \<longrightarrow> b \<in> queued rq)"

definition queue_ok :: "('t \<Rightarrow> nat list) \<Rightarrow> 't fair_rq \<Rightarrow> bool" where
  "queue_ok ord rq \<longleftrightarrow> finite (queued rq) \<and> card (queued rq) < 2 ^ 32 \<and>
     cfs_nr_running rq = of_nat (card (queued rq)) \<and>
     (\<Sum>a\<in>queued rq. se_weight rq a) < max_load \<and>
     unat (lw_weight (rq_load rq)) = (\<Sum>a\<in>queued rq. se_weight rq a) \<and> inv_ok (rq_load rq) \<and>
     distinct (ord (timeline rq)) \<and>
     set (ord (timeline rq)) = queued rq - {a. cfs_curr rq = Ref a} \<and> buddies_ok rq"

text \<open>The timeline is sorted by the wrapping order of vruntimes.\<close>

definition tl_sorted :: "('t \<Rightarrow> nat list) \<Rightarrow> 't fair_rq \<Rightarrow> bool" where
  "tl_sorted ord rq \<longleftrightarrow> sorted_wrt (\<lambda>a b. \<not> entity_less rq b a) (ord (timeline rq))"

text \<open>The vruntimes on a runqueue lie close enough together for the order to be one.\<close>

definition in_span :: "'t fair_rq \<Rightarrow> bool" where
  "in_span rq \<longleftrightarrow> (\<exists>m. \<forall>a\<in>queued rq. unat (se_vruntime (ents rq a) - m) < 2 ^ 62)"

text \<open>Operations that leave the books alone.\<close>

definition same_books :: "'t fair_rq \<Rightarrow> 't fair_rq \<Rightarrow> bool" where
  "same_books rq rq' \<longleftrightarrow>
     (\<forall>a. se_on_rq (ents rq' a) = se_on_rq (ents rq a) \<and>
          lw_weight (se_load (ents rq' a)) = lw_weight (se_load (ents rq a))) \<and>
     cfs_nr_running rq' = cfs_nr_running rq \<and> cfs_h_nr_running rq' = cfs_h_nr_running rq \<and>
     lw_weight (rq_load rq') = lw_weight (rq_load rq) \<and> (inv_ok (rq_load rq) \<longrightarrow> inv_ok (rq_load rq')) \<and>
     timeline rq' = timeline rq \<and> cfs_curr rq' = cfs_curr rq \<and>
     (\<forall>b. Ref b \<in> {cfs_next rq', cfs_last rq', cfs_skip rq'} \<longrightarrow>
        Ref b \<in> {cfs_next rq, cfs_last rq, cfs_skip rq} \<or> b \<in> queued rq)"

lemma same_books_refl [simp]: "same_books rq rq"
  by (simp add: same_books_def)

lemma same_books_queued: "same_books rq rq' \<Longrightarrow> queued rq' = queued rq"
  by (simp add: same_books_def queued_def)

lemma same_books_trans:
  assumes "same_books a b" and "same_books b c"
  shows "same_books a c"
proof -
  have "\<forall>x. Ref x \<in> {cfs_next c, cfs_last c, cfs_skip c} \<longrightarrow>
      Ref x \<in> {cfs_next a, cfs_last a, cfs_skip a} \<or> x \<in> queued a"
    using assms same_books_queued [OF assms(1)] unfolding same_books_def by blast
  then show ?thesis
    using assms unfolding same_books_def by auto
qed

lemma same_books_ok:
  assumes "same_books rq rq'" and "queue_ok ord rq"
  shows "queue_ok ord rq'"
proof -
  have "buddies_ok rq'"
    using assms same_books_queued [OF assms(1)] unfolding same_books_def queue_ok_def buddies_ok_def by blast
  then show ?thesis
    using assms same_books_queued [OF assms(1)] by (simp add: queue_ok_def same_books_def)
qed

lemma same_books_sorted:
  assumes "same_books rq rq'" and "tl_sorted ord rq"
    and "\<And>a. a \<in> set (ord (timeline rq)) \<Longrightarrow> se_vruntime (ents rq' a) = se_vruntime (ents rq a)"
  shows "tl_sorted ord rq'"
proof -
  have "timeline rq' = timeline rq" using assms(1) by (simp add: same_books_def)
  then show ?thesis
    using assms(2,3) unfolding tl_sorted_def
    by (auto simp: entity_less_def entity_before_def intro: sorted_wrt_mono_rel [rotated])
qed

lemma update_min_vruntime_frame: "\<exists>v. update_min_vruntime K rq = rq\<lparr>cfs_min_vruntime := v\<rparr>"
  by (auto simp: update_min_vruntime_def Let_def split: prod.split)

lemma same_books_min [simp]: "same_books rq (rq\<lparr>cfs_min_vruntime := v\<rparr>)"
  by (simp add: same_books_def)

lemma same_books_update_min [simp]: "same_books rq (update_min_vruntime K rq)"
  using update_min_vruntime_frame [of K rq] by auto

lemma ents_update_min [simp]: "ents (update_min_vruntime K rq) = ents rq"
  using update_min_vruntime_frame [of K rq] by auto

lemma same_books_cached [simp]: "same_books rq (cached a rq)"
  by (simp add: same_books_def cached_def ent_update_def)

lemma same_books_ent:
  assumes "\<And>e. se_on_rq (f e) = se_on_rq e" and "\<And>e. lw_weight (se_load (f e)) = lw_weight (se_load e)"
  shows "same_books rq (ent_update a f rq)"
  using assms by (simp add: same_books_def ent_update_def)

lemma ents_ent_update: "ents (ent_update a f rq) = (ents rq)(a := f (ents rq a))"
  by (simp add: ent_update_def)

lemma ents_cached: "b \<noteq> a \<Longrightarrow> ents (cached a rq) b = ents rq b"
  by (simp add: cached_def ent_update_def)

text \<open>Charging the running entity is defined, leaves the books alone and touches nobody else.\<close>

lemma update_curr_books:
  assumes "kernel_math_ok K"
  obtains rq' where "update_curr K now rq = Some rq'" and "same_books rq rq'"
    and "\<And>a. cfs_curr rq \<noteq> Ref a \<Longrightarrow> ents rq' a = ents rq a"
proof (cases "cfs_curr rq")
  case NULL
  then show ?thesis using that [of rq] by (simp add: update_curr_def)
next
  case (Ref c)
  let ?d = "now - exec_start (ents rq c)"
  show ?thesis
  proof (cases "sint ?d \<le> 0")
    case True
    then show ?thesis using that [of rq] Ref by (simp add: update_curr_def Let_def)
  next
    case False
    let ?r1 = "ent_update c (\<lambda>e. e\<lparr>exec_start := now, sum_exec_runtime := sum_exec_runtime e + ?d\<rparr>) rq"
    let ?r2 = "ent_update c (\<lambda>e. e\<lparr>se_vruntime := se_vruntime e + fair_scaled ?d (se_load (ents rq c))\<rparr>) (cached c ?r1)"
    have eq: "update_curr K now rq = Some (update_min_vruntime K ?r2)"
      using False Ref by (simp add: update_curr_def entity_delta_fair_view [OF assms] Let_def ent_update_def)
    have "same_books rq ?r1" "same_books (cached c ?r1) ?r2"
      by (rule same_books_ent; simp)+
    then have "same_books rq (update_min_vruntime K ?r2)"
      by (meson same_books_cached same_books_trans same_books_update_min)
    moreover have "ents (update_min_vruntime K ?r2) a = ents rq a" if "cfs_curr rq \<noteq> Ref a" for a
      using that Ref by (simp add: ents_ent_update ents_cached)
    ultimately show ?thesis using that eq by blast
  qed
qed

section \<open>Into the tree and out of it\<close>

lemma entity_less_key:
  assumes "unat (se_vruntime (ents rq a) - m) < 2 ^ 62" and "unat (se_vruntime (ents rq b) - m) < 2 ^ 62"
  shows "entity_less rq a b \<longleftrightarrow> unat (se_vruntime (ents rq a) - m) < unat (se_vruntime (ents rq b) - m)"
  using sint_window_neg [OF assms] by (simp add: entity_less_def entity_before_def)

lemma tl_sorted_key:
  assumes "\<forall>a\<in>set (ord (timeline rq)). unat (se_vruntime (ents rq a) - m) < 2 ^ 62"
  shows "tl_sorted ord rq \<longleftrightarrow> sorted (map (\<lambda>a. unat (se_vruntime (ents rq a) - m)) (ord (timeline rq)))"
  unfolding tl_sorted_def sorted_wrt_map
  using assms by (intro iffI; elim sorted_wrt_mono_rel [rotated]) (auto simp: entity_less_key [where m = m])

lemma sorted_insert_at:
  fixes k :: "'a \<Rightarrow> nat"
  assumes "sorted (map k (xs @ ys))" and "xs \<noteq> [] \<Longrightarrow> k (last xs) \<le> k a" and "ys \<noteq> [] \<Longrightarrow> k a \<le> k (hd ys)"
  shows "sorted (map k (xs @ a # ys))"
proof -
  have "k x \<le> k a" if "x \<in> set xs" for x
  proof -
    have "xs \<noteq> []" using that by auto
    then obtain zs z where "xs = zs @ [z]" by (metis append_butlast_last_id)
    then show ?thesis using assms(1,2) that by (auto simp: sorted_append)
  qed
  moreover have "k a \<le> k y" if "y \<in> set ys" for y
    using assms(1,3) that by (cases ys) (auto simp: sorted_append)
  ultimately show ?thesis
    using assms(1) by (auto simp: sorted_append)
qed

lemma enqueue_sorted:
  assumes K: "rb_ok K ord" and s: "tl_sorted ord rq"
    and span: "\<forall>x\<in>insert a (set (ord (timeline rq))). unat (se_vruntime (ents rq x) - m) < 2 ^ 62"
  shows "tl_sorted ord (enqueue_entity K a rq)"
proof -
  let ?k = "\<lambda>x. unat (se_vruntime (ents rq x) - m)" and ?rq = "enqueue_entity K a rq"
  obtain xs ys where l: "ord (timeline rq) = xs @ ys" "ord (timeline ?rq) = xs @ a # ys"
    and left: "xs \<noteq> [] \<Longrightarrow> \<not> entity_less rq a (last xs)" and right: "ys \<noteq> [] \<Longrightarrow> entity_less rq a (hd ys)"
    using rb_add [OF K, where t = "timeline rq" and lt = "entity_less rq" and a = a] by (auto simp: enqueue_entity_def)
  have in_span: "?k x < 2 ^ 62" if "x \<in> insert a (set xs \<union> set ys)" for x
    using span that l(1) by auto
  have "sorted (map ?k (xs @ ys))"
    using s tl_sorted_key [of ord rq m] span l(1) by simp
  moreover have "?k (last xs) \<le> ?k a" if "xs \<noteq> []"
    using left [OF that] that by (simp add: entity_less_key [where m = m, OF in_span in_span])
  moreover have "?k a \<le> ?k (hd ys)" if "ys \<noteq> []"
    using right [OF that] that by (simp add: entity_less_key [where m = m, OF in_span in_span])
  ultimately have "sorted (map ?k (xs @ a # ys))"
    by (rule sorted_insert_at)
  moreover have "ents ?rq = ents rq"
    by (simp add: enqueue_entity_def)
  ultimately show ?thesis
    using tl_sorted_key [of ord ?rq m] in_span l(2) by auto
qed

lemma enqueue_order:
  assumes "rb_ok K ord" and "a \<notin> set (ord (timeline rq))" and "distinct (ord (timeline rq))"
  shows "distinct (ord (timeline (enqueue_entity K a rq)))"
    and "set (ord (timeline (enqueue_entity K a rq))) = insert a (set (ord (timeline rq)))"
proof -
  obtain xs ys where "ord (timeline rq) = xs @ ys" "ord (timeline (enqueue_entity K a rq)) = xs @ a # ys"
    by (rule rb_add [OF assms(1), where t = "timeline rq" and lt = "entity_less rq" and a = a])
      (simp add: enqueue_entity_def)
  then show "distinct (ord (timeline (enqueue_entity K a rq)))"
    and "set (ord (timeline (enqueue_entity K a rq))) = insert a (set (ord (timeline rq)))"
    using assms(2,3) by auto
qed

lemma dequeue_order:
  assumes "rb_ok K ord" and "a \<in> set (ord (timeline rq))" and "distinct (ord (timeline rq))"
  shows "distinct (ord (timeline (dequeue_entity K a rq)))"
    and "set (ord (timeline (dequeue_entity K a rq))) = set (ord (timeline rq)) - {a}"
    and "tl_sorted ord rq \<Longrightarrow> tl_sorted ord (dequeue_entity K a rq)"
proof -
  have l: "ord (timeline (dequeue_entity K a rq)) = remove1 a (ord (timeline rq))"
    using rb_erase [OF assms(1,2)] by (simp add: dequeue_entity_def)
  show "distinct (ord (timeline (dequeue_entity K a rq)))"
    and "set (ord (timeline (dequeue_entity K a rq))) = set (ord (timeline rq)) - {a}"
    using assms(3) by (simp_all add: l)
  have "entity_less (dequeue_entity K a rq) = entity_less rq"
    by (simp add: dequeue_entity_def entity_less_def fun_eq_iff)
  then show "tl_sorted ord rq \<Longrightarrow> tl_sorted ord (dequeue_entity K a rq)"
    by (simp add: tl_sorted_def l distinct_remove1_removeAll [OF assms(3)] removeAll_filter_not_eq sorted_wrt_filter)
qed

section \<open>Calm operations\<close>

text \<open>Those that leave the books and the vruntimes in the tree alone.\<close>

definition calm :: "('t \<Rightarrow> nat list) \<Rightarrow> 't fair_rq \<Rightarrow> 't fair_rq \<Rightarrow> bool" where
  "calm ord rq rq' \<longleftrightarrow> same_books rq rq' \<and>
     (\<forall>a\<in>set (ord (timeline rq)). se_vruntime (ents rq' a) = se_vruntime (ents rq a))"

lemma calm_refl [simp]: "calm ord rq rq"
  by (simp add: calm_def)

lemma calm_trans: "calm ord a b \<Longrightarrow> calm ord b c \<Longrightarrow> calm ord a c"
  unfolding calm_def by (metis same_books_def same_books_trans)

lemma calm_ok: "calm ord rq rq' \<Longrightarrow> queue_ok ord rq \<Longrightarrow> queue_ok ord rq'"
  by (auto simp: calm_def intro: same_books_ok)

lemma calm_sorted: "calm ord rq rq' \<Longrightarrow> tl_sorted ord rq \<Longrightarrow> tl_sorted ord rq'"
  by (auto simp: calm_def intro: same_books_sorted)

lemma calm_fields:
  assumes "calm ord rq rq'"
  shows "queued rq' = queued rq" "cfs_curr rq' = cfs_curr rq" "timeline rq' = timeline rq"
    "cfs_h_nr_running rq' = cfs_h_nr_running rq" "cfs_nr_running rq' = cfs_nr_running rq"
    "se_weight rq' a = se_weight rq a" "lw_weight (rq_load rq') = lw_weight (rq_load rq)"
    "lw_weight (se_load (ents rq' a)) = lw_weight (se_load (ents rq a))"
  using assms same_books_queued [of rq rq'] by (auto simp: calm_def same_books_def)

lemma calm_update_curr:
  assumes "kernel_math_ok K" and "queue_ok ord rq"
  obtains rq' where "update_curr K now rq = Some rq'" and "calm ord rq rq'"
    and "\<And>a. cfs_curr rq \<noteq> Ref a \<Longrightarrow> ents rq' a = ents rq a"
proof -
  obtain rq' where u: "update_curr K now rq = Some rq'" "same_books rq rq'"
    "\<And>a. cfs_curr rq \<noteq> Ref a \<Longrightarrow> ents rq' a = ents rq a"
    by (rule update_curr_books [OF assms(1), of now rq]) blast
  have "cfs_curr rq \<noteq> Ref a" if "a \<in> set (ord (timeline rq))" for a
    using that assms(2) by (simp add: queue_ok_def)
  then have "calm ord rq rq'"
    using u(2,3) by (simp add: calm_def)
  then show ?thesis using that u(1,3) by blast
qed

lemma calm_ent:
  assumes "a \<notin> set (ord (timeline rq))"
    and "\<And>e. se_on_rq (f e) = se_on_rq e" and "\<And>e. lw_weight (se_load (f e)) = lw_weight (se_load e)"
  shows "calm ord rq (ent_update a f rq)"
  using assms(1) same_books_ent [where f = f and a = a and rq = rq, OF assms(2,3)] by (auto simp: calm_def ents_ent_update)

lemma calm_add_vruntime: "a \<notin> set (ord (timeline rq)) \<Longrightarrow> calm ord rq (add_vruntime a d rq)"
  unfolding add_vruntime_def by (rule calm_ent) simp_all

lemma calm_add_vruntime_if: "a \<notin> set (ord (timeline rq)) \<Longrightarrow> calm ord rq (if c then add_vruntime a d rq else rq)"
  by (simp add: calm_add_vruntime)

lemma calm_update_min [simp]: "calm ord rq (update_min_vruntime K rq)"
  by (simp add: calm_def)

lemma calm_cached [simp]: "calm ord rq (cached a rq)"
  by (simp add: calm_def)

lemma calm_inv [simp]: "calm ord rq (rq\<lparr>rq_load := update_inv_weight (rq_load rq)\<rparr>)"
  by (simp add: calm_def same_books_def inv_ok_value(2))

lemma calm_clear_buddies [simp]: "calm ord rq (clear_buddies a rq)"
  by (auto simp: calm_def same_books_def clear_buddies_def Let_def)

lemma clear_buddies_gone: "Ref a \<notin> {cfs_next (clear_buddies a rq), cfs_last (clear_buddies a rq), cfs_skip (clear_buddies a rq)}"
  by (simp add: clear_buddies_def Let_def)

lemma calm_set_next_buddy [simp]: "calm ord rq (set_next_buddy a rq)"
  by (simp add: calm_def same_books_def set_next_buddy_def se_is_idle_def queued_def)

lemma calm_set_last_buddy [simp]: "calm ord rq (set_last_buddy a rq)"
  by (simp add: calm_def same_books_def set_last_buddy_def se_is_idle_def queued_def)

lemma calm_set_skip_buddy: "a \<in> queued rq \<Longrightarrow> calm ord rq (set_skip_buddy a rq)"
  by (simp add: calm_def same_books_def set_skip_buddy_def)

section \<open>Enqueueing and dequeueing\<close>

lemma queue_ok_not_in_tree: "queue_ok ord rq \<Longrightarrow> a \<notin> queued rq \<or> cfs_curr rq = Ref a \<Longrightarrow> a \<notin> set (ord (timeline rq))"
  by (auto simp: queue_ok_def)

lemma in_spanD:
  assumes "in_span rq'" and "A \<subseteq> queued rq'" and "\<And>a. a \<in> A \<Longrightarrow> se_vruntime (ents rq a) = se_vruntime (ents rq' a)"
  obtains m where "\<forall>a\<in>A. unat (se_vruntime (ents rq a) - m) < 2 ^ 62"
proof -
  obtain m where "\<forall>a\<in>queued rq'. unat (se_vruntime (ents rq' a) - m) < 2 ^ 62"
    using assms(1) unfolding in_span_def by blast
  then have "\<forall>a\<in>A. unat (se_vruntime (ents rq a) - m) < 2 ^ 62"
    using assms(2,3) by (metis subsetD)
  then show ?thesis by (rule that)
qed

text \<open>The last steps of \<open>enqueue_entity\<close>, behind \<open>account_entity_enqueue\<close>.\<close>

definition link_entity :: "'t kernel_lib \<Rightarrow> nat \<Rightarrow> 't fair_rq \<Rightarrow> 't fair_rq" where
  "link_entity K a rq = ent_update a (\<lambda>e. e\<lparr>se_on_rq := 1\<rparr>) (if cfs_curr rq \<noteq> Ref a then enqueue_entity K a rq else rq)"

lemma link_entity_fields [simp]:
  "cfs_nr_running (link_entity K a rq) = cfs_nr_running rq" "rq_load (link_entity K a rq) = rq_load rq"
  "cfs_curr (link_entity K a rq) = cfs_curr rq" "cfs_h_nr_running (link_entity K a rq) = cfs_h_nr_running rq"
  "cfs_next (link_entity K a rq) = cfs_next rq" "cfs_last (link_entity K a rq) = cfs_last rq"
  "cfs_skip (link_entity K a rq) = cfs_skip rq"
  "ents (link_entity K a rq) = (ents rq)(a := (ents rq a)\<lparr>se_on_rq := 1\<rparr>)"
  "timeline (link_entity K a rq) = timeline (if cfs_curr rq \<noteq> Ref a then enqueue_entity K a rq else rq)"
  by (simp_all add: link_entity_def ent_update_def enqueue_entity_def)

lemma link_entity_ok:
  assumes K: "rb_ok K ord" and ok: "queue_ok ord rq" and a: "a \<notin> queued rq"
    and room: "card (queued rq) + 1 < 2 ^ 32" "(\<Sum>b\<in>queued rq. se_weight rq b) + se_weight rq a < max_load"
    and r: "calm ord (account_entity_enqueue a rq) rq1"
  defines "rq' \<equiv> link_entity K a rq1"
  shows "queue_ok ord rq'" and "queued rq' = insert a (queued rq)"
    and "tl_sorted ord rq1 \<Longrightarrow> in_span rq' \<Longrightarrow> tl_sorted ord rq'"
proof -
  let ?r = "account_entity_enqueue a rq"
  have acc: "ents ?r = ents rq" "timeline ?r = timeline rq" "cfs_curr ?r = cfs_curr rq"
    "cfs_nr_running ?r = cfs_nr_running rq + 1" "cfs_next ?r = cfs_next rq" "cfs_last ?r = cfs_last rq"
    "cfs_skip ?r = cfs_skip rq" "rq_load ?r = update_load_add (rq_load rq) (lw_weight (se_load (ents rq a)))"
    by (simp_all add: account_entity_enqueue_def se_is_idle_def Let_def)
  have qr: "queued ?r = queued rq" by (simp add: queued_def acc)
  note f = calm_fields [OF r, unfolded acc qr]
  have fin: "finite (queued rq)" and nr: "cfs_nr_running rq = of_nat (card (queued rq))"
    and load: "unat (lw_weight (rq_load rq)) = (\<Sum>b\<in>queued rq. se_weight rq b)"
    and tl: "distinct (ord (timeline rq))" "set (ord (timeline rq)) = queued rq - {b. cfs_curr rq = Ref b}"
    and bud: "buddies_ok rq"
    using ok by (auto simp: queue_ok_def)
  have out: "a \<notin> set (ord (timeline rq1))" using a tl(2) f(3) by simp
  have tl1: "distinct (ord (timeline rq1))" using tl(1) f(3) by simp
  have "se_on_rq (ents rq1 b) = se_on_rq (ents rq b)" for b
    using r by (simp add: calm_def same_books_def acc)
  then show q: "queued rq' = insert a (queued rq)"
    by (auto simp: rq'_def queued_def)
  have w: "se_weight rq' b = se_weight rq b" for b
    by (simp add: rq'_def f(6))
  have sum: "(\<Sum>b\<in>queued rq'. se_weight rq' b) = (\<Sum>b\<in>queued rq. se_weight rq b) + se_weight rq a"
    unfolding q w using fin a by simp
  have load': "unat (lw_weight (rq_load rq')) = (\<Sum>b\<in>queued rq'. se_weight rq' b)"
    using room(2) load unfolding sum by (simp add: rq'_def f(7) update_load_add_def unat_u64_add_small)
  have order: "distinct (ord (timeline rq'))" "set (ord (timeline rq')) = queued rq' - {b. cfs_curr rq' = Ref b}"
    using enqueue_order [OF K out tl1] tl tl1 a by (auto simp: rq'_def f(2,3) q [unfolded rq'_def])
  have "inv_ok (rq_load ?r)" by (simp add: acc update_load_add_def inv_ok_def)
  then have inv: "inv_ok (rq_load rq')"
    using r by (simp add: rq'_def calm_def same_books_def)
  have bud': "buddies_ok rq'"
    using bud r unfolding buddies_ok_def q by (auto simp: rq'_def calm_def same_books_def acc qr)
  have card: "card (queued rq') = card (queued rq) + 1"
    unfolding q using fin a by simp
  have nr': "cfs_nr_running rq' = of_nat (card (queued rq'))"
    unfolding card by (simp add: rq'_def f(5) nr)
  have "finite (queued rq')" unfolding q using fin by simp
  then show "queue_ok ord rq'"
    unfolding queue_ok_def
    using order inv bud' load' nr' room card sum by (simp only: simp_thms)
  assume s: "tl_sorted ord rq1" and span: "in_span rq'"
  have vr: "se_vruntime (ents rq1 b) = se_vruntime (ents rq' b)" for b
    by (simp add: rq'_def)
  have sub: "insert a (set (ord (timeline rq1))) \<subseteq> queued rq'"
    using tl(2) f(3) q by auto
  obtain m where m: "\<forall>b\<in>insert a (set (ord (timeline rq1))). unat (se_vruntime (ents rq1 b) - m) < 2 ^ 62"
    by (rule in_spanD [OF span sub vr])
  have less: "entity_less rq' = entity_less rq1" "entity_less (enqueue_entity K a rq1) = entity_less rq1"
    by (simp_all add: fun_eq_iff entity_less_def entity_before_def vr enqueue_entity_def)
  show "tl_sorted ord rq'"
    using enqueue_sorted [OF K s m] s unfolding tl_sorted_def less by (simp add: rq'_def)
qed

definition unlink_entity :: "'t kernel_lib \<Rightarrow> nat \<Rightarrow> 't fair_rq \<Rightarrow> 't fair_rq" where
  "unlink_entity K a rq = account_entity_dequeue a (ent_update a (\<lambda>e. e\<lparr>se_on_rq := 0\<rparr>)
     (if cfs_curr rq \<noteq> Ref a then dequeue_entity K a rq else rq))"

lemma unlink_entity_fields [simp]:
  "cfs_nr_running (unlink_entity K a rq) = cfs_nr_running rq - 1"
  "rq_load (unlink_entity K a rq) = update_load_sub (rq_load rq) (lw_weight (se_load (ents rq a)))"
  "cfs_curr (unlink_entity K a rq) = cfs_curr rq" "cfs_h_nr_running (unlink_entity K a rq) = cfs_h_nr_running rq"
  "cfs_next (unlink_entity K a rq) = cfs_next rq" "cfs_last (unlink_entity K a rq) = cfs_last rq"
  "cfs_skip (unlink_entity K a rq) = cfs_skip rq"
  "ents (unlink_entity K a rq) = (ents rq)(a := (ents rq a)\<lparr>se_on_rq := 0\<rparr>)"
  "timeline (unlink_entity K a rq) = timeline (if cfs_curr rq \<noteq> Ref a then dequeue_entity K a rq else rq)"
  by (simp_all add: unlink_entity_def ent_update_def dequeue_entity_def account_entity_dequeue_def se_is_idle_def Let_def)

lemma unlink_entity_ok:
  assumes K: "rb_ok K ord" and ok: "queue_ok ord rq" and a: "a \<in> queued rq"
    and gone: "Ref a \<notin> {cfs_next rq, cfs_last rq, cfs_skip rq}"
  defines "rq' \<equiv> unlink_entity K a rq"
  shows "queue_ok ord rq'" and "queued rq' = queued rq - {a}" and "tl_sorted ord rq \<Longrightarrow> tl_sorted ord rq'"
proof -
  have fin: "finite (queued rq)" and nr: "cfs_nr_running rq = of_nat (card (queued rq))"
    and room: "card (queued rq) < 2 ^ 32" "(\<Sum>b\<in>queued rq. se_weight rq b) < max_load"
    and load: "unat (lw_weight (rq_load rq)) = (\<Sum>b\<in>queued rq. se_weight rq b)"
    and tl: "distinct (ord (timeline rq))" "set (ord (timeline rq)) = queued rq - {b. cfs_curr rq = Ref b}"
    and bud: "buddies_ok rq"
    using ok by (auto simp: queue_ok_def)
  show q: "queued rq' = queued rq - {a}"
    by (auto simp: rq'_def queued_def)
  have card: "card (queued rq) = card (queued rq') + 1"
    unfolding q using card_Suc_Diff1 [OF fin a] by simp
  have nr': "cfs_nr_running rq' = of_nat (card (queued rq'))"
  proof -
    have "cfs_nr_running rq' = cfs_nr_running rq - 1" by (simp add: rq'_def)
    then show ?thesis by (simp add: nr card)
  qed
  have sum: "(\<Sum>b\<in>queued rq. se_weight rq b) = (\<Sum>b\<in>queued rq'. se_weight rq' b) + se_weight rq a"
  proof -
    have "(\<Sum>b\<in>queued rq'. se_weight rq' b) = (\<Sum>b\<in>queued rq - {a}. se_weight rq b)"
      unfolding q by (rule sum.cong) (auto simp: rq'_def)
    then show ?thesis using sum.remove [OF fin a, of "se_weight rq"] by simp
  qed
  have load': "unat (lw_weight (rq_load rq')) = (\<Sum>b\<in>queued rq'. se_weight rq' b)"
    using load sum by (simp add: rq'_def update_load_sub_def unat_sub word_le_nat_alt)
  have tree: "a \<in> set (ord (timeline rq))" if "cfs_curr rq \<noteq> Ref a"
    using that a tl(2) by simp
  have order: "distinct (ord (timeline rq'))" "set (ord (timeline rq')) = queued rq' - {b. cfs_curr rq' = Ref b}"
    using dequeue_order [OF K tree tl(1)] tl by (auto simp: rq'_def q [unfolded rq'_def])
  have "inv_ok (rq_load rq')" by (simp add: rq'_def update_load_sub_def inv_ok_def)
  moreover have "buddies_ok rq'" using bud gone unfolding buddies_ok_def q by (auto simp: rq'_def)
  moreover have "finite (queued rq')" "card (queued rq') < 2 ^ 32" "(\<Sum>b\<in>queued rq'. se_weight rq' b) < max_load"
    using fin room card sum by (simp_all add: q)
  ultimately show "queue_ok ord rq'"
    unfolding queue_ok_def using order load' nr' by (simp only: simp_thms)
  assume s: "tl_sorted ord rq"
  have "entity_less rq' = entity_less rq" "entity_less (dequeue_entity K a rq) = entity_less rq"
    by (simp_all add: fun_eq_iff entity_less_def entity_before_def rq'_def dequeue_entity_def)
  then show "tl_sorted ord rq'"
    using dequeue_order(3) [OF K tree tl(1) s] s unfolding tl_sorted_def by (simp add: rq'_def)
qed

lemma queue_ok_retree:
  assumes "queue_ok ord rq" and "distinct (ord t)" and "set (ord t) = queued rq - {a. c = Ref a}"
  shows "queue_ok ord (rq\<lparr>timeline := t, cfs_curr := c\<rparr>)"
  using assms by (simp add: queue_ok_def queued_def buddies_ok_def)

lemma calm_place_woken:
  assumes "a \<notin> set (ord (timeline rq))"
  obtains rq' where "place_entity K G a False rq = Some rq'" and "calm ord rq rq'"
proof -
  obtain v where "place_entity K G a False rq = Some (ent_update a (\<lambda>e. e\<lparr>se_vruntime := max_vruntime (se_vruntime e) v\<rparr>) rq)"
    using place_entity_woken by blast
  then show ?thesis using that [OF _ calm_ent [where ord = ord and rq = rq, OF assms]] by simp
qed

text \<open>An entity that is not on the runqueue is put on it.\<close>

lemma enqueue_entity_fair_ok:
  assumes M: "kernel_math_ok K" and K: "rb_ok K ord" and ok: "queue_ok ord rq" and a: "a \<notin> queued rq"
    and room: "card (queued rq) + 1 < 2 ^ 32" "(\<Sum>b\<in>queued rq. se_weight rq b) + se_weight rq a < max_load"
  obtains rq' where "enqueue_entity_fair K G now a flags rq = Some rq'" and "queue_ok ord rq'"
    and "queued rq' = insert a (queued rq)" and "tl_sorted ord rq \<Longrightarrow> in_span rq' \<Longrightarrow> tl_sorted ord rq'"
    and "cfs_curr rq' = cfs_curr rq" and "cfs_h_nr_running rq' = cfs_h_nr_running rq"
proof -
  let ?renorm = "flags AND 0x01 = 0 \<or> flags AND 0x00 \<noteq> 0" and ?cur = "cfs_curr rq = Ref a"
  have out: "a \<notin> set (ord (timeline rq))" using queue_ok_not_in_tree [OF ok] a by blast
  define r0 where "r0 = (if ?renorm \<and> ?cur then add_vruntime a (cfs_min_vruntime rq) rq else rq)"
  have c0: "calm ord rq r0" unfolding r0_def by (rule calm_add_vruntime_if [where ord = ord and rq = rq, OF out])
  obtain r1 where u: "update_curr K now r0 = Some r1" and c1: "calm ord r0 r1"
    by (rule calm_update_curr [OF M calm_ok [OF c0 ok]])
  define r2 where "r2 = (if ?renorm \<and> \<not> ?cur then add_vruntime a (cfs_min_vruntime r1) r1 else r1)"
  have "calm ord rq r1" by (rule calm_trans [OF c0 c1])
  then have "a \<notin> set (ord (timeline r1))" using out by (simp add: calm_fields(3))
  then have "calm ord r1 r2" unfolding r2_def by (rule calm_add_vruntime_if)
  then have c2: "calm ord rq r2" using \<open>calm ord rq r1\<close> by (rule calm_trans [rotated])
  note f = calm_fields [OF c2]
  let ?acc = "account_entity_enqueue a r2"
  have acc: "timeline ?acc = timeline r2" "cfs_curr ?acc = cfs_curr r2" "cfs_h_nr_running ?acc = cfs_h_nr_running r2"
    "ents ?acc = ents r2"
    by (simp_all add: account_entity_enqueue_def Let_def)
  have "a \<notin> set (ord (timeline ?acc))" using out by (simp add: acc f)
  then obtain r3 where p: "(if flags AND 0x01 \<noteq> 0 then place_entity K G a False ?acc else Some ?acc) = Some r3"
    and c3: "calm ord ?acc r3"
    by (cases "flags AND 0x01 = 0") (auto elim: calm_place_woken)
  have sum: "(\<Sum>b\<in>queued r2. se_weight r2 b) = (\<Sum>b\<in>queued rq. se_weight rq b)" by (simp add: f)
  have eq: "enqueue_entity_fair K G now a flags rq = Some (link_entity K a r3)"
    unfolding enqueue_entity_fair_def Let_def r0_def [symmetric] u bind.bind_lunit r2_def [symmetric] p
    by (simp add: link_entity_def calm_fields(2) [OF c3] acc f)
  have a2: "a \<notin> queued r2" "card (queued r2) + 1 < 2 ^ 32" "(\<Sum>b\<in>queued r2. se_weight r2 b) + se_weight r2 a < max_load"
    using a room by (simp_all add: f sum)
  note link = link_entity_ok [OF K calm_ok [OF c2 ok] a2 c3]
  have "tl_sorted ord r3" if "tl_sorted ord rq"
  proof -
    have "tl_sorted ord ?acc"
      using calm_sorted [OF c2 that] by (simp add: tl_sorted_def acc entity_less_def)
    then show ?thesis by (rule calm_sorted [OF c3])
  qed
  then show ?thesis
    using that [OF eq link(1)] link(2,3) by (simp add: f acc calm_fields(2,4) [OF c3])
qed

text \<open>An entity that is on the runqueue is taken off it.\<close>

lemma dequeue_entity_fair_ok:
  assumes M: "kernel_math_ok K" and K: "rb_ok K ord" and ok: "queue_ok ord rq" and a: "a \<in> queued rq"
  obtains rq' where "dequeue_entity_fair K now a flags rq = Some rq'" and "queue_ok ord rq'"
    and "queued rq' = queued rq - {a}" and "tl_sorted ord rq \<Longrightarrow> tl_sorted ord rq'"
    and "cfs_curr rq' = cfs_curr rq" and "cfs_h_nr_running rq' = cfs_h_nr_running rq"
proof -
  obtain r1 where u: "update_curr K now rq = Some r1" and c1: "calm ord rq r1"
    by (rule calm_update_curr [OF M ok])
  let ?r2 = "clear_buddies a r1"
  have c2: "calm ord rq ?r2" using c1 by (rule calm_trans) simp
  note f = calm_fields [OF c2]
  have a2: "a \<in> queued ?r2" using a by (simp add: f)
  note unlink = unlink_entity_ok [OF K calm_ok [OF c2 ok] a2 clear_buddies_gone]
  let ?r3 = "unlink_entity K a ?r2"
  let ?r4 = "if flags AND 0x01 = 0 then add_vruntime a (- cfs_min_vruntime ?r3) ?r3 else ?r3"
  let ?r5 = "if flags AND (0x02 OR 0x04) \<noteq> 0x02 then update_min_vruntime K ?r4 else ?r4"
  have "a \<notin> set (ord (timeline ?r3))"
    using queue_ok_not_in_tree [OF unlink(1)] unlink(2) by blast
  then have "calm ord ?r3 ?r4" by (rule calm_add_vruntime_if)
  then have c5: "calm ord ?r3 ?r5" by (rule calm_trans) simp
  have eq: "dequeue_entity_fair K now a flags rq = Some ?r5"
    unfolding dequeue_entity_fair_def Let_def u bind.bind_lunit unlink_entity_def by (rule refl)
  show ?thesis
  proof (rule that [OF eq calm_ok [OF c5 unlink(1)]])
    show "queued ?r5 = queued rq - {a}" unfolding calm_fields(1) [OF c5] unlink(2) f ..
    show "cfs_curr ?r5 = cfs_curr rq" unfolding calm_fields(2) [OF c5] unlink_entity_fields f ..
    show "cfs_h_nr_running ?r5 = cfs_h_nr_running rq" unfolding calm_fields(4) [OF c5] unlink_entity_fields f ..
    show "tl_sorted ord ?r5" if "tl_sorted ord rq"
      by (rule calm_sorted [OF c5 unlink(3) [OF calm_sorted [OF c2 that]]])
  qed
qed

section \<open>Into the CPU and out of it\<close>

lemma set_next_entity_ok:
  fixes a now
  assumes K: "rb_ok K ord" and ok: "queue_ok ord rq" and idle: "cfs_curr rq = NULL"
  defines "rq' \<equiv> set_next_entity K now a rq"
  shows "queue_ok ord rq'" and "queued rq' = queued rq" and "tl_sorted ord rq \<Longrightarrow> tl_sorted ord rq'"
    and "cfs_curr rq' = Ref a" and "cfs_h_nr_running rq' = cfs_h_nr_running rq"
proof -
  let ?r1 = "clear_buddies a rq"
  have c1: "calm ord rq ?r1" by simp
  note f = calm_fields [OF c1]
  let ?r2 = "if se_on_rq (ents ?r1 a) \<noteq> 0 then dequeue_entity K a ?r1 else ?r1"
  let ?r3 = "update_stats_curr_start now a (?r2\<lparr>cfs_curr := Ref a\<rparr>)"
  have eq: "rq' = ent_update a (\<lambda>e. e\<lparr>prev_sum_exec_runtime := sum_exec_runtime e\<rparr>) ?r3"
    by (simp add: rq'_def set_next_entity_def update_stats_curr_start_def ent_update_def Let_def)
  have tl: "distinct (ord (timeline ?r1))" "set (ord (timeline ?r1)) = queued ?r1"
    using calm_ok [OF c1 ok] idle by (auto simp: queue_ok_def f)
  have on: "a \<in> queued ?r1 \<longleftrightarrow> se_on_rq (ents ?r1 a) \<noteq> 0" by (simp add: queued_def)
  have t2: "distinct (ord (timeline ?r2))" "set (ord (timeline ?r2)) = queued ?r1 - {a}"
    and s2: "tl_sorted ord ?r1 \<Longrightarrow> tl_sorted ord ?r2"
    using dequeue_order [OF K _ tl(1), of a] tl on by auto
  let ?m = "?r1\<lparr>timeline := timeline ?r2, cfs_curr := Ref a\<rparr>"
  have m: "?r2\<lparr>cfs_curr := Ref a\<rparr> = ?m" by (simp add: dequeue_entity_def)
  have out: "a \<notin> set (ord (timeline ?m))" using t2(2) by simp
  have "calm ord ?m (update_stats_curr_start now a ?m)"
    unfolding update_stats_curr_start_def by (rule calm_ent [where ord = ord and rq = ?m, OF out]; simp)
  moreover have "calm ord (update_stats_curr_start now a ?m) rq'"
    unfolding eq m by (rule calm_ent) (use out in \<open>simp_all add: update_stats_curr_start_def ent_update_def\<close>)
  ultimately have c: "calm ord ?m rq'" by (rule calm_trans)
  have "queue_ok ord ?m"
    by (rule queue_ok_retree [OF calm_ok [OF c1 ok] t2(1)]) (use t2(2) in auto)
  then show "queue_ok ord rq'" by (rule calm_ok [OF c])
  have qm: "queued ?m = queued ?r1" by (simp add: queued_def)
  show "queued rq' = queued rq" unfolding calm_fields(1) [OF c] qm f ..
  show "cfs_curr rq' = Ref a" by (simp add: calm_fields(2) [OF c])
  show "cfs_h_nr_running rq' = cfs_h_nr_running rq" by (simp add: calm_fields(4) [OF c] f)
  show "tl_sorted ord rq'" if "tl_sorted ord rq"
  proof (rule calm_sorted [OF c])
    have "tl_sorted ord ?r2" by (rule s2 [OF calm_sorted [OF c1 that]])
    moreover have "ents ?r2 = ents ?r1" by (simp add: dequeue_entity_def)
    ultimately show "tl_sorted ord ?m" by (simp add: tl_sorted_def entity_less_def)
  qed
qed

lemma put_prev_entity_ok:
  assumes M: "kernel_math_ok K" and K: "rb_ok K ord" and ok: "queue_ok ord rq" and run: "cfs_curr rq = Ref a"
  obtains rq' where "put_prev_entity K now a rq = Some rq'" and "queue_ok ord rq'" and "queued rq' = queued rq"
    and "tl_sorted ord rq \<Longrightarrow> in_span rq' \<Longrightarrow> tl_sorted ord rq'"
    and "cfs_curr rq' = NULL" and "cfs_h_nr_running rq' = cfs_h_nr_running rq"
proof (cases "a \<in> queued rq")
  case False
  then have on: "se_on_rq (ents rq a) = 0" by (simp add: queued_def)
  let ?rq' = "rq\<lparr>cfs_curr := NULL\<rparr>"
  have "queue_ok ord (rq\<lparr>timeline := timeline rq, cfs_curr := NULL\<rparr>)"
    by (rule queue_ok_retree [OF ok]) (use ok False run in \<open>auto simp: queue_ok_def\<close>)
  then have "queue_ok ord ?rq'" by simp
  then show ?thesis
    using that [of ?rq'] on by (simp add: put_prev_entity_def queued_def tl_sorted_def entity_less_def)
next
  case True
  obtain r1 where u: "update_curr K now rq = Some r1" and c1: "calm ord rq r1"
    by (rule calm_update_curr [OF M ok])
  note f = calm_fields [OF c1]
  have on: "se_on_rq (ents rq a) \<noteq> 0" "se_on_rq (ents r1 a) \<noteq> 0"
    using True f(1) by (auto simp: queued_def)
  have tl: "distinct (ord (timeline r1))" "set (ord (timeline r1)) = queued r1 - {a}"
    using calm_ok [OF c1 ok] run by (auto simp: queue_ok_def f)
  then have out: "a \<notin> set (ord (timeline r1))" by simp
  let ?r2 = "enqueue_entity K a r1"
  let ?rq' = "?r2\<lparr>cfs_curr := NULL\<rparr>"
  have eq: "put_prev_entity K now a rq = Some ?rq'"
    using u on by (simp add: put_prev_entity_def)
  have "queue_ok ord (r1\<lparr>timeline := timeline ?r2, cfs_curr := NULL\<rparr>)"
    by (rule queue_ok_retree [OF calm_ok [OF c1 ok]])
      (use enqueue_order [OF K out tl(1)] tl(2) on(2) in \<open>auto simp: queued_def\<close>)
  then have "queue_ok ord ?rq'" by (simp add: enqueue_entity_def)
  moreover have q: "queued ?rq' = queued rq" using f(1) by (simp add: queued_def enqueue_entity_def)
  moreover have "tl_sorted ord ?rq'" if s: "tl_sorted ord rq" and span: "in_span ?rq'"
  proof -
    have sub: "insert a (set (ord (timeline r1))) \<subseteq> queued ?rq'" using q f(1) tl(2) True by auto
    obtain m where m: "\<forall>b\<in>insert a (set (ord (timeline r1))). unat (se_vruntime (ents r1 b) - m) < 2 ^ 62"
      by (rule in_spanD [OF span sub, of r1]) (simp add: enqueue_entity_def, blast)
    show ?thesis
      using enqueue_sorted [OF K calm_sorted [OF c1 s] m] by (simp add: tl_sorted_def entity_less_def)
  qed
  ultimately show ?thesis using that [OF eq] by (simp add: enqueue_entity_def f)
qed

end
