(* ===== verification/Kernel_Sched_Ops.thy ===== *)
theory Kernel_Sched_Ops
  imports Kernel_Sched_Queue
begin

text \<open>
  The operations of the fair scheduling class, one by one: under the invariant of the runqueue and
  the conditions the scheduler core calls them in, each of them is defined, and the counters of
  tasks follow. Slices are defined because the weights of a runqueue add up; the tick may read
  the first node of the timeline because a second task is on the runqueue.
\<close>

section \<open>Slices\<close>

lemma scale_load_down_bounds:
  assumes "unat w \<le> unat W" and "unat W < max_load"
  shows "unat (scale_load_down w) \<le> unat (scale_load_down W)" and "unat (scale_load_down W) < 4294967295"
proof -
  have v: "unat (scale_load_down x) = (if unat x = 0 then 0 else max 2 (unat x div 1024))" for x :: u64
    by (auto simp: scale_load_down_def max_def word_le_nat_alt unat_shr unat_eq_0)
  have "unat w div 1024 \<le> unat W div 1024" using assms(1) by (rule div_le_mono)
  then show "unat (scale_load_down w) \<le> unat (scale_load_down W)"
    using assms(1) by (auto simp: v)
  have "unat W div 1024 < 4294967295" using assms(2) by (simp add: div_less_iff_less_mult)
  then show "unat (scale_load_down W) < 4294967295" by (simp add: v)
qed

lemma sched_slice_defined:
  assumes M: "kernel_math_ok K" and ok: "queue_ok ord rq"
    and room: "a \<in> queued rq \<or> (\<Sum>b\<in>queued rq. se_weight rq b) + se_weight rq a < max_load"
  obtains s rq' where "sched_slice K G a rq = Some (s, rq')" and "calm ord rq rq'" and "ents rq' = ents rq"
proof -
  let ?p = "sched_period G (ucast ((if ALT_PERIOD G then cfs_h_nr_running rq else cfs_nr_running rq) +
    (if se_on_rq (ents rq a) = 0 then 1 else 0)))" and ?w = "lw_weight (se_load (ents rq a))"
  have fin: "finite (queued rq)" and load: "unat (lw_weight (rq_load rq)) = (\<Sum>b\<in>queued rq. se_weight rq b)"
    and inv: "inv_ok (rq_load rq)" and max: "(\<Sum>b\<in>queued rq. se_weight rq b) < max_load"
    using ok by (auto simp: queue_ok_def)
  show ?thesis
  proof (cases "a \<in> queued rq")
    case True
    then have "se_weight rq a \<le> unat (lw_weight (rq_load rq))"
      unfolding load using fin by (intro member_le_sum) auto
    then have b: "unat ?w \<le> unat (lw_weight (rq_load rq))" "unat (lw_weight (rq_load rq)) < max_load"
      using max load by simp_all
    obtain d where "calc_delta K ?p ?w (rq_load rq) = Some (d, update_inv_weight (rq_load rq))"
      by (rule calc_delta_part [OF M inv scale_load_down_bounds [OF b], where t = ?p])
    then show ?thesis
      using that [of _ "rq\<lparr>rq_load := update_inv_weight (rq_load rq)\<rparr>"] True
      by (simp add: sched_slice_def queued_def Let_def)
  next
    case False
    let ?lw = "update_load_add (rq_load rq) ?w"
    have "unat (lw_weight ?lw) = (\<Sum>b\<in>queued rq. se_weight rq b) + se_weight rq a"
      using room False load by (simp add: update_load_add_def unat_u64_add_small)
    then have b: "unat ?w \<le> unat (lw_weight ?lw)" "unat (lw_weight ?lw) < max_load"
      using room False by simp_all
    have inv': "inv_ok ?lw" by (simp add: update_load_add_def inv_ok_def)
    obtain d where "calc_delta K ?p ?w ?lw = Some (d, update_inv_weight ?lw)"
      by (rule calc_delta_part [OF M inv' scale_load_down_bounds [OF b], where t = ?p])
    then show ?thesis
      using that [of _ rq] False by (simp add: sched_slice_def queued_def Let_def)
  qed
qed

lemma calm_place_new:
  assumes M: "kernel_math_ok K" and ok: "queue_ok ord rq" and a: "a \<notin> queued rq"
    and room: "(\<Sum>b\<in>queued rq. se_weight rq b) + se_weight rq a < max_load"
  obtains rq' where "place_entity K G a True rq = Some rq'" and "calm ord rq rq'"
proof -
  obtain s r1 where s: "sched_slice K G a rq = Some (s, r1)" and c1: "calm ord rq r1"
    by (rule sched_slice_defined [OF M ok, of a G]) (use room in simp)
  let ?r2 = "if START_DEBIT G then cached a r1 else rq"
  have c2: "calm ord rq ?r2" using c1 calm_trans [OF c1 calm_cached] by simp
  have "a \<notin> set (ord (timeline ?r2))"
    using queue_ok_not_in_tree [OF ok] a calm_fields(3) [OF c2] by metis
  then have c3: "calm ord ?r2 (ent_update a (\<lambda>e. e\<lparr>se_vruntime := max_vruntime (se_vruntime e) v\<rparr>) ?r2)" for v
    by (rule calm_ent) simp_all
  obtain v where "place_entity K G a True rq =
      Some (ent_update a (\<lambda>e. e\<lparr>se_vruntime := max_vruntime (se_vruntime e) v\<rparr>) ?r2)"
    using s by (cases "START_DEBIT G")
      (auto simp: place_entity_def sched_vslice_def entity_delta_fair_view [OF M] Let_def)
  then show ?thesis by (rule that) (rule calm_trans [OF c2 c3])
qed

section \<open>The tick\<close>

text \<open>With a second entity on the runqueue the timeline is not empty, so its first node can be read.\<close>

lemma tree_not_empty:
  assumes K: "rb_ok K ord" and ok: "queue_ok ord rq" and nr: "1 < cfs_nr_running rq"
  obtains b where "pick_first_entity K rq = Ref b"
proof -
  have "unat (cfs_nr_running rq) = card (queued rq)"
    using ok by (simp add: queue_ok_def unat_of_nat)
  then have "2 \<le> card (queued rq)" using nr by (simp add: word_less_nat_alt)
  moreover have "queued rq \<subseteq> {a}" if "set (ord (timeline rq)) = {}" "cfs_curr rq = Ref a" for a
    using ok that by (auto simp: queue_ok_def)
  moreover have "queued rq = {}" if "set (ord (timeline rq)) = {}" "cfs_curr rq = NULL"
    using ok that by (simp add: queue_ok_def)
  moreover have "card (queued rq) \<le> 1" if "queued rq \<subseteq> {a}" for a
    using card_mono [OF _ that] by simp
  ultimately have "set (ord (timeline rq)) \<noteq> {}" by (cases "cfs_curr rq") fastforce+
  then show ?thesis
    using that rb_first [OF K, of "timeline rq"] by (cases "ord (timeline rq)") (auto simp: pick_first_entity_def)
qed

lemma entity_tick_ok:
  assumes M: "kernel_math_ok K" and K: "rb_ok K ord" and ok: "queue_ok ord rq" and a: "a \<in> queued rq"
  obtains r rq' where "entity_tick K G now a rq = Some (r, rq')" and "calm ord rq rq'"
proof -
  obtain r1 where u: "update_curr K now rq = Some r1" and c1: "calm ord rq r1"
    by (rule calm_update_curr [OF M ok])
  show ?thesis
  proof (cases "1 < cfs_nr_running r1")
    case False
    then show ?thesis using that [of False r1] u c1 by (simp add: entity_tick_def)
  next
    case True
    note ok1 = calm_ok [OF c1 ok]
    obtain s r2 where s: "sched_slice K G a r1 = Some (s, r2)" and c2: "calm ord r1 r2"
      by (rule sched_slice_defined [OF M ok1, of a G]) (use a calm_fields(1) [OF c1] in simp)
    have c: "calm ord rq r2" by (rule calm_trans [OF c1 c2])
    have "1 < cfs_nr_running r2" using True by (simp add: calm_fields(5) [OF c2])
    then obtain b where b: "pick_first_entity K r2 = Ref b"
      by (rule tree_not_empty [OF K calm_ok [OF c ok]])
    have cl: "calm ord rq (clear_buddies a r2)" by (rule calm_trans [OF c]) simp
    have "\<exists>r rq'. check_preempt_tick K G a r1 = Some (r, rq') \<and> rq' \<in> {r2, clear_buddies a r2}"
      by (auto simp: check_preempt_tick_def s b Let_def)
    then show ?thesis
      using that c cl u True by (auto simp: entity_tick_def)
  qed
qed

section \<open>Weights\<close>

lemma calm_se_load:
  assumes "\<And>e. se_on_rq (f e) = se_on_rq e" and "\<And>e. se_vruntime (f e) = se_vruntime e"
    and "\<And>e. lw_weight (se_load (f e)) = lw_weight (se_load e)"
  shows "calm ord rq (ent_update a f rq)"
  using same_books_ent [where f = f and a = a and rq = rq] assms by (simp add: calm_def ents_ent_update)

text \<open>The weight of an entity changes, and that of the runqueue with it when it is queued.\<close>

definition reweighed :: "nat \<Rightarrow> u64 \<Rightarrow> 't fair_rq \<Rightarrow> 't fair_rq" where
  "reweighed a w rq =
     (let d = (if a \<in> queued rq then (\<lambda>l. update_load_add (update_load_sub l (lw_weight (se_load (ents rq a)))) w) else id)
      in ent_update a (\<lambda>e. e\<lparr>se_load := update_load_set (se_load e) w\<rparr>) (rq\<lparr>rq_load := d (rq_load rq)\<rparr>))"

lemma reweighed_ok:
  assumes ok: "queue_ok ord rq"
    and room: "a \<in> queued rq \<Longrightarrow> (\<Sum>b\<in>queued rq - {a}. se_weight rq b) + unat w < max_load"
  shows "queue_ok ord (reweighed a w rq)" and "queued (reweighed a w rq) = queued rq"
    and "tl_sorted ord rq \<Longrightarrow> tl_sorted ord (reweighed a w rq)"
    and "cfs_curr (reweighed a w rq) = cfs_curr rq" and "cfs_h_nr_running (reweighed a w rq) = cfs_h_nr_running rq"
proof -
  let ?rq = "reweighed a w rq"
  show q: "queued ?rq = queued rq"
    by (auto simp: reweighed_def queued_def ent_update_def Let_def)
  show c: "cfs_curr ?rq = cfs_curr rq" "cfs_h_nr_running ?rq = cfs_h_nr_running rq"
    by (simp_all add: reweighed_def ent_update_def Let_def)
  have same: "cfs_nr_running ?rq = cfs_nr_running rq" "timeline ?rq = timeline rq" "cfs_next ?rq = cfs_next rq"
    "cfs_last ?rq = cfs_last rq" "cfs_skip ?rq = cfs_skip rq"
    "\<And>b. se_weight ?rq b = (if b = a then unat w else se_weight rq b)"
    "entity_less ?rq = entity_less rq"
    by (auto simp: reweighed_def ent_update_def update_load_set_def entity_less_def entity_before_def Let_def fun_eq_iff)
  have fin: "finite (queued rq)" and load: "unat (lw_weight (rq_load rq)) = (\<Sum>b\<in>queued rq. se_weight rq b)"
    using ok by (auto simp: queue_ok_def)
  have "unat (lw_weight (rq_load ?rq)) = (\<Sum>b\<in>queued ?rq. se_weight ?rq b) \<and>
      (\<Sum>b\<in>queued ?rq. se_weight ?rq b) < max_load \<and> inv_ok (rq_load ?rq)"
  proof (cases "a \<in> queued rq")
    case True
    have old: "(\<Sum>b\<in>queued rq. se_weight rq b) = se_weight rq a + (\<Sum>b\<in>queued rq - {a}. se_weight rq b)"
      using sum.remove [OF fin True] by simp
    have new: "(\<Sum>b\<in>queued ?rq. se_weight ?rq b) = unat w + (\<Sum>b\<in>queued rq - {a}. se_weight rq b)"
    proof -
      have "(\<Sum>b\<in>queued rq - {a}. se_weight ?rq b) = (\<Sum>b\<in>queued rq - {a}. se_weight rq b)"
        by (rule sum.cong) (auto simp: same)
      then show ?thesis unfolding q using sum.remove [OF fin True, of "se_weight ?rq"] by (simp only: same simp_thms if_True)
    qed
    have "lw_weight (rq_load ?rq) = lw_weight (rq_load rq) - lw_weight (se_load (ents rq a)) + w"
      using True by (simp add: reweighed_def ent_update_def update_load_add_def update_load_sub_def Let_def)
    moreover have "unat (lw_weight (rq_load rq) - lw_weight (se_load (ents rq a))) = (\<Sum>b\<in>queued rq - {a}. se_weight rq b)"
      using load old by (simp add: unat_sub word_le_nat_alt)
    ultimately have "unat (lw_weight (rq_load ?rq)) = (\<Sum>b\<in>queued rq - {a}. se_weight rq b) + unat w"
      using room [OF True] by (simp add: unat_u64_add_small)
    moreover have "inv_ok (rq_load ?rq)"
      using True by (simp add: reweighed_def ent_update_def update_load_add_def inv_ok_def Let_def)
    ultimately show ?thesis using new room [OF True] by simp
  next
    case False
    then have "(\<Sum>b\<in>queued ?rq. se_weight ?rq b) = (\<Sum>b\<in>queued rq. se_weight rq b)"
      unfolding q by (intro sum.cong) (auto simp: same)
    moreover have "rq_load ?rq = rq_load rq" using False by (simp add: reweighed_def ent_update_def Let_def)
    ultimately show ?thesis using ok by (simp add: queue_ok_def)
  qed
  then show "queue_ok ord ?rq"
    using ok unfolding queue_ok_def buddies_ok_def q c same(1-5) by (elim conjE) (simp only: simp_thms)
  show "tl_sorted ord rq \<Longrightarrow> tl_sorted ord ?rq" by (simp add: tl_sorted_def same)
qed

lemma reweight_entity_ok:
  assumes M: "kernel_math_ok K" and ok: "queue_ok ord rq"
    and room: "a \<in> queued rq \<Longrightarrow> (\<Sum>b\<in>queued rq - {a}. se_weight rq b) + unat w < max_load"
  obtains r rq' where "reweight_entity K now a w rq = Some rq'" and "calm ord rq r" and "rq' = reweighed a w r"
proof -
  obtain r1 where u: "update_curr K now rq = Some r1" and c1: "calm ord rq r1"
    by (rule calm_update_curr [OF M ok])
  let ?r = "if a \<in> queued rq \<and> cfs_curr rq = Ref a then r1 else rq"
  have c: "calm ord rq ?r" using c1 by simp
  have on: "a \<in> queued r \<longleftrightarrow> se_on_rq (ents r a) \<noteq> 0" for r :: "'a fair_rq"
    by (simp add: queued_def)
  have q1: "queued r1 = queued rq" by (rule calm_fields(1) [OF c1])
  have "reweight_entity K now a w rq = Some (reweighed a w ?r)"
  proof (cases "a \<in> queued rq")
    case True
    then have "se_on_rq (ents rq a) \<noteq> 0" "se_on_rq (ents r1 a) \<noteq> 0" using q1 by (simp_all flip: on)
    then show ?thesis
      by (cases "cfs_curr rq = Ref a")
        (simp_all add: u on reweight_entity_def reweighed_def ent_update_def update_load_set_def Let_def)
  next
    case False
    then have "se_on_rq (ents rq a) = 0" by (simp add: on)
    then show ?thesis by (simp add: on reweight_entity_def reweighed_def ent_update_def Let_def)
  qed
  then show ?thesis using that c by blast
qed

end
