(* ===== verification/Kernel_Sched_Tasks.thy ===== *)
theory Kernel_Sched_Tasks
  imports Kernel_Sched_Ops
begin

text \<open>
  The operations on tasks, one by one: enqueueing, dequeueing, fork, tick, wakeup, yield, and the
  change of the running task. Under the invariant \<open>sched_ok\<close> each is defined and keeps it; the
  picked task has the least vruntime of all, or one a scaled wakeup granularity after it.
\<close>

section \<open>Tasks\<close>

definition idle_queued :: "'t sched_rq \<Rightarrow> nat set" where
  "idle_queued rq = {a \<in> queued (cfs rq). task_has_idle_policy rq a}"

text \<open>
  The invariant of the class: the books of the runqueue agree, its timeline is sorted, and its
  three counters of tasks count the entities that are on it. All tasks are fair ones.
\<close>

definition sched_ok :: "('t \<Rightarrow> nat list) \<Rightarrow> 't sched_rq \<Rightarrow> bool" where
  "sched_ok ord rq \<longleftrightarrow> queue_ok ord (cfs rq) \<and> tl_sorted ord (cfs rq) \<and>
     cfs_h_nr_running (cfs rq) = of_nat (card (queued (cfs rq))) \<and>
     rq_nr_running rq = of_nat (card (queued (cfs rq))) \<and>
     idle_h_nr_running rq = of_nat (card (idle_queued rq))"

lemma sched_okD:
  assumes "sched_ok ord rq"
  shows "queue_ok ord (cfs rq)" "tl_sorted ord (cfs rq)" "finite (queued (cfs rq))"
  using assms by (auto simp: sched_ok_def queue_ok_def)

text \<open>The part of the state the invariant is about.\<close>

definition same_view :: "'t sched_rq \<Rightarrow> 't sched_rq \<Rightarrow> bool" where
  "same_view rq rq' \<longleftrightarrow> rq_nr_running rq' = rq_nr_running rq \<and>
     idle_h_nr_running rq' = idle_h_nr_running rq \<and> policies rq' = policies rq"

lemma sched_ok_books:
  assumes "sched_ok ord rq" and "same_view rq rq'" and "queue_ok ord (cfs rq')" and "tl_sorted ord (cfs rq')"
    and "queued (cfs rq') = queued (cfs rq)" and "cfs_h_nr_running (cfs rq') = cfs_h_nr_running (cfs rq)"
  shows "sched_ok ord rq'"
  using assms by (simp add: sched_ok_def same_view_def idle_queued_def task_has_idle_policy_def)

lemma sched_ok_calm:
  assumes "sched_ok ord rq" and "calm ord (cfs rq) (cfs rq')" and "same_view rq rq'"
  shows "sched_ok ord rq'"
  using sched_okD [OF assms(1)] assms(2)
  by (intro sched_ok_books [OF assms(1,3)]) (simp_all add: calm_ok calm_sorted calm_fields)

lemma enqueue_task_fair_ok:
  assumes M: "kernel_math_ok (lib E)" and K: "rb_ok (lib E) ord" and ok: "sched_ok ord rq"
    and p: "p \<notin> queued (cfs rq)" "card (queued (cfs rq)) + 1 < 2 ^ 32"
      "(\<Sum>b\<in>queued (cfs rq). se_weight (cfs rq) b) + se_weight (cfs rq) p < max_load"
  obtains rq' where "enqueue_task_fair E now p flags rq = Some rq'" and "in_span (cfs rq') \<Longrightarrow> sched_ok ord rq'"
    and "queued (cfs rq') = insert p (queued (cfs rq))" and "cfs_curr (cfs rq') = cfs_curr (cfs rq)"
proof -
  note ok' = sched_okD [OF ok]
  obtain c where c: "enqueue_entity_fair (lib E) (conf E) now p flags (cfs rq) = Some c" "queue_ok ord c"
    "queued c = insert p (queued (cfs rq))" "tl_sorted ord (cfs rq) \<Longrightarrow> in_span c \<Longrightarrow> tl_sorted ord c"
    "cfs_h_nr_running c = cfs_h_nr_running (cfs rq)" "cfs_curr c = cfs_curr (cfs rq)"
    by (rule enqueue_entity_fair_ok [OF M K ok'(1) p]) blast
  let ?c = "c\<lparr>cfs_h_nr_running := cfs_h_nr_running c + 1\<rparr>"
  let ?rq' = "rq\<lparr>cfs := ?c, idle_h_nr_running := idle_h_nr_running rq + (if task_has_idle_policy rq p then 1 else 0),
    rq_nr_running := rq_nr_running rq + 1\<rparr>"
  have eq: "enqueue_task_fair E now p flags rq = Some ?rq'"
    using p(1) c(1) by (simp add: enqueue_task_fair_def on_cfs_opt_def on_cfs_def count_enqueued_def queued_def
        task_has_idle_policy_def Let_def)
  have q: "queued ?c = insert p (queued (cfs rq))" using c(3) by (simp add: queued_def)
  have "idle_queued ?rq' = (if task_has_idle_policy rq p then insert p (idle_queued rq) else idle_queued rq)"
    using q by (auto simp: idle_queued_def task_has_idle_policy_def)
  moreover have "finite (idle_queued rq)" "p \<notin> idle_queued rq"
    using ok'(3) p(1) by (simp_all add: idle_queued_def)
  ultimately have idle: "card (idle_queued ?rq') = card (idle_queued rq) + (if task_has_idle_policy rq p then 1 else 0)"
    by simp
  have "queue_ok ord ?c" using c(2) by (simp add: queue_ok_def queued_def buddies_ok_def)
  moreover have "tl_sorted ord ?c" if "in_span ?c"
  proof -
    have "in_span c" using that by (simp add: in_span_def queued_def)
    then show ?thesis using c(4) ok'(2) by (simp add: tl_sorted_def entity_less_def)
  qed
  moreover have "card (queued ?c) = card (queued (cfs rq)) + 1"
    unfolding q using ok'(3) p(1) by simp
  ultimately have "sched_ok ord ?rq'" if "in_span ?c"
    using that ok c(5) idle by (simp add: sched_ok_def)
  then show ?thesis using that [OF eq] q c(6) by simp
qed

lemma dequeue_task_fair_ok:
  assumes M: "kernel_math_ok (lib E)" and K: "rb_ok (lib E) ord" and ok: "sched_ok ord rq" and p: "p \<in> queued (cfs rq)"
  obtains rq' where "dequeue_task_fair E now jiffies p flags rq = Some rq'" and "sched_ok ord rq'"
    and "queued (cfs rq') = queued (cfs rq) - {p}"
proof -
  note ok' = sched_okD [OF ok]
  obtain c where c: "dequeue_entity_fair (lib E) now p flags (cfs rq) = Some c" "queue_ok ord c"
    "queued c = queued (cfs rq) - {p}" "tl_sorted ord (cfs rq) \<Longrightarrow> tl_sorted ord c"
    "cfs_h_nr_running c = cfs_h_nr_running (cfs rq)"
    by (rule dequeue_entity_fair_ok [OF M K ok'(1) p]) blast
  define c' where "c' = c\<lparr>cfs_h_nr_running := cfs_h_nr_running c - 1\<rparr>"
  define r where "r = rq\<lparr>cfs := c', idle_h_nr_running := idle_h_nr_running rq - (if task_has_idle_policy rq p then 1 else 0),
    rq_nr_running := rq_nr_running rq - 1\<rparr>"
  let ?rq' = "if \<not> sched_idle_rq rq \<and> sched_idle_rq r then r\<lparr>next_balance := jiffies\<rparr> else r"
  have eq: "dequeue_task_fair E now jiffies p flags rq = Some ?rq'"
    using c(1) by (simp add: dequeue_task_fair_def on_cfs_opt_def on_cfs_def count_dequeued_def
        task_has_idle_policy_def r_def c'_def Let_def)
  have f: "cfs r = c'" "rq_nr_running r = rq_nr_running rq - 1" "queued c' = queued (cfs rq) - {p}"
    "idle_h_nr_running r = idle_h_nr_running rq - (if task_has_idle_policy rq p then 1 else 0)"
    "cfs_h_nr_running c' = cfs_h_nr_running (cfs rq) - 1" "task_has_idle_policy r = task_has_idle_policy rq"
    using c(3,5) by (simp_all add: r_def c'_def queued_def task_has_idle_policy_def fun_eq_iff)
  have "idle_queued r = (if task_has_idle_policy rq p then idle_queued rq - {p} else idle_queued rq)"
    by (auto simp: idle_queued_def f)
  moreover have "finite (idle_queued rq)" using ok'(3) by (simp add: idle_queued_def)
  ultimately have idle: "card (idle_queued rq) = card (idle_queued r) + (if task_has_idle_policy rq p then 1 else 0)"
    using card_Suc_Diff1 [of "idle_queued rq" p] p by (auto simp: idle_queued_def)
  have card: "card (queued (cfs rq)) = card (queued c') + 1"
    unfolding f using card_Suc_Diff1 [OF ok'(3) p] by simp
  have counts: "cfs_h_nr_running (cfs rq) = of_nat (card (queued c') + 1)" "rq_nr_running rq = of_nat (card (queued c') + 1)"
    "idle_h_nr_running rq = of_nat (card (idle_queued r) + (if task_has_idle_policy rq p then 1 else 0))"
    using ok unfolding sched_ok_def card idle by blast+
  have "cfs_h_nr_running c' = of_nat (card (queued c'))" "rq_nr_running r = of_nat (card (queued c'))"
    "idle_h_nr_running r = of_nat (card (idle_queued r))"
    unfolding f(2,4,5) counts by (cases "task_has_idle_policy rq p"; simp)+
  moreover have "queue_ok ord c'" using c(2) by (simp add: c'_def queue_ok_def queued_def buddies_ok_def)
  moreover have "tl_sorted ord c'" using c(4) ok'(2) by (simp add: c'_def tl_sorted_def entity_less_def)
  ultimately have "sched_ok ord r" by (simp only: sched_ok_def f(1) simp_thms)
  then have "sched_ok ord ?rq'"
    by (rule sched_ok_calm) (simp_all add: same_view_def)
  then show ?thesis using that [OF eq] f by simp
qed

lemma on_cfs_simps [simp]:
  "cfs (on_cfs f rq) = f (cfs rq)" "rq_nr_running (on_cfs f rq) = rq_nr_running rq"
  "idle_h_nr_running (on_cfs f rq) = idle_h_nr_running rq" "policies (on_cfs f rq) = policies rq"
  "rq_curr (on_cfs f rq) = rq_curr rq"
  by (simp_all add: on_cfs_def)

lemma same_view_simps [simp]:
  "same_view rq rq" "same_view rq (on_cfs f rq)" "same_view rq (rq\<lparr>cfs := c\<rparr>)" "same_view rq (resched_curr rq)"
  by (simp_all add: same_view_def on_cfs_def resched_curr_def)

lemma cfs_resched [simp]: "cfs (resched_curr rq) = cfs rq"
  by (simp add: resched_curr_def)

lemma task_tick_fair_ok:
  assumes M: "kernel_math_ok (lib E)" and K: "rb_ok (lib E) ord" and ok: "sched_ok ord rq" and p: "p \<in> queued (cfs rq)"
  obtains rq' where "task_tick_fair E now p rq = Some rq'" and "sched_ok ord rq'"
proof -
  obtain r c where t: "entity_tick (lib E) (conf E) now p (cfs rq) = Some (r, c)" and c: "calm ord (cfs rq) c"
    by (rule entity_tick_ok [OF M K sched_okD(1) [OF ok] p])
  let ?rq' = "if r then resched_curr (rq\<lparr>cfs := c\<rparr>) else rq\<lparr>cfs := c\<rparr>"
  have "sched_ok ord ?rq'"
    by (rule sched_ok_calm [OF ok]) (use c in \<open>simp_all add: same_view_def resched_curr_def\<close>)
  then show ?thesis using that [of ?rq'] t by (simp add: task_tick_fair_def)
qed

text \<open>Operations that only touch buddies, the running entity and the mark for rescheduling.\<close>

definition quiet :: "('t \<Rightarrow> nat list) \<Rightarrow> 't sched_rq \<Rightarrow> 't sched_rq \<Rightarrow> bool" where
  "quiet ord rq rq' \<longleftrightarrow> calm ord (cfs rq) (cfs rq') \<and> same_view rq rq' \<and> rq_curr rq' = rq_curr rq"

lemma quiet_refl [simp]: "quiet ord rq rq"
  by (simp add: quiet_def)

lemma quiet_trans: "quiet ord a b \<Longrightarrow> quiet ord b c \<Longrightarrow> quiet ord a c"
  by (auto simp: quiet_def same_view_def intro: calm_trans)

lemma quiet_ok: "quiet ord rq rq' \<Longrightarrow> sched_ok ord rq \<Longrightarrow> sched_ok ord rq'"
  by (auto simp: quiet_def intro: sched_ok_calm)

lemma quiet_on_cfs: "calm ord (cfs rq) (f (cfs rq)) \<Longrightarrow> quiet ord rq (on_cfs f rq)"
  by (simp add: quiet_def)

lemma quiet_resched [simp]: "quiet ord rq (resched_curr rq)"
  by (simp add: quiet_def) (simp add: resched_curr_def)

lemma quiet_cfs: "calm ord (cfs rq) c \<Longrightarrow> quiet ord rq (rq\<lparr>cfs := c\<rparr>)"
  by (simp add: quiet_def)

lemma quiet_queued: "quiet ord rq rq' \<Longrightarrow> queued (cfs rq') = queued (cfs rq)"
  by (auto simp: quiet_def calm_fields)

lemma quiet_update_curr:
  assumes "kernel_math_ok K" and "sched_ok ord rq"
  obtains rq' where "on_cfs_opt (update_curr K now) rq = Some rq'" and "quiet ord rq rq'"
proof -
  obtain c where "update_curr K now (cfs rq) = Some c" "calm ord (cfs rq) c"
    by (rule calm_update_curr [OF assms(1) sched_okD(1) [OF assms(2)]])
  then show ?thesis using that quiet_cfs [of ord rq c] by (simp add: on_cfs_opt_def)
qed

lemma wakeup_preempt_entity_calm:
  assumes "kernel_math_ok K"
  obtains r rq' where "wakeup_preempt_entity K G a b rq = Some (r, rq')" and "calm ord rq rq'"
  by (cases "sint (se_vruntime (ents rq a) - se_vruntime (ents rq b)) \<le> 0")
    (auto simp: wakeup_preempt_entity_def wakeup_gran_def entity_delta_fair_view [OF assms] Let_def
      intro: that calm_refl calm_cached)

lemma check_preempt_wakeup_ok:
  fixes rq :: "'t sched_rq"
  assumes M: "kernel_math_ok (lib E)" and ok: "sched_ok ord rq"
  obtains rq' where "check_preempt_wakeup E now p fl rq = Some rq'" and "quiet ord rq rq'"
proof -
  define se where "se = rq_curr rq"
  define scale where "scale \<longleftrightarrow> sched_nr_latency (conf E) \<le> cfs_nr_running (cfs rq)"
  define marked where "marked \<longleftrightarrow> NEXT_BUDDY E \<and> scale \<and> fl AND WF_FORK = 0"
  define preempt where "preempt = (\<lambda>rq :: 't sched_rq. let rq = resched_curr rq in
    if se_on_rq (ents (cfs rq) se) = 0 \<or> rq_curr rq = rq_idle rq then rq
    else if LAST_BUDDY E \<and> scale then on_cfs (set_last_buddy se) rq else rq)"
  define r0 where "r0 = (if marked then on_cfs (set_next_buddy p) rq else rq)"
  define next' where "next' = (\<lambda>r :: 't sched_rq. if \<not> marked then on_cfs (set_next_buddy p) r else r)"
  have q0: "quiet ord rq r0" by (simp add: r0_def quiet_on_cfs)
  have pre: "quiet ord r (preempt r)" for r
    by (simp add: preempt_def Let_def) (meson quiet_resched quiet_on_cfs quiet_trans calm_set_last_buddy)
  have nx: "quiet ord r (next' r)" for r by (simp add: next'_def quiet_on_cfs)
  obtain r1 where u: "on_cfs_opt (update_curr (lib E) now) r0 = Some r1" and q1: "quiet ord r0 r1"
    by (rule quiet_update_curr [OF M quiet_ok [OF q0 ok]])
  obtain r c where w: "wakeup_preempt_entity (lib E) (conf E) se p (cfs r1) = Some (r, c)" and c: "calm ord (cfs r1) c"
    by (rule wakeup_preempt_entity_calm [OF M])
  let ?r2 = "r1\<lparr>cfs := c\<rparr>"
  have q2: "quiet ord rq ?r2" using q0 q1 quiet_cfs [OF c] by (meson quiet_trans)
  have eq: "check_preempt_wakeup E now p fl rq =
     (if se = p then Some rq
      else if need_resched r0 then Some r0
      else if task_has_idle_policy r0 se \<and> \<not> task_has_idle_policy r0 p then Some (preempt r0)
      else if policies r0 p \<noteq> SCHED_NORMAL \<or> \<not> WAKEUP_PREEMPTION E then Some r0
      else if r = 1 then Some (preempt (next' ?r2)) else Some ?r2)"
    unfolding check_preempt_wakeup_def Let_def se_def [symmetric] scale_def [symmetric] marked_def [symmetric]
      r0_def [symmetric] se_is_idle_def u w bind.bind_lunit
    by (simp add: preempt_def next'_def w Let_def)
  have "quiet ord rq (preempt r0)" by (rule quiet_trans [OF q0 pre])
  moreover have "quiet ord rq (preempt (next' ?r2))" by (rule quiet_trans [OF quiet_trans [OF q2 nx] pre])
  ultimately have "\<exists>rq'. check_preempt_wakeup E now p fl rq = Some rq' \<and> quiet ord rq rq'"
    unfolding eq using q0 q2 by simp
  then show ?thesis using that by blast
qed

lemma yield_task_fair_ok:
  assumes M: "kernel_math_ok (lib E)" and ok: "sched_ok ord rq" and run: "rq_curr rq \<in> queued (cfs rq)"
  obtains rq' where "yield_task_fair E now rq = Some rq'" and "quiet ord rq rq'"
proof (cases "rq_nr_running rq = 1")
  case True
  then show ?thesis using that [of rq] by (simp add: yield_task_fair_def Let_def)
next
  case False
  let ?se = "rq_curr rq" and ?r0 = "on_cfs (clear_buddies (rq_curr rq)) rq"
  have q0: "quiet ord rq ?r0" by (rule quiet_on_cfs) simp
  obtain r1 where u: "on_cfs_opt (update_curr (lib E) now) ?r0 = Some r1" and q1: "quiet ord ?r0 r1"
    by (rule quiet_update_curr [OF M quiet_ok [OF q0 ok]])
  let ?r2 = "if policies ?r0 ?se \<noteq> SCHED_BATCH then r1 else ?r0"
  have q2: "quiet ord rq ?r2" using q0 quiet_trans [OF q0 q1] by simp
  have "calm ord (cfs ?r2) (set_skip_buddy ?se (cfs ?r2))"
    by (rule calm_set_skip_buddy) (use run quiet_queued [OF q2] in simp)
  then have "quiet ord rq (on_cfs (set_skip_buddy ?se) ?r2)"
    by (rule quiet_trans [OF q2 quiet_on_cfs])
  moreover have "yield_task_fair E now rq = Some (on_cfs (set_skip_buddy ?se) ?r2)"
    using False u by (simp add: yield_task_fair_def Let_def)
  ultimately show ?thesis by (rule that [rotated])
qed

lemma yield_to_task_fair_ok:
  assumes M: "kernel_math_ok (lib E)" and ok: "sched_ok ord rq" and run: "rq_curr rq \<in> queued (cfs rq)"
  obtains r rq' where "yield_to_task_fair E now p rq = Some (r, rq')" and "quiet ord rq rq'"
proof (cases "se_on_rq (ents (cfs rq) p) = 0")
  case True
  then show ?thesis using that [of False rq] by (simp add: yield_to_task_fair_def)
next
  case False
  let ?r0 = "on_cfs (set_next_buddy p) rq"
  have q0: "quiet ord rq ?r0" by (rule quiet_on_cfs) simp
  have "rq_curr ?r0 \<in> queued (cfs ?r0)" using run quiet_queued [OF q0] by simp
  then obtain r1 where "yield_task_fair E now ?r0 = Some r1" and q1: "quiet ord ?r0 r1"
    by (rule yield_task_fair_ok [OF M quiet_ok [OF q0 ok]])
  then show ?thesis using that [of True r1] quiet_trans [OF q0 q1] False by (simp add: yield_to_task_fair_def)
qed

lemma task_fork_fair_ok:
  assumes M: "kernel_math_ok (lib E)" and ok: "sched_ok ord rq" and p: "p \<notin> queued (cfs rq)"
    and room: "(\<Sum>b\<in>queued (cfs rq). se_weight (cfs rq) b) + se_weight (cfs rq) p < max_load"
  obtains rq' where "task_fork_fair E now p rq = Some rq'" and "quiet ord rq rq'"
proof -
  note ok' = sched_okD [OF ok]
  have out: "x \<notin> set (ord (timeline c))" if "calm ord (cfs rq) c" "x \<notin> queued (cfs rq) \<or> cfs_curr (cfs rq) = Ref x" for c x
    using queue_ok_not_in_tree [OF ok'(1) that(2)] calm_fields(3) [OF that(1)] by simp
  obtain c1 where u: "update_curr (lib E) now (cfs rq) = Some c1" and q1: "calm ord (cfs rq) c1"
    by (rule calm_update_curr [OF M ok'(1)])
  define c2 where "c2 = (case cfs_curr (cfs rq) of NULL \<Rightarrow> cfs rq
    | Ref a \<Rightarrow> ent_update p (\<lambda>e. e\<lparr>se_vruntime := se_vruntime (ents c1 a)\<rparr>) c1)"
  have q2: "calm ord (cfs rq) c2"
    unfolding c2_def using calm_trans [OF q1 calm_ent [where rq = c1 and a = p and ord = ord]] out [OF q1, of p] p
    by (simp split: ptr.split)
  have s2: "(\<Sum>b\<in>queued c2. se_weight c2 b) + se_weight c2 p < max_load"
    using room by (simp add: calm_fields [OF q2])
  have p2: "p \<notin> queued c2" using p by (simp add: calm_fields(1) [OF q2])
  obtain c3 where pl: "place_entity (lib E) (conf E) p True c2 = Some c3" and "calm ord c2 c3"
    by (rule calm_place_new [OF M calm_ok [OF q2 ok'(1)] p2 s2])
  then have q3: "calm ord (cfs rq) c3" using q2 by (blast intro: calm_trans)
  define swapped where "swapped \<longleftrightarrow> (\<exists>a. cfs_curr (cfs rq) = Ref a \<and> child_runs_first E \<noteq> 0 \<and> entity_before (ents c3 a) (ents c3 p))"
  define c4 where "c4 = (case cfs_curr (cfs rq) of NULL \<Rightarrow> c3 | Ref a \<Rightarrow> if swapped then swap_vruntimes a p c3 else c3)"
  have q4: "calm ord (cfs rq) c4"
  proof (cases "cfs_curr (cfs rq)")
    case NULL
    then show ?thesis using q3 by (simp add: c4_def)
  next
    case (Ref a)
    have o: "a \<notin> set (ord (timeline c3))" "p \<notin> set (ord (timeline c3))" using out [OF q3] Ref p by simp_all
    have "calm ord c3 (swap_vruntimes a p c3)"
      unfolding swap_vruntimes_def Let_def
      by (rule calm_trans [OF calm_ent [where rq = c3 and a = a and ord = ord] calm_ent]) (use o in \<open>simp_all add: ent_update_def\<close>)
    then show ?thesis using q3 Ref by (auto simp: c4_def intro: calm_trans)
  qed
  let ?c5 = "add_vruntime p (- cfs_min_vruntime c4) c4"
  have "p \<notin> set (ord (timeline c4))" using out [OF q4] p by blast
  then have "calm ord c4 ?c5" by (rule calm_add_vruntime)
  then have q5: "calm ord (cfs rq) ?c5" by (rule calm_trans [OF q4])
  let ?rq' = "(if swapped then resched_curr rq else rq)\<lparr>cfs := ?c5\<rparr>"
  have "task_fork_fair E now p rq = Some ?rq'"
    by (cases "cfs_curr (cfs rq)") (use pl in \<open>auto simp: task_fork_fair_def u c2_def c4_def swapped_def Let_def\<close>)
  moreover have "quiet ord rq ?rq'" using q5 by (simp add: quiet_def same_view_def resched_curr_def)
  ultimately show ?thesis by (rule that)
qed

text \<open>The running entity changes.\<close>

lemma put_prev_task_fair_ok:
  assumes M: "kernel_math_ok (lib E)" and K: "rb_ok (lib E) ord" and ok: "sched_ok ord rq" and run: "cfs_curr (cfs rq) = Ref p"
  obtains rq' where "put_prev_task_fair E now p rq = Some rq'" and "in_span (cfs rq') \<Longrightarrow> sched_ok ord rq'"
    and "queued (cfs rq') = queued (cfs rq)" and "cfs_curr (cfs rq') = NULL" and "same_view rq rq'"
    and "queue_ok ord (cfs rq')"
proof -
  note ok' = sched_okD [OF ok]
  obtain c where c: "put_prev_entity (lib E) now p (cfs rq) = Some c" "queue_ok ord c" "queued c = queued (cfs rq)"
    "tl_sorted ord (cfs rq) \<Longrightarrow> in_span c \<Longrightarrow> tl_sorted ord c" "cfs_curr c = NULL"
    "cfs_h_nr_running c = cfs_h_nr_running (cfs rq)"
    by (rule put_prev_entity_ok [OF M K ok'(1) run]) blast
  let ?rq' = "rq\<lparr>cfs := c\<rparr>"
  have "sched_ok ord ?rq'" if "in_span c"
    by (rule sched_ok_books [OF ok]) (use c ok'(2) that in simp_all)
  then show ?thesis using that [of ?rq'] c by (simp add: put_prev_task_fair_def on_cfs_opt_def)
qed

lemma set_next_task_fair_ok:
  assumes K: "rb_ok (lib E) ord" and ok: "sched_ok ord rq" and idle: "cfs_curr (cfs rq) = NULL"
  shows "sched_ok ord (set_next_task_fair E now p rq)"
  using set_next_entity_ok [OF K sched_okD(1) [OF ok] idle] sched_okD(2) [OF ok]
  by (intro sched_ok_books [OF ok]) (simp_all add: set_next_task_fair_def)

lemma set_next_entity_ents:
  "se_vruntime (ents (set_next_entity K now a rq) b) = se_vruntime (ents rq b)"
  "se_load (ents (set_next_entity K now a rq) b) = se_load (ents rq b)"
  by (auto simp: set_next_entity_def update_stats_curr_start_def ent_update_def clear_buddies_def dequeue_entity_def Let_def)

text \<open>
  With nothing running the tree holds every queued entity, so its first node has the least vruntime;
  the choice is queued as well.
\<close>

lemma pick_entity_ok:
  assumes M: "kernel_math_ok K" and K: "rb_ok K ord" and ok: "queue_ok ord rq"
    and idle: "cfs_curr rq = NULL" and some: "queued rq \<noteq> {}"
  obtains s l rq' where "pick_next_entity K G NULL rq = Some (Ref s, rq')" and "calm ord rq rq'"
    and "s \<in> queued rq" and "l \<in> queued rq" and "tl_sorted ord rq \<Longrightarrow> \<forall>b\<in>queued rq. \<not> entity_less rq b l"
    and "s = l \<or> close_enough G l rq s" and "rq' \<in> {rq, cached l rq}"
proof -
  have tl: "set (ord (timeline rq)) = queued rq" using ok idle by (auto simp: queue_ok_def)
  then obtain l ls where l: "ord (timeline rq) = l # ls"
    using some by (cases "ord (timeline rq)") auto
  have first: "k_rb_first K (timeline rq) = Ref l" using rb_first [OF K, of "timeline rq"] l by simp
  have least: "\<forall>b\<in>queued rq. \<not> entity_less rq b l" if "tl_sorted ord rq"
    using that l by (auto simp: tl_sorted_def tl [symmetric] entity_less_def entity_before_def)
  have left: "pick_left K NULL rq = Ref l"
    by (simp add: pick_left_def pick_first_entity_def first before_ptr_def)
  obtain s rq' where p: "pick_next_entity K G NULL rq = Some (Ref s, rq')"
    "s = l \<or> close_enough G l rq s \<and> (Ref s \<in> {cfs_next rq, cfs_last rq} \<or> pick_second K NULL l rq = Ref s)"
    and r: "rq' \<in> {rq, cached l rq}"
    by (rule pick_next_view [OF M left, of G]) blast
  have "s \<in> queued rq" if "pick_second K NULL l rq = Ref s"
  proof -
    have "k_rb_next K (timeline rq) l = Ref s"
      using that by (auto simp: pick_second_def next_entity_def before_ptr_def Let_def split: if_splits)
    moreover have "l \<in> set (ord (timeline rq))" using l by simp
    ultimately show ?thesis using rb_next_in [OF K] unfolding tl [symmetric] by blast
  qed
  moreover have "b \<in> queued rq" if "Ref b \<in> {cfs_next rq, cfs_last rq}" for b
    using ok that by (auto simp: queue_ok_def buddies_ok_def)
  moreover have "l \<in> queued rq" using tl l by auto
  ultimately have "s \<in> queued rq" using p(2) by blast
  moreover have "calm ord rq rq'" using r by auto
  ultimately show ?thesis using that [OF p(1)] \<open>l \<in> queued rq\<close> least p(2) r by blast
qed

text \<open>The picked entity has the least vruntime of all, or one a scaled wakeup granularity after it.\<close>

definition picked :: "fair_config \<Rightarrow> 't fair_rq \<Rightarrow> nat \<Rightarrow> bool" where
  "picked G rq s \<longleftrightarrow> (\<exists>l\<in>queued rq. (\<forall>b\<in>queued rq. \<not> entity_before (ents rq b) (ents rq l)) \<and>
     (s = l \<or> close_enough G l rq s))"

lemma picked_cong:
  assumes "picked G rq s" and "queued rq' = queued rq" and "\<And>a. se_vruntime (ents rq' a) = se_vruntime (ents rq a)"
    and "\<And>d a. fair_scaled d (se_load (ents rq' a)) = fair_scaled d (se_load (ents rq a))"
  shows "picked G rq' s"
  using assms unfolding picked_def entity_before_def close_enough_def by simp

lemma pick_next_task_fair_ok:
  assumes M: "kernel_math_ok (lib E)" and K: "rb_ok (lib E) ord" and ok: "sched_ok ord rq" and prev: "cfs_curr (cfs rq) = prev"
  obtains r rq' where "pick_next_task_fair E now prev rq = Some (r, rq')" and "in_span (cfs rq') \<Longrightarrow> sched_ok ord rq'"
    and "queued (cfs rq') = queued (cfs rq)"
    and "queued (cfs rq) \<noteq> {} \<Longrightarrow> \<exists>s. r = Ref s \<and> s \<in> queued (cfs rq) \<and> cfs_curr (cfs rq') = Ref s \<and>
      (in_span (cfs rq') \<longrightarrow> picked (conf E) (cfs rq') s)"
proof (cases "cfs_nr_running (cfs rq) = 0")
  case True
  have "unat (cfs_nr_running (cfs rq)) = card (queued (cfs rq))" "finite (queued (cfs rq))"
    using sched_okD(1) [OF ok] by (simp_all add: queue_ok_def unat_of_nat)
  then have "queued (cfs rq) = {}" using True by simp
  then show ?thesis using that [of NULL rq] True ok by (simp add: pick_next_task_fair_def)
next
  case False
  then have some: "queued (cfs rq) \<noteq> {}" using sched_okD(1) [OF ok] by (auto simp: queue_ok_def)
  have "\<exists>rq1. (case prev of NULL \<Rightarrow> Some rq | Ref q \<Rightarrow> put_prev_task_fair E now q rq) = Some rq1 \<and>
      (in_span (cfs rq1) \<longrightarrow> sched_ok ord rq1) \<and> queued (cfs rq1) = queued (cfs rq) \<and> cfs_curr (cfs rq1) = NULL \<and>
      queue_ok ord (cfs rq1)"
  proof (cases prev)
    case NULL
    then show ?thesis using ok prev sched_okD(1) by simp
  next
    case (Ref q)
    then have "cfs_curr (cfs rq) = Ref q" using prev by simp
    then show ?thesis using Ref by (auto elim: put_prev_task_fair_ok [OF M K ok, of q now])
  qed
  then obtain rq1 where put: "(case prev of NULL \<Rightarrow> Some rq | Ref q \<Rightarrow> put_prev_task_fair E now q rq) = Some rq1"
    and ok1: "in_span (cfs rq1) \<Longrightarrow> sched_ok ord rq1" "queued (cfs rq1) = queued (cfs rq)" "cfs_curr (cfs rq1) = NULL"
      "queue_ok ord (cfs rq1)" by blast
  obtain s l c where p: "pick_next_entity (lib E) (conf E) NULL (cfs rq1) = Some (Ref s, c)" "calm ord (cfs rq1) c"
    "s \<in> queued (cfs rq1)" "l \<in> queued (cfs rq1)" "tl_sorted ord (cfs rq1) \<Longrightarrow> \<forall>b\<in>queued (cfs rq1). \<not> entity_less (cfs rq1) b l"
    "s = l \<or> close_enough (conf E) l (cfs rq1) s" "c \<in> {cfs rq1, cached l (cfs rq1)}"
    by (rule pick_entity_ok [OF M K ok1(4,3), of "conf E"]) (use some ok1(2) in simp, blast)
  let ?c' = "set_next_entity (lib E) now s c"
  let ?rq' = "rq1\<lparr>cfs := ?c'\<rparr>"
  have eq: "pick_next_task_fair E now prev rq = Some (Ref s, ?rq')"
    using False put p(1) by (simp add: pick_next_task_fair_def)
  have vr: "se_vruntime (ents ?c' a) = se_vruntime (ents (cfs rq1) a)"
    "fair_scaled d (se_load (ents ?c' a)) = fair_scaled d (se_load (ents (cfs rq1) a))" for a d
    using p(7) by (auto simp: set_next_entity_ents)
  have idle: "cfs_curr c = NULL" using ok1(3) by (simp add: calm_fields(2) [OF p(2)])
  note next' = set_next_entity_ok [OF K calm_ok [OF p(2) ok1(4)] idle, of now s]
  have q: "queued ?c' = queued (cfs rq1)" by (simp add: next'(2) calm_fields(1) [OF p(2)])
  have span: "sched_ok ord rq1" if "in_span ?c'"
    by (rule ok1(1)) (use that q vr(1) in \<open>simp add: in_span_def\<close>)
  have "sched_ok ord ?rq'" if "in_span ?c'"
  proof (rule sched_ok_books [OF span [OF that]])
    show "tl_sorted ord (cfs ?rq')"
      using next'(3) [OF calm_sorted [OF p(2) sched_okD(2) [OF span [OF that]]]] by simp
  qed (use next' q p(2) in \<open>simp_all add: calm_fields\<close>)
  moreover have "picked (conf E) ?c' s" if "in_span ?c'"
  proof -
    have "picked (conf E) (cfs rq1) s"
      using p(4-6) sched_okD(2) [OF span [OF that]] unfolding picked_def entity_less_def by blast
    then show ?thesis by (rule picked_cong [OF _ q vr])
  qed
  ultimately show ?thesis
    using that [OF eq] next'(4) q ok1(2) p(3) by simp
qed

end
