(* ===== verification/Kernel_Sched_Run.thy ===== *)
theory Kernel_Sched_Run
  imports Kernel_Sched_Tasks
begin

text \<open>
  Any sequence of calls of the fair scheduling class, from a runqueue after boot: the step function
  \<open>sched_op\<close> over events, when each is called (\<open>sched_enabled\<close>), the reachable states, and what holds in
  all of them. At the end, the vruntime of a task that moves from one CPU to another.
\<close>

section \<open>Events\<close>

text \<open>
  The calls of the scheduler core, in any order, each with the reading of the clock. \<open>Switch\<close> is
  the context switch that follows a pick, \<open>Setscheduler\<close> the change of a policy, which the core
  makes while the task is off the runqueue.
\<close>

datatype sched_event =
  Enqueue u64 nat u32
| Dequeue u64 u64 nat u32
| Pick u64 "nat ptr"
| Put_Prev u64 nat
| Set_Next u64 nat
| Tick u64 nat
| Fork u64 nat
| Wakeup u64 nat u32
| Yield u64
| Yield_To u64 nat
| Reweight u64 nat nat
| Detach bool bool nat
| Attach bool bool nat
| Switch nat
| Setscheduler nat policy

fun sched_op ::
  "'t class_env \<Rightarrow> (nat \<Rightarrow> u64) \<Rightarrow> (nat \<Rightarrow> u32) \<Rightarrow> sched_event \<Rightarrow> 't sched_rq \<Rightarrow> 't sched_rq option" where
  "sched_op E W I (Enqueue now p flags) rq = enqueue_task_fair E now p flags rq"
| "sched_op E W I (Dequeue now jiffies p flags) rq = dequeue_task_fair E now jiffies p flags rq"
| "sched_op E W I (Pick now prev) rq = map_option snd (pick_next_task_fair E now prev rq)"
| "sched_op E W I (Put_Prev now p) rq = put_prev_task_fair E now p rq"
| "sched_op E W I (Set_Next now p) rq = Some (set_next_task_fair E now p rq)"
| "sched_op E W I (Tick now p) rq = task_tick_fair E now p rq"
| "sched_op E W I (Fork now p) rq = task_fork_fair E now p rq"
| "sched_op E W I (Wakeup now p flags) rq = check_preempt_wakeup E now p flags rq"
| "sched_op E W I (Yield now) rq = yield_task_fair E now rq"
| "sched_op E W I (Yield_To now p) rq = map_option snd (yield_to_task_fair E now p rq)"
| "sched_op E W I (Reweight now p prio) rq = on_cfs_opt (reweight_task (lib E) now W I p prio) rq"
| "sched_op E W I (Detach b w p) rq = on_cfs_opt (detach_task_cfs_rq E b w p) rq"
| "sched_op E W I (Attach b w p) rq = Some (on_cfs (attach_task_cfs_rq b w p) rq)"
| "sched_op E W I (Switch p) rq = Some (rq\<lparr>rq_curr := p, need_resched := False\<rparr>)"
| "sched_op E W I (Setscheduler p pol) rq = Some (rq\<lparr>policies := (policies rq)(p := pol)\<rparr>)"

definition total_weight :: "'t fair_rq \<Rightarrow> nat" where
  "total_weight rq = (\<Sum>a\<in>queued rq. se_weight rq a)"

text \<open>
  When the core makes the calls: a task is enqueued when it is not on the runqueue and dequeued
  when it is, the running one is put back before another is set, the tick and yield are for a
  queued task. The total weight stays below \<open>2 ^ 42 - 2 ^ 10\<close>, that is below 48000 tasks of the
  largest weight.
\<close>

fun sched_enabled :: "(nat \<Rightarrow> u64) \<Rightarrow> sched_event \<Rightarrow> 't sched_rq \<Rightarrow> bool" where
  "sched_enabled W (Enqueue now p flags) rq \<longleftrightarrow> p \<notin> queued (cfs rq) \<and> card (queued (cfs rq)) + 1 < 2 ^ 32 \<and>
     total_weight (cfs rq) + se_weight (cfs rq) p < max_load"
| "sched_enabled W (Dequeue now jiffies p flags) rq \<longleftrightarrow> p \<in> queued (cfs rq)"
| "sched_enabled W (Pick now prev) rq \<longleftrightarrow> cfs_curr (cfs rq) = prev"
| "sched_enabled W (Put_Prev now p) rq \<longleftrightarrow> cfs_curr (cfs rq) = Ref p"
| "sched_enabled W (Set_Next now p) rq \<longleftrightarrow> cfs_curr (cfs rq) = NULL"
| "sched_enabled W (Tick now p) rq \<longleftrightarrow> p \<in> queued (cfs rq)"
| "sched_enabled W (Fork now p) rq \<longleftrightarrow> p \<notin> queued (cfs rq) \<and> total_weight (cfs rq) + se_weight (cfs rq) p < max_load"
| "sched_enabled W (Wakeup now p flags) rq \<longleftrightarrow> True"
| "sched_enabled W (Yield now) rq \<longleftrightarrow> rq_curr rq \<in> queued (cfs rq)"
| "sched_enabled W (Yield_To now p) rq \<longleftrightarrow> rq_curr rq \<in> queued (cfs rq)"
| "sched_enabled W (Reweight now p prio) rq \<longleftrightarrow>
     (p \<in> queued (cfs rq) \<longrightarrow> total_weight (cfs rq) + unat (scale_load (W prio)) < max_load + se_weight (cfs rq) p)"
| "sched_enabled W (Detach b w p) rq \<longleftrightarrow> p \<notin> queued (cfs rq)"
| "sched_enabled W (Attach b w p) rq \<longleftrightarrow> p \<notin> queued (cfs rq)"
| "sched_enabled W (Switch p) rq \<longleftrightarrow> True"
| "sched_enabled W (Setscheduler p pol) rq \<longleftrightarrow> p \<notin> queued (cfs rq)"

section \<open>The remaining operations\<close>

lemma reweight_task_ok:
  assumes M: "kernel_math_ok K" and ok: "sched_ok ord rq"
    and room: "p \<in> queued (cfs rq) \<Longrightarrow> total_weight (cfs rq) + unat (scale_load (W prio)) < max_load + se_weight (cfs rq) p"
  obtains rq' where "on_cfs_opt (reweight_task K now W I p prio) rq = Some rq'" and "sched_ok ord rq'"
proof -
  note ok' = sched_okD [OF ok]
  let ?w = "scale_load (W prio)"
  have room': "(\<Sum>b\<in>queued (cfs rq) - {p}. se_weight (cfs rq) b) + unat ?w < max_load" if "p \<in> queued (cfs rq)"
    using room [OF that] sum.remove [OF ok'(3) that, of "se_weight (cfs rq)"] by (simp add: total_weight_def)
  obtain c c' where r: "reweight_entity K now p ?w (cfs rq) = Some c'" "calm ord (cfs rq) c" "c' = reweighed p ?w c"
    by (rule reweight_entity_ok [OF M ok'(1) room'])
  have room2: "(\<Sum>b\<in>queued c - {p}. se_weight c b) + unat ?w < max_load" if "p \<in> queued c"
    using room' that by (simp add: calm_fields [OF r(2)])
  note rw = reweighed_ok [OF calm_ok [OF r(2) ok'(1)] room2, folded r(3)]
  let ?c = "ent_update p (\<lambda>e. e\<lparr>se_load := (se_load e)\<lparr>inv_weight := I prio\<rparr>\<rparr>) c'"
  have "calm ord c' ?c" by (rule calm_se_load) simp_all
  then have "sched_ok ord (rq\<lparr>cfs := ?c\<rparr>)"
    using rw calm_sorted [OF r(2) ok'(2)]
    by (intro sched_ok_books [OF ok]) (simp_all add: calm_ok calm_sorted calm_fields calm_fields [OF r(2)])
  then show ?thesis using that r(1) by (simp add: on_cfs_opt_def reweight_task_def)
qed

lemma detach_task_cfs_rq_ok:
  assumes ok: "sched_ok ord rq" and p: "p \<notin> queued (cfs rq)"
  obtains rq' where "on_cfs_opt (detach_task_cfs_rq E b w p) rq = Some rq'" and "quiet ord rq rq'"
proof (cases "vruntime_normalized b w (ents (cfs rq) p)")
  case True
  then show ?thesis using that [of rq] by (simp add: on_cfs_opt_def detach_task_cfs_rq_def)
next
  case False
  have out: "p \<notin> set (ord (timeline (cfs rq)))" using queue_ok_not_in_tree [OF sched_okD(1) [OF ok]] p by blast
  obtain c where c: "place_entity (lib E) (conf E) p False (cfs rq) = Some c" "calm ord (cfs rq) c"
    by (rule calm_place_woken [where ord = ord and rq = "cfs rq", OF out])
  have "p \<notin> set (ord (timeline c))" using out by (simp add: calm_fields(3) [OF c(2)])
  then have "calm ord (cfs rq) (add_vruntime p (- cfs_min_vruntime c) c)"
    by (rule calm_trans [OF c(2) calm_add_vruntime])
  then show ?thesis using that quiet_cfs [of ord rq] c(1) False by (simp add: on_cfs_opt_def detach_task_cfs_rq_def)
qed

lemma attach_task_cfs_rq_ok:
  assumes ok: "sched_ok ord rq" and p: "p \<notin> queued (cfs rq)"
  shows "quiet ord rq (on_cfs (attach_task_cfs_rq b w p) rq)"
proof (rule quiet_on_cfs)
  have "p \<notin> set (ord (timeline (cfs rq)))" using queue_ok_not_in_tree [OF sched_okD(1) [OF ok]] p by blast
  then show "calm ord (cfs rq) (attach_task_cfs_rq b w p (cfs rq))"
    by (simp add: attach_task_cfs_rq_def calm_add_vruntime)
qed

section \<open>Every event\<close>

lemma sched_op_ok:
  assumes M: "kernel_math_ok (lib E)" and K: "rb_ok (lib E) ord" and ok: "sched_ok ord rq" and en: "sched_enabled W ev rq"
  shows "\<exists>rq'. sched_op E W I ev rq = Some rq' \<and> (in_span (cfs rq') \<longrightarrow> sched_ok ord rq')"
proof (cases ev)
  case (Enqueue now p flags)
  then show ?thesis using en by (auto simp: total_weight_def elim: enqueue_task_fair_ok [OF M K ok, of p now flags])
next
  case (Dequeue now jiffies p flags)
  then show ?thesis using en by (auto elim: dequeue_task_fair_ok [OF M K ok, of p now jiffies flags])
next
  case (Pick now prev)
  then have "cfs_curr (cfs rq) = prev" using en by simp
  then show ?thesis by (rule pick_next_task_fair_ok [OF M K ok, of prev now]) (use Pick in auto)
next
  case (Put_Prev now p)
  then show ?thesis using en by (auto elim: put_prev_task_fair_ok [OF M K ok, of p now])
next
  case (Set_Next now p)
  then show ?thesis using en set_next_task_fair_ok [OF K ok, of now p] by simp
next
  case (Tick now p)
  then show ?thesis using en by (auto elim: task_tick_fair_ok [OF M K ok, of p now])
next
  case (Fork now p)
  then show ?thesis using en quiet_ok [OF _ ok]
    by (auto simp: total_weight_def elim!: task_fork_fair_ok [OF M ok, of p now])
next
  case (Wakeup now p flags)
  then show ?thesis
    by - (rule check_preempt_wakeup_ok [OF M ok, of now p flags], use quiet_ok [OF _ ok] in auto)
next
  case (Yield now)
  then show ?thesis using en quiet_ok [OF _ ok] by (auto elim!: yield_task_fair_ok [OF M ok, of now])
next
  case (Yield_To now p)
  then show ?thesis using en quiet_ok [OF _ ok] by (auto elim!: yield_to_task_fair_ok [OF M ok, of now p])
next
  case (Reweight now p prio)
  then have "p \<in> queued (cfs rq) \<Longrightarrow>
      total_weight (cfs rq) + unat (scale_load (W prio)) < max_load + se_weight (cfs rq) p"
    using en by simp
  then show ?thesis
    by - (rule reweight_task_ok [OF M ok, where now = now and I = I], assumption, use Reweight in auto)
next
  case (Detach b w p)
  then show ?thesis using en quiet_ok [OF _ ok] by (auto elim!: detach_task_cfs_rq_ok [OF ok, of p E b w])
next
  case (Attach b w p)
  then show ?thesis using en quiet_ok [OF attach_task_cfs_rq_ok [OF ok] ok] by simp
next
  case (Switch p)
  then show ?thesis by (simp add: sched_ok_calm [OF ok] same_view_def)
next
  case (Setscheduler p pol)
  then have "idle_queued (rq\<lparr>policies := (policies rq)(p := pol)\<rparr>) = idle_queued rq"
    using en by (auto simp: idle_queued_def task_has_idle_policy_def)
  then show ?thesis using ok Setscheduler by (simp add: sched_ok_def)
qed

section \<open>Reachable runqueues\<close>

text \<open>A runqueue after boot: \<open>init_cfs_rq\<close> with an empty tree, all other fields zero.\<close>

definition boot_rq :: "('t \<Rightarrow> nat list) \<Rightarrow> 't sched_rq \<Rightarrow> bool" where
  "boot_rq ord rq \<longleftrightarrow> (\<exists>t c. ord t = [] \<and> cfs rq = init_cfs_rq t c \<and> (\<forall>a. se_on_rq (ents c a) = 0) \<and>
     rq_load c = \<lparr>lw_weight = 0, inv_weight = 0\<rparr> \<and> cfs_nr_running c = 0 \<and> cfs_h_nr_running c = 0 \<and>
     cfs_curr c = NULL \<and> cfs_next c = NULL \<and> cfs_last c = NULL \<and> cfs_skip c = NULL) \<and>
     rq_nr_running rq = 0 \<and> idle_h_nr_running rq = 0"

lemma boot_ok:
  assumes "boot_rq ord rq"
  shows "sched_ok ord rq"
proof -
  obtain t c where c: "ord t = []" "cfs rq = init_cfs_rq t c" "\<forall>a. se_on_rq (ents c a) = 0"
    "rq_load c = \<lparr>lw_weight = 0, inv_weight = 0\<rparr>" "cfs_nr_running c = 0" "cfs_h_nr_running c = 0"
    "cfs_curr c = NULL" "cfs_next c = NULL" "cfs_last c = NULL" "cfs_skip c = NULL"
    "rq_nr_running rq = 0" "idle_h_nr_running rq = 0"
    using assms unfolding boot_rq_def by blast
  have q: "queued (cfs rq) = {}" "idle_queued rq = {}"
    using c(2,3) by (simp_all add: queued_def idle_queued_def init_cfs_rq_def)
  show ?thesis
    using c q by (simp add: sched_ok_def queue_ok_def tl_sorted_def buddies_ok_def inv_ok_def init_cfs_rq_def)
qed

inductive sched_reach ::
  "'t class_env \<Rightarrow> (nat \<Rightarrow> u64) \<Rightarrow> (nat \<Rightarrow> u32) \<Rightarrow> 't sched_rq \<Rightarrow> 't sched_rq \<Rightarrow> bool" for E W I rq0 where
  start: "sched_reach E W I rq0 rq0"
| event: "sched_reach E W I rq0 rq \<Longrightarrow> sched_enabled W ev rq \<Longrightarrow> sched_op E W I ev rq = Some rq' \<Longrightarrow>
    in_span (cfs rq') \<Longrightarrow> sched_reach E W I rq0 rq'"

lemma reach_ok:
  assumes "sched_reach E W I rq0 rq" and "kernel_math_ok (lib E)" and "rb_ok (lib E) ord" and "boot_rq ord rq0"
  shows "sched_ok ord rq"
  using assms(1)
proof induction
  case start
  show ?case by (rule boot_ok [OF assms(4)])
next
  case (event rq ev rq')
  then show ?case using sched_op_ok [OF assms(2,3), of rq W ev I] by auto
qed

text \<open>One CPU after boot, and a first task on it.\<close>

definition demo_env :: "nat list class_env" where
  "demo_env = \<lparr>lib = demo_lib, conf = demo_config, NEXT_BUDDY = False, LAST_BUDDY = True, WAKEUP_PREEMPTION = True,
     child_runs_first = 0\<rparr>"

definition demo_boot :: "nat list sched_rq" where
  "demo_boot = \<lparr>cfs = init_cfs_rq [] \<lparr>rq_load = \<lparr>lw_weight = 0, inv_weight = 0\<rparr>, cfs_nr_running = 0,
       cfs_h_nr_running = 0, cfs_idle_nr_running = 0, cfs_min_vruntime = 0, timeline = [], cfs_curr = NULL,
       cfs_next = NULL, cfs_last = NULL, cfs_skip = NULL, ents = \<lambda>_. (demo_entity 1048576 0)\<lparr>se_on_rq := 0\<rparr>\<rparr>,
     idle_h_nr_running = 0, rq_nr_running = 0, rq_curr = 0, rq_idle = 0, next_balance = 0, need_resched = False,
     policies = \<lambda>_. SCHED_NORMAL\<rparr>"

abbreviation (input) demo_weights :: "nat \<Rightarrow> u64" where "demo_weights \<equiv> \<lambda>_. 1024"
abbreviation (input) demo_wmults :: "nat \<Rightarrow> u32" where "demo_wmults \<equiv> \<lambda>_. 4194304"

lemma demo_boot_ok: "boot_rq (\<lambda>t. t) demo_boot"
  unfolding boot_rq_def demo_boot_def by (auto simp: demo_entity_def)

lemma demo_env_ok: "kernel_math_ok (lib demo_env)" "rb_ok (lib demo_env) (\<lambda>t. t)"
  by (simp_all add: demo_env_def demo_lib_ok demo_lib_rb)

lemma in_span_one: "queued rq = {a} \<Longrightarrow> in_span rq"
  by (auto simp: in_span_def intro!: exI [of _ "se_vruntime (ents rq a)"])

lemma demo_first_task:
  obtains rq where "sched_reach demo_env demo_weights demo_wmults demo_boot rq" and "queued (cfs rq) = {7}"
    and "cfs_curr (cfs rq) = NULL"
proof -
  have q: "queued (cfs demo_boot) = {}" and c: "cfs_curr (cfs demo_boot) = NULL"
    by (simp_all add: demo_boot_def queued_def init_cfs_rq_def)
  have w: "se_weight (cfs demo_boot) 7 = 1048576"
    by (simp add: demo_boot_def init_cfs_rq_def demo_entity_def)
  have p: "7 \<notin> queued (cfs demo_boot)" "card (queued (cfs demo_boot)) + 1 < 2 ^ 32"
    "(\<Sum>b\<in>queued (cfs demo_boot). se_weight (cfs demo_boot) b) + se_weight (cfs demo_boot) 7 < max_load"
    by (simp_all add: q w)
  obtain rq where e: "enqueue_task_fair demo_env 1000 7 0x01 demo_boot = Some rq" "queued (cfs rq) = {7}"
    "cfs_curr (cfs rq) = NULL"
    by (rule enqueue_task_fair_ok [OF demo_env_ok boot_ok [OF demo_boot_ok] p, of 1000 "0x01"]) (simp add: q c)
  have "sched_enabled demo_weights (Enqueue 1000 7 0x01) demo_boot" using p by (simp add: total_weight_def)
  then have "sched_reach demo_env demo_weights demo_wmults demo_boot rq"
    by (rule sched_reach.event [OF sched_reach.start]) (simp_all add: e(1) in_span_one [OF e(2)])
  then show ?thesis using that e(2,3) by blast
qed

section \<open>What the class guarantees\<close>

text \<open>
  C8. Whatever the scheduler core does with the fair class after boot - tasks come, go, fork, are
  ticked, woken, preempted, reweighted, yield and move - as long as the vruntimes on the runqueue stay within \<open>2 ^ 62\<close>
  of each other: every next call is defined (no NULL pointer, no bad shift), the tree holds exactly the queued tasks
  that do not run and is sorted, the counters count, the load is the sum of the weights, and no buddy
  is a task that has left.
\<close>

theorem fair_class_invariant:
  assumes "kernel_math_ok (lib E)" and "rb_ok (lib E) ord" and "boot_rq ord rq0" and "sched_reach E W I rq0 rq"
    and "sched_enabled W ev rq"
  shows "sched_ok ord rq \<and> (\<exists>rq'. sched_op E W I ev rq = Some rq' \<and> (in_span (cfs rq') \<longrightarrow> sched_ok ord rq'))"
  using reach_ok [OF assms(4,1-3)] sched_op_ok [OF assms(1,2) _ assms(5)] by blast

theorem fair_class_invariant_witness:
  "\<exists>rq rq'. sched_reach demo_env demo_weights demo_wmults demo_boot rq \<and> queued (cfs rq) = {7} \<and>
     sched_op demo_env demo_weights demo_wmults (Tick 2000 7) rq = Some rq' \<and>
     (in_span (cfs rq') \<longrightarrow> sched_ok (\<lambda>t. t) rq')"
proof -
  obtain rq where r: "sched_reach demo_env demo_weights demo_wmults demo_boot rq" "queued (cfs rq) = {7}"
    by (rule demo_first_task)
  then have "sched_enabled demo_weights (Tick 2000 7) rq" by simp
  then show ?thesis
    using fair_class_invariant [OF demo_env_ok demo_boot_ok r(1)] r by blast
qed

text \<open>
  C9. In every such state \<open>pick_next_task_fair\<close> gives a task when one is queued, and only then. The task
  is on the runqueue and becomes the running entity. Its vruntime is the least of all queued tasks, the one that ran
  included, or it is a buddy at most one wakeup granularity, scaled by the weight of the task with the
  least one, behind.
\<close>

theorem fair_class_pick:
  assumes "kernel_math_ok (lib E)" and "rb_ok (lib E) ord" and "boot_rq ord rq0" and "sched_reach E W I rq0 rq"
  shows "\<exists>r rq'. pick_next_task_fair E now (cfs_curr (cfs rq)) rq = Some (r, rq') \<and>
    queued (cfs rq') = queued (cfs rq) \<and>
    (if queued (cfs rq) = {} then r = NULL
     else \<exists>s. r = Ref s \<and> s \<in> queued (cfs rq) \<and> cfs_curr (cfs rq') = Ref s \<and>
       (in_span (cfs rq') \<longrightarrow> picked (conf E) (cfs rq') s))"
proof -
  have ok: "sched_ok ord rq" by (rule reach_ok [OF assms(4,1-3)])
  show ?thesis
  proof (cases "queued (cfs rq) = {}")
    case True
    then have "cfs_nr_running (cfs rq) = 0" using sched_okD(1) [OF ok] by (simp add: queue_ok_def)
    then show ?thesis using True by (simp add: pick_next_task_fair_def)
  next
    case False
    show ?thesis
      by (rule pick_next_task_fair_ok [OF assms(1,2) ok refl, of now]) (use False in auto)
  qed
qed

theorem fair_class_pick_witness:
  "\<exists>rq rq'. sched_reach demo_env demo_weights demo_wmults demo_boot rq \<and>
     pick_next_task_fair demo_env 3000 NULL rq = Some (Ref 7, rq') \<and> picked demo_config (cfs rq') 7"
proof -
  obtain rq where r: "sched_reach demo_env demo_weights demo_wmults demo_boot rq" "queued (cfs rq) = {7}"
    "cfs_curr (cfs rq) = NULL"
    by (rule demo_first_task)
  obtain x rq' where "pick_next_task_fair demo_env 3000 NULL rq = Some (x, rq')" "queued (cfs rq') = {7}"
    "\<exists>s. x = Ref s \<and> s \<in> queued (cfs rq) \<and> (in_span (cfs rq') \<longrightarrow> picked (conf demo_env) (cfs rq') s)"
    using fair_class_pick [OF demo_env_ok demo_boot_ok r(1), of 3000] r(2,3) by auto
  then show ?thesis using r in_span_one [of "cfs rq'" 7] by (auto simp: demo_env_def)
qed

section \<open>Moving to another CPU\<close>

lemma account_dequeue_fields [simp]:
  "ents (account_entity_dequeue a rq) = ents rq" "cfs_min_vruntime (account_entity_dequeue a rq) = cfs_min_vruntime rq"
  by (simp_all add: account_entity_dequeue_def Let_def)

lemma account_enqueue_fields [simp]:
  "ents (account_entity_enqueue a rq) = ents rq" "cfs_min_vruntime (account_entity_enqueue a rq) = cfs_min_vruntime rq"
  "cfs_curr (account_entity_enqueue a rq) = cfs_curr rq"
  by (simp_all add: account_entity_enqueue_def Let_def)

lemma clear_buddies_fields [simp]:
  "ents (clear_buddies a rq) = ents rq" "cfs_min_vruntime (clear_buddies a rq) = cfs_min_vruntime rq"
  "cfs_curr (clear_buddies a rq) = cfs_curr rq"
  by (simp_all add: clear_buddies_def Let_def)

lemma dequeue_moves_vruntime:
  assumes "kernel_math_ok K" and "cfs_curr rq \<noteq> Ref a" and "flags AND DEQUEUE_SLEEP = 0"
  obtains r rq' where "update_curr K now rq = Some r" and "dequeue_entity_fair K now a flags rq = Some rq'"
    and "se_vruntime (ents rq' a) = se_vruntime (ents rq a) - cfs_min_vruntime r"
proof -
  obtain r where r: "update_curr K now rq = Some r" "same_books rq r" "ents r a = ents rq a"
    by (rule update_curr_books [OF assms(1), of now rq]) (use assms(2) in blast)
  have "cfs_curr r \<noteq> Ref a" using r(2) assms(2) by (simp add: same_books_def)
  then show ?thesis
    using that [OF r(1)] r(1,3) assms(3)
    by (simp add: dequeue_entity_fair_def add_vruntime_def ent_update_def dequeue_entity_def Let_def)
qed

lemma enqueue_moves_vruntime:
  assumes "kernel_math_ok K" and "cfs_curr rq \<noteq> Ref a" and "flags AND ENQUEUE_WAKEUP = 0"
  obtains rq' where "enqueue_entity_fair K G now a flags rq = Some rq'"
    and "se_vruntime (ents rq' a) = se_vruntime (ents rq a) + cfs_min_vruntime rq'"
proof -
  obtain r where r: "update_curr K now rq = Some r" "same_books rq r" "ents r a = ents rq a"
    by (rule update_curr_books [OF assms(1), of now rq]) (use assms(2) in blast)
  have "cfs_curr r \<noteq> Ref a" using r(2) assms(2) by (simp add: same_books_def)
  then show ?thesis
    using that r(1,3) assms(2,3)
    by (simp add: enqueue_entity_fair_def add_vruntime_def ent_update_def enqueue_entity_def
        account_entity_enqueue_def Let_def)
qed

text \<open>
  C10. A task that is taken off one runqueue without going to sleep and put on another keeps its place: the
  distance of its vruntime to \<open>min_vruntime\<close> of the new runqueue is the one it had on the old
  runqueue, whatever the two minima are and however long it was away.
\<close>

theorem fair_migration:
  assumes "kernel_math_ok K" and "cfs_curr rq \<noteq> Ref a" and "flags AND DEQUEUE_SLEEP = 0"
    and "cfs_curr rq2 \<noteq> Ref a" and "flags2 AND ENQUEUE_WAKEUP = 0"
  shows "\<exists>r rq' rq2'. update_curr K now rq = Some r \<and> dequeue_entity_fair K now a flags rq = Some rq' \<and>
    enqueue_entity_fair K G now2 a flags2 (ent_update a (\<lambda>_. ents rq' a) rq2) = Some rq2' \<and>
    se_vruntime (ents rq2' a) - cfs_min_vruntime rq2' = se_vruntime (ents rq a) - cfs_min_vruntime r"
proof -
  obtain r rq' where r: "update_curr K now rq = Some r" "dequeue_entity_fair K now a flags rq = Some rq'"
    "se_vruntime (ents rq' a) = se_vruntime (ents rq a) - cfs_min_vruntime r"
    by (rule dequeue_moves_vruntime [OF assms(1-3)])
  let ?rq2 = "ent_update a (\<lambda>_. ents rq' a) rq2"
  have "cfs_curr ?rq2 \<noteq> Ref a" using assms(4) by (simp add: ent_update_def)
  then obtain rq2' where "enqueue_entity_fair K G now2 a flags2 ?rq2 = Some rq2'"
    "se_vruntime (ents rq2' a) = se_vruntime (ents ?rq2 a) + cfs_min_vruntime rq2'"
    by (rule enqueue_moves_vruntime [OF assms(1) _ assms(5)])
  then show ?thesis using r by (simp add: ents_ent_update)
qed

theorem fair_migration_witness:
  "\<exists>r rq' rq2'. update_curr demo_lib 5000 demo_fair = Some r \<and> dequeue_entity_fair demo_lib 5000 2 0 demo_fair = Some rq' \<and>
    enqueue_entity_fair demo_lib demo_config 9000 2 0 (ent_update 2 (\<lambda>_. ents rq' 2) (cfs demo_boot)) = Some rq2' \<and>
    se_vruntime (ents rq2' 2) - cfs_min_vruntime rq2' = 700 - cfs_min_vruntime r"
  using fair_migration [OF demo_lib_ok, of demo_fair 2 0 "cfs demo_boot" 0 5000 demo_config 9000]
  by (simp add: demo_fair_def demo_entity_def demo_boot_def init_cfs_rq_def)

end
