(* ===== verification/Kernel_Clock.thy ===== *)
theory Kernel_Clock
  imports Prelude
begin

text \<open>
  src/apex-cfs/docs/pelt.h: the clock the load tracking of the kernel reads. It runs slower than
  the task clock on a CPU below full capacity, is brought back to it when the runqueue is idle,
  and does not advance for idle time a fully used CPU never had.

  The configuration is CONFIG_SMP on 64 bits, where \<open>u64_u32_store\<close> is an assignment. The
  capacities of the architecture are fields of the state, \<open>rq->curr\<close> is there as the answer of
  \<open>is_idle_task\<close>, and the lock assertions and memory barriers have no definition.
\<close>

section \<open>State\<close>

record clock_rq =
  clk :: u64
  clk_task :: u64
  clk_pelt :: u64
  lost_idle_time :: u64
  clk_idle :: u64
  clk_pelt_idle :: u64
  curr_is_idle :: bool
  cfs_util_sum :: u32
  rt_util_sum :: u32
  dl_util_sum :: u32
  cpu_capacity :: u64
  freq_capacity :: u64

section \<open>Operations\<close>

text \<open>\<open>cap_scale\<close> of sched.h: the product of an \<open>s64\<close> and an \<open>unsigned long\<close> is unsigned.\<close>

definition cap_scale :: "u64 \<Rightarrow> u64 \<Rightarrow> u64" where
  "cap_scale v s = drop_bit 10 (v * s)"

definition PELT_MIN_DIVIDER :: u32 where
  "PELT_MIN_DIVIDER = 47742 - 1024"

text \<open>The divider of pelt.h; pelt.c of the repository replaces it by a stub.\<close>

definition pelt_divider :: "u32 \<Rightarrow> u32" where
  "pelt_divider contrib = PELT_MIN_DIVIDER + contrib"

definition rq_clock_pelt :: "clock_rq \<Rightarrow> u64" where
  "rq_clock_pelt rq = clk_pelt rq - lost_idle_time rq"

definition sync_idle_rq_clock_pelt :: "clock_rq \<Rightarrow> clock_rq" where
  "sync_idle_rq_clock_pelt rq =
     (let rq = rq\<lparr>clk_pelt := clk_task rq\<rparr>;
          rq = rq\<lparr>clk_idle := clk rq\<rparr>
      in rq\<lparr>clk_pelt_idle := rq_clock_pelt rq\<rparr>)"

definition update_rq_clock_pelt :: "u64 \<Rightarrow> clock_rq \<Rightarrow> clock_rq" where
  "update_rq_clock_pelt delta rq =
     (if curr_is_idle rq then sync_idle_rq_clock_pelt rq
      else let delta = cap_scale delta (cpu_capacity rq);
               delta = cap_scale delta (freq_capacity rq)
        in rq\<lparr>clk_pelt := clk_pelt rq + delta\<rparr>)"

definition fully_used :: "clock_rq \<Rightarrow> bool" where
  "fully_used rq =
     (let divider = push_bit 10 (47742 - 1024) - 47742;
          util_sum = cfs_util_sum rq;
          util_sum = util_sum + rt_util_sum rq;
          util_sum = util_sum + dl_util_sum rq
      in divider \<le> util_sum)"

definition update_idle_rq_clock_pelt :: "clock_rq \<Rightarrow> clock_rq" where
  "update_idle_rq_clock_pelt rq =
     (let rq = (if fully_used rq
                then rq\<lparr>lost_idle_time := lost_idle_time rq + (clk_task rq - clk_pelt rq)\<rparr> else rq)
      in sync_idle_rq_clock_pelt rq)"

section \<open>Runs of the clock\<close>

text \<open>
  What happens to the clock of a runqueue. \<open>advance\<close> is the caller of \<open>update_rq_clock_pelt\<close>,
  which moves the clock and the task clock before the call; the clocks are nanoseconds since
  boot, one step is shorter than 2 ^ 53 ns, and a capacity is at most SCHED_CAPACITY_SCALE. The
  idle entry of \<open>pick_next_task_fair\<close> is \<open>goes_idle\<close>. The last rule lets everything else the
  clock reads change.
\<close>

inductive clock_step :: "clock_rq \<Rightarrow> clock_rq \<Rightarrow> bool" where
  advance: "unat (clk_task rq) + unat delta < 2 ^ 64 \<Longrightarrow> unat delta < 2 ^ 53 \<Longrightarrow>
    cpu_capacity rq \<le> 1024 \<Longrightarrow> freq_capacity rq \<le> 1024 \<Longrightarrow>
    clock_step rq (update_rq_clock_pelt delta (rq\<lparr>clk := c, clk_task := clk_task rq + delta\<rparr>))"
| goes_idle: "clock_step rq (update_idle_rq_clock_pelt rq)"
| environment: "clock_step rq (rq\<lparr>curr_is_idle := i, cfs_util_sum := u, rt_util_sum := v,
    dl_util_sum := w, cpu_capacity := cc, freq_capacity := fc\<rparr>)"

definition clock_start :: clock_rq where
  "clock_start = \<lparr>clk = 0, clk_task = 0, clk_pelt = 0, lost_idle_time = 0, clk_idle = 0,
     clk_pelt_idle = 0, curr_is_idle = True, cfs_util_sum = 0, rt_util_sum = 0, dl_util_sum = 0,
     cpu_capacity = 1024, freq_capacity = 1024\<rparr>"

definition clock_ok :: "clock_rq \<Rightarrow> bool" where
  "clock_ok rq \<longleftrightarrow> lost_idle_time rq \<le> clk_pelt rq \<and> clk_pelt rq \<le> clk_task rq"

lemma unat_cap_scale:
  assumes "unat v < 2 ^ 53" and "s \<le> 1024"
  shows "unat (cap_scale v s) = unat v * unat s div 1024"
proof -
  have s: "unat s \<le> 1024"
    using assms(2) by (simp add: word_le_nat_alt)
  have "unat v * unat s \<le> unat v * 1024"
    using s by (rule mult_le_mono2)
  also have "\<dots> < 2 ^ 64"
    using assms(1) by simp
  finally show ?thesis
    by (simp add: cap_scale_def unat_shr unat_u64_mult_small)
qed

lemma cap_scale_le:
  assumes "unat v < 2 ^ 53" and "s \<le> 1024"
  shows "unat (cap_scale v s) \<le> unat v"
proof -
  have "unat v * unat s div 1024 \<le> unat v * 1024 div 1024"
    using assms(2) by (intro div_le_mono mult_le_mono2) (simp add: word_le_nat_alt)
  then show ?thesis
    by (simp add: unat_cap_scale [OF assms])
qed

lemma cap_scale_full: "unat v < 2 ^ 53 \<Longrightarrow> cap_scale v 1024 = v"
  by (rule word_unat_eq_iff [THEN iffD2]) (simp add: unat_cap_scale)

lemma unat_rq_clock_pelt: "clock_ok rq \<Longrightarrow> unat (rq_clock_pelt rq) = unat (clk_pelt rq) - unat (lost_idle_time rq)"
  by (simp add: rq_clock_pelt_def clock_ok_def unat_u64_sub)

lemmas clock_ops = update_rq_clock_pelt_def update_idle_rq_clock_pelt_def sync_idle_rq_clock_pelt_def Let_def

lemma rq_clock_pelt_idle:
  "rq_clock_pelt (update_idle_rq_clock_pelt rq) =
     (if fully_used rq then rq_clock_pelt rq else clk_task rq - lost_idle_time rq)"
  by (simp add: clock_ops rq_clock_pelt_def)

lemma u64_add_order:
  assumes "a \<le> b" and "d \<le> e" and "unat b + unat e < 2 ^ 64"
  shows "a + d \<le> b + (e :: u64)" and "b \<le> b + e" and "a \<le> b + e"
  using assms by (auto simp: word_le_nat_alt unat_u64_add)

lemma clock_ok_advance:
  fixes c :: u64
  assumes ok: "clock_ok rq" and small: "unat (clk_task rq) + unat delta < 2 ^ 64" "unat delta < 2 ^ 53"
    and caps: "cpu_capacity rq \<le> 1024" "freq_capacity rq \<le> 1024"
  defines "rq' \<equiv> update_rq_clock_pelt delta (rq\<lparr>clk := c, clk_task := clk_task rq + delta\<rparr>)"
  shows "clock_ok rq' \<and> rq_clock_pelt rq \<le> rq_clock_pelt rq'"
proof -
  define d where "d = cap_scale (cap_scale delta (cpu_capacity rq)) (freq_capacity rq)"
  have d1: "unat (cap_scale delta (cpu_capacity rq)) \<le> unat delta"
    by (rule cap_scale_le [OF small(2) caps(1)])
  have "unat d \<le> unat (cap_scale delta (cpu_capacity rq))"
    unfolding d_def by (rule cap_scale_le [OF _ caps(2)]) (use d1 small(2) in simp)
  then have d: "d \<le> delta"
    using d1 by (simp add: word_le_nat_alt)
  have lost: "lost_idle_time rq \<le> clk_pelt rq" and pelt: "clk_pelt rq \<le> clk_task rq"
    using ok by (auto simp: clock_ok_def)
  note task = u64_add_order [OF pelt d small(1)]
  have wide: "unat (clk_pelt rq) + unat d < 2 ^ 64"
    using pelt d small(1) by (simp add: word_le_nat_alt)
  note mine = u64_add_order [OF lost order_refl wide]
  have idle: "lost_idle_time rq \<le> clk_task rq + delta"
    using lost task(3) by (rule order_trans)
  have "clock_ok rq'"
    using task mine idle by (simp add: rq'_def clock_ops clock_ok_def d_def)
  moreover have "rq_clock_pelt rq \<le> rq_clock_pelt rq'"
  proof (cases "curr_is_idle rq")
    case True
    then show ?thesis
      using task(3) idle lost
      by (simp add: rq'_def clock_ops rq_clock_pelt_def word_le_nat_alt unat_u64_sub)
  next
    case False
    then show ?thesis
      using mine lost
      by (simp add: rq'_def clock_ops rq_clock_pelt_def word_le_nat_alt unat_u64_sub d_def)
  qed
  ultimately show ?thesis ..
qed

lemma clock_ok_goes_idle:
  assumes "clock_ok rq"
  shows "clock_ok (update_idle_rq_clock_pelt rq)"
    and "rq_clock_pelt rq \<le> rq_clock_pelt (update_idle_rq_clock_pelt rq)"
proof -
  have lost: "lost_idle_time rq \<le> clk_pelt rq" and pelt: "clk_pelt rq \<le> clk_task rq"
    using assms by (auto simp: clock_ok_def)
  have sum: "unat (clk_pelt rq) + unat (clk_task rq - clk_pelt rq) = unat (clk_task rq)"
    using pelt by (simp add: unat_u64_sub word_le_nat_alt)
  have "lost_idle_time rq + (clk_task rq - clk_pelt rq) \<le> clk_pelt rq + (clk_task rq - clk_pelt rq)"
    by (rule u64_add_order(1) [OF lost order_refl]) (simp add: sum)
  then have "lost_idle_time rq + (clk_task rq - clk_pelt rq) \<le> clk_task rq"
    by simp
  then show "clock_ok (update_idle_rq_clock_pelt rq)"
    using lost pelt by (auto simp: clock_ops clock_ok_def)
  show "rq_clock_pelt rq \<le> rq_clock_pelt (update_idle_rq_clock_pelt rq)"
    unfolding rq_clock_pelt_idle using lost pelt order_trans [OF lost pelt]
    by (simp add: rq_clock_pelt_def word_le_nat_alt unat_u64_sub diff_le_mono)
qed

lemma clock_step_ok: "clock_step rq rq' \<Longrightarrow> clock_ok rq \<Longrightarrow> clock_ok rq' \<and> rq_clock_pelt rq \<le> rq_clock_pelt rq'"
proof (induction rule: clock_step.induct)
  case (advance rq delta c)
  show ?case by (rule clock_ok_advance [OF advance.prems advance.hyps])
next
  case (goes_idle rq)
  then show ?case by (simp add: clock_ok_goes_idle)
next
  case (environment rq i u v w cc fc)
  then show ?case by (simp add: clock_ok_def rq_clock_pelt_def)
qed

lemma clock_ok_reachable: "clock_step\<^sup>*\<^sup>* clock_start rq \<Longrightarrow> clock_ok rq"
proof (induction rule: rtranclp_induct)
  case base
  show ?case by (simp add: clock_start_def clock_ok_def)
next
  case (step rq rq')
  then show ?case using clock_step_ok by blast
qed

text \<open>
  C40. The clock of the load tracking never goes back and never runs ahead of the task clock,
  whatever capacities the CPU has. Entering idle moves it to the task clock less the lost idle
  time; when the CPU was fully used it does not move at all. At full capacity a busy CPU
  advances it by exactly the elapsed time.
\<close>

theorem kernel_pelt_clock:
  assumes "clock_step\<^sup>*\<^sup>* clock_start rq" and "clock_step rq rq'" and "unat delta < 2 ^ 53"
  shows "lost_idle_time rq \<le> clk_pelt rq \<and> clk_pelt rq \<le> clk_task rq \<and>
    rq_clock_pelt rq \<le> rq_clock_pelt rq' \<and>
    rq_clock_pelt (update_idle_rq_clock_pelt rq) =
      (if fully_used rq then rq_clock_pelt rq else clk_task rq - lost_idle_time rq) \<and>
    (\<not> curr_is_idle rq \<longrightarrow> cpu_capacity rq = 1024 \<longrightarrow> freq_capacity rq = 1024 \<longrightarrow>
       rq_clock_pelt (update_rq_clock_pelt delta rq) = rq_clock_pelt rq + delta)"
proof -
  have ok: "clock_ok rq"
    using assms(1) by (rule clock_ok_reachable)
  then have "rq_clock_pelt rq \<le> rq_clock_pelt rq'"
    using clock_step_ok [OF assms(2)] by blast
  with ok show ?thesis
    using assms(3) by (simp add: clock_ok_def rq_clock_pelt_idle)
      (simp add: clock_ops cap_scale_full rq_clock_pelt_def)
qed

text \<open>A CPU at half capacity that runs for 2048 ns after it left idle.\<close>

definition clock_busy :: clock_rq where
  "clock_busy = clock_start\<lparr>curr_is_idle := False, cpu_capacity := 512, freq_capacity := 1024\<rparr>"

lemma clock_busy_steps:
  "clock_step\<^sup>*\<^sup>* clock_start clock_busy"
  "clock_step clock_busy (update_rq_clock_pelt 2048 (clock_busy\<lparr>clk := 2048, clk_task := 2048\<rparr>))"
proof -
  have "clock_step clock_start (clock_start\<lparr>curr_is_idle := False, cfs_util_sum := 0, rt_util_sum := 0,
      dl_util_sum := 0, cpu_capacity := 512, freq_capacity := 1024\<rparr>)"
    by (rule clock_step.environment)
  then show "clock_step\<^sup>*\<^sup>* clock_start clock_busy"
    by (intro r_into_rtranclp) (simp add: clock_busy_def clock_start_def)
  show "clock_step clock_busy (update_rq_clock_pelt 2048 (clock_busy\<lparr>clk := 2048, clk_task := 2048\<rparr>))"
    using clock_step.advance [of clock_busy 2048 2048] by (simp add: clock_busy_def clock_start_def)
qed

theorem kernel_pelt_clock_witness:
  "clock_step\<^sup>*\<^sup>* clock_start clock_busy \<and>
   rq_clock_pelt clock_busy \<le> rq_clock_pelt (update_rq_clock_pelt 2048 (clock_busy\<lparr>clk := 2048, clk_task := 2048\<rparr>)) \<and>
   rq_clock_pelt (update_rq_clock_pelt 2048 (clock_busy\<lparr>clk := 2048, clk_task := 2048\<rparr>)) = 1024"
  using kernel_pelt_clock [OF clock_busy_steps, of 2048] clock_busy_steps(1)
  by (simp add: clock_busy_def clock_start_def clock_ops rq_clock_pelt_def cap_scale_def)

end
