(* ===== verification/Kernel_Average.thy ===== *)
theory Kernel_Average
  imports Kernel_Pelt Kernel_Clock
begin

text \<open>
  The averaging code of src/apex-cfs/docs/pelt.c (\<open>accumulate_sum\<close>, \<open>___update_load_sum\<close>, \<open>___update_load_avg\<close>) as
  fair.c of the kernel runs it: on the \<open>struct sched_avg\<close> of include-linux-sched.h, whose utilisation sum and
  period contribution have 32 bits, and with \<open>get_pelt_divider\<close> of pelt.h. \<open>Kernel_Pelt\<close> is the same code on
  the stubs in front of pelt.c. The decay does not depend on the fields and is taken from there; its multiplication
  is the stub of pelt.c, exact for sums below 32 bits.
\<close>

section \<open>State\<close>

record util_est =
  ue_enqueued :: u32
  ue_ewma :: u32

record load_signals =
  ls_last_update_time :: u64
  ls_load_sum :: u64
  ls_runnable_sum :: u64
  ls_util_sum :: u32
  ls_period_contrib :: u32
  ls_load_avg :: u64
  ls_runnable_avg :: u64
  ls_util_avg :: u64
  ls_util_est :: util_est

definition divider :: "load_signals \<Rightarrow> u32" where
  "divider sa = pelt_divider (ls_period_contrib sa)"

text \<open>\<open>div_u64\<close> divides by 32 bits; pelt.c has it as a stub.\<close>

definition div_u64_u32 :: "u64 \<Rightarrow> u32 \<Rightarrow> u64 option" where
  "div_u64_u32 a b = (if b = 0 then None else Some (a div ucast b))"

section \<open>Sums and averages\<close>

definition accumulate_signals ::
  "u64 \<Rightarrow> load_signals \<Rightarrow> u64 \<Rightarrow> u64 \<Rightarrow> bool \<Rightarrow> (u32 \<times> load_signals) option" where
  "accumulate_signals delta sa load rnbl running = do {
     let contrib = (ucast delta :: u32);
     let delta = delta + ucast (ls_period_contrib sa);
     let periods = delta div 1024;
     (sa, delta, contrib) \<leftarrow>
       (if periods \<noteq> 0 then do {
          l \<leftarrow> decay_load (ls_load_sum sa) periods;
          r \<leftarrow> decay_load (ls_runnable_sum sa) periods;
          u \<leftarrow> decay_load (ucast (ls_util_sum sa)) periods;
          let delta = delta mod 1024;
          c \<leftarrow> (if load \<noteq> 0
               then accumulate_pelt_segments periods (1024 - ls_period_contrib sa) (ucast delta)
               else Some contrib);
          Some (sa\<lparr>ls_load_sum := l, ls_runnable_sum := r, ls_util_sum := ucast u\<rparr>, delta, c)
        } else Some (sa, delta, contrib));
     let sa = sa\<lparr>ls_period_contrib := ucast delta\<rparr>;
     let sa = (if load \<noteq> 0 then sa\<lparr>ls_load_sum := ls_load_sum sa + load * ucast contrib\<rparr> else sa);
     let sa = (if rnbl \<noteq> 0
               then sa\<lparr>ls_runnable_sum := ls_runnable_sum sa + push_bit 10 (rnbl * ucast contrib)\<rparr> else sa);
     let sa = (if running then sa\<lparr>ls_util_sum := ls_util_sum sa + push_bit 10 contrib\<rparr> else sa);
     Some (ucast periods, sa)
   }"

definition update_signals_sum ::
  "u64 \<Rightarrow> load_signals \<Rightarrow> u64 \<Rightarrow> u64 \<Rightarrow> bool \<Rightarrow> (bool \<times> load_signals) option" where
  "update_signals_sum now sa load rnbl running =
     (let delta = now - ls_last_update_time sa in
      if sint delta < 0 then Some (False, sa\<lparr>ls_last_update_time := now\<rparr>)
      else let delta = drop_bit 10 delta in
        if delta = 0 then Some (False, sa)
        else do {
          let sa = sa\<lparr>ls_last_update_time := ls_last_update_time sa + push_bit 10 delta\<rparr>;
          let (rnbl, running) = (if load = 0 then (0, False) else (rnbl, running));
          (periods, sa) \<leftarrow> accumulate_signals delta sa load rnbl running;
          Some (periods \<noteq> 0, sa)
        })"

definition update_signals_avg :: "load_signals \<Rightarrow> u64 \<Rightarrow> load_signals option" where
  "update_signals_avg sa load = do {
     let d = divider sa;
     l \<leftarrow> div_u64_u32 (load * ls_load_sum sa) d;
     r \<leftarrow> div_u64_u32 (ls_runnable_sum sa) d;
     u \<leftarrow> div_u64_u32 (ucast (ls_util_sum sa)) d;
     Some (sa\<lparr>ls_load_avg := l, ls_runnable_avg := r, ls_util_avg := u\<rparr>)
   }"

text \<open>How the three entry points of pelt.c for entities and runqueues compose them.\<close>

definition update_signals ::
  "u64 \<Rightarrow> load_signals \<Rightarrow> u64 \<Rightarrow> u64 \<Rightarrow> bool \<Rightarrow> u64 \<Rightarrow> (bool \<times> load_signals) option" where
  "update_signals now sa load rnbl running w = do {
     (changed, sa) \<leftarrow> update_signals_sum now sa load rnbl running;
     if changed then do { sa \<leftarrow> update_signals_avg sa w; Some (True, sa) } else Some (False, sa)
   }"

section \<open>Within a period\<close>

text \<open>An update at \<open>now\<close> does not reach the end of the period that the signals are in.\<close>

definition in_period :: "u64 \<Rightarrow> load_signals \<Rightarrow> bool" where
  "in_period now sa = (let delta = now - ls_last_update_time sa in
     sint delta < 0 \<or> unat (drop_bit 10 delta) + unat (ls_period_contrib sa) < 1024)"

definition same_avgs :: "load_signals \<Rightarrow> load_signals \<Rightarrow> bool" where
  "same_avgs a b = (ls_load_avg a = ls_load_avg b \<and> ls_runnable_avg a = ls_runnable_avg b \<and>
     ls_util_avg a = ls_util_avg b)"

text \<open>What the sums take up in at most a period, without wrapping.\<close>

definition grown :: "u64 \<Rightarrow> u64 \<Rightarrow> bool \<Rightarrow> load_signals \<Rightarrow> load_signals \<Rightarrow> bool" where
  "grown load rnbl running sa sa' = (\<exists>c < 1024.
     unat (ls_load_sum sa') = unat (ls_load_sum sa) + unat load * c \<and>
     unat (ls_runnable_sum sa') = unat (ls_runnable_sum sa) + unat rnbl * c * 1024 \<and>
     unat (ls_util_sum sa') = unat (ls_util_sum sa) + (if running then c * 1024 else 0))"

definition growth_fits :: "u64 \<Rightarrow> u64 \<Rightarrow> load_signals \<Rightarrow> bool" where
  "growth_fits load rnbl sa = (unat (ls_load_sum sa) + unat load * 1024 < 2 ^ 64 \<and>
     unat (ls_runnable_sum sa) + unat rnbl * 1024 * 1024 < 2 ^ 64 \<and> unat (ls_util_sum sa) + 1024 * 1024 < 2 ^ 32)"

lemma accumulate_within:
  assumes "unat delta + unat (ls_period_contrib sa) < 1024"
  shows "accumulate_signals delta sa load rnbl running =
    Some (0, sa\<lparr>ls_period_contrib := ucast (delta + ucast (ls_period_contrib sa)),
      ls_load_sum := ls_load_sum sa + load * ucast (ucast delta :: u32),
      ls_runnable_sum := ls_runnable_sum sa + push_bit 10 (rnbl * ucast (ucast delta :: u32)),
      ls_util_sum := ls_util_sum sa + (if running then push_bit 10 (ucast delta) else 0)\<rparr>)"
proof -
  have "unat (delta + ucast (ls_period_contrib sa)) = unat delta + unat (ls_period_contrib sa)"
    using assms by (simp add: unat_u64_add_small)
  then have "(delta + ucast (ls_period_contrib sa)) div 1024 = 0"
    using assms by (simp add: word_unat_eq_iff unat_div)
  then show ?thesis by (simp add: accumulate_signals_def Let_def)
qed

lemma update_within:
  assumes "in_period now sa"
  obtains sa' where "update_signals now sa load rnbl running w = Some (False, sa')" and "same_avgs sa' sa"
    and "growth_fits load rnbl sa \<Longrightarrow> \<exists>l r u. grown l r u sa sa'"
proof -
  let ?d = "now - ls_last_update_time sa"
  let ?d1 = "drop_bit 10 ?d"
  consider (still) "sint ?d < 0 \<or> ?d1 = 0" | (forward) "\<not> sint ?d < 0" "?d1 \<noteq> 0" by blast
  then show ?thesis
  proof cases
    case still
    define sa' where "sa' = (if sint ?d < 0 then sa\<lparr>ls_last_update_time := now\<rparr> else sa)"
    have "update_signals now sa load rnbl running w = Some (False, sa')"
      using still by (auto simp: update_signals_def update_signals_sum_def sa'_def Let_def)
    moreover have "same_avgs sa' sa" by (simp add: sa'_def same_avgs_def)
    moreover have "grown 0 0 False sa sa'" by (auto simp: sa'_def grown_def intro!: exI [of _ 0])
    ultimately show ?thesis using that by blast
  next
    case forward
    define sa1 where "sa1 = sa\<lparr>ls_last_update_time := ls_last_update_time sa + push_bit 10 ?d1\<rparr>"
    define r where "r = (if load = 0 then 0 else rnbl)"
    define u where "u = (load \<noteq> 0 \<and> running)"
    have d: "unat ?d1 + unat (ls_period_contrib sa) < 1024" using assms forward by (simp add: in_period_def Let_def)
    let ?c = "ucast ?d1 :: u32"
    have c: "unat ?c = unat ?d1" using d by (simp add: unat_ucast_u64_u32)
    define sa' where "sa' = sa1\<lparr>ls_period_contrib := ucast (?d1 + ucast (ls_period_contrib sa)),
      ls_load_sum := ls_load_sum sa + load * ucast ?c, ls_runnable_sum := ls_runnable_sum sa + push_bit 10 (r * ucast ?c),
      ls_util_sum := ls_util_sum sa + (if u then push_bit 10 ?c else 0)\<rparr>"
    have "accumulate_signals ?d1 sa1 load r u = Some (0, sa')"
      using accumulate_within [of ?d1 sa1 load r u] d by (simp add: sa'_def sa1_def)
    moreover have "(if load = 0 then (0, False) else (rnbl, running)) = (r, u)" by (simp add: r_def u_def)
    ultimately have "update_signals_sum now sa load rnbl running = Some (False, sa')"
      using forward by (simp add: update_signals_sum_def Let_def sa1_def [symmetric])
    then have "update_signals now sa load rnbl running w = Some (False, sa')" by (simp add: update_signals_def)
    moreover have "same_avgs sa' sa" by (simp add: sa'_def sa1_def same_avgs_def)
    moreover have "grown load r u sa sa'" if fits: "growth_fits load rnbl sa"
    proof -
      have lt: "unat ?d1 < 1024" using d by simp
      have room: "unat (ls_load_sum sa) + unat load * 1024 < 2 ^ 64"
          "unat (ls_runnable_sum sa) + unat rnbl * 1024 * 1024 < 2 ^ 64" "unat (ls_util_sum sa) + 1024 * 1024 < 2 ^ 32"
        using fits by (simp_all add: growth_fits_def)
      have "unat load * unat ?d1 \<le> unat load * 1024" using lt by (intro mult_le_mono2) simp
      then have ml: "unat (ls_load_sum sa) + unat load * unat ?d1 < 2 ^ 64" using room(1) by linarith
      have "unat r * unat ?d1 * 1024 \<le> unat rnbl * 1024 * 1024"
        using lt by (auto simp: r_def intro!: mult_le_mono)
      then have mr: "unat (ls_runnable_sum sa) + unat r * unat ?d1 * 1024 < 2 ^ 64" using room(2) by linarith
      have l: "unat (load * ucast ?c) = unat load * unat ?d1"
        using ml unat_u64_mult_small [of load "ucast ?c"] c by simp
      have r1: "unat (r * ucast ?c) = unat r * unat ?d1"
        using mr unat_u64_mult_small [of r "ucast ?c"] c by simp
      have r2: "unat (push_bit 10 (r * ucast ?c)) = unat r * unat ?d1 * 1024"
        using mr r1 unat_u64_mult_small [of "r * ucast ?c" 1024] by (simp add: push_bit_eq_mult)
      have u1: "unat (push_bit 10 ?c) = unat ?d1 * 1024"
        using lt c by (simp add: push_bit_eq_mult unat_word_ariths)
      show ?thesis unfolding grown_def
      proof (intro exI [of _ "unat ?d1"] conjI)
        show "unat (ls_load_sum sa') = unat (ls_load_sum sa) + unat load * unat ?d1"
          using ml l unat_u64_add_small [of "ls_load_sum sa" "load * ucast ?c"] by (simp add: sa'_def)
        show "unat (ls_runnable_sum sa') = unat (ls_runnable_sum sa) + unat r * unat ?d1 * 1024"
          using mr r2 unat_u64_add_small [of "ls_runnable_sum sa" "push_bit 10 (r * ucast ?c)"] by (simp add: sa'_def)
        show "unat (ls_util_sum sa') = unat (ls_util_sum sa) + (if u then unat ?d1 * 1024 else 0)"
          using room(3) lt by (simp add: sa'_def unat_word_ariths(1) u1)
      qed (use lt in simp)
    qed
    ultimately show ?thesis using that by blast
  qed
qed

end
