(* ===== verification/Kernel_Load.thy ===== *)
theory Kernel_Load
  imports Kernel_Average Kernel_Fair
begin

text \<open>
  The load averages of entities and runqueues in src/apex-cfs/docs/fair.c: an entity is attached
  to a runqueue, detached from it or removed without its lock, a group runqueue propagates its
  changes to its entity, the shares of a group follow its load, and the utilisation of a task is
  estimated when it sleeps.

  The configuration is CONFIG_SMP, CONFIG_FAIR_GROUP_SCHED and CONFIG_NO_HZ_COMMON on 64 bits. The
  fields have the widths of include-linux-sched.h. Signed 64-bit values are words read with \<open>sint\<close>;
  the kernel is built so that they wrap. The averaging functions \<open>__update_load_avg_se\<close>,
  \<open>__update_load_avg_blocked_se\<close> and \<open>__update_load_avg_cfs_rq\<close> of pelt.c are here with the entities and
  runqueues of fair.c, on top of \<open>Kernel_Average\<close>. An entity is named by its address where the code
  compares pointers (\<open>cfs_rq->curr == se\<close>); \<open>UTIL_EST\<close> is the scheduler feature. Locks,
  trace points and the frequency governor have no definition.
\<close>

section \<open>State\<close>

record load_entity =
  en_avg :: load_signals
  en_weight :: u64
  en_on_rq :: u32
  en_addr :: nat
  en_task :: bool
  en_runnable_weight :: u64

text \<open>\<open>q_root\<close>: the runqueue belongs to \<open>root_task_group\<close>.\<close>

record load_rq =
  q_avg :: load_signals
  q_weight :: u64
  removed_nr :: u32
  removed_load :: u64
  removed_util :: u64
  removed_runnable :: u64
  tg_load_avg_contrib :: u64
  propagate :: bool
  prop_runnable_sum :: u64
  q_root :: bool
  q_h_nr_running :: u32
  q_curr :: "nat ptr"

record load_group =
  tg_shares :: u64
  tg_load_avg :: u64

definition avg_update :: "(load_signals \<Rightarrow> load_signals) \<Rightarrow> load_rq \<Rightarrow> load_rq" where
  "avg_update f q = q\<lparr>q_avg := f (q_avg q)\<rparr>"

definition en_update :: "(load_signals \<Rightarrow> load_signals) \<Rightarrow> load_entity \<Rightarrow> load_entity" where
  "en_update f se = se\<lparr>en_avg := f (en_avg se)\<rparr>"

section \<open>Arithmetic\<close>

definition add_positive :: "'a::len word \<Rightarrow> u64 \<Rightarrow> 'a word" where
  "add_positive var val = (let res = var + ucast val in if sint val < 0 \<and> var < res then 0 else res)"

definition sub_positive :: "'a::len word \<Rightarrow> 'a word \<Rightarrow> 'a word" where
  "sub_positive var val = (let res = var - val in if var < res then 0 else res)"

definition max_u32 :: "u64 \<Rightarrow> u64 \<Rightarrow> u32" where
  "max_u32 a b = max (ucast a) (ucast b)"

definition floor_of :: "u64 \<Rightarrow> u64" where
  "floor_of avg = avg * ucast PELT_MIN_DIVIDER"

definition se_weight_of :: "load_entity \<Rightarrow> u64" where
  "se_weight_of se = Kernel_Fair.scale_load_down (en_weight se)"

definition se_runnable_of :: "load_entity \<Rightarrow> u64" where
  "se_runnable_of se = (if en_task se then if en_on_rq se \<noteq> 0 then 1 else 0 else en_runnable_weight se)"

section \<open>Averaging\<close>

abbreviation (input) UTIL_AVG_UNCHANGED :: u32 where "UTIL_AVG_UNCHANGED \<equiv> 0x80000000"

definition est_update :: "(util_est \<Rightarrow> util_est) \<Rightarrow> load_signals \<Rightarrow> load_signals" where
  "est_update f sa = sa\<lparr>ls_util_est := f (ls_util_est sa)\<rparr>"

text \<open>\<open>cfs_se_util_change\<close> of pelt.h.\<close>

definition cfs_se_util_change :: "bool \<Rightarrow> load_signals \<Rightarrow> load_signals" where
  "cfs_se_util_change UTIL_EST sa =
     (if \<not> UTIL_EST then sa
      else if ue_enqueued (ls_util_est sa) AND UTIL_AVG_UNCHANGED = 0 then sa
      else est_update (\<lambda>ue. ue\<lparr>ue_enqueued := ue_enqueued ue AND NOT UTIL_AVG_UNCHANGED\<rparr>) sa)"

text \<open>\<open>__update_load_avg_blocked_se\<close>, \<open>__update_load_avg_se\<close> and \<open>__update_load_avg_cfs_rq\<close>.\<close>

definition pelt_blocked_se :: "u64 \<Rightarrow> load_entity \<Rightarrow> (bool \<times> load_entity) option" where
  "pelt_blocked_se now se = do {
     (changed, sa) \<leftarrow> update_signals now (en_avg se) 0 0 False (se_weight_of se);
     Some (changed, se\<lparr>en_avg := sa\<rparr>)
   }"

definition pelt_se :: "bool \<Rightarrow> u64 \<Rightarrow> load_rq \<Rightarrow> load_entity \<Rightarrow> (bool \<times> load_entity) option" where
  "pelt_se UTIL_EST now q se = do {
     (changed, sa) \<leftarrow> update_signals now (en_avg se) (if en_on_rq se \<noteq> 0 then 1 else 0) (se_runnable_of se)
       (q_curr q = Ref (en_addr se)) (se_weight_of se);
     Some (changed, se\<lparr>en_avg := (if changed then cfs_se_util_change UTIL_EST sa else sa)\<rparr>)
   }"

definition pelt_cfs_rq :: "u64 \<Rightarrow> load_rq \<Rightarrow> (bool \<times> load_rq) option" where
  "pelt_cfs_rq now q = do {
     (changed, sa) \<leftarrow> update_signals now (q_avg q) (Kernel_Fair.scale_load_down (q_weight q))
       (ucast (q_h_nr_running q)) (q_curr q \<noteq> NULL) 1;
     Some (changed, q\<lparr>q_avg := sa\<rparr>)
   }"

section \<open>Attaching and detaching\<close>

definition enqueue_load_avg :: "load_entity \<Rightarrow> load_rq \<Rightarrow> load_rq" where
  "enqueue_load_avg se = avg_update (\<lambda>sa.
     sa\<lparr>ls_load_avg := ls_load_avg sa + ls_load_avg (en_avg se),
        ls_load_sum := ls_load_sum sa + se_weight_of se * ls_load_sum (en_avg se)\<rparr>)"

definition dequeue_load_avg :: "load_entity \<Rightarrow> load_rq \<Rightarrow> load_rq" where
  "dequeue_load_avg se = avg_update (\<lambda>sa.
     let sa = sa\<lparr>ls_load_avg := sub_positive (ls_load_avg sa) (ls_load_avg (en_avg se))\<rparr>;
         sa = sa\<lparr>ls_load_sum := sub_positive (ls_load_sum sa) (se_weight_of se * ls_load_sum (en_avg se))\<rparr>
     in sa\<lparr>ls_load_sum := ucast (max_u32 (ls_load_sum sa) (floor_of (ls_load_avg sa)))\<rparr>)"

text \<open>The load averages in \<open>reweight_entity\<close>; its weights are in \<open>Kernel_Sched\<close>.\<close>

definition reweight_load :: "u64 \<Rightarrow> load_entity \<Rightarrow> load_rq \<Rightarrow> (load_entity \<times> load_rq) option" where
  "reweight_load w se q = do {
     let q = dequeue_load_avg se q;
     let se = se\<lparr>en_weight := w\<rparr>;
     a \<leftarrow> div_u64_u32 (se_weight_of se * ls_load_sum (en_avg se)) (divider (en_avg se));
     let se = en_update (\<lambda>sa. sa\<lparr>ls_load_avg := a\<rparr>) se;
     Some (se, enqueue_load_avg se q)
   }"

definition add_tg_cfs_propagate :: "u64 \<Rightarrow> load_rq \<Rightarrow> load_rq" where
  "add_tg_cfs_propagate s q = q\<lparr>propagate := True, prop_runnable_sum := prop_runnable_sum q + s\<rparr>"

definition attach_entity_load_avg :: "load_entity \<Rightarrow> load_rq \<Rightarrow> (load_entity \<times> load_rq) option" where
  "attach_entity_load_avg se q = do {
     let d = divider (q_avg q);
     let se = en_update (\<lambda>sa.
       sa\<lparr>ls_last_update_time := ls_last_update_time (q_avg q),
          ls_period_contrib := ls_period_contrib (q_avg q),
          ls_util_sum := ucast (ls_util_avg sa * ucast d),
          ls_runnable_sum := ls_runnable_avg sa * ucast d,
          ls_load_sum := ls_load_avg sa * ucast d\<rparr>) se;
     s \<leftarrow> (if se_weight_of se < ls_load_sum (en_avg se)
          then div_u64_u32 (ls_load_sum (en_avg se)) (ucast (se_weight_of se)) else Some 1);
     let se = en_update (\<lambda>sa. sa\<lparr>ls_load_sum := s\<rparr>) se;
     let q = enqueue_load_avg se q;
     let q = avg_update (\<lambda>sa.
       sa\<lparr>ls_util_avg := ls_util_avg sa + ls_util_avg (en_avg se),
          ls_util_sum := ls_util_sum sa + ls_util_sum (en_avg se),
          ls_runnable_avg := ls_runnable_avg sa + ls_runnable_avg (en_avg se),
          ls_runnable_sum := ls_runnable_sum sa + ls_runnable_sum (en_avg se)\<rparr>) q;
     Some (se, add_tg_cfs_propagate (ls_load_sum (en_avg se)) q)
   }"

definition detach_entity_load_avg :: "load_entity \<Rightarrow> load_rq \<Rightarrow> load_rq" where
  "detach_entity_load_avg se q =
     (let q = dequeue_load_avg se q;
          q = avg_update (\<lambda>sa.
            let sa = sa\<lparr>ls_util_avg := sub_positive (ls_util_avg sa) (ls_util_avg (en_avg se))\<rparr>;
                sa = sa\<lparr>ls_util_sum := sub_positive (ls_util_sum sa) (ls_util_sum (en_avg se))\<rparr>;
                sa = sa\<lparr>ls_util_sum := max_u32 (ucast (ls_util_sum sa)) (floor_of (ls_util_avg sa))\<rparr>;
                sa = sa\<lparr>ls_runnable_avg := sub_positive (ls_runnable_avg sa) (ls_runnable_avg (en_avg se))\<rparr>;
                sa = sa\<lparr>ls_runnable_sum := sub_positive (ls_runnable_sum sa) (ls_runnable_sum (en_avg se))\<rparr>
            in sa\<lparr>ls_runnable_sum := ucast (max_u32 (ls_runnable_sum sa) (floor_of (ls_runnable_avg sa)))\<rparr>) q
      in add_tg_cfs_propagate (- ls_load_sum (en_avg se)) q)"

text \<open>\<open>removed.nr\<close>, an \<open>int\<close>, is kept as 32 bits.\<close>

definition sync_entity_load_avg :: "load_entity \<Rightarrow> load_rq \<Rightarrow> load_entity option" where
  "sync_entity_load_avg se q = map_option snd (pelt_blocked_se (ls_last_update_time (q_avg q)) se)"

definition remove_entity_load_avg :: "load_entity \<Rightarrow> load_rq \<Rightarrow> (load_entity \<times> load_rq) option" where
  "remove_entity_load_avg se q = do {
     se \<leftarrow> sync_entity_load_avg se q;
     Some (se, q\<lparr>removed_nr := removed_nr q + 1,
       removed_util := removed_util q + ls_util_avg (en_avg se),
       removed_load := removed_load q + ls_load_avg (en_avg se),
       removed_runnable := removed_runnable q + ls_runnable_avg (en_avg se)\<rparr>)
   }"

text \<open>The entities removed since the last update are taken out of the averages.\<close>

definition take_removed :: "load_rq \<Rightarrow> load_rq" where
  "take_removed q =
     (let d = divider (q_avg q); rl = removed_load q; ru = removed_util q; rr = removed_runnable q;
          q = q\<lparr>removed_util := 0, removed_load := 0, removed_runnable := 0, removed_nr := 0\<rparr>;
          q = avg_update (\<lambda>sa.
            let sa = sa\<lparr>ls_load_avg := sub_positive (ls_load_avg sa) rl\<rparr>;
                sa = sa\<lparr>ls_load_sum := sub_positive (ls_load_sum sa) (rl * ucast d)\<rparr>;
                sa = sa\<lparr>ls_load_sum := ucast (max_u32 (ls_load_sum sa) (floor_of (ls_load_avg sa)))\<rparr>;
                sa = sa\<lparr>ls_util_avg := sub_positive (ls_util_avg sa) ru\<rparr>;
                sa = sa\<lparr>ls_util_sum := sub_positive (ls_util_sum sa) (ucast (ru * ucast d))\<rparr>;
                sa = sa\<lparr>ls_util_sum := max_u32 (ucast (ls_util_sum sa)) (floor_of (ls_util_avg sa))\<rparr>;
                sa = sa\<lparr>ls_runnable_avg := sub_positive (ls_runnable_avg sa) rr\<rparr>;
                sa = sa\<lparr>ls_runnable_sum := sub_positive (ls_runnable_sum sa) (rr * ucast d)\<rparr>
            in sa\<lparr>ls_runnable_sum := ucast (max_u32 (ls_runnable_sum sa) (floor_of (ls_runnable_avg sa)))\<rparr>) q
      in add_tg_cfs_propagate (signed_drop_bit 10 (- (rr * ucast d))) q)"

definition update_cfs_rq_load_avg :: "u64 \<Rightarrow> load_rq \<Rightarrow> (bool \<times> load_rq) option" where
  "update_cfs_rq_load_avg now q = do {
     let decayed = (removed_nr q \<noteq> 0);
     let q = (if removed_nr q \<noteq> 0 then take_removed q else q);
     (d, q) \<leftarrow> pelt_cfs_rq now q;
     Some (decayed \<or> d, q)
   }"

section \<open>Groups\<close>

text \<open>A group runqueue \<open>g\<close>, its entity \<open>se\<close> and the runqueue \<open>q\<close> the entity is on.\<close>

definition update_tg_cfs_util :: "load_rq \<Rightarrow> load_entity \<Rightarrow> load_rq \<Rightarrow> load_entity \<times> load_rq" where
  "update_tg_cfs_util g se q =
     (let delta_avg = ls_util_avg (q_avg g) - ls_util_avg (en_avg se) in
      if delta_avg = 0 then (se, q)
      else let d = divider (q_avg q);
               new_sum = (ucast (ls_util_avg (q_avg g) * ucast d) :: u32);
               delta_sum = (ucast new_sum - ucast (ls_util_sum (en_avg se)) :: u64);
               se = en_update (\<lambda>sa. sa\<lparr>ls_util_avg := ls_util_avg (q_avg g), ls_util_sum := new_sum\<rparr>) se
        in (se, avg_update (\<lambda>sa.
             let sa = sa\<lparr>ls_util_avg := add_positive (ls_util_avg sa) delta_avg,
                         ls_util_sum := add_positive (ls_util_sum sa) delta_sum\<rparr>
             in sa\<lparr>ls_util_sum := max_u32 (ucast (ls_util_sum sa)) (floor_of (ls_util_avg sa))\<rparr>) q))"

definition update_tg_cfs_runnable :: "load_rq \<Rightarrow> load_entity \<Rightarrow> load_rq \<Rightarrow> load_entity \<times> load_rq" where
  "update_tg_cfs_runnable g se q =
     (let delta_avg = ls_runnable_avg (q_avg g) - ls_runnable_avg (en_avg se) in
      if delta_avg = 0 then (se, q)
      else let d = divider (q_avg q);
               new_sum = (ucast (ls_runnable_avg (q_avg g) * ucast d) :: u32);
               delta_sum = ucast new_sum - ls_runnable_sum (en_avg se);
               se = en_update (\<lambda>sa. sa\<lparr>ls_runnable_avg := ls_runnable_avg (q_avg g), ls_runnable_sum := ucast new_sum\<rparr>) se
        in (se, avg_update (\<lambda>sa.
             let sa = sa\<lparr>ls_runnable_avg := add_positive (ls_runnable_avg sa) delta_avg,
                         ls_runnable_sum := add_positive (ls_runnable_sum sa) delta_sum\<rparr>
             in sa\<lparr>ls_runnable_sum := ucast (max_u32 (ls_runnable_sum sa) (floor_of (ls_runnable_avg sa)))\<rparr>) q))"

definition signed_min :: "u64 \<Rightarrow> u64 \<Rightarrow> u64" where
  "signed_min a b = (if sint a < sint b then a else b)"

definition signed_max :: "u64 \<Rightarrow> u64 \<Rightarrow> u64" where
  "signed_max a b = (if sint b < sint a then a else b)"

definition update_tg_cfs_load :: "load_rq \<Rightarrow> load_entity \<Rightarrow> load_rq \<Rightarrow> (load_rq \<times> load_entity \<times> load_rq) option" where
  "update_tg_cfs_load g se q =
     (let runnable_sum = prop_runnable_sum g in
      if runnable_sum = 0 then Some (g, se, q)
      else do {
        let g = g\<lparr>prop_runnable_sum := 0\<rparr>;
        let d = divider (q_avg q);
        runnable_sum \<leftarrow>
          (if 0 \<le> sint runnable_sum
           then Some (signed_min (runnable_sum + ls_load_sum (en_avg se)) (ucast d))
           else do {
             load_sum \<leftarrow> (if Kernel_Fair.scale_load_down (q_weight g) \<noteq> 0
                          then div_u64_u32 (ls_load_sum (q_avg g)) (ucast (Kernel_Fair.scale_load_down (q_weight g))) else Some 0);
             Some (min (ls_load_sum (en_avg se)) load_sum)
           });
        let running_sum = (ucast (drop_bit 10 (ls_util_sum (en_avg se))) :: u64);
        let runnable_sum = signed_max runnable_sum running_sum;
        let load_sum = se_weight_of se * runnable_sum;
        load_avg \<leftarrow> div_u64_u32 load_sum d;
        let delta_avg = load_avg - ls_load_avg (en_avg se);
        if delta_avg = 0 then Some (g, se, q)
        else do {
          let delta_sum = load_sum - se_weight_of se * ls_load_sum (en_avg se);
          let se = en_update (\<lambda>sa. sa\<lparr>ls_load_sum := runnable_sum, ls_load_avg := load_avg\<rparr>) se;
          Some (g, se, avg_update (\<lambda>sa.
            let sa = sa\<lparr>ls_load_avg := add_positive (ls_load_avg sa) delta_avg,
                        ls_load_sum := add_positive (ls_load_sum sa) delta_sum\<rparr>
            in sa\<lparr>ls_load_sum := ucast (max_u32 (ls_load_sum sa) (floor_of (ls_load_avg sa)))\<rparr>) q)
        }
      })"

text \<open>\<open>None\<close> stands for an entity that is a task.\<close>

definition propagate_entity_load_avg ::
  "load_rq option \<Rightarrow> load_entity \<Rightarrow> load_rq \<Rightarrow> (bool \<times> load_rq option \<times> load_entity \<times> load_rq) option" where
  "propagate_entity_load_avg grq se q =
     (case grq of
        None \<Rightarrow> Some (False, None, se, q)
      | Some g \<Rightarrow>
          if \<not> propagate g then Some (False, Some g, se, q)
          else do {
            let g = g\<lparr>propagate := False\<rparr>;
            let q = add_tg_cfs_propagate (prop_runnable_sum g) q;
            let (se, q) = update_tg_cfs_util g se q;
            let (se, q) = update_tg_cfs_runnable g se q;
            (g, se, q) \<leftarrow> update_tg_cfs_load g se q;
            Some (True, Some g, se, q)
          })"

definition skip_blocked_update :: "load_rq \<Rightarrow> load_entity \<Rightarrow> bool" where
  "skip_blocked_update g se \<longleftrightarrow>
     (if ls_load_avg (en_avg se) \<noteq> 0 \<or> ls_util_avg (en_avg se) \<noteq> 0 then False
      else if propagate g then False else True)"

text \<open>\<open>abs\<close> gives a signed value, which the comparison makes unsigned.\<close>

definition update_tg_load_avg :: "load_group \<Rightarrow> load_rq \<Rightarrow> load_group \<times> load_rq" where
  "update_tg_load_avg tg q =
     (let delta = ls_load_avg (q_avg q) - tg_load_avg_contrib q in
      if q_root q then (tg, q)
      else if tg_load_avg_contrib q div 64 < (if sint delta < 0 then - delta else delta)
      then (tg\<lparr>tg_load_avg := tg_load_avg tg + delta\<rparr>, q\<lparr>tg_load_avg_contrib := ls_load_avg (q_avg q)\<rparr>)
      else (tg, q))"

abbreviation (input) MIN_SHARES :: int where "MIN_SHARES \<equiv> 2"

text \<open>\<open>max\<close> compares two \<open>unsigned long\<close>, \<open>clamp_t\<close> is \<open>min (max x lo) hi\<close>.\<close>

definition calc_group_shares :: "load_group \<Rightarrow> load_rq \<Rightarrow> int" where
  "calc_group_shares tg q =
     (let load = max (Kernel_Fair.scale_load_down (q_weight q)) (ls_load_avg (q_avg q));
          tg_weight = tg_load_avg tg;
          tg_weight = tg_weight - tg_load_avg_contrib q;
          tg_weight = tg_weight + load;
          shares = sint (tg_shares tg * load);
          shares = (if tg_weight \<noteq> 0 then c_div shares (sint tg_weight) else shares)
      in min (max shares MIN_SHARES) (sint (tg_shares tg)))"

text \<open>The first component says whether \<open>SCHED_WARN_ON\<close> fired.\<close>

definition load_avg_is_decayed :: "load_signals \<Rightarrow> bool \<times> bool" where
  "load_avg_is_decayed sa =
     (if ls_load_sum sa \<noteq> 0 then (False, False)
      else if ls_util_sum sa \<noteq> 0 then (False, False)
      else if ls_runnable_sum sa \<noteq> 0 then (False, False)
      else (ls_load_avg sa \<noteq> 0 \<or> ls_util_avg sa \<noteq> 0 \<or> ls_runnable_avg sa \<noteq> 0, True))"

definition cfs_rq_is_decayed :: "bool \<Rightarrow> load_rq \<Rightarrow> bool" where
  "cfs_rq_is_decayed child_on_list q =
     (if q_weight q \<noteq> 0 then False
      else if \<not> snd (load_avg_is_decayed (q_avg q)) then False
      else if child_on_list then False else True)"

section \<open>The update of an entity and its runqueue\<close>

abbreviation (input) UPDATE_TG :: u32 where "UPDATE_TG \<equiv> 0x1"
abbreviation (input) SKIP_AGE_LOAD :: u32 where "SKIP_AGE_LOAD \<equiv> 0x2"
abbreviation (input) DO_ATTACH :: u32 where "DO_ATTACH \<equiv> 0x4"
abbreviation (input) DO_DETACH :: u32 where "DO_DETACH \<equiv> 0x8"

record load_place =
  lp_group :: load_group
  lp_own :: "load_rq option"
  lp_se :: load_entity
  lp_rq :: load_rq

text \<open>\<open>now\<close> is the load-tracking clock of the runqueue, \<open>lp_group\<close> the group that owns it.\<close>

definition tg_update :: "load_place \<Rightarrow> load_place" where
  "tg_update s = (let (tg, q) = update_tg_load_avg (lp_group s) (lp_rq s) in s\<lparr>lp_group := tg, lp_rq := q\<rparr>)"

definition update_load_avg_flags :: "bool \<Rightarrow> u64 \<Rightarrow> u32 \<Rightarrow> load_place \<Rightarrow> load_place option" where
  "update_load_avg_flags UTIL_EST now flags s = do {
     let se = lp_se s;
     se \<leftarrow> (if ls_last_update_time (en_avg se) \<noteq> 0 \<and> flags AND SKIP_AGE_LOAD = 0
            then map_option snd (pelt_se UTIL_EST now (lp_rq s) se) else Some se);
     (decayed, q) \<leftarrow> update_cfs_rq_load_avg now (lp_rq s);
     (propagated, g, se, q) \<leftarrow> propagate_entity_load_avg (lp_own s) se q;
     let s = s\<lparr>lp_own := g, lp_se := se, lp_rq := q\<rparr>;
     if ls_last_update_time (en_avg se) = 0 \<and> flags AND DO_ATTACH \<noteq> 0 then do {
       (se, q) \<leftarrow> attach_entity_load_avg se q;
       Some (tg_update (s\<lparr>lp_se := se, lp_rq := q\<rparr>))
     }
     else if flags AND DO_DETACH \<noteq> 0 then Some (tg_update (s\<lparr>lp_rq := detach_entity_load_avg se q\<rparr>))
     else if (decayed \<or> propagated) \<and> flags AND UPDATE_TG \<noteq> 0 then Some (tg_update s)
     else Some s
   }"

text \<open>The way up to the parents is a sequence of such updates, one per level.\<close>

definition detach_entity_cfs_rq :: "bool \<Rightarrow> u64 \<Rightarrow> load_place \<Rightarrow> load_place option" where
  "detach_entity_cfs_rq UTIL_EST now s =
     (if ls_last_update_time (en_avg (lp_se s)) = 0 then Some s
      else do {
        s \<leftarrow> update_load_avg_flags UTIL_EST now 0 s;
        Some (tg_update (s\<lparr>lp_rq := detach_entity_load_avg (lp_se s) (lp_rq s)\<rparr>))
      })"

definition attach_entity_cfs_rq :: "bool \<Rightarrow> bool \<Rightarrow> u64 \<Rightarrow> load_place \<Rightarrow> load_place option" where
  "attach_entity_cfs_rq UTIL_EST ATTACH_AGE_LOAD now s = do {
     s \<leftarrow> update_load_avg_flags UTIL_EST now (if ATTACH_AGE_LOAD then 0 else SKIP_AGE_LOAD) s;
     (se, q) \<leftarrow> attach_entity_load_avg (lp_se s) (lp_rq s);
     Some (tg_update (s\<lparr>lp_se := se, lp_rq := q\<rparr>))
   }"

definition set_task_rq_fair ::
  "bool \<Rightarrow> load_rq option \<Rightarrow> load_rq \<Rightarrow> load_entity \<Rightarrow> load_entity option" where
  "set_task_rq_fair ATTACH_AGE_LOAD prev nxt se =
     (if \<not> ATTACH_AGE_LOAD then Some se
      else case prev of
        None \<Rightarrow> Some se
      | Some p \<Rightarrow>
          if ls_last_update_time (en_avg se) = 0 then Some se
          else do {
            (_, se) \<leftarrow> pelt_blocked_se (ls_last_update_time (q_avg p)) se;
            Some (en_update (\<lambda>sa. sa\<lparr>ls_last_update_time := ls_last_update_time (q_avg nxt)\<rparr>) se)
          })"

text \<open>
  \<open>throttled\<close>, \<open>clock_pelt_idle\<close>, \<open>clock_idle\<close> are fields of the runqueues, \<open>cpu_clock\<close> is the reading of
  \<open>sched_clock_cpu\<close>.
\<close>

definition migrate_se_pelt_lag ::
  "bool \<Rightarrow> u64 \<Rightarrow> u64 \<Rightarrow> u64 \<Rightarrow> u64 \<Rightarrow> load_rq \<Rightarrow> load_entity \<Rightarrow> load_entity option" where
  "migrate_se_pelt_lag is_idle throttled clock_pelt_idle clock_idle cpu_clock q se =
     (if snd (load_avg_is_decayed (en_avg se)) then Some se
      else if \<not> is_idle then Some se
      else if throttled = - 1 then Some se
      else
        let now = clock_pelt_idle;
            lut = ls_last_update_time (q_avg q);
            now = now - throttled;
            now = (if now < lut then lut else now + (cpu_clock - clock_idle))
        in map_option snd (pelt_blocked_se now se))"

section \<open>New entities\<close>

definition init_entity_runnable_average :: "bool \<Rightarrow> load_entity \<Rightarrow> load_entity" where
  "init_entity_runnable_average is_task se =
     en_update (\<lambda>_. \<lparr>ls_last_update_time = 0, ls_load_sum = 0, ls_runnable_sum = 0, ls_util_sum = 0,
       ls_period_contrib = 0, ls_load_avg = (if is_task then Kernel_Fair.scale_load_down (en_weight se) else 0),
       ls_runnable_avg = 0, ls_util_avg = 0, ls_util_est = \<lparr>ue_enqueued = 0, ue_ewma = 0\<rparr>\<rparr>) se"

definition post_init_entity_util_avg :: "u64 \<Rightarrow> bool \<Rightarrow> u64 \<Rightarrow> load_rq \<Rightarrow> load_entity \<Rightarrow> load_entity option" where
  "post_init_entity_util_avg cpu_scale is_fair now q se =
     (let cap = c_div (sint (cpu_scale - ls_util_avg (q_avg q))) 2 in
      if \<not> is_fair then Some (en_update (\<lambda>sa. sa\<lparr>ls_last_update_time := now\<rparr>) se)
      else do {
        se \<leftarrow> (if 0 < cap
               then if ls_util_avg (q_avg q) \<noteq> 0
                 then if ls_load_avg (q_avg q) + 1 = 0 then None
                   else let u = ls_util_avg (q_avg q) * en_weight se div (ls_load_avg (q_avg q) + 1);
                            u = (if of_int cap < u then of_int cap else u)
                     in Some (en_update (\<lambda>sa. sa\<lparr>ls_util_avg := u\<rparr>) se)
                 else Some (en_update (\<lambda>sa. sa\<lparr>ls_util_avg := of_int cap\<rparr>) se)
               else Some se);
        Some (en_update (\<lambda>sa. sa\<lparr>ls_runnable_avg := ls_util_avg sa\<rparr>) se)
      })"

section \<open>Estimated utilisation\<close>

abbreviation (input) UTIL_EST_MARGIN :: int where "UTIL_EST_MARGIN \<equiv> 10"

definition task_util :: "load_entity \<Rightarrow> u64" where
  "task_util p = ls_util_avg (en_avg p)"

definition task_util_est_stored :: "load_entity \<Rightarrow> u32" where
  "task_util_est_stored p =
     (let ue = ls_util_est (en_avg p) in max (ue_ewma ue) (ue_enqueued ue AND NOT UTIL_AVG_UNCHANGED))"

definition task_util_est :: "load_entity \<Rightarrow> u64" where
  "task_util_est p = max (task_util p) (ucast (task_util_est_stored p))"

definition util_est_enqueue :: "bool \<Rightarrow> load_entity \<Rightarrow> load_rq \<Rightarrow> load_rq" where
  "util_est_enqueue UTIL_EST p q =
     (if \<not> UTIL_EST then q
      else avg_update (est_update (\<lambda>ue. ue\<lparr>ue_enqueued := ue_enqueued ue + task_util_est_stored p\<rparr>)) q)"

definition util_est_dequeue :: "bool \<Rightarrow> load_entity \<Rightarrow> load_rq \<Rightarrow> load_rq" where
  "util_est_dequeue UTIL_EST p q =
     (if \<not> UTIL_EST then q
      else avg_update (est_update (\<lambda>ue. ue\<lparr>ue_enqueued :=
             ue_enqueued ue - min (ue_enqueued ue) (task_util_est_stored p)\<rparr>)) q)"

text \<open>The arguments are converted to \<open>int\<close>, the comparison is unsigned.\<close>

definition within_margin :: "u64 \<Rightarrow> int \<Rightarrow> bool" where
  "within_margin v margin \<longleftrightarrow> ((ucast v + of_int margin - 1 :: u32) < of_int (2 * margin - 1))"

definition util_est_update :: "bool \<Rightarrow> bool \<Rightarrow> u64 \<Rightarrow> bool \<Rightarrow> load_entity \<Rightarrow> load_entity" where
  "util_est_update UTIL_EST UTIL_EST_FASTUP capacity_orig task_sleep p =
     (let ue = ls_util_est (en_avg p);
          done_with = (\<lambda>ue. en_update (\<lambda>sa. sa\<lparr>ls_util_est := ue\<lparr>ue_enqueued := ue_enqueued ue OR UTIL_AVG_UNCHANGED\<rparr>\<rparr>) p)
      in
        if \<not> UTIL_EST then p
        else if \<not> task_sleep then p
        else if ue_enqueued ue AND UTIL_AVG_UNCHANGED \<noteq> 0 then p
        else
          let last_enqueued = (ucast (ue_enqueued ue) :: u64);
              ue = ue\<lparr>ue_enqueued := ucast (task_util p)\<rparr>
          in
            if UTIL_EST_FASTUP \<and> ue_ewma ue < ue_enqueued ue
            then done_with (ue\<lparr>ue_ewma := ue_enqueued ue\<rparr>)
            else
              let last_ewma_diff = (ucast (ue_enqueued ue - ue_ewma ue) :: u64);
                  last_enqueued_diff = last_enqueued - ucast (ue_enqueued ue)
              in
                if within_margin last_ewma_diff UTIL_EST_MARGIN
                then if \<not> within_margin last_enqueued_diff UTIL_EST_MARGIN then done_with ue else p
                else if capacity_orig < task_util p then p
                else
                  let e = push_bit 2 (ue_ewma ue);
                      e = e + ucast last_ewma_diff;
                      e = drop_bit 2 e
                  in done_with (ue\<lparr>ue_ewma := e\<rparr>))"

end
