(* ===== verification/Kernel_Load_Run.thy ===== *)
theory Kernel_Load_Run
  imports Kernel_Load
begin

text \<open>
  What holds of the load averages of fair.c: attaching and detaching cancel up to the floors of the sums,
  the averages of a runqueue stay the sums of those of its entities between two period boundaries, the clamps to
  32 bits lose large sums, the estimated utilisation follows the measured one, and the shares of a group are bounded.
\<close>

section \<open>Clamped arithmetic\<close>

lemma unat_sub_positive: "unat (sub_positive a b) = unat a - unat b"
  for a b :: "'a::len word"
proof (cases "unat b \<le> unat a")
  case True
  then show ?thesis by (simp add: sub_positive_def word_less_nat_alt unat_sub_if')
next
  case False
  then have "unat (a - b) = unat a + 2 ^ LENGTH('a) - unat b" by (simp add: unat_sub_if')
  moreover have "unat b < 2 ^ LENGTH('a)" by (rule unsigned_less)
  ultimately have "a < a - b" unfolding word_less_nat_alt by linarith
  then show ?thesis using False by (simp add: sub_positive_def)
qed

lemma unat_max_u32: "unat (max_u32 a b) = max (unat a mod 2 ^ 32) (unat b mod 2 ^ 32)"
  by (simp add: max_u32_def max_def word_le_nat_alt unat_ucast_u64_u32)

lemma unat_floor_of: "unat a * 46718 < 2 ^ 64 \<Longrightarrow> unat (floor_of a) = unat a * 46718"
  by (simp add: floor_of_def PELT_MIN_DIVIDER_def unat_u64_mult_small)

lemma unat_divider:
  assumes "unat (ls_period_contrib sa) < 1024"
  shows "unat (divider sa) = 46718 + unat (ls_period_contrib sa)"
  using assms by (simp add: divider_def pelt_divider_def PELT_MIN_DIVIDER_def unat_word_ariths)

section \<open>Attach, then detach\<close>

text \<open>The signals of an entity after the attachment.\<close>

definition attached :: "load_entity \<Rightarrow> load_rq \<Rightarrow> load_entity" where
  "attached se q = (let d = ucast (divider (q_avg q)); w = se_weight_of se; l = ls_load_avg (en_avg se) * d in
     en_update (\<lambda>sa. sa\<lparr>ls_last_update_time := ls_last_update_time (q_avg q),
       ls_period_contrib := ls_period_contrib (q_avg q), ls_util_sum := ucast (ls_util_avg sa * d),
       ls_runnable_sum := ls_runnable_avg sa * d, ls_load_sum := (if w < l then l div w else 1)\<rparr>) se)"

text \<open>The new sums fit 32 bits.\<close>

definition attach_fits :: "load_entity \<Rightarrow> load_rq \<Rightarrow> bool" where
  "attach_fits se q \<longleftrightarrow> unat (ls_period_contrib (q_avg q)) < 1024 \<and>
     0 < unat (se_weight_of se) \<and>
     unat (ls_load_sum (q_avg q)) + unat (se_weight_of se) + unat (ls_load_avg (en_avg se)) * 47742 < 2 ^ 32 \<and>
     (unat (ls_load_avg (q_avg q)) + unat (ls_load_avg (en_avg se))) * 46718 < 2 ^ 32 \<and>
     unat (ls_util_sum (q_avg q)) + unat (ls_util_avg (en_avg se)) * 47742 < 2 ^ 32 \<and>
     (unat (ls_util_avg (q_avg q)) + unat (ls_util_avg (en_avg se))) * 46718 < 2 ^ 32 \<and>
     unat (ls_runnable_sum (q_avg q)) + unat (ls_runnable_avg (en_avg se)) * 47742 < 2 ^ 32 \<and>
     (unat (ls_runnable_avg (q_avg q)) + unat (ls_runnable_avg (en_avg se))) * 46718 < 2 ^ 32"

lemma attached_sums:
  assumes "attach_fits se q"
  defines "e \<equiv> en_avg (attached se q)"
  defines "d \<equiv> unat (divider (q_avg q))"
  shows "unat (ls_util_sum e) = unat (ls_util_avg (en_avg se)) * d"
    and "unat (ls_runnable_sum e) = unat (ls_runnable_avg (en_avg se)) * d"
    and "0 < unat (ls_load_sum e)"
    and "unat (se_weight_of se * ls_load_sum e) = unat (se_weight_of se) * unat (ls_load_sum e)"
    and "unat (se_weight_of se) * unat (ls_load_sum e) \<le> unat (se_weight_of se) + unat (ls_load_avg (en_avg se)) * 47742"
    and "d \<le> 47742"
proof -
  let ?w = "se_weight_of se" and ?d = "ucast (divider (q_avg q)) :: u64"
  let ?l = "ls_load_avg (en_avg se) * ?d"
  have c: "unat (ls_period_contrib (q_avg q)) < 1024" using assms(1) by (simp add: attach_fits_def)
  then show d: "d \<le> 47742" by (simp add: d_def unat_divider)
  have m: "unat x * d \<le> unat x * 47742" for x :: u64 using d by simp
  have small: "unat (x * ?d) = unat x * d" if "unat x * 47742 < 2 ^ 32" for x :: u64
  proof -
    have "unat x * d < 2 ^ 64"
      by (rule order_le_less_trans [OF m order_less_trans [OF that]]) simp
    then show ?thesis using unat_u64_mult_small [of x ?d] by (simp add: d_def)
  qed
  have lim: "unat (ls_load_avg (en_avg se)) * 47742 + unat ?w < 2 ^ 32" "unat (ls_util_avg (en_avg se)) * 47742 < 2 ^ 32"
    "unat (ls_runnable_avg (en_avg se)) * 47742 < 2 ^ 32"
    using assms(1) by (auto simp: attach_fits_def)
  show "unat (ls_util_sum e) = unat (ls_util_avg (en_avg se)) * d"
    using small [OF lim(2)] order_le_less_trans [OF m lim(2)]
    by (simp add: e_def attached_def en_update_def unat_ucast_u64_u32 Let_def)
  show "unat (ls_runnable_sum e) = unat (ls_runnable_avg (en_avg se)) * d"
    using small [OF lim(3)] by (simp add: e_def attached_def en_update_def Let_def)
  have l: "unat ?l = unat (ls_load_avg (en_avg se)) * d" using lim(1) by (intro small) simp
  have ls: "ls_load_sum e = (if ?w < ?l then ?l div ?w else 1)"
    by (simp add: e_def attached_def en_update_def Let_def)
  have w: "0 < unat ?w" using assms(1) by (simp add: attach_fits_def)
  have uls: "unat (ls_load_sum e) = (if unat ?w < unat ?l then unat ?l div unat ?w else 1)"
    by (simp add: ls word_less_nat_alt unat_div)
  have "1 \<le> unat ?l div unat ?w" if "unat ?w < unat ?l"
    using w that by (simp add: less_eq_div_iff_mult_less_eq)
  then show "0 < unat (ls_load_sum e)" by (auto simp: uls)
  have "unat ?w * unat (ls_load_sum e) \<le> unat ?w + unat ?l" by (simp add: uls trans_le_add2)
  also have "\<dots> \<le> unat ?w + unat (ls_load_avg (en_avg se)) * 47742" using m by (simp add: l)
  finally show le: "unat ?w * unat (ls_load_sum e) \<le> unat ?w + unat (ls_load_avg (en_avg se)) * 47742" .
  then show "unat (?w * ls_load_sum e) = unat ?w * unat (ls_load_sum e)"
    using lim(1) by (intro unat_u64_mult_small) simp
qed

definition join_signals :: "load_entity \<Rightarrow> load_signals \<Rightarrow> load_signals" where
  "join_signals se sa = sa\<lparr>ls_load_avg := ls_load_avg sa + ls_load_avg (en_avg se),
     ls_load_sum := ls_load_sum sa + se_weight_of se * ls_load_sum (en_avg se),
     ls_util_avg := ls_util_avg sa + ls_util_avg (en_avg se), ls_util_sum := ls_util_sum sa + ls_util_sum (en_avg se),
     ls_runnable_avg := ls_runnable_avg sa + ls_runnable_avg (en_avg se),
     ls_runnable_sum := ls_runnable_sum sa + ls_runnable_sum (en_avg se)\<rparr>"

lemma attach_view:
  assumes "attach_fits se q"
  shows "attach_entity_load_avg se q = Some (attached se q,
    add_tg_cfs_propagate (ls_load_sum (en_avg (attached se q))) (avg_update (join_signals (attached se q)) q))"
proof -
  let ?w = "se_weight_of se"
  have w: "unat ?w < 2 ^ 32" "0 < unat ?w" using assms by (auto simp: attach_fits_def)
  then have "unat (ucast ?w :: u32) = unat ?w" by (simp add: unat_ucast_u64_u32)
  then have "(ucast ?w :: u32) \<noteq> 0" "ucast (ucast ?w :: u32) = ?w"
    using w by (auto simp: word_unat_eq_iff)
  then have div: "div_u64_u32 x (ucast ?w) = Some (x div ?w)" for x by (simp add: div_u64_u32_def)
  let ?e = "en_update (\<lambda>sa. sa\<lparr>ls_last_update_time := ls_last_update_time (q_avg q),
       ls_period_contrib := ls_period_contrib (q_avg q), ls_util_sum := ucast (ls_util_avg sa * ucast (divider (q_avg q))),
       ls_runnable_sum := ls_runnable_avg sa * ucast (divider (q_avg q)),
       ls_load_sum := ls_load_avg sa * ucast (divider (q_avg q))\<rparr>) se"
  have we: "se_weight_of ?e = ?w" by (simp add: se_weight_of_def en_update_def)
  show ?thesis
    unfolding attach_entity_load_avg_def Let_def we div
    by (cases "?w < ls_load_avg (en_avg se) * ucast (divider (q_avg q))")
      (simp_all add: attached_def en_update_def enqueue_load_avg_def avg_update_def join_signals_def se_weight_of_def Let_def)
qed

lemma floor_max:
  assumes "unat a * 46718 \<le> unat s" and "unat s < 2 ^ 32"
  shows "unat (max_u32 s (floor_of a)) = unat s"
proof -
  have "unat a * 46718 < 2 ^ 32" by (rule order_le_less_trans [OF assms])
  then have "unat (floor_of a) = unat a * 46718" by (intro unat_floor_of) simp
  then show ?thesis using assms \<open>unat a * 46718 < 2 ^ 32\<close> by (simp add: unat_max_u32)
qed

lemma sub_add_positive:
  assumes "unat a + unat b < 2 ^ LENGTH('a)"
  shows "sub_positive (a + b) b = (a :: 'a::len word)"
proof -
  have "unat (a + b) = unat a + unat b" using assms by (simp add: unat_word_ariths(1))
  then show ?thesis by (simp add: word_unat_eq_iff unat_sub_positive)
qed

text \<open>The averages of the runqueue do not exceed what its sums account for.\<close>

definition floors_ok :: "load_signals \<Rightarrow> bool" where
  "floors_ok sa \<longleftrightarrow> unat (ls_load_avg sa) * 46718 \<le> unat (ls_load_sum sa) \<and>
     unat (ls_util_avg sa) * 46718 \<le> unat (ls_util_sum sa) \<and>
     unat (ls_runnable_avg sa) * 46718 \<le> unat (ls_runnable_sum sa)"

definition leave_signals :: "load_entity \<Rightarrow> load_signals \<Rightarrow> load_signals" where
  "leave_signals se sa =
     (let la = sub_positive (ls_load_avg sa) (ls_load_avg (en_avg se));
          ua = sub_positive (ls_util_avg sa) (ls_util_avg (en_avg se));
          ra = sub_positive (ls_runnable_avg sa) (ls_runnable_avg (en_avg se))
      in sa\<lparr>ls_load_avg := la,
        ls_load_sum := ucast (max_u32 (sub_positive (ls_load_sum sa) (se_weight_of se * ls_load_sum (en_avg se))) (floor_of la)),
        ls_util_avg := ua,
        ls_util_sum := max_u32 (ucast (sub_positive (ls_util_sum sa) (ls_util_sum (en_avg se)))) (floor_of ua),
        ls_runnable_avg := ra,
        ls_runnable_sum := ucast (max_u32 (sub_positive (ls_runnable_sum sa) (ls_runnable_sum (en_avg se))) (floor_of ra))\<rparr>)"

lemma detach_view:
  "detach_entity_load_avg se q = add_tg_cfs_propagate (- ls_load_sum (en_avg se)) (avg_update (leave_signals se) q)"
  by (simp add: detach_entity_load_avg_def dequeue_load_avg_def avg_update_def leave_signals_def Let_def)

lemma attached_avgs [simp]:
  "ls_load_avg (en_avg (attached se q)) = ls_load_avg (en_avg se)"
  "ls_util_avg (en_avg (attached se q)) = ls_util_avg (en_avg se)"
  "ls_runnable_avg (en_avg (attached se q)) = ls_runnable_avg (en_avg se)"
  "se_weight_of (attached se q) = se_weight_of se"
  by (simp_all add: attached_def en_update_def se_weight_of_def Let_def)

text \<open>What the clamps of a detachment make of the sums of a runqueue that are below their floors.\<close>

definition floored :: "load_signals \<Rightarrow> load_signals" where
  "floored sa = sa\<lparr>ls_load_sum := ucast (max_u32 (ls_load_sum sa) (floor_of (ls_load_avg sa))),
     ls_util_sum := max_u32 (ucast (ls_util_sum sa)) (floor_of (ls_util_avg sa)),
     ls_runnable_sum := ucast (max_u32 (ls_runnable_sum sa) (floor_of (ls_runnable_avg sa)))\<rparr>"

lemma leave_join:
  assumes fits: "attach_fits se q"
  shows "leave_signals (attached se q) (join_signals (attached se q) (q_avg q)) = floored (q_avg q)"
proof -
  let ?e = "attached se q" and ?sa = "q_avg q"
  note sums = attached_sums [OF fits]
  have d: "s + unat x * unat (divider (q_avg q)) < 2 ^ 32" if "s + unat x * 47742 < 2 ^ 32" for s and x :: u64
    by (rule order_le_less_trans [OF _ that]) (use sums(6) in simp)
  have b: "unat (ls_load_sum ?sa) + unat (se_weight_of se) + unat (ls_load_avg (en_avg se)) * 47742 < 2 ^ 32"
    "unat (ls_util_sum ?sa) + unat (ls_util_avg (en_avg se)) * 47742 < 2 ^ 32"
    "unat (ls_runnable_sum ?sa) + unat (ls_runnable_avg (en_avg se)) * 47742 < 2 ^ 32"
    "(unat (ls_load_avg ?sa) + unat (ls_load_avg (en_avg se))) * 46718 < 2 ^ 32"
    "(unat (ls_util_avg ?sa) + unat (ls_util_avg (en_avg se))) * 46718 < 2 ^ 32"
    "(unat (ls_runnable_avg ?sa) + unat (ls_runnable_avg (en_avg se))) * 46718 < 2 ^ 32"
    using fits by (auto simp: attach_fits_def)
  have avg: "sub_positive (x + y) y = x" if "(unat x + unat y) * 46718 < 2 ^ 32" for x y :: u64
    by (rule sub_add_positive) (use that in simp)
  have load: "sub_positive (ls_load_sum ?sa + se_weight_of se * ls_load_sum (en_avg ?e)) (se_weight_of se * ls_load_sum (en_avg ?e)) = ls_load_sum ?sa"
    by (rule sub_add_positive) (use sums(4,5) b(1) in simp)
  have util: "sub_positive (ls_util_sum ?sa + ls_util_sum (en_avg ?e)) (ls_util_sum (en_avg ?e)) = ls_util_sum ?sa"
    by (rule sub_add_positive) (use sums(1) d [OF b(2)] in simp)
  have run: "sub_positive (ls_runnable_sum ?sa + ls_runnable_sum (en_avg ?e)) (ls_runnable_sum (en_avg ?e)) = ls_runnable_sum ?sa"
    by (rule sub_add_positive) (use sums(2) d [OF b(3)] in simp)
  show ?thesis
    by (simp add: leave_signals_def join_signals_def floored_def Let_def avg [OF b(4)] avg [OF b(5)] avg [OF b(6)] load util run)
qed

lemma floored_sums:
  assumes "attach_fits se q"
  shows "unat (ls_load_sum (floored (q_avg q))) = max (unat (ls_load_sum (q_avg q))) (unat (ls_load_avg (q_avg q)) * 46718)"
    and "unat (ls_util_sum (floored (q_avg q))) = max (unat (ls_util_sum (q_avg q))) (unat (ls_util_avg (q_avg q)) * 46718)"
    and "unat (ls_runnable_sum (floored (q_avg q))) =
      max (unat (ls_runnable_sum (q_avg q))) (unat (ls_runnable_avg (q_avg q)) * 46718)"
proof -
  have m: "unat (max_u32 s (floor_of a)) = max (unat s) (unat a * 46718)"
    if "unat s < 2 ^ 32" "unat a * 46718 < 2 ^ 32" for s a :: u64
    using that unat_floor_of [of a] by (simp add: unat_max_u32)
  have b: "unat (ls_load_sum (q_avg q)) < 2 ^ 32" "unat (ls_util_sum (q_avg q)) < 2 ^ 32"
    "unat (ls_runnable_sum (q_avg q)) < 2 ^ 32" "unat (ls_load_avg (q_avg q)) * 46718 < 2 ^ 32"
    "unat (ls_util_avg (q_avg q)) * 46718 < 2 ^ 32" "unat (ls_runnable_avg (q_avg q)) * 46718 < 2 ^ 32"
    using assms unfolding attach_fits_def add_mult_distrib by linarith+
  show "unat (ls_load_sum (floored (q_avg q))) = max (unat (ls_load_sum (q_avg q))) (unat (ls_load_avg (q_avg q)) * 46718)"
    using m [OF b(1,4)] by (simp add: floored_def)
  show "unat (ls_util_sum (floored (q_avg q))) = max (unat (ls_util_sum (q_avg q))) (unat (ls_util_avg (q_avg q)) * 46718)"
    using m [of "ucast (ls_util_sum (q_avg q))", OF _ b(5)] b(2) by (simp add: floored_def)
  show "unat (ls_runnable_sum (floored (q_avg q))) =
      max (unat (ls_runnable_sum (q_avg q))) (unat (ls_runnable_avg (q_avg q)) * 46718)"
    using m [OF b(3,6)] by (simp add: floored_def)
qed

lemma floored_id:
  assumes "attach_fits se q" and "floors_ok (q_avg q)"
  shows "floored (q_avg q) = q_avg q"
proof -
  let ?sa = "q_avg q" and ?f = "floored (q_avg q)"
  have "ls_load_sum ?f = ls_load_sum ?sa" "ls_util_sum ?f = ls_util_sum ?sa" "ls_runnable_sum ?f = ls_runnable_sum ?sa"
    using floored_sums [OF assms(1)] assms(2) unfolding word_unat_eq_iff floors_ok_def by simp_all
  moreover have "?f = ?sa\<lparr>ls_load_sum := ls_load_sum ?f, ls_util_sum := ls_util_sum ?f, ls_runnable_sum := ls_runnable_sum ?f\<rparr>"
    by (simp add: floored_def)
  ultimately show ?thesis by simp
qed

text \<open>
  C38. Attaching an entity to a runqueue and detaching it again gives back the load, utilisation and runnable
  average of the runqueue exactly, and the load it has to propagate. Each of its sums comes back as it was, or
  raised to \<open>PELT_MIN_DIVIDER\<close> times the average if it was below that floor, which is what the clamps of a
  detachment are for; so where no sum is below its floor (\<open>floors_ok\<close>) the whole runqueue is restored. Attaching alone
  can take the load sum below its floor, as it rounds the sum of the entity down to a multiple of the weight. The entity
  has a positive weight, the period contribution is below 1024, and the sums of the runqueue with the entity and
  \<open>PELT_MIN_DIVIDER\<close> times its averages fit 32 bits (\<open>attach_fits\<close>).
\<close>

theorem attach_detach_restores:
  assumes "attach_fits se q"
  shows "\<exists>se' q'. attach_entity_load_avg se q = Some (se', q') \<and>
    (let a = q_avg q; r = detach_entity_load_avg se' q'; b = q_avg r in
      ls_load_avg b = ls_load_avg a \<and> ls_util_avg b = ls_util_avg a \<and> ls_runnable_avg b = ls_runnable_avg a \<and>
      unat (ls_load_sum b) = max (unat (ls_load_sum a)) (unat (ls_load_avg a) * 46718) \<and>
      unat (ls_util_sum b) = max (unat (ls_util_sum a)) (unat (ls_util_avg a) * 46718) \<and>
      unat (ls_runnable_sum b) = max (unat (ls_runnable_sum a)) (unat (ls_runnable_avg a) * 46718) \<and>
      prop_runnable_sum r = prop_runnable_sum q \<and>
      (floors_ok a \<longrightarrow> r = q\<lparr>propagate := True\<rparr>))"
proof -
  let ?e = "attached se q"
  let ?q = "add_tg_cfs_propagate (ls_load_sum (en_avg ?e)) (avg_update (join_signals ?e) q)"
  have r: "detach_entity_load_avg ?e ?q = q\<lparr>q_avg := floored (q_avg q), propagate := True\<rparr>"
    using leave_join [OF assms] by (simp add: detach_view add_tg_cfs_propagate_def avg_update_def)
  have "floors_ok (q_avg q) \<Longrightarrow> detach_entity_load_avg ?e ?q = q\<lparr>propagate := True\<rparr>"
    using floored_id [OF assms] r by simp
  then show ?thesis
    using attach_view [OF assms] floored_sums [OF assms]
    by (intro exI [of _ ?e] exI [of _ ?q]) (auto simp: Let_def r floored_def)
qed

section \<open>The averages of a runqueue are the sums of its entities\<close>

datatype load_event = Attach load_entity | Detach nat | Remove nat | Age nat u64 | Collect u64

definition without :: "nat \<Rightarrow> 'a list \<Rightarrow> 'a list" where
  "without i xs = take i xs @ drop (Suc i) xs"

lemma without:
  assumes "i < length xs"
  shows "sum_list (map f xs) = sum_list (map f (without i xs)) + (f (xs ! i) :: nat)" and "set (without i xs) \<subseteq> set xs"
proof -
  have "sum_list (map f (take i xs @ xs ! i # drop (Suc i) xs)) = sum_list (map f (without i xs)) + f (xs ! i)"
    by (simp add: without_def)
  then show "sum_list (map f xs) = sum_list (map f (without i xs)) + f (xs ! i)"
    using id_take_nth_drop [OF assms] by simp
  show "set (without i xs) \<subseteq> set xs" by (auto simp: without_def dest: in_set_takeD in_set_dropD)
qed

text \<open>
  The entities attached to a runqueue and the runqueue. \<open>Age\<close> is the update of an entity by the clock, \<open>Collect\<close>
  that of the runqueue, which also takes out what was removed; both have the time they happen at.
\<close>

fun load_op :: "bool \<Rightarrow> load_event \<Rightarrow> load_entity list \<times> load_rq \<Rightarrow> (load_entity list \<times> load_rq) option" where
  "load_op UTIL_EST (Attach se) (es, q) = do { (se, q) \<leftarrow> attach_entity_load_avg se q; Some (se # es, q) }"
| "load_op UTIL_EST (Detach i) (es, q) =
     (if i < length es then Some (without i es, detach_entity_load_avg (es ! i) q) else None)"
| "load_op UTIL_EST (Remove i) (es, q) =
     (if i < length es then do { (_, q) \<leftarrow> remove_entity_load_avg (es ! i) q; Some (without i es, q) } else None)"
| "load_op UTIL_EST (Age i now) (es, q) =
     (if i < length es then do { (_, se) \<leftarrow> pelt_se UTIL_EST now q (es ! i); Some (es[i := se], q) } else None)"
| "load_op UTIL_EST (Collect now) (es, q) = do { (_, q) \<leftarrow> update_cfs_rq_load_avg now q; Some (es, q) }"

text \<open>What an event needs: the updates stay in the current period of the entity or the runqueue, at whose end the
  averages are computed anew, and the sums fit their words.\<close>

fun load_enabled :: "load_event \<Rightarrow> load_entity list \<times> load_rq \<Rightarrow> bool" where
  "load_enabled (Attach se) (es, q) \<longleftrightarrow> attach_fits se q"
| "load_enabled (Detach i) (es, q) \<longleftrightarrow> i < length es"
| "load_enabled (Remove i) (es, q) \<longleftrightarrow> i < length es \<and> removed_nr q \<noteq> - 1 \<and>
     in_period (ls_last_update_time (q_avg q)) (en_avg (es ! i))"
| "load_enabled (Age i now) (es, q) \<longleftrightarrow> i < length es \<and> in_period now (en_avg (es ! i))"
| "load_enabled (Collect now) (es, q) \<longleftrightarrow> in_period now (q_avg q) \<and>
     growth_fits (Kernel_Fair.scale_load_down (q_weight q)) (ucast (q_h_nr_running q))
       (q_avg (if removed_nr q = 0 then q else take_removed q))"

definition no_ghost :: "load_signals \<Rightarrow> bool" where
  "no_ghost sa \<longleftrightarrow> (ls_load_sum sa = 0 \<longrightarrow> ls_load_avg sa = 0) \<and> (ls_util_sum sa = 0 \<longrightarrow> ls_util_avg sa = 0) \<and>
     (ls_runnable_sum sa = 0 \<longrightarrow> ls_runnable_avg sa = 0)"

lemma no_ghost_decayed: "no_ghost sa \<Longrightarrow> \<not> fst (load_avg_is_decayed sa)"
  by (simp add: no_ghost_def load_avg_is_decayed_def)

abbreviation total :: "(load_signals \<Rightarrow> u64) \<Rightarrow> load_entity list \<Rightarrow> nat" where
  "total f es \<equiv> \<Sum>e\<leftarrow>es. unat (f (en_avg e))"

definition conserved :: "load_entity list \<times> load_rq \<Rightarrow> bool" where
  "conserved s \<longleftrightarrow> (case s of (es, q) \<Rightarrow>
     unat (ls_load_avg (q_avg q)) = total ls_load_avg es + unat (removed_load q) \<and>
     unat (ls_util_avg (q_avg q)) = total ls_util_avg es + unat (removed_util q) \<and>
     unat (ls_runnable_avg (q_avg q)) = total ls_runnable_avg es + unat (removed_runnable q))"

definition load_inv :: "load_entity list \<times> load_rq \<Rightarrow> bool" where
  "load_inv s \<longleftrightarrow> conserved s \<and> (case s of (es, q) \<Rightarrow>
     unat (ls_load_avg (q_avg q)) * 46718 < 2 ^ 32 \<and> unat (ls_util_avg (q_avg q)) * 46718 < 2 ^ 32 \<and>
     unat (ls_runnable_avg (q_avg q)) * 46718 < 2 ^ 32 \<and> no_ghost (q_avg q) \<and>
     (removed_nr q = 0 \<longrightarrow> removed_load q = 0 \<and> removed_util q = 0 \<and> removed_runnable q = 0))"

lemma max_floor_ghost:
  assumes "unat a * 46718 < 2 ^ 32" and "max_u32 s (floor_of a) = 0"
  shows "a = 0"
proof -
  have "unat (floor_of a) = unat a * 46718" using assms(1) by (intro unat_floor_of) simp
  then have "unat a * 46718 \<le> unat (max_u32 s (floor_of a))" using assms(1) by (simp add: unat_max_u32)
  then show ?thesis using assms(2) by (simp add: unat_eq_0)
qed

lemma sub_scaled: "unat a * k < n \<Longrightarrow> unat (sub_positive a b :: u64) * k < (n :: nat)"
  by (rule order_le_less_trans [of _ "unat a * k"]) (simp_all add: unat_sub_positive mult_le_mono1)

lemma ucast_u32_0: "(ucast (x :: u32) :: u64) = 0 \<longleftrightarrow> x = 0"
  by (simp add: word_unat_eq_iff)

lemma attach_inv:
  assumes inv: "load_inv (es, q)" and fits: "attach_fits se q"
  shows "load_inv (attached se q # es, add_tg_cfs_propagate p (avg_update (join_signals (attached se q)) q))"
proof -
  let ?e = "attached se q" and ?sa = "q_avg q"
  note sums = attached_sums [OF fits]
  have b: "(unat (ls_load_avg ?sa) + unat (ls_load_avg (en_avg se))) * 46718 < 2 ^ 32"
    "(unat (ls_util_avg ?sa) + unat (ls_util_avg (en_avg se))) * 46718 < 2 ^ 32"
    "(unat (ls_runnable_avg ?sa) + unat (ls_runnable_avg (en_avg se))) * 46718 < 2 ^ 32"
    and w: "0 < unat (se_weight_of se)"
    and l: "unat (ls_load_sum ?sa) + unat (se_weight_of se) + unat (ls_load_avg (en_avg se)) * 47742 < 2 ^ 32"
    and us: "unat (ls_util_sum ?sa) + unat (ls_util_avg (en_avg se)) * 47742 < 2 ^ 32"
    and rs: "unat (ls_runnable_sum ?sa) + unat (ls_runnable_avg (en_avg se)) * 47742 < 2 ^ 32"
    using fits by (auto simp: attach_fits_def)
  have avg: "unat (x + y) = unat x + unat y" if "(unat x + unat y) * 46718 < 2 ^ 32" for x y :: u64
    by (rule unat_u64_add_small) (use that in simp)
  have "0 < unat (divider (q_avg q))"
    using fits by (simp add: attach_fits_def unat_divider)
  then have d: "divider (q_avg q) \<noteq> 0" by auto
  have dd: "s + unat x * unat (divider (q_avg q)) < 2 ^ 32" if "s + unat x * 47742 < 2 ^ 32" for s and x :: u64
    by (rule order_le_less_trans [OF _ that]) (use sums(6) in simp)
  have "unat (ls_load_sum ?sa + se_weight_of se * ls_load_sum (en_avg ?e)) =
      unat (ls_load_sum ?sa) + unat (se_weight_of se) * unat (ls_load_sum (en_avg ?e))"
    using unat_u64_add_small [of "ls_load_sum ?sa" "se_weight_of se * ls_load_sum (en_avg ?e)"] sums(4,5) l by simp
  moreover have "0 < unat (se_weight_of se) * unat (ls_load_sum (en_avg ?e))" using w sums(3) by simp
  ultimately have ghost_l: "ls_load_sum ?sa + se_weight_of se * ls_load_sum (en_avg ?e) \<noteq> 0"
    by (metis add_gr_0 not_gr_zero unat_0)
  have "unat (ls_util_sum ?sa + ls_util_sum (en_avg ?e)) = unat (ls_util_sum ?sa) + unat (ls_util_avg (en_avg se)) * unat (divider (q_avg q))"
    using dd [OF us] sums(1) by (simp add: unat_word_ariths(1))
  then have ghost_u: "ls_util_avg ?sa = 0 \<and> ls_util_avg (en_avg se) = 0"
    if "ls_util_sum ?sa + ls_util_sum (en_avg ?e) = 0"
    using that inv d by (simp add: load_inv_def no_ghost_def unat_eq_0)
  have "unat (ls_runnable_sum ?sa + ls_runnable_sum (en_avg ?e)) =
      unat (ls_runnable_sum ?sa) + unat (ls_runnable_avg (en_avg se)) * unat (divider (q_avg q))"
    using dd [OF rs] sums(2) by (simp add: unat_u64_add_small)
  then have ghost_r: "ls_runnable_avg ?sa = 0 \<and> ls_runnable_avg (en_avg se) = 0"
    if "ls_runnable_sum ?sa + ls_runnable_sum (en_avg ?e) = 0"
    using that inv d by (simp add: load_inv_def no_ghost_def unat_eq_0)
  show ?thesis
    using inv b ghost_l ghost_u ghost_r
    by (simp add: load_inv_def conserved_def no_ghost_def add_tg_cfs_propagate_def avg_update_def join_signals_def
        avg [OF b(1)] avg [OF b(2)] avg [OF b(3)])
qed

text \<open>\<open>r\<close> leaves each of the averages; the sums are clamped from below.\<close>

definition shrunk :: "u64 \<Rightarrow> u64 \<Rightarrow> u64 \<Rightarrow> load_signals \<Rightarrow> load_signals \<Rightarrow> bool" where
  "shrunk rl ru rr sa sa' \<longleftrightarrow> ls_load_avg sa' = sub_positive (ls_load_avg sa) rl \<and>
     ls_util_avg sa' = sub_positive (ls_util_avg sa) ru \<and> ls_runnable_avg sa' = sub_positive (ls_runnable_avg sa) rr \<and>
     ls_last_update_time sa' = ls_last_update_time sa \<and> ls_period_contrib sa' = ls_period_contrib sa \<and>
     (\<exists>s. ls_load_sum sa' = ucast (max_u32 s (floor_of (ls_load_avg sa')))) \<and>
     (\<exists>s. ls_util_sum sa' = max_u32 s (floor_of (ls_util_avg sa'))) \<and>
     (\<exists>s. ls_runnable_sum sa' = ucast (max_u32 s (floor_of (ls_runnable_avg sa'))))"

lemma shrunk_ghost:
  assumes "shrunk rl ru rr sa sa'" and "unat (ls_load_avg sa) * 46718 < 2 ^ 32"
    and "unat (ls_util_avg sa) * 46718 < 2 ^ 32" and "unat (ls_runnable_avg sa) * 46718 < 2 ^ 32"
  shows "no_ghost sa'" and "unat (ls_load_avg sa') * 46718 < 2 ^ 32" and "unat (ls_util_avg sa') * 46718 < 2 ^ 32"
    and "unat (ls_runnable_avg sa') * 46718 < 2 ^ 32"
proof -
  show b: "unat (ls_load_avg sa') * 46718 < 2 ^ 32" "unat (ls_util_avg sa') * 46718 < 2 ^ 32"
    "unat (ls_runnable_avg sa') * 46718 < 2 ^ 32"
    using assms sub_scaled by (simp_all only: shrunk_def)
  obtain s1 s2 s3 where "ls_load_sum sa' = ucast (max_u32 s1 (floor_of (ls_load_avg sa')))"
    "ls_util_sum sa' = max_u32 s2 (floor_of (ls_util_avg sa'))"
    "ls_runnable_sum sa' = ucast (max_u32 s3 (floor_of (ls_runnable_avg sa')))"
    using assms(1) by (auto simp: shrunk_def)
  then show "no_ghost sa'"
    unfolding no_ghost_def using max_floor_ghost [OF b(1)] max_floor_ghost [OF b(2)] max_floor_ghost [OF b(3)]
    by (simp only: ucast_u32_0) blast
qed

lemma shrunk_leave: "shrunk (ls_load_avg (en_avg se)) (ls_util_avg (en_avg se)) (ls_runnable_avg (en_avg se)) sa (leave_signals se sa)"
  unfolding shrunk_def by (intro conjI exI; (simp only: leave_signals_def Let_def load_signals.simps; fail | rule refl)?) (simp_all add: leave_signals_def Let_def)

lemma detach_inv:
  assumes inv: "load_inv (es, q)" and i: "i < length es"
  shows "load_inv (without i es, detach_entity_load_avg (es ! i) q)"
proof -
  let ?q = "detach_entity_load_avg (es ! i) q" and ?e = "en_avg (es ! i)"
  have sh: "shrunk (ls_load_avg ?e) (ls_util_avg ?e) (ls_runnable_avg ?e) (q_avg q) (q_avg ?q)"
    using shrunk_leave by (simp add: detach_view add_tg_cfs_propagate_def avg_update_def)
  have b: "unat (ls_load_avg (q_avg q)) * 46718 < 2 ^ 32" "unat (ls_util_avg (q_avg q)) * 46718 < 2 ^ 32"
    "unat (ls_runnable_avg (q_avg q)) * 46718 < 2 ^ 32"
    using inv by (auto simp: load_inv_def)
  have rest: "removed_load ?q = removed_load q" "removed_util ?q = removed_util q" "removed_runnable ?q = removed_runnable q"
    "removed_nr ?q = removed_nr q"
    by (simp_all add: detach_view add_tg_cfs_propagate_def avg_update_def)
  have "conserved (without i es, ?q)"
    using inv sh without(1) [OF i, of "\<lambda>e. unat (ls_load_avg (en_avg e))"]
      without(1) [OF i, of "\<lambda>e. unat (ls_util_avg (en_avg e))"] without(1) [OF i, of "\<lambda>e. unat (ls_runnable_avg (en_avg e))"]
    by (simp add: load_inv_def conserved_def shrunk_def unat_sub_positive rest)
  then show ?thesis
    using inv shrunk_ghost [OF sh b] without(2) [OF i] sh
    by (auto simp: load_inv_def rest shrunk_def)
qed

lemma remove_inv:
  assumes inv: "load_inv (es, q)" and i: "i < length es" and nr: "removed_nr q \<noteq> - 1"
    and now: "in_period (ls_last_update_time (q_avg q)) (en_avg (es ! i))"
  obtains se q' where "remove_entity_load_avg (es ! i) q = Some (se, q')" and "load_inv (without i es, q')"
proof -
  let ?e = "en_avg (es ! i)"
  let ?q = "q\<lparr>removed_nr := removed_nr q + 1, removed_util := removed_util q + ls_util_avg ?e,
    removed_load := removed_load q + ls_load_avg ?e, removed_runnable := removed_runnable q + ls_runnable_avg ?e\<rparr>"
  obtain sa where sa: "update_signals (ls_last_update_time (q_avg q)) ?e 0 0 False (se_weight_of (es ! i)) = Some (False, sa)"
      and avgs: "same_avgs sa ?e"
    using update_within [OF now] by metis
  have eq: "remove_entity_load_avg (es ! i) q = Some ((es ! i)\<lparr>en_avg := sa\<rparr>, ?q)"
    using sa avgs by (simp add: remove_entity_load_avg_def sync_entity_load_avg_def pelt_blocked_se_def same_avgs_def)
  have "removed_nr q + 1 \<noteq> 0" using nr by (metis add_eq_0_iff2)
  moreover have "conserved (without i es, ?q)"
  proof -
    have add: "unat (r + x) = unat r + unat x" if "unat a = t + unat x + unat r" for a r x :: u64 and t
    proof (rule unat_u64_add_small)
      have "unat r + unat x \<le> unat a" using that by linarith
      then show "unat r + unat x < 2 ^ 64" by (rule order_le_less_trans) simp
    qed
    have h: "unat (ls_load_avg (q_avg q)) = total ls_load_avg (without i es) + unat (ls_load_avg ?e) + unat (removed_load q)"
      "unat (ls_util_avg (q_avg q)) = total ls_util_avg (without i es) + unat (ls_util_avg ?e) + unat (removed_util q)"
      "unat (ls_runnable_avg (q_avg q)) = total ls_runnable_avg (without i es) + unat (ls_runnable_avg ?e) + unat (removed_runnable q)"
      using inv without(1) [OF i, of "\<lambda>e. unat (ls_load_avg (en_avg e))"]
        without(1) [OF i, of "\<lambda>e. unat (ls_util_avg (en_avg e))"] without(1) [OF i, of "\<lambda>e. unat (ls_runnable_avg (en_avg e))"]
      by (simp_all add: load_inv_def conserved_def)
    show ?thesis by (simp add: conserved_def h add [OF h(1)] add [OF h(2)] add [OF h(3)])
  qed
  ultimately have "load_inv (without i es, ?q)"
    using inv without(2) [OF i] by (auto simp: load_inv_def)
  then show ?thesis using that eq by blast
qed

lemma take_removed_shrunk:
  "shrunk (removed_load q) (removed_util q) (removed_runnable q) (q_avg q) (q_avg (take_removed q))"
  unfolding shrunk_def
  by (intro conjI exI; (simp only: take_removed_def Let_def avg_update_def add_tg_cfs_propagate_def load_rq.simps load_signals.simps; fail | rule refl)?)
    (simp_all add: take_removed_def avg_update_def add_tg_cfs_propagate_def Let_def)

lemma take_removed_fields [simp]:
  "removed_load (take_removed q) = 0" "removed_util (take_removed q) = 0" "removed_runnable (take_removed q) = 0"
  by (simp_all add: take_removed_def avg_update_def add_tg_cfs_propagate_def Let_def)

lemma age_inv:
  assumes inv: "load_inv (es, q)" and i: "i < length es" and now: "in_period now (en_avg (es ! i))"
  obtains r se where "pelt_se UTIL_EST now q (es ! i) = Some (r, se)" and "load_inv (es[i := se], q)"
proof -
  let ?e = "es ! i"
  obtain sa where sa: "update_signals now (en_avg ?e) (if en_on_rq ?e \<noteq> 0 then 1 else 0) (se_runnable_of ?e)
      (q_curr q = Ref (en_addr ?e)) (se_weight_of ?e) = Some (False, sa)" and avgs: "same_avgs sa (en_avg ?e)"
    using update_within [OF now] by metis
  let ?se = "?e\<lparr>en_avg := sa\<rparr>"
  have eq: "pelt_se UTIL_EST now q ?e = Some (False, ?se)" using sa by (simp add: pelt_se_def)
  have "map (\<lambda>e. unat (f (en_avg e))) (es[i := ?se]) = map (\<lambda>e. unat (f (en_avg e))) es"
    if "f sa = f (en_avg ?e)" for f :: "load_signals \<Rightarrow> u64"
    using that by (simp add: map_update list_update_same_conv i)
  then have "total ls_load_avg (es[i := ?se]) = total ls_load_avg es \<and> total ls_util_avg (es[i := ?se]) = total ls_util_avg es \<and>
      total ls_runnable_avg (es[i := ?se]) = total ls_runnable_avg es"
    using avgs by (simp only: same_avgs_def)
  then have "load_inv (es[i := ?se], q)" using inv by (simp add: load_inv_def conserved_def)
  then show ?thesis using that eq by blast
qed

lemma grown_ghost:
  assumes "grown l r u sa sa'" and "same_avgs sa' sa" and "no_ghost sa"
  shows "no_ghost sa'"
proof -
  have "unat (ls_load_sum sa) \<le> unat (ls_load_sum sa')" "unat (ls_util_sum sa) \<le> unat (ls_util_sum sa')"
    "unat (ls_runnable_sum sa) \<le> unat (ls_runnable_sum sa')"
    using assms(1) by (auto simp: grown_def)
  then have "ls_load_sum sa' = 0 \<Longrightarrow> ls_load_sum sa = 0" "ls_util_sum sa' = 0 \<Longrightarrow> ls_util_sum sa = 0"
    "ls_runnable_sum sa' = 0 \<Longrightarrow> ls_runnable_sum sa = 0"
    by (simp_all add: unat_eq_0)
  then show ?thesis using assms(2,3) by (auto simp: no_ghost_def same_avgs_def)
qed

lemma collect_inv:
  assumes inv: "load_inv (es, q)" and now: "in_period now (q_avg q)"
    and fits: "growth_fits (Kernel_Fair.scale_load_down (q_weight q)) (ucast (q_h_nr_running q))
       (q_avg (if removed_nr q = 0 then q else take_removed q))"
  obtains d q' where "update_cfs_rq_load_avg now q = Some (d, q')" and "load_inv (es, q')"
    and "removed_load q' = 0" and "removed_util q' = 0" and "removed_runnable q' = 0"
proof -
  define q1 where "q1 = (if removed_nr q = 0 then q else take_removed q)"
  note sh = take_removed_shrunk [of q]
  have b: "unat (ls_load_avg (q_avg q)) * 46718 < 2 ^ 32" "unat (ls_util_avg (q_avg q)) * 46718 < 2 ^ 32"
    "unat (ls_runnable_avg (q_avg q)) * 46718 < 2 ^ 32"
    using inv by (auto simp: load_inv_def)
  have "load_inv (es, take_removed q)"
    using inv shrunk_ghost [OF sh b] sh by (simp add: load_inv_def conserved_def shrunk_def unat_sub_positive)
  then have inv1: "load_inv (es, q1)" using inv by (simp add: q1_def)
  have same: "q_weight q1 = q_weight q" "q_h_nr_running q1 = q_h_nr_running q"
    by (simp_all add: q1_def take_removed_def avg_update_def add_tg_cfs_propagate_def Let_def)
  have "in_period now (q_avg q1)" using now sh by (simp add: q1_def in_period_def shrunk_def)
  then obtain sa where sa: "update_signals now (q_avg q1) (Kernel_Fair.scale_load_down (q_weight q1)) (ucast (q_h_nr_running q1))
      (q_curr q1 \<noteq> NULL) 1 = Some (False, sa)" and avgs: "same_avgs sa (q_avg q1)"
      and g: "growth_fits (Kernel_Fair.scale_load_down (q_weight q1)) (ucast (q_h_nr_running q1)) (q_avg q1) \<Longrightarrow>
        \<exists>l r u. grown l r u (q_avg q1) sa"
    by (rule update_within [where load = "Kernel_Fair.scale_load_down (q_weight q1)"
      and rnbl = "ucast (q_h_nr_running q1)" and running = "q_curr q1 \<noteq> NULL" and w = 1]) blast
  have g: "\<exists>l r u. grown l r u (q_avg q1) sa"
    by (rule g) (use fits in \<open>simp add: same q1_def [symmetric]\<close>)
  let ?q = "q1\<lparr>q_avg := sa\<rparr>"
  have p: "pelt_cfs_rq now q1 = Some (False, ?q)" by (simp add: pelt_cfs_rq_def sa)
  have "(if removed_nr q \<noteq> 0 then take_removed q else q) = q1" by (simp add: q1_def)
  then have eq: "update_cfs_rq_load_avg now q = Some (removed_nr q \<noteq> 0, ?q)"
    by (simp only: update_cfs_rq_load_avg_def Let_def p Option.bind.simps prod.case simp_thms)
  have "no_ghost sa" using g grown_ghost avgs inv1 by (auto simp: load_inv_def)
  then have "load_inv (es, ?q)" using inv1 avgs by (simp add: load_inv_def conserved_def same_avgs_def)
  moreover have "removed_load ?q = 0 \<and> removed_util ?q = 0 \<and> removed_runnable ?q = 0"
    using inv by (simp add: load_inv_def q1_def)
  ultimately show ?thesis using that eq by blast
qed

lemma load_op_inv:
  assumes inv: "load_inv s" and en: "load_enabled ev s"
  shows "\<exists>s'. load_op UTIL_EST ev s = Some s' \<and> load_inv s'"
proof -
  obtain es q where s: "s = (es, q)" by (cases s)
  show ?thesis
  proof (cases ev)
    case (Attach se)
    then have "attach_fits se q" using en s by simp
    then show ?thesis using attach_inv [of es q se] inv s Attach by (simp add: attach_view)
  next
    case (Detach i)
    then show ?thesis using detach_inv [of es q i] inv en s by simp
  next
    case (Remove i)
    then have h: "i < length es" "removed_nr q \<noteq> - 1" "in_period (ls_last_update_time (q_avg q)) (en_avg (es ! i))"
      using en s by simp_all
    obtain se q' where "remove_entity_load_avg (es ! i) q = Some (se, q')" "load_inv (without i es, q')"
      by (rule remove_inv [OF inv [unfolded s] h])
    then show ?thesis using Remove s h(1) by simp
  next
    case (Age i now)
    then have h: "i < length es" "in_period now (en_avg (es ! i))" using en s by simp_all
    obtain r se where "pelt_se UTIL_EST now q (es ! i) = Some (r, se)" "load_inv (es[i := se], q)"
      by (rule age_inv [OF inv [unfolded s] h])
    then show ?thesis using Age s h(1) by simp
  next
    case (Collect now)
    obtain d q' where "update_cfs_rq_load_avg now q = Some (d, q')" "load_inv (es, q')"
      by (rule collect_inv [of es q now]) (use inv en s Collect in simp_all)
    then show ?thesis using Collect s by simp
  qed
qed

text \<open>A sequence of events, each of which is enabled when its turn comes.\<close>

fun load_run :: "bool \<Rightarrow> load_event list \<Rightarrow> load_entity list \<times> load_rq \<Rightarrow> (load_entity list \<times> load_rq) option" where
  "load_run UTIL_EST [] s = Some s"
| "load_run UTIL_EST (ev # evs) s = do { s \<leftarrow> load_op UTIL_EST ev s; load_run UTIL_EST evs s }"

fun run_enabled :: "bool \<Rightarrow> load_event list \<Rightarrow> load_entity list \<times> load_rq \<Rightarrow> bool" where
  "run_enabled UTIL_EST [] s \<longleftrightarrow> True"
| "run_enabled UTIL_EST (ev # evs) s \<longleftrightarrow> load_enabled ev s \<and>
     (case load_op UTIL_EST ev s of None \<Rightarrow> True | Some s' \<Rightarrow> run_enabled UTIL_EST evs s')"

lemma load_run_inv:
  shows "load_inv s \<Longrightarrow> run_enabled UTIL_EST evs s \<Longrightarrow> \<exists>s'. load_run UTIL_EST evs s = Some s' \<and> load_inv s'"
proof (induction evs arbitrary: s)
  case (Cons ev evs)
  then obtain s' where "load_op UTIL_EST ev s = Some s'" "load_inv s'" using load_op_inv [of s ev UTIL_EST] by auto
  then show ?case using Cons by simp
qed simp

definition empty_rq :: "load_rq \<Rightarrow> bool" where
  "empty_rq q \<longleftrightarrow> ls_load_avg (q_avg q) = 0 \<and> ls_util_avg (q_avg q) = 0 \<and> ls_runnable_avg (q_avg q) = 0 \<and>
     removed_load q = 0 \<and> removed_util q = 0 \<and> removed_runnable q = 0"

text \<open>
  C37. Between two period boundaries the averages of a runqueue are the sums of the averages of its entities: after
  any sequence of attaching, detaching, removing without the lock, updating entities and updating the runqueue at
  any times that stay in the current period (\<open>in_period\<close>, 1024 units of 1024 ns), load, utilisation and runnable
  average are exactly those of the attached entities plus those of the removed ones not yet collected, although
  the sums keep growing. Nothing is undefined, and whenever the sums are zero the averages are, so the
  warning of \<open>load_avg_is_decayed\<close> never fires. The sums must fit their words (\<open>attach_fits\<close>, \<open>growth_fits\<close>). At a
  period boundary each average is computed anew from its own sum, and they agree up to rounding only.
\<close>

theorem load_conserved:
  assumes "empty_rq q" and "run_enabled UTIL_EST evs ([], q)"
  shows "\<exists>es q'. load_run UTIL_EST evs ([], q) = Some (es, q') \<and> conserved (es, q') \<and> \<not> fst (load_avg_is_decayed (q_avg q'))"
proof -
  have "load_inv ([], q)" using assms(1) by (simp add: empty_rq_def load_inv_def conserved_def no_ghost_def)
  then obtain es q' where "load_run UTIL_EST evs ([], q) = Some (es, q')" "load_inv (es, q')"
    using load_run_inv [OF _ assms(2)] by force
  then show ?thesis using no_ghost_decayed by (auto simp: load_inv_def)
qed

section \<open>A concrete runqueue\<close>

definition demo_signals :: "u64 \<Rightarrow> u64 \<Rightarrow> load_signals" where
  "demo_signals a s = \<lparr>ls_last_update_time = 1024, ls_load_sum = s, ls_runnable_sum = 0, ls_util_sum = 0,
     ls_period_contrib = 100, ls_load_avg = a, ls_runnable_avg = 0, ls_util_avg = 0,
     ls_util_est = \<lparr>ue_enqueued = 0, ue_ewma = 0\<rparr>\<rparr>"

definition demo_load_rq :: "u64 \<Rightarrow> u64 \<Rightarrow> load_rq" where
  "demo_load_rq a s = \<lparr>q_avg = demo_signals a s, q_weight = 1048576, removed_nr = 0, removed_load = 0, removed_util = 0,
     removed_runnable = 0, tg_load_avg_contrib = 0, propagate = False, prop_runnable_sum = 0, q_root = False,
     q_h_nr_running = 1, q_curr = Ref 7\<rparr>"

text \<open>An entity of weight \<open>w\<close> that was always runnable, and one that ran half of the time.\<close>

definition demo_heavy :: "u64 \<Rightarrow> load_entity" where
  "demo_heavy w = \<lparr>en_avg = demo_signals w 47742, en_weight = w * 1024, en_on_rq = 1,
     en_addr = 8, en_task = True, en_runnable_weight = 0\<rparr>"

definition demo_half :: load_entity where
  "demo_half = \<lparr>en_avg = (demo_signals 512 23359)\<lparr>ls_util_avg := 512, ls_runnable_avg := 512\<rparr>, en_weight = 1048576,
     en_on_rq = 1, en_addr = 7, en_task = True, en_runnable_weight = 0\<rparr>"

lemmas demo_load_defs = demo_load_rq_def demo_signals_def demo_half_def demo_heavy_def

lemma demo_half_fits: "attach_fits demo_half (demo_load_rq 0 0)"
  by (simp add: attach_fits_def demo_load_defs se_weight_of_def Kernel_Fair.scale_load_down_def)

theorem attach_detach_restores_witness:
  "\<exists>se' q'. attach_entity_load_avg demo_half (demo_load_rq 0 0) = Some (se', q') \<and>
     detach_entity_load_avg se' q' = (demo_load_rq 0 0)\<lparr>propagate := True\<rparr>"
proof -
  have "floors_ok (q_avg (demo_load_rq 0 0))" by (simp add: floors_ok_def demo_load_defs)
  then show ?thesis using attach_detach_restores [OF demo_half_fits] by (auto simp: Let_def)
qed

text \<open>An attachment that takes the load sum below its floor: 820 times 5697 is less than 100 times 46718.\<close>

lemma attach_below_floor:
  "\<exists>se' q'. attach_entity_load_avg ((demo_heavy 820)\<lparr>en_avg := demo_signals 100 0\<rparr>)
      (avg_update (\<lambda>sa. sa\<lparr>ls_period_contrib := 0\<rparr>) (demo_load_rq 0 0)) = Some (se', q') \<and>
     ls_load_avg (q_avg q') = 100 \<and> unat (ls_load_sum (q_avg q')) = 4671540 \<and> \<not> floors_ok (q_avg q')"
  by (simp add: attach_entity_load_avg_def demo_load_defs avg_update_def en_update_def enqueue_load_avg_def
      add_tg_cfs_propagate_def divider_def pelt_divider_def PELT_MIN_DIVIDER_def se_weight_of_def
      Kernel_Fair.scale_load_down_def div_u64_u32_def floors_ok_def Let_def)

text \<open>The entity is attached, both it and the runqueue are updated 400 us later, and it is removed.\<close>

abbreviation (input) demo_events :: "load_event list" where
  "demo_events \<equiv> [Attach demo_half, Age 0 410624, Collect 410624, Remove 0, Collect 512000]"

definition demo_grown :: "u64 \<Rightarrow> u32 \<Rightarrow> u64 \<Rightarrow> u64 \<Rightarrow> load_signals" where
  "demo_grown t c l s = \<lparr>ls_last_update_time = t, ls_load_sum = l, ls_runnable_sum = s, ls_util_sum = ucast s,
     ls_period_contrib = c, ls_load_avg = 512, ls_runnable_avg = 512, ls_util_avg = 512,
     ls_util_est = \<lparr>ue_enqueued = 0, ue_ewma = 0\<rparr>\<rparr>"

definition demo_member :: "load_signals \<Rightarrow> load_entity" where
  "demo_member sa = \<lparr>en_avg = sa, en_weight = 1048576, en_on_rq = 1, en_addr = 7, en_task = True, en_runnable_weight = 0\<rparr>"

definition demo_joined :: "load_signals \<Rightarrow> u64 \<Rightarrow> load_rq" where
  "demo_joined sa r = \<lparr>q_avg = sa, q_weight = 1048576, removed_nr = if r = 0 then 0 else 1, removed_load = r,
     removed_util = r, removed_runnable = r, tg_load_avg_contrib = 0, propagate = True, prop_runnable_sum = 23409,
     q_root = False, q_h_nr_running = 1, q_curr = Ref 7\<rparr>"

lemmas demo_state_defs = demo_grown_def demo_member_def demo_joined_def
lemmas demo_update_defs = update_signals_def update_signals_sum_def accumulate_signals_def se_runnable_of_def
  se_weight_of_def Kernel_Fair.scale_load_down_def in_period_def growth_fits_def Let_def

lemma demo_attach:
  "load_op True (Attach demo_half) ([], demo_load_rq 0 0) = Some ([demo_member (demo_grown 1024 100 23409 23970816)],
     demo_joined (demo_grown 1024 100 23970816 23970816) 0)"
  by (simp add: attach_view [OF demo_half_fits])
    (simp add: attached_def join_signals_def en_update_def avg_update_def add_tg_cfs_propagate_def demo_load_defs
      demo_state_defs divider_def pelt_divider_def PELT_MIN_DIVIDER_def se_weight_of_def Kernel_Fair.scale_load_down_def Let_def)

lemma demo_age:
  "load_op True (Age 0 410624) ([demo_member (demo_grown 1024 100 23409 23970816)], demo_joined sa r) =
     Some ([demo_member (demo_grown 410624 500 23809 24380416)], demo_joined sa r)"
  by (simp add: pelt_se_def demo_update_defs demo_state_defs)

lemma demo_collect:
  "load_op True (Collect 410624) (es, demo_joined (demo_grown 1024 100 23970816 23970816) 0) =
     Some (es, demo_joined (demo_grown 410624 500 24380416 24380416) 0)"
  by (simp add: update_cfs_rq_load_avg_def pelt_cfs_rq_def demo_update_defs demo_state_defs)

lemma demo_remove:
  "load_op True (Remove 0) ([demo_member (demo_grown 410624 500 23809 24380416)], 
      demo_joined (demo_grown 410624 500 24380416 24380416) 0) =
     Some ([], demo_joined (demo_grown 410624 500 24380416 24380416) 512)"
  by (simp add: remove_entity_load_avg_def sync_entity_load_avg_def pelt_blocked_se_def without_def demo_update_defs
      demo_state_defs)

lemma demo_enabled:
  "load_enabled (Age 0 410624) ([demo_member (demo_grown 1024 100 23409 23970816)], q)"
  "load_enabled (Collect 410624) (es, demo_joined (demo_grown 1024 100 23970816 23970816) 0)"
  "load_enabled (Remove 0) ([demo_member (demo_grown 410624 500 23809 24380416)],
     demo_joined (demo_grown 410624 500 24380416 24380416) 0)"
  by (simp_all add: demo_update_defs demo_state_defs)

lemma demo_taken:
  "q_avg (take_removed (demo_joined (demo_grown 410624 500 24380416 24380416) 512)) =
     (demo_grown 410624 500 204800 204800)\<lparr>ls_load_avg := 0, ls_runnable_avg := 0, ls_util_avg := 0\<rparr>"
  unfolding take_removed_def avg_update_def demo_joined_def demo_grown_def
  by (simp add: Let_def divider_def pelt_divider_def PELT_MIN_DIVIDER_def sub_positive_def max_u32_def floor_of_def
      add_tg_cfs_propagate_def cong: let_weak_cong)

lemma demo_enabled_last:
  "load_enabled (Collect 512000) (es, demo_joined (demo_grown 410624 500 24380416 24380416) 512)"
proof -
  have "removed_nr (demo_joined (demo_grown 410624 500 24380416 24380416) 512) \<noteq> 0"
    "q_weight (demo_joined (demo_grown 410624 500 24380416 24380416) 512) = 1048576"
    "q_h_nr_running (demo_joined (demo_grown 410624 500 24380416 24380416) 512) = 1"
    "q_avg (demo_joined (demo_grown 410624 500 24380416 24380416) 512) = demo_grown 410624 500 24380416 24380416"
    by (simp_all add: demo_joined_def)
  then show ?thesis
    by (simp add: demo_taken) (simp add: demo_update_defs demo_grown_def)
qed

theorem load_conserved_witness:
  "\<exists>es q'. load_run True demo_events ([], demo_load_rq 0 0) = Some (es, q') \<and>
     conserved (es, q') \<and> \<not> fst (load_avg_is_decayed (q_avg q'))"
proof (rule load_conserved)
  show "empty_rq (demo_load_rq 0 0)" by (simp add: empty_rq_def demo_load_defs)
  show "run_enabled True demo_events ([], demo_load_rq 0 0)"
    by (simp add: demo_half_fits demo_attach demo_age demo_collect demo_remove demo_enabled demo_enabled_last
        del: load_op.simps load_enabled.simps(2-5) split: option.split)
qed

section \<open>Sums above 32 bits\<close>

text \<open>
  \<open>load_sum\<close> has 64 bits, but each detachment clamps it with \<open>max_t (u32, ...)\<close>: when the average that
  remains is 91935 or more, as with two always runnable tasks of nice -20, the sum falls below
  \<open>load_avg * PELT_MIN_DIVIDER\<close>, the bound the clamp is there to keep.
\<close>

theorem load_sum_truncated:
  assumes "91935 \<le> unat (ls_load_avg (q_avg q)) - unat (ls_load_avg (en_avg se))"
  shows "unat (ls_load_sum (q_avg (detach_entity_load_avg se q)))
    < unat (ls_load_avg (q_avg (detach_entity_load_avg se q))) * 46718"
proof -
  have "unat (ls_load_sum (q_avg (detach_entity_load_avg se q))) < 2 ^ 32"
    by (simp add: detach_view add_tg_cfs_propagate_def avg_update_def leave_signals_def Let_def)
  moreover have "91935 \<le> unat (ls_load_avg (q_avg (detach_entity_load_avg se q)))"
    using assms by (simp add: detach_view add_tg_cfs_propagate_def avg_update_def leave_signals_def Let_def unat_sub_positive)
  ultimately show ?thesis by simp
qed

theorem load_sum_truncated_witness:
  "ls_load_avg (q_avg (detach_entity_load_avg (demo_heavy 88761) (demo_load_rq 266283 12712882986))) = 177522 \<and>
   unat (ls_load_sum (q_avg (detach_entity_load_avg (demo_heavy 88761) (demo_load_rq 266283 12712882986)))) < 177522 * 46718"
proof -
  have "ls_load_avg (q_avg (detach_entity_load_avg (demo_heavy 88761) (demo_load_rq 266283 12712882986))) = 177522"
    by (simp add: detach_view add_tg_cfs_propagate_def avg_update_def leave_signals_def Let_def demo_load_defs sub_positive_def)
  then show ?thesis
    using load_sum_truncated [of "demo_load_rq 266283 12712882986" "demo_heavy 88761"] by (simp add: demo_load_defs)
qed

section \<open>Estimated utilisation\<close>

lemma ucast_there_and_back: "ucast (ucast (x :: u32) :: u64) = x"
  by (simp add: word_unat_eq_iff unat_ucast_u64_u32)

lemma ewma_step:
  fixes w u :: u32
  assumes "unat w < 2 ^ 29" and "unat u < 2 ^ 29"
  shows "unat (drop_bit 2 (push_bit 2 w + (u - w))) = (3 * unat w + unat u) div 4"
proof -
  have "push_bit 2 w + (u - w) = 3 * w + u" by (simp add: push_bit_eq_mult)
  moreover have "unat (3 * w) = 3 * unat w" using assms(1) by (simp add: unat_word_ariths)
  then have "unat (3 * w + u) = 3 * unat w + unat u" using assms by (simp add: unat_word_ariths(1))
  ultimately show ?thesis by (simp add: unat_shr)
qed

lemma quarter:
  fixes a b :: nat
  assumes "b \<le> a"
  shows "b \<le> (3 * a + b) div 4" and "(3 * a + b) div 4 \<le> a" and "a - (3 * a + b) div 4 \<le> (a - b + 3) div 4"
  using assms by linarith+

text \<open>
  When a task goes to sleep with a new utilisation, its moving average jumps up to it at once or
  comes down by at most a quarter of the distance (rounded up), so with \<open>UTIL_EST_FASTUP\<close> it never is below the
  current utilisation and never above the larger of the two; no 32-bit step wraps.
\<close>

theorem util_est_bounded:
  assumes "ue_enqueued (ls_util_est (en_avg p)) AND UTIL_AVG_UNCHANGED = 0"
    and "unat (ue_ewma (ls_util_est (en_avg p))) < 2 ^ 29" and "unat (task_util p) < 2 ^ 29"
  shows "(let old = unat (ue_ewma (ls_util_est (en_avg p)));
              new = unat (ue_ewma (ls_util_est (en_avg (util_est_update True True cap True p)))) in
     unat (task_util p) \<le> new \<and> new \<le> max old (unat (task_util p)) \<and> old - new \<le> (old - unat (task_util p) + 3) div 4)"
proof -
  let ?ue = "ls_util_est (en_avg p)" and ?u = "ucast (task_util p) :: u32"
  let ?w = "ue_ewma ?ue"
  have u: "unat ?u = unat (task_util p)" using assms(3) by (simp add: unat_ucast_u64_u32)
  define e where "e = drop_bit 2 (push_bit 2 ?w + (?u - ?w))"
  have cases: "ue_ewma (ls_util_est (en_avg (util_est_update True True cap True p))) \<in> (if ?w < ?u then {?u} else {?w, e})"
    unfolding util_est_update_def Let_def en_update_def e_def using assms(1) by (simp add: ucast_there_and_back split: if_split)
  show ?thesis
  proof (cases "?w < ?u")
    case True
    then have "unat ?w < unat ?u" by (simp only: word_less_nat_alt)
    then show ?thesis using cases True u by (simp add: Let_def)
  next
    case False
    then have le: "unat ?u \<le> unat ?w" by (simp only: word_less_nat_alt not_less)
    have "unat ?u < 2 ^ 29" using assms(3) u by simp
    then have "unat e = (3 * unat ?w + unat ?u) div 4" unfolding e_def by (rule ewma_step [OF assms(2)])
    then show ?thesis using cases False quarter [OF le] le u by (auto simp: Let_def)
  qed
qed

theorem util_est_bounded_witness:
  "unat (ue_ewma (ls_util_est (en_avg (util_est_update True True 1024 True demo_half)))) = 512"
  using util_est_bounded [of demo_half 1024] by (simp add: demo_load_defs task_util_def Let_def)

section \<open>Shares\<close>

lemma sint_nat: "unat (x :: u64) < 2 ^ 63 \<Longrightarrow> sint x = int (unat x)"
proof -
  assume "unat x < 2 ^ 63"
  then have "int (unat x) < int (2 ^ 63)" by (simp only: of_nat_less_iff)
  then have "uint x < 2 ^ 63" by simp
  then have "sint x = uint x"
    unfolding sint_uint by (intro signed_take_bit_int_eq_self) (simp_all add: order_trans [of _ 0])
  then show ?thesis by simp
qed

text \<open>
  C39. The shares of a group on a CPU lie between 2 and the shares of the group, are at least its
  proportion of the load of the group, and are all of them when no other CPU carries load of
  the group; the division is defined and no product wraps.
\<close>

theorem group_shares_bounded:
  assumes "2 \<le> unat (tg_shares tg)" and "unat (tg_shares tg) \<le> 2 ^ 28"
    and "unat (Kernel_Fair.scale_load_down (q_weight q)) < 2 ^ 34" and "unat (ls_load_avg (q_avg q)) < 2 ^ 34"
    and "unat (tg_load_avg_contrib q) \<le> unat (tg_load_avg tg)" and "unat (tg_load_avg tg) < 2 ^ 62"
  shows "(let load = max (unat (Kernel_Fair.scale_load_down (q_weight q))) (unat (ls_load_avg (q_avg q)));
              others = unat (tg_load_avg tg) - unat (tg_load_avg_contrib q) in
    2 \<le> calc_group_shares tg q \<and> calc_group_shares tg q \<le> int (unat (tg_shares tg)) \<and>
    int (unat (tg_shares tg) * load div (others + load)) \<le> calc_group_shares tg q \<and>
    (others = 0 \<and> 0 < load \<longrightarrow> calc_group_shares tg q = int (unat (tg_shares tg))))"
proof -
  let ?l = "max (Kernel_Fair.scale_load_down (q_weight q)) (ls_load_avg (q_avg q))"
  define s where "s = unat (tg_shares tg)"
  define load where "load = max (unat (Kernel_Fair.scale_load_down (q_weight q))) (unat (ls_load_avg (q_avg q)))"
  define others where "others = unat (tg_load_avg tg) - unat (tg_load_avg_contrib q)"
  have l: "unat ?l = load" by (simp add: load_def max_def word_le_nat_alt)
  have load: "load < 2 ^ 34" using assms(3,4) by (simp add: load_def)
  have prod: "s * load \<le> 2 ^ 28 * 2 ^ 34" using assms(2) load by (intro mult_le_mono) (simp_all add: s_def)
  have "unat (tg_shares tg * ?l) = s * load"
    using prod l by (simp add: s_def unat_u64_mult_small)
  then have p: "sint (tg_shares tg * ?l) = int (s * load)" using prod by (simp add: sint_nat)
  have o: "unat (tg_load_avg tg - tg_load_avg_contrib q) = others"
    using assms(5) by (simp add: others_def unat_sub word_le_nat_alt)
  have ob: "others < 2 ^ 62" using assms(6) by (simp add: others_def)
  let ?t = "tg_load_avg tg - tg_load_avg_contrib q + ?l"
  have t: "unat ?t = others + load" using o l ob load by (simp add: unat_u64_add_small)
  then have ts: "sint ?t = int (others + load)" using ob load by (subst sint_nat) simp_all
  have sh: "sint (tg_shares tg) = int s" using assms(2) by (simp add: s_def sint_nat)
  let ?q = "s * load div (others + load)"
  have v: "calc_group_shares tg q = min (max (int ?q) 2) (int s)"
  proof (cases "?t = 0")
    case True
    then have "load = 0" using t by simp
    then show ?thesis using True p sh by (simp add: calc_group_shares_def Let_def)
  next
    case False
    then have "0 < others + load" using t by (metis neq0_conv unat_eq_0)
    then have "c_div (int (s * load)) (int (others + load)) = int (s * load) div int (others + load)"
      by (intro c_div_nonneg) linarith+
    then have "c_div (int (s * load)) (int (others + load)) = int ?q" by (simp only: zdiv_int)
    then show ?thesis unfolding calc_group_shares_def Let_def p ts sh using False by simp
  qed
  have le: "?q \<le> s"
  proof (cases "others + load = 0")
    case False
    have "s * load \<le> s * (others + load)" by simp
    then have "?q \<le> s * (others + load) div (others + load)" by (rule div_le_mono)
    also have "s * (others + load) div (others + load) = s" by (rule nonzero_mult_div_cancel_right [OF False])
    finally show ?thesis .
  qed simp
  have "?q = s" if "others = 0" "0 < load" using that by simp
  moreover have "2 \<le> s" using assms(1) by (simp add: s_def)
  ultimately show ?thesis
    unfolding Let_def load_def [symmetric] others_def [symmetric] s_def [symmetric] v using le by auto
qed

theorem group_shares_bounded_witness:
  "2 \<le> calc_group_shares \<lparr>tg_shares = 1048576, tg_load_avg = 3000\<rparr> (demo_load_rq 1000 46718000) \<and>
   262144 \<le> calc_group_shares \<lparr>tg_shares = 1048576, tg_load_avg = 3000\<rparr> (demo_load_rq 1000 46718000)"
  using group_shares_bounded [of "\<lparr>tg_shares = 1048576, tg_load_avg = 3000\<rparr>" "demo_load_rq 1000 46718000"]
  by (simp add: demo_load_defs Kernel_Fair.scale_load_down_def Let_def)

end
