(* ===== verification/Kernel_Balance.thy ===== *)
theory Kernel_Balance
  imports Kernel_Load
begin

text \<open>
  The decisions of the load balancer in src/apex-cfs/docs/fair.c: the statistics of the groups of a
  scheduling domain, the choice of the busiest group and of the busiest runqueue in it, and the
  amount to move.

  The configuration is CONFIG_SMP, CONFIG_NUMA, CONFIG_SCHED_SMT and CONFIG_HAVE_SCHED_AVG_IRQ on
  64 bits, without CONFIG_NUMA_BALANCING, CONFIG_FAIR_GROUP_SCHED, CONFIG_UCLAMP_TASK and
  CONFIG_SCHED_CORE. A cpumask is the list of its CPUs in ascending order, the ring of groups of a
  domain is the list that starts at \<open>sd->groups\<close>, and a pointer to a group is its index there. The
  fields that other files of the kernel compute (\<open>idle_cpu\<close>, the topology, the signals of the other
  classes) are fields of the runqueue or of the domain. \<^term>\<open>None\<close> is a division by zero or a read
  through the pointer \<open>sds->local\<close> before it is set.
\<close>

section \<open>State\<close>

datatype group_type = group_has_spare | group_fully_busy | group_misfit_task | group_asym_packing
  | group_imbalanced | group_overloaded

datatype migration_type = migrate_load | migrate_util | migrate_task | migrate_misfit

datatype cpu_idle_type = CPU_IDLE | CPU_NOT_IDLE | CPU_NEWLY_IDLE

datatype fbq_type = fbq_regular | fbq_remote | fbq_all

fun group_rank :: "group_type \<Rightarrow> nat" where
  "group_rank group_has_spare = 0"
| "group_rank group_fully_busy = 1"
| "group_rank group_misfit_task = 2"
| "group_rank group_asym_packing = 3"
| "group_rank group_imbalanced = 4"
| "group_rank group_overloaded = 5"

lemma group_rank_inj: "group_rank a = group_rank b \<Longrightarrow> a = b"
  by (cases a; cases b) simp_all

instantiation group_type :: linorder
begin

definition less_eq_group_type :: "group_type \<Rightarrow> group_type \<Rightarrow> bool" where
  "less_eq_group_type a b = (group_rank a \<le> group_rank b)"

definition less_group_type :: "group_type \<Rightarrow> group_type \<Rightarrow> bool" where
  "less_group_type a b = (group_rank a < group_rank b)"

instance
  by standard (auto simp: less_eq_group_type_def less_group_type_def group_rank_inj)

end

lemmas group_order = less_eq_group_type_def less_group_type_def

record lb_task =
  t_pid :: nat
  t_se :: load_entity
  t_cpus :: "nat list"
  t_per_cpu_kthread :: bool
  t_fair :: bool
  t_idle_policy :: bool
  t_on_cpu :: bool
  t_exec_start :: u64

record lb_rq =
  r_nr_running :: u32
  r_h_nr_running :: u32
  r_avg :: load_signals
  r_capacity :: u64
  r_capacity_orig :: u64
  r_misfit_task_load :: u64
  r_rt_util :: u64
  r_dl_util :: u64
  r_irq_util :: u64
  r_thermal :: u64
  r_arch_capacity :: u64
  r_idle_cpu :: bool
  r_ttwu_pending :: bool
  r_clock_task :: u64
  r_tasks :: "lb_task list"
  r_next :: "nat option"
  r_last :: "nat option"
  r_curr_cpus :: "nat list"
  r_active_balance :: bool
  r_push_cpu :: nat

record sg_capacity =
  sgc_capacity :: u64
  sgc_min :: u64
  sgc_max :: u64
  sgc_next_update :: u64
  sgc_imbalance :: bool

record sched_group =
  sg_span :: "nat list"
  sg_weight :: u32
  sg_smt :: bool
  sg_prefer :: nat
  sg_mask :: "nat list"
  sg_balance_cpu :: nat
  sg_sgc :: sg_capacity

record child_domain =
  cd_overlap :: bool
  cd_prefer_sibling :: bool
  cd_sgcs :: "sg_capacity list"

text \<open>The flags of a domain, each a field; \<open>sd_parent\<close> holds \<open>imbalance\<close> of the first group of
  the parent domain, which is the only part of it that balancing reads or writes.\<close>

record sched_domain =
  sd_groups :: "sched_group list"
  sd_span :: "nat list"
  sd_child :: "child_domain option"
  sd_parent :: "bool option"
  sd_numa :: bool
  sd_share_pkg :: bool
  sd_share_cpu :: bool
  sd_asym_cap :: bool
  sd_asym_pack :: bool
  sd_span_weight :: u32
  sd_imbalance_pct :: u32
  sd_imb_numa_nr :: u32
  sd_failed :: u32
  sd_nice_tries :: u32
  sd_interval :: u32
  sd_min_interval :: u64
  sd_max_interval :: u64
  sd_busy_factor :: u32
  sd_last_balance :: u64

record lb_sys =
  s_rqs :: "nat \<Rightarrow> lb_rq"
  s_jiffies :: u64
  s_overload :: bool
  s_overutilized :: bool
  s_max_capacity :: u64
  s_perf_domains :: bool
  s_active :: "nat list"
  s_llc_size :: "nat \<Rightarrow> u32"
  s_llc_shared :: "nat \<Rightarrow> nat option"
  s_idle_scan :: "nat \<Rightarrow> int"

record lb_conf =
  UTIL_EST :: bool
  SIS_UTIL :: bool
  CACHE_HOT_BUDDY :: bool
  LB_MIN :: bool
  PREEMPTION :: bool
  migration_cost :: u32
  nr_migrate :: u32
  max_balance_interval :: u64
  to_jiffies :: "u64 \<Rightarrow> u64"

record lb_env =
  e_src_cpu :: nat
  e_dst_cpu :: nat
  e_dst_grpmask :: "nat list"
  e_new_dst_cpu :: nat
  e_idle :: cpu_idle_type
  e_imbalance :: u64
  e_cpus :: "nat list"
  ALL_PINNED :: bool
  NEED_BREAK :: bool
  DST_PINNED :: bool
  SOME_PINNED :: bool
  ACTIVE_LB :: bool
  e_loop :: u32
  e_loop_break :: u32
  e_loop_max :: u32
  e_fbq :: fbq_type
  e_type :: migration_type
  e_tasks :: "lb_task list"

record sg_lb_stats =
  avg_load :: u64
  group_load :: u64
  group_capacity :: u64
  group_util :: u64
  group_runnable :: u64
  sum_nr_running :: u32
  sum_h_nr_running :: u32
  idle_cpus :: u32
  group_weight :: u32
  gtype :: group_type
  asym_packing :: bool
  misfit_load :: u64

record sd_lb_stats =
  busiest_group :: "nat option"
  local_group :: "nat option"
  total_load :: u64
  total_capacity :: u64
  sds_avg_load :: u64
  prefer_sibling :: bool
  busiest_stat :: sg_lb_stats
  local_stat :: sg_lb_stats

text \<open>The value of \<open>memset(sgs, 0, ...)\<close>.\<close>

definition zero_stats :: sg_lb_stats where
  "zero_stats = \<lparr>avg_load = 0, group_load = 0, group_capacity = 0, group_util = 0, group_runnable = 0,
     sum_nr_running = 0, sum_h_nr_running = 0, idle_cpus = 0, group_weight = 0,
     gtype = group_has_spare, asym_packing = False, misfit_load = 0\<rparr>"

text \<open>\<open>local_stat\<close> is left uninitialised by the code; it is written before it is read.\<close>

definition init_sd_lb_stats :: sd_lb_stats where
  "init_sd_lb_stats = \<lparr>busiest_group = None, local_group = None, total_load = 0, total_capacity = 0,
     sds_avg_load = 0, prefer_sibling = False,
     busiest_stat = zero_stats\<lparr>idle_cpus := - 1, gtype := group_has_spare\<rparr>, local_stat = zero_stats\<rparr>"

definition mask_and :: "nat list \<Rightarrow> nat list \<Rightarrow> nat list" where
  "mask_and a b = filter (\<lambda>i. i \<in> set b) a"

definition mask_clear :: "nat \<Rightarrow> nat list \<Rightarrow> nat list" where
  "mask_clear i a = filter (\<lambda>j. j \<noteq> i) a"

definition mask_subset :: "nat list \<Rightarrow> nat list \<Rightarrow> bool" where
  "mask_subset a b = list_all (\<lambda>i. i \<in> set b) a"

definition update_sgc :: "(sg_capacity \<Rightarrow> sg_capacity) \<Rightarrow> sched_group \<Rightarrow> sched_group" where
  "update_sgc f sg = sg\<lparr>sg_sgc := f (sg_sgc sg)\<rparr>"

section \<open>Capacity\<close>

text \<open>The time comparisons of the kernel read the difference of two counters as signed.\<close>

definition time_after_eq :: "u64 \<Rightarrow> u64 \<Rightarrow> bool" where
  "time_after_eq a b = (0 \<le> sint (a - b))"

definition time_after :: "u64 \<Rightarrow> u64 \<Rightarrow> bool" where
  "time_after a b = (sint (b - a) < 0)"

definition arch_asym_cpu_priority :: "nat \<Rightarrow> int" where
  "arch_asym_cpu_priority cpu = - int cpu"

definition sched_asym_prefer :: "nat \<Rightarrow> nat \<Rightarrow> bool" where
  "sched_asym_prefer a b = (arch_asym_cpu_priority a > arch_asym_cpu_priority b)"

definition fits_capacity :: "u64 \<Rightarrow> u64 \<Rightarrow> bool" where
  "fits_capacity cap mx = (cap * 1280 < mx * 1024)"

definition capacity_greater :: "u64 \<Rightarrow> u64 \<Rightarrow> bool" where
  "capacity_greater cap1 cap2 = (cap1 * 1024 > cap2 * 1078)"

definition capacity_of :: "lb_sys \<Rightarrow> nat \<Rightarrow> u64" where
  "capacity_of sys cpu = r_capacity (s_rqs sys cpu)"

definition cpu_load :: "lb_rq \<Rightarrow> u64" where "cpu_load rq = ls_load_avg (r_avg rq)"

definition cpu_runnable :: "lb_rq \<Rightarrow> u64" where "cpu_runnable rq = ls_runnable_avg (r_avg rq)"

definition cpu_util_cfs :: "lb_conf \<Rightarrow> lb_rq \<Rightarrow> u64" where
  "cpu_util_cfs conf rq = (let util = ls_util_avg (r_avg rq) in
     min (if UTIL_EST conf then max util (ucast (ue_enqueued (ls_util_est (r_avg rq)))) else util)
         (r_capacity_orig rq))"

definition cpu_overutilized :: "lb_conf \<Rightarrow> lb_rq \<Rightarrow> bool" where
  "cpu_overutilized conf rq = (\<not> fits_capacity (cpu_util_cfs conf rq) (r_capacity rq))"

definition scale_irq_capacity :: "u64 \<Rightarrow> u64 \<Rightarrow> u64 \<Rightarrow> u64" where
  "scale_irq_capacity util irq mx = util * (mx - irq) div mx"

definition scale_rt_capacity :: "lb_rq \<Rightarrow> u64" where
  "scale_rt_capacity rq = (let mx = r_arch_capacity rq; irq = r_irq_util rq in
     if irq \<ge> mx then 1
     else let used = r_rt_util rq + r_dl_util rq + r_thermal rq in
       if used \<ge> mx then 1 else scale_irq_capacity (mx - used) irq mx)"

text \<open>\<open>update_cpu_capacity\<close> and \<open>update_group_capacity\<close> write the first group of the domain.\<close>

definition update_cpu_capacity :: "nat \<Rightarrow> lb_sys \<Rightarrow> lb_sys \<times> u64" where
  "update_cpu_capacity cpu sys = (let rq = s_rqs sys cpu; cap = scale_rt_capacity rq;
       cap = (if cap = 0 then 1 else cap) in
     (sys\<lparr>s_rqs := (s_rqs sys)(cpu := rq\<lparr>r_capacity_orig := r_arch_capacity rq, r_capacity := cap\<rparr>)\<rparr>, cap))"

definition sum_capacity :: "u64 \<times> u64 \<times> u64 \<Rightarrow> u64 \<times> u64 \<times> u64 \<Rightarrow> u64 \<times> u64 \<times> u64" where
  "sum_capacity c acc = (case (c, acc) of ((cap, mn, mx), (capacity, min_capacity, max_capacity)) \<Rightarrow>
     (capacity + cap, min mn min_capacity, max mx max_capacity))"

definition child_capacities :: "lb_sys \<Rightarrow> child_domain \<Rightarrow> sched_group \<Rightarrow> (u64 \<times> u64 \<times> u64) list" where
  "child_capacities sys child sdg =
     (if cd_overlap child then map (\<lambda>i. (capacity_of sys i, capacity_of sys i, capacity_of sys i)) (sg_span sdg)
      else map (\<lambda>s. (sgc_capacity s, sgc_min s, sgc_max s)) (cd_sgcs child))"

definition update_group_capacity ::
    "lb_conf \<Rightarrow> nat \<Rightarrow> lb_sys \<times> sched_domain \<Rightarrow> lb_sys \<times> sched_domain" where
  "update_group_capacity conf cpu st = (case st of (sys, sd) \<Rightarrow>
     let interval = to_jiffies conf (ucast (sd_interval sd));
         interval = min (max interval 1) (max_balance_interval conf);
         due = s_jiffies sys + interval;
         set = (\<lambda>(cap, mn, mx). case sd_groups sd of
             sdg # gs \<Rightarrow> sd\<lparr>sd_groups := update_sgc (\<lambda>s. s\<lparr>sgc_next_update := due, sgc_capacity := cap,
                 sgc_min := mn, sgc_max := mx\<rparr>) sdg # gs\<rparr>
           | [] \<Rightarrow> sd) in
     case sd_child sd of
       None \<Rightarrow> (case update_cpu_capacity cpu sys of (sys, cap) \<Rightarrow> (sys, set (cap, cap, cap)))
     | Some child \<Rightarrow> (sys, set (fold sum_capacity (child_capacities sys child (hd (sd_groups sd))) (0, - 1, 0))))"

definition check_cpu_capacity :: "lb_rq \<Rightarrow> sched_domain \<Rightarrow> bool" where
  "check_cpu_capacity rq sd = (r_capacity rq * ucast (sd_imbalance_pct sd) < r_capacity_orig rq * 100)"

definition check_misfit_status :: "lb_sys \<Rightarrow> lb_rq \<Rightarrow> sched_domain \<Rightarrow> bool" where
  "check_misfit_status sys rq sd = (r_misfit_task_load rq \<noteq> 0 \<and>
     (r_capacity_orig rq < s_max_capacity sys \<or> check_cpu_capacity rq sd))"

section \<open>Classification of a group\<close>

definition sg_imbalanced :: "sched_group \<Rightarrow> bool" where "sg_imbalanced g = sgc_imbalance (sg_sgc g)"

definition group_has_capacity :: "u32 \<Rightarrow> sg_lb_stats \<Rightarrow> bool" where
  "group_has_capacity pct sgs =
     (if sum_nr_running sgs < group_weight sgs then True
      else if group_capacity sgs * ucast pct < group_runnable sgs * 100 then False
      else group_capacity sgs * 100 > group_util sgs * ucast pct)"

definition group_is_overloaded :: "u32 \<Rightarrow> sg_lb_stats \<Rightarrow> bool" where
  "group_is_overloaded pct sgs =
     (if sum_nr_running sgs \<le> group_weight sgs then False
      else if group_capacity sgs * 100 < group_util sgs * ucast pct then True
      else group_capacity sgs * ucast pct < group_runnable sgs * 100)"

definition group_classify :: "u32 \<Rightarrow> sched_group \<Rightarrow> sg_lb_stats \<Rightarrow> group_type" where
  "group_classify pct g sgs =
     (if group_is_overloaded pct sgs then group_overloaded
      else if sg_imbalanced g then group_imbalanced
      else if asym_packing sgs then group_asym_packing
      else if misfit_load sgs \<noteq> 0 then group_misfit_task
      else if \<not> group_has_capacity pct sgs then group_fully_busy
      else group_has_spare)"

section \<open>Statistics of a group\<close>

text \<open>\<open>int busy_cpus_delta = ...\<close>: the difference of two counts of CPUs.\<close>

definition busy_cpus :: "sg_lb_stats \<Rightarrow> u32" where "busy_cpus sgs = group_weight sgs - idle_cpus sgs"

definition asym_smt_can_pull_tasks ::
    "nat \<Rightarrow> sched_group \<Rightarrow> sg_lb_stats \<Rightarrow> sg_lb_stats \<Rightarrow> sched_group \<Rightarrow> bool" where
  "asym_smt_can_pull_tasks dst_cpu loc loc_stat sgs sg =
     (if \<not> sg_smt loc then
        (if 2 \<le> sint (busy_cpus sgs) then True else sched_asym_prefer dst_cpu (sg_prefer sg))
      else if sg_smt sg then
        (if busy_cpus sgs - (sg_weight loc - idle_cpus loc_stat) = 1
         then sched_asym_prefer dst_cpu (sg_prefer sg) else False)
      else if sum_nr_running loc_stat = 0 then sched_asym_prefer dst_cpu (sg_prefer sg)
      else False)"

definition sched_asym :: "lb_env \<Rightarrow> sched_group \<Rightarrow> sg_lb_stats \<Rightarrow> sg_lb_stats \<Rightarrow> sched_group \<Rightarrow> bool" where
  "sched_asym env loc loc_stat sgs g =
     (if sg_smt loc \<or> sg_smt g then asym_smt_can_pull_tasks (e_dst_cpu env) loc loc_stat sgs g
      else sched_asym_prefer (e_dst_cpu env) (sg_prefer g))"

definition sched_reduced_capacity :: "lb_rq \<Rightarrow> sched_domain \<Rightarrow> bool" where
  "sched_reduced_capacity rq sd = (if r_h_nr_running rq \<noteq> 1 then False else check_cpu_capacity rq sd)"

text \<open>The status flags \<open>SG_OVERLOAD\<close> and \<open>SG_OVERUTILIZED\<close>, and one CPU of the loop of
  \<open>update_sg_lb_stats\<close>.\<close>

type_synonym sg_status = "bool \<times> bool"

definition add_cpu_stats :: "lb_conf \<Rightarrow> lb_sys \<Rightarrow> sched_domain \<Rightarrow> lb_env \<Rightarrow> bool \<Rightarrow> nat \<Rightarrow>
    sg_lb_stats \<times> sg_status \<Rightarrow> sg_lb_stats \<times> sg_status" where
  "add_cpu_stats conf sys sd env is_local i st = (case st of (sgs, overload, overutilized) \<Rightarrow>
     let rq = s_rqs sys i; load = cpu_load rq;
         sgs = sgs\<lparr>group_load := group_load sgs + load,
                   group_util := group_util sgs + cpu_util_cfs conf rq,
                   group_runnable := group_runnable sgs + cpu_runnable rq,
                   sum_h_nr_running := sum_h_nr_running sgs + r_h_nr_running rq,
                   sum_nr_running := sum_nr_running sgs + r_nr_running rq\<rparr>;
         overload = (overload \<or> 1 < sint (r_nr_running rq));
         overutilized = (overutilized \<or> cpu_overutilized conf rq) in
     if r_nr_running rq = 0 \<and> r_idle_cpu rq
     then (sgs\<lparr>idle_cpus := idle_cpus sgs + 1\<rparr>, overload, overutilized)
     else if is_local then (sgs, overload, overutilized)
     else if sd_asym_cap sd then
       (if misfit_load sgs < r_misfit_task_load rq
        then (sgs\<lparr>misfit_load := r_misfit_task_load rq\<rparr>, True, overutilized)
        else (sgs, overload, overutilized))
     else if e_idle env \<noteq> CPU_NOT_IDLE \<and> sched_reduced_capacity rq sd then
       (if misfit_load sgs < load then (sgs\<lparr>misfit_load := load\<rparr>, overload, overutilized)
        else (sgs, overload, overutilized))
     else (sgs, overload, overutilized))"

definition average_load :: "sg_lb_stats \<Rightarrow> u64 option" where
  "average_load sgs = (if group_capacity sgs = 0 then None
     else Some (group_load sgs * 1024 div group_capacity sgs))"

definition update_sg_lb_stats :: "lb_conf \<Rightarrow> lb_sys \<Rightarrow> sched_domain \<Rightarrow> lb_env \<Rightarrow> sd_lb_stats \<Rightarrow> nat \<Rightarrow>
    sg_status \<Rightarrow> (sg_lb_stats \<times> sg_status) option" where
  "update_sg_lb_stats conf sys sd env sds gi status =
     (let g = sd_groups sd ! gi; is_local = (local_group sds = Some gi) in
      case fold (add_cpu_stats conf sys sd env is_local) (mask_and (sg_span g) (e_cpus env)) (zero_stats, status)
      of (sgs, status) \<Rightarrow>
        let sgs = sgs\<lparr>group_capacity := sgc_capacity (sg_sgc g), group_weight := sg_weight g\<rparr> in do {
        asym \<leftarrow> (if \<not> is_local \<and> sd_asym_pack sd \<and> e_idle env \<noteq> CPU_NOT_IDLE \<and> sum_h_nr_running sgs \<noteq> 0
          then do {
            l \<leftarrow> local_group sds;
            Some (sched_asym env (sd_groups sd ! l) (local_stat sds) sgs g)
          } else Some False);
        let sgs = sgs\<lparr>asym_packing := asym\<rparr>;
        let sgs = sgs\<lparr>gtype := group_classify (sd_imbalance_pct sd) g sgs\<rparr>;
        if gtype sgs = group_overloaded then do {
          a \<leftarrow> average_load sgs;
          Some (sgs\<lparr>avg_load := a\<rparr>, status)
        } else Some (sgs, status)
      })"

section \<open>The busiest group\<close>

definition busier_of_type :: "sched_domain \<Rightarrow> sd_lb_stats \<Rightarrow> sched_group \<Rightarrow> sg_lb_stats \<Rightarrow> bool option" where
  "busier_of_type sd sds sg sgs = (let busiest = busiest_stat sds in
     case gtype sgs of
       group_overloaded \<Rightarrow> Some (\<not> avg_load sgs \<le> avg_load busiest)
     | group_imbalanced \<Rightarrow> Some False
     | group_asym_packing \<Rightarrow> do {
         b \<leftarrow> busiest_group sds;
         Some (\<not> sched_asym_prefer (sg_prefer sg) (sg_prefer (sd_groups sd ! b)))
       }
     | group_misfit_task \<Rightarrow> Some (\<not> misfit_load sgs < misfit_load busiest)
     | group_fully_busy \<Rightarrow> Some (\<not> avg_load sgs \<le> avg_load busiest)
     | group_has_spare \<Rightarrow> Some (
         if idle_cpus sgs > idle_cpus busiest then False
         else \<not> (idle_cpus sgs = idle_cpus busiest \<and> sum_nr_running sgs \<le> sum_nr_running busiest)))"

definition update_sd_pick_busiest ::
    "lb_sys \<Rightarrow> sched_domain \<Rightarrow> lb_env \<Rightarrow> sd_lb_stats \<Rightarrow> sched_group \<Rightarrow> sg_lb_stats \<Rightarrow> bool option" where
  "update_sd_pick_busiest sys sd env sds sg sgs = (let busiest = busiest_stat sds in
     if sum_h_nr_running sgs = 0 then Some False
     else if sd_asym_cap sd \<and> gtype sgs = group_misfit_task \<and>
        (\<not> capacity_greater (capacity_of sys (e_dst_cpu env)) (sgc_max (sg_sgc sg)) \<or>
         gtype (local_stat sds) \<noteq> group_has_spare) then Some False
     else if gtype sgs > gtype busiest then Some True
     else if gtype sgs < gtype busiest then Some False
     else do {
       more \<leftarrow> busier_of_type sd sds sg sgs;
       Some (if \<not> more then False
         else if sd_asym_cap sd \<and> gtype sgs \<le> group_fully_busy \<and>
           capacity_greater (sgc_min (sg_sgc sg)) (capacity_of sys (e_dst_cpu env)) then False
         else True)
     })"

text \<open>Without CONFIG_NUMA_BALANCING.\<close>

definition fbq_classify_group :: "sg_lb_stats \<Rightarrow> fbq_type" where "fbq_classify_group sgs = fbq_all"

definition fbq_classify_rq :: "lb_rq \<Rightarrow> fbq_type" where "fbq_classify_rq rq = fbq_regular"

fun fbq_rank :: "fbq_type \<Rightarrow> nat" where
  "fbq_rank fbq_regular = 0"
| "fbq_rank fbq_remote = 1"
| "fbq_rank fbq_all = 2"

text \<open>The hint for the search of an idle CPU: \<open>do_div\<close> divides by an unsigned 32-bit number.\<close>

definition idle_scan_value :: "u64 \<Rightarrow> u32 \<Rightarrow> u32 \<Rightarrow> int option" where
  "idle_scan_value sum_util llc_weight imb_pct =
     (if llc_weight = 0 then None
      else let x = sum_util div ucast llc_weight;
               tmp = x * x * scast imb_pct * scast imb_pct div (10000 * 1024);
               tmp = signed_min tmp 1024;
               y = (1024 - tmp) * scast llc_weight div 1024 in
        Some (sint (ucast y :: u32)))"

definition update_idle_cpu_scan :: "lb_conf \<Rightarrow> sched_domain \<Rightarrow> lb_env \<Rightarrow> u64 \<Rightarrow> lb_sys \<Rightarrow> lb_sys option" where
  "update_idle_cpu_scan conf sd env sum_util sys =
     (let llc_weight = s_llc_size sys (e_dst_cpu env) in
      if \<not> SIS_UTIL conf \<or> e_idle env = CPU_NEWLY_IDLE then Some sys
      else if sd_span_weight sd \<noteq> llc_weight then Some sys
      else case s_llc_shared sys (e_dst_cpu env) of
          None \<Rightarrow> Some sys
        | Some sd_share \<Rightarrow> do {
            y \<leftarrow> idle_scan_value sum_util llc_weight (sd_imbalance_pct sd);
            Some (sys\<lparr>s_idle_scan := (s_idle_scan sys)(sd_share := y)\<rparr>)
          })"

text \<open>One turn of the loop over the groups, with the index of the group.\<close>

type_synonym sd_state = "lb_sys \<times> sched_domain \<times> sd_lb_stats \<times> u64 \<times> sg_status"

definition visit_group :: "lb_conf \<Rightarrow> lb_env \<Rightarrow> nat \<Rightarrow> sd_state \<Rightarrow> sd_state option" where
  "visit_group conf env gi st = (case st of (sys, sd, sds, sum_util, status) \<Rightarrow>
     let sg = sd_groups sd ! gi; is_local = (e_dst_cpu env \<in> set (sg_span sg)) in
     if is_local then
       let sds = sds\<lparr>local_group := Some gi\<rparr> in
       case (if e_idle env \<noteq> CPU_NEWLY_IDLE \<or> time_after_eq (s_jiffies sys) (sgc_next_update (sg_sgc sg))
         then update_group_capacity conf (e_dst_cpu env) (sys, sd) else (sys, sd)) of (sys, sd) \<Rightarrow> do {
         (sgs, status) \<leftarrow> update_sg_lb_stats conf sys sd env sds gi status;
         Some (sys, sd, sds\<lparr>local_stat := sgs, total_load := total_load sds + group_load sgs,
             total_capacity := total_capacity sds + group_capacity sgs\<rparr>, sum_util + group_util sgs, status)
       }
     else do {
       (sgs, status) \<leftarrow> update_sg_lb_stats conf sys sd env sds gi status;
       busier \<leftarrow> update_sd_pick_busiest sys sd env sds sg sgs;
       let sds = (if busier then sds\<lparr>busiest_group := Some gi, busiest_stat := sgs\<rparr> else sds);
       Some (sys, sd, sds\<lparr>total_load := total_load sds + group_load sgs,
           total_capacity := total_capacity sds + group_capacity sgs\<rparr>, sum_util + group_util sgs, status)
     })"

fun visit_groups :: "lb_conf \<Rightarrow> lb_env \<Rightarrow> nat list \<Rightarrow> sd_state \<Rightarrow> sd_state option" where
  "visit_groups conf env [] st = Some st"
| "visit_groups conf env (gi # gs) st = visit_group conf env gi st \<bind> visit_groups conf env gs"

definition update_sd_lb_stats :: "lb_conf \<Rightarrow> lb_sys \<Rightarrow> sched_domain \<Rightarrow> lb_env \<Rightarrow> sd_lb_stats \<Rightarrow>
    (lb_sys \<times> sched_domain \<times> lb_env \<times> sd_lb_stats) option" where
  "update_sd_lb_stats conf sys sd env sds = do {
     (sys, sd, sds, sum_util, overload, overutilized) \<leftarrow>
       visit_groups conf env [0..<length (sd_groups sd)] (sys, sd, sds, 0, False, False);
     let sds = sds\<lparr>prefer_sibling := (case sd_child sd of None \<Rightarrow> False | Some c \<Rightarrow> cd_prefer_sibling c)\<rparr>;
     let env = (if sd_numa sd then env\<lparr>e_fbq := fbq_classify_group (busiest_stat sds)\<rparr> else env);
     let sys = (if sd_parent sd = None then sys\<lparr>s_overload := overload, s_overutilized := overutilized\<rparr>
       else if overutilized then sys\<lparr>s_overutilized := True\<rparr> else sys);
     sys \<leftarrow> update_idle_cpu_scan conf sd env sum_util sys;
     Some (sys, sd, env, sds)
   }"

section \<open>The amount to move\<close>

text \<open>\<open>int\<close> parameters: the arguments are converted, and the result is widened again.\<close>

definition adjust_numa_imbalance :: "u32 \<Rightarrow> u32 \<Rightarrow> u32 \<Rightarrow> u64" where
  "adjust_numa_imbalance imb dst_running imb_numa_nr =
     (if sint dst_running > sint imb_numa_nr then scast imb
      else if sint imb \<le> 2 then 0
      else scast imb)"

definition lsub_positive :: "u32 \<Rightarrow> u32 \<Rightarrow> u32" where "lsub_positive a b = a - min a b"

text \<open>\<open>spare_imbalance\<close>: what to move into the spare capacity of the local group; \<open>even_imbalance\<close>:
  into a local group without any. \<open>imbalance\<close> is a \<open>long\<close>, so \<open>>>= 1\<close> is arithmetic.\<close>

definition task_imbalance :: "sched_domain \<Rightarrow> sd_lb_stats \<Rightarrow> u64" where
  "task_imbalance sd sds = (let busiest = busiest_stat sds; loc = local_stat sds in
     if group_weight busiest = 1 \<or> prefer_sibling sds
     then ucast (lsub_positive (sum_nr_running busiest) (sum_nr_running loc))
     else signed_max 0 (ucast (idle_cpus loc - idle_cpus busiest)))"

definition spare_imbalance :: "sched_domain \<Rightarrow> lb_env \<Rightarrow> sd_lb_stats \<Rightarrow> lb_env" where
  "spare_imbalance sd env sds = (let busiest = busiest_stat sds; loc = local_stat sds in
     if gtype busiest > group_fully_busy \<and> \<not> sd_share_pkg sd then
       let env = env\<lparr>e_type := migrate_util,
                     e_imbalance := max (group_capacity loc) (group_util loc) - group_util loc\<rparr> in
       if e_idle env \<noteq> CPU_NOT_IDLE \<and> e_imbalance env = 0
       then env\<lparr>e_type := migrate_task, e_imbalance := 1\<rparr> else env
     else
       let imb = task_imbalance sd sds;
           imb = (if sd_numa sd then
             adjust_numa_imbalance (ucast imb) (sum_nr_running loc + 1) (sd_imb_numa_nr sd) else imb) in
       env\<lparr>e_type := migrate_task, e_imbalance := signed_drop_bit 1 imb\<rparr>)"

definition even_imbalance :: "lb_env \<Rightarrow> sg_lb_stats \<Rightarrow> sg_lb_stats \<Rightarrow> u64 \<Rightarrow> lb_env" where
  "even_imbalance env busiest loc avg = env\<lparr>e_type := migrate_load, e_imbalance :=
     min ((avg_load busiest - avg) * group_capacity busiest) ((avg - avg_load loc) * group_capacity loc) div 1024\<rparr>"

definition average_of :: "sd_lb_stats \<Rightarrow> u64 option" where
  "average_of sds = (if total_capacity sds = 0 then None
     else Some (total_load sds * 1024 div total_capacity sds))"

definition calculate_imbalance :: "sched_domain \<Rightarrow> lb_env \<Rightarrow> sd_lb_stats \<Rightarrow> lb_env option" where
  "calculate_imbalance sd env sds = (let busiest = busiest_stat sds; loc = local_stat sds in
     if gtype busiest = group_misfit_task then
       Some (if sd_asym_cap sd then env\<lparr>e_type := migrate_misfit, e_imbalance := 1\<rparr>
         else env\<lparr>e_type := migrate_load, e_imbalance := misfit_load busiest\<rparr>)
     else if gtype busiest = group_asym_packing then
       Some (env\<lparr>e_type := migrate_task, e_imbalance := ucast (sum_h_nr_running busiest)\<rparr>)
     else if gtype busiest = group_imbalanced then
       Some (env\<lparr>e_type := migrate_task, e_imbalance := 1\<rparr>)
     else if gtype loc = group_has_spare then Some (spare_imbalance sd env sds)
     else if gtype loc < group_overloaded then do {
       la \<leftarrow> average_load loc;
       if la \<ge> avg_load busiest then Some (env\<lparr>e_imbalance := 0\<rparr>)
       else do {
         avg \<leftarrow> average_of sds;
         Some (even_imbalance env busiest (loc\<lparr>avg_load := la\<rparr>) avg)
       }
     }
     else Some (even_imbalance env busiest loc (sds_avg_load sds)))"

section \<open>The decision\<close>

text \<open>What lies between the statistics and \<open>force_balance\<close> in \<open>find_busiest_group\<close>: \<^term>\<open>None\<close>
  inside is \<open>out_balanced\<close>.\<close>

definition overload_check :: "sched_domain \<Rightarrow> sd_lb_stats \<Rightarrow> sd_lb_stats option option" where
  "overload_check sd sds = (let busiest = busiest_stat sds; loc = local_stat sds in
     if gtype loc = group_overloaded then
       if avg_load loc \<ge> avg_load busiest then Some None
       else do {
         avg \<leftarrow> average_of sds;
         Some (if avg_load loc \<ge> avg then None
           else if 100 * avg_load busiest \<le> ucast (sd_imbalance_pct sd) * avg_load loc then None
           else Some (sds\<lparr>sds_avg_load := avg\<rparr>))
       }
     else Some (Some sds))"

definition spare_check :: "lb_env \<Rightarrow> sd_lb_stats \<Rightarrow> bool" where
  "spare_check env sds = (let busiest = busiest_stat sds; loc = local_stat sds in
     if prefer_sibling sds \<and> gtype loc = group_has_spare \<and> sum_nr_running busiest > sum_nr_running loc + 1
     then True
     else if gtype busiest \<noteq> group_overloaded then
       (if e_idle env = CPU_NOT_IDLE then False
        else if group_weight busiest > 1 \<and> idle_cpus loc \<le> idle_cpus busiest + 1 then False
        else sum_h_nr_running busiest \<noteq> 1)
     else True)"

definition worth_balancing ::
    "lb_sys \<Rightarrow> sched_domain \<Rightarrow> lb_env \<Rightarrow> sd_lb_stats \<Rightarrow> sd_lb_stats option option" where
  "worth_balancing sys sd env sds = (let busiest = busiest_stat sds; loc = local_stat sds in
     if s_perf_domains sys \<and> \<not> s_overutilized sys then Some None
     else if busiest_group sds = None then Some None
     else if gtype busiest = group_misfit_task then Some (Some sds)
     else if gtype busiest = group_asym_packing then Some (Some sds)
     else if gtype busiest = group_imbalanced then Some (Some sds)
     else if gtype loc > gtype busiest then Some None
     else do {
       checked \<leftarrow> overload_check sd sds;
       Some (case checked of None \<Rightarrow> None | Some sds \<Rightarrow> if spare_check env sds then Some sds else None)
     })"

definition find_busiest_group :: "lb_conf \<Rightarrow> lb_sys \<Rightarrow> sched_domain \<Rightarrow> lb_env \<Rightarrow>
    (lb_sys \<times> sched_domain \<times> lb_env \<times> nat option) option" where
  "find_busiest_group conf sys sd env = do {
     (sys, sd, env, sds) \<leftarrow> update_sd_lb_stats conf sys sd env init_sd_lb_stats;
     verdict \<leftarrow> worth_balancing sys sd env sds;
     case verdict of
       None \<Rightarrow> Some (sys, sd, env\<lparr>e_imbalance := 0\<rparr>, None)
     | Some sds \<Rightarrow> do {
         env \<leftarrow> calculate_imbalance sd env sds;
         Some (sys, sd, env, if e_imbalance env \<noteq> 0 then busiest_group sds else None)
       }
   }"

section \<open>The busiest runqueue\<close>

record busiest_rq =
  b_cpu :: "nat option"
  b_util :: u64
  b_load :: u64
  b_capacity :: u64
  b_nr :: u32

definition busier_rq :: "lb_conf \<Rightarrow> sched_domain \<Rightarrow> lb_env \<Rightarrow> nat \<Rightarrow> lb_rq \<Rightarrow> busiest_rq \<Rightarrow> busiest_rq" where
  "busier_rq conf sd env i rq b = (let nr_running = r_h_nr_running rq; capacity = r_capacity rq in
     case e_type env of
       migrate_load \<Rightarrow> (let load = cpu_load rq in
         if nr_running = 1 \<and> load > e_imbalance env \<and> \<not> check_cpu_capacity rq sd then b
         else if load * b_capacity b > b_load b * capacity
         then b\<lparr>b_load := load, b_capacity := capacity, b_cpu := Some i\<rparr> else b)
     | migrate_util \<Rightarrow> (let util = cpu_util_cfs conf rq in
         if nr_running \<le> 1 then b
         else if b_util b < util then b\<lparr>b_util := util, b_cpu := Some i\<rparr> else b)
     | migrate_task \<Rightarrow> (if b_nr b < nr_running then b\<lparr>b_nr := nr_running, b_cpu := Some i\<rparr> else b)
     | migrate_misfit \<Rightarrow> (if r_misfit_task_load rq > b_load b
         then b\<lparr>b_load := r_misfit_task_load rq, b_cpu := Some i\<rparr> else b))"

definition visit_rq :: "lb_conf \<Rightarrow> lb_sys \<Rightarrow> sched_domain \<Rightarrow> lb_env \<Rightarrow> nat \<Rightarrow> busiest_rq \<Rightarrow> busiest_rq" where
  "visit_rq conf sys sd env i b = (let rq = s_rqs sys i; nr_running = r_h_nr_running rq in
     if fbq_rank (fbq_classify_rq rq) > fbq_rank (e_fbq env) then b
     else if nr_running = 0 then b
     else if sd_asym_cap sd \<and> \<not> capacity_greater (capacity_of sys (e_dst_cpu env)) (r_capacity rq) \<and>
       nr_running = 1 then b
     else if sd_asym_pack sd \<and> sched_asym_prefer i (e_dst_cpu env) \<and> nr_running = 1 then b
     else busier_rq conf sd env i rq b)"

definition find_busiest_queue ::
    "lb_conf \<Rightarrow> lb_sys \<Rightarrow> sched_domain \<Rightarrow> lb_env \<Rightarrow> sched_group \<Rightarrow> nat option" where
  "find_busiest_queue conf sys sd env g =
     b_cpu (fold (visit_rq conf sys sd env) (mask_and (sg_span g) (e_cpus env))
       \<lparr>b_cpu = None, b_util = 0, b_load = 0, b_capacity = 1, b_nr = 0\<rparr>)"

end
