(* ===== verification/Kernel_Migrate.thy ===== *)
theory Kernel_Migrate
  imports Kernel_Balance
begin

text \<open>
  How the load balancer of src/apex-cfs/docs/fair.c moves tasks once \<open>Kernel_Balance\<close> has decided:
  which tasks may migrate, how many are detached, and the loops of \<open>load_balance\<close> around it, with
  its retries for pinned tasks, the active balance and the interval to the next attempt.

  \<open>activate_task\<close>, \<open>deactivate_task\<close>, \<open>set_task_cpu\<close>, \<open>update_rq_clock\<close> and
  \<open>check_preempt_curr\<close> belong to core.c, which the repository does not have; they are an argument
  (\<open>core_lib\<close>), and \<open>core_ok\<close> states what balancing relies on. The lists \<open>cfs_tasks\<close> and
  \<open>env->tasks\<close> hold the tasks in list order; \<open>list_move\<close> puts a task at the head. Locks, trace
  points and schedstats have no definition. The loops take fuel: \<^term>\<open>None\<close> is then a loop that
  has not ended.
\<close>

section \<open>May the task migrate\<close>

record core_lib =
  deactivate_task :: "lb_task \<Rightarrow> lb_rq \<Rightarrow> lb_rq"
  activate_task :: "lb_task \<Rightarrow> lb_rq \<Rightarrow> lb_rq"
  set_task_cpu :: "nat \<Rightarrow> lb_task \<Rightarrow> lb_task"
  update_rq_clock :: "lb_rq \<Rightarrow> lb_rq"
  check_preempt_curr :: "lb_task \<Rightarrow> lb_rq \<Rightarrow> lb_rq"

abbreviation (input) src_rq :: "lb_sys \<Rightarrow> lb_env \<Rightarrow> lb_rq" where
  "src_rq sys env \<equiv> s_rqs sys (e_src_cpu env)"

abbreviation (input) dst_rq :: "lb_sys \<Rightarrow> lb_env \<Rightarrow> lb_rq" where
  "dst_rq sys env \<equiv> s_rqs sys (e_dst_cpu env)"

definition on_rq :: "nat \<Rightarrow> (lb_rq \<Rightarrow> lb_rq) \<Rightarrow> lb_sys \<Rightarrow> lb_sys" where
  "on_rq i f sys = sys\<lparr>s_rqs := (s_rqs sys)(i := f (s_rqs sys i))\<rparr>"

definition task_hot :: "lb_conf \<Rightarrow> lb_sys \<Rightarrow> sched_domain \<Rightarrow> lb_env \<Rightarrow> lb_task \<Rightarrow> bool" where
  "task_hot conf sys sd env p =
     (if \<not> t_fair p then False
      else if t_idle_policy p then False
      else if sd_share_cpu sd then False
      else if CACHE_HOT_BUDDY conf \<and> r_nr_running (dst_rq sys env) \<noteq> 0 \<and>
        (r_next (src_rq sys env) = Some (t_pid p) \<or> r_last (src_rq sys env) = Some (t_pid p)) then True
      else if migration_cost conf = - 1 then True
      else if migration_cost conf = 0 then False
      else sint (r_clock_task (src_rq sys env) - t_exec_start p) < uint (migration_cost conf))"

definition can_migrate_task ::
    "lb_conf \<Rightarrow> lb_sys \<Rightarrow> sched_domain \<Rightarrow> lb_task \<Rightarrow> lb_env \<Rightarrow> bool \<times> lb_env" where
  "can_migrate_task conf sys sd p env =
     (if t_per_cpu_kthread p then (False, env)
      else if e_dst_cpu env \<notin> set (t_cpus p) then
        (let env = env\<lparr>SOME_PINNED := True\<rparr> in
         if e_idle env = CPU_NEWLY_IDLE \<or> DST_PINNED env \<or> ACTIVE_LB env then (False, env)
         else case find (\<lambda>cpu. cpu \<in> set (t_cpus p)) (mask_and (e_dst_grpmask env) (e_cpus env)) of
             Some cpu \<Rightarrow> (False, env\<lparr>DST_PINNED := True, e_new_dst_cpu := cpu\<rparr>)
           | None \<Rightarrow> (False, env))
      else let env = env\<lparr>ALL_PINNED := False\<rparr> in
        if t_on_cpu p then (False, env)
        else if ACTIVE_LB env then (True, env)
        else (\<not> task_hot conf sys sd env p \<or> sd_failed sd > sd_nice_tries sd, env))"

section \<open>Detaching and attaching\<close>

definition detach_task :: "core_lib \<Rightarrow> lb_task \<Rightarrow> lb_env \<Rightarrow> lb_sys \<Rightarrow> lb_sys \<times> lb_task" where
  "detach_task lib p env sys =
     (on_rq (e_src_cpu env) (deactivate_task lib p) sys, set_task_cpu lib (e_dst_cpu env) p)"

definition shr_bound :: "u64 \<Rightarrow> u32 \<Rightarrow> u64" where
  "shr_bound val shift = drop_bit (min (unat shift) 63) val"

definition task_h_load :: "lb_task \<Rightarrow> u64" where "task_h_load p = ls_load_avg (en_avg (t_se p))"

definition task_fits_capacity :: "lb_task \<Rightarrow> u64 \<Rightarrow> bool" where
  "task_fits_capacity p capacity = fits_capacity (task_util_est (t_se p)) capacity"

text \<open>The \<open>switch\<close> of \<open>detach_tasks\<close>: the imbalance left once \<open>p\<close> is taken, or \<^term>\<open>None\<close> for
  \<open>goto next\<close>.\<close>

definition take_share :: "lb_conf \<Rightarrow> lb_sys \<Rightarrow> sched_domain \<Rightarrow> lb_env \<Rightarrow> lb_task \<Rightarrow> u64 option" where
  "take_share conf sys sd env p = (case e_type env of
     migrate_load \<Rightarrow> (let load = max (task_h_load p) 1 in
       if LB_MIN conf \<and> load < 16 \<and> sd_failed sd = 0 then None
       else if shr_bound load (sd_failed sd) > e_imbalance env then None
       else Some (e_imbalance env - load))
   | migrate_util \<Rightarrow> (let util = task_util_est (t_se p) in
       if util > e_imbalance env then None else Some (e_imbalance env - util))
   | migrate_task \<Rightarrow> Some (e_imbalance env - 1)
   | migrate_misfit \<Rightarrow>
       if task_fits_capacity p (capacity_of sys (e_src_cpu env)) then None else Some 0)"

definition to_head :: "lb_task list \<Rightarrow> lb_task list" where
  "to_head ts = (if ts = [] then [] else last ts # butlast ts)"

abbreviation (input) SCHED_NR_MIGRATE_BREAK :: u32 where "SCHED_NR_MIGRATE_BREAK \<equiv> 32"

fun detach_loop :: "lb_conf \<Rightarrow> core_lib \<Rightarrow> sched_domain \<Rightarrow> nat \<Rightarrow> lb_sys \<times> lb_env \<times> nat \<Rightarrow>
    (lb_sys \<times> lb_env \<times> nat) option" where
  "detach_loop conf lib sd 0 st = None"
| "detach_loop conf lib sd (Suc n) (sys, env, detached) = (let tasks = r_tasks (src_rq sys env) in
     if tasks = [] then Some (sys, env, detached)
     else if e_idle env \<noteq> CPU_NOT_IDLE \<and> r_nr_running (src_rq sys env) \<le> 1 then Some (sys, env, detached)
     else let env = env\<lparr>e_loop := e_loop env + 1\<rparr> in
     if e_loop env > e_loop_max env \<and> \<not> ALL_PINNED env then Some (sys, env, detached)
     else if e_loop env > e_loop_break env then
       Some (sys, env\<lparr>e_loop_break := e_loop_break env + SCHED_NR_MIGRATE_BREAK, NEED_BREAK := True\<rparr>, detached)
     else let p = last tasks; skip = on_rq (e_src_cpu env) (\<lambda>rq. rq\<lparr>r_tasks := to_head (r_tasks rq)\<rparr>) sys in
       case can_migrate_task conf sys sd p env of
         (False, env) \<Rightarrow> detach_loop conf lib sd n (skip, env, detached)
       | (True, env) \<Rightarrow> (case take_share conf sys sd env p of
           None \<Rightarrow> detach_loop conf lib sd n (skip, env, detached)
         | Some left \<Rightarrow> (case detach_task lib p env sys of (sys, p) \<Rightarrow>
             let env = env\<lparr>e_imbalance := left, e_tasks := p # e_tasks env\<rparr> in
             if PREEMPTION conf \<and> e_idle env = CPU_NEWLY_IDLE then Some (sys, env, detached + 1)
             else if sint (e_imbalance env) \<le> 0 then Some (sys, env, detached + 1)
             else detach_loop conf lib sd n (sys, env, detached + 1))))"

definition detach_tasks :: "lb_conf \<Rightarrow> core_lib \<Rightarrow> nat \<Rightarrow> sched_domain \<Rightarrow> lb_sys \<Rightarrow> lb_env \<Rightarrow>
    (lb_sys \<times> lb_env \<times> nat) option" where
  "detach_tasks conf lib fuel sd sys env =
     (if r_nr_running (src_rq sys env) \<le> 1 then Some (sys, env\<lparr>ALL_PINNED := False\<rparr>, 0)
      else if sint (e_imbalance env) \<le> 0 then Some (sys, env, 0)
      else detach_loop conf lib sd fuel (sys, env, 0))"

definition attach_task :: "core_lib \<Rightarrow> lb_task \<Rightarrow> lb_rq \<Rightarrow> lb_rq" where
  "attach_task lib p rq = check_preempt_curr lib p (activate_task lib p rq)"

definition attach_tasks :: "core_lib \<Rightarrow> lb_sys \<times> lb_env \<Rightarrow> lb_sys \<times> lb_env" where
  "attach_tasks lib st = (case st of (sys, env) \<Rightarrow>
     (on_rq (e_dst_cpu env) (\<lambda>rq. fold (attach_task lib) (e_tasks env) (update_rq_clock lib rq)) sys,
      env\<lparr>e_tasks := []\<rparr>))"

definition attach_one_task :: "core_lib \<Rightarrow> lb_task \<Rightarrow> lb_rq \<Rightarrow> lb_rq" where
  "attach_one_task lib p rq = attach_task lib p (update_rq_clock lib rq)"

text \<open>\<open>detach_one_task\<close> looks at the tasks from the last one; \<open>env\<close> keeps what each visit found.\<close>

fun first_movable :: "lb_conf \<Rightarrow> lb_sys \<Rightarrow> sched_domain \<Rightarrow> lb_task list \<Rightarrow> lb_env \<Rightarrow> lb_task option \<times> lb_env" where
  "first_movable conf sys sd [] env = (None, env)"
| "first_movable conf sys sd (p # ps) env = (case can_migrate_task conf sys sd p env of
     (False, env) \<Rightarrow> first_movable conf sys sd ps env
   | (True, env) \<Rightarrow> (Some p, env))"

definition detach_one_task :: "lb_conf \<Rightarrow> core_lib \<Rightarrow> sched_domain \<Rightarrow> lb_sys \<Rightarrow> lb_env \<Rightarrow>
    lb_sys \<times> lb_task option" where
  "detach_one_task conf lib sd sys env =
     (case first_movable conf sys sd (rev (r_tasks (src_rq sys env))) env of
        (None, env) \<Rightarrow> (sys, None)
      | (Some p, env) \<Rightarrow> (case detach_task lib p env sys of (sys, p) \<Rightarrow> (sys, Some p)))"

section \<open>Active balance\<close>

definition asym_active_balance :: "sched_domain \<Rightarrow> lb_env \<Rightarrow> bool" where
  "asym_active_balance sd env = (e_idle env \<noteq> CPU_NOT_IDLE \<and> sd_asym_pack sd \<and>
     sched_asym_prefer (e_dst_cpu env) (e_src_cpu env))"

definition imbalanced_active_balance :: "sched_domain \<Rightarrow> lb_env \<Rightarrow> bool" where
  "imbalanced_active_balance sd env = (e_type env = migrate_task \<and> sd_failed sd > sd_nice_tries sd + 2)"

definition need_active_balance :: "lb_sys \<Rightarrow> sched_domain \<Rightarrow> lb_env \<Rightarrow> bool" where
  "need_active_balance sys sd env =
     (if asym_active_balance sd env then True
      else if imbalanced_active_balance sd env then True
      else if e_idle env \<noteq> CPU_NOT_IDLE \<and> r_h_nr_running (src_rq sys env) = 1 \<and>
        check_cpu_capacity (src_rq sys env) sd \<and>
        capacity_of sys (e_src_cpu env) * ucast (sd_imbalance_pct sd) < capacity_of sys (e_dst_cpu env) * 100
      then True
      else e_type env = migrate_misfit)"

text \<open>The environment of \<open>active_load_balance_cpu_stop\<close>, and the function itself: \<open>this_cpu\<close> is
  the processor it runs on, \<open>sds\<close> the domains of the target from the smallest.\<close>

definition active_env :: "nat \<Rightarrow> nat \<Rightarrow> lb_env" where
  "active_env target busiest = \<lparr>e_src_cpu = busiest, e_dst_cpu = target, e_dst_grpmask = [], e_new_dst_cpu = 0,
     e_idle = CPU_IDLE, e_imbalance = 0, e_cpus = [], ALL_PINNED = False, NEED_BREAK = False,
     DST_PINNED = False, SOME_PINNED = False, ACTIVE_LB = True, e_loop = 0, e_loop_break = 0,
     e_loop_max = 0, e_fbq = fbq_regular, e_type = migrate_load, e_tasks = []\<rparr>"

definition active_load_balance :: "lb_conf \<Rightarrow> core_lib \<Rightarrow> nat \<Rightarrow> nat \<Rightarrow> sched_domain list \<Rightarrow> lb_sys \<Rightarrow>
    lb_sys \<times> sched_domain list" where
  "active_load_balance conf lib this_cpu busiest_cpu sds sys =
     (let rq = s_rqs sys busiest_cpu; target = r_push_cpu rq;
          release = on_rq busiest_cpu (\<lambda>rq. rq\<lparr>r_active_balance := False\<rparr>);
          spans = (\<lambda>sd. busiest_cpu \<in> set (sd_span sd)) in
      if busiest_cpu \<notin> set (s_active sys) \<or> target \<notin> set (s_active sys) then (release sys, sds)
      else if busiest_cpu \<noteq> this_cpu \<or> \<not> r_active_balance rq then (release sys, sds)
      else if r_nr_running rq \<le> 1 then (release sys, sds)
      else case find spans sds of
          None \<Rightarrow> (release sys, sds)
        | Some sd \<Rightarrow> (case detach_one_task conf lib sd (on_rq busiest_cpu (update_rq_clock lib) sys)
              (active_env target busiest_cpu) of
            (sys, None) \<Rightarrow> (release sys, sds)
          | (sys, Some p) \<Rightarrow> (on_rq target (attach_one_task lib p) (release sys),
              takeWhile (Not \<circ> spans) sds @ sd\<lparr>sd_failed := 0\<rparr> # tl (dropWhile (Not \<circ> spans) sds))))"

section \<open>One attempt to balance\<close>

definition should_we_balance :: "lb_sys \<Rightarrow> sched_domain \<Rightarrow> lb_env \<Rightarrow> bool" where
  "should_we_balance sys sd env = (let sg = hd (sd_groups sd) in
     if e_dst_cpu env \<notin> set (e_cpus env) then False
     else if e_idle env = CPU_NEWLY_IDLE then
       \<not> (r_nr_running (dst_rq sys env) > 0 \<or> r_ttwu_pending (dst_rq sys env))
     else case find (\<lambda>cpu. r_idle_cpu (s_rqs sys cpu)) (mask_and (sg_mask sg) (e_cpus env)) of
         Some cpu \<Rightarrow> cpu = e_dst_cpu env
       | None \<Rightarrow> sg_balance_cpu sg = e_dst_cpu env)"

text \<open>From \<open>more_balance\<close> to the test of \<open>LBF_DST_PINNED\<close>; \<open>k\<close> is the fuel of the inner loop.
  \<open>balance_once\<close> is one pass, with whether the code jumps back to \<open>more_balance\<close>.\<close>

type_synonym bal_state = "lb_sys \<times> lb_env \<times> nat"

definition retarget :: "lb_env \<Rightarrow> lb_env" where
  "retarget env = env\<lparr>e_cpus := mask_clear (e_dst_cpu env) (e_cpus env), e_dst_cpu := e_new_dst_cpu env,
     DST_PINNED := False, e_loop := 0, e_loop_break := SCHED_NR_MIGRATE_BREAK\<rparr>"

definition balance_once ::
    "lb_conf \<Rightarrow> core_lib \<Rightarrow> nat \<Rightarrow> sched_domain \<Rightarrow> bal_state \<Rightarrow> (bool \<times> bal_state) option" where
  "balance_once conf lib k sd st = (case st of (sys, env, ld_moved) \<Rightarrow> do {
     (sys, env, cur) \<leftarrow> detach_tasks conf lib k sd (on_rq (e_src_cpu env) (update_rq_clock lib) sys) env;
     let (sys, env) = (if cur \<noteq> 0 then attach_tasks lib (sys, env) else (sys, env));
     let ld_moved = ld_moved + cur;
     let unseen = NEED_BREAK env \<and> e_loop env < r_nr_running (src_rq sys env);
     let env = env\<lparr>NEED_BREAK := False\<rparr>;
     Some (if unseen then (True, sys, env, ld_moved)
       else if DST_PINNED env \<and> 0 < sint (e_imbalance env) then (True, sys, retarget env, ld_moved)
       else (False, sys, env, ld_moved))
   })"

fun more_balance ::
    "lb_conf \<Rightarrow> core_lib \<Rightarrow> nat \<Rightarrow> sched_domain \<Rightarrow> nat \<Rightarrow> bal_state \<Rightarrow> bal_state option" where
  "more_balance conf lib k sd 0 st = None"
| "more_balance conf lib k sd (Suc n) st = do {
     (again, st) \<leftarrow> balance_once conf lib k sd st;
     if again then more_balance conf lib k sd n st else Some st
   }"

text \<open>Where a call ends: the labels \<open>out_balanced\<close>, \<open>out_all_pinned\<close> and \<open>out_one_pinned\<close>. The
  results are the system, the domain, \<open>ld_moved\<close> and \<open>*continue_balancing\<close>.\<close>

type_synonym bal_result = "lb_sys \<times> sched_domain \<times> nat \<times> bool"

abbreviation (input) MAX_PINNED_INTERVAL :: u32 where "MAX_PINNED_INTERVAL \<equiv> 512"

definition out_one_pinned :: "lb_env \<Rightarrow> sched_domain \<Rightarrow> sched_domain" where
  "out_one_pinned env sd =
     (if e_idle env = CPU_NEWLY_IDLE then sd
      else if (ALL_PINNED env \<and> sd_interval sd < MAX_PINNED_INTERVAL) \<or> ucast (sd_interval sd) < sd_max_interval sd
      then sd\<lparr>sd_interval := sd_interval sd * 2\<rparr> else sd)"

definition out_all_pinned :: "lb_env \<Rightarrow> sched_domain \<Rightarrow> sched_domain" where
  "out_all_pinned env sd = out_one_pinned env (sd\<lparr>sd_failed := 0\<rparr>)"

definition out_balanced :: "lb_env \<Rightarrow> sched_domain \<Rightarrow> sched_domain" where
  "out_balanced env sd = out_all_pinned env
     (if \<not> ALL_PINNED env then sd\<lparr>sd_parent := map_option (\<lambda>_. False) (sd_parent sd)\<rparr> else sd)"

text \<open>From \<open>if (!ld_moved)\<close> on.\<close>

definition balance_moved :: "nat \<Rightarrow> nat \<Rightarrow> lb_sys \<Rightarrow> sched_domain \<Rightarrow> lb_env \<Rightarrow> lb_sys \<times> sched_domain \<times> nat" where
  "balance_moved this_cpu ld_moved sys sd env =
     (let reset = (\<lambda>sd. sd\<lparr>sd_interval := ucast (sd_min_interval sd)\<rparr>) in
      if ld_moved \<noteq> 0 then (sys, reset (sd\<lparr>sd_failed := 0\<rparr>), ld_moved)
      else let sd = (if e_idle env \<noteq> CPU_NEWLY_IDLE then sd\<lparr>sd_failed := sd_failed sd + 1\<rparr> else sd) in
        if need_active_balance sys sd env then
          (if this_cpu \<notin> set (r_curr_cpus (src_rq sys env)) then (sys, out_one_pinned env sd, 0)
           else let env = env\<lparr>ALL_PINNED := False\<rparr> in
             if r_active_balance (src_rq sys env) then (sys, reset sd, 0)
             else let sys = on_rq (e_src_cpu env) (\<lambda>rq. rq\<lparr>r_active_balance := True, r_push_cpu := this_cpu\<rparr>) sys in
               (sys, if need_active_balance sys sd env then reset sd else sd, 0))
        else (sys, reset sd, 0))"

definition parent_pinned :: "lb_env \<Rightarrow> sched_domain \<Rightarrow> sched_domain" where
  "parent_pinned env sd = (if SOME_PINNED env \<and> 0 < sint (e_imbalance env)
     then sd\<lparr>sd_parent := map_option (\<lambda>_. True) (sd_parent sd)\<rparr> else sd)"

fun balance_redo :: "lb_conf \<Rightarrow> core_lib \<Rightarrow> nat \<Rightarrow> nat \<Rightarrow> nat \<Rightarrow> nat \<Rightarrow> lb_sys \<Rightarrow> sched_domain \<Rightarrow> lb_env \<Rightarrow>
    bal_result option" where
  "balance_redo conf lib k m this_cpu 0 sys sd env = None"
| "balance_redo conf lib k m this_cpu (Suc n) sys sd env =
     (if \<not> should_we_balance sys sd env then Some (sys, out_balanced env sd, 0, False)
      else do {
        (sys, sd, env, group) \<leftarrow> find_busiest_group conf sys sd env;
        case Option.bind group (\<lambda>g. find_busiest_queue conf sys sd env (sd_groups sd ! g)) of
          None \<Rightarrow> Some (sys, out_balanced env sd, 0, True)
        | Some busiest \<Rightarrow>
            let env = env\<lparr>e_src_cpu := busiest, ALL_PINNED := True\<rparr> in
            if r_nr_running (src_rq sys env) > 1 then do {
              let env = env\<lparr>e_loop_max := min (nr_migrate conf) (r_nr_running (src_rq sys env))\<rparr>;
              (sys, env, ld_moved) \<leftarrow> more_balance conf lib k sd m (sys, env, 0);
              let sd = parent_pinned env sd;
              if ALL_PINNED env then
                let env = env\<lparr>e_cpus := mask_clear busiest (e_cpus env)\<rparr> in
                if \<not> mask_subset (e_cpus env) (e_dst_grpmask env) then
                  balance_redo conf lib k m this_cpu n sys sd
                    (env\<lparr>e_loop := 0, e_loop_break := SCHED_NR_MIGRATE_BREAK\<rparr>)
                else Some (sys, out_all_pinned env sd, 0, True)
              else case balance_moved this_cpu ld_moved sys sd env of (sys, sd, moved) \<Rightarrow>
                Some (sys, sd, moved, True)
            }
            else case balance_moved this_cpu 0 sys sd env of (sys, sd, moved) \<Rightarrow> Some (sys, sd, moved, True)
      })"

definition balance_env :: "lb_sys \<Rightarrow> sched_domain \<Rightarrow> nat \<Rightarrow> cpu_idle_type \<Rightarrow> lb_env" where
  "balance_env sys sd this_cpu idle = \<lparr>e_src_cpu = 0, e_dst_cpu = this_cpu,
     e_dst_grpmask = sg_span (hd (sd_groups sd)), e_new_dst_cpu = 0, e_idle = idle, e_imbalance = 0,
     e_cpus = mask_and (sd_span sd) (s_active sys), ALL_PINNED = False, NEED_BREAK = False,
     DST_PINNED = False, SOME_PINNED = False, ACTIVE_LB = False, e_loop = 0,
     e_loop_break = SCHED_NR_MIGRATE_BREAK, e_loop_max = 0, e_fbq = fbq_all, e_type = migrate_load, e_tasks = []\<rparr>"

definition load_balance :: "lb_conf \<Rightarrow> core_lib \<Rightarrow> nat \<Rightarrow> nat \<Rightarrow> nat \<Rightarrow> nat \<Rightarrow> lb_sys \<Rightarrow> sched_domain \<Rightarrow>
    cpu_idle_type \<Rightarrow> bal_result option" where
  "load_balance conf lib k m n this_cpu sys sd idle =
     balance_redo conf lib k m this_cpu n sys sd (balance_env sys sd this_cpu idle)"

section \<open>The interval\<close>

definition get_sd_balance_interval :: "lb_conf \<Rightarrow> sched_domain \<Rightarrow> bool \<Rightarrow> u64" where
  "get_sd_balance_interval conf sd cpu_busy =
     (let interval = ucast (sd_interval sd) * (if cpu_busy then ucast (sd_busy_factor sd) else 1);
          interval = to_jiffies conf interval - (if cpu_busy then 1 else 0) in
      min (max interval 1) (max_balance_interval conf))"

definition update_next_balance :: "lb_conf \<Rightarrow> sched_domain \<Rightarrow> u64 \<Rightarrow> u64" where
  "update_next_balance conf sd next_balance =
     (let due = sd_last_balance sd + get_sd_balance_interval conf sd False in
      if time_after next_balance due then due else next_balance)"

section \<open>What balancing relies on\<close>

text \<open>The functions of core.c: a dequeue unlinks the task and counts it off, an enqueue links it at
  the head of \<open>cfs_tasks\<close> and counts it (\<open>account_entity_dequeue\<close>, \<open>account_entity_enqueue\<close>), and
  neither touches the capacity of the CPU. A task that moves keeps its affinity and its signals.\<close>

definition same_capacity :: "lb_rq \<Rightarrow> lb_rq \<Rightarrow> bool" where
  "same_capacity a b = (r_capacity a = r_capacity b \<and> r_arch_capacity a = r_arch_capacity b)"

definition core_ok :: "core_lib \<Rightarrow> bool" where
  "core_ok lib =
     ((\<forall>p rq. r_tasks (deactivate_task lib p rq) = remove1 p (r_tasks rq) \<and>
         r_nr_running (deactivate_task lib p rq) = r_nr_running rq - 1 \<and>
         same_capacity (deactivate_task lib p rq) rq) \<and>
      (\<forall>p rq. r_tasks (activate_task lib p rq) = p # r_tasks rq \<and>
         r_nr_running (activate_task lib p rq) = r_nr_running rq + 1 \<and>
         same_capacity (activate_task lib p rq) rq) \<and>
      (\<forall>cpu p. t_pid (set_task_cpu lib cpu p) = t_pid p \<and> t_cpus (set_task_cpu lib cpu p) = t_cpus p \<and>
         task_h_load (set_task_cpu lib cpu p) = task_h_load p \<and>
         task_util_est (t_se (set_task_cpu lib cpu p)) = task_util_est (t_se p)) \<and>
      (\<forall>rq. r_tasks (update_rq_clock lib rq) = r_tasks rq \<and>
         r_nr_running (update_rq_clock lib rq) = r_nr_running rq \<and>
         same_capacity (update_rq_clock lib rq) rq) \<and>
      (\<forall>p rq. r_tasks (check_preempt_curr lib p rq) = r_tasks rq \<and>
         r_nr_running (check_preempt_curr lib p rq) = r_nr_running rq \<and>
         same_capacity (check_preempt_curr lib p rq) rq))"

end
