(* ===== verification/Kernel_Balance_Run.thy ===== *)
theory Kernel_Balance_Run
  imports Kernel_Balance
begin

text \<open>
  Correctness of the decisions of the load balancer in \<open>Kernel_Balance\<close>: the busiest group is one that
  no other group exceeds, the decision follows the matrix that the code documents, the load that
  is moved takes both groups to the average, and where an unsigned difference wraps.
\<close>

section \<open>The decision matrix\<close>










section \<open>The amount to move\<close>

lemma moved_load_nat:
  fixes L Cl Lb Cb A :: nat
  defines "al \<equiv> L * 1024 div Cl" and "ab \<equiv> Lb * 1024 div Cb"
  defines "imb \<equiv> min ((ab - A) * Cb) ((A - al) * Cl) div 1024"
  assumes "0 < Cl" and "0 < Cb" and "al < A" and "A \<le> ab"
  shows "imb \<le> Lb \<and> (L + imb) * 1024 div Cl \<le> A \<and> A \<le> (Lb - imb) * 1024 div Cb"
proof -
  have i: "imb * 1024 \<le> (ab - A) * Cb" "imb * 1024 \<le> (A - al) * Cl"
    unfolding imb_def using div_times_less_eq_dividend [of "min ((ab - A) * Cb) ((A - al) * Cl)" 1024] by simp_all
  have l: "L * 1024 < Suc al * Cl" 

    using mod_less_divisor [OF assms(4), of "L * 1024"] div_mult_mod_eq [of "L * 1024" Cl]
    unfolding al_def mult_Suc by linarith
  have b: "ab * Cb \<le> Lb * 1024" by (simp add: ab_def)
  have "(L + imb) * 1024 < Suc al * Cl + (A - al) * Cl" using l i(2) by (simp add: add_mult_distrib)
  also have "\<dots> = Suc A * Cl" using assms(6) by (simp flip: add_mult_distrib)
  finally have lo: "(L + imb) * 1024 div Cl < Suc A" using assms(4) by (simp add: less_mult_imp_div_less)
  have "A * Cb + imb * 1024 \<le> A * Cb + (ab - A) * Cb" using i(1) by simp
  also have "\<dots> = ab * Cb" using assms(7) by (simp flip: add_mult_distrib)
  finally have up: "A * Cb + imb * 1024 \<le> Lb * 1024" using b by linarith
  then have "A * Cb \<le> (Lb - imb) * 1024" by (simp add: diff_mult_distrib)
  then have "A \<le> (Lb - imb) * 1024 div Cb" using assms(5) by (simp add: less_eq_div_iff_mult_less_eq)
  moreover have "imb \<le> Lb" using up by linarith
  ultimately show ?thesis using lo by simp
qed

lemma average_nat:
  assumes "unat (l :: u64) < 2 ^ 30"
  shows "unat (l * 1024 div c) = unat l * 1024 div unat c"
  using assms by (simp add: unat_div unat_u64_mult_small)

lemma average_load_nat:
  assumes "average_load s = Some (avg_load s)" and "unat (group_load s) < 2 ^ 30"
  shows "0 < unat (group_capacity s) \<and> unat (avg_load s) = unat (group_load s) * 1024 div unat (group_capacity s) \<and>
    unat (avg_load s) < 2 ^ 40"
proof -
  have "group_capacity s \<noteq> 0" and v: "avg_load s = group_load s * 1024 div group_capacity s"
    using assms(1) by (auto simp: average_load_def split: if_splits)
  then have c: "0 < unat (group_capacity s)" by (simp add: unat_gt_0)
  have e: "unat (avg_load s) = unat (group_load s) * 1024 div unat (group_capacity s)"
    unfolding v by (rule average_nat [OF assms(2)])
  also have "\<dots> \<le> unat (group_load s) * 1024" by (rule div_le_dividend)
  also have "\<dots> < 2 ^ 40" using assms(2) by simp
  finally show ?thesis using c e by simp
qed

text \<open>
  C16. When both groups are overloaded and the average load of the domain lies between theirs, the
  load that \<open>calculate_imbalance\<close> asks for takes both towards it and neither beyond: the local group
  ends at most at the average, the busiest group at least at it, and no more is asked for than
  the busiest group has.
\<close>

theorem load_move_meets_average:
  assumes "gtype (busiest_stat sds) = group_overloaded" and "gtype (local_stat sds) = group_overloaded"
    and "average_load (busiest_stat sds) = Some (avg_load (busiest_stat sds))"
    and "average_load (local_stat sds) = Some (avg_load (local_stat sds))"
    and "unat (group_load (busiest_stat sds)) < 2 ^ 30" and "unat (group_load (local_stat sds)) < 2 ^ 30"
    and "unat (group_capacity (busiest_stat sds)) < 2 ^ 20" and "unat (group_capacity (local_stat sds)) < 2 ^ 20"
    and "worth_balancing sys sd env sds = Some (Some sds')"
    and "average_of sds = Some avg" and "avg \<le> avg_load (busiest_stat sds)"
  shows "\<exists>env'. calculate_imbalance sd env sds' = Some env' \<and> e_type env' = migrate_load \<and>
    unat (e_imbalance env') \<le> unat (group_load (busiest_stat sds)) \<and>
    (unat (group_load (local_stat sds)) + unat (e_imbalance env')) * 1024 div unat (group_capacity (local_stat sds))
      \<le> unat avg \<and>
    unat avg \<le> (unat (group_load (busiest_stat sds)) - unat (e_imbalance env')) * 1024
      div unat (group_capacity (busiest_stat sds))"
proof -
  let ?b = "busiest_stat sds" and ?l = "local_stat sds"
  have s': "sds' = sds\<lparr>sds_avg_load := avg\<rparr>" and less: "avg_load ?l < avg"
    using assms(1,2,9,10)
    by (auto simp: worth_balancing_def overload_check_def Let_def group_order split: if_splits)
  note b = average_load_nat [OF assms(3,5)] and l = average_load_nat [OF assms(4,6)]
  have al: "unat (avg_load ?l) < unat avg" and ab: "unat avg \<le> unat (avg_load ?b)"
    using less assms(11) by (simp_all add: word_less_nat_alt word_le_nat_alt)
  let ?x = "(avg_load ?b - avg) * group_capacity ?b" and ?y = "(avg - avg_load ?l) * group_capacity ?l"
  have "unat (avg_load ?b) - unat avg < 2 ^ 40" "unat avg - unat (avg_load ?l) < 2 ^ 40"
    using b ab by linarith+
  then have room: "(unat (avg_load ?b) - unat avg) * unat (group_capacity ?b) < 2 ^ 40 * 2 ^ 20"
      "(unat avg - unat (avg_load ?l)) * unat (group_capacity ?l) < 2 ^ 40 * 2 ^ 20"
    using assms(7,8) by - (rule mult_strict_mono; simp)+
  have x: "unat ?x = (unat (avg_load ?b) - unat avg) * unat (group_capacity ?b)"
    using room(1) assms(11) by (subst unat_u64_mult_small) (simp_all add: unat_sub)
  have y: "unat ?y = (unat avg - unat (avg_load ?l)) * unat (group_capacity ?l)"
    using room(2) less by (subst unat_u64_mult_small) (simp_all add: unat_sub less_imp_le)
  let ?imb = "min ?x ?y div 1024"
  have imb: "unat ?imb = min ((unat (avg_load ?b) - unat avg) * unat (group_capacity ?b))
      ((unat avg - unat (avg_load ?l)) * unat (group_capacity ?l)) div 1024"
    unfolding unat_div x [symmetric] y [symmetric] by (simp add: min_def word_le_nat_alt)
  have "calculate_imbalance sd env sds' = Some (env\<lparr>e_type := migrate_load, e_imbalance := ?imb\<rparr>)"
    using assms(1,2) by (simp add: calculate_imbalance_def s' even_imbalance_def Let_def group_order)
  moreover have "unat ?imb \<le> unat (group_load ?b) \<and>
      (unat (group_load ?l) + unat ?imb) * 1024 div unat (group_capacity ?l) \<le> unat avg \<and>
      unat avg \<le> (unat (group_load ?b) - unat ?imb) * 1024 div unat (group_capacity ?b)"
    unfolding imb using moved_load_nat [of "unat (group_capacity ?l)" "unat (group_capacity ?b)"
        "unat (group_load ?l)" "unat avg" "unat (group_load ?b)"] b l al ab by simp
  ultimately show ?thesis by simp
qed

text \<open>
  How many tasks the balancer asks for when the local group has spare capacity and the idle
  CPUs are to be evened out: half the difference, as long as the local group has more idle CPUs.
  When it has fewer, which an overloaded busiest group in a domain that shares a cache allows, the
  unsigned difference wraps before the \<open>max\<close> with zero and about \<open>2 ^ 31\<close> tasks are asked for.
\<close>

theorem idle_difference:
  assumes "gtype (local_stat sds) = group_has_spare"
    and "gtype (busiest_stat sds) \<le> group_fully_busy \<or> gtype (busiest_stat sds) = group_overloaded \<and> sd_share_pkg sd"
    and "group_weight (busiest_stat sds) \<noteq> 1" and "\<not> prefer_sibling sds" and "\<not> sd_numa sd"
  shows "\<exists>env'. calculate_imbalance sd env sds = Some env' \<and> e_type env' = migrate_task \<and>
    sint (e_imbalance env') =
      (let il = uint (idle_cpus (local_stat sds)); ib = uint (idle_cpus (busiest_stat sds)) in
       if ib \<le> il then (il - ib) div 2 else (2 ^ 32 - (ib - il)) div 2)"
proof -
  let ?il = "idle_cpus (local_stat sds)" and ?ib = "idle_cpus (busiest_stat sds)"
  let ?d = "ucast (?il - ?ib) :: u64"
  have d: "sint ?d = uint (?il - ?ib)"
    by (simp add: sint_uint unsigned_ucast_eq signed_take_bit_int_eq_self take_bit_int_eq_self
        order_less_le_trans [OF uint_lt2p] order_trans [OF _ uint_ge_0])
  then have "task_imbalance sd sds = ?d"
    using assms(3,4) by (simp add: task_imbalance_def Let_def signed_max_def)
  then have c: "calculate_imbalance sd env sds = Some (env\<lparr>e_type := migrate_task, e_imbalance := signed_drop_bit 1 ?d\<rparr>)"
    using assms by (cases "gtype (busiest_stat sds)")
      (auto simp: calculate_imbalance_def spare_imbalance_def Let_def group_order)
  have "sint (signed_drop_bit 1 ?d) = uint (?il - ?ib) div 2"
    by (simp add: sint_signed_drop_bit_eq d drop_bit_eq_div)
  also have "\<dots> = (if uint ?ib \<le> uint ?il then (uint ?il - uint ?ib) div 2 else (2 ^ 32 - (uint ?ib - uint ?il)) div 2)"
    by (simp add: uint_sub_if' algebra_simps)
  finally show ?thesis using c by (simp add: Let_def)
qed

section \<open>The busiest group\<close>

text \<open>The statistics that \<open>update_sg_lb_stats\<close> computes, whatever the status flags so far.\<close>

definition stats_of :: "lb_conf \<Rightarrow> lb_sys \<Rightarrow> sched_domain \<Rightarrow> lb_env \<Rightarrow> sd_lb_stats \<Rightarrow> nat \<Rightarrow> sg_lb_stats option" where
  "stats_of conf sys sd env sds i = map_option fst (update_sg_lb_stats conf sys sd env sds i (False, False))"

text \<open>\<open>no_busier sd (i, s) (b, t)\<close>: group \<open>i\<close> with the statistics \<open>s\<close> is no busier than group \<open>b\<close>
  with \<open>t\<close>: by type, and within a type by its measure.\<close>

definition no_busier :: "sched_domain \<Rightarrow> nat \<times> sg_lb_stats \<Rightarrow> nat \<times> sg_lb_stats \<Rightarrow> bool" where
  "no_busier sd x y = (case (x, y) of ((i, s), (b, t)) \<Rightarrow>
     gtype s < gtype t \<or> gtype s = gtype t \<and>
     (case gtype s of
        group_overloaded \<Rightarrow> avg_load s \<le> avg_load t
      | group_imbalanced \<Rightarrow> True
      | group_asym_packing \<Rightarrow> arch_asym_cpu_priority (sg_prefer (sd_groups sd ! b))
          \<le> arch_asym_cpu_priority (sg_prefer (sd_groups sd ! i))
      | group_misfit_task \<Rightarrow> misfit_load s \<le> misfit_load t
      | group_fully_busy \<Rightarrow> avg_load s \<le> avg_load t
      | group_has_spare \<Rightarrow> idle_cpus t < idle_cpus s \<or>
          idle_cpus t = idle_cpus s \<and> sum_nr_running s \<le> sum_nr_running t))"

lemma no_busier_refl: "no_busier sd x x"
  by (auto simp: no_busier_def split: prod.splits group_type.splits)

lemma no_busier_trans: "no_busier sd x y \<Longrightarrow> no_busier sd y z \<Longrightarrow> no_busier sd x z"
  unfolding no_busier_def
  by (auto simp: group_order split: prod.splits group_type.splits)

lemma add_cpu_stats_status:
  "fst (add_cpu_stats conf sys sd env l i (s, a)) = fst (add_cpu_stats conf sys sd env l i (s, b))"
  by (cases a; cases b) (simp add: add_cpu_stats_def Let_def)

lemma fold_add_status:
  "fst (fold (add_cpu_stats conf sys sd env l) xs (s, a)) = fst (fold (add_cpu_stats conf sys sd env l) xs (s, b))"
proof (induction xs arbitrary: s a b)
  case (Cons i xs)
  show ?case
    using add_cpu_stats_status [of conf sys sd env l i s a b] Cons.IH
    by (cases "add_cpu_stats conf sys sd env l i (s, a)"; cases "add_cpu_stats conf sys sd env l i (s, b)") simp
qed simp

lemma stats_of_status:
  "map_option fst (update_sg_lb_stats conf sys sd env sds i status) = stats_of conf sys sd env sds i"
proof -
  let ?f = "fold (add_cpu_stats conf sys sd env (local_group sds = Some i))
      (mask_and (sg_span (sd_groups sd ! i)) (e_cpus env))"
  have "fst (?f (zero_stats, status)) = fst (?f (zero_stats, False, False))" by (rule fold_add_status)
  then show ?thesis unfolding stats_of_def
    by (cases "?f (zero_stats, status)"; cases "?f (zero_stats, False, False)")
      (auto simp: update_sg_lb_stats_def Let_def map_option_bind intro!: bind_option_cong)
qed

lemma idle_cpus_step: "idle_cpus (fst (add_cpu_stats conf sys sd env l i st)) \<in> {idle_cpus (fst st), idle_cpus (fst st) + 1}"
  by (cases st) (simp add: add_cpu_stats_def Let_def)

lemma idle_cpus_fold:
  "unat (idle_cpus (fst (fold (add_cpu_stats conf sys sd env l) xs st))) \<le> unat (idle_cpus (fst st)) + length xs"
proof (induction xs arbitrary: st)
  case (Cons i xs)
  have "unat (idle_cpus (fst (add_cpu_stats conf sys sd env l i st))) \<le> unat (idle_cpus (fst st)) + 1"
    using idle_cpus_step [of conf sys sd env l i st] by (auto simp: unat_word_ariths intro: order_trans [OF mod_less_eq_dividend])
  then show ?case using Cons.IH [of "add_cpu_stats conf sys sd env l i st"] by simp
qed simp

lemma stats_of_idle:
  assumes "stats_of conf sys sd env sds i = Some s"
  shows "unat (idle_cpus s) \<le> length (sg_span (sd_groups sd ! i))"
proof -
  let ?xs = "mask_and (sg_span (sd_groups sd ! i)) (e_cpus env)"
  have "idle_cpus s = idle_cpus (fst (fold (add_cpu_stats conf sys sd env (local_group sds = Some i)) ?xs
      (zero_stats, False, False)))"
    using assms
    by (auto simp: stats_of_def update_sg_lb_stats_def Let_def split: prod.splits bind_splits if_splits)
  also have "unat \<dots> \<le> unat (idle_cpus zero_stats) + length ?xs"
    using idle_cpus_fold [of conf sys sd env "local_group sds = Some i" ?xs "(zero_stats, False, False)"] by simp
  also have "\<dots> \<le> length (sg_span (sd_groups sd ! i))" by (simp add: zero_stats_def mask_and_def)
  finally show ?thesis .
qed

lemma stats_of_cong:
  assumes "s_rqs sys' = s_rqs sys" and "local_group sds' = local_group sds" and "local_stat sds' = local_stat sds"
  shows "stats_of conf sys' sd env sds' i = stats_of conf sys sd env sds i"
proof -
  have e: "add_cpu_stats conf sys' = add_cpu_stats conf sys"
    by (intro ext) (simp add: add_cpu_stats_def assms(1))
  show ?thesis unfolding stats_of_def update_sg_lb_stats_def assms(2,3) e ..
qed

definition same_shape :: "sched_domain \<Rightarrow> sched_domain \<Rightarrow> bool" where
  "same_shape sd' sd = (\<exists>gs. sd' = sd\<lparr>sd_groups := gs\<rparr> \<and> map sg_span gs = map sg_span (sd_groups sd))"

lemma same_shape_fields:
  assumes "same_shape sd' sd"
  shows "length (sd_groups sd') = length (sd_groups sd)" and "sd_asym_cap sd' = sd_asym_cap sd"
    and "i < length (sd_groups sd) \<Longrightarrow> sg_span (sd_groups sd' ! i) = sg_span (sd_groups sd ! i)"
  using assms by (auto simp: same_shape_def dest: map_eq_imp_length_eq) (metis length_map nth_map)

lemma update_group_capacity_shape:
  assumes "update_group_capacity conf cpu (sys, sd) = (sys', sd')"
  shows "same_shape sd' sd"
proof -
  have "same_shape sd sd" by (auto simp: same_shape_def intro: exI [of _ "sd_groups sd"])
  moreover have "same_shape (sd\<lparr>sd_groups := update_sgc f g # gs\<rparr>) sd" if "sd_groups sd = g # gs" for f g gs
    using that by (auto simp: same_shape_def update_sgc_def)
  ultimately show ?thesis using assms
    by (auto simp: update_group_capacity_def Let_def split: prod.splits option.splits list.splits)
qed

text \<open>On a domain of CPUs with different capacities two kinds of groups are passed over: those whose misfit
  task the destination cannot help, and, unless a busier type comes up, those that are not overloaded and
  whose CPUs are bigger than the destination.\<close>

definition misfit_kept :: "lb_sys \<Rightarrow> sched_domain \<Rightarrow> lb_env \<Rightarrow> sd_lb_stats \<Rightarrow> nat \<Rightarrow> sg_lb_stats \<Rightarrow> bool" where
  "misfit_kept sys sd env sds i s = (sd_asym_cap sd \<and> gtype s = group_misfit_task \<and>
     (\<not> capacity_greater (capacity_of sys (e_dst_cpu env)) (sgc_max (sg_sgc (sd_groups sd ! i))) \<or>
      gtype (local_stat sds) \<noteq> group_has_spare))"

definition passed_over :: "lb_sys \<Rightarrow> sched_domain \<Rightarrow> lb_env \<Rightarrow> sd_lb_stats \<Rightarrow> nat \<Rightarrow> sg_lb_stats \<Rightarrow> bool" where
  "passed_over sys sd env sds i s = (misfit_kept sys sd env sds i s \<or>
     sd_asym_cap sd \<and> gtype s \<le> group_fully_busy \<and> gtype s \<le> gtype (busiest_stat sds) \<and>
     capacity_greater (sgc_min (sg_sgc (sd_groups sd ! i))) (capacity_of sys (e_dst_cpu env)))"

lemma misfit_kept_cong:
  assumes "s_rqs sys' = s_rqs sys" and "local_stat sds' = local_stat sds"
  shows "misfit_kept sys' sd env sds' i s = misfit_kept sys sd env sds i s"
  using assms by (simp add: misfit_kept_def capacity_of_def)

lemma passed_over_mono:
  assumes "s_rqs sys' = s_rqs sys" and "local_stat sds' = local_stat sds"
    and "gtype (busiest_stat sds) \<le> gtype (busiest_stat sds')" and "passed_over sys sd env sds i s"
  shows "passed_over sys' sd env sds' i s"
  using assms(4) order_trans [OF _ assms(3), of "gtype s"]
  by (auto simp: passed_over_def misfit_kept_cong [OF assms(1,2)] capacity_of_def assms(1))

text \<open>The invariant of the loop over the groups, once the first, local group has been seen.\<close>

definition accounted :: "lb_sys \<Rightarrow> sched_domain \<Rightarrow> lb_env \<Rightarrow> sd_lb_stats \<Rightarrow> nat \<Rightarrow> sg_lb_stats \<Rightarrow> bool" where
  "accounted sys sd env sds i s = (sum_h_nr_running s = 0 \<or> passed_over sys sd env sds i s \<or>
     (\<exists>b. busiest_group sds = Some b \<and> no_busier sd (i, s) (b, busiest_stat sds)))"

definition chosen :: "lb_conf \<Rightarrow> lb_sys \<Rightarrow> sched_domain \<Rightarrow> lb_env \<Rightarrow> sd_lb_stats \<Rightarrow> nat \<Rightarrow> bool" where
  "chosen conf sys sd env sds k =
     ((\<forall>i. 0 < i \<and> i < k \<longrightarrow> (\<exists>s. stats_of conf sys sd env sds i = Some s \<and> accounted sys sd env sds i s)) \<and>
      (case busiest_group sds of
         None \<Rightarrow> busiest_stat sds = busiest_stat init_sd_lb_stats
       | Some b \<Rightarrow> 0 < b \<and> b < k \<and> stats_of conf sys sd env sds b = Some (busiest_stat sds) \<and>
           sum_h_nr_running (busiest_stat sds) \<noteq> 0 \<and> \<not> misfit_kept sys sd env sds b (busiest_stat sds)))"

lemma no_busier_type: "no_busier sd (i, s) (b, t) \<Longrightarrow> gtype s \<le> gtype t"
  by (auto simp: no_busier_def)

lemma busier_of_type_orders:
  assumes "busier_of_type sd sds (sd_groups sd ! i) s = Some m" and "busiest_group sds = Some b"
    and "gtype s = gtype (busiest_stat sds)"
  shows "if m then no_busier sd (b, busiest_stat sds) (i, s) else no_busier sd (i, s) (b, busiest_stat sds)"
proof -
  have t: "gtype (busiest_stat sds) = gtype s" using assms(3) by simp
  have m: "busier_of_type sd sds (sd_groups sd ! i) s = Some m" by (rule assms(1))
  show ?thesis
  proof (cases "gtype s")
    case group_has_spare
    have "m = (if idle_cpus s > idle_cpus (busiest_stat sds) then False
        else \<not> (idle_cpus s = idle_cpus (busiest_stat sds) \<and> sum_nr_running s \<le> sum_nr_running (busiest_stat sds)))"
      using m group_has_spare by (simp add: busier_of_type_def Let_def)
    then show ?thesis
      unfolding no_busier_def prod.case t group_has_spare group_type.case
      by (cases "idle_cpus s" "idle_cpus (busiest_stat sds)" rule: linorder_cases) auto
  qed (use m assms(2) in \<open>simp_all add: busier_of_type_def no_busier_def t sched_asym_prefer_def Let_def not_less\<close>, auto)
qed

lemma pick_keeps_busiest:
  assumes "update_sd_pick_busiest sys sd env sds (sd_groups sd ! i) s = Some p" and "busiest_group sds = Some b"
  shows "if p then sum_h_nr_running s \<noteq> 0 \<and> \<not> misfit_kept sys sd env sds i s \<and> no_busier sd (b, busiest_stat sds) (i, s)
    else accounted sys sd env sds i s"
proof -
  let ?t = "busiest_stat sds"
  let ?big = "sd_asym_cap sd \<and> gtype s \<le> group_fully_busy \<and>
    capacity_greater (sgc_min (sg_sgc (sd_groups sd ! i))) (capacity_of sys (e_dst_cpu env))"
  have e: "update_sd_pick_busiest sys sd env sds (sd_groups sd ! i) s =
      (if sum_h_nr_running s = 0 then Some False
       else if misfit_kept sys sd env sds i s then Some False
       else if gtype s > gtype ?t then Some True
       else if gtype s < gtype ?t then Some False
       else busier_of_type sd sds (sd_groups sd ! i) s \<bind> (\<lambda>more. Some (more \<and> \<not> ?big)))"
    unfolding update_sd_pick_busiest_def misfit_kept_def Let_def
    by (intro if_cong bind_option_cong) auto
  consider (idle) "sum_h_nr_running s = 0" | (kept) "misfit_kept sys sd env sds i s"
    | (type) "sum_h_nr_running s \<noteq> 0" "\<not> misfit_kept sys sd env sds i s" "gtype s \<noteq> gtype ?t"
    | (same) "sum_h_nr_running s \<noteq> 0" "\<not> misfit_kept sys sd env sds i s" "gtype s = gtype ?t" by blast
  then show ?thesis
  proof cases
    case type
    then have "p = (gtype s > gtype ?t)" using assms(1) unfolding e by (auto split: if_splits)
    moreover have "no_busier sd (b, ?t) (i, s)" if "gtype s > gtype ?t" using that by (simp add: no_busier_def)
    moreover have "no_busier sd (i, s) (b, ?t)" if "\<not> gtype s > gtype ?t"
      using that type(3) by (simp add: no_busier_def)
    ultimately show ?thesis using type assms(2) by (simp add: accounted_def)
  next
    case same
    then obtain m where m: "busier_of_type sd sds (sd_groups sd ! i) s = Some m" and p: "p = (m \<and> \<not> ?big)"
      using assms(1) unfolding e by (cases "busier_of_type sd sds (sd_groups sd ! i) s") auto
    note o = busier_of_type_orders [OF m assms(2) same(3)]
    show ?thesis
    proof (cases m)
      case True
      then show ?thesis using o p same by (auto simp: accounted_def passed_over_def)
    next
      case False
      then show ?thesis using o p assms(2) by (simp add: accounted_def)
    qed
  next
    case idle
    then show ?thesis using assms(1) unfolding e by (simp add: accounted_def)
  next
    case kept
    then show ?thesis using assms(1) unfolding e by (simp add: accounted_def passed_over_def split: if_splits)
  qed
qed

lemma pick_first_busiest:
  assumes "update_sd_pick_busiest sys sd env sds (sd_groups sd ! i) s = Some p"
    and "busiest_stat sds = busiest_stat init_sd_lb_stats" and "idle_cpus s \<noteq> - 1"
  shows "if p then sum_h_nr_running s \<noteq> 0 \<and> \<not> misfit_kept sys sd env sds i s
    else sum_h_nr_running s = 0 \<or> passed_over sys sd env sds i s"
proof -
  have "idle_cpus s < - 1" using assms(3) by (simp add: word_order.not_eq_extremum)
  then show ?thesis using assms
    by (cases "gtype s")
      (auto simp: update_sd_pick_busiest_def busier_of_type_def init_sd_lb_stats_def zero_stats_def Let_def
        passed_over_def misfit_kept_def group_order split: if_splits)
qed

lemma visit_other_group:
  assumes "visit_group conf env k (sys, sd, sds, u, status) = Some (sys', sd', sds', u', status')"
    and "e_dst_cpu env \<notin> set (sg_span (sd_groups sd ! k))"
  shows "sys' = sys \<and> sd' = sd \<and> local_group sds' = local_group sds \<and> local_stat sds' = local_stat sds \<and>
    (\<exists>s p. stats_of conf sys sd env sds k = Some s \<and>
      update_sd_pick_busiest sys sd env sds (sd_groups sd ! k) s = Some p \<and>
      busiest_group sds' = (if p then Some k else busiest_group sds) \<and>
      busiest_stat sds' = (if p then s else busiest_stat sds))"
proof -
  have v: "visit_group conf env k (sys, sd, sds, u, status) =
      update_sg_lb_stats conf sys sd env sds k status \<bind> (\<lambda>(s, st).
        update_sd_pick_busiest sys sd env sds (sd_groups sd ! k) s \<bind> (\<lambda>p.
          let sds = (if p then sds\<lparr>busiest_group := Some k, busiest_stat := s\<rparr> else sds) in
          Some (sys, sd, sds\<lparr>total_load := total_load sds + group_load s,
            total_capacity := total_capacity sds + group_capacity s\<rparr>, u + group_util s, st)))"
    unfolding visit_group_def prod.case Let_def using assms(2) by (simp only: if_False)
  obtain s st where s: "update_sg_lb_stats conf sys sd env sds k status = Some (s, st)"
    using assms(1) unfolding v by (cases "update_sg_lb_stats conf sys sd env sds k status") auto
  obtain p where p: "update_sd_pick_busiest sys sd env sds (sd_groups sd ! k) s = Some p"
    using assms(1) unfolding v s by (cases "update_sd_pick_busiest sys sd env sds (sd_groups sd ! k) s") auto
  have r: "sys' = sys" "sd' = sd" "sds' = (if p then sds\<lparr>busiest_group := Some k, busiest_stat := s\<rparr> else sds)
      \<lparr>total_load := total_load sds + group_load s, total_capacity := total_capacity sds + group_capacity s\<rparr>"
    using assms(1) unfolding v s p Let_def Option.bind.simps prod.case by (simp_all split: if_splits)
  have "stats_of conf sys sd env sds k = Some s" using stats_of_status [of conf sys sd env sds k status] s by simp
  then show ?thesis using p r by (cases p) auto
qed

lemma accounted_moves:
  assumes "accounted sys sd env sds i t" and "local_stat sds' = local_stat sds" and "busiest_group sds' = Some k"
    and "case busiest_group sds of None \<Rightarrow> busiest_stat sds = busiest_stat init_sd_lb_stats
      | Some b \<Rightarrow> no_busier sd (b, busiest_stat sds) (k, busiest_stat sds')"
  shows "accounted sys sd env sds' i t"
proof -
  have "gtype (busiest_stat sds) \<le> gtype (busiest_stat sds')"
    using assms(4) no_busier_type by (auto simp: init_sd_lb_stats_def zero_stats_def group_order split: option.splits)
  then have "passed_over sys sd env sds i t \<Longrightarrow> passed_over sys sd env sds' i t"
    using passed_over_mono [of sys sys sds' sds] assms(2) by blast
  moreover have "no_busier sd (i, t) (b, busiest_stat sds) \<Longrightarrow> no_busier sd (i, t) (k, busiest_stat sds')"
    if "busiest_group sds = Some b" for b
    using that assms(4) no_busier_trans by auto
  ultimately show ?thesis using assms(1,3) by (auto simp: accounted_def)
qed

lemma chosen_step:
  assumes "visit_group conf env k (sys, sd, sds, u, status) = Some (sys', sd', sds', u', status')"
    and "e_dst_cpu env \<notin> set (sg_span (sd_groups sd ! k))" and "0 < k"
    and "length (sg_span (sd_groups sd ! k)) < 2 ^ 32 - 1" and "chosen conf sys sd env sds k"
  shows "sys' = sys \<and> sd' = sd \<and> chosen conf sys sd env sds' (Suc k)"
proof -
  from visit_other_group [OF assms(1,2)] obtain s p where same: "sys' = sys" "sd' = sd"
      and loc: "local_group sds' = local_group sds" "local_stat sds' = local_stat sds"
      and s: "stats_of conf sys sd env sds k = Some s"
      and p: "update_sd_pick_busiest sys sd env sds (sd_groups sd ! k) s = Some p"
      and b': "busiest_group sds' = (if p then Some k else busiest_group sds)"
        "busiest_stat sds' = (if p then s else busiest_stat sds)"
    by blast
  have st: "stats_of conf sys sd env sds' i = stats_of conf sys sd env sds i" for i
    using loc by (intro stats_of_cong) simp_all
  have mk: "misfit_kept sys sd env sds' i t = misfit_kept sys sd env sds i t" for i t
    using loc by (intro misfit_kept_cong) simp_all
  have idle: "idle_cpus s \<noteq> - 1"
  proof
    assume "idle_cpus s = - 1"
    then have "2 ^ 32 - 1 \<le> length (sg_span (sd_groups sd ! k))"
      using stats_of_idle [OF s] by (simp add: unsigned_minus_1_eq_mask mask_eq_exp_minus_1)
    then show False using assms(4) by simp
  qed
  have pk: "if p then sum_h_nr_running s \<noteq> 0 \<and> \<not> misfit_kept sys sd env sds k s \<and>
      (case busiest_group sds of None \<Rightarrow> busiest_stat sds = busiest_stat init_sd_lb_stats
        | Some b \<Rightarrow> no_busier sd (b, busiest_stat sds) (k, s)) else accounted sys sd env sds k s"
  proof (cases "busiest_group sds")
    case None
    then have "busiest_stat sds = busiest_stat init_sd_lb_stats" using assms(5) by (simp add: chosen_def)
    then show ?thesis using pick_first_busiest [OF p _ idle] None by (auto simp: accounted_def)
  next
    case (Some b)
    then show ?thesis using pick_keeps_busiest [OF p Some] by simp
  qed
  have old: "\<exists>t. stats_of conf sys sd env sds i = Some t \<and> accounted sys sd env sds i t" if "0 < i" "i < k" for i
    using that assms(5) by (simp add: chosen_def)
  have "chosen conf sys sd env sds' (Suc k)"
  proof (cases p)
    case True
    have new: "sum_h_nr_running s \<noteq> 0" "\<not> misfit_kept sys sd env sds k s" using pk True by simp_all
    have "accounted sys sd env sds' k s" using no_busier_refl True by (auto simp: accounted_def b')
    moreover have "accounted sys sd env sds i t \<Longrightarrow> accounted sys sd env sds' i t" for i t
      using pk True b' by (intro accounted_moves [OF _ loc(2), of _ _ _ _ _ k]) (simp_all split: option.splits)
    ultimately have "\<forall>i. 0 < i \<and> i < Suc k \<longrightarrow>
        (\<exists>t. stats_of conf sys sd env sds i = Some t \<and> accounted sys sd env sds' i t)"
      using old s by (metis less_Suc_eq)
    then show ?thesis using True s new assms(3) by (simp add: chosen_def st mk b')
  next
    case False
    have "accounted sys sd env sds' i t = accounted sys sd env sds i t" for i t
      using False b' mk loc by (simp add: accounted_def passed_over_def)
    moreover have "\<forall>i. 0 < i \<and> i < Suc k \<longrightarrow>
        (\<exists>t. stats_of conf sys sd env sds i = Some t \<and> accounted sys sd env sds i t)"
      using old s pk False by (metis less_Suc_eq)
    ultimately show ?thesis using assms(5) False
      by (auto simp: chosen_def st mk b' split: option.splits)
  qed
  then show ?thesis using same by simp
qed

lemma chosen_loop:
  assumes "visit_groups conf env [k..<n] (sys, sd, sds, u, status) = Some (sys', sd', sds', u', status')"
    and "\<forall>i. 0 < i \<and> i < n \<longrightarrow> e_dst_cpu env \<notin> set (sg_span (sd_groups sd ! i)) \<and>
      length (sg_span (sd_groups sd ! i)) < 2 ^ 32 - 1"
    and "0 < k" and "k \<le> n" and "chosen conf sys sd env sds k"
  shows "sys' = sys \<and> sd' = sd \<and> chosen conf sys sd env sds' n"
  using assms(1,3,4,5)
proof (induction "n - k" arbitrary: k sds u status)
  case 0
  then show ?case by simp
next
  case (Suc m)
  then have k: "k < n" by simp
  then obtain t where t: "visit_group conf env k (sys, sd, sds, u, status) = Some t"
      and rest: "visit_groups conf env [Suc k..<n] t = Some (sys', sd', sds', u', status')"
    using Suc.prems(1) by (auto simp: upt_rec [of k] split: bind_splits)
  obtain s1 d1 ds1 u1 o1 where te: "t = (s1, d1, ds1, u1, o1)" by (cases t)
  have "s1 = sys \<and> d1 = sd \<and> chosen conf sys sd env ds1 (Suc k)"
    using chosen_step [OF t [unfolded te]] assms(2) Suc.prems k by blast
  then show ?case using Suc.hyps(1) [of "Suc k" ds1 u1 o1] Suc.hyps(2) rest k by (simp add: te)
qed

lemma visit_local_group:
  assumes "visit_group conf env 0 (sys, sd, init_sd_lb_stats, u, status) = Some (sys', sd', sds', u', status')"
    and "e_dst_cpu env \<in> set (sg_span (sd_groups sd ! 0))"
  shows "same_shape sd' sd \<and> busiest_group sds' = None \<and> busiest_stat sds' = busiest_stat init_sd_lb_stats"
proof -
  let ?due = "e_idle env \<noteq> CPU_NEWLY_IDLE \<or> time_after_eq (s_jiffies sys) (sgc_next_update (sg_sgc (sd_groups sd ! 0)))"
  define cap where "cap = (if ?due then update_group_capacity conf (e_dst_cpu env) (sys, sd) else (sys, sd))"
  obtain sys1 sd1 where c: "cap = (sys1, sd1)" by (cases cap)
  have "same_shape sd sd" by (auto simp: same_shape_def intro: exI [of _ "sd_groups sd"])
  then have shape: "same_shape sd1 sd"
    using c update_group_capacity_shape unfolding cap_def by (auto split: if_splits)
  let ?sds = "init_sd_lb_stats\<lparr>local_group := Some 0\<rparr>"
  have v: "visit_group conf env 0 (sys, sd, init_sd_lb_stats, u, status) =
      update_sg_lb_stats conf sys1 sd1 env ?sds 0 status \<bind> (\<lambda>(s, st).
        Some (sys1, sd1, ?sds\<lparr>local_stat := s, total_load := total_load ?sds + group_load s,
          total_capacity := total_capacity ?sds + group_capacity s\<rparr>, u + group_util s, st))"
    unfolding visit_group_def prod.case Let_def using assms(2) c unfolding cap_def by (simp only: if_True prod.case)
  obtain s st where s: "update_sg_lb_stats conf sys1 sd1 env ?sds 0 status = Some (s, st)"
    using assms(1) unfolding v by (cases "update_sg_lb_stats conf sys1 sd1 env ?sds 0 status") auto
  then show ?thesis
    using assms(1) shape unfolding v by (auto simp: init_sd_lb_stats_def)
qed

lemma update_idle_cpu_scan_rqs: "update_idle_cpu_scan conf sd env u sys = Some sys' \<Longrightarrow> s_rqs sys' = s_rqs sys"
  by (auto simp: update_idle_cpu_scan_def Let_def split: if_splits option.splits bind_splits)

text \<open>
  C14. The group that \<open>update_sd_lb_stats\<close> calls the busiest is another group than the local one, it has
  a task to give, and no other such group is busier: none has a type of higher pulling priority,
  and none of the same type has a higher average load, a bigger misfit task, a CPU of lower
  priority, or fewer idle CPUs. When it finds none, no other group has a task. On a domain with
  \<open>SD_ASYM_CPUCAPACITY\<close> there are two exceptions, \<open>passed_over\<close>: a group whose misfit task the destination
  cannot help (it is not noticeably bigger than the CPUs of the group, or the local group has no spare
  capacity) is not considered, and is never the one selected; and a group that is at most fully busy, of a type
  no higher than the selected one, may be left alone when its smallest CPU is noticeably bigger than the
  destination. The local group is the first of the ring and the only one that contains the destination, and
  no other group has as many as 4294967295 CPUs.
\<close>

theorem busiest_group_chosen:
  assumes "update_sd_lb_stats conf sys sd env init_sd_lb_stats = Some (sys', sd', env', sds)"
    and "sd_groups sd \<noteq> []" and "e_dst_cpu env \<in> set (sg_span (sd_groups sd ! 0))"
    and "\<forall>i. 0 < i \<and> i < length (sd_groups sd) \<longrightarrow> e_dst_cpu env \<notin> set (sg_span (sd_groups sd ! i)) \<and>
      length (sg_span (sd_groups sd ! i)) < 2 ^ 32 - 1"
  shows "(\<forall>i. 0 < i \<and> i < length (sd_groups sd) \<longrightarrow>
      (\<exists>s. stats_of conf sys' sd' env sds i = Some s \<and>
        (sum_h_nr_running s = 0 \<or> passed_over sys' sd' env sds i s \<or>
         (\<exists>b. busiest_group sds = Some b \<and> no_busier sd' (i, s) (b, busiest_stat sds))))) \<and>
    (\<forall>b. busiest_group sds = Some b \<longrightarrow> 0 < b \<and> b < length (sd_groups sd) \<and>
      stats_of conf sys' sd' env sds b = Some (busiest_stat sds) \<and> sum_h_nr_running (busiest_stat sds) \<noteq> 0 \<and>
      \<not> misfit_kept sys' sd' env sds b (busiest_stat sds))"
proof -
  let ?n = "length (sd_groups sd)"
  define st0 :: sd_state where "st0 = (sys, sd, init_sd_lb_stats, 0, False, False)"
  obtain t where t: "visit_groups conf env [0..<?n] st0 = Some t"
    using assms(1) unfolding update_sd_lb_stats_def st0_def [symmetric]
    by (cases "visit_groups conf env [0..<?n] st0") auto
  obtain s2 d2 ds2 u2 o2 v2 where t2: "t = (s2, d2, ds2, u2, o2, v2)" by (cases t)
  obtain t1 where t1: "visit_group conf env 0 st0 = Some t1" and rest: "visit_groups conf env [1..<?n] t1 = Some t"
    using t assms(2) by (cases "visit_group conf env 0 st0") (auto simp: upt_rec [of 0])
  obtain s1 d1 ds1 u1 o1 where t1e: "t1 = (s1, d1, ds1, u1, o1)" by (cases t1)
  have v: "same_shape d1 sd \<and> busiest_group ds1 = None \<and> busiest_stat ds1 = busiest_stat init_sd_lb_stats"
    using visit_local_group [OF t1 [unfolded st0_def t1e] assms(3)] .
  note shape = same_shape_fields [OF v [THEN conjunct1]]
  have "chosen conf s1 d1 env ds1 1" using v by (simp add: chosen_def)
  moreover have "\<forall>i. 0 < i \<and> i < ?n \<longrightarrow> e_dst_cpu env \<notin> set (sg_span (sd_groups d1 ! i)) \<and>
      length (sg_span (sd_groups d1 ! i)) < 2 ^ 32 - 1"
    using assms(4) shape(3) by simp
  moreover have "1 \<le> ?n" using assms(2) by (cases "sd_groups sd") simp_all
  ultimately have ch: "s2 = s1 \<and> d2 = d1 \<and> chosen conf s1 d1 env ds2 ?n"
    using chosen_loop [OF rest [unfolded t1e t2]] by simp
  have fin: "sd' = d2 \<and> s_rqs sys' = s_rqs s2 \<and> local_group sds = local_group ds2 \<and> local_stat sds = local_stat ds2 \<and>
      busiest_group sds = busiest_group ds2 \<and> busiest_stat sds = busiest_stat ds2"
    using assms(1) t unfolding update_sd_lb_stats_def st0_def [symmetric] t2
    by (auto simp: Let_def dest!: update_idle_cpu_scan_rqs split: bind_splits if_splits)
  have "stats_of conf sys' sd' env sds i = stats_of conf s1 d1 env ds2 i" for i
    using fin ch stats_of_cong [of sys' s1 sds ds2] by simp
  moreover have "misfit_kept sys' sd' env sds i s = misfit_kept s1 d1 env ds2 i s" for i s
    using fin ch misfit_kept_cong [of sys' s1 sds ds2] by simp
  moreover have "accounted sys' sd' env sds i s = accounted s1 d1 env ds2 i s" for i s
    using fin ch calculation(2) by (simp add: accounted_def passed_over_def capacity_of_def)
  ultimately show ?thesis using ch fin unfolding chosen_def accounted_def by (auto split: option.splits)
qed

section \<open>A machine to evaluate on\<close>

text \<open>Three CPUs, each a group of its own: the first idle, the second overloaded, the third with one
  task.\<close>

definition demo_lb_avg :: "u64 \<Rightarrow> u64 \<Rightarrow> load_signals" where
  "demo_lb_avg load util = \<lparr>ls_last_update_time = 0, ls_load_sum = 0, ls_runnable_sum = 0, ls_util_sum = 0,
     ls_period_contrib = 0, ls_load_avg = load, ls_runnable_avg = load, ls_util_avg = util,
     ls_util_est = \<lparr>ue_enqueued = 0, ue_ewma = 0\<rparr>\<rparr>"

definition demo_lb_rq :: "u32 \<Rightarrow> u64 \<Rightarrow> u64 \<Rightarrow> lb_task list \<Rightarrow> lb_rq" where
  "demo_lb_rq nr load util ts = \<lparr>r_nr_running = nr, r_h_nr_running = nr, r_avg = demo_lb_avg load util,
     r_capacity = 1024, r_capacity_orig = 1024, r_misfit_task_load = 0, r_rt_util = 0, r_dl_util = 0,
     r_irq_util = 0, r_thermal = 0, r_arch_capacity = 1024, r_idle_cpu = (nr = 0), r_ttwu_pending = False,
     r_clock_task = 1000000, r_tasks = ts, r_next = None, r_last = None, r_curr_cpus = [0, 1, 2],
     r_active_balance = False, r_push_cpu = 0\<rparr>"

definition demo_group :: "nat \<Rightarrow> sched_group" where
  "demo_group cpu = \<lparr>sg_span = [cpu], sg_weight = 1, sg_smt = False, sg_prefer = cpu, sg_mask = [cpu],
     sg_balance_cpu = cpu, sg_sgc = \<lparr>sgc_capacity = 1024, sgc_min = 1024, sgc_max = 1024,
     sgc_next_update = 0, sgc_imbalance = False\<rparr>\<rparr>"

definition demo_sd :: sched_domain where
  "demo_sd = \<lparr>sd_groups = [demo_group 0, demo_group 1, demo_group 2], sd_span = [0, 1, 2], sd_child = None,
     sd_parent = None, sd_numa = False, sd_share_pkg = True, sd_share_cpu = False, sd_asym_cap = False,
     sd_asym_pack = False, sd_span_weight = 3, sd_imbalance_pct = 117, sd_imb_numa_nr = 0, sd_failed = 0,
     sd_nice_tries = 1, sd_interval = 8, sd_min_interval = 8, sd_max_interval = 16, sd_busy_factor = 16,
     sd_last_balance = 0\<rparr>"

definition demo_lb_conf :: lb_conf where
  "demo_lb_conf = \<lparr>UTIL_EST = True, SIS_UTIL = True, CACHE_HOT_BUDDY = True, LB_MIN = False, PREEMPTION = False,
     migration_cost = 500000, nr_migrate = 32, max_balance_interval = 100, to_jiffies = (\<lambda>ms. ms)\<rparr>"

definition demo_lb_sys :: "(nat \<Rightarrow> lb_task list) \<Rightarrow> lb_sys" where
  "demo_lb_sys ts = \<lparr>s_rqs = (\<lambda>i. if i = 0 then demo_lb_rq 0 0 0 [] else if i = 1 then demo_lb_rq 3 3000 1024 (ts 1)
       else if i = 2 then demo_lb_rq 1 500 300 (ts 2) else demo_lb_rq 0 0 0 []),
     s_jiffies = 5000, s_overload = False, s_overutilized = False, s_max_capacity = 1024, s_perf_domains = False,
     s_active = [0, 1, 2], s_llc_size = (\<lambda>_. 3), s_llc_shared = (\<lambda>_. Some 0),
     s_idle_scan = (\<lambda>_. 0)\<rparr>"

definition demo_lb_env :: lb_env where
  "demo_lb_env = \<lparr>e_src_cpu = 0, e_dst_cpu = 0, e_dst_grpmask = [0], e_new_dst_cpu = 0, e_idle = CPU_IDLE,
     e_imbalance = 0, e_cpus = [0, 1, 2], ALL_PINNED = False, NEED_BREAK = False, DST_PINNED = False,
     SOME_PINNED = False, ACTIVE_LB = False, e_loop = 0, e_loop_break = 32, e_loop_max = 0, e_fbq = fbq_all,
     e_type = migrate_load, e_tasks = []\<rparr>"

lemmas demo_lb_defs = demo_lb_avg_def demo_lb_rq_def demo_group_def demo_sd_def demo_lb_conf_def demo_lb_sys_def
  demo_lb_env_def

lemmas balance_defs = update_sd_lb_stats_def visit_group_def update_group_capacity_def update_cpu_capacity_def
  update_sgc_def scale_rt_capacity_def scale_irq_capacity_def update_sg_lb_stats_def mask_and_def add_cpu_stats_def
  cpu_load_def cpu_util_cfs_def cpu_runnable_def cpu_overutilized_def fits_capacity_def sched_reduced_capacity_def
  check_cpu_capacity_def zero_stats_def init_sd_lb_stats_def group_classify_def group_is_overloaded_def
  group_has_capacity_def sg_imbalanced_def average_load_def update_sd_pick_busiest_def busier_of_type_def
  update_idle_cpu_scan_def idle_scan_value_def signed_min_def fbq_classify_group_def Let_def

lemma demo_stats: "\<exists>sys' sd' env' sds. update_sd_lb_stats demo_lb_conf (demo_lb_sys ts) demo_sd demo_lb_env init_sd_lb_stats =
   Some (sys', sd', env', sds) \<and> busiest_group sds = Some 1 \<and> gtype (busiest_stat sds) = group_overloaded"
  by (simp add: demo_lb_defs balance_defs group_order word_le_nat_alt word_less_nat_alt)

definition demo_sds :: "group_type \<Rightarrow> group_type \<Rightarrow> u64 \<Rightarrow> u64 \<Rightarrow> u64 \<Rightarrow> sd_lb_stats" where
  "demo_sds b l bl ll tot = init_sd_lb_stats\<lparr>busiest_group := Some 1, local_group := Some 0,
     total_load := tot, total_capacity := 3072,
     busiest_stat := zero_stats\<lparr>gtype := b, group_load := bl, group_capacity := 1024, avg_load := bl,
       group_weight := 4, sum_nr_running := 9, sum_h_nr_running := 9, idle_cpus := 2\<rparr>,
     local_stat := zero_stats\<lparr>gtype := l, group_load := ll, group_capacity := 1024, avg_load := ll,
       group_weight := 4, sum_nr_running := 3, sum_h_nr_running := 3, idle_cpus := 1\<rparr>\<rparr>"

lemmas demo_sds_defs = demo_sds_def demo_lb_defs init_sd_lb_stats_def zero_stats_def



theorem load_move_meets_average_witness:
  "\<exists>env'. calculate_imbalance demo_sd demo_lb_env
      ((demo_sds group_overloaded group_overloaded 8192 2048 12288)\<lparr>sds_avg_load := 4096\<rparr>) = Some env' \<and>
    e_type env' = migrate_load \<and> unat (e_imbalance env') \<le> 8192 \<and>
    (2048 + unat (e_imbalance env')) * 1024 div 1024 \<le> 4096 \<and>
    4096 \<le> (8192 - unat (e_imbalance env')) * 1024 div 1024"
proof -
  let ?s = "demo_sds group_overloaded group_overloaded 8192 2048 12288"
  have "worth_balancing (demo_lb_sys (\<lambda>_. [])) demo_sd demo_lb_env ?s = Some (Some (?s\<lparr>sds_avg_load := 4096\<rparr>))"
    by (simp add: demo_sds_defs worth_balancing_def overload_check_def spare_check_def average_of_def Let_def)
  then show ?thesis
    using load_move_meets_average [of ?s "demo_lb_sys (\<lambda>_. [])" demo_sd demo_lb_env "?s\<lparr>sds_avg_load := 4096\<rparr>" 4096]
    by (simp add: demo_sds_defs average_load_def average_of_def)
qed

theorem idle_difference_witness:
  "\<exists>env'. calculate_imbalance demo_sd demo_lb_env (demo_sds group_overloaded group_has_spare 9000 500 12000) = Some env' \<and>
    sint (e_imbalance env') = 2147483647"
  using idle_difference [of "demo_sds group_overloaded group_has_spare 9000 500 12000" demo_sd demo_lb_env]
  by (auto simp: demo_sds_defs)

theorem busiest_group_chosen_witness:
  "\<exists>sys' sd' env' sds s.
    update_sd_lb_stats demo_lb_conf (demo_lb_sys (\<lambda>_. [])) demo_sd demo_lb_env init_sd_lb_stats =
      Some (sys', sd', env', sds) \<and> stats_of demo_lb_conf sys' sd' demo_lb_env sds 2 = Some s \<and>
    (sum_h_nr_running s = 0 \<or> passed_over sys' sd' demo_lb_env sds 2 s \<or>
      (\<exists>b. busiest_group sds = Some b \<and> no_busier sd' (2, s) (b, busiest_stat sds)))"
proof -
  obtain sys' sd' env' sds where u: "update_sd_lb_stats demo_lb_conf (demo_lb_sys (\<lambda>_. [])) demo_sd demo_lb_env
      init_sd_lb_stats = Some (sys', sd', env', sds)" using demo_stats [of "\<lambda>_. []"] by blast
  have "\<forall>i. 0 < i \<and> i < length (sd_groups demo_sd) \<longrightarrow> e_dst_cpu demo_lb_env \<notin> set (sg_span (sd_groups demo_sd ! i)) \<and>
      length (sg_span (sd_groups demo_sd ! i)) < 2 ^ 32 - 1"
    by (auto simp: demo_lb_defs nth_Cons' less_Suc_eq)
  then show ?thesis
    using busiest_group_chosen [OF u] u by (force simp: demo_lb_defs)
qed

section \<open>Where the comments promise more\<close>

text \<open>A misfit group on a domain without \<open>SD_ASYM_CPUCAPACITY\<close> is selected and balanced whatever the
  local group: these cells of the matrix are "N/A, already filtered".\<close>

lemma reduced_capacity_forced:
  "update_sd_pick_busiest (demo_lb_sys (\<lambda>_. [])) demo_sd demo_lb_env
     (init_sd_lb_stats\<lparr>local_group := Some 0, local_stat := zero_stats\<lparr>gtype := group_fully_busy\<rparr>\<rparr>) (demo_group 1)
     (zero_stats\<lparr>gtype := group_misfit_task, misfit_load := 800, sum_h_nr_running := 1\<rparr>) = Some True"
  "\<not> s_perf_domains sys \<Longrightarrow> worth_balancing sys sd env (demo_sds group_misfit_task l x y z) =
     Some (Some (demo_sds group_misfit_task l x y z))"
  by (simp_all add: update_sd_pick_busiest_def worth_balancing_def demo_sds_defs group_order Let_def)

text \<open>A fully busy local group that is above the average of the domain: the difference to it wraps, and
  the group is asked to take what the busiest one has above the average.\<close>

lemma fully_busy_above_average:
  "calculate_imbalance sd env (demo_sds group_overloaded group_fully_busy 4000 3000 7500) =
    Some (env\<lparr>e_type := migrate_load, e_imbalance := 1500\<rparr>)"
  by (simp add: calculate_imbalance_def demo_sds_defs average_load_def average_of_def even_imbalance_def group_order Let_def)

text \<open>An average of the domain above that of the busiest group (the busiest group is the busiest of the
  overloaded ones only): the other difference wraps, and the busiest group is taken further
  below the average.\<close>

lemma busiest_below_average:
  "calculate_imbalance sd env ((demo_sds group_overloaded group_overloaded 4000 3000 15000)\<lparr>sds_avg_load := 5000\<rparr>) =
    Some (env\<lparr>e_type := migrate_load, e_imbalance := 2000\<rparr>)"
  by (simp add: calculate_imbalance_def demo_sds_defs even_imbalance_def group_order Let_def)

end
