(* ===== verification/Kernel_Migrate_Run.thy ===== *)
theory Kernel_Migrate_Run
  imports Kernel_Migrate Kernel_Balance_Run "HOL-Library.Multiset"
begin

text \<open>
  Correctness of the migration of tasks in \<open>Kernel_Migrate\<close>: what \<open>detach_tasks\<close> takes stays within the
  imbalance, no task is lost, copied or put on a CPU it may not use, and the interval between two
  attempts stays bounded. That the loops end is in \<open>Kernel_Migrate_Ends\<close>.
\<close>

section \<open>What a visit changes in the environment\<close>

definition same_job :: "lb_env \<Rightarrow> lb_env \<Rightarrow> bool" where
  "same_job a b = (e_src_cpu a = e_src_cpu b \<and> e_dst_cpu a = e_dst_cpu b \<and> e_dst_grpmask a = e_dst_grpmask b \<and>
     e_idle a = e_idle b \<and> e_cpus a = e_cpus b \<and> ACTIVE_LB a = ACTIVE_LB b \<and> e_loop_max a = e_loop_max b \<and>
     e_type a = e_type b)"

definition same_load :: "lb_env \<Rightarrow> lb_env \<Rightarrow> bool" where
  "same_load a b = (same_job a b \<and> e_imbalance a = e_imbalance b \<and> e_tasks a = e_tasks b)"

text \<open>\<open>LBF_DST_PINNED\<close> promises another CPU of the group to try, and is only set while there is
  something to move.\<close>

definition pins_ok :: "lb_env \<Rightarrow> bool" where
  "pins_ok env = (DST_PINNED env \<longrightarrow> e_new_dst_cpu env \<in> set (e_dst_grpmask env) \<and>
     e_new_dst_cpu env \<in> set (e_cpus env) \<and> e_new_dst_cpu env \<noteq> e_dst_cpu env \<and>
     (ALL_PINNED env \<longrightarrow> 0 < sint (e_imbalance env)))"

definition visited :: "lb_env \<Rightarrow> lb_env \<Rightarrow> bool" where
  "visited a b = (same_load a b \<and> (ALL_PINNED a \<longrightarrow> ALL_PINNED b) \<and>
     (0 < sint (e_imbalance b) \<and> pins_ok b \<longrightarrow> pins_ok a))"

lemma same_job_refl [simp]: "same_job a a" by (simp add: same_job_def)

lemma same_load_refl [simp]: "same_load a a" by (simp add: same_load_def)

lemma visited_refl [simp]: "visited a a" by (simp add: visited_def)

lemma same_job_trans: "same_job a b \<Longrightarrow> same_job b c \<Longrightarrow> same_job a c" by (simp add: same_job_def)

lemma visited_trans: "visited a b \<Longrightarrow> visited b c \<Longrightarrow> visited a c"
  by (auto simp: visited_def same_load_def same_job_def)

lemma visited_count [simp]:
  "visited (env\<lparr>e_loop := l\<rparr>) env"
  "visited (env\<lparr>e_loop := l, e_loop_break := b, NEED_BREAK := n\<rparr>) env"
  by (simp_all add: visited_def same_load_def same_job_def pins_ok_def)

lemma find_mask:
  "find P (mask_and a b) = Some x \<Longrightarrow> P x \<and> x \<in> set a \<and> x \<in> set b"
  by (auto simp: find_Some_iff mask_and_def dest!: nth_mem)

lemma can_migrate_visited:
  assumes "can_migrate_task conf sys sd p env = (ok, env')"
  shows "visited env' env \<and> e_loop env' = e_loop env \<and> e_loop_break env' = e_loop_break env \<and>
    NEED_BREAK env' = NEED_BREAK env \<and>
    (ok \<longrightarrow> e_dst_cpu env \<in> set (t_cpus p) \<and> \<not> t_on_cpu p \<and> \<not> ALL_PINNED env')"
proof (cases "e_dst_cpu env \<in> set (t_cpus p) \<or> t_per_cpu_kthread p")
  case True
  then show ?thesis using assms
    by (auto simp: can_migrate_task_def Let_def visited_def same_load_def same_job_def pins_ok_def split: if_splits)
next
  case False
  let ?f = "find (\<lambda>cpu. cpu \<in> set (t_cpus p)) (mask_and (e_dst_grpmask env) (e_cpus env))"
  show ?thesis
  proof (cases "e_idle env = CPU_NEWLY_IDLE \<or> DST_PINNED env \<or> ACTIVE_LB env \<or> ?f = None")
    case True
    then have e: "ok = False" "env' = env\<lparr>SOME_PINNED := True\<rparr>"
      using assms False by (auto simp: can_migrate_task_def Let_def split: if_splits)
    show ?thesis by (simp add: e visited_def same_load_def same_job_def pins_ok_def)
  next
    case none: False
    then obtain cpu where f: "?f = Some cpu" by auto
    then have e: "ok = False" "env' = env\<lparr>SOME_PINNED := True, DST_PINNED := True, e_new_dst_cpu := cpu\<rparr>"
      using assms False none by (simp_all add: can_migrate_task_def Let_def)
    have "cpu \<noteq> e_dst_cpu env" using find_mask [OF f] False by auto
    then show ?thesis using find_mask [OF f] by (simp add: e visited_def same_load_def same_job_def pins_ok_def)
  qed
qed

section \<open>One turn of the detach loop\<close>

definition skip_task :: "lb_env \<Rightarrow> lb_sys \<Rightarrow> lb_sys" where
  "skip_task env = on_rq (e_src_cpu env) (\<lambda>rq. rq\<lparr>r_tasks := to_head (r_tasks rq)\<rparr>)"

definition take_task :: "core_lib \<Rightarrow> lb_task \<Rightarrow> u64 \<Rightarrow> lb_env \<Rightarrow> lb_env" where
  "take_task lib p left env = env\<lparr>e_imbalance := left, e_tasks := set_task_cpu lib (e_dst_cpu env) p # e_tasks env\<rparr>"

text \<open>The last task is passed over, or it is taken.\<close>

inductive turn :: "lb_conf \<Rightarrow> core_lib \<Rightarrow> sched_domain \<Rightarrow> bal_state \<Rightarrow> bal_state \<Rightarrow> bool"
  for conf lib sd where
  skip: "r_tasks (src_rq sys env) \<noteq> [] \<Longrightarrow> 0 < sint (e_imbalance env) \<Longrightarrow> visited env' env \<Longrightarrow>
    turn conf lib sd (sys, env, d) (skip_task env sys, env', d)"
| take: "r_tasks (src_rq sys env) \<noteq> [] \<Longrightarrow> p = last (r_tasks (src_rq sys env)) \<Longrightarrow> visited env' env \<Longrightarrow>
    e_dst_cpu env \<in> set (t_cpus p) \<Longrightarrow> \<not> t_on_cpu p \<Longrightarrow> \<not> ALL_PINNED env' \<Longrightarrow>
    e_idle env \<noteq> CPU_NOT_IDLE \<longrightarrow> 1 < r_nr_running (src_rq sys env) \<Longrightarrow>
    0 < sint (e_imbalance env) \<Longrightarrow> take_share conf sys sd env' p = Some left \<Longrightarrow>
    turn conf lib sd (sys, env, d)
      (on_rq (e_src_cpu env) (deactivate_task lib p) sys, take_task lib p left env', d + 1)"
| stop: "0 < sint (e_imbalance env) \<Longrightarrow> visited env' env \<Longrightarrow> turn conf lib sd (sys, env, d) (sys, env', d)"

lemma detach_loop_body:
  defines "visit \<equiv> \<lambda>env :: lb_env. env\<lparr>e_loop := e_loop env + 1\<rparr>"
  assumes "r_tasks (src_rq sys env) \<noteq> []"
    and "\<not> (e_idle env \<noteq> CPU_NOT_IDLE \<and> r_nr_running (src_rq sys env) \<le> 1)"
    and "\<not> (e_loop (visit env) > e_loop_max env \<and> \<not> ALL_PINNED env)"
    and "\<not> e_loop (visit env) > e_loop_break env"
    and "can_migrate_task conf sys sd (last (r_tasks (src_rq sys env))) (visit env) = (ok, env')"
  shows "detach_loop conf lib sd (Suc n) (sys, env, d) =
    (if \<not> ok then detach_loop conf lib sd n (skip_task env sys, env', d)
     else case take_share conf sys sd env' (last (r_tasks (src_rq sys env))) of
         None \<Rightarrow> detach_loop conf lib sd n (skip_task env sys, env', d)
       | Some left \<Rightarrow> let env1 = take_task lib (last (r_tasks (src_rq sys env))) left env';
             sys1 = on_rq (e_src_cpu env) (deactivate_task lib (last (r_tasks (src_rq sys env)))) sys in
           if PREEMPTION conf \<and> e_idle env1 = CPU_NEWLY_IDLE then Some (sys1, env1, d + 1)
           else if sint (e_imbalance env1) \<le> 0 then Some (sys1, env1, d + 1)
           else detach_loop conf lib sd n (sys1, env1, d + 1))"
proof -
  let ?ts = "r_tasks (src_rq sys env)" and ?env = "env\<lparr>e_loop := e_loop env + 1\<rparr>"
  have src: "e_src_cpu env' = e_src_cpu env" "e_dst_cpu env' = e_dst_cpu env"
    using can_migrate_visited [OF assms(6)] by (simp_all add: visit_def visited_def same_load_def same_job_def)
  have g: "(?ts = []) = False" "(e_idle env \<noteq> CPU_NOT_IDLE \<and> r_nr_running (src_rq sys env) \<le> 1) = False"
      "(e_loop ?env > e_loop_max ?env \<and> \<not> ALL_PINNED ?env) = False" "(e_loop ?env > e_loop_break ?env) = False"
    using assms(2-5) by (simp_all add: visit_def)
  show ?thesis
    unfolding detach_loop.simps Let_def g if_False assms(6) [unfolded visit_def] prod.case
    by (cases ok) (auto simp: src skip_task_def take_task_def detach_task_def split: option.split)
qed

lemma detach_loop_turn:
  assumes "detach_loop conf lib sd (Suc n) (sys, env, d) = Some res" and "0 < sint (e_imbalance env)"
  shows "turn conf lib sd (sys, env, d) res \<or>
    (\<exists>sys1 env1 d1. turn conf lib sd (sys, env, d) (sys1, env1, d1) \<and> 0 < sint (e_imbalance env1) \<and>
      detach_loop conf lib sd n (sys1, env1, d1) = Some res)"
proof -
  let ?ts = "r_tasks (src_rq sys env)" and ?env = "env\<lparr>e_loop := e_loop env + 1\<rparr>"
  obtain ok env' where can: "can_migrate_task conf sys sd (last ?ts) ?env = (ok, env')"
    by (cases "can_migrate_task conf sys sd (last ?ts) ?env")
  note cm = can_migrate_visited [OF can]
  have vis: "visited env' env" using cm visited_trans visited_count(1) by blast
  have src: "e_src_cpu env' = e_src_cpu env" "e_dst_cpu env' = e_dst_cpu env" "e_imbalance env' = e_imbalance env"
    using vis by (simp_all add: visited_def same_load_def same_job_def)
  consider (stop) "?ts = [] \<or> e_idle env \<noteq> CPU_NOT_IDLE \<and> r_nr_running (src_rq sys env) \<le> 1"
    | (count) "e_loop ?env > e_loop_max env \<and> \<not> ALL_PINNED env \<or> e_loop ?env > e_loop_break env"
    | (go) "?ts \<noteq> []" "\<not> (e_idle env \<noteq> CPU_NOT_IDLE \<and> r_nr_running (src_rq sys env) \<le> 1)"
      "\<not> (e_loop ?env > e_loop_max env \<and> \<not> ALL_PINNED env)" "\<not> e_loop ?env > e_loop_break env"
    by blast
  then show ?thesis
  proof cases
    case stop
    then have "res = (sys, env, d)" using assms(1) by (auto simp: Let_def split: if_splits)
    then show ?thesis using assms(2) by (simp add: turn.stop)
  next
    case count
    have "turn conf lib sd (sys, env, d) res"
    proof (cases "?ts = [] \<or> e_idle env \<noteq> CPU_NOT_IDLE \<and> r_nr_running (src_rq sys env) \<le> 1")
      case True
      then have "res = (sys, env, d)" using assms(1) by (auto simp: Let_def split: if_splits)
      then show ?thesis using assms(2) by (simp add: turn.stop)
    next
      case False
      then have "res = (sys, ?env, d) \<or>
          res = (sys, ?env\<lparr>e_loop_break := e_loop_break env + 32, NEED_BREAK := True\<rparr>, d)"
        using assms(1) count by (auto simp: Let_def split: if_splits)
      then show ?thesis using assms(2) by (auto intro: turn.stop)
    qed
    then show ?thesis ..
  next
    case go
    note body = detach_loop_body [OF go can]
    have skip: "turn conf lib sd (sys, env, d) (skip_task env sys, env', d)" by (rule turn.skip [OF go(1) assms(2) vis])
    show ?thesis
    proof (cases "ok \<and> take_share conf sys sd env' (last ?ts) \<noteq> None")
      case False
      then have "detach_loop conf lib sd n (skip_task env sys, env', d) = Some res"
        using assms(1) unfolding body by (cases ok) simp_all
      then show ?thesis using skip src(3) assms(2) by auto
    next
      case True
      then obtain left where left: "take_share conf sys sd env' (last ?ts) = Some left" and ok: ok by auto
      let ?env1 = "take_task lib (last ?ts) left env'"
        and ?sys1 = "on_rq (e_src_cpu env) (deactivate_task lib (last ?ts)) sys"
      have t: "turn conf lib sd (sys, env, d) (?sys1, ?env1, d + 1)"
        using go cm ok vis assms(2) left by (intro turn.take) (auto simp: not_le)
      then show ?thesis using assms(1) unfolding body using ok left
        by (auto simp: Let_def not_le split: if_splits)
    qed
  qed
qed

lemma detach_loop_rule:
  assumes "detach_loop conf lib sd n (sys, env, d) = Some res" and "0 < sint (e_imbalance env)"
    and "P (sys, env, d)" and "\<And>st st'. turn conf lib sd st st' \<Longrightarrow> P st \<Longrightarrow> P st'"
  shows "P res"
  using assms(1-3)
proof (induction n arbitrary: sys env d)
  case (Suc n)
  show ?case
  proof (cases "turn conf lib sd (sys, env, d) res")
    case True
    then show ?thesis using assms(4) Suc.prems(3) by blast
  next
    case False
    then obtain sys1 env1 d1 where "turn conf lib sd (sys, env, d) (sys1, env1, d1)" "0 < sint (e_imbalance env1)"
        "detach_loop conf lib sd n (sys1, env1, d1) = Some res"
      using detach_loop_turn [OF Suc.prems(1,2)] by blast
    then show ?thesis using Suc.IH assms(4) Suc.prems(3) by blast
  qed
qed simp

section \<open>The tasks on the way\<close>

definition ids :: "lb_task list \<Rightarrow> nat multiset" where "ids ts = image_mset t_pid (mset ts)"

lemma ids_simps [simp]: "ids [] = {#}" "ids (p # ts) = add_mset (t_pid p) (ids ts)" "ids (ts @ us) = ids ts + ids us"
  by (simp_all add: ids_def)

lemma ids_remove1: "p \<in> set ts \<Longrightarrow> add_mset (t_pid p) (ids (remove1 p ts)) = ids ts"
  by (simp add: ids_def image_mset_Diff insert_DiffM)

lemma to_head_ids [simp]: "ids (to_head ts) = ids ts"
proof (cases "ts = []")
  case False
  have "ids (butlast ts) + ids [last ts] = ids ts"
    unfolding ids_simps(3) [symmetric] append_butlast_last_id [OF False] ..
  then show ?thesis using False by (simp add: to_head_def)
qed (simp add: to_head_def)

lemma to_head_set [simp]: "set (to_head ts) = set ts"
proof (cases "ts = []")
  case False
  have "set (butlast ts) \<union> set [last ts] = set ts"
    unfolding set_append [symmetric] append_butlast_last_id [OF False] ..
  then show ?thesis using False by (simp add: to_head_def)
qed (simp add: to_head_def)

lemma size_ids [simp]: "size (ids ts) = length ts" by (simp add: ids_def)

lemma core_simps:
  assumes "core_ok lib"
  shows "r_tasks (deactivate_task lib p rq) = remove1 p (r_tasks rq)"
    and "r_nr_running (deactivate_task lib p rq) = r_nr_running rq - 1"
    and "same_capacity (deactivate_task lib p rq) rq"
    and "r_tasks (activate_task lib p rq) = p # r_tasks rq"
    and "r_nr_running (activate_task lib p rq) = r_nr_running rq + 1"
    and "same_capacity (activate_task lib p rq) rq"
    and "t_pid (set_task_cpu lib cpu p) = t_pid p" and "t_cpus (set_task_cpu lib cpu p) = t_cpus p"
    and "task_h_load (set_task_cpu lib cpu p) = task_h_load p"
    and "task_util_est (t_se (set_task_cpu lib cpu p)) = task_util_est (t_se p)"
    and "r_tasks (update_rq_clock lib rq) = r_tasks rq" and "r_nr_running (update_rq_clock lib rq) = r_nr_running rq"
    and "same_capacity (update_rq_clock lib rq) rq"
    and "r_tasks (check_preempt_curr lib p rq) = r_tasks rq"
    and "r_nr_running (check_preempt_curr lib p rq) = r_nr_running rq"
    and "same_capacity (check_preempt_curr lib p rq) rq"
  using assms by (simp_all add: core_ok_def)

lemma same_capacity_refl [simp]: "same_capacity a a" by (simp add: same_capacity_def)

lemma same_capacity_trans: "same_capacity a b \<Longrightarrow> same_capacity b c \<Longrightarrow> same_capacity a c"
  by (simp add: same_capacity_def)

definition same_machine :: "lb_sys \<Rightarrow> lb_sys \<Rightarrow> bool" where "same_machine a b = (a\<lparr>s_rqs := s_rqs b\<rparr> = b)"

lemma same_machine_refl [simp]: "same_machine a a" by (simp add: same_machine_def)

lemma same_machine_on_rq [simp]: "same_machine (on_rq i f a) b = same_machine a b"
  by (simp add: same_machine_def on_rq_def)

lemma on_rq_same [simp]: "s_rqs (on_rq i f sys) i = f (s_rqs sys i)" by (simp add: on_rq_def)

lemma on_rq_other [simp]: "j \<noteq> i \<Longrightarrow> s_rqs (on_rq i f sys) j = s_rqs sys j" by (simp add: on_rq_def)

text \<open>What holds while \<open>detach_tasks\<close> works on the runqueue of \<open>env0\<close>.\<close>

definition job_inv :: "lb_sys \<Rightarrow> lb_env \<Rightarrow> bal_state \<Rightarrow> bool" where
  "job_inv sys0 env0 st = (case st of (sys, env, d) \<Rightarrow>
     let rq0 = src_rq sys0 env0; rq = s_rqs sys (e_src_cpu env0) in
     same_job env env0 \<and> same_machine sys sys0 \<and> (\<forall>i. i \<noteq> e_src_cpu env0 \<longrightarrow> s_rqs sys i = s_rqs sys0 i) \<and> same_capacity rq rq0 \<and>
     d = length (e_tasks env) \<and> ids (r_tasks rq) + ids (e_tasks env) = ids (r_tasks rq0) \<and>
     set (r_tasks rq) \<subseteq> set (r_tasks rq0) \<and> r_nr_running rq = r_nr_running rq0 - of_nat d \<and>
     (\<forall>p\<in>set (e_tasks env). e_dst_cpu env0 \<in> set (t_cpus p)) \<and>
     (ALL_PINNED env \<longrightarrow> ALL_PINNED env0 \<and> d = 0) \<and> pins_ok env)"

lemma job_inv_turn:
  assumes "core_ok lib" and "turn conf lib sd st st'" and "job_inv sys0 env0 st"
  shows "job_inv sys0 env0 st'"
  using assms(2)
proof cases
  case (skip sys env env' d)
  have src: "e_src_cpu env = e_src_cpu env0" using assms(3) skip by (simp add: job_inv_def Let_def same_job_def)
  show ?thesis using assms(3) skip
    by (auto simp: job_inv_def Let_def skip_task_def src visited_def same_load_def same_capacity_def
        intro: same_job_trans)
next
  case (take sys env p env' left d)
  have src: "e_src_cpu env = e_src_cpu env0" "e_dst_cpu env = e_dst_cpu env0" "same_job env env0"
    using assms(3) take by (simp_all add: job_inv_def Let_def same_job_def)
  have same: "e_dst_cpu env' = e_dst_cpu env" "e_tasks env' = e_tasks env" "same_job env' env"
    using take by (simp_all add: visited_def same_load_def same_job_def)
  have job: "same_job (take_task lib p left env') env0"
    using same_job_trans [OF same(3) src(3)] by (simp add: same_job_def take_task_def)
  have pins: "pins_ok (take_task lib p left env')"
    using assms(3) take by (simp add: job_inv_def Let_def visited_def pins_ok_def take_task_def)
  let ?rq = "s_rqs sys (e_src_cpu env0)"
  have p: "p \<in> set (r_tasks ?rq)" using take(3,4) src by simp
  have m: "ids (remove1 p (r_tasks ?rq)) + add_mset (t_pid p) (ids (e_tasks env)) = ids (r_tasks ?rq) + ids (e_tasks env)"
    unfolding ids_remove1 [OF p, symmetric] by simp
  have sub: "set (remove1 p (r_tasks ?rq)) \<subseteq> set (r_tasks ?rq)" by (rule set_remove1_subset)
  have cap: "same_capacity (deactivate_task lib p ?rq) (src_rq sys0 env0)"
    using assms(3) take(1) same_capacity_trans [OF core_simps(3) [OF assms(1)]]
    by (simp add: job_inv_def Let_def)
  show ?thesis using assms(3) take(1,2,6,8) job pins m sub cap
    by (auto simp: job_inv_def Let_def src same core_simps [OF assms(1)] take_task_def)
next
  case (stop env' env sys d)
  then show ?thesis using assms(3)
    by (auto simp: job_inv_def Let_def visited_def same_load_def intro: same_job_trans)
qed

text \<open>How the imbalance is spent on the tasks taken so far, by the kind of migration. With failed
  attempts behind it, a load may exceed what is left (\<open>shr_bound\<close>).\<close>

definition budget :: "sched_domain \<Rightarrow> lb_sys \<Rightarrow> lb_env \<Rightarrow> bal_state \<Rightarrow> bool" where
  "budget sd sys0 env0 st = (case st of (sys, env, d) \<Rightarrow>
     case e_type env0 of
       migrate_load \<Rightarrow> sd_failed sd = 0 \<longrightarrow>
         (\<Sum>p\<leftarrow>e_tasks env. unat (max (task_h_load p) 1)) + unat (e_imbalance env) = unat (e_imbalance env0)
     | migrate_util \<Rightarrow>
         (\<Sum>p\<leftarrow>e_tasks env. unat (task_util_est (t_se p))) + unat (e_imbalance env) = unat (e_imbalance env0)
     | migrate_task \<Rightarrow> length (e_tasks env) + unat (e_imbalance env) = unat (e_imbalance env0)
     | migrate_misfit \<Rightarrow> e_tasks env = [] \<or> e_imbalance env = 0 \<and> length (e_tasks env) = 1 \<and>
         (\<forall>p\<in>set (e_tasks env). \<not> task_fits_capacity p (capacity_of sys0 (e_src_cpu env0))))"

lemma unat_split: "(a :: u64) \<le> b \<Longrightarrow> unat a + unat (b - a) = unat b"
  by (simp add: unat_sub word_le_nat_alt)

lemma shr_bound_0: "shr_bound v 0 = v" by (simp add: shr_bound_def)

lemma budget_visited:
  assumes "visited env' env" and "budget sd sys0 env0 (sys, env, d)"
  shows "budget sd sys0 env0 (sys', env', d')"
proof -
  have e: "e_tasks env' = e_tasks env" "e_imbalance env' = e_imbalance env"
    using assms(1) by (simp_all add: visited_def same_load_def)
  show ?thesis using assms(2) unfolding budget_def prod.case e .
qed

lemma budget_turn:
  assumes "core_ok lib" and "turn conf lib sd st st'" and "job_inv sys0 env0 st" and "budget sd sys0 env0 st"
  shows "budget sd sys0 env0 st'"
  using assms(2)
proof cases
  case (skip sys env env' d)
  then show ?thesis using assms(4) budget_visited by blast
next
  case (stop env' env sys d)
  then show ?thesis using assms(4) budget_visited by blast
next
  case (take sys env p env' left d)
  have same: "e_dst_cpu env' = e_dst_cpu env" "e_tasks env' = e_tasks env" "e_imbalance env' = e_imbalance env"
      "e_type env' = e_type env0" "e_src_cpu env' = e_src_cpu env0"
    using take assms(3) by (simp_all add: visited_def same_load_def same_job_def job_inv_def Let_def)
  have pos: "1 \<le> e_imbalance env" using take(10) by (auto simp: word_le_nat_alt Suc_le_eq unat_gt_0)
  have cap: "capacity_of sys (e_src_cpu env0) = capacity_of sys0 (e_src_cpu env0)"
    using assms(3) take(1) by (simp add: job_inv_def Let_def same_capacity_def capacity_of_def)
  show ?thesis
  proof (cases "e_type env0")
    case migrate_load
    show ?thesis
    proof (cases "sd_failed sd = 0")
      case True
      let ?load = "max (task_h_load p) 1"
      have "?load \<le> e_imbalance env" and left: "left = e_imbalance env - ?load"
        using take(11) migrate_load True
        by (auto simp: take_share_def same shr_bound_0 Let_def not_less split: if_splits)
      then have "unat ?load + unat left = unat (e_imbalance env)" by (simp only: unat_split left)
      then show ?thesis using assms(4) migrate_load True take(1,2)
        by (simp add: budget_def take_task_def same core_simps [OF assms(1)])
    qed (simp add: budget_def take migrate_load)
  next
    case migrate_util
    let ?util = "task_util_est (t_se p)"
    have "?util \<le> e_imbalance env" and left: "left = e_imbalance env - ?util"
      using take(11) migrate_util by (auto simp: take_share_def same Let_def not_less split: if_splits)
    then have "unat ?util + unat left = unat (e_imbalance env)" by (simp only: unat_split left)
    then show ?thesis using assms(4) migrate_util take(1,2)
      by (simp add: budget_def take_task_def same core_simps [OF assms(1)])
  next
    case migrate_task
    have "left = e_imbalance env - 1" using take(11) migrate_task by (simp add: take_share_def same)
    then have "1 + unat left = unat (e_imbalance env)" using unat_split [OF pos] by simp
    then show ?thesis using assms(4) migrate_task take(1,2) by (simp add: budget_def take_task_def same)
  next
    case migrate_misfit
    have "left = 0" "\<not> task_fits_capacity p (capacity_of sys0 (e_src_cpu env0))"
      using take(11) migrate_misfit by (auto simp: take_share_def same cap split: if_splits)
    moreover have "e_tasks env = []" using assms(4) migrate_misfit take(1,10) by (auto simp: budget_def)
    ultimately show ?thesis using migrate_misfit take(2)
      by (simp add: budget_def take_task_def same task_fits_capacity_def core_simps [OF assms(1)])
  qed
qed

lemma detach_tasks_job:
  assumes "core_ok lib" and "detach_tasks conf lib k sd sys env = Some (sys', env', n)"
    and "e_tasks env = []" and "pins_ok env"
  shows "job_inv sys env (sys', env', n) \<and> budget sd sys env (sys', env', n)"
proof -
  have start: "job_inv sys env (sys, env, 0) \<and> budget sd sys env (sys, env, 0)"
    using assms(3,4) by (simp add: job_inv_def budget_def Let_def split: migration_type.split)
  have still: "job_inv sys env (sys, env\<lparr>ALL_PINNED := False\<rparr>, 0) \<and>
      budget sd sys env (sys, env\<lparr>ALL_PINNED := False\<rparr>, 0)"
    using assms(3,4) by (simp add: job_inv_def budget_def same_job_def pins_ok_def Let_def split: migration_type.split)
  show ?thesis
  proof (cases "r_nr_running (src_rq sys env) \<le> 1 \<or> sint (e_imbalance env) \<le> 0")
    case True
    then show ?thesis using assms(2) start still by (auto simp: detach_tasks_def split: if_splits)
  next
    case False
    then have l: "detach_loop conf lib sd k (sys, env, 0) = Some (sys', env', n)"
      using assms(2) by (simp add: detach_tasks_def)
    have "job_inv sys env st' \<and> budget sd sys env st'"
      if "turn conf lib sd st st'" "job_inv sys env st \<and> budget sd sys env st" for st st'
      using that job_inv_turn [OF assms(1)] budget_turn [OF assms(1)] by blast
    then show ?thesis
      using False start
      by (intro detach_loop_rule [OF l, where P = "\<lambda>st. job_inv sys env st \<and> budget sd sys env st"]) auto
  qed
qed

text \<open>An idle CPU leaves the busiest one something to run.\<close>

definition leaves_one :: "lb_env \<Rightarrow> bal_state \<Rightarrow> bool" where
  "leaves_one env0 st = (case st of (sys, env, d) \<Rightarrow>
     e_idle env0 \<noteq> CPU_NOT_IDLE \<longrightarrow> 0 < r_nr_running (s_rqs sys (e_src_cpu env0)))"

lemma leaves_one_turn:
  assumes "core_ok lib" and "turn conf lib sd st st'" and "job_inv sys0 env0 st" and "leaves_one env0 st"
  shows "leaves_one env0 st'"
  using assms(2)
proof cases
  case (take sys env p env' left d)
  have src: "e_src_cpu env = e_src_cpu env0" "e_idle env = e_idle env0"
    using assms(3) take by (simp_all add: job_inv_def Let_def same_job_def)
  have "0 < x - 1" if "1 < x" for x :: u32
  proof -
    have "x - 1 \<noteq> 0" using that by auto
    then show ?thesis by (simp add: word_gt_0)
  qed
  then show ?thesis using take(2,9) by (simp add: leaves_one_def src core_simps [OF assms(1)])
next
  case (skip sys env env' d)
  then show ?thesis using assms(3,4) by (simp add: leaves_one_def job_inv_def Let_def skip_task_def same_job_def)
next
  case (stop env' env sys d)
  then show ?thesis using assms(4) by (simp add: leaves_one_def)
qed

lemma detach_tasks_leaves_one:
  assumes "core_ok lib" and "detach_tasks conf lib k sd sys env = Some (sys', env', n)"
    and "e_tasks env = []" and "pins_ok env" and "0 < r_nr_running (src_rq sys env)"
  shows "leaves_one env (sys', env', n)"
proof (cases "r_nr_running (src_rq sys env) \<le> 1 \<or> sint (e_imbalance env) \<le> 0")
  case True
  then show ?thesis using assms(2,5) by (auto simp: detach_tasks_def leaves_one_def split: if_splits)
next
  case False
  then have l: "detach_loop conf lib sd k (sys, env, 0) = Some (sys', env', n)"
    using assms(2) by (simp add: detach_tasks_def)
  have start: "job_inv sys env (sys, env, 0) \<and> leaves_one env (sys, env, 0)"
    using assms(3,4,5) by (simp add: job_inv_def leaves_one_def Let_def)
  have "job_inv sys env st' \<and> leaves_one env st'"
    if "turn conf lib sd st st'" "job_inv sys env st \<and> leaves_one env st" for st st'
    using that job_inv_turn [OF assms(1)] leaves_one_turn [OF assms(1)] by blast
  then have "job_inv sys env (sys', env', n) \<and> leaves_one env (sys', env', n)"
    using False start
    by (intro detach_loop_rule [OF l, where P = "\<lambda>st. job_inv sys env st \<and> leaves_one env st"]) auto
  then show ?thesis ..
qed

text \<open>
  C15. \<open>detach_tasks\<close> takes at most what was asked for: their load (of a domain without failed
  attempts), their utilisation or their number stays within the imbalance, and a misfit migration
  takes one task that does not fit. Every task taken may run on the destination, the others stay
  where they were, none is lost or copied, and an idle CPU leaves the source one to run.
\<close>

theorem detach_within_imbalance:
  assumes "core_ok lib" and "detach_tasks conf lib k sd sys env = Some (sys', env', n)"
    and "e_tasks env = []" and "\<not> DST_PINNED env"
  shows "n = length (e_tasks env') \<and>
    ids (r_tasks (src_rq sys' env)) + ids (e_tasks env') = ids (r_tasks (src_rq sys env)) \<and>
    (\<forall>i. i \<noteq> e_src_cpu env \<longrightarrow> s_rqs sys' i = s_rqs sys i) \<and>
    (\<forall>p\<in>set (e_tasks env'). e_dst_cpu env \<in> set (t_cpus p)) \<and>
    (case e_type env of
       migrate_load \<Rightarrow> sd_failed sd = 0 \<longrightarrow>
         (\<Sum>p\<leftarrow>e_tasks env'. unat (max (task_h_load p) 1)) \<le> unat (e_imbalance env)
     | migrate_util \<Rightarrow> (\<Sum>p\<leftarrow>e_tasks env'. unat (task_util_est (t_se p))) \<le> unat (e_imbalance env)
     | migrate_task \<Rightarrow> n \<le> unat (e_imbalance env)
     | migrate_misfit \<Rightarrow> n \<le> 1 \<and>
         (\<forall>p\<in>set (e_tasks env'). \<not> task_fits_capacity p (capacity_of sys (e_src_cpu env)))) \<and>
    (e_idle env \<noteq> CPU_NOT_IDLE \<and> 0 < r_nr_running (src_rq sys env) \<longrightarrow> 0 < r_nr_running (src_rq sys' env))"
proof -
  have pins: "pins_ok env" using assms(4) by (simp add: pins_ok_def)
  have j: "job_inv sys env (sys', env', n)" and b: "budget sd sys env (sys', env', n)"
    using detach_tasks_job [OF assms(1-3) pins] by simp_all
  have one: "e_idle env \<noteq> CPU_NOT_IDLE \<and> 0 < r_nr_running (src_rq sys env) \<longrightarrow> 0 < r_nr_running (src_rq sys' env)"
    using detach_tasks_leaves_one [OF assms(1-3) pins] by (auto simp: leaves_one_def)
  have n: "n = length (e_tasks env')" using j by (simp add: job_inv_def Let_def)
  have "case e_type env of
       migrate_load \<Rightarrow> sd_failed sd = 0 \<longrightarrow>
         (\<Sum>p\<leftarrow>e_tasks env'. unat (max (task_h_load p) 1)) \<le> unat (e_imbalance env)
     | migrate_util \<Rightarrow> (\<Sum>p\<leftarrow>e_tasks env'. unat (task_util_est (t_se p))) \<le> unat (e_imbalance env)
     | migrate_task \<Rightarrow> n \<le> unat (e_imbalance env)
     | migrate_misfit \<Rightarrow> n \<le> 1 \<and>
         (\<forall>p\<in>set (e_tasks env'). \<not> task_fits_capacity p (capacity_of sys (e_src_cpu env)))"
    using b n by (cases "e_type env") (auto simp: budget_def)
  then show ?thesis using j one by (simp add: job_inv_def Let_def)
qed

section \<open>The machine as a whole\<close>

text \<open>The tasks on the CPUs in \<open>C\<close>, and that every task is on a CPU it may use.\<close>

definition pool :: "nat set \<Rightarrow> lb_sys \<Rightarrow> nat multiset" where
  "pool C sys = (\<Sum>i\<in>C. ids (r_tasks (s_rqs sys i)))"

definition homed :: "lb_sys \<Rightarrow> bool" where
  "homed sys = (\<forall>i. \<forall>p\<in>set (r_tasks (s_rqs sys i)). i \<in> set (t_cpus p))"

definition same_counts :: "lb_sys \<Rightarrow> lb_sys \<Rightarrow> bool" where
  "same_counts a b = (\<forall>i. r_nr_running (s_rqs a i) = r_nr_running (s_rqs b i) \<and>
     length (r_tasks (s_rqs a i)) = length (r_tasks (s_rqs b i)))"

lemma pool_change:
  assumes "finite C" and "i \<in> C" and "\<forall>j. j \<noteq> i \<longrightarrow> r_tasks (s_rqs sys' j) = r_tasks (s_rqs sys j)"
  shows "pool C sys' + ids (r_tasks (s_rqs sys i)) = pool C sys + ids (r_tasks (s_rqs sys' i))"
proof -
  have "(\<Sum>j\<in>C - {i}. ids (r_tasks (s_rqs sys' j))) = (\<Sum>j\<in>C - {i}. ids (r_tasks (s_rqs sys j)))"
    using assms(3) by (intro sum.cong) auto
  then show ?thesis using assms(1,2) by (simp add: pool_def sum.remove [of C i])
qed

lemma attach_fold:
  assumes "core_ok lib"
  shows "r_tasks (fold (attach_task lib) ts rq) = rev ts @ r_tasks rq \<and>
    r_nr_running (fold (attach_task lib) ts rq) = r_nr_running rq + of_nat (length ts) \<and>
    same_capacity (fold (attach_task lib) ts rq) rq"
proof (induction ts arbitrary: rq)
  case (Cons p ts)
  have "same_capacity (attach_task lib p rq) rq"
    using same_capacity_trans core_simps(6,16) [OF assms] unfolding attach_task_def by blast
  then show ?case using Cons.IH [of "attach_task lib p rq"] same_capacity_trans
    by (auto simp: attach_task_def core_simps [OF assms])
qed simp

text \<open>One pass, or several, over the source runqueue.\<close>

definition passed :: "nat set \<Rightarrow> lb_sys \<times> lb_env \<Rightarrow> lb_sys \<times> lb_env \<Rightarrow> bool" where
  "passed C a b = (case (a, b) of ((sys, env), (sys', env')) \<Rightarrow>
     pool C sys' = pool C sys \<and> (homed sys \<longrightarrow> homed sys') \<and> same_machine sys' sys \<and>
     (\<forall>i. same_capacity (s_rqs sys' i) (s_rqs sys i)) \<and>
     e_src_cpu env' = e_src_cpu env \<and> e_dst_grpmask env' = e_dst_grpmask env \<and> e_idle env' = e_idle env \<and>
     (e_dst_cpu env' = e_dst_cpu env \<or> e_dst_cpu env' \<in> set (e_dst_grpmask env)) \<and>
     set (e_cpus env') \<subseteq> set (e_cpus env) \<and> length (e_cpus env') \<le> length (e_cpus env) \<and>
     (e_dst_cpu env \<in> set (e_cpus env) \<longrightarrow> e_dst_cpu env' \<in> set (e_cpus env')) \<and>
     (ALL_PINNED env' \<longrightarrow> ALL_PINNED env \<and> same_counts sys' sys))"

lemma passed_refl [simp]: "passed C a a" by (auto simp: passed_def same_counts_def)

lemma same_machine_trans: "same_machine a b \<Longrightarrow> same_machine b c \<Longrightarrow> same_machine a c"
proof -
  assume "same_machine a b" and b: "same_machine b c"
  then have "b = a\<lparr>s_rqs := s_rqs b\<rparr>" by (simp add: same_machine_def)
  then have "b\<lparr>s_rqs := s_rqs c\<rparr> = a\<lparr>s_rqs := s_rqs c\<rparr>" by (metis lb_sys.surjective lb_sys.update_convs(1))
  then show ?thesis using b by (simp add: same_machine_def)
qed

lemma same_counts_trans: "same_counts a b \<Longrightarrow> same_counts b c \<Longrightarrow> same_counts a c"
  by (simp add: same_counts_def)

lemma passed_trans:
  assumes "passed C (s1, e1) (s2, e2)" and "passed C (s2, e2) (s3, e3)"
  shows "passed C (s1, e1) (s3, e3)"
proof -
  have "\<forall>i. same_capacity (s_rqs s3 i) (s_rqs s1 i)"
    using assms same_capacity_trans unfolding passed_def prod.case by blast
  moreover have "same_machine s3 s1" using assms same_machine_trans unfolding passed_def prod.case by blast
  moreover have "ALL_PINNED e3 \<longrightarrow> ALL_PINNED e1 \<and> same_counts s3 s1"
    using assms same_counts_trans unfolding passed_def prod.case by blast
  moreover have "e_dst_cpu e3 = e_dst_cpu e1 \<or> e_dst_cpu e3 \<in> set (e_dst_grpmask e1)"
    using assms unfolding passed_def prod.case by metis
  moreover have "set (e_cpus e3) \<subseteq> set (e_cpus e1)" "length (e_cpus e3) \<le> length (e_cpus e1)"
    using assms unfolding passed_def prod.case by (blast, linarith)
  ultimately show ?thesis using assms unfolding passed_def prod.case by simp
qed

lemma ids_rev [simp]: "ids (rev ts) = ids ts" by (simp add: ids_def)

lemma detached_passed:
  assumes "core_ok lib" and "finite C" and "e_src_cpu env \<in> C" and "job_inv sys0 env (sys1, env1, n)"
    and "sys0 = on_rq (e_src_cpu env) (update_rq_clock lib) sys"
  shows "pool C sys1 + ids (e_tasks env1) = pool C sys \<and> (homed sys \<longrightarrow> homed sys1) \<and> same_machine sys1 sys \<and>
    (\<forall>i. same_capacity (s_rqs sys1 i) (s_rqs sys i)) \<and> (n = 0 \<longrightarrow> same_counts sys1 sys)"
proof -
  let ?i = "e_src_cpu env"
  have j: "ids (r_tasks (s_rqs sys1 ?i)) + ids (e_tasks env1) = ids (r_tasks (s_rqs sys ?i))"
      "set (r_tasks (s_rqs sys1 ?i)) \<subseteq> set (r_tasks (s_rqs sys ?i))"
      "\<forall>i. i \<noteq> ?i \<longrightarrow> s_rqs sys1 i = s_rqs sys i" "same_machine sys1 sys0"
      "r_nr_running (s_rqs sys1 ?i) = r_nr_running (s_rqs sys ?i) - of_nat n" "n = length (e_tasks env1)"
      "same_capacity (s_rqs sys1 ?i) (s_rqs sys0 ?i)"
    using assms(4) by (simp_all add: job_inv_def Let_def assms(5) core_simps [OF assms(1)])
  have "pool C sys1 + ids (r_tasks (s_rqs sys ?i)) = pool C sys + ids (r_tasks (s_rqs sys1 ?i))"
    using j(3) by (intro pool_change [OF assms(2,3)]) simp
  then have "pool C sys1 + ids (e_tasks env1) + ids (r_tasks (s_rqs sys1 ?i)) =
      pool C sys + ids (r_tasks (s_rqs sys1 ?i))"
    unfolding j(1) [symmetric] by (simp add: ac_simps)
  then have pool: "pool C sys1 + ids (e_tasks env1) = pool C sys" by simp
  have cap: "same_capacity (s_rqs sys1 i) (s_rqs sys i)" for i
  proof (cases "i = ?i")
    case True
    have "same_capacity (s_rqs sys0 ?i) (s_rqs sys ?i)" using core_simps(13) [OF assms(1)] by (simp add: assms(5))
    then show ?thesis using True j(7) same_capacity_trans by blast
  qed (use j(3) in simp)
  have len: "length (r_tasks (s_rqs sys1 ?i)) + n = length (r_tasks (s_rqs sys ?i))"
    using arg_cong [OF j(1), of size] j(6) by simp
  have counts: "same_counts sys1 sys" if "n = 0"
    unfolding same_counts_def
  proof (intro allI)
    fix i
    show "r_nr_running (s_rqs sys1 i) = r_nr_running (s_rqs sys i) \<and>
        length (r_tasks (s_rqs sys1 i)) = length (r_tasks (s_rqs sys i))"
      using j(3,5) len that by (cases "i = ?i") simp_all
  qed
  have home: "homed sys1" if "homed sys"
    unfolding homed_def
  proof (intro allI ballI)
    fix i p
    assume "p \<in> set (r_tasks (s_rqs sys1 i))"
    then have "p \<in> set (r_tasks (s_rqs sys i))" using j(2,3) by (cases "i = ?i") auto
    then show "i \<in> set (t_cpus p)" using that by (simp add: homed_def)
  qed
  have "same_machine sys0 sys" by (simp add: assms(5))
  then show ?thesis using pool cap counts home same_machine_trans [OF j(4)] by simp
qed

lemma attached_passed:
  assumes "core_ok lib" and "finite C" and "e_dst_cpu env1 \<in> C" and "attach_tasks lib (sys1, env1) = (sys2, env2)"
    and "\<forall>p\<in>set (e_tasks env1). e_dst_cpu env1 \<in> set (t_cpus p)"
  shows "pool C sys2 = pool C sys1 + ids (e_tasks env1) \<and> (homed sys1 \<longrightarrow> homed sys2) \<and> same_machine sys2 sys1 \<and>
    (\<forall>i. same_capacity (s_rqs sys2 i) (s_rqs sys1 i)) \<and> env2 = env1\<lparr>e_tasks := []\<rparr>"
proof -
  let ?i = "e_dst_cpu env1"
  note fold = attach_fold [OF assms(1)]
  have s2: "sys2 = on_rq ?i (\<lambda>rq. fold (attach_task lib) (e_tasks env1) (update_rq_clock lib rq)) sys1"
      and e2: "env2 = env1\<lparr>e_tasks := []\<rparr>"
    using assms(4) by (simp_all add: attach_tasks_def)
  have ts: "r_tasks (s_rqs sys2 ?i) = rev (e_tasks env1) @ r_tasks (s_rqs sys1 ?i)"
    using fold by (simp add: s2 core_simps [OF assms(1)])
  have other: "j \<noteq> ?i \<longrightarrow> s_rqs sys2 j = s_rqs sys1 j" for j by (simp add: s2)
  have "pool C sys2 + ids (r_tasks (s_rqs sys1 ?i)) = pool C sys1 + ids (r_tasks (s_rqs sys2 ?i))"
    using other by (intro pool_change [OF assms(2,3)]) simp
  then have pool: "pool C sys2 = pool C sys1 + ids (e_tasks env1)" by (simp add: ts)
  have cap: "same_capacity (s_rqs sys2 i) (s_rqs sys1 i)" for i
  proof (cases "i = ?i")
    case True
    then show ?thesis
      using fold [of "e_tasks env1" "update_rq_clock lib (s_rqs sys1 ?i)"] same_capacity_trans
        core_simps(13) [OF assms(1), of "s_rqs sys1 ?i"] unfolding s2 by auto
  qed (simp add: other)
  have home: "homed sys2" if "homed sys1"
    unfolding homed_def
  proof (intro allI ballI)
    fix i p
    assume "p \<in> set (r_tasks (s_rqs sys2 i))"
    then show "i \<in> set (t_cpus p)" using that assms(5) ts other by (cases "i = ?i") (auto simp: homed_def)
  qed
  show ?thesis using pool cap home e2 by (simp add: s2)
qed

lemma mask_clear_simps [simp]:
  "set (mask_clear i a) = set a - {i}" "length (mask_clear i a) \<le> length a"
  "i \<in> set a \<Longrightarrow> length (mask_clear i a) < length a"
  by (auto simp: mask_clear_def intro: length_filter_less)

lemma balance_once_passed:
  assumes "core_ok lib" and "balance_once conf lib k sd (sys, env, m) = Some (again, sys', env', m')"
    and "e_tasks env = []" and "pins_ok env" and "finite C" and "e_src_cpu env \<in> C" and "e_dst_cpu env \<in> C"
  shows "passed C (sys, env) (sys', env') \<and> e_tasks env' = [] \<and> pins_ok env' \<and>
    (\<not> again \<and> ALL_PINNED env' \<longrightarrow> \<not> DST_PINNED env')"
proof -
  define sys0 where "sys0 = on_rq (e_src_cpu env) (update_rq_clock lib) sys"
  obtain sys1 env1 n where d: "detach_tasks conf lib k sd sys0 env = Some (sys1, env1, n)"
    using assms(2) unfolding balance_once_def prod.case sys0_def
    by (cases "detach_tasks conf lib k sd (on_rq (e_src_cpu env) (update_rq_clock lib) sys) env") auto
  define atd where "atd = (if n \<noteq> 0 then attach_tasks lib (sys1, env1) else (sys1, env1))"
  obtain sys2 env2 where a: "atd = (sys2, env2)" by (cases atd)
  let ?env = "env2\<lparr>NEED_BREAK := False\<rparr>"
  have r: "sys' = sys2 \<and> (env' = ?env \<and> (again \<or> \<not> (DST_PINNED env2 \<and> 0 < sint (e_imbalance env2))) \<or>
      DST_PINNED env2 \<and> env' = retarget ?env)"
    using assms(2) unfolding balance_once_def prod.case sys0_def [symmetric] d Option.bind.simps atd_def [symmetric] a Let_def
    by (auto split: if_splits)
  have j: "job_inv sys0 env (sys1, env1, n)" using detach_tasks_job [OF assms(1) d assms(3,4)] by simp
  note dp = detached_passed [OF assms(1,5,6) j sys0_def]
  have e1: "same_job env1 env" "pins_ok env1" "n = length (e_tasks env1)" "ALL_PINNED env1 \<longrightarrow> ALL_PINNED env \<and> n = 0"
      "\<forall>p\<in>set (e_tasks env1). e_dst_cpu env1 \<in> set (t_cpus p)"
    using j by (auto simp: job_inv_def Let_def same_job_def)
  have dst: "e_dst_cpu env1 \<in> C" using e1(1) assms(7) by (simp add: same_job_def)
  have mid: "pool C sys2 = pool C sys \<and> (homed sys \<longrightarrow> homed sys2) \<and> same_machine sys2 sys \<and>
      (\<forall>i. same_capacity (s_rqs sys2 i) (s_rqs sys i)) \<and> (n = 0 \<longrightarrow> same_counts sys2 sys) \<and>
      env2 = env1\<lparr>e_tasks := []\<rparr>"
  proof (cases "n = 0")
    case True
    then have "e_tasks env1 = []" using e1(3) by simp
    then show ?thesis using True a dp by (simp add: atd_def)
  next
    case False
    then have "attach_tasks lib (sys1, env1) = (sys2, env2)" using a by (simp add: atd_def)
    note ap = attached_passed [OF assms(1,5) dst this e1(5)]
    have "same_machine sys2 sys" using ap dp same_machine_trans by blast
    moreover have "\<forall>i. same_capacity (s_rqs sys2 i) (s_rqs sys i)" using ap dp same_capacity_trans by blast
    ultimately show ?thesis using ap dp False by simp
  qed
  have "passed C (sys, env) (sys2, ?env)"
    using mid e1 by (simp add: passed_def same_job_def)
  moreover have "passed C (sys, env) (sys2, retarget ?env)" if "DST_PINNED env2"
  proof -
    have p: "pins_ok env1" "DST_PINNED env1" using e1(2) mid that by simp_all
    show ?thesis using mid e1(1,4) p
      by (simp add: passed_def same_job_def retarget_def pins_ok_def order_trans [OF mask_clear_simps(2)])
  qed
  ultimately show ?thesis using r mid e1(2) by (auto simp: pins_ok_def retarget_def)
qed

lemma more_balance_passed:
  assumes "core_ok lib" and "more_balance conf lib k sd n (sys, env, m) = Some (sys', env', m')"
    and "e_tasks env = []" and "pins_ok env" and "finite C" and "e_src_cpu env \<in> C" and "e_dst_cpu env \<in> C"
    and "set (e_dst_grpmask env) \<subseteq> C"
  shows "passed C (sys, env) (sys', env') \<and> e_tasks env' = [] \<and> pins_ok env' \<and>
    (ALL_PINNED env' \<longrightarrow> \<not> DST_PINNED env')"
  using assms(2-4,6-8)
proof (induction n arbitrary: sys env m)
  case (Suc n)
  obtain again sys1 env1 m1 where o: "balance_once conf lib k sd (sys, env, m) = Some (again, sys1, env1, m1)"
    using Suc.prems(1) by (cases "balance_once conf lib k sd (sys, env, m)") auto
  note p = balance_once_passed [OF assms(1) o Suc.prems(2,3) assms(5) Suc.prems(4,5)]
  show ?case
  proof (cases again)
    case True
    then have rest: "more_balance conf lib k sd n (sys1, env1, m1) = Some (sys', env', m')"
      using Suc.prems(1) o by simp
    have "e_src_cpu env1 \<in> C" "e_dst_cpu env1 \<in> C" "set (e_dst_grpmask env1) \<subseteq> C"
      using p Suc.prems(4-6) by (auto simp: passed_def)
    then show ?thesis using Suc.IH [OF rest] p passed_trans by blast
  next
    case False
    then show ?thesis using Suc.prems(1) o p by simp
  qed
qed simp

section \<open>Looking for the busiest group leaves the tasks alone\<close>

definition same_tasks :: "lb_sys \<Rightarrow> lb_sys \<Rightarrow> bool" where
  "same_tasks a b = (\<forall>i. r_tasks (s_rqs a i) = r_tasks (s_rqs b i) \<and>
     r_nr_running (s_rqs a i) = r_nr_running (s_rqs b i))"

definition same_course :: "lb_env \<Rightarrow> lb_env \<Rightarrow> bool" where
  "same_course a b = (e_src_cpu a = e_src_cpu b \<and> e_dst_cpu a = e_dst_cpu b \<and> e_dst_grpmask a = e_dst_grpmask b \<and>
     e_new_dst_cpu a = e_new_dst_cpu b \<and> e_idle a = e_idle b \<and> e_cpus a = e_cpus b \<and>
     ALL_PINNED a = ALL_PINNED b \<and> NEED_BREAK a = NEED_BREAK b \<and> DST_PINNED a = DST_PINNED b \<and>
     SOME_PINNED a = SOME_PINNED b \<and> e_loop a = e_loop b \<and> e_loop_break a = e_loop_break b \<and> e_tasks a = e_tasks b)"

lemma same_tasks_refl [simp]: "same_tasks a a" by (simp add: same_tasks_def)

lemma same_tasks_trans: "same_tasks a b \<Longrightarrow> same_tasks b c \<Longrightarrow> same_tasks a c" by (simp add: same_tasks_def)

lemma same_course_refl [simp]: "same_course a a" by (simp add: same_course_def)

lemma same_shape_refl [simp]: "same_shape sd sd" by (auto simp: same_shape_def intro: exI [of _ "sd_groups sd"])

lemma same_shape_trans: "same_shape a b \<Longrightarrow> same_shape b c \<Longrightarrow> same_shape a c" by (auto simp: same_shape_def)

lemma same_tasks_pool: "same_tasks a b \<Longrightarrow> pool C a = pool C b" by (simp add: same_tasks_def pool_def)

lemma same_tasks_homed: "same_tasks a b \<Longrightarrow> homed a = homed b" by (simp add: same_tasks_def homed_def)

lemma update_group_capacity_tasks:
  "update_group_capacity conf cpu (sys, sd) = (sys', sd') \<Longrightarrow> same_tasks sys' sys"
  by (auto simp: update_group_capacity_def update_cpu_capacity_def same_tasks_def Let_def split: option.splits)

text \<open>One turn of the loop over the groups, with the capacity of the local group brought up to date or
  not.\<close>

lemma visit_group_cases:
  assumes "visit_group conf env k (sys, sd, sds, u, status) = Some (sys', sd', sds', u', status')"
  shows "same_tasks sys' sys \<and> same_shape sd' sd \<and>
    (busiest_group sds' = busiest_group sds \<or> busiest_group sds' = Some k)"
proof (cases "e_dst_cpu env \<in> set (sg_span (sd_groups sd ! k))")
  case False
  then show ?thesis using visit_other_group [OF assms] by (auto split: if_splits)
next
  case True
  let ?due = "e_idle env \<noteq> CPU_NEWLY_IDLE \<or> time_after_eq (s_jiffies sys) (sgc_next_update (sg_sgc (sd_groups sd ! k)))"
  define cap where "cap = (if ?due then update_group_capacity conf (e_dst_cpu env) (sys, sd) else (sys, sd))"
  obtain sys1 sd1 where c: "cap = (sys1, sd1)" by (cases cap)
  have frame: "same_tasks sys1 sys \<and> same_shape sd1 sd"
    using c update_group_capacity_shape update_group_capacity_tasks unfolding cap_def by (auto split: if_splits)
  let ?sds = "sds\<lparr>local_group := Some k\<rparr>"
  have v: "visit_group conf env k (sys, sd, sds, u, status) =
      update_sg_lb_stats conf sys1 sd1 env ?sds k status \<bind> (\<lambda>(s, st).
        Some (sys1, sd1, ?sds\<lparr>local_stat := s, total_load := total_load ?sds + group_load s,
          total_capacity := total_capacity ?sds + group_capacity s\<rparr>, u + group_util s, st))"
    unfolding visit_group_def prod.case Let_def using True c unfolding cap_def by (simp only: if_True prod.case)
  obtain s st where "update_sg_lb_stats conf sys1 sd1 env ?sds k status = Some (s, st)"
    using assms unfolding v by (cases "update_sg_lb_stats conf sys1 sd1 env ?sds k status") auto
  then show ?thesis using assms frame unfolding v by auto
qed

lemma visit_groups_frame:
  assumes "visit_groups conf env ks (sys, sd, sds, u, status) = Some (sys', sd', sds', u', status')"
  shows "same_tasks sys' sys \<and> same_shape sd' sd \<and>
    (busiest_group sds' = busiest_group sds \<or> busiest_group sds' \<in> Some ` set ks)"
  using assms
proof (induction ks arbitrary: sys sd sds u status)
  case (Cons k ks)
  obtain t where t: "visit_group conf env k (sys, sd, sds, u, status) = Some t"
      and rest: "visit_groups conf env ks t = Some (sys', sd', sds', u', status')"
    using Cons.prems by (cases "visit_group conf env k (sys, sd, sds, u, status)") auto
  obtain s1 d1 ds1 u1 o1 where te: "t = (s1, d1, ds1, u1, o1)" by (cases t)
  show ?case
    using Cons.IH [OF rest [unfolded te]] visit_group_cases [OF t [unfolded te]] same_tasks_trans same_shape_trans
    by (auto intro: same_tasks_trans same_shape_trans)
qed simp

lemma calculate_imbalance_course: "calculate_imbalance sd env sds = Some env' \<Longrightarrow> same_course env' env"
  by (auto simp: calculate_imbalance_def spare_imbalance_def even_imbalance_def same_course_def Let_def
      split: if_splits bind_splits)

lemma overload_check_busiest: "overload_check sd sds = Some (Some sds') \<Longrightarrow> busiest_group sds' = busiest_group sds"
  by (auto simp: overload_check_def Let_def split: if_splits bind_splits)

lemma worth_balancing_busiest:
  "worth_balancing sys sd env sds = Some (Some sds') \<Longrightarrow> busiest_group sds' = busiest_group sds"
  by (auto simp: worth_balancing_def Let_def dest: overload_check_busiest split: if_splits bind_splits option.splits)

lemma find_busiest_group_frame:
  assumes "find_busiest_group conf sys sd env = Some (sys', sd', env', g)"
  shows "same_tasks sys' sys \<and> same_shape sd' sd \<and> same_course env' env \<and>
    (\<forall>b. g = Some b \<longrightarrow> b < length (sd_groups sd))"
proof -
  let ?init = "(sys, sd, init_sd_lb_stats, 0, False, False)"
  obtain s1 d1 e1 ds where u: "update_sd_lb_stats conf sys sd env init_sd_lb_stats = Some (s1, d1, e1, ds)"
    using assms by (cases "update_sd_lb_stats conf sys sd env init_sd_lb_stats") (auto simp: find_busiest_group_def)
  obtain s2 d2 ds2 u2 o2 v2 where v: "visit_groups conf env [0..<length (sd_groups sd)] ?init =
      Some (s2, d2, ds2, u2, o2, v2)"
    using u by (cases "visit_groups conf env [0..<length (sd_groups sd)] ?init") (auto simp: update_sd_lb_stats_def)
  have "d1 = d2 \<and> s_rqs s1 = s_rqs s2 \<and> busiest_group ds = busiest_group ds2 \<and> same_course e1 env"
    using u v unfolding update_sd_lb_stats_def
    by (auto simp: Let_def same_course_def dest!: update_idle_cpu_scan_rqs split: bind_splits if_splits)
  then have stats: "same_tasks s1 sys \<and> same_shape d1 sd \<and> same_course e1 env \<and>
      (\<forall>b. busiest_group ds = Some b \<longrightarrow> b < length (sd_groups sd))"
    using visit_groups_frame [OF v] by (auto simp: same_tasks_def init_sd_lb_stats_def)
  obtain verdict where w: "worth_balancing s1 d1 e1 ds = Some verdict"
    using assms u by (cases "worth_balancing s1 d1 e1 ds") (auto simp: find_busiest_group_def)
  show ?thesis
  proof (cases verdict)
    case None
    then have "sys' = s1 \<and> sd' = d1 \<and> env' = e1\<lparr>e_imbalance := 0\<rparr> \<and> g = None"
      using assms u w by (simp add: find_busiest_group_def)
    then show ?thesis using stats by (simp add: same_course_def)
  next
    case (Some ds')
    then obtain e2 where e2: "calculate_imbalance d1 e1 ds' = Some e2"
      using assms u w by (cases "calculate_imbalance d1 e1 ds'") (auto simp: find_busiest_group_def)
    then have "sys' = s1 \<and> sd' = d1 \<and> env' = e2 \<and> (g = None \<or> g = busiest_group ds')"
      using assms u w Some by (auto simp: find_busiest_group_def split: if_splits)
    then show ?thesis
      using stats calculate_imbalance_course [OF e2] worth_balancing_busiest [of s1 d1 e1 ds ds'] w Some
      by (auto simp: same_course_def)
  qed
qed

lemma find_busiest_queue_cpu:
  assumes "find_busiest_queue conf sys sd env g = Some b"
  shows "b \<in> set (sg_span g) \<and> b \<in> set (e_cpus env)"
proof -
  have step: "b_cpu (visit_rq conf sys sd env i st) = b_cpu st \<or> b_cpu (visit_rq conf sys sd env i st) = Some i" for i st
    by (cases "e_type env") (simp_all add: visit_rq_def busier_rq_def Let_def)
  have "b_cpu (fold (visit_rq conf sys sd env) xs st) = b_cpu st \<or>
      b_cpu (fold (visit_rq conf sys sd env) xs st) \<in> Some ` set xs" for xs st
  proof (induction xs arbitrary: st)
    case (Cons i xs)
    show ?case using Cons.IH [of "visit_rq conf sys sd env i st"] step [of i st] by auto
  qed simp
  from this [of "mask_and (sg_span g) (e_cpus env)"
      "\<lparr>b_cpu = None, b_util = 0, b_load = 0, b_capacity = 1, b_nr = 0\<rparr>"]
  show ?thesis using assms by (auto simp: find_busiest_queue_def mask_and_def)
qed

section \<open>A whole attempt\<close>

text \<open>The limits of the interval between two attempts.\<close>

definition interval_ok :: "sched_domain \<Rightarrow> bool" where
  "interval_ok sd = (unat (sd_interval sd) < 2 * max 512 (unat (sd_max_interval sd)) \<and>
     unat (sd_min_interval sd) \<le> unat (sd_max_interval sd) \<and> unat (sd_max_interval sd) < 2 ^ 31)"

lemma double_interval_ok:
  assumes "interval_ok sd" and "unat (sd_interval sd) < max 512 (unat (sd_max_interval sd))"
  shows "interval_ok (sd\<lparr>sd_interval := sd_interval sd * 2\<rparr>)"
proof -
  have "unat (sd_interval sd) * 2 < 2 ^ 32" using assms by (auto simp: interval_ok_def)
  then have "unat (sd_interval sd * 2) = unat (sd_interval sd) * 2"
    by (simp add: unat_word_ariths)
  then show ?thesis using assms by (simp add: interval_ok_def)
qed

lemma out_one_pinned_ok:
  assumes "interval_ok sd"
  shows "interval_ok (out_one_pinned env sd)"
proof (cases "unat (sd_interval sd) < max 512 (unat (sd_max_interval sd))")
  case True
  then show ?thesis using assms double_interval_ok by (simp add: out_one_pinned_def)
next
  case False
  then have "\<not> sd_interval sd < 512" "\<not> ucast (sd_interval sd) < sd_max_interval sd"
    by (simp_all add: word_less_nat_alt unat_ucast_u32_u64)
  then show ?thesis using assms by (simp add: out_one_pinned_def)
qed

lemma interval_ok_reset: "interval_ok sd \<Longrightarrow> interval_ok (sd\<lparr>sd_interval := ucast (sd_min_interval sd)\<rparr>)"
  by (auto simp: interval_ok_def unat_ucast_u64_u32)

lemma interval_ok_fields [simp]:
  "interval_ok (sd\<lparr>sd_failed := x\<rparr>) = interval_ok sd" "interval_ok (sd\<lparr>sd_parent := y\<rparr>) = interval_ok sd"
  by (simp_all add: interval_ok_def)

lemma same_shape_interval: "same_shape sd' sd \<Longrightarrow> interval_ok sd' = interval_ok sd"
  by (auto simp: same_shape_def interval_ok_def)

lemma out_ok: "interval_ok sd \<Longrightarrow> interval_ok (out_all_pinned env sd)" "interval_ok sd \<Longrightarrow> interval_ok (out_balanced env sd)"
  by (simp_all add: out_all_pinned_def out_balanced_def out_one_pinned_ok)

lemma balance_moved_frame:
  assumes "balance_moved this_cpu n sys sd env = (sys', sd', moved)"
  shows "same_tasks sys' sys \<and> (interval_ok sd \<longrightarrow> interval_ok sd') \<and> (moved = n \<or> moved = 0)"
proof -
  have r: "interval_ok d \<Longrightarrow> interval_ok (d\<lparr>sd_interval := ucast (sd_min_interval d)\<rparr>)" for d
    by (rule interval_ok_reset)
  have q: "interval_ok d \<Longrightarrow> interval_ok (d\<lparr>sd_failed := x, sd_interval := ucast (sd_min_interval d)\<rparr>)" for d x
    using r [of "d\<lparr>sd_failed := x\<rparr>"] by simp
  show ?thesis using assms
    by (auto simp: balance_moved_def Let_def same_tasks_def on_rq_def out_one_pinned_ok r q split: if_splits)
qed

text \<open>One turn of \<open>redo\<close>: it ends, or all the tasks of a runqueue were pinned and its CPU is left
  out of the next turn.\<close>

definition redo_env :: "nat \<Rightarrow> lb_env \<Rightarrow> lb_env" where
  "redo_env busiest env = env\<lparr>e_cpus := mask_clear busiest (e_cpus env), e_loop := 0,
     e_loop_break := SCHED_NR_MIGRATE_BREAK\<rparr>"

definition source_env :: "lb_conf \<Rightarrow> nat \<Rightarrow> lb_sys \<Rightarrow> lb_env \<Rightarrow> lb_env" where
  "source_env conf busiest sys env = env\<lparr>e_src_cpu := busiest, ALL_PINNED := True,
     e_loop_max := min (nr_migrate conf) (r_nr_running (s_rqs sys busiest))\<rparr>"

lemma balance_redo_cases:
  assumes "balance_redo conf lib k m this_cpu (Suc n) sys sd env = Some res"
  obtains (balanced) s1 d1 e1 c where "same_tasks s1 sys" "same_shape d1 sd" "res = (s1, out_balanced e1 d1, 0, c)"
  | (alone) s1 d1 e1 g busiest s2 d2 mv where "find_busiest_group conf sys sd env = Some (s1, d1, e1, g)"
      "balance_moved this_cpu 0 s1 d1 (e1\<lparr>e_src_cpu := busiest, ALL_PINNED := True\<rparr>) = (s2, d2, mv)"
      "res = (s2, d2, mv, True)"
  | (moved) s1 d1 e1 g busiest s2 e2 ld where "find_busiest_group conf sys sd env = Some (s1, d1, e1, g)"
      "busiest \<in> set (e_cpus e1)"
      "more_balance conf lib k d1 m (s1, source_env conf busiest s1 e1, 0) = Some (s2, e2, ld)"
      "if ALL_PINNED e2
       then if mask_subset (e_cpus (redo_env busiest e2)) (e_dst_grpmask e2)
         then \<exists>e3. res = (s2, out_all_pinned e3 (parent_pinned e2 d1), 0, True)
         else balance_redo conf lib k m this_cpu n s2 (parent_pinned e2 d1) (redo_env busiest e2) = Some res
       else \<exists>s3 d3 mv. balance_moved this_cpu ld s2 (parent_pinned e2 d1) e2 = (s3, d3, mv) \<and> res = (s3, d3, mv, True)"
proof (cases "should_we_balance sys sd env")
  case False
  then have "res = (sys, out_balanced env sd, 0, False)" using assms by simp
  then show ?thesis by (rule balanced [OF same_tasks_refl same_shape_refl])
next
  case True
  obtain s1 d1 e1 g where f: "find_busiest_group conf sys sd env = Some (s1, d1, e1, g)"
    using assms True by (cases "find_busiest_group conf sys sd env") auto
  show ?thesis
  proof (cases "Option.bind g (\<lambda>g. find_busiest_queue conf s1 d1 e1 (sd_groups d1 ! g))")
    case None
    then have "res = (s1, out_balanced e1 d1, 0, True)" using assms True f by simp
    then show ?thesis using balanced find_busiest_group_frame [OF f] by blast
  next
    case (Some busiest)
    then have b: "busiest \<in> set (e_cpus e1)" by (cases g) (auto dest: find_busiest_queue_cpu)
    show ?thesis
    proof (cases "r_nr_running (s_rqs s1 busiest) > 1")
      case False
      then have "case balance_moved this_cpu 0 s1 d1 (e1\<lparr>e_src_cpu := busiest, ALL_PINNED := True\<rparr>) of
          (s2, d2, mv) \<Rightarrow> res = (s2, d2, mv, True)"
        using assms True f Some by (auto split: prod.splits)
      then show ?thesis using alone [OF f] by (auto split: prod.splits)
    next
      case more: True
      let ?e = "source_env conf busiest s1 e1"
      have body: "balance_redo conf lib k m this_cpu (Suc n) sys sd env =
          more_balance conf lib k d1 m (s1, ?e, 0) \<bind> (\<lambda>(s2, e2, ld).
            let d2 = parent_pinned e2 d1 in
            if ALL_PINNED e2 then
              if \<not> mask_subset (e_cpus (redo_env busiest e2)) (e_dst_grpmask e2)
              then balance_redo conf lib k m this_cpu n s2 d2 (redo_env busiest e2)
              else Some (s2, out_all_pinned (e2\<lparr>e_cpus := mask_clear busiest (e_cpus e2)\<rparr>) d2, 0, True)
            else case balance_moved this_cpu ld s2 d2 e2 of (s3, d3, mv) \<Rightarrow> Some (s3, d3, mv, True))"
        using True f Some more
        by (simp add: source_env_def redo_env_def Let_def cong: if_cong)
      obtain s2 e2 ld where mb: "more_balance conf lib k d1 m (s1, ?e, 0) = Some (s2, e2, ld)"
        using assms unfolding body by (cases "more_balance conf lib k d1 m (s1, ?e, 0)") auto
      show ?thesis
        using assms unfolding body mb
        by (intro moved [OF f b mb]) (auto simp: Let_def split: if_splits prod.splits)
    qed
  qed
qed

lemma balance_redo_frame:
  assumes "core_ok lib" and "balance_redo conf lib k m this_cpu n sys sd env = Some (sys', sd', mv, c)"
    and "e_tasks env = []" and "\<not> DST_PINNED env" and "finite C" and "e_dst_cpu env \<in> C"
    and "set (e_dst_grpmask env) \<subseteq> C" and "set (e_cpus env) \<subseteq> C"
  shows "pool C sys' = pool C sys \<and> (homed sys \<longrightarrow> homed sys') \<and> (interval_ok sd \<longrightarrow> interval_ok sd')"
  using assms(2-4,6-8)
proof (induction n arbitrary: sys sd env)
  case (Suc n)
  from Suc.prems(1) show ?case
  proof (cases rule: balance_redo_cases)
    case (balanced s1 d1 e1 c')
    then show ?thesis using same_tasks_pool same_tasks_homed same_shape_interval out_ok(2) by auto
  next
    case (alone s1 d1 e1 g busiest s2 d2 mv')
    note f = find_busiest_group_frame [OF alone(1)] and b = balance_moved_frame [OF alone(2)]
    then have "same_tasks s2 sys" using same_tasks_trans by blast
    then show ?thesis using alone(3) f b same_tasks_pool same_tasks_homed same_shape_interval by auto
  next
    case (moved s1 d1 e1 g busiest s2 e2 ld)
    note f = find_busiest_group_frame [OF moved(1)]
    let ?e = "source_env conf busiest s1 e1"
    have e: "e_tasks ?e = []" "pins_ok ?e" "e_src_cpu ?e \<in> C" "e_dst_cpu ?e \<in> C" "set (e_dst_grpmask ?e) \<subseteq> C"
        "set (e_cpus ?e) \<subseteq> C"
      using f Suc.prems(2-6) moved(2) by (auto simp: source_env_def same_course_def pins_ok_def)
    note p = more_balance_passed [OF assms(1) moved(3) e(1,2) assms(5) e(3-5)]
    have s2: "pool C s2 = pool C sys \<and> (homed sys \<longrightarrow> homed s2)"
      using p f same_tasks_pool same_tasks_homed by (auto simp: passed_def)
    have d1: "interval_ok (parent_pinned e2 d1) = interval_ok sd"
      using f same_shape_interval by (auto simp: parent_pinned_def)
    show ?thesis
    proof (cases "ALL_PINNED e2 \<and> \<not> mask_subset (e_cpus (redo_env busiest e2)) (e_dst_grpmask e2)")
      case True
      then have r: "balance_redo conf lib k m this_cpu n s2 (parent_pinned e2 d1) (redo_env busiest e2) =
          Some (sys', sd', mv, c)" using moved(4) by simp
      have "e_tasks (redo_env busiest e2) = []" "\<not> DST_PINNED (redo_env busiest e2)"
          "e_dst_cpu (redo_env busiest e2) \<in> C" "set (e_dst_grpmask (redo_env busiest e2)) \<subseteq> C"
          "set (e_cpus (redo_env busiest e2)) \<subseteq> C"
        using p e True by (auto simp: redo_env_def passed_def)
      from Suc.IH [OF r this] show ?thesis using s2 d1 by auto
    next
      case False
      have "same_tasks sys' s2 \<and> (interval_ok (parent_pinned e2 d1) \<longrightarrow> interval_ok sd')"
        using moved(4) False out_ok(1) balance_moved_frame by (auto split: if_splits)
      then show ?thesis using s2 d1 same_tasks_pool same_tasks_homed by auto
    qed
  qed
qed simp

text \<open>
  C11. Whatever \<open>load_balance\<close> does, on whatever domain, it neither loses nor copies a task, and a task
  that was on a CPU its affinity allows ends on such a CPU, also when the destination changes for
  pinned tasks or another runqueue is tried.
\<close>

theorem load_balance_conserves:
  assumes "core_ok lib" and "load_balance conf lib k m n this_cpu sys sd idle = Some (sys', sd', moved, c)"
    and "finite C" and "this_cpu \<in> C" and "set (sg_span (hd (sd_groups sd))) \<subseteq> C" and "set (sd_span sd) \<subseteq> C"
    and "homed sys"
  shows "pool C sys' = pool C sys \<and> homed sys'"
proof -
  let ?e = "balance_env sys sd this_cpu idle"
  have "e_tasks ?e = []" "\<not> DST_PINNED ?e" "e_dst_cpu ?e \<in> C" "set (e_dst_grpmask ?e) \<subseteq> C" "set (e_cpus ?e) \<subseteq> C"
    using assms(4-6) by (auto simp: balance_env_def mask_and_def)
  then show ?thesis
    using balance_redo_frame [OF assms(1) assms(2) [unfolded load_balance_def]] assms(3,7) by blast
qed

text \<open>
  C17. However often balancing fails, the interval to the next attempt doubles only below its maximum
  or, for pinned tasks, below 512 ms: it stays under twice the larger of the two.
\<close>

theorem balance_interval_bounded:
  assumes "core_ok lib" and "load_balance conf lib k m n this_cpu sys sd idle = Some (sys', sd', moved, c)"
    and "interval_ok sd"
  shows "unat (sd_interval sd') < 2 * max 512 (unat (sd_max_interval sd')) \<and> interval_ok sd'"
proof -
  let ?e = "balance_env sys sd this_cpu idle"
  let ?C = "insert this_cpu (set (sg_span (hd (sd_groups sd))) \<union> set (sd_span sd))"
  have "e_tasks ?e = []" "\<not> DST_PINNED ?e" "e_dst_cpu ?e \<in> ?C" "set (e_dst_grpmask ?e) \<subseteq> ?C"
      "set (e_cpus ?e) \<subseteq> ?C"
    by (auto simp: balance_env_def mask_and_def)
  then have "interval_ok sd'"
    using balance_redo_frame [OF assms(1) assms(2) [unfolded load_balance_def], of ?C] assms(3) by blast
  then show ?thesis by (simp add: interval_ok_def)
qed

section \<open>A machine to evaluate on\<close>

definition demo_core :: core_lib where
  "demo_core = \<lparr>deactivate_task = (\<lambda>p rq. rq\<lparr>r_tasks := remove1 p (r_tasks rq), r_nr_running := r_nr_running rq - 1\<rparr>),
     activate_task = (\<lambda>p rq. rq\<lparr>r_tasks := p # r_tasks rq, r_nr_running := r_nr_running rq + 1\<rparr>),
     set_task_cpu = (\<lambda>_ p. p), update_rq_clock = (\<lambda>rq. rq), check_preempt_curr = (\<lambda>_ rq. rq)\<rparr>"

lemma demo_core_ok: "core_ok demo_core"
  by (simp add: core_ok_def demo_core_def same_capacity_def)

definition demo_lb_task :: "nat \<Rightarrow> u64 \<Rightarrow> nat list \<Rightarrow> lb_task" where
  "demo_lb_task i load cpus = \<lparr>t_pid = i, t_se = \<lparr>en_avg = demo_lb_avg load 300, en_weight = 1024, en_on_rq = 1,
       en_addr = i, en_task = True, en_runnable_weight = 0\<rparr>,
     t_cpus = cpus, t_per_cpu_kthread = False, t_fair = True, t_idle_policy = False, t_on_cpu = False, t_exec_start = 0\<rparr>"

text \<open>On the second CPU: a task that may not leave it, and two that may.\<close>

definition demo_crowd :: "nat \<Rightarrow> lb_task list" where
  "demo_crowd i = (if i = 1 then [demo_lb_task 12 1000 [0, 1], demo_lb_task 11 1000 [0, 1], demo_lb_task 10 1000 [1]]
     else [demo_lb_task 20 500 [1, 2]])"

definition demo_pull :: lb_env where
  "demo_pull = demo_lb_env\<lparr>e_src_cpu := 1, ALL_PINNED := True, e_loop_max := 3, e_imbalance := 1500\<rparr>"


lemma demo_detaches:
  "map_option (\<lambda>(sys, env, n). n) (detach_tasks demo_lb_conf demo_core 4 demo_sd (demo_lb_sys demo_crowd) demo_pull) = Some 1"
  by code_simp

lemma demo_balances:
  "map_option (\<lambda>(sys, sd, n, c). (map t_pid (r_tasks (s_rqs sys 0)), map t_pid (r_tasks (s_rqs sys 1)), n))
    (load_balance demo_lb_conf demo_core 4 2 2 0 (demo_lb_sys demo_crowd) demo_sd CPU_IDLE) = Some ([11], [10, 12], 1)"
  by code_simp

theorem detach_within_imbalance_witness:
  "\<exists>sys' env' n. detach_tasks demo_lb_conf demo_core 4 demo_sd (demo_lb_sys demo_crowd) demo_pull = Some (sys', env', n) \<and>
    n = 1 \<and> n = length (e_tasks env') \<and> (\<Sum>p\<leftarrow>e_tasks env'. unat (max (task_h_load p) 1)) \<le> 1500 \<and>
    0 < r_nr_running (s_rqs sys' 1)"
proof -
  obtain sys' env' where d: "detach_tasks demo_lb_conf demo_core 4 demo_sd (demo_lb_sys demo_crowd) demo_pull =
      Some (sys', env', 1)" using demo_detaches by auto
  have "e_tasks demo_pull = []" "\<not> DST_PINNED demo_pull" by (simp_all add: demo_pull_def demo_lb_defs)
  note within = detach_within_imbalance [OF demo_core_ok d this]
  have "e_idle demo_pull \<noteq> CPU_NOT_IDLE \<and> 0 < r_nr_running (src_rq (demo_lb_sys demo_crowd) demo_pull) \<longrightarrow>
      0 < r_nr_running (src_rq sys' demo_pull)" using within by blast
  then have "0 < r_nr_running (s_rqs sys' 1)" by (simp add: demo_pull_def demo_lb_defs)
  moreover have "1 = length (e_tasks env')" "(\<Sum>p\<leftarrow>e_tasks env'. unat (max (task_h_load p) 1)) \<le> 1500"
    using within by (simp_all add: demo_pull_def demo_lb_defs)
  ultimately show ?thesis using d by (intro exI [of _ sys'] exI [of _ env'] exI [of _ 1]) simp
qed

lemma demo_homed: "homed (demo_lb_sys demo_crowd)"
  by (auto simp: homed_def demo_lb_defs demo_crowd_def demo_lb_task_def split: if_splits)

theorem load_balance_conserves_witness:
  "\<exists>sys' sd' c. load_balance demo_lb_conf demo_core 4 2 2 0 (demo_lb_sys demo_crowd) demo_sd CPU_IDLE = Some (sys', sd', 1, c) \<and>
    map t_pid (r_tasks (s_rqs sys' 0)) = [11] \<and> pool {0, 1, 2} sys' = pool {0, 1, 2} (demo_lb_sys demo_crowd) \<and> homed sys'"
proof -
  obtain sys' sd' c where l: "load_balance demo_lb_conf demo_core 4 2 2 0 (demo_lb_sys demo_crowd) demo_sd CPU_IDLE =
      Some (sys', sd', 1, c)" and t: "map t_pid (r_tasks (s_rqs sys' 0)) = [11]" using demo_balances by auto
  have "pool {0, 1, 2} sys' = pool {0, 1, 2} (demo_lb_sys demo_crowd) \<and> homed sys'"
    by (rule load_balance_conserves [OF demo_core_ok l]) (use demo_homed in \<open>auto simp: demo_lb_defs\<close>)
  then show ?thesis using l t by (intro exI [of _ sys'] exI [of _ sd'] exI [of _ c]) simp
qed

theorem balance_interval_bounded_witness:
  "\<exists>sys' sd' n c. load_balance demo_lb_conf demo_core 4 2 2 0 (demo_lb_sys demo_crowd) demo_sd CPU_IDLE = Some (sys', sd', n, c) \<and>
    unat (sd_interval sd') < 2 * max 512 (unat (sd_max_interval sd'))"
proof -
  obtain sys' sd' n c where l: "load_balance demo_lb_conf demo_core 4 2 2 0 (demo_lb_sys demo_crowd) demo_sd CPU_IDLE =
      Some (sys', sd', n, c)" using demo_balances by auto
  have "interval_ok demo_sd" by (simp add: interval_ok_def demo_lb_defs)
  from balance_interval_bounded [OF demo_core_ok l this] show ?thesis using l by blast
qed

end
