(* ===== verification/Kernel_Migrate_Ends.thy ===== *)
theory Kernel_Migrate_Ends
  imports Kernel_Migrate_Run
begin

text \<open>
  The loops of \<open>load_balance\<close> in \<open>Kernel_Migrate\<close> end: how much fuel each of them needs, and that none
  of the divisions on the way is by zero.
\<close>

section \<open>The detach loop\<close>

lemma detach_loop_returns:
  assumes "unat (e_loop env) \<le> unat (e_loop_break env)" and "unat (e_loop_break env) < 2 ^ 32 - 1"
    and "unat (e_loop_break env) - unat (e_loop env) < k" and "\<not> NEED_BREAK env"
  shows "\<exists>sys' env' d'. detach_loop conf lib sd k (sys, env, d) = Some (sys', env', d') \<and>
    (NEED_BREAK env' \<longrightarrow> unat (e_loop env') = unat (e_loop_break env) + 1 \<and>
      e_loop_break env' = e_loop_break env + 32)"
  using assms
proof (induction k arbitrary: sys env d)
  case (Suc k)
  let ?ts = "r_tasks (src_rq sys env)" and ?env = "env\<lparr>e_loop := e_loop env + 1\<rparr>"
  have inc: "unat (e_loop env + 1) = unat (e_loop env) + 1"
    using Suc.prems(1,2) by (simp add: unat_word_ariths)
  obtain ok env' where can: "can_migrate_task conf sys sd (last ?ts) ?env = (ok, env')"
    by (cases "can_migrate_task conf sys sd (last ?ts) ?env")
  consider (idle) "?ts = [] \<or> e_idle env \<noteq> CPU_NOT_IDLE \<and> r_nr_running (src_rq sys env) \<le> 1"
    | (seen) "?ts \<noteq> []" "\<not> (e_idle env \<noteq> CPU_NOT_IDLE \<and> r_nr_running (src_rq sys env) \<le> 1)"
      "e_loop ?env > e_loop_max env \<and> \<not> ALL_PINNED env"
    | (breather) "?ts \<noteq> []" "\<not> (e_idle env \<noteq> CPU_NOT_IDLE \<and> r_nr_running (src_rq sys env) \<le> 1)"
      "\<not> (e_loop ?env > e_loop_max env \<and> \<not> ALL_PINNED env)" "e_loop ?env > e_loop_break env"
    | (go) "?ts \<noteq> []" "\<not> (e_idle env \<noteq> CPU_NOT_IDLE \<and> r_nr_running (src_rq sys env) \<le> 1)"
      "\<not> (e_loop ?env > e_loop_max env \<and> \<not> ALL_PINNED env)" "\<not> e_loop ?env > e_loop_break env"
    by blast
  then show ?case
  proof cases
    case idle
    then have "detach_loop conf lib sd (Suc k) (sys, env, d) = Some (sys, env, d)" by (auto simp: Let_def)
    then show ?thesis using Suc.prems(4) by simp
  next
    case seen
    then have "detach_loop conf lib sd (Suc k) (sys, env, d) = Some (sys, ?env, d)" by (auto simp: Let_def)
    then show ?thesis using Suc.prems(4) by simp
  next
    case breather
    then have "detach_loop conf lib sd (Suc k) (sys, env, d) =
        Some (sys, ?env\<lparr>e_loop_break := e_loop_break env + 32, NEED_BREAK := True\<rparr>, d)"
      by (auto simp: Let_def)
    moreover have "unat (e_loop env + 1) = unat (e_loop_break env) + 1"
      using breather(4) inc Suc.prems(1) by (simp add: word_less_nat_alt)
    ultimately show ?thesis by simp
  next
    case go
    note cm = can_migrate_visited [OF can]
    have e: "unat (e_loop env') \<le> unat (e_loop_break env')" "unat (e_loop_break env') < 2 ^ 32 - 1"
        "unat (e_loop_break env') - unat (e_loop env') < k" "\<not> NEED_BREAK env'" "e_loop_break env' = e_loop_break env"
      using cm go(4) inc Suc.prems by (simp_all add: word_less_nat_alt)
    have rec: "\<exists>sys' env2 d'. detach_loop conf lib sd k (s, e1, d1) = Some (sys', env2, d') \<and>
        (NEED_BREAK env2 \<longrightarrow> unat (e_loop env2) = unat (e_loop_break env) + 1 \<and>
          e_loop_break env2 = e_loop_break env + 32)"
      if "e_loop e1 = e_loop env'" "e_loop_break e1 = e_loop_break env'" "NEED_BREAK e1 = NEED_BREAK env'" for s e1 d1
      using Suc.IH [of e1 s d1] that e by simp
    show ?thesis unfolding detach_loop_body [OF go can]
      using rec e(4) by (auto simp: Let_def take_task_def split: option.splits)
  qed
qed simp

section \<open>The passes over one runqueue\<close>

text \<open>No more tasks on the source runqueue than it counts, and no more than \<open>N\<close>; the counters of the
  loop; and what gets smaller from pass to pass.\<close>

definition crowd :: "nat \<Rightarrow> lb_rq \<Rightarrow> bool" where
  "crowd N rq = (length (r_tasks rq) \<le> unat (r_nr_running rq) \<and> unat (r_nr_running rq) \<le> N)"

definition loop_ok :: "nat \<Rightarrow> lb_env \<Rightarrow> bool" where
  "loop_ok N env = (unat (e_loop env) \<le> unat (e_loop_break env) \<and> unat (e_loop_break env) \<le> N + 31 \<and>
     \<not> NEED_BREAK env)"

definition passes_left :: "nat \<Rightarrow> lb_env \<Rightarrow> nat" where
  "passes_left N env = length (e_cpus env) * (N + 1) + (N - unat (e_loop env))"

lemma crowd_detached:
  assumes "crowd N rq" and "length (r_tasks rq') + n = length (r_tasks rq)"
    and "r_nr_running rq' = r_nr_running rq - of_nat n"
  shows "crowd N rq' \<and> unat (r_nr_running rq') + n = unat (r_nr_running rq)"
proof -
  have n: "n \<le> unat (r_nr_running rq)" using assms(1,2) by (simp add: crowd_def)
  have "n < 4294967296" by (rule order_le_less_trans [OF n]) simp
  then have u: "unat (of_nat n :: u32) = n" by (simp add: unat_of_nat)
  then have "unat (r_nr_running rq') = unat (r_nr_running rq) - n"
    using n by (simp add: assms(3) unat_sub word_le_nat_alt)
  then show ?thesis using n assms(1,2) unfolding crowd_def by linarith
qed

lemma detach_tasks_returns:
  assumes "loop_ok N env" and "N < 2 ^ 31" and "N + 32 < k"
  shows "\<exists>sys' env' n. detach_tasks conf lib k sd sys env = Some (sys', env', n) \<and>
    (NEED_BREAK env' \<longrightarrow> unat (e_loop env') = unat (e_loop_break env) + 1 \<and>
      e_loop_break env' = e_loop_break env + 32)"
proof -
  have lb: "unat (e_loop env) \<le> unat (e_loop_break env)" "unat (e_loop_break env) < 2 ^ 32 - 1"
      "unat (e_loop_break env) - unat (e_loop env) < k" "\<not> NEED_BREAK env"
    using assms by (auto simp: loop_ok_def)
  consider "r_nr_running (src_rq sys env) \<le> 1" | "\<not> r_nr_running (src_rq sys env) \<le> 1" "sint (e_imbalance env) \<le> 0"
    | "\<not> r_nr_running (src_rq sys env) \<le> 1" "\<not> sint (e_imbalance env) \<le> 0" by blast
  then show ?thesis
    using detach_loop_returns [OF lb, of conf lib sd sys 0] lb(4) by cases (auto simp: detach_tasks_def)
qed

lemma balance_once_returns:
  assumes "core_ok lib" and "crowd N (src_rq sys env)" and "loop_ok N env" and "N < 2 ^ 31" and "1 \<le> N"
    and "N + 32 < k" and "e_tasks env = []" and "pins_ok env" and "e_dst_cpu env \<in> set (e_cpus env)"
  shows "\<exists>again sys' env' m'. balance_once conf lib k sd (sys, env, m) = Some (again, sys', env', m') \<and>
    crowd N (s_rqs sys' (e_src_cpu env)) \<and> (again \<longrightarrow> loop_ok N env' \<and> passes_left N env' < passes_left N env)"
proof -
  let ?i = "e_src_cpu env"
  define sys0 where "sys0 = on_rq ?i (update_rq_clock lib) sys"
  obtain sys1 env1 n where d: "detach_tasks conf lib k sd sys0 env = Some (sys1, env1, n)"
      and nb: "NEED_BREAK env1 \<longrightarrow> unat (e_loop env1) = unat (e_loop_break env) + 1 \<and>
        e_loop_break env1 = e_loop_break env + 32"
    using detach_tasks_returns [OF assms(3,4,6)] by blast
  have j: "job_inv sys0 env (sys1, env1, n)" using detach_tasks_job [OF assms(1) d assms(7,8)] by simp
  have e1: "e_cpus env1 = e_cpus env" "e_dst_cpu env1 = e_dst_cpu env" "n = length (e_tasks env1)"
      "e_dst_grpmask env1 = e_dst_grpmask env"
    using j by (auto simp: job_inv_def Let_def same_job_def)
  have rq: "ids (r_tasks (s_rqs sys1 ?i)) + ids (e_tasks env1) = ids (r_tasks (s_rqs sys ?i))"
      "r_nr_running (s_rqs sys1 ?i) = r_nr_running (s_rqs sys ?i) - of_nat n"
    using j by (simp_all add: job_inv_def Let_def sys0_def core_simps [OF assms(1)])
  have "length (r_tasks (s_rqs sys1 ?i)) + n = length (r_tasks (s_rqs sys ?i))"
    using arg_cong [OF rq(1), of size] e1(3) by simp
  note c1 = crowd_detached [OF assms(2) this rq(2)]
  define atd where "atd = (if n \<noteq> 0 then attach_tasks lib (sys1, env1) else (sys1, env1))"
  obtain sys2 env2 where a: "atd = (sys2, env2)" by (cases atd)
  have e2: "e_cpus env2 = e_cpus env1" "e_dst_cpu env2 = e_dst_cpu env1" "e_loop env2 = e_loop env1"
      "e_loop_break env2 = e_loop_break env1" "NEED_BREAK env2 = NEED_BREAK env1"
    using a by (auto simp: atd_def attach_tasks_def split: if_splits)
  have c2: "crowd N (s_rqs sys2 ?i)"
  proof (cases "n \<noteq> 0 \<and> e_dst_cpu env1 = ?i")
    case True
    then have s2: "s_rqs sys2 ?i = fold (attach_task lib) (e_tasks env1) (update_rq_clock lib (s_rqs sys1 ?i))"
      using a by (auto simp: atd_def attach_tasks_def)
    have len: "length (r_tasks (s_rqs sys2 ?i)) = length (r_tasks (s_rqs sys1 ?i)) + n"
        and nr: "r_nr_running (s_rqs sys2 ?i) = r_nr_running (s_rqs sys1 ?i) + of_nat n"
      using attach_fold [OF assms(1)] e1(3) by (simp_all add: s2 core_simps [OF assms(1)])
    have "unat (r_nr_running (s_rqs sys1 ?i)) + n \<le> N" using c1 assms(2) by (simp add: crowd_def)
    then have "unat (r_nr_running (s_rqs sys2 ?i)) = unat (r_nr_running (s_rqs sys1 ?i)) + n"
      using assms(4) by (simp add: nr unat_word_ariths unat_of_nat)
    then show ?thesis using c1 assms(2) len by (simp add: crowd_def)
  next
    case False
    then have "s_rqs sys2 ?i = s_rqs sys1 ?i" using a by (auto simp: atd_def attach_tasks_def split: if_splits)
    then show ?thesis using c1 by simp
  qed
  let ?env = "env2\<lparr>NEED_BREAK := False\<rparr>"
  let ?unseen = "NEED_BREAK env2 \<and> e_loop env2 < r_nr_running (src_rq sys2 env2)"
  let ?pinned = "DST_PINNED ?env \<and> 0 < sint (e_imbalance ?env)"
  have src2: "e_src_cpu env2 = ?i"
    using a j by (auto simp: atd_def attach_tasks_def job_inv_def Let_def same_job_def split: if_splits)
  have b: "balance_once conf lib k sd (sys, env, m) = Some (if ?unseen then (True, sys2, ?env, m + n)
      else if ?pinned then (True, sys2, retarget ?env, m + n) else (False, sys2, ?env, m + n))"
    unfolding balance_once_def prod.case sys0_def [symmetric] d Option.bind.simps atd_def [symmetric] a Let_def ..
  have unseen: "loop_ok N ?env \<and> passes_left N ?env < passes_left N env" if ?unseen
  proof -
    have l: "unat (e_loop env2) = unat (e_loop_break env) + 1" "e_loop_break env2 = e_loop_break env + 32"
      using nb e2 that by simp_all
    have "unat (e_loop env2) < N" using that c2 by (simp add: src2 crowd_def word_less_nat_alt)
    then have "unat (e_loop_break env2) = unat (e_loop_break env) + 32"
      using l assms(4) by (simp add: unat_word_ariths)
    then have "loop_ok N ?env" using l \<open>unat (e_loop env2) < N\<close> by (simp add: loop_ok_def)
    moreover have "N - unat (e_loop env2) < N - unat (e_loop env)"
      using l(1) \<open>unat (e_loop env2) < N\<close> assms(3) unfolding loop_ok_def by linarith
    then have "length (e_cpus env) * (N + 1) + (N - unat (e_loop env2)) <
        length (e_cpus env) * (N + 1) + (N - unat (e_loop env))" by (rule add_strict_left_mono)
    then have "passes_left N ?env < passes_left N env"
      unfolding passes_left_def using e1(1) e2(1) by simp
    ultimately show ?thesis ..
  qed
  have pinned: "loop_ok N (retarget ?env) \<and> passes_left N (retarget ?env) < passes_left N env"
  proof -
    have "length (mask_clear (e_dst_cpu env) (e_cpus env)) + 1 \<le> length (e_cpus env)"
      using mask_clear_simps(3) [OF assms(9)] by simp
    then have "(length (mask_clear (e_dst_cpu env) (e_cpus env)) + 1) * (N + 1) \<le> length (e_cpus env) * (N + 1)"
      by (rule mult_le_mono1)
    then show ?thesis using assms(5) by (simp add: loop_ok_def passes_left_def retarget_def e1 e2)
  qed
  show ?thesis unfolding b using unseen pinned c2 by auto
qed

lemma more_balance_returns:
  assumes "core_ok lib" and "N < 2 ^ 31" and "1 \<le> N" and "N + 32 < k"
    and "crowd N (src_rq sys env)" and "loop_ok N env" and "e_tasks env = []" and "pins_ok env"
    and "e_dst_cpu env \<in> set (e_cpus env)" and "passes_left N env < n"
  shows "\<exists>st. more_balance conf lib k sd n (sys, env, m) = Some st"
  using assms(5-)
proof (induction n arbitrary: sys env m)
  case (Suc n)
  obtain again sys1 env1 m1 where o: "balance_once conf lib k sd (sys, env, m) = Some (again, sys1, env1, m1)"
      and c: "crowd N (s_rqs sys1 (e_src_cpu env))"
      and l: "again \<longrightarrow> loop_ok N env1 \<and> passes_left N env1 < passes_left N env"
    using balance_once_returns [OF assms(1) Suc.prems(1,2) assms(2-4) Suc.prems(3-5)] by blast
  let ?C = "insert (e_src_cpu env) {e_dst_cpu env}"
  have p: "passed ?C (sys, env) (sys1, env1) \<and> e_tasks env1 = [] \<and> pins_ok env1"
    using balance_once_passed [OF assms(1) o Suc.prems(3,4), of ?C] by simp
  show ?case
  proof (cases again)
    case True
    then have "\<exists>st. more_balance conf lib k sd n (sys1, env1, m1) = Some st"
      using Suc.prems(5,6) p c l by (intro Suc.IH) (auto simp: passed_def)
    then show ?thesis using o True by simp
  qed (simp add: o)
qed simp

lemma balance_once_unbroken:
  assumes "balance_once conf lib k sd (sys, env, m) = Some (again, sys', env', m')"
  shows "\<not> NEED_BREAK env'"
proof -
  obtain sys1 env1 n where d: "detach_tasks conf lib k sd (on_rq (e_src_cpu env) (update_rq_clock lib) sys) env =
      Some (sys1, env1, n)"
    using assms unfolding balance_once_def prod.case
    by (cases "detach_tasks conf lib k sd (on_rq (e_src_cpu env) (update_rq_clock lib) sys) env") auto
  define atd where "atd = (if n \<noteq> 0 then attach_tasks lib (sys1, env1) else (sys1, env1))"
  obtain sys2 env2 where a: "atd = (sys2, env2)" by (cases atd)
  show ?thesis
    using assms unfolding balance_once_def prod.case d Option.bind.simps atd_def [symmetric] a Let_def
    by (auto simp: retarget_def split: if_splits)
qed

lemma more_balance_unbroken:
  assumes "more_balance conf lib k sd n st = Some (sys', env', m')"
  shows "\<not> NEED_BREAK env'"
  using assms
proof (induction n arbitrary: st)
  case (Suc n)
  obtain sys env m where st: "st = (sys, env, m)" by (cases st)
  obtain again sys1 env1 m1 where o: "balance_once conf lib k sd (sys, env, m) = Some (again, sys1, env1, m1)"
    using Suc.prems st by (cases "balance_once conf lib k sd st") auto
  show ?case using Suc o balance_once_unbroken [OF o] by (auto simp: st split: if_splits)
qed simp

section \<open>No division by zero\<close>

text \<open>Sane capacities: those of CPUs, and of the groups below, fit 30 bits, those of groups 46.\<close>

definition cap_ok :: "u64 \<Rightarrow> bool" where "cap_ok c = (0 < unat c \<and> unat c < 2 ^ 30)"

definition child_ok :: "lb_sys \<Rightarrow> sched_domain \<Rightarrow> bool" where
  "child_ok sys sd = (case sd_child sd of None \<Rightarrow> True
   | Some c \<Rightarrow> (let caps = map fst (child_capacities sys c (hd (sd_groups sd))) in
       caps \<noteq> [] \<and> length caps < 2 ^ 16 \<and> (\<forall>x\<in>set caps. cap_ok x)))"

definition caps_ok :: "lb_sys \<Rightarrow> sched_domain \<Rightarrow> bool" where
  "caps_ok sys sd = (sd_groups sd \<noteq> [] \<and> length (sd_groups sd) < 2 ^ 16 \<and> sd_span_weight sd \<noteq> 0 \<and>
     (\<forall>i. unat (r_arch_capacity (s_rqs sys i)) < 2 ^ 30) \<and> child_ok sys sd \<and>
     (\<forall>g\<in>set (sd_groups sd). 0 < unat (sgc_capacity (sg_sgc g)) \<and> unat (sgc_capacity (sg_sgc g)) < 2 ^ 46))"

lemma sum_capacity_bounds:
  assumes "\<forall>c\<in>set xs. cap_ok (fst c)" and "unat (fst acc) + length xs * 2 ^ 30 < 2 ^ 60"
  shows "unat (fst acc) + length xs \<le> unat (fst (fold sum_capacity xs acc)) \<and>
    unat (fst (fold sum_capacity xs acc)) \<le> unat (fst acc) + length xs * 2 ^ 30"
  using assms
proof (induction xs arbitrary: acc)
  case (Cons c xs)
  have c: "0 < unat (fst c)" "unat (fst c) < 2 ^ 30" using Cons.prems(1) by (simp_all add: cap_ok_def)
  have "unat (fst (sum_capacity c acc)) = unat (fst acc) + unat (fst c)"
    using c Cons.prems(2) by (cases c; cases acc) (simp add: sum_capacity_def unat_u64_add_small)
  then show ?case using Cons.IH [of "sum_capacity c acc"] Cons.prems c by simp
qed simp

lemma scale_rt_capacity_bound:
  assumes "unat (r_arch_capacity rq) < 2 ^ 30"
  shows "unat (scale_rt_capacity rq) < 2 ^ 30"
proof -
  let ?mx = "r_arch_capacity rq" and ?irq = "r_irq_util rq"
  let ?used = "r_rt_util rq + r_dl_util rq + r_thermal rq"
  show ?thesis
  proof (cases "?irq \<ge> ?mx \<or> ?used \<ge> ?mx")
    case False
    then have lt: "?irq < ?mx" "?used < ?mx" by auto
    have a: "unat (?mx - ?used) \<le> unat ?mx" "unat (?mx - ?irq) \<le> unat ?mx"
      using lt by (simp_all add: unat_sub less_imp_le)
    then have "unat (?mx - ?used) * unat (?mx - ?irq) < 2 ^ 30 * 2 ^ 30"
      using assms by (intro mult_strict_mono order_le_less_trans [OF a(1)] order_le_less_trans [OF a(2)]) simp_all
    then have "unat ((?mx - ?used) * (?mx - ?irq) div ?mx) = unat (?mx - ?used) * unat (?mx - ?irq) div unat ?mx"
      by (simp add: unat_div unat_u64_mult_small)
    also have "\<dots> \<le> unat (?mx - ?used) * unat ?mx div unat ?mx"
      using a(2) by (intro div_le_mono mult_le_mono) simp_all
    also have "\<dots> \<le> unat ?mx" using a(1) by simp
    finally show ?thesis using False assms by (simp add: scale_rt_capacity_def scale_irq_capacity_def Let_def)
  qed (auto simp: scale_rt_capacity_def Let_def)
qed

lemma update_group_capacity_caps:
  assumes "caps_ok sys sd" and "update_group_capacity conf cpu (sys, sd) = (sys', sd')"
  shows "caps_ok sys' sd'"
proof -
  obtain g gs where g: "sd_groups sd = g # gs" using assms(1) by (cases "sd_groups sd") (auto simp: caps_ok_def)
  show ?thesis
  proof (cases "sd_child sd")
    case None
    let ?cap = "if scale_rt_capacity (s_rqs sys cpu) = 0 then 1 else scale_rt_capacity (s_rqs sys cpu)"
    have "unat (scale_rt_capacity (s_rqs sys cpu)) < 2 ^ 30"
      using assms(1) by (intro scale_rt_capacity_bound) (simp add: caps_ok_def)
    then have "0 < unat ?cap \<and> unat ?cap < 2 ^ 46" by (auto simp: unat_gt_0)
    then show ?thesis using assms g None
      by (auto simp: update_group_capacity_def update_cpu_capacity_def caps_ok_def child_ok_def update_sgc_def Let_def)
  next
    case (Some c)
    let ?xs = "child_capacities sys c (hd (sd_groups sd))"
    have "?xs \<noteq> []" "length ?xs < 2 ^ 16" "\<forall>x\<in>set ?xs. cap_ok (fst x)"
      using assms(1) Some by (auto simp: caps_ok_def child_ok_def Let_def)
    then have sum: "0 < unat (fst (fold sum_capacity ?xs (0, - 1, 0))) \<and>
        unat (fst (fold sum_capacity ?xs (0, - 1, 0))) < 2 ^ 46"
      using sum_capacity_bounds [of ?xs "(0, - 1, 0)"] by (cases ?xs) auto
    obtain a mn mx where f: "fold sum_capacity ?xs (0, - 1, 0) = (a, mn, mx)" by (cases "fold sum_capacity ?xs (0, - 1, 0)")
    let ?due = "s_jiffies sys + min (max (to_jiffies conf (ucast (sd_interval sd))) 1) (max_balance_interval conf)"
    have s': "sys' = sys" using assms(2) Some by (simp add: update_group_capacity_def Let_def)
    have "sd' = sd\<lparr>sd_groups := update_sgc (\<lambda>s. s\<lparr>sgc_next_update := ?due, sgc_capacity := a,
        sgc_min := mn, sgc_max := mx\<rparr>) g # gs\<rparr>"
      using assms(2) Some g f unfolding s' by (simp add: update_group_capacity_def Let_def)
    then show ?thesis using assms(1) g Some sum f s'
      by (auto simp: caps_ok_def child_ok_def child_capacities_def update_sgc_def Let_def)
  qed
qed

text \<open>What holds after \<open>k\<close> groups have been seen.\<close>

definition seen_ok :: "nat \<Rightarrow> sd_state \<Rightarrow> bool" where
  "seen_ok k st = (case st of (sys, sd, sds, u, status) \<Rightarrow> caps_ok sys sd \<and>
     (0 < k \<longrightarrow> local_group sds \<noteq> None \<and> group_capacity (local_stat sds) \<noteq> 0 \<and> 0 < unat (total_capacity sds)) \<and>
     unat (total_capacity sds) \<le> k * 2 ^ 46 \<and>
     (busiest_group sds = None \<longrightarrow> gtype (busiest_stat sds) = group_has_spare))"

lemma group_capacity_stats:
  assumes "caps_ok sys sd" and "k < length (sd_groups sd)" and "local_group sds \<noteq> None"
  shows "\<exists>s st. update_sg_lb_stats conf sys sd env sds k status = Some (s, st) \<and> group_capacity s \<noteq> 0 \<and>
    0 < unat (group_capacity s) \<and> unat (group_capacity s) < 2 ^ 46"
proof -
  let ?c = "sgc_capacity (sg_sgc (sd_groups sd ! k))"
  have c: "0 < unat ?c" "unat ?c < 2 ^ 46" using assms(1,2) by (simp_all add: caps_ok_def)
  then have "?c \<noteq> 0" by auto
  then show ?thesis using c assms(3)
    by (auto simp: update_sg_lb_stats_def average_load_def Let_def split: prod.split)
qed

lemma total_grows:
  assumes "unat (t :: u64) \<le> k * 2 ^ 46" and "0 < unat c" and "unat c < 2 ^ 46" and "k < 2 ^ 16"
  shows "0 < unat (t + c) \<and> unat (t + c) \<le> (k + 1) * 2 ^ 46"
proof -
  have "k * 2 ^ 46 \<le> 2 ^ 16 * (2 ^ 46 :: nat)" using assms(4) by (intro mult_le_mono) simp_all
  then have "unat (t + c) = unat t + unat c" using assms(1,3) by (intro unat_u64_add_small) simp
  then show ?thesis using assms(1-3) by simp
qed

lemma pick_defined:
  assumes "busiest_group sds = None \<longrightarrow> gtype (busiest_stat sds) = group_has_spare"
  shows "\<exists>p. update_sd_pick_busiest sys sd env sds sg s = Some p"
proof (cases "gtype s = group_asym_packing \<and> busiest_group sds = None")
  case True
  then show ?thesis using assms by (auto simp: update_sd_pick_busiest_def group_order Let_def)
next
  case False
  then obtain more where "busier_of_type sd sds sg s = Some more"
    by (cases "gtype s"; cases "busiest_group sds") (auto simp: busier_of_type_def Let_def)
  then show ?thesis by (auto simp: update_sd_pick_busiest_def Let_def)
qed

lemma visit_group_returns:
  assumes "seen_ok k (sys, sd, sds, u, status)" and "k < length (sd_groups sd)"
    and "k = 0 \<longrightarrow> e_dst_cpu env \<in> set (sg_span (sd_groups sd ! 0))"
  shows "\<exists>st. visit_group conf env k (sys, sd, sds, u, status) = Some st \<and> seen_ok (Suc k) st"
proof -
  have caps: "caps_ok sys sd" and tot: "unat (total_capacity sds) \<le> k * 2 ^ 46" and k: "k < 2 ^ 16"
      and bs: "busiest_group sds = None \<longrightarrow> gtype (busiest_stat sds) = group_has_spare"
    using assms(1,2) by (auto simp: seen_ok_def caps_ok_def)
  show ?thesis
  proof (cases "e_dst_cpu env \<in> set (sg_span (sd_groups sd ! k))")
    case True
    let ?due = "e_idle env \<noteq> CPU_NEWLY_IDLE \<or>
        time_after_eq (s_jiffies sys) (sgc_next_update (sg_sgc (sd_groups sd ! k)))"
    define cap where "cap = (if ?due then update_group_capacity conf (e_dst_cpu env) (sys, sd) else (sys, sd))"
    obtain sys1 sd1 where c: "cap = (sys1, sd1)" by (cases cap)
    have c1: "caps_ok sys1 sd1" and shape: "same_shape sd1 sd"
      using c caps update_group_capacity_caps update_group_capacity_shape unfolding cap_def by (auto split: if_splits)
    let ?sds = "sds\<lparr>local_group := Some k\<rparr>"
    have v: "visit_group conf env k (sys, sd, sds, u, status) =
        update_sg_lb_stats conf sys1 sd1 env ?sds k status \<bind> (\<lambda>(s, st).
          Some (sys1, sd1, ?sds\<lparr>local_stat := s, total_load := total_load ?sds + group_load s,
            total_capacity := total_capacity ?sds + group_capacity s\<rparr>, u + group_util s, st))"
      unfolding visit_group_def prod.case Let_def using True c unfolding cap_def by (simp only: if_True prod.case)
    have "k < length (sd_groups sd1)" "local_group ?sds \<noteq> None"
      using assms(2) same_shape_fields(1) [OF shape] by simp_all
    then obtain s st where s: "update_sg_lb_stats conf sys1 sd1 env ?sds k status = Some (s, st)"
        "group_capacity s \<noteq> 0" "0 < unat (group_capacity s)" "unat (group_capacity s) < 2 ^ 46"
      using group_capacity_stats [OF c1] by blast
    show ?thesis unfolding v s(1) using s(2) c1 bs total_grows [OF tot s(3,4) k] by (simp add: seen_ok_def)
  next
    case False
    then have pos: "0 < k" using assms(3) by (cases k) simp_all
    then have l: "local_group sds \<noteq> None" "group_capacity (local_stat sds) \<noteq> 0" using assms(1) by (simp_all add: seen_ok_def)
    obtain s st where s: "update_sg_lb_stats conf sys sd env sds k status = Some (s, st)"
        "group_capacity s \<noteq> 0" "0 < unat (group_capacity s)" "unat (group_capacity s) < 2 ^ 46"
      using group_capacity_stats [OF caps assms(2) l(1)] by blast
    obtain p where p: "update_sd_pick_busiest sys sd env sds (sd_groups sd ! k) s = Some p"
      using pick_defined [OF bs] by blast
    have v: "visit_group conf env k (sys, sd, sds, u, status) =
        (let sds = (if p then sds\<lparr>busiest_group := Some k, busiest_stat := s\<rparr> else sds) in
          Some (sys, sd, sds\<lparr>total_load := total_load sds + group_load s,
            total_capacity := total_capacity sds + group_capacity s\<rparr>, u + group_util s, st))"
      unfolding visit_group_def prod.case Let_def using False s(1) p by simp
    show ?thesis unfolding v using caps l bs total_grows [OF tot s(3,4) k] by (simp add: seen_ok_def Let_def)
  qed
qed

lemma visit_groups_return:
  assumes "seen_ok k (sys, sd, sds, u, status)" and "k \<le> n" and "n = length (sd_groups sd)"
    and "k = 0 \<longrightarrow> e_dst_cpu env \<in> set (sg_span (sd_groups sd ! 0))"
  shows "\<exists>st. visit_groups conf env [k..<n] (sys, sd, sds, u, status) = Some st \<and> seen_ok n st"
  using assms
proof (induction "n - k" arbitrary: k sys sd sds u status)
  case 0
  then show ?case by simp
next
  case (Suc j)
  then have k: "k < length (sd_groups sd)" by simp
  obtain st where v: "visit_group conf env k (sys, sd, sds, u, status) = Some st" and ok: "seen_ok (Suc k) st"
    using visit_group_returns [OF Suc.prems(1) k Suc.prems(4)] by blast
  obtain s1 d1 ds1 u1 o1 where st: "st = (s1, d1, ds1, u1, o1)" by (cases st) auto
  have "length (sd_groups d1) = length (sd_groups sd)"
    using visit_group_cases v same_shape_fields(1) unfolding st by (cases status) blast
  then have "\<exists>st'. visit_groups conf env [Suc k..<n] (s1, d1, ds1, u1, o1) = Some st' \<and> seen_ok n st'"
    using Suc.hyps(2) Suc.prems(2,3) k ok st by (intro Suc.hyps(1)) simp_all
  then show ?case using v k Suc.prems(3) by (simp add: upt_rec [of k] st)
qed

lemma idle_scan_returns: "sd_span_weight sd \<noteq> 0 \<Longrightarrow> \<exists>sys'. update_idle_cpu_scan conf sd env u sys = Some sys'"
  by (auto simp: update_idle_cpu_scan_def idle_scan_value_def Let_def split: option.split)

lemma update_sd_lb_stats_returns:
  assumes "caps_ok sys sd" and "e_dst_cpu env \<in> set (sg_span (sd_groups sd ! 0))"
  shows "\<exists>sys' sd' env' sds. update_sd_lb_stats conf sys sd env init_sd_lb_stats = Some (sys', sd', env', sds) \<and>
    caps_ok sys' sd' \<and> group_capacity (local_stat sds) \<noteq> 0 \<and> total_capacity sds \<noteq> 0"
proof -
  have "seen_ok 0 (sys, sd, init_sd_lb_stats, 0, False, False)"
    using assms(1) by (simp add: seen_ok_def init_sd_lb_stats_def)
  then obtain st where v: "visit_groups conf env [0..<length (sd_groups sd)] (sys, sd, init_sd_lb_stats, 0, False, False) = Some st"
      and ok: "seen_ok (length (sd_groups sd)) st"
    using visit_groups_return assms(2) by blast
  obtain s1 d1 ds1 u1 o1 v1 where st: "st = (s1, d1, ds1, u1, o1, v1)" by (cases st) auto
  have l: "caps_ok s1 d1" "group_capacity (local_stat ds1) \<noteq> 0" "total_capacity ds1 \<noteq> 0"
    using ok assms(1) unfolding st by (auto simp: seen_ok_def caps_ok_def)
  define ds2 where "ds2 = ds1\<lparr>prefer_sibling := (case sd_child d1 of None \<Rightarrow> False | Some c \<Rightarrow> cd_prefer_sibling c)\<rparr>"
  define env1 where "env1 = (if sd_numa d1 then env\<lparr>e_fbq := fbq_classify_group (busiest_stat ds2)\<rparr> else env)"
  define s2 where "s2 = (if sd_parent d1 = None then s1\<lparr>s_overload := o1, s_overutilized := v1\<rparr>
      else if v1 then s1\<lparr>s_overutilized := True\<rparr> else s1)"
  obtain s3 where s3: "update_idle_cpu_scan conf d1 env1 u1 s2 = Some s3"
    using idle_scan_returns l(1) by (meson caps_ok_def)
  have "s_rqs s3 = s_rqs s1" using update_idle_cpu_scan_rqs [OF s3] by (simp add: s2_def)
  then have c: "caps_ok s3 d1"
    using l(1) by (auto simp: caps_ok_def child_ok_def child_capacities_def capacity_of_def split: option.splits)
  have "update_sd_lb_stats conf sys sd env init_sd_lb_stats = Some (s3, d1, env1, ds2)"
    unfolding update_sd_lb_stats_def v st Option.bind.simps prod.case Let_def ds2_def [symmetric]
      env1_def [symmetric] s2_def [symmetric] s3 ..
  moreover have "local_stat ds2 = local_stat ds1" "total_capacity ds2 = total_capacity ds1" by (simp_all add: ds2_def)
  ultimately show ?thesis using c l by simp
qed

lemma worth_balancing_returns:
  assumes "total_capacity sds \<noteq> 0"
  shows "\<exists>v. worth_balancing sys sd env sds = Some v \<and>
    (\<forall>sds'. v = Some sds' \<longrightarrow> local_stat sds' = local_stat sds \<and> total_capacity sds' = total_capacity sds)"
proof -
  have "\<exists>c. overload_check sd sds = Some c \<and>
      (\<forall>sds'. c = Some sds' \<longrightarrow> local_stat sds' = local_stat sds \<and> total_capacity sds' = total_capacity sds)"
    using assms by (auto simp: overload_check_def average_of_def Let_def)
  then obtain c where "overload_check sd sds = Some c"
      "\<forall>sds'. c = Some sds' \<longrightarrow> local_stat sds' = local_stat sds \<and> total_capacity sds' = total_capacity sds" by blast
  then show ?thesis by (cases c) (auto simp: worth_balancing_def Let_def)
qed

lemma calculate_imbalance_returns:
  "total_capacity sds \<noteq> 0 \<Longrightarrow> group_capacity (local_stat sds) \<noteq> 0 \<Longrightarrow> \<exists>env'. calculate_imbalance sd env sds = Some env'"
  by (auto simp: calculate_imbalance_def average_load_def average_of_def Let_def)

lemma find_busiest_group_returns:
  assumes "caps_ok sys sd" and "e_dst_cpu env \<in> set (sg_span (sd_groups sd ! 0))"
  shows "\<exists>sys' sd' env' g. find_busiest_group conf sys sd env = Some (sys', sd', env', g) \<and> caps_ok sys' sd'"
proof -
  obtain s1 d1 e1 ds where u: "update_sd_lb_stats conf sys sd env init_sd_lb_stats = Some (s1, d1, e1, ds)"
      and c: "caps_ok s1 d1" and l: "group_capacity (local_stat ds) \<noteq> 0" "total_capacity ds \<noteq> 0"
    using update_sd_lb_stats_returns [OF assms] by blast
  obtain v where w: "worth_balancing s1 d1 e1 ds = Some v"
      and k: "\<forall>sds'. v = Some sds' \<longrightarrow> local_stat sds' = local_stat ds \<and> total_capacity sds' = total_capacity ds"
    using worth_balancing_returns [OF l(2)] by blast
  show ?thesis
  proof (cases v)
    case None
    then show ?thesis using u w c by (simp add: find_busiest_group_def)
  next
    case (Some ds')
    then obtain e2 where "calculate_imbalance d1 e1 ds' = Some e2"
      using calculate_imbalance_returns [of ds' d1 e1] k l by auto
    then show ?thesis using u w c Some by (simp add: find_busiest_group_def)
  qed
qed

lemma passed_caps:
  assumes "passed C (s1, e1) (s2, e2)" and "caps_ok s1 sd"
  shows "caps_ok s2 (parent_pinned env sd)"
proof -
  have "r_arch_capacity (s_rqs s2 i) = r_arch_capacity (s_rqs s1 i) \<and> capacity_of s2 i = capacity_of s1 i" for i
    using assms(1) by (simp add: passed_def same_capacity_def capacity_of_def)
  then show ?thesis using assms(2)
    by (auto simp: caps_ok_def child_ok_def child_capacities_def parent_pinned_def split: option.splits)
qed

section \<open>The attempt ends\<close>

lemma balance_redo_returns:
  assumes "core_ok lib" and "1 \<le> N" and "N < 2 ^ 31" and "N + 32 < k" and "(L + 1) * (N + 1) \<le> m"
    and "caps_ok sys sd" and "\<forall>i. crowd N (s_rqs sys i)" and "e_tasks env = []" and "\<not> DST_PINNED env"
    and "\<not> NEED_BREAK env" and "e_loop env = 0" and "e_loop_break env = 32"
    and "e_dst_grpmask env = sg_span (sd_groups sd ! 0)" and "e_dst_cpu env \<in> set (sg_span (sd_groups sd ! 0))"
    and "length (e_cpus env) \<le> L" and "card (set (e_cpus env)) < n"
  shows "\<exists>res. balance_redo conf lib k m this_cpu n sys sd env = Some res"
  using assms(6-)
proof (induction n arbitrary: sys sd env)
  case (Suc n)
  show ?case
  proof (cases "should_we_balance sys sd env")
    case should: True
    then have dst: "e_dst_cpu env \<in> set (e_cpus env)" by (auto simp: should_we_balance_def Let_def split: if_splits)
    obtain s1 d1 e1 g where f: "find_busiest_group conf sys sd env = Some (s1, d1, e1, g)" and c1: "caps_ok s1 d1"
      using find_busiest_group_returns [OF Suc.prems(1,9)] by blast
    note fr = find_busiest_group_frame [OF f]
    show ?thesis
    proof (cases "Option.bind g (\<lambda>g. find_busiest_queue conf s1 d1 e1 (sd_groups d1 ! g))")
      case (Some busiest)
      then have b: "busiest \<in> set (e_cpus env)"
        using fr by (cases g) (auto simp: same_course_def dest: find_busiest_queue_cpu)
      let ?e = "source_env conf busiest s1 e1"
      have e: "e_tasks ?e = []" "pins_ok ?e" "e_cpus ?e = e_cpus env" "e_dst_cpu ?e = e_dst_cpu env"
          "e_dst_grpmask ?e = e_dst_grpmask env" "e_src_cpu ?e = busiest" "loop_ok N ?e" "e_loop ?e = 0"
        using fr Suc.prems assms(2) by (auto simp: source_env_def same_course_def pins_ok_def loop_ok_def)
      have crowd1: "\<forall>i. crowd N (s_rqs s1 i)" using fr Suc.prems(2) by (simp add: same_tasks_def crowd_def)
      have "length (e_cpus env) * (N + 1) + N < (L + 1) * (N + 1)"
        using mult_le_mono1 [OF Suc.prems(10), of "N + 1"] by simp
      then have "passes_left N ?e < m" using assms(5) e by (simp add: passes_left_def)
      then obtain s2 e2 ld where mb: "more_balance conf lib k d1 m (s1, ?e, 0) = Some (s2, e2, ld)"
        using more_balance_returns [OF assms(1,3,2,4), of s1 ?e m conf d1 0] crowd1 e dst by auto
      let ?C = "insert busiest (insert (e_dst_cpu env) (set (e_dst_grpmask env)))"
      have p: "passed ?C (s1, ?e) (s2, e2) \<and> e_tasks e2 = [] \<and> pins_ok e2 \<and> (ALL_PINNED e2 \<longrightarrow> \<not> DST_PINNED e2)"
        using e by (intro more_balance_passed [OF assms(1) mb e(1,2)]) auto
      have again: "\<exists>res. balance_redo conf lib k m this_cpu n s2 (parent_pinned e2 d1) (redo_env busiest e2) = Some res"
        if pin: "ALL_PINNED e2"
      proof (rule Suc.IH)
        show "caps_ok s2 (parent_pinned e2 d1)" using passed_caps p c1 by blast
        show "\<forall>i. crowd N (s_rqs s2 i)" using p pin crowd1 by (simp add: passed_def same_counts_def crowd_def)
        have g: "sd_groups (parent_pinned e2 d1) = sd_groups d1" by (simp add: parent_pinned_def)
        have "0 < length (sd_groups sd)" using Suc.prems(1) by (simp add: caps_ok_def)
        then have sp: "sg_span (sd_groups d1 ! 0) = sg_span (sd_groups sd ! 0)"
          using fr same_shape_fields(3) by blast
        show "e_dst_grpmask (redo_env busiest e2) = sg_span (sd_groups (parent_pinned e2 d1) ! 0)"
          using p e Suc.prems(8) by (simp add: g sp redo_env_def passed_def)
        show "e_dst_cpu (redo_env busiest e2) \<in> set (sg_span (sd_groups (parent_pinned e2 d1) ! 0))"
          using p e Suc.prems(8,9) by (auto simp: g sp redo_env_def passed_def)
        show "length (e_cpus (redo_env busiest e2)) \<le> L"
        proof -
          have "length (e_cpus (redo_env busiest e2)) \<le> length (e_cpus e2)" by (simp add: redo_env_def)
          moreover have "length (e_cpus e2) \<le> length (e_cpus env)" using p e(3) by (auto simp: passed_def)
          ultimately show ?thesis using Suc.prems(10) by linarith
        qed
        have "set (e_cpus (redo_env busiest e2)) \<subset> set (e_cpus env)"
          using p e b by (auto simp: redo_env_def passed_def)
        then have "card (set (e_cpus (redo_env busiest e2))) < card (set (e_cpus env))"
          by (rule psubset_card_mono [OF finite_set])
        then show "card (set (e_cpus (redo_env busiest e2))) < n" using Suc.prems(11) by simp
      qed (use p pin more_balance_unbroken [OF mb] in \<open>auto simp: redo_env_def passed_def\<close>)
      show ?thesis
        using should f Some mb again unfolding source_env_def redo_env_def
        by (auto simp: Let_def split: prod.splits)
    qed (auto simp: should f)
  qed auto
qed simp

section \<open>The balancing pass\<close>

text \<open>
  C12. \<open>load_balance\<close> returns, and without a division by zero: whatever the statistics, the pinned tasks and
  the jumps to \<open>redo\<close>, \<open>more_balance\<close> and \<open>next\<close>, the pass ends. With at most \<open>N\<close> tasks on a runqueue and
  \<open>c\<close> CPUs in the domain, \<open>N + 33\<close> turns of the detach loop, \<open>(c + 1) * (N + 1)\<close> passes over a busiest
  queue and \<open>c + 1\<close> searches for one are always enough, as a repeated pass drops a destination CPU or gets
  further down the list, and a repeated search drops a source CPU. It needs that the groups have a
  capacity that is not 0 and that \<open>nr_running\<close> counts at least the tasks of the list.
\<close>
theorem load_balance_returns:
  assumes "core_ok lib" and "caps_ok sys sd" and "this_cpu \<in> set (sg_span (sd_groups sd ! 0))"
    and "\<forall>i. crowd N (s_rqs sys i)" and "1 \<le> N" and "N < 2 ^ 31"
    and "N + 32 < k" and "(length (sd_span sd) + 1) * (N + 1) \<le> m" and "length (sd_span sd) < n"
  shows "\<exists>res. load_balance conf lib k m n this_cpu sys sd idle = Some res"
proof -
  let ?e = "balance_env sys sd this_cpu idle"
  have hd: "hd (sd_groups sd) = sd_groups sd ! 0"
    using assms(2) by (auto simp: caps_ok_def hd_conv_nth)
  have len: "length (e_cpus ?e) \<le> length (sd_span sd)"
    by (simp add: balance_env_def mask_and_def)
  then have "card (set (e_cpus ?e)) < n"
    using card_length [of "e_cpus ?e"] assms(9) by linarith
  then show ?thesis
    unfolding load_balance_def
    using assms len hd by (intro balance_redo_returns [OF assms(1,5,6,7,8)]) (simp_all add: balance_env_def)
qed

theorem load_balance_returns_witness:
  "\<exists>res. load_balance demo_lb_conf demo_core 36 16 4 0 (demo_lb_sys demo_crowd) demo_sd CPU_IDLE = Some res"
proof (rule load_balance_returns [OF demo_core_ok, where N = 3])
  show "caps_ok (demo_lb_sys demo_crowd) demo_sd"
    by (auto simp: caps_ok_def child_ok_def demo_lb_defs)
  show "\<forall>i. crowd 3 (s_rqs (demo_lb_sys demo_crowd) i)"
    by (simp add: crowd_def demo_lb_defs demo_crowd_def)
qed (simp_all add: demo_lb_defs)

end
