(* ===== verification/Kernel_Bandwidth.thy ===== *)
theory Kernel_Bandwidth
  imports Kernel_Clock "HOL-Library.While_Combinator"
begin

text \<open>
  The bandwidth control of src/apex-cfs/docs/fair.c (CONFIG_CFS_BANDWIDTH): a task group has a
  pool of run time that a timer refills once in a period; the runqueue of the group on each CPU
  takes slices from the pool, pays for the time its tasks run, and is throttled when it has
  nothing left and the pool is empty.

  The model is one group without child groups, on any number of CPUs, built without
  CONFIG_JUMP_LABEL. A CPU is a number and stands for the group's runqueue on it. Throttling also
  takes the entity of the group off the runqueues of its ancestors and unthrottling puts it
  back and may reschedule an idle CPU; those runqueues belong to other groups and are not part
  of the state, nor is the list of leaf runqueues. The clocks of the
  CPUs and the state of the high-resolution timers are arguments; calls that start, move or cancel a
  timer are logged. Locks and RCU sections have no definition. Statistics counters wrap around.
\<close>

section \<open>State\<close>

abbreviation (input) RUNTIME_INF :: u64 where "RUNTIME_INF \<equiv> - 1"
abbreviation (input) NSEC_PER_USEC :: u64 where "NSEC_PER_USEC \<equiv> 1000"
abbreviation (input) min_cfs_rq_runtime :: u64 where "min_cfs_rq_runtime \<equiv> 1000000"
abbreviation (input) min_bandwidth_expiration :: u64 where "min_bandwidth_expiration \<equiv> 2000000"
abbreviation (input) cfs_bandwidth_slack_period :: u64 where "cfs_bandwidth_slack_period \<equiv> 5000000"

datatype timer_call =
    Forward_period u64
  | Start_period
  | Start_slack u64
  | Cancel_period
  | Cancel_slack

record cfs_bandwidth =
  bw_period :: u64
  quota :: u64
  pool :: u64
  burst :: u64
  runtime_snap :: u64
  bw_idle :: bool
  period_active :: bool
  slack_started :: bool
  throttled_rqs :: "nat list"
  nr_periods :: u32
  nr_throttled :: u32
  nr_burst :: u32
  throttled_time :: u64
  burst_time :: u64
  timer_calls :: "timer_call list"

record group_rq =
  runtime_enabled :: bool
  runtime_remaining :: u64
  throttled_pelt_idle :: u64
  throttled_clock :: u64
  throttled_clock_pelt :: u64
  throttled_clock_pelt_time :: u64
  throttled :: bool
  throttle_count :: int
  group_nr_running :: u32
  has_curr :: bool

text \<open>The group: its bandwidth, its runqueues, and the CPUs \<open>resched_curr\<close> was called for.\<close>

record task_group =
  bw :: cfs_bandwidth
  grq :: "nat \<Rightarrow> group_rq"
  rescheds :: "nat list"

text \<open>What the code reads of the refresh timer.\<close>

record timer_view =
  callback_running :: bool
  expires_remaining :: u64

definition at_grq :: "nat \<Rightarrow> (group_rq \<Rightarrow> group_rq) \<Rightarrow> task_group \<Rightarrow> task_group" where
  "at_grq c f g = g\<lparr>grq := (grq g)(c := f (grq g c))\<rparr>"

definition at_bw :: "(cfs_bandwidth \<Rightarrow> cfs_bandwidth) \<Rightarrow> task_group \<Rightarrow> task_group" where
  "at_bw f g = g\<lparr>bw := f (bw g)\<rparr>"

section \<open>The pool\<close>

definition cfs_bandwidth_used :: bool where
  "cfs_bandwidth_used = True"

definition default_cfs_period :: u64 where
  "default_cfs_period = 100000000"

definition sched_cfs_bandwidth_slice :: "u32 \<Rightarrow> u64" where
  "sched_cfs_bandwidth_slice slice_us = ucast slice_us * NSEC_PER_USEC"

definition refill_cfs_bandwidth_runtime :: "cfs_bandwidth \<Rightarrow> cfs_bandwidth" where
  "refill_cfs_bandwidth_runtime b =
     (if quota b = RUNTIME_INF then b
      else let b = b\<lparr>pool := pool b + quota b\<rparr>;
               runtime = runtime_snap b - pool b;
               b = (if 0 < sint runtime
                    then b\<lparr>burst_time := burst_time b + runtime, nr_burst := nr_burst b + 1\<rparr> else b);
               b = b\<lparr>pool := min (pool b) (quota b + burst b)\<rparr>
        in b\<lparr>runtime_snap := pool b\<rparr>)"

definition start_cfs_bandwidth :: "cfs_bandwidth \<Rightarrow> cfs_bandwidth" where
  "start_cfs_bandwidth b =
     (if period_active b then b
      else b\<lparr>period_active := True, timer_calls := timer_calls b @ [Forward_period (bw_period b), Start_period]\<rparr>)"

text \<open>The first component is the answer: whether there is run time now.\<close>

definition assign_runtime :: "u64 \<Rightarrow> nat \<Rightarrow> task_group \<Rightarrow> bool \<times> task_group" where
  "assign_runtime target_runtime c g =
     (let min_amount = target_runtime - runtime_remaining (grq g c);
          b = bw g;
          (amount, b) =
            (if quota b = RUNTIME_INF then (min_amount, b)
             else let b = start_cfs_bandwidth b in
               if 0 < pool b
               then let amount = min (pool b) min_amount
                    in (amount, b\<lparr>pool := pool b - amount, bw_idle := False\<rparr>)
               else (0, b));
          g = g\<lparr>bw := b\<rparr>;
          g = at_grq c (\<lambda>l. l\<lparr>runtime_remaining := runtime_remaining l + amount\<rparr>) g
      in (0 < sint (runtime_remaining (grq g c)), g))"

definition assign_cfs_rq_runtime :: "u32 \<Rightarrow> nat \<Rightarrow> task_group \<Rightarrow> bool \<times> task_group" where
  "assign_cfs_rq_runtime slice_us c g = assign_runtime (sched_cfs_bandwidth_slice slice_us) c g"

section \<open>Paying for run time\<close>

definition charge_cfs_rq_runtime :: "u32 \<Rightarrow> u64 \<Rightarrow> nat \<Rightarrow> task_group \<Rightarrow> task_group" where
  "charge_cfs_rq_runtime slice_us delta_exec c g =
     (let g = at_grq c (\<lambda>l. l\<lparr>runtime_remaining := runtime_remaining l - delta_exec\<rparr>) g in
      if 0 < sint (runtime_remaining (grq g c)) then g
      else if throttled (grq g c) then g
      else let (ok, g) = assign_cfs_rq_runtime slice_us c g in
        if \<not> ok \<and> has_curr (grq g c) then g\<lparr>rescheds := rescheds g @ [c]\<rparr> else g)"

definition account_cfs_rq_runtime :: "u32 \<Rightarrow> u64 \<Rightarrow> nat \<Rightarrow> task_group \<Rightarrow> task_group" where
  "account_cfs_rq_runtime slice_us delta_exec c g =
     (if \<not> cfs_bandwidth_used \<or> \<not> runtime_enabled (grq g c) then g
      else charge_cfs_rq_runtime slice_us delta_exec c g)"

definition cfs_rq_throttled :: "group_rq \<Rightarrow> bool" where
  "cfs_rq_throttled l \<longleftrightarrow> cfs_bandwidth_used \<and> throttled l"

definition throttled_hierarchy :: "group_rq \<Rightarrow> bool" where
  "throttled_hierarchy l \<longleftrightarrow> cfs_bandwidth_used \<and> throttle_count l \<noteq> 0"

definition throttled_lb_pair :: "task_group \<Rightarrow> nat \<Rightarrow> nat \<Rightarrow> bool" where
  "throttled_lb_pair g src dest \<longleftrightarrow> throttled_hierarchy (grq g src) \<or> throttled_hierarchy (grq g dest)"

section \<open>Throttling\<close>

text \<open>The clock of the load tracking on a runqueue of the group (pelt.h).\<close>

definition cfs_rq_clock_pelt :: "clock_rq \<Rightarrow> group_rq \<Rightarrow> u64" where
  "cfs_rq_clock_pelt k l =
     (if throttle_count l \<noteq> 0 then throttled_clock_pelt l - throttled_clock_pelt_time l
      else rq_clock_pelt k - throttled_clock_pelt_time l)"

definition update_idle_cfs_rq_clock_pelt :: "group_rq \<Rightarrow> group_rq" where
  "update_idle_cfs_rq_clock_pelt l =
     (let t = (if throttle_count l \<noteq> 0 then - 1 else throttled_clock_pelt_time l)
      in l\<lparr>throttled_pelt_idle := t\<rparr>)"

definition tg_throttle_down :: "clock_rq \<Rightarrow> group_rq \<Rightarrow> group_rq" where
  "tg_throttle_down k l =
     (let l = (if throttle_count l = 0 then l\<lparr>throttled_clock_pelt := rq_clock_pelt k\<rparr> else l)
      in l\<lparr>throttle_count := throttle_count l + 1\<rparr>)"

definition tg_unthrottle_up :: "clock_rq \<Rightarrow> group_rq \<Rightarrow> group_rq" where
  "tg_unthrottle_up k l =
     (let l = l\<lparr>throttle_count := throttle_count l - 1\<rparr> in
      if throttle_count l = 0
      then l\<lparr>throttled_clock_pelt_time := throttled_clock_pelt_time l
               + (rq_clock_pelt k - throttled_clock_pelt l)\<rparr>
      else l)"

definition throttle_cfs_rq :: "(nat \<Rightarrow> clock_rq) \<Rightarrow> nat \<Rightarrow> task_group \<Rightarrow> bool \<times> task_group" where
  "throttle_cfs_rq K c g =
     (let (ok, g) = assign_runtime 1 c g in
      if ok then (False, g)
      else let g = at_bw (\<lambda>b. b\<lparr>throttled_rqs := throttled_rqs b @ [c]\<rparr>) g;
               g = at_grq c (tg_throttle_down (K c)) g;
               g = at_grq c (\<lambda>l. l\<lparr>throttled := True, throttled_clock := clk (K c)\<rparr>) g
        in (True, g))"

definition unthrottle_cfs_rq :: "(nat \<Rightarrow> clock_rq) \<Rightarrow> nat \<Rightarrow> task_group \<Rightarrow> task_group" where
  "unthrottle_cfs_rq K c g =
     (let g = at_grq c (\<lambda>l. l\<lparr>throttled := False\<rparr>) g;
          g = at_bw (\<lambda>b. b\<lparr>throttled_time := throttled_time b + (clk (K c) - throttled_clock (grq g c)),
                               throttled_rqs := remove1 c (throttled_rqs b)\<rparr>) g
      in at_grq c (tg_unthrottle_up (K c)) g)"

definition check_enqueue_throttle :: "u32 \<Rightarrow> (nat \<Rightarrow> clock_rq) \<Rightarrow> nat \<Rightarrow> task_group \<Rightarrow> task_group" where
  "check_enqueue_throttle slice_us K c g =
     (if \<not> cfs_bandwidth_used then g
      else if \<not> runtime_enabled (grq g c) \<or> has_curr (grq g c) then g
      else if cfs_rq_throttled (grq g c) then g
      else let g = account_cfs_rq_runtime slice_us 0 c g in
        if sint (runtime_remaining (grq g c)) \<le> 0 then snd (throttle_cfs_rq K c g) else g)"

definition check_cfs_rq_runtime :: "(nat \<Rightarrow> clock_rq) \<Rightarrow> nat \<Rightarrow> task_group \<Rightarrow> bool \<times> task_group" where
  "check_cfs_rq_runtime K c g =
     (if \<not> cfs_bandwidth_used then (False, g)
      else if \<not> runtime_enabled (grq g c) \<or> 0 < sint (runtime_remaining (grq g c)) then (False, g)
      else if cfs_rq_throttled (grq g c) then (True, g)
      else throttle_cfs_rq K c g)"

text \<open>\<open>parent\<close> is the runqueue of the parent group on the CPU, when there is a parent.\<close>

definition sync_throttle :: "clock_rq \<Rightarrow> group_rq option \<Rightarrow> group_rq \<Rightarrow> group_rq" where
  "sync_throttle k parent l =
     (if \<not> cfs_bandwidth_used then l
      else case parent of None \<Rightarrow> l
        | Some p \<Rightarrow> l\<lparr>throttle_count := throttle_count p, throttled_clock_pelt := rq_clock_pelt k\<rparr>)"

section \<open>Distribution and the timers\<close>

fun distribute_loop :: "(nat \<Rightarrow> clock_rq) \<Rightarrow> nat list \<Rightarrow> task_group \<Rightarrow> task_group" where
  "distribute_loop K [] g = g"
| "distribute_loop K (c # cs) g =
     (if \<not> cfs_rq_throttled (grq g c) then distribute_loop K cs g
      else let runtime = - runtime_remaining (grq g c) + 1;
               runtime = (if pool (bw g) < runtime then pool (bw g) else runtime);
               g = at_bw (\<lambda>b. b\<lparr>pool := pool b - runtime\<rparr>) g;
               remaining = pool (bw g);
               g = at_grq c (\<lambda>l. l\<lparr>runtime_remaining := runtime_remaining l + runtime\<rparr>) g;
               g = (if 0 < sint (runtime_remaining (grq g c)) then unthrottle_cfs_rq K c g else g)
        in if remaining = 0 then g else distribute_loop K cs g)"

definition distribute_cfs_runtime :: "(nat \<Rightarrow> clock_rq) \<Rightarrow> task_group \<Rightarrow> task_group" where
  "distribute_cfs_runtime K g = distribute_loop K (throttled_rqs (bw g)) g"

text \<open>The answer \<open>True\<close> asks to deactivate the timer.\<close>

definition do_sched_cfs_period_timer ::
  "(nat \<Rightarrow> clock_rq) \<Rightarrow> u32 \<Rightarrow> task_group \<Rightarrow> (bool \<times> task_group) option" where
  "do_sched_cfs_period_timer K overrun g =
     (if quota (bw g) = RUNTIME_INF then Some (True, g)
      else let throttled = (throttled_rqs (bw g) \<noteq> []);
               g = at_bw (\<lambda>b. b\<lparr>nr_periods := nr_periods b + overrun\<rparr>) g;
               g = at_bw refill_cfs_bandwidth_runtime g in
        if bw_idle (bw g) \<and> \<not> throttled then Some (True, g)
        else if \<not> throttled then Some (False, at_bw (\<lambda>b. b\<lparr>bw_idle := True\<rparr>) g)
        else do {
          let g = at_bw (\<lambda>b. b\<lparr>nr_throttled := nr_throttled b + overrun\<rparr>) g;
          g \<leftarrow> while_option (\<lambda>g. throttled_rqs (bw g) \<noteq> [] \<and> 0 < pool (bw g)) (distribute_cfs_runtime K) g;
          Some (False, at_bw (\<lambda>b. b\<lparr>bw_idle := False\<rparr>) g)
        })"

definition runtime_refresh_within :: "timer_view \<Rightarrow> u64 \<Rightarrow> bool" where
  "runtime_refresh_within t min_expire \<longleftrightarrow>
     callback_running t \<or> sint (expires_remaining t) < sint min_expire"

definition start_cfs_slack_bandwidth :: "timer_view \<Rightarrow> cfs_bandwidth \<Rightarrow> cfs_bandwidth" where
  "start_cfs_slack_bandwidth t b =
     (let min_left = cfs_bandwidth_slack_period + min_bandwidth_expiration in
      if runtime_refresh_within t min_left then b
      else if slack_started b then b
      else b\<lparr>slack_started := True, timer_calls := timer_calls b @ [Start_slack cfs_bandwidth_slack_period]\<rparr>)"

definition give_back_cfs_rq_runtime :: "u32 \<Rightarrow> timer_view \<Rightarrow> nat \<Rightarrow> task_group \<Rightarrow> task_group" where
  "give_back_cfs_rq_runtime slice_us t c g =
     (let slack_runtime = runtime_remaining (grq g c) - min_cfs_rq_runtime in
      if sint slack_runtime \<le> 0 then g
      else let g = at_bw (\<lambda>b.
                 if quota b \<noteq> RUNTIME_INF
                 then let b = b\<lparr>pool := pool b + slack_runtime\<rparr> in
                   if sched_cfs_bandwidth_slice slice_us < pool b \<and> throttled_rqs b \<noteq> []
                   then start_cfs_slack_bandwidth t b else b
                 else b) g
        in at_grq c (\<lambda>l. l\<lparr>runtime_remaining := runtime_remaining l - slack_runtime\<rparr>) g)"

definition return_cfs_rq_runtime :: "u32 \<Rightarrow> timer_view \<Rightarrow> nat \<Rightarrow> task_group \<Rightarrow> task_group" where
  "return_cfs_rq_runtime slice_us t c g =
     (if \<not> cfs_bandwidth_used then g
      else if \<not> runtime_enabled (grq g c) \<or> group_nr_running (grq g c) \<noteq> 0 then g
      else give_back_cfs_rq_runtime slice_us t c g)"

definition do_sched_cfs_slack_timer :: "u32 \<Rightarrow> timer_view \<Rightarrow> (nat \<Rightarrow> clock_rq) \<Rightarrow> task_group \<Rightarrow> task_group" where
  "do_sched_cfs_slack_timer slice_us t K g =
     (let slice = sched_cfs_bandwidth_slice slice_us;
          g = at_bw (\<lambda>b. b\<lparr>slack_started := False\<rparr>) g in
      if runtime_refresh_within t min_bandwidth_expiration then g
      else let runtime = (if quota (bw g) \<noteq> RUNTIME_INF \<and> slice < pool (bw g) then pool (bw g) else 0)
        in if runtime = 0 then g else distribute_cfs_runtime K g)"

text \<open>
  The handler of the period timer. The list holds the answers of \<open>hrtimer_forward_now\<close>, each
  with the clocks the CPUs have then; the loop ends at the first 0, and the end of the list
  stands for it. \<open>max_period\<close> is \<open>max_cfs_quota_period\<close>, which fair.c takes from elsewhere. The
  warnings to the log have no definition.
\<close>

definition scale_period :: "u64 \<Rightarrow> cfs_bandwidth \<Rightarrow> cfs_bandwidth" where
  "scale_period max_period b =
     (let new = bw_period b * 2 in
      if new < max_period then b\<lparr>bw_period := new, quota := quota b * 2, burst := burst b * 2\<rparr> else b)"

fun period_timer_loop ::
  "u64 \<Rightarrow> (u32 \<times> (nat \<Rightarrow> clock_rq)) list \<Rightarrow> int \<Rightarrow> bool \<Rightarrow> task_group \<Rightarrow> (bool \<times> task_group) option" where
  "period_timer_loop max_period [] count idle g = Some (idle, g)"
| "period_timer_loop max_period ((overrun, K) # os) count idle g =
     (if overrun = 0 then Some (idle, g)
      else do {
        (idle, g) \<leftarrow> do_sched_cfs_period_timer K overrun g;
        if 3 < count + 1
        then period_timer_loop max_period os 0 idle (at_bw (scale_period max_period) g)
        else period_timer_loop max_period os (count + 1) idle g
      })"

text \<open>The answer says whether the timer is restarted.\<close>

definition sched_cfs_period_timer ::
  "u64 \<Rightarrow> (u32 \<times> (nat \<Rightarrow> clock_rq)) list \<Rightarrow> task_group \<Rightarrow> (bool \<times> task_group) option" where
  "sched_cfs_period_timer max_period os g = do {
     (idle, g) \<leftarrow> period_timer_loop max_period os 0 False g;
     let g = (if idle then at_bw (\<lambda>b. b\<lparr>period_active := False\<rparr>) g else g);
     Some (\<not> idle, g)
   }"

definition init_cfs_bandwidth :: "cfs_bandwidth \<Rightarrow> cfs_bandwidth" where
  "init_cfs_bandwidth b =
     b\<lparr>pool := 0, quota := RUNTIME_INF, bw_period := default_cfs_period, burst := 0,
       throttled_rqs := [], slack_started := False\<rparr>"

definition init_cfs_rq_runtime :: "group_rq \<Rightarrow> group_rq" where
  "init_cfs_rq_runtime l = l\<lparr>runtime_enabled := False\<rparr>"

text \<open>\<open>initialised\<close> is false when \<open>init_cfs_bandwidth\<close> has not been called.\<close>

definition destroy_cfs_bandwidth :: "bool \<Rightarrow> cfs_bandwidth \<Rightarrow> cfs_bandwidth" where
  "destroy_cfs_bandwidth initialised b =
     (if \<not> initialised then b else b\<lparr>timer_calls := timer_calls b @ [Cancel_period, Cancel_slack]\<rparr>)"

text \<open>What the hotplug callbacks do to one group on the CPU that comes or goes.\<close>

definition update_runtime_enabled :: "nat \<Rightarrow> task_group \<Rightarrow> task_group" where
  "update_runtime_enabled c g = at_grq c (\<lambda>l. l\<lparr>runtime_enabled := quota (bw g) \<noteq> RUNTIME_INF\<rparr>) g"

definition unthrottle_offline_cfs_rq :: "(nat \<Rightarrow> clock_rq) \<Rightarrow> nat \<Rightarrow> task_group \<Rightarrow> task_group" where
  "unthrottle_offline_cfs_rq K c g =
     (if \<not> runtime_enabled (grq g c) then g
      else let g = at_grq c (\<lambda>l. l\<lparr>runtime_remaining := 1, runtime_enabled := False\<rparr>) g
        in if cfs_rq_throttled (grq g c) then unthrottle_cfs_rq K c g else g)"

end
