(* ===== verification/Kernel_Bandwidth_Ops.thy ===== *)
theory Kernel_Bandwidth_Ops
  imports Kernel_Bandwidth
begin

text \<open>
  Every operation of the bandwidth control moves run time between the pool and a CPU and
  spends what it charges: \<open>keeps C n g g'\<close> says that the funds of the group go down by exactly
  \<open>n\<close> and that the throttled runqueues stay those on the list. The words of the model are
  read as integers; \<open>room\<close> says that they cannot leave their types.
\<close>

lemma at_simps [simp]:
  "bw (at_grq c f g) = bw g" "grq (at_bw h g) = grq g" "bw (at_bw h g) = h (bw g)"
  "grq (at_grq c f g) = (grq g)(c := f (grq g c))"
  "rescheds (at_grq c f g) = rescheds g" "rescheds (at_bw h g) = rescheds g"
  by (simp_all add: at_grq_def at_bw_def)

section \<open>Run time as integers\<close>

lemma uint_of_int_u64: "0 \<le> k \<Longrightarrow> k < 2 ^ 64 \<Longrightarrow> uint (of_int k :: u64) = k"
  by (simp add: unsigned_of_int take_bit_int_eq_self)

lemma sint_of_int_u64: "- (2 ^ 63) \<le> k \<Longrightarrow> k < 2 ^ 63 \<Longrightarrow> sint (of_int k :: u64) = k"
  by (simp add: signed_of_int signed_take_bit_int_eq_self)

lemma sint_u64_add:
  assumes "- (2 ^ 63) \<le> sint a + sint b" and "sint a + sint b < 2 ^ 63"
  shows "sint (a + b :: u64) = sint a + sint b"
  using sint_of_int_u64 [OF assms] by simp

lemma sint_u64_sub:
  assumes "- (2 ^ 63) \<le> sint a - sint b" and "sint a - sint b < 2 ^ 63"
  shows "sint (a - b :: u64) = sint a - sint b"
  using sint_of_int_u64 [OF assms] by simp

lemma sint_u64_small: "uint (a :: u64) < 2 ^ 63 \<Longrightarrow> sint a = uint a"
proof -
  assume "uint a < 2 ^ 63"
  moreover have "0 \<le> uint a" by simp
  ultimately have "sint (of_int (uint a) :: u64) = uint a"
    by (intro sint_of_int_u64) linarith+
  then show "sint a = uint a" by simp
qed

lemma uint_u64_sub_sint:
  assumes "0 \<le> uint a - sint b" and "uint a - sint b < 2 ^ 64"
  shows "uint (a - b :: u64) = uint a - sint b"
  using uint_of_int_u64 [OF assms] by simp

lemma uint_u64_add_sint:
  assumes "0 \<le> uint a + sint b" and "uint a + sint b < 2 ^ 64"
  shows "uint (a + b :: u64) = uint a + sint b"
  using uint_of_int_u64 [OF assms] by simp

lemma uint_min_u64: "uint (min a b :: u64) = min (uint a) (uint b)"
  by (simp add: min_def word_le_def)

lemma uint_slice: "uint (sched_cfs_bandwidth_slice s) = uint s * 1000"
proof -
  have "uint s < 4294967296"
    using unsigned_less [of s] by simp
  then have "uint (of_int (uint s * 1000) :: u64) = uint s * 1000"
    by (intro uint_of_int_u64) auto
  then show ?thesis
    by (simp add: sched_cfs_bandwidth_slice_def)
qed

section \<open>Moving run time\<close>

text \<open>What is left on a CPU, and in the pool, as integers.\<close>

abbreviation left_on :: "task_group \<Rightarrow> nat \<Rightarrow> int" where
  "left_on g c \<equiv> sint (runtime_remaining (grq g c))"

abbreviation in_pool :: "task_group \<Rightarrow> int" where
  "in_pool g \<equiv> uint (pool (bw g))"

definition funds :: "nat set \<Rightarrow> task_group \<Rightarrow> int" where
  "funds C g = in_pool g + (\<Sum>c\<in>C. left_on g c)"

definition assets :: "nat set \<Rightarrow> task_group \<Rightarrow> int" where
  "assets C g = in_pool g + (\<Sum>c\<in>C. max 0 (left_on g c))"

text \<open>Room for \<open>n\<close> more nanoseconds of charges or refills before a number leaves its type.\<close>

definition room :: "nat set \<Rightarrow> int \<Rightarrow> task_group \<Rightarrow> bool" where
  "room C n g \<longleftrightarrow> 0 \<le> n \<and> n \<le> 2 ^ 62 \<and> assets C g + n \<le> 2 ^ 62 \<and> (\<forall>c\<in>C. n - 2 ^ 62 \<le> left_on g c)"

definition same_limits :: "task_group \<Rightarrow> task_group \<Rightarrow> bool" where
  "same_limits g g' \<longleftrightarrow> quota (bw g') = quota (bw g) \<and> burst (bw g') = burst (bw g) \<and>
     bw_period (bw g') = bw_period (bw g) \<and> (\<forall>c. runtime_enabled (grq g' c) = runtime_enabled (grq g c))"

definition spends :: "nat set \<Rightarrow> int \<Rightarrow> task_group \<Rightarrow> task_group \<Rightarrow> bool" where
  "spends C n g g' \<longleftrightarrow> 0 \<le> n \<and> funds C g' = funds C g - n \<and> assets C g' \<le> assets C g \<and>
     (\<forall>c\<in>C. min 0 (left_on g c) - n \<le> left_on g' c) \<and> same_limits g g'"

lemma same_limits_refl [simp]: "same_limits g g"
  by (simp add: same_limits_def)

lemma spends_refl [simp]: "spends C 0 g g"
  by (simp add: spends_def)

lemma spends_trans:
  assumes "spends C m g g'" and "spends C n g' g''"
  shows "spends C (m + n) g g''"
proof -
  have "min 0 (left_on g c) - (m + n) \<le> left_on g'' c" if "c \<in> C" for c
  proof -
    have "min 0 (left_on g c) - m \<le> left_on g' c" "min 0 (left_on g' c) - n \<le> left_on g'' c" "0 \<le> m"
      using assms that by (auto simp: spends_def)
    then show ?thesis by linarith
  qed
  then show ?thesis
    using assms by (simp add: spends_def same_limits_def)
qed

lemma spends_trans0: "spends C m g g' \<Longrightarrow> spends C 0 g' g'' \<Longrightarrow> spends C m g g''"
  using spends_trans [of C m g g' 0 g''] by simp

lemma spends_room:
  assumes "spends C m g g'" and "room C n g" and "m \<le> n"
  shows "room C (n - m) g'"
proof -
  have m: "0 \<le> m" "assets C g' \<le> assets C g" and n: "n \<le> 2 ^ 62" "assets C g + n \<le> 2 ^ 62"
    using assms by (auto simp: spends_def room_def)
  have "n - m - 2 ^ 62 \<le> left_on g' c" if "c \<in> C" for c
  proof -
    have "n - 2 ^ 62 \<le> left_on g c" "min 0 (left_on g c) - m \<le> left_on g' c"
      using assms that by (auto simp: spends_def room_def)
    then show ?thesis using n(1) by linarith
  qed
  moreover have "n - m \<le> 2 ^ 62" "assets C g' + (n - m) \<le> 2 ^ 62"
    using m n by linarith+
  ultimately show ?thesis
    using assms(3) by (simp add: room_def)
qed

lemma room_bounds:
  assumes "room C n g" and "finite C"
  shows "in_pool g + n \<le> 2 ^ 62" and "c \<in> C \<Longrightarrow> left_on g c + n \<le> 2 ^ 62"
    and "c \<in> C \<Longrightarrow> n - 2 ^ 62 \<le> left_on g c" and "c \<in> C \<Longrightarrow> in_pool g + max 0 (left_on g c) + n \<le> 2 ^ 62"
proof -
  have pos: "0 \<le> (\<Sum>c\<in>C. max 0 (left_on g c))"
    by (intro sum_nonneg) simp
  then show "in_pool g + n \<le> 2 ^ 62"
    using assms(1) by (simp add: room_def assets_def)
  assume c: "c \<in> C"
  show "n - 2 ^ 62 \<le> left_on g c"
    using assms(1) c by (simp add: room_def)
  have "max 0 (left_on g c) \<le> (\<Sum>c\<in>C. max 0 (left_on g c))"
    using c assms(2) by (intro member_le_sum) auto
  then show m: "in_pool g + max 0 (left_on g c) + n \<le> 2 ^ 62"
    using assms(1) unfolding room_def assets_def by linarith
  have "0 \<le> in_pool g" by simp
  with m show "left_on g c + n \<le> 2 ^ 62" by linarith
qed

text \<open>An operation on the runqueue of one CPU and the pool.\<close>

lemma moved_spends:
  assumes C: "finite C" "c \<in> C" and n: "0 \<le> n"
    and rest: "\<And>d. d \<noteq> c \<Longrightarrow> left_on g' d = left_on g d" and lim: "same_limits g g'"
    and sum: "in_pool g' + left_on g' c = in_pool g + left_on g c - n"
    and pos: "in_pool g' + max 0 (left_on g' c) \<le> in_pool g + max 0 (left_on g c)"
    and low: "min 0 (left_on g c) - n \<le> left_on g' c"
  shows "spends C n g g'"
proof -
  have same: "(\<Sum>d\<in>C - {c}. f (left_on g' d)) = (\<Sum>d\<in>C - {c}. f (left_on g d))" for f :: "int \<Rightarrow> int"
    using rest by (intro sum.cong) auto
  have "funds C g' = funds C g - n"
    using sum same [of "\<lambda>x. x"] by (simp add: funds_def sum.remove [OF C])
  moreover have "assets C g' \<le> assets C g"
    using pos same [of "max 0"] by (simp add: assets_def sum.remove [OF C])
  moreover have "min 0 (left_on g d) - n \<le> left_on g' d" for d
    using rest [of d] low n by (cases "d = c") auto
  ultimately show ?thesis
    using n lim by (simp add: spends_def)
qed

text \<open>
  The state of a group with a quota: the throttled runqueues are those on the list, and they
  have nothing left.
\<close>

definition throttled_ok :: "nat set \<Rightarrow> task_group \<Rightarrow> bool" where
  "throttled_ok C g \<longleftrightarrow> distinct (throttled_rqs (bw g)) \<and>
     set (throttled_rqs (bw g)) = {c \<in> C. throttled (grq g c)} \<and>
     (\<forall>c\<in>C. throttled (grq g c) \<longrightarrow> left_on g c \<le> 0)"

definition group_ok :: "nat set \<Rightarrow> task_group \<Rightarrow> bool" where
  "group_ok C g \<longleftrightarrow> finite C \<and> quota (bw g) \<noteq> RUNTIME_INF \<and>
     uint (quota (bw g)) + uint (burst (bw g)) < 2 ^ 64 \<and>
     (\<forall>c\<in>C. runtime_enabled (grq g c)) \<and> throttled_ok C g"

lemma throttled_ok_frame:
  assumes "throttled_ok C g" and "throttled_rqs (bw g') = throttled_rqs (bw g)"
    and "\<And>d. throttled (grq g' d) = throttled (grq g d)"
    and "\<And>d. throttled (grq g d) \<Longrightarrow> left_on g' d \<le> left_on g d"
  shows "throttled_ok C g'"
proof -
  have "left_on g' d \<le> 0" if "d \<in> C" "throttled (grq g d)" for d
    using assms(1) assms(4) [OF that(2)] that by (fastforce simp: throttled_ok_def)
  then show ?thesis
    using assms(1-3) by (simp add: throttled_ok_def)
qed

lemma group_ok_limits: "group_ok C g \<Longrightarrow> same_limits g g' \<Longrightarrow> throttled_ok C g' \<Longrightarrow> group_ok C g'"
  by (simp add: group_ok_def same_limits_def)

lemma start_cfs_bandwidth_simps [simp]:
  "pool (start_cfs_bandwidth b) = pool b" "quota (start_cfs_bandwidth b) = quota b"
  "burst (start_cfs_bandwidth b) = burst b" "bw_period (start_cfs_bandwidth b) = bw_period b"
  "throttled_rqs (start_cfs_bandwidth b) = throttled_rqs b"
  by (simp_all add: start_cfs_bandwidth_def)

text \<open>What \<open>assign_runtime\<close> does when the CPU has nothing left.\<close>

definition assigned :: "u64 \<Rightarrow> nat \<Rightarrow> task_group \<Rightarrow> int" where
  "assigned t c g = min (in_pool g) (uint t - left_on g c)"

lemma assign_runtime_frame:
  assumes "assign_runtime t c g = (ok, g')"
  shows "grq g' = (grq g)(c := (grq g c)\<lparr>runtime_remaining := runtime_remaining (grq g' c)\<rparr>)"
    and "throttled_rqs (bw g') = throttled_rqs (bw g)" and "same_limits g g'"
    and "ok \<longleftrightarrow> 0 < left_on g' c"
  using assms
  by (auto simp: assign_runtime_def Let_def same_limits_def split: if_splits)

lemma assign_runtime_throttled: "assign_runtime t c g = (ok, g') \<Longrightarrow> throttled (grq g' d) = throttled (grq g d)"
  by (cases "d = c") (subst assign_runtime_frame(1), assumption, simp)+

lemma account_throttled: "throttled (grq (account_cfs_rq_runtime us delta c g) d) = throttled (grq g d)"
  by (auto simp: account_cfs_rq_runtime_def charge_cfs_rq_runtime_def assign_cfs_rq_runtime_def Let_def
      assign_runtime_throttled split: prod.split)

lemma assign_runtime_amount:
  assumes C: "finite C" "c \<in> C" and ok: "quota (bw g) \<noteq> RUNTIME_INF" "room C n g"
    and r: "left_on g c \<le> 0" and t: "uint t \<le> 2 ^ 62"
    and g': "assign_runtime t c g = (ok, g')"
  shows "in_pool g' = in_pool g - assigned t c g" and "left_on g' c = left_on g c + assigned t c g"
    and "0 \<le> assigned t c g"
proof -
  define m where "m = min (pool (bw g)) (t - runtime_remaining (grq g c))"
  note bounds = room_bounds [OF ok(2) C(1)]
  have n: "0 \<le> n" using ok(2) by (simp add: room_def)
  have low: "- (2 ^ 62) \<le> left_on g c"
    using bounds(3) [OF C(2)] n by simp
  have "0 \<le> uint t" by simp
  then have d: "0 \<le> uint t - left_on g c"
    using r by linarith
  have "uint (t - runtime_remaining (grq g c)) = uint t - left_on g c"
    by (rule uint_u64_sub_sint [OF d]) (use low t in simp)
  then have m: "uint m = assigned t c g"
    by (simp add: m_def assigned_def uint_min_u64)
  show pos: "0 \<le> assigned t c g"
    unfolding m [symmetric] by simp
  have le: "assigned t c g \<le> in_pool g"
    by (simp add: assigned_def)
  have top: "assigned t c g \<le> 2 ^ 62"
    using le bounds(1) n by linarith
  have sm: "sint m = assigned t c g"
    using sint_u64_small [of m] m top by simp
  have upd: "runtime_remaining (grq g' c) = runtime_remaining (grq g c) + m"
    "pool (bw g') = pool (bw g) - m"
    using g' ok(1) by (auto simp: assign_runtime_def Let_def m_def word_gt_0 split: if_splits)
  have "m \<le> pool (bw g)"
    by (simp add: m_def)
  then show "in_pool g' = in_pool g - assigned t c g"
    by (simp add: upd uint_minus_simple_alt m)
  show "left_on g' c = left_on g c + assigned t c g"
    unfolding upd sm [symmetric] using sm low r pos top by (intro sint_u64_add) simp_all
qed

lemma quiet_spends:
  assumes "pool (bw g') = pool (bw g)" and "same_limits g g'"
    and "\<And>c. runtime_remaining (grq g' c) = runtime_remaining (grq g c)"
  shows "spends C 0 g g'"
  using assms by (simp add: spends_def funds_def assets_def)

text \<open>One operation of the group: what it spends, and that the list stays right.\<close>

definition keeps :: "nat set \<Rightarrow> int \<Rightarrow> task_group \<Rightarrow> task_group \<Rightarrow> bool" where
  "keeps C n g g' \<longleftrightarrow> spends C n g g' \<and> throttled_ok C g'"

lemma keeps_refl: "group_ok C g \<Longrightarrow> keeps C 0 g g"
  by (simp add: keeps_def group_ok_def)

lemma keeps_trans: "keeps C m g g' \<Longrightarrow> keeps C n g' g'' \<Longrightarrow> keeps C (m + n) g g''"
  by (auto simp: keeps_def intro: spends_trans)

lemma keeps_trans0: "keeps C m g g' \<Longrightarrow> keeps C 0 g' g'' \<Longrightarrow> keeps C m g g''"
  using keeps_trans [of C m g g' 0 g''] by simp

lemma keeps_group_ok: "keeps C n g g' \<Longrightarrow> group_ok C g \<Longrightarrow> group_ok C g'"
  by (auto simp: keeps_def spends_def intro: group_ok_limits)

lemma keeps_room: "keeps C m g g' \<Longrightarrow> room C n g \<Longrightarrow> m \<le> n \<Longrightarrow> room C (n - m) g'"
  by (auto simp: keeps_def intro: spends_room)

lemma keeps_room0: "keeps C 0 g g' \<Longrightarrow> room C n g \<Longrightarrow> room C n g'"
  using keeps_room [of C 0 g g' n] by (simp add: room_def)

lemma keeps_rescheds [simp]: "keeps C n g (g'\<lparr>rescheds := x\<rparr>) = keeps C n g g'"
  by (simp add: keeps_def spends_def same_limits_def throttled_ok_def funds_def assets_def)

lemma assign_runtime_keeps:
  assumes g: "group_ok C g" "room C n g" and c: "c \<in> C" "\<not> throttled (grq g c)" "left_on g c \<le> 0"
    and t: "uint t \<le> 2 ^ 62" and g': "assign_runtime t c g = (ok, g')"
  shows "keeps C 0 g g'"
proof -
  have fin: "finite C" and inf: "quota (bw g) \<noteq> RUNTIME_INF"
    using g(1) by (auto simp: group_ok_def)
  note eff = assign_runtime_amount [OF fin c(1) inf g(2) c(3) t g']
  note frame = assign_runtime_frame [OF g']
  have others: "grq g' d = grq g d" if "d \<noteq> c" for d
    using frame(1) that by (metis fun_upd_other)
  note thr = assign_runtime_throttled [OF g']
  have "spends C 0 g g'"
    by (rule moved_spends [OF fin c(1)]) (use others frame(3) eff c(3) in auto)
  moreover have "throttled_ok C g'"
  proof (rule throttled_ok_frame [OF _ frame(2) thr])
    show "throttled_ok C g" using g(1) by (simp add: group_ok_def)
    show "left_on g' d \<le> left_on g d" if "throttled (grq g d)" for d
      using that c(2) others [of d] by (cases "d = c") auto
  qed
  ultimately show ?thesis
    by (simp add: keeps_def)
qed

lemma charge_keeps:
  assumes g: "group_ok C g" "room C n g" and c: "c \<in> C" and d: "uint delta \<le> n"
  shows "keeps C (uint delta) g (charge_cfs_rq_runtime us delta c g)"
proof -
  define g1 where "g1 = at_grq c (\<lambda>l. l\<lparr>runtime_remaining := runtime_remaining l - delta\<rparr>) g"
  have fin: "finite C" using g(1) by (simp add: group_ok_def)
  note bounds = room_bounds [OF g(2) fin]
  have n: "0 \<le> n" and dpos: "0 \<le> uint delta"
    using g(2) by (auto simp: room_def)
  have pool: "0 \<le> in_pool g" by simp
  have "uint delta \<le> 2 ^ 62"
    using bounds(1) d pool by linarith
  then have sd: "sint delta = uint delta"
    by (intro sint_u64_small) simp
  have low: "- (2 ^ 62) \<le> left_on g c - uint delta" "left_on g c - uint delta \<le> 2 ^ 62"
    using bounds(2,3) [OF c] d n dpos by linarith+
  have left: "left_on g1 c = left_on g c - uint delta"
    using sint_u64_sub [of "runtime_remaining (grq g c)" delta] low by (simp add: g1_def sd)
  have "left_on g c - uint delta \<le> left_on g c"
    using dpos by linarith
  then have mx: "max 0 (left_on g c - uint delta) \<le> max 0 (left_on g c)"
    by (rule max.mono [OF order_refl])
  have "spends C (uint delta) g g1"
    by (rule moved_spends [OF fin c dpos]) (use left mx in \<open>auto simp: g1_def same_limits_def\<close>)
  moreover have "throttled_ok C g1"
  proof (rule throttled_ok_frame)
    show "left_on g1 e \<le> left_on g e" for e
      using left dpos by (cases "e = c") (auto simp: g1_def)
  qed (use g(1) in \<open>simp_all add: g1_def group_ok_def\<close>)
  ultimately have k1: "keeps C (uint delta) g g1"
    by (simp add: keeps_def)
  note ok1 = keeps_group_ok [OF k1 g(1)] and room1 = keeps_room [OF k1 g(2) d]
  show ?thesis
  proof (cases "0 < left_on g1 c \<or> throttled (grq g1 c)")
    case True
    then have "charge_cfs_rq_runtime us delta c g = g1"
      by (auto simp: charge_cfs_rq_runtime_def g1_def Let_def)
    then show ?thesis using k1 by simp
  next
    case False
    obtain ok g2 where a: "assign_cfs_rq_runtime us c g1 = (ok, g2)"
      by (cases "assign_cfs_rq_runtime us c g1")
    have "uint us < 2 ^ 32"
      using unsigned_less [of us] by simp
    then have t: "uint (sched_cfs_bandwidth_slice us) \<le> 2 ^ 62"
      by (simp add: uint_slice)
    have "keeps C 0 g1 g2"
      by (rule assign_runtime_keeps [OF ok1 room1 c _ _ t])
        (use False a in \<open>auto simp: assign_cfs_rq_runtime_def\<close>)
    then have "keeps C (uint delta) g g2"
      by (rule keeps_trans0 [OF k1])
    moreover have "charge_cfs_rq_runtime us delta c g =
        (if \<not> ok \<and> has_curr (grq g2 c) then g2\<lparr>rescheds := rescheds g2 @ [c]\<rparr> else g2)"
      using False a by (simp add: charge_cfs_rq_runtime_def g1_def Let_def)
    ultimately show ?thesis by simp
  qed
qed

lemma account_keeps:
  assumes "group_ok C g" and "room C n g" and "c \<in> C" and "uint delta \<le> n"
  shows "keeps C (uint delta) g (account_cfs_rq_runtime us delta c g)"
  using charge_keeps [OF assms] assms(1,3)
  by (simp add: account_cfs_rq_runtime_def cfs_bandwidth_used_def group_ok_def)

lemma throttle_keeps:
  assumes g: "group_ok C g" "room C n g" and c: "c \<in> C" "\<not> throttled (grq g c)" "left_on g c \<le> 0"
  shows "keeps C 0 g (snd (throttle_cfs_rq K c g))"
proof -
  obtain ok g1 where a: "assign_runtime 1 c g = (ok, g1)"
    by (cases "assign_runtime 1 c g")
  have k1: "keeps C 0 g g1"
    by (rule assign_runtime_keeps [OF g c _ a]) simp
  show ?thesis
  proof (cases ok)
    case True
    then show ?thesis using k1 a by (simp add: throttle_cfs_rq_def)
  next
    case False
    define g2 where "g2 = snd (throttle_cfs_rq K c g)"
    have thr: "\<not> throttled (grq g1 c)" and left: "left_on g1 c \<le> 0"
      using assign_runtime_throttled [OF a] assign_runtime_frame(4) [OF a] False c(2) by simp_all
    have view: "runtime_remaining (grq g2 d) = runtime_remaining (grq g1 d)"
      "throttled (grq g2 d) = (d = c \<or> throttled (grq g1 d))"
      "runtime_enabled (grq g2 d) = runtime_enabled (grq g1 d)" for d
      by (auto simp: g2_def throttle_cfs_rq_def a False Let_def tg_throttle_down_def)
    have bw: "pool (bw g2) = pool (bw g1)" "throttled_rqs (bw g2) = throttled_rqs (bw g1) @ [c]"
      "quota (bw g2) = quota (bw g1)" "burst (bw g2) = burst (bw g1)" "bw_period (bw g2) = bw_period (bw g1)"
      by (simp_all add: g2_def throttle_cfs_rq_def a False Let_def)
    have "spends C 0 g1 g2"
      by (rule quiet_spends) (simp_all add: bw view same_limits_def)
    moreover have "throttled_ok C g2"
      using k1 c(1) thr left unfolding keeps_def throttled_ok_def view bw by auto
    ultimately show ?thesis
      using keeps_trans0 [OF k1, of g2] by (simp add: keeps_def g2_def)
  qed
qed

lemma unthrottle_view [simp]:
  "pool (bw (unthrottle_cfs_rq K c g)) = pool (bw g)"
  "quota (bw (unthrottle_cfs_rq K c g)) = quota (bw g)"
  "burst (bw (unthrottle_cfs_rq K c g)) = burst (bw g)"
  "bw_period (bw (unthrottle_cfs_rq K c g)) = bw_period (bw g)"
  "throttled_rqs (bw (unthrottle_cfs_rq K c g)) = remove1 c (throttled_rqs (bw g))"
  "runtime_remaining (grq (unthrottle_cfs_rq K c g) d) = runtime_remaining (grq g d)"
  "runtime_enabled (grq (unthrottle_cfs_rq K c g) d) = runtime_enabled (grq g d)"
  "throttled (grq (unthrottle_cfs_rq K c g) d) = (d \<noteq> c \<and> throttled (grq g d))"
  by (simp_all add: unthrottle_cfs_rq_def Let_def tg_unthrottle_up_def)

lemma check_enqueue_keeps:
  assumes g: "group_ok C g" "room C n g" and c: "c \<in> C"
  shows "keeps C 0 g (check_enqueue_throttle us K c g)"
proof (cases "has_curr (grq g c) \<or> throttled (grq g c)")
  case True
  then show ?thesis
    using keeps_refl [OF g(1)] by (auto simp: check_enqueue_throttle_def cfs_rq_throttled_def cfs_bandwidth_used_def)
next
  case False
  define g1 where "g1 = account_cfs_rq_runtime us 0 c g"
  have k1: "keeps C 0 g g1"
    using account_keeps [OF g c, of 0 us] g(2) by (simp add: g1_def room_def)
  have eq: "check_enqueue_throttle us K c g = (if left_on g1 c \<le> 0 then snd (throttle_cfs_rq K c g1) else g1)"
    using False g(1) c by (simp add: check_enqueue_throttle_def cfs_bandwidth_used_def
      cfs_rq_throttled_def group_ok_def g1_def Let_def)
  show ?thesis
  proof (cases "left_on g1 c \<le> 0")
    case left: True
    have "\<not> throttled (grq g1 c)"
      using False by (simp add: g1_def account_throttled)
    then have "keeps C 0 g1 (snd (throttle_cfs_rq K c g1))"
      by (rule throttle_keeps [OF keeps_group_ok [OF k1 g(1)] keeps_room0 [OF k1 g(2)] c _ left])
    then show ?thesis
      using keeps_trans0 [OF k1] left by (simp add: eq)
  next
    case False
    then show ?thesis using k1 by (simp add: eq)
  qed
qed

lemma check_runtime_keeps:
  assumes g: "group_ok C g" "room C n g" and c: "c \<in> C"
  shows "keeps C 0 g (snd (check_cfs_rq_runtime K c g))"
  using throttle_keeps [OF g c] keeps_refl [OF g(1)]
  by (auto simp: check_cfs_rq_runtime_def cfs_rq_throttled_def)

lemma give_back_keeps:
  assumes g: "group_ok C g" "room C n g" and c: "c \<in> C"
  shows "keeps C 0 g (give_back_cfs_rq_runtime us t c g)"
proof (cases "sint (runtime_remaining (grq g c) - min_cfs_rq_runtime) \<le> 0")
  case True
  then show ?thesis
    using keeps_refl [OF g(1)] by (simp add: give_back_cfs_rq_runtime_def)
next
  case False
  define k where "k = left_on g c - 1000000"
  define g1 where "g1 = give_back_cfs_rq_runtime us t c g"
  have fin: "finite C" and inf: "quota (bw g) \<noteq> RUNTIME_INF"
    using g(1) by (auto simp: group_ok_def)
  have n: "0 \<le> n" using g(2) by (simp add: room_def)
  note bounds = room_bounds [OF g(2) fin]
  have pool0: "0 \<le> in_pool g" by simp
  have left: "left_on g c \<le> 2 ^ 62" "- (2 ^ 62) \<le> left_on g c"
    "in_pool g + max 0 (left_on g c) \<le> 2 ^ 62"
    using bounds(2-4) [OF c] n by linarith+
  have slack: "sint (runtime_remaining (grq g c) - 1000000) = k"
    using sint_u64_sub [of "runtime_remaining (grq g c)" 1000000] left(1,2) by (simp add: k_def)
  have k: "0 < k"
    using False slack by simp
  have upd: "pool (bw g1) = pool (bw g) + (runtime_remaining (grq g c) - 1000000)"
    "runtime_remaining (grq g1 c) = runtime_remaining (grq g c) - (runtime_remaining (grq g c) - 1000000)"
    using False inf by (auto simp: g1_def give_back_cfs_rq_runtime_def Let_def start_cfs_slack_bandwidth_def)
  have frame: "throttled_rqs (bw g1) = throttled_rqs (bw g)" "same_limits g g1"
    "\<And>d. throttled (grq g1 d) = throttled (grq g d)" "\<And>d. d \<noteq> c \<Longrightarrow> grq g1 d = grq g d"
    using False by (auto simp: g1_def give_back_cfs_rq_runtime_def Let_def start_cfs_slack_bandwidth_def
      same_limits_def)
  have "max 0 (left_on g c) = k + 1000000"
    using k by (simp add: k_def)
  then have "in_pool g + k < 2 ^ 64"
    using left(3) by simp
  moreover have "0 \<le> in_pool g + k"
    using pool0 k by linarith
  ultimately have pool: "in_pool g1 = in_pool g + k"
    unfolding upd(1) slack [symmetric] using uint_u64_add_sint by (simp add: slack)
  have rem: "left_on g1 c = 1000000"
    by (simp add: upd(2))
  have "left_on g c = k + 1000000"
    by (simp add: k_def)
  then have "spends C 0 g g1"
    by (intro moved_spends [OF fin c]) (use pool rem frame k in auto)
  moreover have "throttled_ok C g1"
  proof (rule throttled_ok_frame [OF _ frame(1,3)])
    show "throttled_ok C g" using g(1) by (simp add: group_ok_def)
    show "left_on g1 d \<le> left_on g d" for d
      using rem k frame(4) [of d] by (cases "d = c") (auto simp: k_def)
  qed
  ultimately show ?thesis
    by (simp add: keeps_def g1_def)
qed

lemma return_keeps:
  assumes "group_ok C g" and "room C n g" and "c \<in> C"
  shows "keeps C 0 g (return_cfs_rq_runtime us t c g)"
  using give_back_keeps [OF assms] keeps_refl [OF assms(1)]
  by (simp add: return_cfs_rq_runtime_def)

text \<open>What the distribution does to one throttled runqueue.\<close>

definition give_runtime :: "(nat \<Rightarrow> clock_rq) \<Rightarrow> nat \<Rightarrow> task_group \<Rightarrow> task_group" where
  "give_runtime K c g =
     (let runtime = min (pool (bw g)) (1 - runtime_remaining (grq g c));
          g = at_bw (\<lambda>b. b\<lparr>pool := pool b - runtime\<rparr>) g;
          g = at_grq c (\<lambda>l. l\<lparr>runtime_remaining := runtime_remaining l + runtime\<rparr>) g
      in if 0 < left_on g c then unthrottle_cfs_rq K c g else g)"

lemma distribute_loop_Cons:
  "distribute_loop K (c # cs) g =
     (if \<not> throttled (grq g c) then distribute_loop K cs g
      else let g = give_runtime K c g in if pool (bw g) = 0 then g else distribute_loop K cs g)"
proof -
  have m: "(if a < b then a else b) = min a (b :: u64)" for a b
    by (auto simp: min_def dest: less_imp_le)
  show ?thesis
    by (simp add: give_runtime_def cfs_rq_throttled_def cfs_bandwidth_used_def Let_def m)
qed

declare distribute_loop.simps(2) [simp del]

lemma give_runtime_keeps:
  assumes g: "group_ok C g" "room C n g" and c: "c \<in> C" "throttled (grq g c)"
  shows "keeps C 0 g (give_runtime K c g)"
    and "throttled (grq (give_runtime K c g) c) \<Longrightarrow> pool (bw (give_runtime K c g)) = 0"
    and "d \<noteq> c \<Longrightarrow> throttled (grq (give_runtime K c g) d) = throttled (grq g d)"
proof -
  define r where "r = left_on g c"
  define m where "m = min (pool (bw g)) (1 - runtime_remaining (grq g c))"
  define g1 where "g1 = at_grq c (\<lambda>l. l\<lparr>runtime_remaining := runtime_remaining l + m\<rparr>)
    (at_bw (\<lambda>b. b\<lparr>pool := pool b - m\<rparr>) g)"
  have g2: "give_runtime K c g = (if 0 < left_on g1 c then unthrottle_cfs_rq K c g1 else g1)"
    by (simp add: give_runtime_def g1_def m_def Let_def)
  have fin: "finite C" using g(1) by (simp add: group_ok_def)
  have n: "0 \<le> n" using g(2) by (simp add: room_def)
  note bounds = room_bounds [OF g(2) fin]
  have r: "r \<le> 0" "- (2 ^ 62) \<le> r"
    using g(1) c bounds(3) [OF c(1)] n by (auto simp: group_ok_def throttled_ok_def r_def)
  have um: "uint m = min (in_pool g) (1 - r)"
    using uint_u64_sub_sint [of 1 "runtime_remaining (grq g c)"] r
    by (simp add: m_def uint_min_u64 r_def)
  have top: "uint m \<le> 2 ^ 62"
    using um bounds(1) n by linarith
  have pos: "0 \<le> uint m" by simp
  have sm: "sint m = uint m"
    using top by (intro sint_u64_small) simp
  have "m \<le> pool (bw g)" by (simp add: m_def)
  then have pool: "in_pool g1 = in_pool g - uint m"
    by (simp add: g1_def uint_minus_simple_alt)
  have up: "- (2 ^ 62) \<le> r + uint m" "r + uint m \<le> 2 ^ 62"
    using r top pos by linarith+
  have left: "left_on g1 c = r + uint m"
    using sint_u64_add [of "runtime_remaining (grq g c)" m] up by (simp add: g1_def r_def sm)
  have others: "grq g1 d = grq g d" if "d \<noteq> c" for d
    using that by (simp add: g1_def)
  have thr1: "throttled (grq g1 d) = throttled (grq g d)" for d
    by (simp add: g1_def)
  have list1: "throttled_rqs (bw g1) = throttled_rqs (bw g)" and lim1: "same_limits g g1"
    by (simp_all add: g1_def same_limits_def)
  have "max 0 (r + uint m) \<le> uint m"
    using r pos by simp
  then have s1: "spends C 0 g g1"
    by (intro moved_spends [OF fin c(1)]) (use pool left others lim1 r pos in \<open>auto simp: r_def\<close>)
  have s2: "spends C 0 g1 (unthrottle_cfs_rq K c g1)"
    by (rule quiet_spends) (simp_all add: same_limits_def)
  have ok: "throttled_ok C g" using g(1) by (simp add: group_ok_def)
  show "keeps C 0 g (give_runtime K c g)"
  proof (cases "0 < left_on g1 c")
    case True
    have "left_on g1 d \<le> 0" if "d \<in> C" "d \<noteq> c" "throttled (grq g d)" for d
      using ok that others [of d] by (simp add: throttled_ok_def)
    then have "throttled_ok C (unthrottle_cfs_rq K c g1)"
      using ok by (auto simp: throttled_ok_def list1 thr1)
    then show ?thesis
      using True spends_trans0 [OF s1 s2] by (simp add: keeps_def g2)
  next
    case False
    have "left_on g1 d \<le> 0" if "d \<in> C" "throttled (grq g d)" for d
      using ok that False others [of d] by (cases "d = c") (simp_all add: throttled_ok_def)
    then have "throttled_ok C g1"
      using ok by (simp add: throttled_ok_def list1 thr1)
    then show ?thesis
      using False s1 by (simp add: keeps_def g2)
  qed
  show "pool (bw (give_runtime K c g)) = 0" if "throttled (grq (give_runtime K c g) c)"
  proof -
    have neg: "\<not> 0 < left_on g1 c"
      using that by (auto simp: g2 split: if_splits)
    then have "uint m = in_pool g"
      using um left by linarith
    then have "in_pool g1 = 0" using pool by simp
    then have "pool (bw g1) = 0" by (simp only: unsigned_eq_0_iff)
    then show ?thesis using neg by (simp add: g2)
  qed
  show "throttled (grq (give_runtime K c g) d) = throttled (grq g d)" if "d \<noteq> c"
    using that by (simp add: g2 thr1)
qed

lemma distribute_loop_keeps:
  assumes "group_ok C g" and "room C n g" and "set cs \<subseteq> C"
  shows "keeps C 0 g (distribute_loop K cs g) \<and>
    (pool (bw (distribute_loop K cs g)) \<noteq> 0 \<longrightarrow>
       (\<forall>d. throttled (grq (distribute_loop K cs g) d) \<longleftrightarrow> throttled (grq g d) \<and> d \<notin> set cs))"
  using assms
proof (induction cs arbitrary: g)
  case Nil
  then show ?case by (simp add: keeps_refl)
next
  case (Cons c cs)
  show ?case
  proof (cases "throttled (grq g c)")
    case False
    then show ?thesis
      using Cons by (auto simp: distribute_loop_Cons)
  next
    case True
    define g1 where "g1 = give_runtime K c g"
    have c: "c \<in> C" using Cons.prems(3) by simp
    note give = give_runtime_keeps [OF Cons.prems(1,2) c True, where K = K, folded g1_def]
    have eq: "distribute_loop K (c # cs) g = (if pool (bw g1) = 0 then g1 else distribute_loop K cs g1)"
      using True by (simp add: distribute_loop_Cons g1_def Let_def)
    show ?thesis
    proof (cases "pool (bw g1) = 0")
      case True
      then show ?thesis using give(1) by (simp add: eq)
    next
      case False
      have IH: "keeps C 0 g1 (distribute_loop K cs g1) \<and>
          (pool (bw (distribute_loop K cs g1)) \<noteq> 0 \<longrightarrow>
            (\<forall>d. throttled (grq (distribute_loop K cs g1) d) \<longleftrightarrow> throttled (grq g1 d) \<and> d \<notin> set cs))"
        using Cons.prems(3)
        by (intro Cons.IH keeps_group_ok [OF give(1) Cons.prems(1)] keeps_room0 [OF give(1) Cons.prems(2)]) simp
      have "throttled (grq g1 d) \<longleftrightarrow> throttled (grq g d) \<and> d \<noteq> c" for d
        using give(2,3) False by (cases "d = c") auto
      then show ?thesis
        using False IH keeps_trans0 [OF give(1)] by (auto simp: eq)
    qed
  qed
qed

lemma distribute_keeps:
  assumes "group_ok C g" and "room C n g"
  shows "keeps C 0 g (distribute_cfs_runtime K g)"
    and "pool (bw (distribute_cfs_runtime K g)) = 0 \<or> throttled_rqs (bw (distribute_cfs_runtime K g)) = []"
proof -
  have cs: "set (throttled_rqs (bw g)) = {c \<in> C. throttled (grq g c)}"
    using assms(1) by (simp add: group_ok_def throttled_ok_def)
  note loop = distribute_loop_keeps [OF assms, of "throttled_rqs (bw g)" K, folded distribute_cfs_runtime_def]
  show k: "keeps C 0 g (distribute_cfs_runtime K g)"
    using loop cs by auto
  then have "set (throttled_rqs (bw (distribute_cfs_runtime K g))) =
      {c \<in> C. throttled (grq (distribute_cfs_runtime K g) c)}"
    by (simp add: keeps_def throttled_ok_def)
  then have "set (throttled_rqs (bw (distribute_cfs_runtime K g))) = {}"
    if "pool (bw (distribute_cfs_runtime K g)) \<noteq> 0"
    using that loop cs by auto
  then show "pool (bw (distribute_cfs_runtime K g)) = 0 \<or> throttled_rqs (bw (distribute_cfs_runtime K g)) = []"
    by (metis set_empty)
qed

text \<open>One pass is enough for the loop of the period timer.\<close>

lemma distribution_ends:
  assumes "group_ok C g" and "room C n g"
  shows "\<exists>g'. while_option (\<lambda>g. throttled_rqs (bw g) \<noteq> [] \<and> 0 < pool (bw g)) (distribute_cfs_runtime K) g = Some g' \<and>
    keeps C 0 g g' \<and> (pool (bw g') = 0 \<or> throttled_rqs (bw g') = [])"
proof (cases "throttled_rqs (bw g) \<noteq> [] \<and> 0 < pool (bw g)")
  case True
  let ?g' = "distribute_cfs_runtime K g"
  have stop: "\<not> (throttled_rqs (bw ?g') \<noteq> [] \<and> 0 < pool (bw ?g'))"
    using distribute_keeps(2) [OF assms, of K] by auto
  have "while_option (\<lambda>g. throttled_rqs (bw g) \<noteq> [] \<and> 0 < pool (bw g)) (distribute_cfs_runtime K) ?g' = Some ?g'"
    by (subst while_option_unfold, rule if_not_P, rule stop)
  moreover have "while_option (\<lambda>g. throttled_rqs (bw g) \<noteq> [] \<and> 0 < pool (bw g)) (distribute_cfs_runtime K) g =
      while_option (\<lambda>g. throttled_rqs (bw g) \<noteq> [] \<and> 0 < pool (bw g)) (distribute_cfs_runtime K) ?g'"
    by (subst while_option_unfold, rule if_P, rule True)
  ultimately show ?thesis
    using distribute_keeps [OF assms, of K] by auto
next
  case False
  then show ?thesis
    using keeps_refl [OF assms(1)] by (subst while_option_unfold) (auto simp: word_gt_0)
qed

text \<open>A refill: at most the quota comes in.\<close>

definition refills :: "nat set \<Rightarrow> task_group \<Rightarrow> task_group \<Rightarrow> bool" where
  "refills C g g' \<longleftrightarrow> funds C g' \<le> funds C g + uint (quota (bw g)) \<and> group_ok C g' \<and>
     (\<forall>n. room C (n + uint (quota (bw g))) g \<longrightarrow> 0 \<le> n \<longrightarrow> room C n g') \<and> same_limits g g'"

lemma refill_refills:
  assumes g: "group_ok C g" and r: "room C n g" "uint (quota (bw g)) \<le> n"
  shows "refills C g (at_bw refill_cfs_bandwidth_runtime g)"
proof -
  define q where "q = uint (quota (bw g))"
  define g' where "g' = at_bw refill_cfs_bandwidth_runtime g"
  have fin: "finite C" and inf: "quota (bw g) \<noteq> RUNTIME_INF"
    and qb: "q + uint (burst (bw g)) < 2 ^ 64"
    using g by (auto simp: group_ok_def q_def)
  have grq: "grq g' = grq g" by (simp add: g'_def)
  have limits: "same_limits g g'" "throttled_rqs (bw g') = throttled_rqs (bw g)"
    by (auto simp: g'_def same_limits_def refill_cfs_bandwidth_runtime_def Let_def)
  have upd: "pool (bw g') = min (pool (bw g) + quota (bw g)) (quota (bw g) + burst (bw g))"
    using inf by (simp add: g'_def refill_cfs_bandwidth_runtime_def Let_def)
  have q: "q \<le> n" using r(2) by (simp add: q_def)
  have "in_pool g + q \<le> 2 ^ 62"
    using room_bounds(1) [OF r(1) fin] q by linarith
  then have "uint (pool (bw g) + quota (bw g)) = in_pool g + q"
    unfolding q_def by (intro uint_of_int_u64 [of "in_pool g + q", unfolded q_def, simplified]) simp_all
  then have pool: "in_pool g' \<le> in_pool g + q"
    by (simp add: upd uint_min_u64)
  have "funds C g' \<le> funds C g + q" and as: "assets C g' \<le> assets C g + q"
    using pool by (simp_all add: funds_def assets_def grq)
  moreover have "group_ok C g'"
    using g by (intro group_ok_limits [OF g limits(1)])
      (simp add: group_ok_def throttled_ok_def grq limits(2))
  moreover have "room C m g'" if "room C (m + q) g" "0 \<le> m" for m
  proof -
    have "0 \<le> q" by (simp add: q_def)
    then have "m \<le> 2 ^ 62" "assets C g' + m \<le> 2 ^ 62" "\<forall>c\<in>C. m - 2 ^ 62 \<le> left_on g' c"
      using that as by (auto simp: room_def grq)
    then show ?thesis using that(2) by (simp add: room_def)
  qed
  ultimately show ?thesis
    using limits(1) by (simp add: refills_def q_def g'_def)
qed

lemma keeps_refills: "keeps C 0 g g1 \<Longrightarrow> refills C g1 g2 \<Longrightarrow> refills C g g2"
  using keeps_room0 [of C g g1] by (auto simp: refills_def keeps_def spends_def same_limits_def)

lemma refills_keeps: "refills C g g1 \<Longrightarrow> keeps C 0 g1 g2 \<Longrightarrow> refills C g g2"
  using keeps_room0 [of C g1 g2] keeps_group_ok [of C 0 g1 g2]
  by (auto simp: refills_def keeps_def spends_def same_limits_def)

text \<open>Statistics and flags do not matter.\<close>

lemma keeps_stat:
  assumes "group_ok C g"
    and "pool (h (bw g)) = pool (bw g)" "quota (h (bw g)) = quota (bw g)" "burst (h (bw g)) = burst (bw g)"
    "bw_period (h (bw g)) = bw_period (bw g)" "throttled_rqs (h (bw g)) = throttled_rqs (bw g)"
  shows "keeps C 0 g (at_bw h g)"
proof -
  have "spends C 0 g (at_bw h g)"
    by (rule quiet_spends) (simp_all add: assms(2-5) same_limits_def)
  then show ?thesis
    using assms(1,6) by (simp add: keeps_def group_ok_def throttled_ok_def)
qed

lemma period_timer_refills:
  assumes g: "group_ok C g" and r: "room C n g" "uint (quota (bw g)) \<le> n"
  shows "\<exists>b g'. do_sched_cfs_period_timer K overrun g = Some (b, g') \<and> refills C g g' \<and>
    (pool (bw g') = 0 \<or> throttled_rqs (bw g') = [])"
proof -
  define g1 where "g1 = at_bw (\<lambda>b. b\<lparr>nr_periods := nr_periods b + overrun\<rparr>) g"
  define g2 where "g2 = at_bw refill_cfs_bandwidth_runtime g1"
  have inf: "quota (bw g) \<noteq> RUNTIME_INF" using g by (simp add: group_ok_def)
  have k1: "keeps C 0 g g1"
    unfolding g1_def by (rule keeps_stat [OF g]) simp_all
  have q1: "quota (bw g1) = quota (bw g)" "throttled_rqs (bw g1) = throttled_rqs (bw g)"
    by (simp_all add: g1_def)
  note ok1 = keeps_group_ok [OF k1 g] and room1 = keeps_room0 [OF k1 r(1)]
  have "refills C g1 g2"
    unfolding g2_def using refill_refills [OF ok1 room1] r(2) q1 by simp
  then have r2: "refills C g g2"
    by (rule keeps_refills [OF k1])
  then have ok2: "group_ok C g2" and room2: "room C (n - uint (quota (bw g))) g2"
    using r by (auto simp: refills_def)
  have list2: "throttled_rqs (bw g2) = throttled_rqs (bw g)"
    by (simp add: g2_def q1 refill_cfs_bandwidth_runtime_def Let_def)
  show ?thesis
  proof (cases "throttled_rqs (bw g) = []")
    case True
    have "keeps C 0 g2 (at_bw (\<lambda>b. b\<lparr>bw_idle := True\<rparr>) g2)"
      by (rule keeps_stat [OF ok2]) simp_all
    then have "refills C g (at_bw (\<lambda>b. b\<lparr>bw_idle := True\<rparr>) g2)"
      by (rule refills_keeps [OF r2])
    then show ?thesis
      using True inf r2 list2
      by (auto simp: do_sched_cfs_period_timer_def Let_def g1_def [symmetric] g2_def [symmetric])
  next
    case False
    define g3 where "g3 = at_bw (\<lambda>b. b\<lparr>nr_throttled := nr_throttled b + overrun\<rparr>) g2"
    have k3: "keeps C 0 g2 g3"
      unfolding g3_def by (rule keeps_stat [OF ok2]) simp_all
    obtain g4 where w: "while_option (\<lambda>g. throttled_rqs (bw g) \<noteq> [] \<and> 0 < pool (bw g)) (distribute_cfs_runtime K) g3 = Some g4"
      and k4: "keeps C 0 g3 g4" and dry: "pool (bw g4) = 0 \<or> throttled_rqs (bw g4) = []"
      using distribution_ends [OF keeps_group_ok [OF k3 ok2] keeps_room0 [OF k3 room2], of K] by blast
    have r4: "refills C g g4"
      using refills_keeps [OF refills_keeps [OF r2 k3] k4] .
    have "keeps C 0 g4 (at_bw (\<lambda>b. b\<lparr>bw_idle := False\<rparr>) g4)"
      by (rule keeps_stat) (use r4 in \<open>simp_all add: refills_def\<close>)
    then have "refills C g (at_bw (\<lambda>b. b\<lparr>bw_idle := False\<rparr>) g4)"
      by (rule refills_keeps [OF r4])
    moreover have "do_sched_cfs_period_timer K overrun g = Some (False, at_bw (\<lambda>b. b\<lparr>bw_idle := False\<rparr>) g4)"
      using False inf w by (simp add: do_sched_cfs_period_timer_def Let_def g1_def [symmetric] g2_def [symmetric] g3_def [symmetric])
    ultimately show ?thesis
      using dry by auto
  qed
qed

lemma slack_keeps:
  assumes g: "group_ok C g" "room C n g"
  shows "keeps C 0 g (do_sched_cfs_slack_timer us t K g)"
proof -
  define g1 where "g1 = at_bw (\<lambda>b. b\<lparr>slack_started := False\<rparr>) g"
  have k1: "keeps C 0 g g1"
    unfolding g1_def by (rule keeps_stat [OF g(1)]) simp_all
  have "keeps C 0 g1 (distribute_cfs_runtime K g1)"
    by (rule distribute_keeps(1) [OF keeps_group_ok [OF k1 g(1)] keeps_room0 [OF k1 g(2)]])
  then have "keeps C 0 g (distribute_cfs_runtime K g1)"
    by (rule keeps_trans0 [OF k1])
  then show ?thesis
    using k1 by (simp add: do_sched_cfs_slack_timer_def Let_def g1_def [symmetric])
qed

end
