(* ===== verification/Kernel_Bandwidth_Run.thy ===== *)
theory Kernel_Bandwidth_Run
  imports Kernel_Bandwidth_Ops
begin

text \<open>
  Any sequence of operations on a group: what it can run for, that the period timer always
  returns and leaves nobody waiting next to a filled pool, that the clock of a throttled
  runqueue stands still, and that stretching the period keeps the bandwidth.
\<close>

section \<open>Runs of the group\<close>

text \<open>
  What happens to a group, in any order: the time of a task is charged (\<open>update_curr\<close>), the
  running entity is put back (\<open>put_prev_entity\<close>), an entity is enqueued or dequeued, a timer fires,
  or the tasks of the group on a CPU change.
\<close>

record bw_env =
  env_clocks :: "nat \<Rightarrow> clock_rq"
  env_timer :: timer_view

datatype bw_event =
    Charge nat u64
  | Put nat
  | Enqueue nat
  | Dequeue nat
  | Slack_timer
  | Period_timer u32
  | Tasks nat u32 bool

fun bw_step :: "u32 \<Rightarrow> bw_env \<Rightarrow> bw_event \<Rightarrow> task_group \<Rightarrow> task_group option" where
  "bw_step us E (Charge c d) g = Some (account_cfs_rq_runtime us d c g)"
| "bw_step us E (Put c) g = Some (snd (check_cfs_rq_runtime (env_clocks E) c g))"
| "bw_step us E (Enqueue c) g = Some (check_enqueue_throttle us (env_clocks E) c g)"
| "bw_step us E (Dequeue c) g = Some (return_cfs_rq_runtime us (env_timer E) c g)"
| "bw_step us E Slack_timer g = Some (do_sched_cfs_slack_timer us (env_timer E) (env_clocks E) g)"
| "bw_step us E (Period_timer overrun) g = map_option snd (do_sched_cfs_period_timer (env_clocks E) overrun g)"
| "bw_step us E (Tasks c nr cur) g =
     Some (at_grq c (\<lambda>l. l\<lparr>group_nr_running := nr, has_curr := cur\<rparr>) g)"

fun bw_run :: "u32 \<Rightarrow> (bw_env \<times> bw_event) list \<Rightarrow> task_group \<Rightarrow> task_group option" where
  "bw_run us [] g = Some g"
| "bw_run us ((E, e) # es) g = do { g \<leftarrow> bw_step us E e g; bw_run us es g }"

fun charge_of :: "bw_event \<Rightarrow> int" where
  "charge_of (Charge c d) = uint d"
| "charge_of _ = 0"

fun refills_of :: "bw_event \<Rightarrow> int" where
  "refills_of (Period_timer _) = 1"
| "refills_of _ = 0"

fun cpus_of :: "bw_event \<Rightarrow> nat set" where
  "cpus_of (Charge c d) = {c}"
| "cpus_of (Put c) = {c}"
| "cpus_of (Enqueue c) = {c}"
| "cpus_of (Dequeue c) = {c}"
| "cpus_of (Tasks c _ _) = {c}"
| "cpus_of _ = {}"

definition charged :: "(bw_env \<times> bw_event) list \<Rightarrow> int" where
  "charged es = (\<Sum>(E, e)\<leftarrow>es. charge_of e)"

definition refilled :: "(bw_env \<times> bw_event) list \<Rightarrow> int" where
  "refilled es = (\<Sum>(E, e)\<leftarrow>es. refills_of e)"

lemma charged_simps [simp]:
  "charged [] = 0" "charged ((E, e) # es) = charge_of e + charged es"
  "refilled [] = 0" "refilled ((E, e) # es) = refills_of e + refilled es"
  by (simp_all add: charged_def refilled_def)

lemma charge_of_nonneg [simp]: "0 \<le> charge_of e" "0 \<le> refills_of e"
  by (cases e; simp)+

lemma charged_nonneg [simp]: "0 \<le> charged es" "0 \<le> refilled es"
  by (induction es) auto

lemma tasks_keeps:
  assumes "group_ok C g"
  shows "keeps C 0 g (at_grq c (\<lambda>l. l\<lparr>group_nr_running := nr, has_curr := cur\<rparr>) g)"
  unfolding keeps_def
proof
  show "spends C 0 g (at_grq c (\<lambda>l. l\<lparr>group_nr_running := nr, has_curr := cur\<rparr>) g)"
    by (rule quiet_spends) (simp_all add: same_limits_def)
  show "throttled_ok C (at_grq c (\<lambda>l. l\<lparr>group_nr_running := nr, has_curr := cur\<rparr>) g)"
    by (rule throttled_ok_frame [of C g]) (use assms in \<open>simp_all add: group_ok_def\<close>)
qed

lemma bw_step_ok:
  assumes g: "group_ok C g" and c: "cpus_of e \<subseteq> C" and n: "0 \<le> n"
    and r: "room C (n + charge_of e + refills_of e * uint (quota (bw g))) g"
  shows "\<exists>g'. bw_step us E e g = Some g' \<and> group_ok C g' \<and> room C n g' \<and> same_limits g g' \<and>
    funds C g' + charge_of e \<le> funds C g + refills_of e * uint (quota (bw g)) \<and>
    (refills_of e = 0 \<longrightarrow> funds C g' + charge_of e = funds C g)"
proof (cases "refills_of e = 0")
  case True
  have d: "charge_of e \<le> n + charge_of e" using n by simp
  have r': "room C (n + charge_of e) g" using r True by simp
  have "\<exists>g'. bw_step us E e g = Some g' \<and> keeps C (charge_of e) g g'"
    using c True account_keeps [OF g r'] check_runtime_keeps [OF g r'] check_enqueue_keeps [OF g r']
      return_keeps [OF g r'] slack_keeps [OF g r'] tasks_keeps [OF g] d
    by (cases e) auto
  then obtain g' where g': "bw_step us E e g = Some g'" and k: "keeps C (charge_of e) g g'"
    by blast
  have "room C n g'"
    using keeps_room [OF k r' d] by simp
  then show ?thesis
    using g' keeps_group_ok [OF k g] k True by (simp add: keeps_def spends_def)
next
  case False
  then obtain overrun where e: "e = Period_timer overrun"
    by (cases e) auto
  obtain b g' where p: "do_sched_cfs_period_timer (env_clocks E) overrun g = Some (b, g')" "refills C g g'"
    using period_timer_refills [OF g r, of "env_clocks E" overrun] n e by auto
  have "room C n g'"
    using p(2) r n e by (simp add: refills_def)
  then show ?thesis
    using p e by (simp add: refills_def)
qed

lemma bw_run_ok:
  assumes "group_ok C g" and "\<forall>(E, e)\<in>set es. cpus_of e \<subseteq> C" and "0 \<le> n"
    and "room C (n + charged es + refilled es * uint (quota (bw g))) g"
  shows "\<exists>g'. bw_run us es g = Some g' \<and> group_ok C g' \<and> room C n g' \<and> same_limits g g' \<and>
    funds C g' + charged es \<le> funds C g + refilled es * uint (quota (bw g)) \<and>
    (refilled es = 0 \<longrightarrow> funds C g' + charged es = funds C g)"
  using assms
proof (induction es arbitrary: g)
  case Nil
  then show ?case by simp
next
  case (Cons x es)
  obtain E e where x: "x = (E, e)" by (cases x)
  define q where "q = uint (quota (bw g))"
  define m where "m = n + charged es + refilled es * q"
  have q: "0 \<le> q" by (simp add: q_def)
  have m: "0 \<le> m" using Cons.prems(3) q by (simp add: m_def)
  have "n + charged (x # es) + refilled (x # es) * q = m + charge_of e + refills_of e * q"
    by (simp add: m_def x distrib_right)
  then have r: "room C (m + charge_of e + refills_of e * q) g"
    using Cons.prems(4) by (simp add: q_def)
  obtain g1 where g1: "bw_step us E e g = Some g1" "group_ok C g1" "room C m g1" "same_limits g g1"
    "funds C g1 + charge_of e \<le> funds C g + refills_of e * q"
    "refills_of e = 0 \<longrightarrow> funds C g1 + charge_of e = funds C g"
    using bw_step_ok [OF Cons.prems(1) _ m, of e] r Cons.prems(2) x unfolding q_def by force
  have q1: "uint (quota (bw g1)) = q"
    using g1(4) by (simp add: same_limits_def q_def)
  obtain g2 where g2: "bw_run us es g1 = Some g2" "group_ok C g2" "room C n g2" "same_limits g1 g2"
    "funds C g2 + charged es \<le> funds C g1 + refilled es * q"
    "refilled es = 0 \<longrightarrow> funds C g2 + charged es = funds C g1"
    using Cons.IH [OF g1(2) _ Cons.prems(3)] Cons.prems(2) g1(3) unfolding q1 m_def by auto
  have "same_limits g g2"
    using g1(4) g2(4) by (simp add: same_limits_def)
  moreover have "refills_of e + refilled es = 0 \<Longrightarrow> refills_of e = 0 \<and> refilled es = 0"
    by (simp add: add_nonneg_eq_0_iff)
  ultimately show ?case
    using g1(1,5,6) g2 by (auto simp: x q_def [symmetric] distrib_right)
qed

section \<open>What the group gets\<close>

text \<open>
  C35. Run time is neither made nor lost: whatever the CPUs of a group charge, throttle, give back
  and take from the pool, in any order, the pool and the CPUs together lose exactly what was
  charged while no refill happens, and a refill adds at most the quota. So over any stretch
  the group runs for at most what it had plus its quota per period, apart from the debt it ends
  with. Every operation is defined, the throttled runqueues are always exactly those on the list
  of the pool, and a throttled runqueue never has run time left (the warning in
  distribute_cfs_runtime never fires). The numbers must leave \<open>room\<close> in their types.
\<close>

theorem bandwidth_conserved:
  assumes "group_ok C g" and "\<forall>(E, e)\<in>set es. cpus_of e \<subseteq> C"
    and "room C (charged es + refilled es * uint (quota (bw g))) g"
  shows "\<exists>g'. bw_run us es g = Some g' \<and>
    charged es \<le> funds C g + refilled es * uint (quota (bw g)) - funds C g' \<and>
    (refilled es = 0 \<longrightarrow> charged es = funds C g - funds C g') \<and>
    distinct (throttled_rqs (bw g')) \<and> set (throttled_rqs (bw g')) = {c \<in> C. throttled (grq g' c)} \<and>
    (\<forall>c\<in>C. throttled (grq g' c) \<longrightarrow> left_on g' c \<le> 0)"
proof -
  have "room C (0 + charged es + refilled es * uint (quota (bw g))) g"
    using assms(3) by simp
  then obtain g' where "bw_run us es g = Some g'" "group_ok C g'"
    "funds C g' + charged es \<le> funds C g + refilled es * uint (quota (bw g))"
    "refilled es = 0 \<longrightarrow> funds C g' + charged es = funds C g"
    using bw_run_ok [OF assms(1,2) order_refl] by blast
  then show ?thesis
    by (intro exI [of _ g']) (auto simp: group_ok_def throttled_ok_def)
qed

text \<open>Two CPUs, a pool of 3 ms, a quota of 4 ms and slices of 5 ms.\<close>

definition demo_group :: task_group where
  "demo_group =
     (let l = \<lparr>runtime_enabled = True, runtime_remaining = 0, throttled_pelt_idle = 0, throttled_clock = 0,
        throttled_clock_pelt = 0, throttled_clock_pelt_time = 0, throttled = False, throttle_count = 0,
        group_nr_running = 1, has_curr = True\<rparr>
      in \<lparr>bw = \<lparr>bw_period = 100000000, quota = 4000000, pool = 3000000, burst = 0, runtime_snap = 3000000,
            bw_idle = False, period_active = True, slack_started = False, throttled_rqs = [], nr_periods = 0,
            nr_throttled = 0, nr_burst = 0, throttled_time = 0, burst_time = 0, timer_calls = []\<rparr>,
          grq = (\<lambda>_. l), rescheds = []\<rparr>)"

definition demo_env :: bw_env where
  "demo_env = \<lparr>env_clocks = (\<lambda>_. clock_start), env_timer = \<lparr>callback_running = False, expires_remaining = 0\<rparr>\<rparr>"

definition demo_events :: "(bw_env \<times> bw_event) list" where
  "demo_events = map (Pair demo_env)
     [Charge 0 1000000, Charge 1 2000000, Charge 0 4000000, Put 0, Put 1, Period_timer 1, Charge 0 1000]"

lemma demo_group_ok: "group_ok {0, 1} demo_group"
  by (simp add: group_ok_def throttled_ok_def demo_group_def)

lemma demo_room: "room {0, 1} (charged demo_events + refilled demo_events * uint (quota (bw demo_group))) demo_group"
  by (simp add: room_def assets_def demo_group_def demo_events_def)

theorem bandwidth_conserved_witness:
  "(\<exists>g'. bw_run 5000 demo_events demo_group = Some g' \<and> charged demo_events \<le> 7000000 - funds {0, 1} g') \<and>
   charged demo_events = 7001000"
proof
  show "charged demo_events = 7001000"
    by (simp add: demo_events_def)
  have "\<forall>(E, e)\<in>set demo_events. cpus_of e \<subseteq> {0, 1}"
    by (simp add: demo_events_def)
  then have "\<exists>g'. bw_run 5000 demo_events demo_group = Some g' \<and>
      charged demo_events \<le> funds {0, 1} demo_group + refilled demo_events * uint (quota (bw demo_group)) - funds {0, 1} g'"
    using bandwidth_conserved [OF demo_group_ok _ demo_room, of 5000] by blast
  then show "\<exists>g'. bw_run 5000 demo_events demo_group = Some g' \<and> charged demo_events \<le> 7000000 - funds {0, 1} g'"
    by (simp add: funds_def demo_group_def demo_events_def)
qed

text \<open>
  C36. After the handler of the period timer either the pool is empty or no runqueue of the
  group is throttled any more. The handler always returns: its loop over the distribution, which
  has no bound in the code, ends because one pass leaves nothing to distribute or nobody to
  distribute to.
\<close>

theorem period_timer_distributes:
  assumes "group_ok C g" and "room C (uint (quota (bw g))) g"
  shows "\<exists>b g'. do_sched_cfs_period_timer K overrun g = Some (b, g') \<and>
    (pool (bw g') = 0 \<or> (\<forall>c\<in>C. \<not> throttled (grq g' c)))"
proof -
  obtain b g' where p: "do_sched_cfs_period_timer K overrun g = Some (b, g')" "refills C g g'"
    "pool (bw g') = 0 \<or> throttled_rqs (bw g') = []"
    using period_timer_refills [OF assms order_refl] by blast
  then have "set (throttled_rqs (bw g')) = {c \<in> C. throttled (grq g' c)}"
    by (simp add: refills_def group_ok_def throttled_ok_def)
  then show ?thesis
    using p by auto
qed

text \<open>Both CPUs are throttled, one owes 1 ms.\<close>

definition throttled_group :: task_group where
  "throttled_group = at_bw (\<lambda>b. b\<lparr>pool := 0, throttled_rqs := [1, 0]\<rparr>)
     (demo_group\<lparr>grq := (\<lambda>c. (grq demo_group c)\<lparr>throttled := True, throttle_count := 1,
        runtime_remaining := (if c = 0 then - 1000000 else 0)\<rparr>)\<rparr>)"

lemma throttled_group_ok:
  "group_ok {0, 1} throttled_group" "room {0, 1} (uint (quota (bw throttled_group))) throttled_group"
  by (auto simp: group_ok_def throttled_ok_def room_def assets_def throttled_group_def demo_group_def at_bw_def)

theorem period_timer_distributes_witness:
  "\<exists>b g'. do_sched_cfs_period_timer (\<lambda>_. clock_start) 1 throttled_group = Some (b, g') \<and>
    (pool (bw g') = 0 \<or> (\<forall>c\<in>{0, 1}. \<not> throttled (grq g' c)))"
  by (rule period_timer_distributes [OF throttled_group_ok])

text \<open>
  While a group is throttled its load-tracking clock stands still on the CPU, and when it is
  unthrottled the clock goes on where it stopped: the time in between is taken out, for every
  value the clock of the CPU has then, wrap-around included.
\<close>

theorem throttled_clock_stands_still:
  assumes "throttle_cfs_rq K c g = (True, g')" and "throttle_count (grq g c) = 0"
  shows "cfs_rq_clock_pelt k (grq g' c) = cfs_rq_clock_pelt (K c) (grq g c) \<and>
    cfs_rq_clock_pelt (K' c) (grq (unthrottle_cfs_rq K' c g') c) = cfs_rq_clock_pelt (K c) (grq g c) \<and>
    throttle_count (grq (unthrottle_cfs_rq K' c g') c) = 0"
proof -
  obtain ok g1 where a: "assign_runtime 1 c g = (ok, g1)"
    by (cases "assign_runtime 1 c g")
  have e: "grq g1 c = (grq g c)\<lparr>runtime_remaining := runtime_remaining (grq g1 c)\<rparr>"
    using fun_cong [OF assign_runtime_frame(1) [OF a], of c] by (simp only: fun_upd_same)
  have l: "throttle_count (grq g1 c) = 0"
    "throttled_clock_pelt_time (grq g1 c) = throttled_clock_pelt_time (grq g c)"
    using assms(2) by (subst e, simp)+
  have "g' = at_grq c (\<lambda>l. l\<lparr>throttled := True, throttled_clock := clk (K c)\<rparr>)
      (at_grq c (tg_throttle_down (K c)) (at_bw (\<lambda>b. b\<lparr>throttled_rqs := throttled_rqs b @ [c]\<rparr>) g1))"
    using assms(1) a by (simp add: throttle_cfs_rq_def Let_def split: if_splits)
  then have g': "throttle_count (grq g' c) = 1" "throttled_clock_pelt (grq g' c) = rq_clock_pelt (K c)"
    "throttled_clock_pelt_time (grq g' c) = throttled_clock_pelt_time (grq g c)"
    using l by (simp_all add: tg_throttle_down_def)
  have u: "grq (unthrottle_cfs_rq K' c g') c = tg_unthrottle_up (K' c) ((grq g' c)\<lparr>throttled := False\<rparr>)"
    by (simp add: unthrottle_cfs_rq_def Let_def)
  show ?thesis
    unfolding u using g' assms(2) by (simp add: cfs_rq_clock_pelt_def tg_unthrottle_up_def)
qed

definition dry_group :: task_group where
  "dry_group = at_bw (\<lambda>b. b\<lparr>pool := 0\<rparr>) demo_group"

theorem throttled_clock_stands_still_witness:
  "cfs_rq_clock_pelt (clock_start\<lparr>clk_pelt := 900\<rparr>)
     (grq (unthrottle_cfs_rq (\<lambda>_. clock_start\<lparr>clk_pelt := 900\<rparr>) 0
             (snd (throttle_cfs_rq (\<lambda>_. clock_start\<lparr>clk_pelt := 200\<rparr>) 0 dry_group))) 0) = 200"
proof -
  let ?K = "\<lambda>_. clock_start\<lparr>clk_pelt := 200\<rparr>" and ?K' = "\<lambda>_. clock_start\<lparr>clk_pelt := 900\<rparr>"
  have t: "throttle_cfs_rq ?K 0 dry_group = (True, snd (throttle_cfs_rq ?K 0 dry_group))"
    by (simp add: throttle_cfs_rq_def assign_runtime_def dry_group_def demo_group_def Let_def
        start_cfs_bandwidth_def at_bw_def at_grq_def)
  have z: "throttle_count (grq dry_group 0) = 0"
    by (simp add: dry_group_def demo_group_def)
  have v: "cfs_rq_clock_pelt (clock_start\<lparr>clk_pelt := 200\<rparr>) (grq dry_group 0) = 200"
    by (simp add: cfs_rq_clock_pelt_def rq_clock_pelt_def clock_start_def dry_group_def demo_group_def)
  show ?thesis
    using throttled_clock_stands_still [OF t z, of "clock_start" ?K', unfolded v] by (elim conjE)
qed

section \<open>The period\<close>

text \<open>Nothing but the scaling changes quota, burst and period.\<close>

lemma same_limits_trans: "same_limits g g' \<Longrightarrow> same_limits g' g'' \<Longrightarrow> same_limits g g''"
  by (simp add: same_limits_def)

lemma distribute_loop_limits: "same_limits g (distribute_loop K cs g)"
proof (induction cs arbitrary: g)
  case (Cons c cs)
  have "same_limits g (give_runtime K c g)"
    by (simp add: give_runtime_def Let_def same_limits_def)
  then show ?case
    using Cons.IH same_limits_trans by (auto simp: distribute_loop_Cons Let_def)
qed simp

lemma period_timer_limits:
  assumes "do_sched_cfs_period_timer K overrun g = Some (b, g')"
  shows "same_limits g g'"
proof -
  have refill: "same_limits g (at_bw (\<lambda>b. b\<lparr>nr_throttled := x b\<rparr>) (at_bw refill_cfs_bandwidth_runtime
      (at_bw (\<lambda>b. b\<lparr>nr_periods := nr_periods b + overrun\<rparr>) g)))" for x
    by (simp add: same_limits_def refill_cfs_bandwidth_runtime_def Let_def)
  have loop: "same_limits h h'" if "while_option P (distribute_cfs_runtime K) h = Some h'" for P h h'
    by (rule while_option_rule [where P = "same_limits h", OF _ that])
      (auto simp: distribute_cfs_runtime_def intro: same_limits_trans distribute_loop_limits)
  show ?thesis
    using assms refill [of nr_throttled] refill [of "\<lambda>b. nr_throttled b + overrun"]
    by (auto simp: do_sched_cfs_period_timer_def Let_def same_limits_def split: if_splits Option.bind_splits
        dest!: loop)
qed

definition scaled :: "nat \<Rightarrow> cfs_bandwidth \<Rightarrow> cfs_bandwidth \<Rightarrow> bool" where
  "scaled k b b' \<longleftrightarrow> bw_period b' = bw_period b * 2 ^ k \<and> quota b' = quota b * 2 ^ k \<and> burst b' = burst b * 2 ^ k"

lemma scaled_limits: "same_limits g g' \<Longrightarrow> scaled k (bw g') b \<Longrightarrow> scaled k (bw g) b"
  by (simp add: scaled_def same_limits_def)

lemma scaled_period: "scaled k (scale_period m b) b' \<Longrightarrow> scaled k b b' \<or> scaled (Suc k) b b'"
  by (auto simp: scaled_def scale_period_def Let_def mult.assoc split: if_splits)

lemma period_timer_loop_scaled:
  assumes "period_timer_loop m os count idle g = Some (i, g')" and "0 \<le> count" and "count \<le> 3"
  shows "\<exists>k. 4 * k \<le> length os + nat count \<and> scaled k (bw g) (bw g')"
  using assms
proof (induction m os count idle g rule: period_timer_loop.induct)
  case (1 m count idle g)
  then show ?case by (auto simp: scaled_def intro: exI [of _ 0])
next
  case (2 m overrun K os count idle g)
  show ?case
  proof (cases "overrun = 0")
    case True
    then show ?thesis using 2(3) by (auto simp: scaled_def intro: exI [of _ 0])
  next
    case False
    obtain b g1 where p: "do_sched_cfs_period_timer K overrun g = Some (b, g1)"
      using 2(3) False by (auto split: Option.bind_splits)
    note lim = period_timer_limits [OF p]
    show ?thesis
    proof (cases "3 < count + 1")
      case True
      have "period_timer_loop m os 0 b (at_bw (scale_period m) g1) = Some (i, g')"
        using 2(3) False True p by simp
      then obtain k where "4 * k \<le> length os" "scaled k (bw (at_bw (scale_period m) g1)) (bw g')"
        using 2(1) [OF False p _ True] by auto
      then have "4 * Suc k \<le> length ((overrun, K) # os) + nat count \<and>
          (scaled k (bw g) (bw g') \<or> scaled (Suc k) (bw g) (bw g'))"
        using True 2(4) scaled_period [of k m "bw g1"] scaled_limits [OF lim] by auto
      then show ?thesis
        by (auto intro: exI [of _ k] exI [of _ "Suc k"])
    next
      case False': False
      have "period_timer_loop m os (count + 1) b g1 = Some (i, g')"
        using 2(3) False False' p by simp
      then obtain k where "4 * k \<le> length os + nat (count + 1)" "scaled k (bw g1) (bw g')"
        using 2(2) [OF False p _ False'] False' 2(4) by auto
      then show ?thesis
        using scaled_limits [OF lim] 2(4) by (auto simp: nat_add_distrib)
    qed
  qed
qed

text \<open>
  When the period timer fires so often that the handler stretches the period, it stretches
  quota and burst by the same power of two, at most once for every four expiries; the bandwidth
  of the group, quota over period, stays the same. Nothing else the handler does touches them.
\<close>

theorem period_timer_ratio:
  assumes "sched_cfs_period_timer max_period os g = Some (restart, g')"
  shows "\<exists>k. 4 * k \<le> length os \<and> bw_period (bw g') = bw_period (bw g) * 2 ^ k \<and>
    quota (bw g') = quota (bw g) * 2 ^ k \<and> burst (bw g') = burst (bw g) * 2 ^ k"
proof -
  obtain i g1 where l: "period_timer_loop max_period os 0 False g = Some (i, g1)"
    and g': "g' = (if i then at_bw (\<lambda>b. b\<lparr>period_active := False\<rparr>) g1 else g1)"
    using assms by (auto simp: sched_cfs_period_timer_def Let_def split: Option.bind_splits)
  obtain k where "4 * k \<le> length os" "scaled k (bw g) (bw g1)"
    using period_timer_loop_scaled [OF l] by auto
  then show ?thesis
    by (auto simp: g' scaled_def)
qed

definition demo_expiries :: "(u32 \<times> (nat \<Rightarrow> clock_rq)) list" where
  "demo_expiries = [(1, \<lambda>_. clock_start), (1, \<lambda>_. clock_start), (2, \<lambda>_. clock_start), (1, \<lambda>_. clock_start)]"

theorem period_timer_ratio_witness:
  "\<exists>g'. sched_cfs_period_timer 1000000000 demo_expiries demo_group = Some (False, g') \<and>
     quota (bw g') = 8000000 \<and> bw_period (bw g') = 200000000 \<and>
     (\<exists>k. 4 * k \<le> length demo_expiries \<and> quota (bw g') = quota (bw demo_group) * 2 ^ k)"
proof -
  have "\<exists>g'. sched_cfs_period_timer 1000000000 demo_expiries demo_group = Some (False, g') \<and>
     quota (bw g') = 8000000 \<and> bw_period (bw g') = 200000000"
    by (simp add: demo_expiries_def sched_cfs_period_timer_def do_sched_cfs_period_timer_def demo_group_def
        Let_def refill_cfs_bandwidth_runtime_def scale_period_def at_bw_def)
  then obtain g' where g': "sched_cfs_period_timer 1000000000 demo_expiries demo_group = Some (False, g')"
    and v: "quota (bw g') = 8000000 \<and> bw_period (bw g') = 200000000"
    by blast
  show ?thesis
    using g' v period_timer_ratio [OF g'] by blast
qed

text \<open>A group without a limit gets one when its period is stretched: twice RUNTIME_INF is not RUNTIME_INF.\<close>

lemma stretched_unlimited:
  "quota b = RUNTIME_INF \<Longrightarrow> bw_period b * 2 < m \<Longrightarrow> quota (scale_period m b) = RUNTIME_INF - 1"
  by (simp add: scale_period_def Let_def)

end
