(* ===== verification/Approx_Accuracy.thy ===== *)
theory Approx_Accuracy
  imports Approx_CLTI Approx_APAF
begin

text \<open>
  How far the three approximations are from the exact scheduler: the charge of one tick for the
  40 weights of the scheduler, and the decay factor of APAF.
\<close>

section \<open>Charges\<close>

lemmas charge_eval = exact_vdelta_def newton_vdelta_def clti_vdelta_def bsa_newton_reciprocal_def
  bsa_nearest_pow2_def bsa_floor_loop.simps clti_rep_def clti_weight_to_class_def clti_weight_class_def
  clti_class_diff_def for_loop_step arr_get_def mul_shr_def word_le_nat_alt Let_def

lemma sched_charges:
  "map exact_vdelta sched_weights =
    [11536, 14270, 18129, 22129, 28216, 35123, 44035, 54744, 68499, 85934, 107247, 134383, 167868,
     208808, 262160, 328099, 409435, 514314, 645649, 801879, 1000000, 1248780, 1563358, 1946768,
     2420803, 3056716, 3764705, 4762790, 5953488, 7474452, 9309090, 11770114, 14628571, 18285714,
     22755555, 28444444, 35310344, 44521739, 56888888, 68266666]"
  "map (newton_vdelta 1) sched_weights =
    [11385, 14244, 18017, 21804, 28151, 34991, 43382, 54542, 68344, 84614, 106735, 134195, 165248,
     207499, 262006, 320976, 406398, 514209, 633311, 794941, 1000000, 1230961, 1547522, 1946423,
     2395606, 3021927, 3761474, 4721683, 5877746, 7466467, 9249214, 11614151, 14602172, 18195312,
     22424560, 28359375, 35217529, 43847656, 56718750, 68191406]"
  "map (newton_vdelta 2) sched_weights =
    [11534, 14270, 18128, 22124, 28216, 35123, 44025, 54743, 68499, 85914, 107244, 134382, 167827,
     208800, 262160, 327945, 409413, 514314, 645413, 801819, 1000000, 1248526, 1563198, 1946767,
     2420541, 3056320, 3764703, 4762435, 5952524, 7474443, 9308705, 11768048, 14628523, 18285267,
     22750741, 28444190, 35310100, 44511533, 56888380, 68266583]"
  "map clti_vdelta sched_weights =
    [15625, 15625, 15625, 15625, 62500, 62500, 62500, 62500, 62500, 62500, 250000, 250000, 250000,
     250000, 250000, 250000, 500000, 500000, 500000, 1000000, 1000000, 1000000, 1000000, 4000000,
     4000000, 4000000, 4000000, 4000000, 4000000, 16000000, 16000000, 16000000, 16000000, 16000000,
     16000000, 64000000, 64000000, 64000000, 64000000, 64000000]"
  by (simp_all add: sched_weights_def nice_to_weight_def charge_eval newton_loop_2)

text \<open>A property of the four charges of every scheduler weight is checked on the lists.\<close>

lemma sched_charges_all:
  assumes "list_all (\<lambda>(e, b, b2, c). P e b b2 c) (zip (map exact_vdelta sched_weights) (zip (map (newton_vdelta 1) sched_weights)
    (zip (map (newton_vdelta 2) sched_weights) (map clti_vdelta sched_weights))))" and "w \<in> set sched_weights"
  shows "P (exact_vdelta w) (newton_vdelta 1 w) (newton_vdelta 2 w) (clti_vdelta w)"
  using assms by (simp add: zip_map_map zip_same_conv_map list_all_iff)

text \<open>
  C32. The charge of one tick, for each of the 40 weights of the scheduler. BSA charges at most the
  exact value and less than 2.2 percent below it, APAF with two Newton steps less than 0.05
  percent below it, with one step what BSA charges. CLTI charges exactly what the exact
  scheduler would charge for the representative of the nearest weight class, which is between
  63 and 234 percent of the exact charge.
\<close>

theorem charge_accuracy:
  assumes "w \<in> set sched_weights"
  shows "\<exists>e b a l c. exact_calc_delta_fair TICK_NS w = Some e \<and> bsa_vruntime_delta TICK_NS w = Some b \<and>
    apaf_vruntime_delta TICK_NS w APAF_MEDIUM = Some a \<and> apaf_vruntime_delta TICK_NS w APAF_LOOSE = Some l \<and>
    clti_vruntime_delta TICK_NS w = Some c \<and>
    unat b \<le> unat e \<and> 978 * unat e \<le> 1000 * unat b \<and>
    unat a \<le> unat e \<and> 9995 * unat e \<le> 10000 * unat a \<and> l = b \<and>
    63 * unat e \<le> 100 * unat c \<and> 100 * unat c \<le> 234 * unat e"
proof -
  let ?P = "\<lambda>e b a c :: u64. unat b \<le> unat e \<and> 978 * unat e \<le> 1000 * unat b \<and> unat a \<le> unat e \<and>
    9995 * unat e \<le> 10000 * unat a \<and> 63 * unat e \<le> 100 * unat c \<and> 100 * unat c \<le> 234 * unat e"
  have "?P (exact_vdelta w) (newton_vdelta 1 w) (newton_vdelta 2 w) (clti_vdelta w)"
    by (rule sched_charges_all [OF _ assms]) (simp add: sched_charges)
  then show ?thesis
    by (simp add: exact_calc_delta_fair_tick bsa_vruntime_delta_tick apaf_vruntime_delta_tick
        clti_vruntime_delta_tick apaf_iters_def)
qed

theorem charge_accuracy_witness:
  "\<exists>e b a l c. exact_calc_delta_fair TICK_NS 3121 = Some e \<and> bsa_vruntime_delta TICK_NS 3121 = Some b \<and>
    apaf_vruntime_delta TICK_NS 3121 APAF_MEDIUM = Some a \<and> apaf_vruntime_delta TICK_NS 3121 APAF_LOOSE = Some l \<and>
    clti_vruntime_delta TICK_NS 3121 = Some c \<and>
    unat b \<le> unat e \<and> 978 * unat e \<le> 1000 * unat b \<and>
    unat a \<le> unat e \<and> 9995 * unat e \<le> 10000 * unat a \<and> l = b \<and>
    63 * unat e \<le> 100 * unat c \<and> 100 * unat c \<le> 234 * unat e"
  by (rule charge_accuracy) (simp add: sched_weights_def nice_to_weight_def)

text \<open>The documented bounds of 1.911 percent (BSA) and 3 percent (CLTI) do not hold at every weight.\<close>

lemma documented_charge_bounds:
  "unat (newton_vdelta 1 3121) * 100000 < unat (exact_vdelta 3121) * (100000 - 2170)"
  "2 * unat (exact_vdelta 137) < unat (clti_vdelta 137)"
  by (simp_all add: charge_eval)

text \<open>
  Two places where the approximations leave their bounds: behind the last entry of the CLTI table
  the interpolation halves, and for weight 1 the reciprocal does not fit 32 bits.
\<close>

lemma clti_tail_halves: "clti_decay_load 47742 29 = Some 13015" "exact_decay_load 47742 29 = Some 25473"
  by (simp_all add: clti_decay_load_def clti_decay_interpolate_def clti_decay_table_def exact_decay_load_def
      c_div_nonneg c_mod_nonneg exact_mul_shr mul_shr_def arr_get_def runnable_avg_yN_inv_def u64_shr_def Let_def)

lemma weight_1_is_free: "exact_calc_delta_fair TICK_NS 1 = Some 0"
  by (simp add: exact_calc_delta_fair_tick exact_vdelta_def mul_shr_def)

section \<open>The decay of APAF against the exact one\<close>

lemma rnd_floor:
  assumes "0 \<le> x" and "x \<le> 2 ^ 52"
  shows "\<bar>of_int \<lfloor>rnd x\<rfloor> - x\<bar> \<le> 1"
proof -
  have fl: "\<lfloor>x\<rfloor> \<le> 2 ^ 52" "0 \<le> \<lfloor>x\<rfloor>" using assms by (simp_all add: floor_le_iff)
  have cl: "\<lceil>x\<rceil> \<le> 2 ^ 52" "0 \<le> \<lceil>x\<rceil>" using assms by (simp_all add: ceiling_le_iff)
  have "rnd (of_int \<lfloor>x\<rfloor>) = (of_int \<lfloor>x\<rfloor> :: rat)" "rnd (of_int \<lceil>x\<rceil>) = (of_int \<lceil>x\<rceil> :: rat)"
    using fl cl by (intro rnd_of_int; simp)+
  then have "of_int \<lfloor>x\<rfloor> \<le> rnd x" "rnd x \<le> of_int \<lceil>x\<rceil>"
    using rnd_mono [of "of_int \<lfloor>x\<rfloor>" x] rnd_mono [of x "of_int \<lceil>x\<rceil>"] by simp_all
  then have "\<lfloor>x\<rfloor> \<le> \<lfloor>rnd x\<rfloor>" "\<lfloor>rnd x\<rfloor> \<le> \<lceil>x\<rceil>" by (simp_all add: le_floor_iff floor_le_iff)
  then have "of_int \<lfloor>x\<rfloor> \<le> (of_int \<lfloor>rnd x\<rfloor> :: rat)" "(of_int \<lfloor>rnd x\<rfloor> :: rat) \<le> of_int \<lceil>x\<rceil>"
    by (simp_all only: of_int_le_iff)
  then show ?thesis using floor_correct [of x] ceiling_correct [of x] by linarith
qed

lemma apaf_scaled_load:
  assumes "0 \<le> q" and "q \<le> 127 / 128" and "unat l < 4294967296"
  obtains v where "f_to_u64 (f_of_u64 l * Fin q) = Some v" and "\<bar>of_nat (unat v) - of_nat (unat l) * q\<bar> \<le> (1 :: rat)"
proof -
  have ul: "(of_int (uint l) :: rat) = of_nat (unat l)" by (metis of_int_of_nat_eq uint_nat)
  have "int (unat l) < int 4294967296" using assms(3) by (simp only: of_nat_less_iff)
  then have "uint l \<le> 4294967296" by simp
  then have L: "rnd (of_int (uint l)) = of_nat (unat l)" using rnd_of_int [of "uint l"] ul by simp
  let ?x = "of_nat (unat l) * q :: rat" and ?z = "\<lfloor>rnd (of_nat (unat l) * q)\<rfloor>"
  note f = f_scale_u64 [OF assms(1,2), of l, unfolded L]
  have "(of_nat (unat l) :: rat) \<le> of_nat 4294967296" using assms(3) by (simp only: of_nat_le_iff)
  then have "?x \<le> of_nat 4294967296 * 1" using assms(1,2) by (intro mult_mono) auto
  then have "?x \<le> 2 ^ 52" by simp
  moreover have "0 \<le> ?x" using assms(1) by (intro mult_nonneg_nonneg) (simp_all only: of_nat_0_le_iff)
  ultimately have "\<bar>of_int ?z - ?x\<bar> \<le> 1" by (intro rnd_floor)
  moreover have "of_nat (unat (of_int ?z :: u64)) = (of_int ?z :: rat)"
    using f(2,3) by (simp add: unsigned_of_int take_bit_int_eq_self)
  ultimately show ?thesis using that [OF f(1)] by simp
qed

text \<open>The table of APAF, scaled by \<open>2 ^ 32 - 1\<close>, and the integer product of the exact scheduler.\<close>

lemma table_product:
  assumes "unat (l :: u64) < 4294967296" and "k < 32"
  shows "of_nat (unat l * unat (runnable_avg_yN_inv ! k) div 2 ^ 32) \<le> of_nat (unat l) * table_rat (int k)"
    and "of_nat (unat l) * table_rat (int k) \<le> of_nat (unat l * unat (runnable_avg_yN_inv ! k) div 2 ^ 32) + (2 :: rat)"
proof -
  let ?y = "unat (runnable_avg_yN_inv ! k)" and ?l = "unat l"
  define e where "e = ?l * ?y div 4294967296"
  have t: "table_rat (int k) = of_nat ?y / 4294967295" by (simp add: table_rat_def)
  have dm: "e * 4294967296 \<le> ?l * ?y" "?l * ?y < e * 4294967296 + 4294967296"
    unfolding e_def using div_mult_mod_eq [of "?l * ?y" 4294967296] mod_less_divisor [of 4294967296 "?l * ?y"] by linarith+
  have "?l * ?y \<le> ?l * 4294967295" using unat_u32_lt [of "runnable_avg_yN_inv ! k"] by (intro mult_le_mono2) linarith
  then have "e \<le> 4294967295" using assms(1) dm(1) by linarith
  then have "?l * ?y \<le> e * 4294967295 + 8589934590" using dm(2) by linarith
  then have "?l * ?y \<le> (e + 2) * 4294967295" by simp
  then have "(of_nat (?l * ?y) :: rat) \<le> of_nat ((e + 2) * 4294967295)" by (rule of_nat_mono)
  then show "of_nat ?l * table_rat (int k) \<le> of_nat (?l * ?y div 2 ^ 32) + (2 :: rat)"
    by (simp add: t e_def field_simps)
  have "e * 4294967295 \<le> ?l * ?y" using dm(1) by linarith
  then have "(of_nat (e * 4294967295) :: rat) \<le> of_nat (?l * ?y)" by (rule of_nat_mono)
  then show "of_nat (?l * ?y div 2 ^ 32) \<le> of_nat ?l * table_rat (int k)"
    by (simp add: t e_def field_simps)
qed

text \<open>
  C33. For loads below \<open>2 ^ 32\<close>, every number of periods and every state, \<open>apaf_decay_load\<close> and
  \<open>exact_decay_load\<close> are both defined and differ by at most the documented error of the state
  (1 percent tight, 3 percent medium, 4.147 percent loose) of the exact result, plus 4 for the
  roundings.
\<close>

theorem apaf_decay_accuracy:
  assumes "unat load < 4294967296"
  shows "\<exists>v e. apaf_decay_load load (int p) state = Some v \<and> exact_decay_load load (int p) = Some e \<and>
    \<bar>of_nat (unat v) - of_nat (unat e)\<bar> \<le> apaf_error_bound state * of_nat (unat e) + 4"
proof -
  obtain e where e: "exact_decay_load load (int p) = Some e" "unat e = (if p = 0 then unat load else if 2016 \<le> p then 0
      else if p mod 32 = 0 then unat load div 2 ^ (p div 32)
      else unat load div 2 ^ (p div 32) * unat (runnable_avg_yN_inv ! (p mod 32)) div 2 ^ 32)"
    by (rule exact_decay_load_view)
  have b: "apaf_error_bound state \<le> 1 / 20" "0 \<le> apaf_error_bound state"
    using apaf_error_bound_range [of state] by simp_all
  have b0: "0 \<le> apaf_error_bound state * of_nat (unat e)"
    using b(2) by (intro mult_nonneg_nonneg) (simp_all only: of_nat_0_le_iff)
  have dm: "c_div (int p) 32 = int (p div 32)" "c_mod (int p) 32 = int (p mod 32)"
    by (simp_all add: c_div_nonneg c_mod_nonneg zdiv_int zmod_int)
  show ?thesis
  proof (cases "p = 0 \<or> 2016 \<le> p \<or> p mod 32 = 0")
    case True
    have "apaf_decay_load load (int p) state = Some e"
      using True dm e(2) by (auto simp: word_unat_eq_iff apaf_decay_load_def u64_shr_def unat_shr Let_def
          simp del: of_nat_div of_nat_mod)
    then show ?thesis using e(1) b0 by auto
  next
    case False
    let ?k = "p mod 32" and ?l = "drop_bit (p div 32) load"
    have k: "1 \<le> int ?k" "int ?k \<le> 31" "?k < 32" "p div 32 < 64" using False by (auto simp del: of_nat_mod)
    have l: "unat ?l = unat load div 2 ^ (p div 32)" by (simp add: unat_shr)
    then have l32: "unat ?l < 4294967296" using assms div_le_dividend [of "unat load" "2 ^ (p div 32)"] by linarith
    obtain q where q: "apaf_factor (int ?k) state = Some (Fin q)" "0 \<le> q"
      "\<bar>q - table_rat (int ?k)\<bar> \<le> apaf_error_bound state * table_rat (int ?k)"
      using apaf_factor_accuracy [OF k(1,2), of state] by auto
    have q1: "q \<le> 127 / 128" using apaf_factor_range [OF k(1,2), of state] q(1) by auto
    obtain v where v: "f_to_u64 (f_of_u64 ?l * Fin q) = Some v" "\<bar>of_nat (unat v) - of_nat (unat ?l) * q\<bar> \<le> (1 :: rat)"
      by (rule apaf_scaled_load [OF q(2) q1 l32])
    have sh: "u64_shr load (int (p div 32)) = Some ?l" using k(4) by (simp add: u64_shr_def)
    have av: "apaf_decay_load load (int p) state = Some v"
      using False k(1) sh q(1) v(1) by (subst apaf_decay_load_factor) (simp_all add: dm del: of_nat_mod of_nat_div)
    define L :: rat where "L = of_nat (unat ?l)"
    have L0: "0 \<le> L" unfolding L_def by (rule of_nat_0_le_iff)
    let ?t = "table_rat (int ?k)" and ?B = "apaf_error_bound state"
    have ee: "unat e = unat ?l * unat (runnable_avg_yN_inv ! ?k) div 2 ^ 32" using e(2) False by (simp add: l)
    have le: "of_nat (unat e) \<le> L * ?t" "L * ?t \<le> of_nat (unat e) + 2"
      using table_product [OF l32 k(3)] unfolding ee L_def by auto
    have "\<bar>L * q - L * ?t\<bar> = L * \<bar>q - ?t\<bar>" using L0 by (simp only: right_diff_distrib [symmetric] abs_mult abs_of_nonneg)
    also have "\<dots> \<le> L * (?B * ?t)" using q(3) L0 by (intro mult_left_mono)
    also have "\<dots> = ?B * (L * ?t)" by simp
    also have "\<dots> \<le> ?B * (of_nat (unat e) + 2)" using le(2) b(2) by (rule mult_left_mono)
    finally have "\<bar>L * q - L * ?t\<bar> \<le> ?B * of_nat (unat e) + 2 * ?B" by (simp add: distrib_left)
    then have "\<bar>of_nat (unat v) - of_nat (unat e)\<bar> \<le> ?B * of_nat (unat e) + (4 :: rat)"
      using v(2) [folded L_def] le b(1) by linarith
    then show ?thesis using av e(1) by blast
  qed
qed

theorem apaf_decay_accuracy_witness:
  "\<exists>v e. apaf_decay_load 47742 (int 40) APAF_LOOSE = Some v \<and> exact_decay_load 47742 (int 40) = Some e \<and>
    \<bar>of_nat (unat v) - of_nat (unat e)\<bar> \<le> apaf_error_bound APAF_LOOSE * of_nat (unat e) + 4"
  by (rule apaf_decay_accuracy) simp

end
