(* ===== verification/Unit_Tests.thy ===== *)
theory Unit_Tests
  imports Task_Print Metrics
begin

text \<open>
  The self-tests at the end of src/apex-cfs/src/task.c, fairness.c and metrics.c: the \<open>main\<close>
  each file has under its \<open>..._TEST\<close> macro. A test returns its exit code and its log, one entry
  per \<open>printf\<close> without the final line break; what a printing function of the library writes
  is one entry. These tests always exit with 0, so the log alone tells whether a check passed.
  The lemmas at the end show that every check passes.
\<close>

section \<open>Logs\<close>

type_synonym log = "string list"

definition say :: "string list \<Rightarrow> log \<Rightarrow> log" where
  "say ls out = out @ ls"

definition say_if :: "bool \<Rightarrow> string list \<Rightarrow> log \<Rightarrow> log" where
  "say_if b ls out = (if b then out @ ls else out)"

text \<open>The number of checks a log reports as passed.\<close>

definition is_pass :: "string \<Rightarrow> bool" where
  "is_pass l \<longleftrightarrow> take 5 l = ''Test ''"

definition passes :: "log \<Rightarrow> nat" where
  "passes out = length (filter is_pass out)"

text \<open>What a function of the library prints into an empty world.\<close>

definition no_io :: io where
  "no_io = \<lparr>stdout = [], files = Map.empty\<rparr>"

text \<open>The warning of \<open>task_create\<close> for a nice value it clamps.\<close>

definition task_create_warning :: "int \<Rightarrow> string list" where
  "task_create_warning nc =
     (if nc < - 20 then
        [''[WARN] task_create: nice='' @ fmt_d nc @ '' out of range, clamped to -20'']
      else if 19 < nc then
        [''[WARN] task_create: nice='' @ fmt_d nc @ '' out of range, clamped to 19'']
      else [])"

section \<open>task.c\<close>

definition task_test :: "(int \<times> log) option" where
  "task_test = do {
     t0 \<leftarrow> task_create 0 0;
     let out = say_if (weight t0 = 1024 \<and> vruntime t0 = 0 \<and> runnable t0 = 1)
                 [''Test 1 PASS: nice=0 weight=1024''] [];
     t1 \<leftarrow> task_create 1 (- 5);
     let out = say_if (weight t1 = 3121) [''Test 2 PASS: nice=-5 weight=3121''] out;
     t2 \<leftarrow> task_create 2 1;
     let out = say_if (weight t2 = 820) [''Test 3 PASS: nice=+1 weight=820''] out;
     t3 \<leftarrow> task_create 3 25;
     let out = say (task_create_warning 25) out;
     let out = say_if (nice t3 = 19 \<and> weight t3 = 15) [''Test 4 PASS: clamping works''] out;
     rq \<leftarrow> rq_init (Ref [t0, t1, t2, t3]) 4 0;
     let out = say_if (nr_running rq = 4 \<and> clock rq = 0 \<and> apaf_state rq = APAF_MEDIUM)
                 [''Test 5 PASS: rq_init correct''] out;
     p \<leftarrow> for_loop 0 5 (\<lambda>_ p. Some (rq_tick p)) (Ref rq);
     rq \<leftarrow> c_deref p;
     let out = say_if (tick rq = 5 \<and> clock rq = 5 * TICK_NS) [''Test 6 PASS: rq_tick correct''] out;
     xs \<leftarrow> c_deref (tasks rq);
     t \<leftarrow> arr_get xs 0;
     w \<leftarrow> rq_print p (task_print (Ref t) no_io);
     Some (0, say [stdout w, ''Test 7 PASS: print functions work'',
                   ''=== ALL TASK TESTS PASSED ==='', ''Ready for Step 2: fairness.c''] out)
   }"

section \<open>fairness.c\<close>

text \<open>The test writes an arrow in UTF-8.\<close>

definition arrow :: string where "arrow = [CHR 0xE2, CHR 0x86, CHR 0x92]"

text \<open>Tasks of nice 0 numbered from 0, with given CPU times.\<close>

fun timed_tasks :: "int \<Rightarrow> u64 list \<Rightarrow> cfs_task list option" where
  "timed_tasks i [] = Some []"
| "timed_tasks i (x # xs) = do {
     t \<leftarrow> task_create i 0;
     ts \<leftarrow> timed_tasks (i + 1) xs;
     Some (t\<lparr>exec_runtime := x\<rparr> # ts)
   }"

definition fairness_test :: "f64 list \<Rightarrow> (int \<times> log) option" where
  "fairness_test shares_mem = do {
     tasks1 \<leftarrow> timed_tasks 0 [100, 100, 100, 100];
     rq1 \<leftarrow> rq_init (Ref tasks1) 4 0;
     j \<leftarrow> fairness_jain_index (Ref rq1);
     let out = say_if (f_eq j 1) [''Test 1 PASS: J=1.0 for equal shares''] [];
     tasks2 \<leftarrow> timed_tasks 0 [100, 200, 300, 400];
     rq2 \<leftarrow> rq_init (Ref tasks2) 4 0;
     j \<leftarrow> fairness_jain_index (Ref rq2);
     let out = say_if (\<bar>j - dec 833333 6\<bar> \<le> dec 1 3) [''Test 2 PASS: J=0.8333 for unequal shares''] out;
     tasks3 \<leftarrow> timed_tasks 0 [500];
     rq3 \<leftarrow> rq_init (Ref tasks3) 1 0;
     j \<leftarrow> fairness_jain_index (Ref rq3);
     let out = say_if (f_eq j 1) [''Test 3 PASS: J=1.0 for single task''] out;
     tasks4 \<leftarrow> timed_tasks 0 [0, 0, 0];
     rq4 \<leftarrow> rq_init (Ref tasks4) 3 0;
     j \<leftarrow> fairness_jain_index (Ref rq4);
     let out = say_if (f_eq j 1) [''Test 4 PASS: J=1.0 for zero runtime''] out;
     let out = say_if (fairness_apaf_next_state APAF_LOOSE (dec 92 2) = APAF_MEDIUM)
                 [''Test 5 PASS: LOOSE'' @ arrow @ ''MEDIUM at J=0.92''] out;
     let out = say_if (fairness_apaf_next_state APAF_MEDIUM (dec 94 2) = APAF_MEDIUM)
                 [''Test 6 PASS: MEDIUM stays at J=0.94''] out;
     let out = say_if (fairness_apaf_next_state APAF_MEDIUM (dec 88 2) = APAF_TIGHT)
                 [''Test 7 PASS: MEDIUM'' @ arrow @ ''TIGHT at J=0.88''] out;
     let out = say_if (fairness_apaf_next_state APAF_TIGHT (dec 96 2) = APAF_MEDIUM)
                 [''Test 8 PASS: TIGHT'' @ arrow @ ''MEDIUM at J=0.96''] out;
     let out = say_if (fairness_apaf_next_state APAF_LOOSE (dec 85 2) = APAF_MEDIUM)
                 [''Test 9 PASS: no level skipping''] out;
     tasks5 \<leftarrow> timed_tasks 0 [300, 500, 200];
     rq5 \<leftarrow> rq_init (Ref tasks5) 3 0;
     p \<leftarrow> fairness_cpu_shares (Ref rq5) (Ref shares_mem) 3;
     shares \<leftarrow> c_deref p;
     s0 \<leftarrow> arr_get shares 0;
     s1 \<leftarrow> arr_get shares 1;
     s2 \<leftarrow> arr_get shares 2;
     let sum_shares = s0 + s1 + s2;
     let out = say_if (\<bar>s0 - dec 3 1\<bar> \<le> dec 1 2 \<and> \<bar>s1 - dec 5 1\<bar> \<le> dec 1 2 \<and>
                       \<bar>s2 - dec 2 1\<bar> \<le> dec 1 2 \<and> \<bar>sum_shares - 1\<bar> \<le> dec 1 2)
                 [''Test 10 PASS: shares sum to 1.0''] out;
     Some (0, say [''=== ALL FAIRNESS TESTS PASSED ==='', ''Ready for Step 3: metrics.c''] out)
   }"

section \<open>metrics.c\<close>

text \<open>Tasks of nice 0 numbered from 0, with given load averages.\<close>

fun loaded_tasks :: "int \<Rightarrow> u64 list \<Rightarrow> cfs_task list option" where
  "loaded_tasks i [] = Some []"
| "loaded_tasks i (l # ls) = do {
     t \<leftarrow> task_create i 0;
     ts \<leftarrow> loaded_tasks (i + 1) ls;
     Some (t\<lparr>load_avg := l\<rparr> # ts)
   }"

text \<open>A metrics record all of whose bytes are 0xFF: its doubles are NaN.\<close>

definition ff_metrics :: metrics where
  "ff_metrics = \<lparr>m_tick = - 1, logic_used = - 1, m_jain_index = NaN, max_error_pct = NaN,
                avg_error_pct = NaN, ops_saved = - 1, m_apaf_state = - 1\<rparr>"

definition record_at :: "metrics list \<Rightarrow> int \<Rightarrow> cfs_rq \<Rightarrow> cfs_rq \<Rightarrow> metrics list option" where
  "record_at buf i rq_a rq_b = do {
     m \<leftarrow> arr_get buf i;
     p \<leftarrow> metrics_record (Ref m) (Ref rq_a) (Ref rq_b);
     m \<leftarrow> c_deref p;
     arr_set buf i m
   }"

text \<open>\<open>fgets\<close> with room for \<open>n\<close> bytes at the start of a file: up to and with the line break.\<close>

definition c_fgets :: "nat \<Rightarrow> string \<Rightarrow> string option" where
  "c_fgets n s =
     (if s = [] then None
      else Some (take (n - 1) (takeWhile (\<lambda>c. c \<noteq> CHR 0x0A) s @ (if CHR 0x0A \<in> set s then nl else []))))"

definition ops_saved_checks :: "metrics list \<Rightarrow> cfs_rq \<Rightarrow> cfs_rq \<Rightarrow> (int \<times> metrics list) option" where
  "ops_saved_checks buf rq_a rq_b = do {
     buf \<leftarrow> record_at buf 1 (rq_a\<lparr>approx_mode := 0\<rparr>) rq_b;
     m \<leftarrow> arr_get buf 1;
     let ok_ops = (if ops_saved m \<noteq> 0 then 0 else 1 :: int);
     buf \<leftarrow> record_at buf 1 (rq_a\<lparr>approx_mode := 1\<rparr>) rq_b;
     m \<leftarrow> arr_get buf 1;
     let ok_ops = (if ops_saved m \<noteq> 3 then 0 else ok_ops);
     buf \<leftarrow> record_at buf 1 (rq_a\<lparr>approx_mode := 2\<rparr>) rq_b;
     m \<leftarrow> arr_get buf 1;
     let ok_ops = (if ops_saved m \<noteq> 12 then 0 else ok_ops);
     buf \<leftarrow> record_at buf 1 (rq_a\<lparr>approx_mode := 3, apaf_state := APAF_LOOSE\<rparr>) rq_b;
     m \<leftarrow> arr_get buf 1;
     let ok_ops = (if ops_saved m \<noteq> 12 then 0 else ok_ops);
     Some (ok_ops, buf)
   }"

definition metrics_test :: "(string \<Rightarrow> bool) \<Rightarrow> (string \<rightharpoonup> string) \<Rightarrow> (int \<times> log) option" where
  "metrics_test can_open fs = do {
     p \<leftarrow> metrics_init (Ref (replicate 10 ff_metrics)) 10;
     buf \<leftarrow> c_deref p;
     m0 \<leftarrow> arr_get buf 0;
     m5 \<leftarrow> arr_get buf 5;
     let out = say_if (m_tick m0 = 0 \<and> f_eq (m_jain_index m0) 1 \<and> m_apaf_state m5 = APAF_MEDIUM)
                 [''Test 1 PASS: metrics_init correct''] [];
     tasks_a \<leftarrow> loaded_tasks 0 [990, 990, 990];
     tasks_b \<leftarrow> loaded_tasks 0 [1000, 1000, 1000];
     rq_a \<leftarrow> rq_init (Ref tasks_a) 3 1;
     rq_b \<leftarrow> rq_init (Ref tasks_b) 3 0;
     let rq_a = rq_a\<lparr>tick := 42\<rparr>;
     buf \<leftarrow> record_at buf 0 rq_a rq_b;
     m0 \<leftarrow> arr_get buf 0;
     let out = say_if (m_tick m0 = 42 \<and> logic_used m0 = 1 \<and> \<bar>max_error_pct m0 - 1\<bar> \<le> dec 1 1)
                 [''Test 2 PASS: metrics_record correct''] out;
     let rq_a = rq_a\<lparr>nr_running := 3, apaf_state := APAF_LOOSE\<rparr>;
     (ok_ops, buf) \<leftarrow> ops_saved_checks buf rq_a rq_b;
     let out = say_if (ok_ops \<noteq> 0) [''Test 3 PASS: ops_saved correct''] out;
     let out = say_if (metrics_get_logic_name 0 = ''EXACT'' \<and> metrics_get_logic_name 1 = ''BSA'' \<and>
                       metrics_get_logic_name 2 = ''CLTI'' \<and> metrics_get_logic_name 3 = ''APAF'' \<and>
                       metrics_get_logic_name 9 = ''UNKNOWN'')
                 [''Test 4 PASS: logic names correct''] out;
     let out = say_if (metrics_get_state_name 3 0 = ''TIGHT'' \<and> metrics_get_state_name 3 1 = ''MEDIUM'' \<and>
                       metrics_get_state_name 3 2 = ''LOOSE'' \<and> metrics_get_state_name 1 0 = ''N/A'')
                 [''Test 5 PASS: state names correct''] out;
     buf \<leftarrow> for_loop 0 5 (\<lambda>i buf. arr_set buf i
       \<lparr>m_tick = word_of_int i, logic_used = 1, m_jain_index = 1, max_error_pct = dec 5 1,
        avg_error_pct = dec 25 2, ops_saved = 10, m_apaf_state = APAF_MEDIUM\<rparr>) buf;
     w \<leftarrow> metrics_write_csv can_open (Ref buf) 5 3 (Ref ''results/test_metrics.csv'')
           \<lparr>stdout = [], files = fs\<rparr>;
     let out = say [stdout w] out;
     let out = (case files w ''results/test_metrics.csv'' of None \<Rightarrow> out
                | Some content \<Rightarrow>
                    (case c_fgets 256 content of None \<Rightarrow> out
                     | Some line \<Rightarrow> say_if (line = METRICS_CSV_HEADER)
                                       [''Test 6 PASS: CSV written correctly''] out));
     buf \<leftarrow> for_loop 0 10 (\<lambda>i buf. do {
       m \<leftarrow> arr_get buf i;
       arr_set buf i (m\<lparr>m_jain_index := 1 - dec 1 2 * f_of_int i, max_error_pct := dec 2 1 * f_of_int i,
         avg_error_pct := dec 1 1 * f_of_int i, ops_saved := 5, logic_used := 3,
         m_apaf_state := c_mod i 3\<rparr>)
     }) buf;
     w \<leftarrow> metrics_print_summary (Ref buf) 10 3 no_io;
     Some (0, say [stdout w, ''Test 7 PASS: summary prints correctly'',
                   ''=== ALL METRICS TESTS PASSED ==='', ''Ready for Step 4: cfs_exact.c''] out)
   }"

section \<open>Every check passes\<close>

lemma passes_simps [simp]:
  "passes [] = 0"
  "passes (say ls out) = passes out + passes ls"
  "passes (say_if b ls out) = passes out + (if b then passes ls else 0)"
  by (simp_all add: passes_def say_def say_if_def)

lemma passes_Cons [simp]: "passes (l # ls) = (if is_pass l then 1 else 0) + passes ls"
  by (simp add: passes_def)

lemma is_pass_append [simp]:
  "is_pass (CHR ''T'' # CHR ''e'' # CHR ''s'' # CHR ''t'' # CHR '' '' # l)"
  "c \<noteq> CHR ''T'' \<Longrightarrow> \<not> is_pass (c # l)"
  by (simp_all add: is_pass_def)

lemma task_test_passes: "\<exists>out. task_test = Some (0, out) \<and> passes out = 7"
proof -
  let ?ts = "map (\<lambda>(i, n, w). \<lparr>t_id = i, nice = n, weight = w, vruntime = 0, load_avg = 0, load_sum = 0,
     exec_runtime = 0, runnable = 1\<rparr>) [(0, 0, 1024), (1, - 5, 3121), (2, 1, 820), (3, 19, 15)]"
  let ?rq = "\<lparr>tasks = Ref ?ts, nr_tasks = 4, nr_running = 4, clock = 0, tick = 0, approx_mode = 0,
     apaf_state = 1, jain_index = 1\<rparr>"
  have ts: "task_create 0 0 = Some (?ts ! 0)" "task_create 1 (- 5) = Some (?ts ! 1)"
    "task_create 2 1 = Some (?ts ! 2)" "task_create 3 25 = Some (?ts ! 3)"
    by (simp_all add: task_create_view nice_to_weight_def)
  have rq: "rq_init (Ref ?ts) 4 0 = Some ?rq"
    using rq_init_view [of ?ts 0] by (simp add: n_running_def is_runnable_def)
  have ticks: "for_loop 0 5 (\<lambda>_ p. Some (rq_tick p)) (Ref ?rq)
      = Some (Ref (?rq\<lparr>tick := 5, clock := 5000000\<rparr>))"
    by (simp add: for_loop_step)
  obtain head where pr: "rq_print (Ref (?rq\<lparr>tick := 5, clock := 5000000\<rparr>)) (task_print (Ref (?ts ! 0)) no_io)
      = Some (put head (task_print (Ref (?ts ! 0)) no_io))"
    using rq_print_view [of "?rq\<lparr>tick := 5, clock := 5000000\<rparr>" ?ts] by (auto simp: rq_view_def)
  have np: "\<not> is_pass (stdout (put head (task_print (Ref (?ts ! 0)) no_io)))"
    by (simp add: put_def task_print_def no_io_def task_lines_def lines_of_def)
  show ?thesis
    using ts rq ticks pr np
    by (simp add: task_test_def arr_get_def task_create_warning_def)
qed

definition timed_task :: "int \<Rightarrow> u64 \<Rightarrow> cfs_task" where
  "timed_task i x = \<lparr>t_id = i, nice = 0, weight = 1024, vruntime = 0, load_avg = 0, load_sum = 0,
                    exec_runtime = x, runnable = 1\<rparr>"

lemma task_create_0: "task_create i 0 = Some (timed_task i 0)"
  by (simp add: task_create_view nice_to_weight_def timed_task_def)

lemma timed_tasks_Cons:
  "timed_tasks i (x # xs) = timed_tasks (i + 1) xs \<bind> (\<lambda>ts. Some (timed_task i x # ts))"
  by (simp add: task_create_0 timed_task_def)

text \<open>A runqueue made of these tasks, with its index.\<close>

lemma test_rq:
  assumes "n = int (length ts)"
  obtains rq where "rq_init (Ref ts) n m = Some rq" and "rq_view rq ts"
    and "fairness_jain_index (Ref rq) = Some (jain_of ts)"
  using that [OF rq_init_view [of ts m, folded assms]] fairness_jain_index_view assms
  by (auto simp: rq_view_def)

lemma jain_test_values:
  "jain_of [timed_task 0 100, timed_task 1 100, timed_task 2 100, timed_task 3 100] = 1"
  "\<bar>jain_of [timed_task 0 100, timed_task 1 200, timed_task 2 300, timed_task 3 400] - dec 833333 6\<bar> \<le> dec 1 3"
  "jain_of [timed_task 0 500] = 1"
  "jain_of [timed_task 0 0, timed_task 1 0, timed_task 2 0] = 1"
  by (simp_all add: jain_of_def jain_acc_def jain_finish_def timed_task_def f64_eval)

lemma next_state_test_values:
  "fairness_apaf_next_state 2 (dec 92 2) = 1" "fairness_apaf_next_state 1 (dec 94 2) = 1"
  "fairness_apaf_next_state 1 (dec 88 2) = 0" "fairness_apaf_next_state 0 (dec 96 2) = 1"
  "fairness_apaf_next_state 2 (dec 85 2) = 1"
  by (simp_all add: fairness_apaf_next_state_def f64_eval)

lemma shares_test_values:
  assumes rq: "rq_view rq [timed_task 0 300, timed_task 1 500, timed_task 2 200]" and "length mem = 3"
  obtains s0 s1 s2 where "fairness_cpu_shares (Ref rq) (Ref mem) 3 = Some (Ref [s0, s1, s2])"
    and "\<bar>s0 - dec 3 1\<bar> \<le> dec 1 2" and "\<bar>s1 - dec 5 1\<bar> \<le> dec 1 2" and "\<bar>s2 - dec 2 1\<bar> \<le> dec 1 2"
    and "\<bar>s0 + s1 + s2 - 1\<bar> \<le> dec 1 2"
proof -
  obtain a b c where mem: "mem = [a, b, c]" using assms(2) by (auto simp: length_Suc_conv numeral_eq_Suc)
  let ?s = "\<lambda>x. share_of 1000 3 (timed_task 0 x)"
  show ?thesis
  proof (rule that [of "?s 300" "?s 500" "?s 200"])
    show "fairness_cpu_shares (Ref rq) (Ref mem) 3 = Some (Ref [?s 300, ?s 500, ?s 200])"
      using rq_view_tasks [OF rq] rq_view_nr [OF rq] mem
      by (simp add: fairness_cpu_shares_def for_loop_step arr_get_def arr_set_def share_acc_def
          share_of_def timed_task_def)
  qed (simp_all add: share_of_def timed_task_def f64_eval)
qed

lemma fairness_test_passes:
  assumes "length mem = 3"
  shows "\<exists>out. fairness_test mem = Some (0, out) \<and> passes out = 10"
proof -
  let ?t = timed_task
  obtain r1 where r1: "rq_init (Ref [?t 0 100, ?t 1 100, ?t 2 100, ?t 3 100]) 4 0 = Some r1"
    "fairness_jain_index (Ref r1) = Some (jain_of [?t 0 100, ?t 1 100, ?t 2 100, ?t 3 100])"
    by (rule test_rq [of 4 "[?t 0 100, ?t 1 100, ?t 2 100, ?t 3 100]" 0]) simp_all
  obtain r2 where r2: "rq_init (Ref [?t 0 100, ?t 1 200, ?t 2 300, ?t 3 400]) 4 0 = Some r2"
    "fairness_jain_index (Ref r2) = Some (jain_of [?t 0 100, ?t 1 200, ?t 2 300, ?t 3 400])"
    by (rule test_rq [of 4 "[?t 0 100, ?t 1 200, ?t 2 300, ?t 3 400]" 0]) simp_all
  obtain r3 where r3: "rq_init (Ref [?t 0 500]) 1 0 = Some r3"
    "fairness_jain_index (Ref r3) = Some (jain_of [?t 0 500])"
    by (rule test_rq [of 1 "[?t 0 500]" 0]) simp_all
  obtain r4 where r4: "rq_init (Ref [?t 0 0, ?t 1 0, ?t 2 0]) 3 0 = Some r4"
    "fairness_jain_index (Ref r4) = Some (jain_of [?t 0 0, ?t 1 0, ?t 2 0])"
    by (rule test_rq [of 3 "[?t 0 0, ?t 1 0, ?t 2 0]" 0]) simp_all
  obtain r5 where r5: "rq_init (Ref [?t 0 300, ?t 1 500, ?t 2 200]) 3 0 = Some r5"
    "rq_view r5 [?t 0 300, ?t 1 500, ?t 2 200]"
    by (rule test_rq [of 3 "[?t 0 300, ?t 1 500, ?t 2 200]" 0]) simp_all
  obtain s0 s1 s2 where s: "fairness_cpu_shares (Ref r5) (Ref mem) 3 = Some (Ref [s0, s1, s2])"
    "\<bar>s0 - dec 3 1\<bar> \<le> dec 1 2" "\<bar>s1 - dec 5 1\<bar> \<le> dec 1 2" "\<bar>s2 - dec 2 1\<bar> \<le> dec 1 2"
    "\<bar>s0 + s1 + s2 - 1\<bar> \<le> dec 1 2"
    by (rule shares_test_values [OF r5(2) assms])
  have one: "f_eq 1 1" by simp
  show ?thesis
    unfolding fairness_test_def timed_tasks_Cons timed_tasks.simps(1)
    by (simp add: r1 r2 r3 r4 r5 s jain_test_values next_state_test_values one arr_get_def
        del: f64_ops One_nat_def)
qed

text \<open>The rows the metrics test works on.\<close>

definition load_task :: "int \<Rightarrow> u64 \<Rightarrow> cfs_task" where
  "load_task i l = (timed_task i 0)\<lparr>load_avg := l\<rparr>"

lemma loaded_tasks_Cons:
  "loaded_tasks i (l # ls) = loaded_tasks (i + 1) ls \<bind> (\<lambda>ts. Some (load_task i l # ts))"
  by (simp add: task_create_0 load_task_def)

lemma test_errors:
  "error_fold [load_task 0 990, load_task 1 990, load_task 2 990]
     [load_task 0 1000, load_task 1 1000, load_task 2 1000] = (1, Fin 3, 3)"
  by (simp add: error_fold_def upt_rec error_acc_def load_task_def f64_eval)

lemma record_at_view:
  assumes "rq_view a xs" and "rq_view e ys" and "length xs = length ys" and "k < length buf"
    and "error_fold xs ys = (mx, sm, c)"
  obtains m where "record_at buf (int k) a e = Some (buf[k := m])" and "m_tick m = tick a"
    and "logic_used m = approx_mode a" and "max_error_pct m = mx"
    and "ops_saved m = metrics_ops_saved (approx_mode a) (apaf_state a) (nr_running a)"
  using metrics_record_view [OF assms(1,2), of "buf ! k"] assms(3-5)
  by (intro that) (auto simp: record_at_def)

lemma header_line:
  "c_fgets 256 (METRICS_CSV_HEADER @ s) = Some METRICS_CSV_HEADER"
  by (simp add: c_fgets_def METRICS_CSV_HEADER_def nl_def)

lemma ops_saved_checks_pass:
  assumes a: "rq_view a [load_task 0 990, load_task 1 990, load_task 2 990]" "nr_running a = 3"
      "apaf_state a = APAF_LOOSE"
    and e: "rq_view e [load_task 0 1000, load_task 1 1000, load_task 2 1000]" and "length buf = 10"
  obtains buf' where "ops_saved_checks buf a e = Some (1, buf')" and "length buf' = 10"
proof -
  let ?a = "\<lambda>k. a\<lparr>approx_mode := k\<rparr>" and ?a3 = "a\<lparr>approx_mode := 3, apaf_state := APAF_LOOSE\<rparr>"
  have v: "rq_view (?a k) [load_task 0 990, load_task 1 990, load_task 2 990]"
    "rq_view ?a3 [load_task 0 990, load_task 1 990, load_task 2 990]" for k
    using a(1) by (simp_all add: rq_view_def)
  have rec: "\<exists>m. record_at b 1 r e = Some (b[1 := m])
      \<and> ops_saved m = metrics_ops_saved (approx_mode r) (apaf_state r) (nr_running r)"
    if "rq_view r [load_task 0 990, load_task 1 990, load_task 2 990]" "length b = 10" for b r
    by (rule record_at_view [OF that(1) e _ _ test_errors, of 1 b]) (use that(2) in auto)
  obtain m0 where m0: "record_at buf 1 (?a 0) e = Some (buf[1 := m0])" "ops_saved m0 = 0"
    using rec [OF v(1) assms(5), of 0] by (auto simp: metrics_ops_saved_def)
  obtain m1 where m1: "record_at (buf[1 := m0]) 1 (?a 1) e = Some (buf[1 := m1])" "ops_saved m1 = 3"
    using rec [OF v(1), of "buf[1 := m0]" 1] assms(2,5) by (auto simp: metrics_ops_saved_def)
  obtain m2 where m2: "record_at (buf[1 := m1]) 1 (?a 2) e = Some (buf[1 := m2])" "ops_saved m2 = 12"
    using rec [OF v(1), of "buf[1 := m1]" 2] assms(2,5) by (auto simp: metrics_ops_saved_def)
  obtain m3 where m3: "record_at (buf[1 := m2]) 1 ?a3 e = Some (buf[1 := m3])" "ops_saved m3 = 12"
    using rec [OF v(2), of "buf[1 := m2]"] assms(2,5) by (auto simp: metrics_ops_saved_def)
  have get: "arr_get (buf[1 := m]) 1 = Some m" for m
    using arr_get_nat [of 1 "buf[1 := m]"] assms(5) by simp
  show ?thesis
    by (rule that [of "buf[1 := m3]"])
      (simp_all add: ops_saved_checks_def m0 m1 m2 m3 get assms(5) del: One_nat_def)
qed

text \<open>The CSV file the test reads back begins with the header, when it could be written.\<close>

lemma csv_check_pass:
  assumes "can_open name" and "length buf = 10"
  obtains w content where "metrics_write_csv can_open (Ref buf) 5 3 (Ref name) \<lparr>stdout = [], files = fs\<rparr> = Some w"
    and "files w name = Some content" and "c_fgets 256 content = Some METRICS_CSV_HEADER"
    and "\<not> is_pass (stdout w)"
proof -
  obtain w where w: "metrics_write_csv can_open (Ref buf) 5 3 (Ref name) \<lparr>stdout = [], files = fs\<rparr> = Some w"
    "files w name = Some (METRICS_CSV_HEADER @ concat (map (\<lambda>m. csv_row m 3) (take 5 buf)))"
    using metrics_write_csv_view [of 5 buf can_open 3 name "\<lparr>stdout = [], files = fs\<rparr>"] assms by auto
  obtain s where "stdout w = CHR ''W'' # s"
    using metrics_write_csv_says [OF w(1)] assms(1) by auto
  then show ?thesis using that [OF w header_line] by simp
qed

lemma row_loops:
  assumes "length buf = 10" and "n \<le> 10"
  obtains buf' where "for_loop 0 (int n) (\<lambda>i buf. arr_set buf i (f i)) buf = Some buf'" and "length buf' = 10"
  by (rule for_loop_invariant0 [of "\<lambda>_ b. length b = 10" buf n "\<lambda>i buf. arr_set buf i (f i)"])
    (use assms in auto)

lemma row_updates:
  assumes "length buf = 10" and "n \<le> 10"
  obtains buf' where "for_loop 0 (int n) (\<lambda>i buf. arr_get buf i \<bind> (\<lambda>m. arr_set buf i (f i m))) buf = Some buf'"
    and "length buf' = 10"
  by (rule for_loop_invariant0 [of "\<lambda>_ b. length b = 10" buf n
        "\<lambda>i buf. arr_get buf i \<bind> (\<lambda>m. arr_set buf i (f i m))"])
    (use assms in auto)

lemma name_checks:
  "metrics_get_logic_name 0 = ''EXACT'' \<and> metrics_get_logic_name 1 = ''BSA'' \<and>
   metrics_get_logic_name 2 = ''CLTI'' \<and> metrics_get_logic_name 3 = ''APAF'' \<and>
   metrics_get_logic_name 9 = ''UNKNOWN''"
  "metrics_get_state_name 3 0 = ''TIGHT'' \<and> metrics_get_state_name 3 1 = ''MEDIUM'' \<and>
   metrics_get_state_name 3 2 = ''LOOSE'' \<and> metrics_get_state_name 1 0 = ''N/A''"
  by (simp_all add: metrics_get_logic_name_def metrics_get_state_name_def)

lemma metrics_test_passes:
  assumes "can_open ''results/test_metrics.csv''"
  shows "\<exists>out. metrics_test can_open fs = Some (0, out) \<and> passes out = 7"
proof -
  let ?as = "[load_task 0 990, load_task 1 990, load_task 2 990]"
  let ?bs = "[load_task 0 1000, load_task 1 1000, load_task 2 1000]"
  have init: "metrics_init (Ref (replicate 10 ff_metrics)) 10 = Some (Ref (replicate 10 clear_metrics))"
    using metrics_init_view [of 10 "replicate 10 ff_metrics"] by simp
  have get: "arr_get (replicate 10 clear_metrics) 0 = Some clear_metrics"
    "arr_get (replicate 10 clear_metrics) 5 = Some clear_metrics"
    by (simp_all add: arr_get_def)
  have clear: "m_tick clear_metrics = 0" "f_eq (m_jain_index clear_metrics) 1"
    "m_apaf_state clear_metrics = APAF_MEDIUM"
    by (simp_all add: clear_metrics_def zero_metrics_def)
  let ?a = "\<lparr>tasks = Ref ?as, nr_tasks = 3, nr_running = 3, clock = 0, tick = 0, approx_mode = 1,
     apaf_state = 1, jain_index = 1\<rparr>"
  let ?a1 = "\<lparr>tasks = Ref ?as, nr_tasks = 3, nr_running = 3, clock = 0, tick = 42, approx_mode = 1,
     apaf_state = 1, jain_index = 1\<rparr>"
  let ?a2 = "\<lparr>tasks = Ref ?as, nr_tasks = 3, nr_running = 3, clock = 0, tick = 42, approx_mode = 1,
     apaf_state = 2, jain_index = 1\<rparr>"
  let ?e = "\<lparr>tasks = Ref ?bs, nr_tasks = 3, nr_running = 3, clock = 0, tick = 0, approx_mode = 0,
     apaf_state = 1, jain_index = 1\<rparr>"
  have rqs: "rq_init (Ref ?as) 3 1 = Some ?a" "rq_init (Ref ?bs) 3 0 = Some ?e"
    using rq_init_view [of ?as 1] rq_init_view [of ?bs 0]
    by (simp_all add: n_running_def is_runnable_def load_task_def timed_task_def)
  have va: "rq_view ?a1 ?as" "rq_view ?a2 ?as"
    and ve: "rq_view ?e ?bs" by (simp_all add: rq_view_def)
  obtain m where m: "record_at (replicate 10 clear_metrics) 0 ?a1 ?e
      = Some ((replicate 10 clear_metrics)[0 := m])" "m_tick m = 42" "logic_used m = 1" "max_error_pct m = 1"
    by (rule record_at_view [OF va(1) ve _ _ test_errors, of 0 "replicate 10 clear_metrics"]) simp_all
  let ?buf = "(replicate 10 clear_metrics)[0 := m]"
  have m0: "arr_get ?buf 0 = Some m" by (simp add: arr_get_def)
  have err: "\<bar>1 - 1\<bar> \<le> dec 1 1" by (simp add: f64_eval)
  obtain b1 where b1: "ops_saved_checks ?buf ?a2 ?e = Some (1, b1)"
    "length b1 = 10"
    by (rule ops_saved_checks_pass [OF va(2) _ _ ve, of ?buf]) simp_all
  let ?row = "\<lambda>i. \<lparr>m_tick = word_of_int i, logic_used = 1, m_jain_index = 1, max_error_pct = dec 5 1,
        avg_error_pct = dec 25 2, ops_saved = 10, m_apaf_state = APAF_MEDIUM\<rparr>"
  obtain b2 where b2: "for_loop 0 5 (\<lambda>i buf. arr_set buf i (?row i)) b1 = Some b2" "length b2 = 10"
    by (rule row_loops [OF b1(2), of 5 ?row]) simp_all
  obtain w content where w: "metrics_write_csv can_open (Ref b2) 5 3 (Ref ''results/test_metrics.csv'')
      \<lparr>stdout = [], files = fs\<rparr> = Some w" "files w ''results/test_metrics.csv'' = Some content"
    "c_fgets 256 content = Some METRICS_CSV_HEADER" "\<not> is_pass (stdout w)"
    by (rule csv_check_pass [of can_open "''results/test_metrics.csv''" b2 fs, OF assms b2(2)])
  let ?upd = "\<lambda>i m. m\<lparr>m_jain_index := 1 - dec 1 2 * f_of_int i, max_error_pct := dec 2 1 * f_of_int i,
         avg_error_pct := dec 1 1 * f_of_int i, ops_saved := 5, logic_used := 3, m_apaf_state := c_mod i 3\<rparr>"
  obtain b3 where b3: "for_loop 0 10 (\<lambda>i buf. arr_get buf i \<bind> (\<lambda>m. arr_set buf i (?upd i m))) b2 = Some b3"
    "length b3 = 10"
    by (rule row_updates [OF b2(2), of 10 ?upd]) simp_all
  obtain t where t: "metrics_print_summary (Ref b3) 10 3 no_io = Some (put t no_io)" "take 1 t = ''=''"
    by (rule metrics_print_summary_says [of 10 b3]) (simp_all add: b3(2))
  have "\<not> is_pass (stdout (put t no_io))"
    using t(2) by (cases t) (simp_all add: put_def no_io_def is_pass_def)
  then show ?thesis
    unfolding metrics_test_def loaded_tasks_Cons loaded_tasks.simps(1)
    by (simp add: Let_def init get clear rqs m m0 err b1 b2 w b3 t name_checks del: f64_ops One_nat_def)
qed

end
