(* ===== verification/Exact_Test.thy ===== *)
theory Exact_Test
  imports Unit_Tests CFS_Exact
begin

text \<open>
  The self-test of src/apex-cfs/src/cfs_exact.c, as a log like those of \<open>Unit_Tests\<close>, and the
  proof that its ten checks pass: the arithmetic checks by evaluation, the runs of 100 and 200
  ticks by the lemmas on runs.
\<close>

section \<open>The test\<close>

text \<open>Tasks numbered from 0 with given nice values.\<close>

fun nice_tasks :: "int \<Rightarrow> int list \<Rightarrow> cfs_task list option" where
  "nice_tasks i [] = Some []"
| "nice_tasks i (n # ns) = do {
     t \<leftarrow> task_create i n;
     ts \<leftarrow> nice_tasks (i + 1) ns;
     Some (t # ts)
   }"

definition task_at :: "cfs_rq ptr \<Rightarrow> int \<Rightarrow> cfs_task option" where
  "task_at p i = do {
     rq \<leftarrow> c_deref p;
     xs \<leftarrow> c_deref (tasks rq);
     arr_get xs i
   }"

definition tick_loop :: "(cfs_rq ptr \<Rightarrow> cfs_rq ptr option) \<Rightarrow> int \<Rightarrow> cfs_rq ptr \<Rightarrow> cfs_rq ptr option" where
  "tick_loop tk n p = for_loop 0 n (\<lambda>_ p. tk p) p"

text \<open>The arithmetic checks 1 to 6.\<close>

definition exact_test_values :: "log \<Rightarrow> log option" where
  "exact_test_values out = do {
     d1 \<leftarrow> exact_decay_load 47742 32;
     let out = say_if (23800 \<le> d1 \<and> d1 \<le> 23950)
                 [''Test 1 PASS: decay half-life correct'', ''  value='' @ fmt_llu d1] out;
     d2 \<leftarrow> exact_decay_load 10000 0;
     let out = say_if (d2 = 10000) [''Test 2 PASS: decay(n=0) = identity''] out;
     d3 \<leftarrow> exact_decay_load 47742 9999;
     let out = say_if (d3 = 0) [''Test 3 PASS: full decay = 0''] out;
     v4 \<leftarrow> exact_calc_delta_fair 1000000 1024;
     let out = say_if (v4 = 1000000) [''Test 4 PASS: nice=0 no scaling''] out;
     v5 \<leftarrow> exact_calc_delta_fair 1000000 3121;
     let out = say_if (300000 \<le> v5 \<and> v5 \<le> 360000)
                 [''Test 5 PASS: nice=-5 scaling correct'', ''  value='' @ fmt_llu v5] out;
     v6 \<leftarrow> exact_calc_delta_fair 1000000 335;
     Some (say_if (2900000 \<le> v6 \<and> v6 \<le> 3200000)
             [''Test 6 PASS: nice=+5 scaling correct'', ''  value='' @ fmt_llu v6] out)
   }"

text \<open>The load average of a lone task, sampled at ticks 50, 100, 150 and 200.\<close>

definition sample_loads :: "cfs_rq ptr \<Rightarrow> (cfs_rq ptr \<times> u64 \<times> u64 \<times> u64 \<times> u64) option" where
  "sample_loads p0 = for_loop 1 201 (\<lambda>i (p, la50, la100, la150, la200). do {
     p \<leftarrow> exact_tick p;
     if i = 50 then do { t \<leftarrow> task_at p 0; Some (p, load_avg t, la100, la150, la200) }
     else if i = 100 then do { t \<leftarrow> task_at p 0; Some (p, la50, load_avg t, la150, la200) }
     else if i = 150 then do { t \<leftarrow> task_at p 0; Some (p, la50, la100, load_avg t, la200) }
     else if i = 200 then do { t \<leftarrow> task_at p 0; Some (p, la50, la100, la150, load_avg t) }
     else Some (p, la50, la100, la150, la200)
   }) (p0, 0, 0, 0, 0)"

definition exact_test :: "(int \<times> log) option" where
  "exact_test = do {
     out \<leftarrow> exact_test_values [];
     eq \<leftarrow> nice_tasks 0 [0, 0, 0, 0];
     rq_eq \<leftarrow> rq_init (Ref eq) 4 0;
     p_eq \<leftarrow> tick_loop exact_tick 100 (Ref rq_eq);
     j \<leftarrow> fairness_jain_index p_eq;
     let out = say_if (dec 95 2 \<le> j) [''Test 7 PASS: equal tasks J='' @ fmt_f 4 j] out;
     mix \<leftarrow> nice_tasks 0 [0, 5];
     rq_mix \<leftarrow> rq_init (Ref mix) 2 0;
     p_mix \<leftarrow> tick_loop exact_tick 100 (Ref rq_mix);
     t0 \<leftarrow> task_at p_mix 0;
     t1 \<leftarrow> task_at p_mix 1;
     let diff = (if vruntime t1 \<le> vruntime t0 then vruntime t0 - vruntime t1 else vruntime t1 - vruntime t0);
     let out = say_if (diff < 10 * TICK_NS)
                 [''Test 8 PASS: vruntime ordering correct'',
                  ''  vr0='' @ fmt_llu (vruntime t0) @ '' vr1='' @ fmt_llu (vruntime t1)] out;
     one \<leftarrow> nice_tasks 0 [0];
     rq_one \<leftarrow> rq_init (Ref one) 1 0;
     (p_one, la50, la100, la150, la200) \<leftarrow> sample_loads (Ref rq_one);
     t \<leftarrow> task_at p_one 0;
     let out = say_if (0 < la200 \<and> la200 \<le> weight t \<and> la50 < la100 \<and> la100 < la150 \<and> la150 < la200)
                 [''Test 9 PASS: load_avg converges'',
                  ''  load_avg@50='' @ fmt_llu la50 @ '' @100='' @ fmt_llu la100 @
                  '' @150='' @ fmt_llu la150 @ '' @200='' @ fmt_llu la200] out;
     blk \<leftarrow> nice_tasks 0 [0];
     rq_blk \<leftarrow> rq_init (Ref blk) 1 0;
     p_blk \<leftarrow> tick_loop exact_tick 100 (Ref rq_blk);
     t \<leftarrow> task_at p_blk 0;
     let run_load = load_avg t;
     rq_blk \<leftarrow> c_deref p_blk;
     xs \<leftarrow> c_deref (tasks rq_blk);
     t \<leftarrow> c_deref (task_set_runnable (Ref t) 0);
     xs \<leftarrow> arr_set xs 0 t;
     p_blk \<leftarrow> tick_loop exact_tick 100 (Ref (rq_blk\<lparr>tasks := Ref xs\<rparr>));
     t \<leftarrow> task_at p_blk 0;
     let blk_load = load_avg t;
     let out = say_if (blk_load < run_load)
                 [''Test 10 PASS: blocked task decays'',
                  ''  running='' @ fmt_llu run_load @ '' blocked='' @ fmt_llu blk_load] out;
     Some (0, say [''=== CHECKPOINT 1 PASSED ==='', ''=== ALL EXACT CFS TESTS PASSED ==='',
                   ''cfs_exact.c is validated ground truth'', ''Ready for Step 5: approx_bsa.c''] out)
   }"

section \<open>Every check passes\<close>

lemma tick_loop_run: "tick_loop tk (int n) p = run_ticks tk n p"
  using for_loop_iter [of 0 n tk p] by (simp add: tick_loop_def run_ticks_iter)

lemma task_at_view: "rq_view rq xs \<Longrightarrow> k < length xs \<Longrightarrow> task_at (Ref rq) (int k) = Some (xs ! k)"
  by (simp add: task_at_def rq_view_tasks)

lemma nice_tasks_Cons:
  "nice_tasks i (0 # ns) = nice_tasks (i + 1) ns \<bind> (\<lambda>ts. Some (timed_task i 0 # ts))"
  by (simp add: task_create_0)

lemma timed_task_fresh [simp]: "fresh (timed_task i 0)" "is_runnable (timed_task i x)" "turn_task 0 (timed_task i 0)"
  by (simp_all add: fresh_def wf_task_def nice_to_weight_def timed_task_def is_runnable_def turn_task_def)

lemma exact_test_values_pass: "\<exists>out'. exact_test_values out = Some out' \<and> passes out' = passes out + 6"
  by (simp add: exact_test_values_def exact_decay_load_def exact_calc_delta_fair_def c_div_nonneg c_mod_nonneg
      exact_mul_shr mul_shr_def arr_get_def runnable_avg_yN_inv_def u64_shr_def Let_def)

text \<open>Four equal tasks after any number of full rounds: the index is exactly 1.\<close>

lemma jain_of_equal4:
  assumes "\<forall>t \<in> {a, b, c, d}. is_runnable t \<and> exec_runtime t = of_nat k * TICK_NS" and "k \<le> 1000"
  shows "jain_of [a, b, c, d] = 1"
proof (cases "k = 0")
  case True
  then show ?thesis using assms(1) by (simp add: jain_of_def jain_acc_def jain_finish_def is_runnable_def)
next
  case False
  define x where "x = k * 1000000"
  have x: "0 < x" "x \<le> 1000000000" using False assms(2) by (simp_all add: x_def)
  have sq: "x * x \<le> 1000000000000000000" using mult_le_mono [OF x(2) x(2)] by simp
  have ex: "of_nat k * TICK_NS = of_nat x" by (simp add: x_def)
  have e: "is_runnable t \<and> exec_runtime t = of_nat x" if "t \<in> {a, b, c, d}" for t
    using assms(1) that by (simp only: ex)
  have sums: "fold jain_acc [a, b, c, d] (0, 0, 0) = (of_nat (4 * x), of_nat (4 * (x * x)), 4)"
    using e by (simp add: jain_acc_def is_runnable_def Let_def)
  have nz: "of_nat (4 * x) \<noteq> (0 :: u64)" "of_nat (4 * (x * x)) \<noteq> (0 :: u64)" "of_nat (16 * (x * x)) \<noteq> (0 :: u64)"
    using x sq by (intro of_nat_u64_nonzero; simp)+
  have prod: "of_nat (4 * x) * of_nat (4 * x) = (of_nat (16 * (x * x)) :: u64)"
    "(4 :: u64) * of_nat (4 * (x * x)) = of_nat (16 * (x * x))"
    by simp_all
  have "0 < (of_nat (16 * (x * x)) :: u64)" using nz(3) by (simp add: word_gt_0)
  then obtain q where "f_of_u64 (of_nat (16 * (x * x))) = Fin q" "1 \<le> q"
    using f_of_u64_pos by blast
  then have "f_of_u64 (of_nat (16 * (x * x))) / f_of_u64 (of_nat (16 * (x * x))) = Fin 1"
    by (simp add: f64_eval)
  then show ?thesis
    using nz by (simp only: jain_of_def sums jain_finish_def prod prod.case word_of_int_numeral Let_def) simp
qed

lemma jain_in_turn:
  assumes "in_turn (4 * k) xs" and "length xs = 4" and "k \<le> 1000"
  shows "jain_of xs = 1"
proof -
  obtain a b c d where xs: "xs = [a, b, c, d]" using assms(2) by (auto simp: length_Suc_conv numeral_eq_Suc)
  have "turn_task k (xs ! i)" if "i < 4" for i
    using assms(1,2) that by (auto simp: in_turn_def turns_def)
  from this [of 0] this [of 1] this [of 2] this [of 3]
  have "turn_task k a" "turn_task k b" "turn_task k c" "turn_task k d" by (simp_all add: xs)
  then show ?thesis unfolding xs by (intro jain_of_equal4 [of _ _ _ _ k]) (simp_all add: turn_task_def assms(3))
qed

lemma load_values:
  "load_after exact_decay1 1024 50 = 31594" "load_after exact_decay1 1024 100 = 42291"
  "load_after exact_decay1 1024 150 = 45910" "load_after exact_decay1 1024 200 = 47137"
  "(exact_decay1 ^^ 100) 42291 = 4826"
  by (simp_all add: load_after_numeral funpow_numeral exact_decay1_eval)

definition exact_avg :: "nat \<Rightarrow> u64" where
  "exact_avg n = avg_of 1024 (load_after exact_decay1 1024 n)"

text \<open>A lone task of nice 0 after \<open>n\<close> ticks.\<close>

lemma lone_run:
  assumes "rq_view rq [timed_task 0 0]"
  obtains rq' t where "run_ticks exact_tick n (Ref rq) = Some (Ref rq')" and "rq_view rq' [t]"
    and "weight t = 1024" and "is_runnable t" and "load_sum t = load_after exact_decay1 1024 n"
    and "load_avg t = exact_avg n"
proof -
  have w: "weight (timed_task 0 0) = 1024" by (simp add: timed_task_def)
  show ?thesis
    by (rule exact.lone_load [OF assms, of exact_decay1 n])
      (use that in \<open>simp_all add: w exact_avg_def\<close>)
qed

lemma exact_avg_values:
  "exact_avg 50 = 677" "exact_avg 100 = 907" "exact_avg 150 = 984" "exact_avg 200 = 1011"
  by (simp_all add: exact_avg_def load_values avg_of_def Let_def)

lemma sample_loads_view:
  assumes v: "rq_view rq [timed_task 0 0]"
  obtains rq' t where "sample_loads (Ref rq) = Some (Ref rq', exact_avg 50, exact_avg 100, exact_avg 150, exact_avg 200)"
    and "rq_view rq' [t]" and "weight t = 1024"
proof -
  let ?P = "\<lambda>j (p, a, b, c, d). run_ticks exact_tick (j - 1) (Ref rq) = Some p \<and>
    (50 < j \<longrightarrow> a = exact_avg 50) \<and> (100 < j \<longrightarrow> b = exact_avg 100) \<and> (150 < j \<longrightarrow> c = exact_avg 150) \<and>
    (200 < j \<longrightarrow> d = exact_avg 200)"
  let ?body = "(\<lambda>i (p, la50, la100, la150, la200). do {
        p \<leftarrow> exact_tick p;
        if i = 50 then do { t \<leftarrow> task_at p 0; Some (p, load_avg t, la100, la150, la200) }
        else if i = 100 then do { t \<leftarrow> task_at p 0; Some (p, la50, load_avg t, la150, la200) }
        else if i = 150 then do { t \<leftarrow> task_at p 0; Some (p, la50, la100, load_avg t, la200) }
        else if i = 200 then do { t \<leftarrow> task_at p 0; Some (p, la50, la100, la150, load_avg t) }
        else Some (p, la50, la100, la150, la200) }) :: int \<Rightarrow> _"
  have step: "\<exists>t'. ?body (int j) s = Some t' \<and> ?P (Suc j) t'" if j: "1 \<le> j" "j < 201" and P: "?P j s" for j s
  proof -
    obtain p a b c d where s: "s = (p, a, b, c, d)" by (cases s)
    obtain rq' t where r: "run_ticks exact_tick j (Ref rq) = Some (Ref rq')" "rq_view rq' [t]"
      "load_avg t = exact_avg j"
      by (rule lone_run [OF v, of j])
    have tick: "exact_tick p = Some (Ref rq')"
      using r(1) P j run_ticks_Suc_end [of exact_tick "j - 1" "Ref rq"] by (simp add: s)
    have at: "task_at (Ref rq') 0 = Some t" using task_at_view [OF r(2), of 0] by simp
    show ?thesis using P r at by (auto simp: s tick)
  qed
  have "\<exists>s. for_loop (int 1) (int 201) ?body (Ref rq, 0, 0, 0, 0) = Some s \<and> ?P 201 s"
    by (rule for_loop_invariant [where P = ?P]) (simp, simp, rule step)
  then have "\<exists>s. sample_loads (Ref rq) = Some s \<and> ?P 201 s" by (simp add: sample_loads_def)
  then obtain p a b c d where s: "sample_loads (Ref rq) = Some (p, a, b, c, d)" "?P 201 (p, a, b, c, d)"
    by auto
  obtain rq' t where r: "run_ticks exact_tick 200 (Ref rq) = Some (Ref rq')" "rq_view rq' [t]" "weight t = 1024"
    by (rule lone_run [OF v, of 200])
  show ?thesis using that [of rq' t] s r by simp
qed

text \<open>A nice-0 and a nice-5 task stay within one tick of the lighter.\<close>

definition nice5_task :: cfs_task where
  "nice5_task = \<lparr>t_id = 1, nice = 5, weight = 335, vruntime = 0, load_avg = 0, load_sum = 0,
                exec_runtime = 0, runnable = 1\<rparr>"

lemma mixed_run:
  assumes v: "rq_view rq [timed_task 0 0, nice5_task]"
  obtains rq' t0 t1 where "run_ticks exact_tick 100 (Ref rq) = Some (Ref rq')" and "rq_view rq' [t0, t1]"
    and "unat (vruntime t0) \<le> unat (vruntime t1) + 3056716"
    and "unat (vruntime t1) \<le> unat (vruntime t0) + 3056716"
proof -
  have vd: "unat (exact_vdelta 335) \<le> 3056716" "unat (exact_vdelta 1024) \<le> 3056716"
    by (simp_all add: unat_exact_vdelta)
  have "\<exists>rq' xs'. run_ticks exact_tick 100 (Ref rq) = Some (Ref rq') \<and> rq_view rq' xs' \<and>
    map runnable xs' = map runnable [timed_task 0 0, nice5_task] \<and> spread_within 3056716 xs'"
    by (rule exact.run_spread_within [OF v])
      (use vd in \<open>auto simp: spread_within_def vr_below_def timed_task_def nice5_task_def\<close>)
  then obtain rq' xs' where r: "run_ticks exact_tick 100 (Ref rq) = Some (Ref rq')" "rq_view rq' xs'"
    "map runnable xs' = [1, 1]" "spread_within 3056716 xs'"
    by (auto simp: timed_task_def nice5_task_def)
  obtain t0 t1 where x: "xs' = [t0, t1]" "runnable t0 = 1" "runnable t1 = 1" using r(3) by auto
  show ?thesis using that r x by (simp add: spread_within_def is_runnable_def)
qed

text \<open>A lone task that runs for 100 ticks and sleeps for 100.\<close>

lemma blocked_run:
  assumes v: "rq_view rq [t]" and r: "\<not> is_runnable t" and w: "weight t = 1024"
    and s: "load_sum t = load_after exact_decay1 1024 100"
  obtains rq' u where "run_ticks exact_tick 100 (Ref rq) = Some (Ref rq')" and "rq_view rq' [u]"
    and "load_avg u = 103"
proof -
  have "n_running [t] = 0" using r by (simp add: n_running_def)
  then obtain rq' xs' where q: "run_ticks exact_tick 100 (Ref rq) = Some (Ref rq')" "rq_view rq' xs'"
    "length xs' = 1" "load_sum (xs' ! 0) = (exact_decay1 ^^ 100) (load_sum t)"
    "load_avg (xs' ! 0) = avg_of 1024 (load_sum (xs' ! 0))"
    using exact.run_idle [OF v, of exact_decay1 100] w by auto
  obtain u where u: "xs' = [u]" using q(3) by (auto simp: length_Suc_conv)
  show ?thesis using that [of rq' u] q u s by (simp add: load_values avg_of_def Let_def)
qed

lemma exact_test_passes: "\<exists>out. exact_test = Some (0, out) \<and> passes out = 10"
proof -
  obtain out0 where out0: "exact_test_values [] = Some out0" "passes out0 = 6"
    using exact_test_values_pass [of "[]"] by auto
  let ?eq = "[timed_task 0 0, timed_task 1 0, timed_task 2 0, timed_task 3 0]"
  have eq: "nice_tasks 0 [0, 0, 0, 0] = Some ?eq" by (simp only: nice_tasks_Cons nice_tasks.simps(1)) simp
  obtain r1 where r1: "rq_init (Ref ?eq) 4 0 = Some r1" "rq_view r1 ?eq"
    by (rule test_rq [of 4 ?eq 0]) simp_all
  obtain q1 xs1 where q1: "run_ticks exact_tick 100 (Ref r1) = Some (Ref q1)" "rq_view q1 xs1"
    "length xs1 = 4" "in_turn 100 xs1"
    using exact.round_robin [OF r1(2), of 100] by (auto simp: exact_vdelta_def)
  have j: "fairness_jain_index (Ref q1) = Some 1"
    using fairness_jain_index_view [OF q1(2)] jain_in_turn [of 25, OF _ q1(3)] q1(4) by simp
  have mix: "nice_tasks 0 [0, 5] = Some [timed_task 0 0, nice5_task]"
    by (simp add: task_create_view nice_to_weight_def timed_task_def nice5_task_def)
  obtain r2 where r2: "rq_init (Ref [timed_task 0 0, nice5_task]) 2 0 = Some r2"
    "rq_view r2 [timed_task 0 0, nice5_task]"
    by (rule test_rq [of 2 "[timed_task 0 0, nice5_task]" 0]) simp_all
  obtain q2 t0 t1 where q2: "run_ticks exact_tick 100 (Ref r2) = Some (Ref q2)" "rq_view q2 [t0, t1]"
    "unat (vruntime t0) \<le> unat (vruntime t1) + 3056716" "unat (vruntime t1) \<le> unat (vruntime t0) + 3056716"
    by (rule mixed_run [OF r2(2)])
  have diff: "(if vruntime t1 \<le> vruntime t0 then vruntime t0 - vruntime t1 else vruntime t1 - vruntime t0) < 10000000"
    using q2(3,4) by (auto simp: word_le_nat_alt word_less_nat_alt unat_u64_sub not_le less_imp_le)
  have at2: "task_at (Ref q2) 0 = Some t0" "task_at (Ref q2) 1 = Some t1"
    using task_at_view [OF q2(2), of 0] task_at_view [OF q2(2), of 1] by simp_all
  have one: "nice_tasks 0 [0] = Some [timed_task 0 0]" by (simp only: nice_tasks_Cons nice_tasks.simps(1)) simp
  obtain r3 where r3: "rq_init (Ref [timed_task 0 0]) 1 0 = Some r3" "rq_view r3 [timed_task 0 0]"
    by (rule test_rq [of 1 "[timed_task 0 0]" 0]) simp_all
  obtain q3 t3 where q3: "sample_loads (Ref r3) = Some (Ref q3, exact_avg 50, exact_avg 100, exact_avg 150, exact_avg 200)"
    "rq_view q3 [t3]" "weight t3 = 1024"
    by (rule sample_loads_view [OF r3(2)])
  have at3: "task_at (Ref q3) 0 = Some t3" using task_at_view [OF q3(2), of 0] by simp
  obtain q4 t4 where q4: "run_ticks exact_tick 100 (Ref r3) = Some (Ref q4)" "rq_view q4 [t4]" "weight t4 = 1024"
    "load_sum t4 = load_after exact_decay1 1024 100" "load_avg t4 = exact_avg 100"
    by (rule lone_run [OF r3(2), of 100])
  have at4: "task_at (Ref q4) 0 = Some t4" using task_at_view [OF q4(2), of 0] by simp
  have v5: "rq_view (q4\<lparr>tasks := Ref [t4\<lparr>runnable := 0\<rparr>]\<rparr>) [t4\<lparr>runnable := 0\<rparr>]"
    by (rule rq_view_tasks_update [OF q4(2)]) simp
  obtain q5 t5 where q5: "run_ticks exact_tick 100 (Ref (q4\<lparr>tasks := Ref [t4\<lparr>runnable := 0\<rparr>]\<rparr>)) = Some (Ref q5)"
    "rq_view q5 [t5]" "load_avg t5 = 103"
    by (rule blocked_run [OF v5]) (use q4 in \<open>simp_all add: is_runnable_def\<close>)
  have at5: "task_at (Ref q5) 0 = Some t5" using task_at_view [OF q5(2), of 0] by simp
  have loop: "tick_loop exact_tick 100 p = run_ticks exact_tick 100 p" for p
    using tick_loop_run [of exact_tick 100 p] by simp
  have le: "dec 95 2 \<le> 1" by (simp add: f64_eval)
  have set0: "arr_set [t4] 0 x = Some [x]" for x by (simp add: arr_set_def)
  show ?thesis
    by (simp add: exact_test_def out0 eq r1(1) loop q1(1) j le mix r2(1) q2(1) at2 diff one r3(1) q3(1) at3 q3(3)
        q4(1,5) at4 rq_view_tasks [OF q4(2)] task_set_runnable_def set0 q5(1,3) at5 exact_avg_values Let_def
        del: f64_ops One_nat_def nice_tasks.simps)
qed

text \<open>
  C27. The self-tests of task.c, fairness.c, metrics.c and cfs_exact.c are defined, return 0 and
  print a line with PASS for each of their checks, for any contents of the array of shares and
  wherever the CSV file of the metrics test can be opened.
\<close>

theorem core_tests_pass:
  assumes "length mem = 3" and "can_open ''results/test_metrics.csv''"
  shows "(\<exists>out. task_test = Some (0, out) \<and> passes out = 7) \<and>
    (\<exists>out. fairness_test mem = Some (0, out) \<and> passes out = 10) \<and>
    (\<exists>out. metrics_test can_open fs = Some (0, out) \<and> passes out = 7) \<and>
    (\<exists>out. exact_test = Some (0, out) \<and> passes out = 10)"
  using task_test_passes fairness_test_passes [OF assms(1)] metrics_test_passes [of can_open fs, OF assms(2)]
    exact_test_passes by blast

theorem core_tests_pass_witness:
  "(\<exists>out. task_test = Some (0, out) \<and> passes out = 7) \<and>
    (\<exists>out. fairness_test [0, 1, 0] = Some (0, out) \<and> passes out = 10) \<and>
    (\<exists>out. metrics_test (\<lambda>_. True) (\<lambda>_. None) = Some (0, out) \<and> passes out = 7) \<and>
    (\<exists>out. exact_test = Some (0, out) \<and> passes out = 10)"
  by (rule core_tests_pass) simp_all

end
