(* ===== verification/Approx_Tests.thy ===== *)
theory Approx_Tests
  imports Exact_Test Approx_CLTI Approx_APAF
begin

text \<open>
  The self-tests of src/apex-cfs/src/approx_bsa.c, approx_clti.c and approx_apaf.c, as logs
  like those of \<open>Unit_Tests\<close>. Their exit code is 0 exactly when every check passed. A local
  variable that is read only after it has been written is not a parameter.
\<close>

section \<open>Checks\<close>

text \<open>\<open>if (b) { printf ... } else { ok = 0; }\<close>\<close>

definition check :: "bool \<Rightarrow> string list \<Rightarrow> int \<times> log \<Rightarrow> int \<times> log" where
  "check b ls s = (case s of (ok, out) \<Rightarrow> if b then (ok, out @ ls) else (0, out))"

text \<open>\<open>fabs((double)exact - (double)approx) / (double)exact * 100.0\<close>\<close>

definition pct_err :: "u64 \<Rightarrow> u64 \<Rightarrow> f64" where
  "pct_err exact approx = \<bar>f_of_u64 exact - f_of_u64 approx\<bar> / f_of_u64 exact * dec 100 0"

definition fmt_pct :: "f64 \<Rightarrow> string" where
  "fmt_pct x = fmt_f 4 x @ ''%''"

definition fmt_u :: "u32 \<Rightarrow> string" where
  "fmt_u w = fmt_nat (unat w)"

text \<open>Two and three runqueues ticked side by side.\<close>

definition tick_loop2 ::
  "(cfs_rq ptr \<Rightarrow> cfs_rq ptr option) \<Rightarrow> (cfs_rq ptr \<Rightarrow> cfs_rq ptr option) \<Rightarrow> int \<Rightarrow>
   cfs_rq ptr \<times> cfs_rq ptr \<Rightarrow> (cfs_rq ptr \<times> cfs_rq ptr) option" where
  "tick_loop2 tk1 tk2 n s = for_loop 0 n (\<lambda>_ (p, q). do {
     p \<leftarrow> tk1 p;
     q \<leftarrow> tk2 q;
     Some (p, q)
   }) s"

definition tick_loop3 ::
  "(cfs_rq ptr \<Rightarrow> cfs_rq ptr option) \<Rightarrow> (cfs_rq ptr \<Rightarrow> cfs_rq ptr option) \<Rightarrow>
   (cfs_rq ptr \<Rightarrow> cfs_rq ptr option) \<Rightarrow> int \<Rightarrow>
   cfs_rq ptr \<times> cfs_rq ptr \<times> cfs_rq ptr \<Rightarrow> (cfs_rq ptr \<times> cfs_rq ptr \<times> cfs_rq ptr) option" where
  "tick_loop3 tk1 tk2 tk3 n s = for_loop 0 n (\<lambda>_ (p, q, r). do {
     p \<leftarrow> tk1 p;
     q \<leftarrow> tk2 q;
     r \<leftarrow> tk3 r;
     Some (p, q, r)
   }) s"

text \<open>A runqueue of \<open>n\<close> fresh tasks of nice 0.\<close>

definition fresh_rq :: "nat \<Rightarrow> int \<Rightarrow> cfs_rq option" where
  "fresh_rq n mode = do {
     ts \<leftarrow> nice_tasks 0 (replicate n 0);
     rq_init (Ref ts) (int n) mode
   }"

section \<open>approx_bsa.c\<close>

text \<open>Checks 1 to 6.\<close>

definition bsa_test_values :: "int \<times> log \<Rightarrow> (int \<times> log) option" where
  "bsa_test_values s = do {
     let s = check (bsa_nearest_pow2 1024 = 1024 \<and> bsa_nearest_pow2 512 = 512 \<and> bsa_nearest_pow2 1 = 1)
               [''Test 1 PASS: exact powers of 2''] s;
     let s = check (bsa_nearest_pow2 820 = 1024 \<and> bsa_nearest_pow2 700 = 512)
               [''Test 2 PASS: rounding correct'',
                ''  820->'' @ fmt_u (bsa_nearest_pow2 820) @ '' 700->'' @ fmt_u (bsa_nearest_pow2 700)] s;
     exact_d \<leftarrow> exact_decay_load 47742 32;
     bsa_d \<leftarrow> bsa_decay_load 47742 32;
     let err = pct_err exact_d bsa_d;
     let s = check (err \<le> dec 35 0)
               [''Test 3: decay error over 32 ticks'',
                ''  exact='' @ fmt_llu exact_d @ '' bsa='' @ fmt_llu bsa_d @ '' err='' @ fmt_pct err] s;
     exact_d \<leftarrow> exact_decay_load 10000 1;
     bsa_d \<leftarrow> bsa_decay_load 10000 1;
     let err = pct_err exact_d bsa_d;
     let s = check (err \<le> dec 11 1)
               [''Test 4 PASS: per-tick error <= 1.1%'', ''  err='' @ fmt_pct err] s;
     v \<leftarrow> bsa_vruntime_delta 1000000 1024;
     let s = check (v = 1000000) [''Test 5 PASS: nice=0 unchanged''] s;
     exact_v \<leftarrow> exact_calc_delta_fair 1000000 820;
     bsa_v \<leftarrow> bsa_vruntime_delta 1000000 820;
     let err = pct_err exact_v bsa_v;
     Some (check (err \<le> dec 2 0)
             [''Test 6 PASS: vruntime error <= 2%'',
              ''  exact='' @ fmt_llu exact_v @ '' bsa='' @ fmt_llu bsa_v @ '' err='' @ fmt_pct err] s)
   }"

text \<open>The loop of check 7 with its two breaks; the result is the value of \<open>i\<close> after the loop.\<close>

fun bsa_weight_loop :: "int \<Rightarrow> u32 list \<Rightarrow> log \<Rightarrow> (int \<times> log) option" where
  "bsa_weight_loop i [] out = Some (i, out)"
| "bsa_weight_loop i (w # ws) out = do {
     exact_v \<leftarrow> exact_calc_delta_fair 1000000 w;
     bsa_v \<leftarrow> bsa_vruntime_delta 1000000 w;
     let err = (if exact_v = 0 then 0 else pct_err exact_v bsa_v);
     let out = say [''  weight='' @ fmt_u w @ '' err='' @ fmt_pct err] out;
     if w = 1024 \<and> \<not> f_eq err 0 then Some (i, out)
     else if w \<noteq> 1024 \<and> dec 2 0 < err then Some (i, out)
     else bsa_weight_loop (i + 1) ws out
   }"

text \<open>Check 10: every task runnable with load 100.\<close>

definition bsa_test_ops :: "cfs_rq ptr \<Rightarrow> cfs_rq ptr \<Rightarrow> metrics \<Rightarrow> int \<times> log \<Rightarrow> (int \<times> log) option" where
  "bsa_test_ops p_bsa p_exact m_mem s = do {
     mp \<leftarrow> metrics_init (Ref [m_mem]) 1;
     ms \<leftarrow> c_deref mp;
     m \<leftarrow> arr_get ms 0;
     bsa_rq \<leftarrow> c_deref p_bsa;
     exact_rq \<leftarrow> c_deref p_exact;
     bs \<leftarrow> c_deref (tasks bsa_rq);
     es \<leftarrow> c_deref (tasks exact_rq);
     (bs, es) \<leftarrow> for_loop 0 4 (\<lambda>i (bs, es). do {
       b \<leftarrow> arr_get bs i;
       bs \<leftarrow> arr_set bs i (b\<lparr>runnable := 1, load_avg := 100\<rparr>);
       e \<leftarrow> arr_get es i;
       es \<leftarrow> arr_set es i (e\<lparr>load_avg := 100\<rparr>);
       Some (bs, es)
     }) (bs, es);
     (_, p_bsa) \<leftarrow> rq_count_running (Ref (bsa_rq\<lparr>tasks := Ref bs\<rparr>));
     bsa_rq \<leftarrow> c_deref p_bsa;
     mp \<leftarrow> metrics_record (Ref m) (Ref (bsa_rq\<lparr>approx_mode := 1\<rparr>)) (Ref (exact_rq\<lparr>tasks := Ref es\<rparr>));
     m \<leftarrow> c_deref mp;
     Some (check (ops_saved m = 4) [''Test 10 PASS: ops_saved correct''] s)
   }"

definition bsa_test :: "metrics \<Rightarrow> (int \<times> log) option" where
  "bsa_test m_mem = do {
     s \<leftarrow> bsa_test_values (1, []);
     (i, out) \<leftarrow> bsa_weight_loop 0 [1024, 820, 1277, 1586, 655] (snd s);
     let s = check (i = 5) [''Test 7 PASS: all weights <= 2.0%''] (fst s, out);
     exact_rq \<leftarrow> fresh_rq 4 0;
     bsa_rq \<leftarrow> fresh_rq 4 1;
     (p_exact, p_bsa) \<leftarrow> tick_loop2 exact_tick bsa_tick 100 (Ref exact_rq, Ref bsa_rq);
     exact_j \<leftarrow> fairness_jain_index p_exact;
     bsa_j \<leftarrow> fairness_jain_index p_bsa;
     let s = check (dec 90 2 \<le> bsa_j \<and> \<bar>exact_j - bsa_j\<bar> \<le> dec 10 2)
               [''Test 8 PASS: BSA Jain='' @ fmt_f 4 bsa_j @ '' Exact Jain='' @ fmt_f 4 exact_j] s;
     e1_rq \<leftarrow> fresh_rq 1 0;
     b1_rq \<leftarrow> fresh_rq 1 1;
     (p_e1, p_b1) \<leftarrow> tick_loop2 exact_tick bsa_tick 100 (Ref e1_rq, Ref b1_rq);
     e \<leftarrow> task_at p_e1 0;
     b \<leftarrow> task_at p_b1 0;
     let err = pct_err (load_avg e) (load_avg b);
     let s = check (err \<le> dec 26 0)
               [''Test 9: load_avg after 100 ticks'',
                ''  exact='' @ fmt_llu (load_avg e) @ '' bsa='' @ fmt_llu (load_avg b) @ '' err='' @ fmt_pct err] s;
     (ok, out) \<leftarrow> bsa_test_ops p_bsa p_exact m_mem s;
     if ok \<noteq> 0 then
       Some (0, say [''=== ALL BSA TESTS PASSED ==='', ''Logic 1 (BSA) validated'',
                     ''Ready for Step 6: approx_clti.c''] out)
     else Some (1, say [''BSA tests failed''] out)
   }"

section \<open>approx_clti.c\<close>

text \<open>Checks 1 to 8.\<close>

definition clti_test_values :: "int \<times> log \<Rightarrow> (int \<times> log) option" where
  "clti_test_values s = do {
     y0 \<leftarrow> arr_get clti_decay_table 0;
     y1 \<leftarrow> arr_get clti_decay_table 1;
     y4 \<leftarrow> arr_get clti_decay_table 4;
     y7 \<leftarrow> arr_get clti_decay_table 7;
     let s = check (y0 = 32768 \<and> y1 = 30048 \<and> y4 = 23170 \<and> y7 = 17867)
               [''Test 1 PASS: table entries correct''] s;
     k1024 \<leftarrow> clti_weight_to_class 1024;
     k820 \<leftarrow> clti_weight_to_class 820;
     k88761 \<leftarrow> clti_weight_to_class 88761;
     k15 \<leftarrow> clti_weight_to_class 15;
     let s = check (k1024 = 4 \<and> k820 = 4 \<and> k88761 = 0 \<and> k15 = 7)
               [''Test 2 PASS: weight class mapping'',
                ''  1024->'' @ fmt_d k1024 @ '' 820->'' @ fmt_d k820 @ '' 88761->'' @ fmt_d k88761 @
                '' 15->'' @ fmt_d k15] s;
     v \<leftarrow> clti_decay_interpolate 10000 0;
     let s = check (v = 10000) [''Test 3 PASS: zero periods identity''] s;
     v \<leftarrow> clti_decay_interpolate 32768 4;
     let s = check (v = 30048) [''Test 4 PASS: exact table entry''] s;
     v \<leftarrow> clti_decay_interpolate 32768 6;
     let s = check (28751 \<le> v \<and> v \<le> 28851)
               [''Test 5 PASS: interpolation correct'', ''  value='' @ fmt_llu v] s;
     exact_d \<leftarrow> exact_decay_load 10000 1;
     clti_d \<leftarrow> clti_decay_load 10000 1;
     let err = pct_err exact_d clti_d;
     let s = check (err \<le> dec 5 1)
               [''Test 6 PASS: CLTI per-tick error'',
                ''  exact='' @ fmt_llu exact_d @ '' clti='' @ fmt_llu clti_d @ '' err='' @ fmt_pct err] s;
     exact_d \<leftarrow> exact_decay_load 47742 32;
     clti_d \<leftarrow> clti_decay_load 47742 32;
     let err = pct_err exact_d clti_d;
     let s = check (err \<le> dec 3 0)
               [''Test 7: accumulated error 32 ticks'',
                ''  exact='' @ fmt_llu exact_d @ '' clti='' @ fmt_llu clti_d @ '' err='' @ fmt_pct err] s;
     bsa_d \<leftarrow> bsa_decay_load 47742 32;
     let err_bsa = pct_err exact_d bsa_d;
     let err_clti = pct_err exact_d clti_d;
     Some (check (err_clti \<le> err_bsa)
             [''Test 8 PASS: CLTI more accurate'',
              ''  err_bsa='' @ fmt_pct err_bsa @ '' err_clti='' @ fmt_pct err_clti] s)
   }"

definition clti_test :: "(int \<times> log) option" where
  "clti_test = do {
     s \<leftarrow> clti_test_values (1, []);
     exact_rq \<leftarrow> fresh_rq 4 0;
     clti_rq \<leftarrow> fresh_rq 4 2;
     (p_exact, p_clti) \<leftarrow> tick_loop2 exact_tick clti_tick 100 (Ref exact_rq, Ref clti_rq);
     exact_j \<leftarrow> fairness_jain_index p_exact;
     clti_j \<leftarrow> fairness_jain_index p_clti;
     let s = check (dec 90 2 \<le> clti_j \<and> \<bar>exact_j - clti_j\<bar> \<le> dec 10 2)
               [''Test 9 PASS: CLTI Jain='' @ fmt_f 4 clti_j,
                ''  exact='' @ fmt_f 4 exact_j @ '' clti='' @ fmt_f 4 clti_j] s;
     ex1_rq \<leftarrow> fresh_rq 1 0;
     bs1_rq \<leftarrow> fresh_rq 1 1;
     cl1_rq \<leftarrow> fresh_rq 1 2;
     (p_ex1, p_bs1, p_cl1) \<leftarrow>
       tick_loop3 exact_tick bsa_tick clti_tick 100 (Ref ex1_rq, Ref bs1_rq, Ref cl1_rq);
     ex \<leftarrow> task_at p_ex1 0;
     bs \<leftarrow> task_at p_bs1 0;
     cl \<leftarrow> task_at p_cl1 0;
     let err_bsa = pct_err (load_avg ex) (load_avg bs);
     let err_clti = pct_err (load_avg ex) (load_avg cl);
     let (ok, out) = check (err_clti \<le> err_bsa)
               [''Test 10 PASS: CLTI more accurate than BSA'',
                ''  err_bsa='' @ fmt_pct err_bsa @ '' err_clti='' @ fmt_pct err_clti] s;
     if ok \<noteq> 0 then
       Some (0, say [''=== ALL CLTI TESTS PASSED ==='', ''Logic 2 (CLTI) validated'',
                     ''Ready for Step 7: approx_apaf.c''] out)
     else Some (1, say [''CLTI tests failed''] out)
   }"

section \<open>approx_apaf.c\<close>

text \<open>Checks 1 to 5.\<close>

definition apaf_test_values :: "int \<times> log \<Rightarrow> (int \<times> log) option" where
  "apaf_test_values s = do {
     v0 \<leftarrow> apaf_poly_eval 0 APAF_MEDIUM;
     v16 \<leftarrow> apaf_poly_eval 16 APAF_MEDIUM;
     v32 \<leftarrow> apaf_poly_eval 32 APAF_MEDIUM;
     let s = check (dec 995 3 \<le> v0 \<and> v0 \<le> dec 1005 3 \<and> dec 685 3 \<le> v16 \<and> v16 \<le> dec 725 3 \<and>
                    dec 485 3 \<le> v32 \<and> v32 \<le> dec 515 3)
               [''Test 1 PASS: MEDIUM polynomial correct'',
                ''  n0='' @ fmt_f 6 v0 @ '' n16='' @ fmt_f 6 v16 @ '' n32='' @ fmt_f 6 v32] s;
     v8 \<leftarrow> apaf_poly_eval 8 APAF_TIGHT;
     v16 \<leftarrow> apaf_poly_eval 16 APAF_TIGHT;
     v17 \<leftarrow> apaf_poly_eval 17 APAF_TIGHT;
     let s = check (dec 832 3 \<le> v8 \<and> v8 \<le> dec 849 3 \<and> dec 700 3 \<le> v16 \<and> v16 \<le> dec 714 3 \<and>
                    dec 685 3 \<le> v17 \<and> v17 \<le> dec 699 3)
               [''Test 2 PASS: TIGHT mode + n>16 fallback''] s;
     v0 \<leftarrow> apaf_poly_eval 0 APAF_LOOSE;
     v32 \<leftarrow> apaf_poly_eval 32 APAF_LOOSE;
     let s = check (dec 970 3 \<le> v0 \<and> v0 \<le> dec 986 3 \<and> dec 460 3 \<le> v32 \<and> v32 \<le> dec 498 3)
               [''Test 3 PASS: LOOSE polynomial correct''] s;
     exact_d \<leftarrow> exact_decay_load 10000 1;
     tight_d \<leftarrow> apaf_decay_load 10000 1 APAF_TIGHT;
     med_d \<leftarrow> apaf_decay_load 10000 1 APAF_MEDIUM;
     loose_d \<leftarrow> apaf_decay_load 10000 1 APAF_LOOSE;
     let err_tight = pct_err exact_d tight_d;
     let err_med = pct_err exact_d med_d;
     let err_loose = pct_err exact_d loose_d;
     let s = check (err_tight \<le> 1 \<and> err_med \<le> dec 3 0 \<and> err_loose \<le> dec 5 0)
               [''Test 4 PASS: all states within bounds'',
                ''  tight='' @ fmt_pct err_tight @ '' medium='' @ fmt_pct err_med @ '' loose='' @ fmt_pct err_loose] s;
     v_tight \<leftarrow> apaf_vruntime_delta 1000000 820 APAF_TIGHT;
     v_med \<leftarrow> apaf_vruntime_delta 1000000 820 APAF_MEDIUM;
     v_loose \<leftarrow> apaf_vruntime_delta 1000000 820 APAF_LOOSE;
     v_exact \<leftarrow> exact_calc_delta_fair 1000000 820;
     let err_v_tight = pct_err v_exact v_tight;
     let err_v_med = pct_err v_exact v_med;
     let err_v_loose = pct_err v_exact v_loose;
     Some (check (err_v_tight \<le> dec 2 0 \<and> err_v_med \<le> dec 2 0 \<and> err_v_loose \<le> dec 6 0)
             [''Test 5 PASS: Newton iters by state'',
              ''  tight='' @ fmt_pct err_v_tight @ '' medium='' @ fmt_pct err_v_med @
              '' loose='' @ fmt_pct err_v_loose] s)
   }"

text \<open>The state after one \<open>apaf_update_state\<close> at a tick, for tasks with given CPU times.\<close>

definition state_after :: "u64 list \<Rightarrow> int \<Rightarrow> u64 \<Rightarrow> int option" where
  "state_after xs st c = do {
     ts \<leftarrow> timed_tasks 0 xs;
     rq \<leftarrow> rq_init (Ref ts) (int (length xs)) 3;
     p \<leftarrow> apaf_update_state (Ref (rq\<lparr>apaf_state := st, tick := c\<rparr>));
     rq \<leftarrow> c_deref p;
     Some (apaf_state rq)
   }"

text \<open>Checks 6 to 8.\<close>

definition apaf_test_states :: "int \<times> log \<Rightarrow> (int \<times> log) option" where
  "apaf_test_states s = do {
     st6 \<leftarrow> state_after [1000, 100, 100, 100] APAF_LOOSE 4;
     let s = check (st6 = APAF_MEDIUM) [''Test 6 PASS: LOOSE->MEDIUM transition''] s;
     st7 \<leftarrow> state_after [500, 500, 500, 500] APAF_MEDIUM 4;
     let s = check (st7 = APAF_LOOSE) [''Test 7 PASS: MEDIUM->LOOSE at J=1.0''] s;
     st8 \<leftarrow> state_after [1000, 100, 100, 100] APAF_MEDIUM 3;
     Some (check (st8 = APAF_MEDIUM) [''Test 8 PASS: interval check correct''] s)
   }"

text \<open>Check 9: the controller over 200 ticks, sampled at ticks 4, 8, 100 and 200.\<close>

definition sample_states ::
  "cfs_rq ptr \<Rightarrow> cfs_rq ptr \<Rightarrow> int \<Rightarrow> (cfs_rq ptr \<times> cfs_rq ptr \<times> int \<times> int \<times> int \<times> int) option" where
  "sample_states p0 q0 st = for_loop 1 201 (\<lambda>i (p, q, s4, s8, s100, s200). do {
     p \<leftarrow> exact_tick p;
     q \<leftarrow> apaf_tick q;
     rq \<leftarrow> c_deref q;
     Some (p, q, if i = 4 then apaf_state rq else s4, if i = 8 then apaf_state rq else s8,
           if i = 100 then apaf_state rq else s100, if i = 200 then apaf_state rq else s200)
   }) (p0, q0, st, st, st, st)"

definition apaf_test_run :: "int \<times> log \<Rightarrow> (int \<times> log) option" where
  "apaf_test_run s = do {
     ex9_rq \<leftarrow> fresh_rq 4 0;
     ap9_rq \<leftarrow> fresh_rq 4 3;
     (p, q, s4, s8, s100, s200) \<leftarrow> sample_states (Ref ex9_rq) (Ref ap9_rq) (apaf_state ap9_rq);
     j9 \<leftarrow> fairness_jain_index q;
     Some (check (dec 90 2 \<le> j9)
             [''Test 9 PASS: APAF Jain='' @ fmt_f 4 j9,
              ''  states t4='' @ fmt_d s4 @ '' t8='' @ fmt_d s8 @ '' t100='' @ fmt_d s100 @ '' t200='' @ fmt_d s200] s)
   }"

text \<open>Check 10: all four schedulers side by side.\<close>

definition tick_loop4 ::
  "int \<Rightarrow> cfs_rq ptr \<times> cfs_rq ptr \<times> cfs_rq ptr \<times> cfs_rq ptr \<Rightarrow>
   (cfs_rq ptr \<times> cfs_rq ptr \<times> cfs_rq ptr \<times> cfs_rq ptr) option" where
  "tick_loop4 n s = for_loop 0 n (\<lambda>_ (p, q, r, a). do {
     p \<leftarrow> exact_tick p;
     q \<leftarrow> bsa_tick q;
     r \<leftarrow> clti_tick r;
     a \<leftarrow> apaf_tick a;
     Some (p, q, r, a)
   }) s"

definition four_way_table :: "(string \<times> u64 \<times> f64 \<times> f64) list \<Rightarrow> string list" where
  "four_way_table rows = map (\<lambda>(name, load, j, e).
     ''|'' @ name @ ''| '' @ fmt_right 8 (fmt_llu load) @ '' | '' @ fmt_f 4 j @ '' | '' @
     fmt_right 6 (fmt_f 2 e) @ '' |'') rows"

definition apaf_test_four :: "int \<times> log \<Rightarrow> (int \<times> log) option" where
  "apaf_test_four s = do {
     ex10_rq \<leftarrow> fresh_rq 4 0;
     bs10_rq \<leftarrow> fresh_rq 4 1;
     cl10_rq \<leftarrow> fresh_rq 4 2;
     ap10_rq \<leftarrow> fresh_rq 4 3;
     (p_ex, p_bs, p_cl, p_ap) \<leftarrow> tick_loop4 100 (Ref ex10_rq, Ref bs10_rq, Ref cl10_rq, Ref ap10_rq);
     j_ex \<leftarrow> fairness_jain_index p_ex;
     j_bs \<leftarrow> fairness_jain_index p_bs;
     j_cl \<leftarrow> fairness_jain_index p_cl;
     j_ap \<leftarrow> fairness_jain_index p_ap;
     ex \<leftarrow> task_at p_ex 0;
     bs \<leftarrow> task_at p_bs 0;
     cl \<leftarrow> task_at p_cl 0;
     ap \<leftarrow> task_at p_ap 0;
     let e_bs = pct_err (load_avg ex) (load_avg bs);
     let e_cl = pct_err (load_avg ex) (load_avg cl);
     let e_ap = pct_err (load_avg ex) (load_avg ap);
     ap10_rq \<leftarrow> c_deref p_ap;
     let state_name = (if apaf_state ap10_rq = APAF_TIGHT then ''TIGHT''
                       else if apaf_state ap10_rq = APAF_LOOSE then ''LOOSE'' else ''MEDIUM'');
     Some (check (dec 90 2 \<le> j_ex \<and> dec 90 2 \<le> j_bs \<and> dec 90 2 \<le> j_cl \<and> dec 90 2 \<le> j_ap \<and>
                  e_bs \<le> dec 26 0 \<and> e_cl \<le> dec 5 0 \<and> e_ap \<le> dec 5 0)
             ([''Test 10 PASS: four-way comparison'',
               ''+------+----------+--------+--------+'', ''|Logic | load_avg |  Jain  | Error% |'',
               ''+------+----------+--------+--------+''] @
              four_way_table [(''EXACT '', load_avg ex, j_ex, 0), (''BSA   '', load_avg bs, j_bs, e_bs),
                              (''CLTI  '', load_avg cl, j_cl, e_cl), (''APAF  '', load_avg ap, j_ap, e_ap)] @
              [''+------+----------+--------+--------+'', ''APAF final state: '' @ state_name,
               ''=== CHECKPOINT 2 PASSED ===''])
             s)
   }"

definition apaf_test :: "(int \<times> log) option" where
  "apaf_test = do {
     s \<leftarrow> apaf_test_values (1, []);
     s \<leftarrow> apaf_test_states s;
     s \<leftarrow> apaf_test_run s;
     (ok, out) \<leftarrow> apaf_test_four s;
     if ok \<noteq> 0 then
       Some (0, say [''=== ALL APAF TESTS PASSED ==='', ''Logic 3 (APAF) validated'',
                     ''Novel contribution: confirmed working'', ''Self-tuning controller: confirmed'',
                     ''Ready for Step 8: Makefile''] out)
     else Some (1, say [''APAF tests failed''] out)
   }"

end
