(* ===== verification/Approx_Tests_Pass.thy ===== *)
theory Approx_Tests_Pass
  imports Approx_Tests
begin

text \<open>
  Every check of the self-tests of approx_bsa.c and approx_clti.c in \<open>Approx_Tests\<close> passes. The arithmetic checks are
  evaluated; the runs of 100 and 200 ticks are read off the lemmas on runs: the equal tasks take
  turns, so their index is 1, and the load of a task that is always runnable follows a
  recurrence in one number, which is evaluated.
\<close>

section \<open>Values\<close>

lemmas test_eval = c_div_nonneg c_mod_nonneg exact_mul_shr mul_shr_def arr_get_def
  runnable_avg_yN_inv_def u64_shr_def Let_def

lemma pow2_values:
  "bsa_nearest_pow2 1024 = 1024" "bsa_nearest_pow2 512 = 512" "bsa_nearest_pow2 1 = 1"
  "bsa_nearest_pow2 820 = 1024" "bsa_nearest_pow2 700 = 512" "bsa_nearest_pow2 1277 = 1024"
  "bsa_nearest_pow2 1586 = 2048" "bsa_nearest_pow2 655 = 512"
  by (simp_all add: bsa_nearest_pow2_def bsa_floor_loop.simps word_le_nat_alt)

lemma charge_values:
  "bsa_vruntime_delta 1000000 1024 = Some 1000000" "exact_calc_delta_fair 1000000 1024 = Some 1000000"
  "bsa_vruntime_delta 1000000 820 = Some 1230961" "exact_calc_delta_fair 1000000 820 = Some 1248780"
  "bsa_vruntime_delta 1000000 1277 = Some 794941" "exact_calc_delta_fair 1000000 1277 = Some 801879"
  "bsa_vruntime_delta 1000000 1586 = Some 633311" "exact_calc_delta_fair 1000000 1586 = Some 645649"
  "bsa_vruntime_delta 1000000 655 = Some 1547522" "exact_calc_delta_fair 1000000 655 = Some 1563358"
  by (simp_all add: bsa_vruntime_delta_def bsa_newton_reciprocal_def exact_calc_delta_fair_def test_eval
      pow2_values)

lemma decay_values:
  "bsa_decay_load 47742 32 = Some 23871" "exact_decay_load 47742 32 = Some 23871"
  "exact_decay_load 10000 1 = Some 9785" "bsa_decay_load 10000 1 = Some 9688"
  by (simp_all add: test_eval for_loop_step exact_decay_load_def bsa_decay_load_def)

lemma clti_decay_values:
  "clti_decay_interpolate 10000 0 = Some 10000" "clti_decay_interpolate 32768 4 = Some 30048"
  "clti_decay_interpolate 32768 6 = Some 28801" "clti_decay_load 10000 1 = Some 9793"
  "clti_decay_load 47742 32 = Some 23871"
  by (simp_all add: clti_decay_load_def clti_decay_interpolate_def clti_decay_table_def test_eval)

lemma clti_class_values:
  "clti_weight_to_class 1024 = Some 4" "clti_weight_to_class 820 = Some 4"
  "clti_weight_to_class 88761 = Some 0" "clti_weight_to_class 15 = Some 7"
  by (simp_all add: clti_weight_to_class_def clti_weight_class_def clti_class_diff_def for_loop_step test_eval)

lemma error_values:
  "pct_err 23871 23871 = 0" "0 \<le> dec 35 0" "0 \<le> dec 3 0" "0 \<le> (0 :: f64)"
  "pct_err 9785 9688 \<le> dec 11 1" "pct_err 9785 9793 \<le> dec 5 1"
  "pct_err 1248780 1230961 \<le> dec 2 0"
  "\<not> dec 2 0 < pct_err 1248780 1230961" "\<not> dec 2 0 < pct_err 801879 794941"
  "\<not> dec 2 0 < pct_err 645649 633311" "\<not> dec 2 0 < pct_err 1563358 1547522"
  "f_eq (pct_err 1000000 1000000) 0"
  by (simp_all add: pct_err_def f64_eval)

lemma jain_one: "dec 90 2 \<le> 1" "\<bar>1 - 1\<bar> \<le> dec 10 2"
  by (simp_all add: f64_eval)

lemma bsa_test_values_pass: "\<exists>out'. bsa_test_values (ok, out) = Some (ok, out')"
  by (simp add: bsa_test_values_def decay_values pow2_values Let_def check_def charge_values error_values
      del: f64_ops One_nat_def)

lemma bsa_weight_loop_pass: "\<exists>out'. bsa_weight_loop 0 [1024, 820, 1277, 1586, 655] out = Some (5, out')"
  by (simp add: Let_def charge_values error_values del: f64_ops One_nat_def)

lemma clti_test_values_pass: "\<exists>out'. clti_test_values (ok, out) = Some (ok, out')"
  by (simp add: clti_test_values_def clti_decay_values decay_values clti_class_values error_values
      Let_def check_def clti_decay_table_def arr_get_def del: f64_ops One_nat_def)

section \<open>Runs side by side\<close>

lemma tick_loop2_run:
  assumes "run_ticks f n p = Some p'" and "run_ticks g n q = Some q'"
  shows "tick_loop2 f g (int n) (p, q) = Some (p', q')"
  using iter_pair [of f n p p' g q q'] assms for_loop_iter [of 0 n _ "(p, q)"]
  by (simp add: tick_loop2_def run_ticks_iter)

lemma tick_loop3_run:
  assumes "run_ticks f n p = Some p'" and "run_ticks g n q = Some q'" and "run_ticks h n r = Some r'"
  shows "tick_loop3 f g h (int n) (p, q, r) = Some (p', q', r')"
proof -
  have "(\<lambda>(p, q, r). f p \<bind> (\<lambda>p. g q \<bind> (\<lambda>q. h r \<bind> (\<lambda>r. Some (p, q, r)))))
      = (\<lambda>(p, s). f p \<bind> (\<lambda>p. (\<lambda>(q, r). g q \<bind> (\<lambda>q. h r \<bind> (\<lambda>r. Some (q, r)))) s \<bind> (\<lambda>s. Some (p, s))))"
    by (auto simp: fun_eq_iff)
  then show ?thesis
    using iter_pair [OF assms(1) [unfolded run_ticks_iter] iter_pair [OF assms(2,3) [unfolded run_ticks_iter]]]
      for_loop_iter [of 0 n _ "(p, q, r)"]
    by (simp add: tick_loop3_def)
qed

text \<open>Four fresh tasks, and a lone one.\<close>

abbreviation four_tasks :: "cfs_task list" where
  "four_tasks \<equiv> [timed_task 0 0, timed_task 1 0, timed_task 2 0, timed_task 3 0]"

lemma fresh_rq_4:
  assumes "0 \<le> m" and "m \<le> 3"
  obtains rq where "fresh_rq 4 m = Some rq" and "rq_view rq four_tasks" and "apaf_state rq = APAF_MEDIUM"
    and "tick rq = 0"
proof -
  have "replicate 4 (0 :: int) = [0, 0, 0, 0]" by (simp add: numeral_eq_Suc)
  then have ts: "nice_tasks 0 (replicate 4 0) = Some four_tasks"
    by (simp only: nice_tasks_Cons nice_tasks.simps(1)) simp
  then show ?thesis
    using that rq_init_view [of four_tasks m] by (simp add: fresh_rq_def rq_view_def)
qed

lemma fresh_rq_1:
  assumes "0 \<le> m" and "m \<le> 3"
  obtains rq where "fresh_rq 1 m = Some rq" and "rq_view rq [timed_task 0 0]"
proof -
  have "nice_tasks 0 (replicate 1 0) = Some [timed_task 0 0]"
    by (simp add: task_create_0)
  then show ?thesis
    using that rq_init_view [of "[timed_task 0 0]" m] by (simp add: fresh_rq_def rq_view_def)
qed

text \<open>The load of a lone task of nice 0 after 100 ticks.\<close>

lemma decay1_eval:
  "bsa_decay1 (numeral k) = of_nat (unat (numeral k :: u64) - unat (numeral k :: u64) div 32)"
  "bsa_decay1 0 = 0"
  "clti_decay1 (numeral k) = of_nat (unat (numeral k :: u64) -
     (unat (numeral k :: u64) - unat (numeral k :: u64) * 30048 div 32768) div 4)"
  "clti_decay1 0 = 0"
  by (simp_all only: unat_bsa_decay1 [symmetric] unat_clti_decay1 [symmetric] of_nat_unat)
    (simp_all add: bsa_decay1_def clti_decay1_def mul_shr_def)

lemma load_100:
  "avg_of 1024 (load_after exact_decay1 1024 100) = 907"
  "avg_of 1024 (load_after bsa_decay1 1024 100) = 673"
  "avg_of 1024 (load_after clti_decay1 1024 100) = 928"
proof -
  have "load_after bsa_decay1 1024 100 = 31414" by (simp add: load_after_numeral decay1_eval)
  then show "avg_of 1024 (load_after bsa_decay1 1024 100) = 673" by (simp add: avg_of_def Let_def)
  have "load_after clti_decay1 1024 100 = 43295" by (simp add: load_after_numeral decay1_eval)
  then show "avg_of 1024 (load_after clti_decay1 1024 100) = 928" by (simp add: avg_of_def Let_def)
  show "avg_of 1024 (load_after exact_decay1 1024 100) = 907" by (simp add: load_values avg_of_def Let_def)
qed

lemma weight_timed [simp]: "weight (timed_task i x) = 1024"
  by (simp add: timed_task_def)

lemma lone_100:
  assumes "rq_view rq [timed_task 0 0]"
  shows "\<exists>rq' t. run_ticks exact_tick 100 (Ref rq) = Some (Ref rq') \<and> task_at (Ref rq') 0 = Some t \<and> load_avg t = 907"
    and "\<exists>rq' t. run_ticks bsa_tick 100 (Ref rq) = Some (Ref rq') \<and> task_at (Ref rq') 0 = Some t \<and> load_avg t = 673"
    and "\<exists>rq' t. run_ticks clti_tick 100 (Ref rq) = Some (Ref rq') \<and> task_at (Ref rq') 0 = Some t \<and> load_avg t = 928"
proof -
  have at: "task_at (Ref rq') 0 = Some t" if "rq_view rq' [t]" for rq' t
    using task_at_view [OF that, of 0] by simp
  show "\<exists>rq' t. run_ticks exact_tick 100 (Ref rq) = Some (Ref rq') \<and> task_at (Ref rq') 0 = Some t \<and> load_avg t = 907"
    by (rule exact.lone_load [OF assms, of exact_decay1 100]) (auto simp: load_100 at)
  show "\<exists>rq' t. run_ticks bsa_tick 100 (Ref rq) = Some (Ref rq') \<and> task_at (Ref rq') 0 = Some t \<and> load_avg t = 673"
    by (rule bsa.lone_load [OF assms, of bsa_decay1 100]) (auto simp: load_100 at)
  show "\<exists>rq' t. run_ticks clti_tick 100 (Ref rq) = Some (Ref rq') \<and> task_at (Ref rq') 0 = Some t \<and> load_avg t = 928"
    by (rule clti.lone_load [OF assms, of clti_decay1 100]) (auto simp: load_100 at)
qed

text \<open>Four tasks after 100 ticks.\<close>

lemma round_100:
  assumes "rq_view rq four_tasks"
  shows "\<exists>rq' a b c d. run_ticks exact_tick 100 (Ref rq) = Some (Ref rq') \<and> rq_view rq' [a, b, c, d] \<and>
      fairness_jain_index (Ref rq') = Some 1"
    and "\<exists>rq' a b c d. run_ticks bsa_tick 100 (Ref rq) = Some (Ref rq') \<and> rq_view rq' [a, b, c, d] \<and>
      fairness_jain_index (Ref rq') = Some 1"
    and "\<exists>rq' a b c d. run_ticks clti_tick 100 (Ref rq) = Some (Ref rq') \<and> rq_view rq' [a, b, c, d] \<and>
      fairness_jain_index (Ref rq') = Some 1"
proof -
  have one: "\<exists>rq' a b c d. run_ticks tk 100 (Ref rq) = Some (Ref rq') \<and> rq_view rq' [a, b, c, d] \<and>
      fairness_jain_index (Ref rq') = Some 1"
    if r: "\<exists>rq' xs'. run_ticks tk 100 (Ref rq) = Some (Ref rq') \<and> rq_view rq' xs' \<and>
      length xs' = length four_tasks \<and> in_turn 100 xs'" for tk
  proof -
    obtain rq' xs' where x: "run_ticks tk 100 (Ref rq) = Some (Ref rq')" "rq_view rq' xs'"
      "length xs' = 4" "in_turn 100 xs'" using r by auto
    moreover obtain a b c d where "xs' = [a, b, c, d]" using x(3) by (auto simp: length_Suc_conv numeral_eq_Suc)
    moreover have "jain_of xs' = 1" using jain_in_turn [of 25 xs'] x(3,4) by simp
    ultimately show ?thesis using fairness_jain_index_view [OF x(2)] by auto
  qed
  show "\<exists>rq' a b c d. run_ticks exact_tick 100 (Ref rq) = Some (Ref rq') \<and> rq_view rq' [a, b, c, d] \<and>
      fairness_jain_index (Ref rq') = Some 1"
    by (rule one, rule exact.round_robin [OF assms]) (simp_all add: exact_vdelta_def)
  show "\<exists>rq' a b c d. run_ticks bsa_tick 100 (Ref rq) = Some (Ref rq') \<and> rq_view rq' [a, b, c, d] \<and>
      fairness_jain_index (Ref rq') = Some 1"
    by (rule one, rule bsa.round_robin [OF assms]) (simp_all add: newton_vdelta_def)
  show "\<exists>rq' a b c d. run_ticks clti_tick 100 (Ref rq) = Some (Ref rq') \<and> rq_view rq' [a, b, c, d] \<and>
      fairness_jain_index (Ref rq') = Some 1"
    by (rule one, rule clti.round_robin [OF assms]) (simp_all add: clti_vdelta_def)
qed

section \<open>BSA\<close>

lemma bsa_test_ops_pass:
  assumes b: "rq_view rb [b0, b1, b2, b3]" and e: "rq_view re [e0, e1, e2, e3]"
  shows "\<exists>out'. bsa_test_ops (Ref rb) (Ref re) m (ok, out) = Some (ok, out')"
proof -
  let ?b = "\<lambda>t. t\<lparr>runnable := 1, load_avg := 100\<rparr>" and ?e = "\<lambda>t :: cfs_task. t\<lparr>load_avg := 100\<rparr>"
  let ?bs = "[?b b0, ?b b1, ?b b2, ?b b3]" and ?es = "[?e e0, ?e e1, ?e e2, ?e e3]"
  have init: "metrics_init (Ref [m]) 1 = Some (Ref [clear_metrics])"
    using metrics_init_view [of 1 "[m]"] by simp
  have loop: "for_loop 0 4 (\<lambda>i (bs, es). do {
       b \<leftarrow> arr_get bs i;
       bs \<leftarrow> arr_set bs i (b\<lparr>runnable := 1, load_avg := 100\<rparr>);
       e \<leftarrow> arr_get es i;
       es \<leftarrow> arr_set es i (e\<lparr>load_avg := 100\<rparr>);
       Some (bs, es)
     }) ([b0, b1, b2, b3], [e0, e1, e2, e3]) = Some (?bs, ?es)"
    by (simp add: for_loop_step arr_get_def arr_set_def)
  have vb: "rq_view (rb\<lparr>tasks := Ref ?bs\<rparr>) ?bs" by (rule rq_view_tasks_update [OF b]) simp
  have ve: "rq_view (re\<lparr>tasks := Ref ?es\<rparr>) ?es" by (rule rq_view_tasks_update [OF e]) simp
  have count: "rq_count_running (Ref (rb\<lparr>tasks := Ref ?bs\<rparr>)) = Some (4, Ref (rb\<lparr>tasks := Ref ?bs, nr_running := 4\<rparr>))"
    using rq_count_running_view [OF vb] by (simp add: n_running_def is_runnable_def)
  let ?rb = "rb\<lparr>tasks := Ref ?bs, nr_running := 4, approx_mode := 1\<rparr>"
  have v1: "rq_view ?rb ?bs" using vb by (simp add: rq_view_def)
  obtain m' where "metrics_record (Ref clear_metrics) (Ref ?rb) (Ref (re\<lparr>tasks := Ref ?es\<rparr>)) = Some (Ref m')"
    "ops_saved m' = 4"
    using metrics_record_view [OF v1 ve, of clear_metrics]
    by (cases "error_fold ?bs ?es") (auto simp: metrics_ops_saved_def)
  then show ?thesis
    by (simp add: bsa_test_ops_def init arr_get_def [of "[clear_metrics]"] rq_view_tasks [OF b] rq_view_tasks [OF e]
        loop count check_def)
qed

lemma bsa_test_passes: "\<exists>out. bsa_test m = Some (0, out)"
proof -
  obtain o1 where o1: "bsa_test_values (1, []) = Some (1, o1)" using bsa_test_values_pass by blast
  obtain o2 where o2: "bsa_weight_loop 0 [1024, 820, 1277, 1586, 655] o1 = Some (5, o2)"
    using bsa_weight_loop_pass by blast
  obtain r1 where r1: "fresh_rq 4 0 = Some r1" "rq_view r1 four_tasks" by (rule fresh_rq_4 [of 0]) simp_all
  obtain r2 where r2: "fresh_rq 4 1 = Some r2" "rq_view r2 four_tasks" by (rule fresh_rq_4 [of 1]) simp_all
  obtain q1 a b c d where q1: "run_ticks exact_tick 100 (Ref r1) = Some (Ref q1)" "rq_view q1 [a, b, c, d]"
    "fairness_jain_index (Ref q1) = Some 1" using round_100(1) [OF r1(2)] by blast
  obtain q2 a' b' c' d' where q2: "run_ticks bsa_tick 100 (Ref r2) = Some (Ref q2)" "rq_view q2 [a', b', c', d']"
    "fairness_jain_index (Ref q2) = Some 1" using round_100(2) [OF r2(2)] by blast
  have l1: "tick_loop2 exact_tick bsa_tick 100 (Ref r1, Ref r2) = Some (Ref q1, Ref q2)"
    using tick_loop2_run [OF q1(1) q2(1)] by simp
  obtain r3 where r3: "fresh_rq 1 0 = Some r3" "rq_view r3 [timed_task 0 0]" by (rule fresh_rq_1 [of 0]) simp_all
  obtain r4 where r4: "fresh_rq 1 1 = Some r4" "rq_view r4 [timed_task 0 0]" by (rule fresh_rq_1 [of 1]) simp_all
  obtain q3 t3 where q3: "run_ticks exact_tick 100 (Ref r3) = Some (Ref q3)" "task_at (Ref q3) 0 = Some t3"
    "load_avg t3 = 907" using lone_100(1) [OF r3(2)] by blast
  obtain q4 t4 where q4: "run_ticks bsa_tick 100 (Ref r4) = Some (Ref q4)" "task_at (Ref q4) 0 = Some t4"
    "load_avg t4 = 673" using lone_100(2) [OF r4(2)] by blast
  have l2: "tick_loop2 exact_tick bsa_tick 100 (Ref r3, Ref r4) = Some (Ref q3, Ref q4)"
    using tick_loop2_run [OF q3(1) q4(1)] by simp
  have err: "pct_err 907 673 \<le> dec 26 0" by (simp add: pct_err_def f64_eval)
  obtain f where ops: "\<And>out. bsa_test_ops (Ref q2) (Ref q1) m (1, out) = Some (1, f out)"
    using bsa_test_ops_pass [OF q2(2) q1(2)] by metis
  show ?thesis
    by (simp add: ops bsa_test_def o1 o2 r1(1) r2(1) l1 q1(3) q2(3) r3(1) r4(1) l2 q3(2,3) q4(2,3) err
        jain_one check_def Let_def del: f64_ops One_nat_def bsa_weight_loop.simps)
qed

section \<open>CLTI\<close>

lemma clti_test_passes: "\<exists>out. clti_test = Some (0, out)"
proof -
  obtain o1 where o1: "clti_test_values (1, []) = Some (1, o1)" using clti_test_values_pass by blast
  obtain r1 where r1: "fresh_rq 4 0 = Some r1" "rq_view r1 four_tasks" by (rule fresh_rq_4 [of 0]) simp_all
  obtain r2 where r2: "fresh_rq 4 2 = Some r2" "rq_view r2 four_tasks" by (rule fresh_rq_4 [of 2]) simp_all
  obtain q1 where q1: "run_ticks exact_tick 100 (Ref r1) = Some (Ref q1)"
    "fairness_jain_index (Ref q1) = Some 1" using round_100(1) [OF r1(2)] by blast
  obtain q2 where q2: "run_ticks clti_tick 100 (Ref r2) = Some (Ref q2)"
    "fairness_jain_index (Ref q2) = Some 1" using round_100(3) [OF r2(2)] by blast
  have l1: "tick_loop2 exact_tick clti_tick 100 (Ref r1, Ref r2) = Some (Ref q1, Ref q2)"
    using tick_loop2_run [OF q1(1) q2(1)] by simp
  obtain r3 where r3: "fresh_rq 1 0 = Some r3" "rq_view r3 [timed_task 0 0]" by (rule fresh_rq_1 [of 0]) simp_all
  obtain r4 where r4: "fresh_rq 1 1 = Some r4" "rq_view r4 [timed_task 0 0]" by (rule fresh_rq_1 [of 1]) simp_all
  obtain r5 where r5: "fresh_rq 1 2 = Some r5" "rq_view r5 [timed_task 0 0]" by (rule fresh_rq_1 [of 2]) simp_all
  obtain q3 t3 where q3: "run_ticks exact_tick 100 (Ref r3) = Some (Ref q3)" "task_at (Ref q3) 0 = Some t3"
    "load_avg t3 = 907" using lone_100(1) [OF r3(2)] by blast
  obtain q4 t4 where q4: "run_ticks bsa_tick 100 (Ref r4) = Some (Ref q4)" "task_at (Ref q4) 0 = Some t4"
    "load_avg t4 = 673" using lone_100(2) [OF r4(2)] by blast
  obtain q5 t5 where q5: "run_ticks clti_tick 100 (Ref r5) = Some (Ref q5)" "task_at (Ref q5) 0 = Some t5"
    "load_avg t5 = 928" using lone_100(3) [OF r5(2)] by blast
  have l2: "tick_loop3 exact_tick bsa_tick clti_tick 100 (Ref r3, Ref r4, Ref r5) = Some (Ref q3, Ref q4, Ref q5)"
    using tick_loop3_run [OF q3(1) q4(1) q5(1)] by simp
  have err: "pct_err 907 928 \<le> pct_err 907 673" by (simp add: pct_err_def f64_eval)
  show ?thesis
    by (simp add: clti_test_def o1 r1(1) r2(1) l1 q1(2) q2(2) r3(1) r4(1) r5(1) l2 q3(2,3) q4(2,3) q5(2,3) err
        jain_one check_def Let_def del: f64_ops One_nat_def)
qed

end
