(* ===== verification/Apaf_Test_Pass.thy ===== *)
theory Apaf_Test_Pass
  imports Approx_Tests_Pass
begin

text \<open>
  Every check of the self-test of src/apex-cfs/src/approx_apaf.c passes: the polynomial, decay
  and Newton checks by evaluation, the runs by an invariant that follows the round robin, the
  controller and the load of the first task.
\<close>

section \<open>Values\<close>

lemma floor_rat: "\<lfloor>numeral a / numeral b :: rat\<rfloor> = numeral a div numeral b"
  using floor_divide_of_int_eq [of "numeral a" "numeral b", where ?'a = rat] by simp

lemmas apaf_eval = apaf_poly_eval_def apaf_coefficients_def table_factor_def arr_get_def
  runnable_avg_yN_inv_def c_div_nonneg c_mod_nonneg u64_shr_def floor_rat

lemma apaf_decay_values:
  "apaf_decay_load 10000 1 APAF_TIGHT = Some 9785" "apaf_decay_load 10000 1 APAF_MEDIUM = Some 9774"
  "apaf_decay_load 10000 1 APAF_LOOSE = Some 9785"
  by (simp_all add: apaf_decay_load_def apaf_eval f64_eval)

lemma apaf_charge_values:
  "apaf_vruntime_delta 1000000 820 APAF_TIGHT = Some 1248526"
  "apaf_vruntime_delta 1000000 820 APAF_MEDIUM = Some 1248526"
  "apaf_vruntime_delta 1000000 820 APAF_LOOSE = Some 1230961"
  by (simp_all add: apaf_vruntime_delta_def bsa_newton_reciprocal_def test_eval pow2_values newton_loop_2)

lemma apaf_error_values:
  "pct_err 9785 9785 \<le> 1" "pct_err 9785 9774 \<le> dec 3 0" "pct_err 9785 9785 \<le> dec 5 0"
  "pct_err 1248780 1248526 \<le> dec 2 0" "pct_err 1248780 1230961 \<le> dec 6 0"
  by (simp_all add: pct_err_def f64_eval)

lemma apaf_poly_values:
  obtains m0 m16 m32 t8 t16 t17 l0 l32 where
    "apaf_poly_eval 0 APAF_MEDIUM = Some m0" "dec 995 3 \<le> m0" "m0 \<le> dec 1005 3"
    "apaf_poly_eval 16 APAF_MEDIUM = Some m16" "dec 685 3 \<le> m16" "m16 \<le> dec 725 3"
    "apaf_poly_eval 32 APAF_MEDIUM = Some m32" "dec 485 3 \<le> m32" "m32 \<le> dec 515 3"
    "apaf_poly_eval 8 APAF_TIGHT = Some t8" "dec 832 3 \<le> t8" "t8 \<le> dec 849 3"
    "apaf_poly_eval 16 APAF_TIGHT = Some t16" "dec 700 3 \<le> t16" "t16 \<le> dec 714 3"
    "apaf_poly_eval 17 APAF_TIGHT = Some t17" "dec 685 3 \<le> t17" "t17 \<le> dec 699 3"
    "apaf_poly_eval 0 APAF_LOOSE = Some l0" "dec 970 3 \<le> l0" "l0 \<le> dec 986 3"
    "apaf_poly_eval 32 APAF_LOOSE = Some l32" "dec 460 3 \<le> l32" "l32 \<le> dec 498 3"
proof -
  have "\<exists>x. apaf_poly_eval 0 APAF_MEDIUM = Some x \<and> dec 995 3 \<le> x \<and> x \<le> dec 1005 3"
    "\<exists>x. apaf_poly_eval 16 APAF_MEDIUM = Some x \<and> dec 685 3 \<le> x \<and> x \<le> dec 725 3"
    "\<exists>x. apaf_poly_eval 32 APAF_MEDIUM = Some x \<and> dec 485 3 \<le> x \<and> x \<le> dec 515 3"
    "\<exists>x. apaf_poly_eval 8 APAF_TIGHT = Some x \<and> dec 832 3 \<le> x \<and> x \<le> dec 849 3"
    "\<exists>x. apaf_poly_eval 16 APAF_TIGHT = Some x \<and> dec 700 3 \<le> x \<and> x \<le> dec 714 3"
    "\<exists>x. apaf_poly_eval 17 APAF_TIGHT = Some x \<and> dec 685 3 \<le> x \<and> x \<le> dec 699 3"
    "\<exists>x. apaf_poly_eval 0 APAF_LOOSE = Some x \<and> dec 970 3 \<le> x \<and> x \<le> dec 986 3"
    "\<exists>x. apaf_poly_eval 32 APAF_LOOSE = Some x \<and> dec 460 3 \<le> x \<and> x \<le> dec 498 3"
    by (simp_all add: apaf_eval f64_eval)
  then show ?thesis using that by metis
qed

lemma apaf_test_values_pass: "\<exists>out'. apaf_test_values (ok, out) = Some (ok, out')"
  by (rule apaf_poly_values) (simp add: apaf_test_values_def apaf_decay_values decay_values apaf_charge_values
      charge_values apaf_error_values Let_def check_def del: f64_ops One_nat_def)

text \<open>The controller on tasks with given CPU times.\<close>

lemma next_state_values:
  "fairness_apaf_next_state APAF_MEDIUM (Fin 1) = APAF_LOOSE"
  "fairness_apaf_next_state APAF_LOOSE (Fin 1) = APAF_LOOSE"
  by (simp_all add: fairness_apaf_next_state_def f64_eval)

lemma state_after_view:
  assumes "timed_tasks 0 xs = Some ts" and "length ts = length xs"
  shows "state_after xs st c = Some (if c mod 4 = 0 then fairness_apaf_next_state st (jain_of ts) else st)"
proof -
  obtain rq where r: "rq_init (Ref ts) (int (length xs)) 3 = Some rq" "rq_view rq ts"
    by (rule test_rq [of "int (length xs)" ts 3]) (simp add: assms(2))
  have v: "rq_view (rq\<lparr>apaf_state := st, tick := c\<rparr>) ts" using r(2) by simp
  show ?thesis by (simp add: state_after_def assms(1) r(1) apaf_update_state_view [OF v])
qed

lemma state_values:
  "state_after [1000, 100, 100, 100] APAF_LOOSE 4 = Some APAF_MEDIUM"
  "state_after [500, 500, 500, 500] APAF_MEDIUM 4 = Some APAF_LOOSE"
  "state_after [1000, 100, 100, 100] APAF_MEDIUM 3 = Some APAF_MEDIUM"
proof -
  have t: "timed_tasks 0 [1000, 100, 100, 100] =
      Some [timed_task 0 1000, timed_task 1 100, timed_task 2 100, timed_task 3 100]"
    "timed_tasks 0 [500, 500, 500, 500] =
      Some [timed_task 0 500, timed_task 1 500, timed_task 2 500, timed_task 3 500]"
    by (simp_all only: timed_tasks_Cons timed_tasks.simps(1)) simp_all
  have "fairness_apaf_next_state APAF_LOOSE
      (jain_of [timed_task 0 1000, timed_task 1 100, timed_task 2 100, timed_task 3 100]) = APAF_MEDIUM"
    "fairness_apaf_next_state APAF_MEDIUM
      (jain_of [timed_task 0 500, timed_task 1 500, timed_task 2 500, timed_task 3 500]) = APAF_LOOSE"
    by (simp_all add: jain_of_def jain_acc_def jain_finish_def timed_task_def fairness_apaf_next_state_def f64_eval)
  then show "state_after [1000, 100, 100, 100] APAF_LOOSE 4 = Some APAF_MEDIUM"
    "state_after [500, 500, 500, 500] APAF_MEDIUM 4 = Some APAF_LOOSE"
    "state_after [1000, 100, 100, 100] APAF_MEDIUM 3 = Some APAF_MEDIUM"
    using state_after_view [OF t(1)] state_after_view [OF t(2)] by simp_all
qed

lemma apaf_test_states_pass: "\<exists>out'. apaf_test_states (ok, out) = Some (ok, out')"
  by (simp add: apaf_test_states_def state_values check_def Let_def)

section \<open>The controller over a run\<close>

definition apaf_run_state :: "nat \<Rightarrow> int" where
  "apaf_run_state n = (if n < 4 then APAF_MEDIUM else APAF_LOOSE)"

primrec apaf_load :: "nat \<Rightarrow> u64" where
  "apaf_load 0 = 0"
| "apaf_load (Suc n) = apaf_decay1 (apaf_run_state n) (apaf_load n) + 1024"

lemma tick_mod_4: "n \<le> 1000 \<Longrightarrow> (of_nat n :: u64) mod 4 = 0 \<longleftrightarrow> n mod 4 = 0"
proof -
  assume n: "n \<le> 1000"
  have "unat ((of_nat n :: u64) mod 4) = n mod 4" using n by (simp only: unat_mod) (simp add: unat_of_nat_u64)
  then show ?thesis using unat_eq_0 [of "(of_nat n :: u64) mod 4"] by simp
qed

definition apaf_run :: "nat \<Rightarrow> cfs_rq \<Rightarrow> cfs_task list \<Rightarrow> bool" where
  "apaf_run n rq xs \<longleftrightarrow> length xs = 4 \<and> in_turn n xs \<and> tick rq = of_nat n \<and>
     apaf_state rq = apaf_run_state n \<and> load_sum (xs ! 0) = apaf_load n \<and>
     load_avg (xs ! 0) = avg_of 1024 (apaf_load n)"

lemma apaf_run_step:
  assumes I: "apaf_run n rq xs" and n: "n < 1000"
  shows "apaf_run (Suc n) (spec_tick apaf_policy rq xs) (spec_tasks apaf_policy (apaf_state rq) xs)"
proof -
  let ?ys = "spec_tasks apaf_policy (apaf_state rq) xs"
  have ne: "xs \<noteq> []" and t: "in_turn n xs" and len: "length xs = 4" using I by (auto simp: apaf_run_def)
  have nx: "next_task xs = Some (n mod 4)" using turn_next [OF t ne] n len by simp
  have ty: "in_turn (Suc n) ?ys"
    by (rule apaf.in_turn_step [OF t ne]) (use n in \<open>simp_all add: newton_vdelta_def\<close>)
  have ly: "length ?ys = 4" using len by simp
  have ctl: "apaf_control (tick rq + 1) (apaf_state rq) (jain_of ?ys) = apaf_run_state (Suc n)"
  proof (cases "Suc n mod 4 = 0")
    case True
    then obtain k where k: "Suc n = 4 * k" by (metis mod_0_imp_dvd dvdE)
    have "jain_of ?ys = 1" using jain_in_turn [of k ?ys] ty ly k n by simp
    moreover have "tick rq + 1 = of_nat (Suc n)" using I by (simp add: apaf_run_def add.commute)
    ultimately show ?thesis
      using True tick_mod_4 [of "Suc n"] I n k
      by (auto simp: apaf_control_def apaf_run_def apaf_run_state_def next_state_values simp del: of_nat_Suc)
  next
    case False
    have "tick rq + 1 = of_nat (Suc n)" using I by (simp add: apaf_run_def add.commute)
    moreover have "n \<noteq> 3" using False by auto
    ultimately show ?thesis
      using False tick_mod_4 [of "Suc n"] I n
      by (auto simp: apaf_control_def apaf_run_def apaf_run_state_def simp del: of_nat_Suc)
  qed
  have st: "apaf_state rq = apaf_run_state n" and ls: "load_sum (xs ! 0) = apaf_load n"
    using I by (simp_all add: apaf_run_def)
  have r0: "is_runnable (xs ! 0)" "weight (xs ! 0) = 1024" using t len by (simp_all add: in_turn_def turn_task_def)
  have y0: "?ys ! 0 = load_step (apaf_decay1 (apaf_state rq))
      (if n mod 4 = 0 then run_task (pol_vdelta apaf_policy (apaf_state rq)) (xs ! 0) else xs ! 0)"
    using len by (simp add: spec_tasks_def nx run_at_def nth_list_update)
  have "load_sum (?ys ! 0) = apaf_load (Suc n)" "load_avg (?ys ! 0) = avg_of 1024 (apaf_load (Suc n))"
    using r0 ls unfolding y0 unfolding st by (simp_all add: load_step_runnable)
  then show ?thesis
    using ty ly ctl I nx by (simp add: apaf_run_def spec_tick_def Let_def add.commute)
qed

lemma apaf_run_ticks:
  assumes v: "rq_view rq four_tasks" and s: "apaf_state rq = APAF_MEDIUM" and c: "tick rq = 0" and n: "n \<le> 1000"
  shows "\<exists>rq' xs'. run_ticks apaf_tick n (Ref rq) = Some (Ref rq') \<and> rq_view rq' xs' \<and> apaf_run n rq' xs'"
proof (rule apaf.run_invariant [where I = apaf_run, OF v])
  have "\<forall>t \<in> set four_tasks. turn_task 0 t" by simp
  then have "in_turn 0 four_tasks" by (rule in_turn_0)
  then show "apaf_run 0 rq four_tasks"
    using s c by (simp add: apaf_run_def apaf_run_state_def timed_task_def avg_of_def)
qed (use n in \<open>auto intro: apaf_run_step\<close>)


text \<open>The load of the first task after 100 ticks: the factors of the two states, and 100 steps.\<close>

lemma apaf_step: "apaf_decay_load l 1 APAF_LOOSE = f_to_u64 (f_of_u64 l * Fin (4407096773683259 / 4503599627370496))"
  "apaf_decay_load l 1 APAF_MEDIUM = f_to_u64 (f_of_u64 l * Fin (8803816582114429 / 9007199254740992))"
  by (simp_all add: apaf_decay_load_def apaf_eval f64_eval)

lemma apaf_decay1_eval:
  "apaf_decay1 APAF_LOOSE (numeral k) = the (f_to_u64 (f_of_u64 (numeral k) * Fin (4407096773683259 / 4503599627370496)))"
  "apaf_decay1 APAF_MEDIUM (numeral k) = the (f_to_u64 (f_of_u64 (numeral k) * Fin (8803816582114429 / 9007199254740992)))"
  "apaf_decay1 APAF_MEDIUM 0 = 0"
  by (simp_all add: apaf_decay1_def apaf_step f64_eval)

lemma apaf_load_numeral:
  "apaf_load (numeral k) = apaf_decay1 (apaf_run_state (pred_numeral k)) (apaf_load (pred_numeral k)) + 1024"
  by (simp add: numeral_eq_Suc)

lemma apaf_load_50: "apaf_load 50 = 31591"
  by (simp add: apaf_load_numeral apaf_run_state_def apaf_decay1_eval f64_eval floor_rat)
lemma apaf_load_100: "apaf_load 100 = 42291"
  by (simp add: apaf_load_numeral [of "num.Bit0 k" for k]  apaf_load_numeral [of "num.Bit1 k" for k] apaf_load_50 apaf_run_state_def apaf_decay1_eval f64_eval floor_rat)
lemma apaf_avg_100: "avg_of 1024 (apaf_load 100) = 907" by (simp add: apaf_load_100 avg_of_def Let_def)

section \<open>The runs of the test\<close>

lemma apaf_run_index:
  assumes "apaf_run (4 * k) rq xs" and "rq_view rq xs" and "k \<le> 1000"
  shows "fairness_jain_index (Ref rq) = Some 1"
  using jain_in_turn [of k xs] fairness_jain_index_view [OF assms(2)] assms(1,3) by (simp add: apaf_run_def)

lemma sample_states_run:
  assumes v: "rq_view r1 four_tasks" and w: "rq_view r2 four_tasks" "apaf_state r2 = APAF_MEDIUM" "tick r2 = 0"
  obtains p q a b c d where "sample_states (Ref r1) (Ref r2) st = Some (p, q, a, b, c, d)"
    and "fairness_jain_index q = Some 1"
proof -
  let ?body = "(\<lambda>i (p, q, s4, s8, s100, s200). do {
     p \<leftarrow> exact_tick p;
     q \<leftarrow> apaf_tick q;
     rq \<leftarrow> c_deref q;
     Some (p, q, if i = 4 then apaf_state rq else s4, if i = 8 then apaf_state rq else s8,
           if i = 100 then apaf_state rq else s100, if i = 200 then apaf_state rq else s200)
   }) :: int \<Rightarrow> _"
  let ?P = "\<lambda>j (p, q, _). run_ticks exact_tick (j - 1) (Ref r1) = Some p \<and>
    run_ticks apaf_tick (j - 1) (Ref r2) = Some q"
  have step: "\<exists>t. ?body (int j) s = Some t \<and> ?P (Suc j) t" if j: "1 \<le> j" "j < 201" and P: "?P j s" for j s
  proof -
    obtain p q a b c d where s: "s = (p, q, a, b, c, d)" by (cases s)
    obtain e where e: "run_ticks exact_tick j (Ref r1) = Some (Ref e)"
      using exact.round_robin [OF v, of j] j by (auto simp: exact_vdelta_def)
    obtain f where f: "run_ticks apaf_tick j (Ref r2) = Some (Ref f)"
      using apaf_run_ticks [OF w, of j] j by auto
    have "exact_tick p = Some (Ref e)" "apaf_tick q = Some (Ref f)"
      using e f P j run_ticks_Suc_end [of exact_tick "j - 1" "Ref r1"]
        run_ticks_Suc_end [of apaf_tick "j - 1" "Ref r2"] by (simp_all add: s)
    then show ?thesis using e f by (simp add: s)
  qed
  have "\<exists>s. for_loop (int 1) (int 201) ?body (Ref r1, Ref r2, st, st, st, st) = Some s \<and> ?P 201 s"
    by (rule for_loop_invariant [where P = ?P]) (simp, simp, rule step)
  then have "\<exists>s. sample_states (Ref r1) (Ref r2) st = Some s \<and> ?P 201 s" by (simp add: sample_states_def)
  then obtain p q a b c d where s: "sample_states (Ref r1) (Ref r2) st = Some (p, q, a, b, c, d)"
    "run_ticks apaf_tick 200 (Ref r2) = Some q" by auto
  obtain f xs where f: "run_ticks apaf_tick 200 (Ref r2) = Some (Ref f)" "rq_view f xs" "apaf_run (4 * 50) f xs"
    using apaf_run_ticks [OF w, of 200] by auto
  show ?thesis using that [OF s(1)] s(2) f(1) apaf_run_index [OF f(3,2)] by simp
qed

lemma apaf_test_run_pass: "\<exists>out'. apaf_test_run (ok, out) = Some (ok, out')"
proof -
  obtain r1 where r1: "fresh_rq 4 0 = Some r1" "rq_view r1 four_tasks" by (rule fresh_rq_4 [of 0]) simp_all
  obtain r2 where r2: "fresh_rq 4 3 = Some r2" "rq_view r2 four_tasks" "apaf_state r2 = APAF_MEDIUM" "tick r2 = 0"
    by (rule fresh_rq_4 [of 3]) simp_all
  obtain p q a b c d where s: "sample_states (Ref r1) (Ref r2) (apaf_state r2) = Some (p, q, a, b, c, d)"
    "fairness_jain_index q = Some 1"
    by (rule sample_states_run [OF r1(2) r2(2-4), of "apaf_state r2"])
  show ?thesis
    by (simp add: apaf_test_run_def r1(1) r2(1) s(1) [unfolded r2(3)] r2(3) s(2) jain_one check_def del: f64_ops One_nat_def)
qed

lemma tick_loop4_run:
  assumes "run_ticks exact_tick n p = Some p'" and "run_ticks bsa_tick n q = Some q'"
    and "run_ticks clti_tick n r = Some r'" and "run_ticks apaf_tick n a = Some a'"
  shows "tick_loop4 (int n) (p, q, r, a) = Some (p', q', r', a')"
proof -
  let ?s2 = "\<lambda>(r, a). clti_tick r \<bind> (\<lambda>r. apaf_tick a \<bind> (\<lambda>a. Some (r, a)))"
  let ?s3 = "\<lambda>(q, s). bsa_tick q \<bind> (\<lambda>q. ?s2 s \<bind> (\<lambda>s. Some (q, s)))"
  have "(\<lambda>(p, q, r, a). exact_tick p \<bind> (\<lambda>p. bsa_tick q \<bind> (\<lambda>q. clti_tick r \<bind> (\<lambda>r. apaf_tick a \<bind>
        (\<lambda>a. Some (p, q, r, a))))))
      = (\<lambda>(p, s). exact_tick p \<bind> (\<lambda>p. ?s3 s \<bind> (\<lambda>s. Some (p, s))))"
    by (auto simp: fun_eq_iff)
  then show ?thesis
    using iter_pair [OF assms(1) [unfolded run_ticks_iter] iter_pair [OF assms(2) [unfolded run_ticks_iter]
        iter_pair [OF assms(3,4) [unfolded run_ticks_iter]]]]
      for_loop_iter [of 0 n _ "(p, q, r, a)"]
    by (simp add: tick_loop4_def)
qed


text \<open>Four tasks under the three other policies: the index, and the load of the first task.\<close>

lemma four_100:
  assumes v: "rq_view rq four_tasks"
  shows "\<exists>p t. run_ticks exact_tick 100 (Ref rq) = Some p \<and> fairness_jain_index p = Some 1 \<and>
      task_at p 0 = Some t \<and> load_avg t = 907"
    and "\<exists>p t. run_ticks bsa_tick 100 (Ref rq) = Some p \<and> fairness_jain_index p = Some 1 \<and>
      task_at p 0 = Some t \<and> load_avg t = 673"
    and "\<exists>p t. run_ticks clti_tick 100 (Ref rq) = Some p \<and> fairness_jain_index p = Some 1 \<and>
      task_at p 0 = Some t \<and> load_avg t = 928"
proof -
  have fr: "\<forall>t \<in> set four_tasks. fresh t \<and> is_runnable t" by simp
  have one: "\<exists>p t. run_ticks tk 100 (Ref rq) = Some p \<and> fairness_jain_index p = Some 1 \<and>
      task_at p 0 = Some t \<and> load_avg t = avg_of 1024 (load_after dc 1024 100)"
    if j: "\<exists>rq' a b c d. run_ticks tk 100 (Ref rq) = Some (Ref rq') \<and> rq_view rq' [a, b, c, d] \<and>
        fairness_jain_index (Ref rq') = Some 1"
      and r: "run_ticks tk 100 (Ref rq) = Some (Ref rq')" "rq_view rq' xs'" "length xs' = length four_tasks"
        "weight (xs' ! 0) = weight (four_tasks ! 0) \<and> loaded dc 100 (xs' ! 0)" for tk dc rq' xs'
  proof -
    have "task_at (Ref rq') 0 = Some (xs' ! 0)" using task_at_view [OF r(2), of 0] r(3) by simp
    moreover have "load_avg (xs' ! 0) = avg_of 1024 (load_after dc 1024 100)" using r(4) by (simp add: loaded_def)
    ultimately show ?thesis using j r(1) by auto
  qed
  show "\<exists>p t. run_ticks exact_tick 100 (Ref rq) = Some p \<and> fairness_jain_index p = Some 1 \<and>
      task_at p 0 = Some t \<and> load_avg t = 907"
  proof (rule exact.run_loads_frame [OF v fr, of exact_decay1 100])
    fix rq' xs' assume r: "run_ticks exact_tick 100 (Ref rq) = Some (Ref rq')" "rq_view rq' xs'"
      "length xs' = length four_tasks"
      "\<And>i. i < length four_tasks \<Longrightarrow> weight (xs' ! i) = weight (four_tasks ! i) \<and> loaded exact_decay1 100 (xs' ! i)"
    show ?thesis using one [OF round_100(1) [OF v] r(1-3) r(4) [of 0]] by (simp add: load_100)
  qed simp
  show "\<exists>p t. run_ticks bsa_tick 100 (Ref rq) = Some p \<and> fairness_jain_index p = Some 1 \<and>
      task_at p 0 = Some t \<and> load_avg t = 673"
  proof (rule bsa.run_loads_frame [OF v fr, of bsa_decay1 100])
    fix rq' xs' assume r: "run_ticks bsa_tick 100 (Ref rq) = Some (Ref rq')" "rq_view rq' xs'"
      "length xs' = length four_tasks"
      "\<And>i. i < length four_tasks \<Longrightarrow> weight (xs' ! i) = weight (four_tasks ! i) \<and> loaded bsa_decay1 100 (xs' ! i)"
    show ?thesis using one [OF round_100(2) [OF v] r(1-3) r(4) [of 0]] by (simp add: load_100)
  qed simp
  show "\<exists>p t. run_ticks clti_tick 100 (Ref rq) = Some p \<and> fairness_jain_index p = Some 1 \<and>
      task_at p 0 = Some t \<and> load_avg t = 928"
  proof (rule clti.run_loads_frame [OF v fr, of clti_decay1 100])
    fix rq' xs' assume r: "run_ticks clti_tick 100 (Ref rq) = Some (Ref rq')" "rq_view rq' xs'"
      "length xs' = length four_tasks"
      "\<And>i. i < length four_tasks \<Longrightarrow> weight (xs' ! i) = weight (four_tasks ! i) \<and> loaded clti_decay1 100 (xs' ! i)"
    show ?thesis using one [OF round_100(3) [OF v] r(1-3) r(4) [of 0]] by (simp add: load_100)
  qed simp
qed

lemma apaf_100:
  assumes "rq_view rq four_tasks" and "apaf_state rq = APAF_MEDIUM" and "tick rq = 0"
  obtains p t rq' where "run_ticks apaf_tick 100 (Ref rq) = Some p" and "fairness_jain_index p = Some 1"
    and "task_at p 0 = Some t" and "load_avg t = 907" and "p = Ref rq'"
proof -
  obtain rq' xs where r: "run_ticks apaf_tick 100 (Ref rq) = Some (Ref rq')" "rq_view rq' xs" "apaf_run (4 * 25) rq' xs"
    using apaf_run_ticks [OF assms, of 100] by auto
  have "xs \<noteq> []" using r(3) by (auto simp: apaf_run_def)
  then have "task_at (Ref rq') 0 = Some (xs ! 0)" using task_at_view [OF r(2), of 0] by simp
  then show ?thesis
    using that [OF r(1) apaf_run_index [OF r(3,2)]] r(3) apaf_avg_100 by (simp add: apaf_run_def)
qed

lemma four_errors:
  "pct_err 907 673 \<le> dec 26 0" "pct_err 907 928 \<le> dec 5 0" "pct_err 907 907 \<le> dec 5 0"
  by (simp_all add: pct_err_def f64_eval)

lemma apaf_test_four_pass: "\<exists>out'. apaf_test_four (ok, out) = Some (ok, out')"
proof -
  obtain r1 where r1: "fresh_rq 4 0 = Some r1" "rq_view r1 four_tasks" by (rule fresh_rq_4 [of 0]) simp_all
  obtain r2 where r2: "fresh_rq 4 1 = Some r2" "rq_view r2 four_tasks" by (rule fresh_rq_4 [of 1]) simp_all
  obtain r3 where r3: "fresh_rq 4 2 = Some r3" "rq_view r3 four_tasks" by (rule fresh_rq_4 [of 2]) simp_all
  obtain r4 where r4: "fresh_rq 4 3 = Some r4" "rq_view r4 four_tasks" "apaf_state r4 = APAF_MEDIUM" "tick r4 = 0"
    by (rule fresh_rq_4 [of 3]) simp_all
  obtain p1 t1 where q1: "run_ticks exact_tick 100 (Ref r1) = Some p1" "fairness_jain_index p1 = Some 1"
    "task_at p1 0 = Some t1" "load_avg t1 = 907" using four_100(1) [OF r1(2)] by blast
  obtain p2 t2 where q2: "run_ticks bsa_tick 100 (Ref r2) = Some p2" "fairness_jain_index p2 = Some 1"
    "task_at p2 0 = Some t2" "load_avg t2 = 673" using four_100(2) [OF r2(2)] by blast
  obtain p3 t3 where q3: "run_ticks clti_tick 100 (Ref r3) = Some p3" "fairness_jain_index p3 = Some 1"
    "task_at p3 0 = Some t3" "load_avg t3 = 928" using four_100(3) [OF r3(2)] by blast
  obtain p4 t4 q where q4: "run_ticks apaf_tick 100 (Ref r4) = Some p4" "fairness_jain_index p4 = Some 1"
    "task_at p4 0 = Some t4" "load_avg t4 = 907" "p4 = Ref q" by (rule apaf_100 [OF r4(2-4)])
  have l: "tick_loop4 100 (Ref r1, Ref r2, Ref r3, Ref r4) = Some (p1, p2, p3, p4)"
    using tick_loop4_run [OF q1(1) q2(1) q3(1) q4(1)] by simp
  show ?thesis
    by (simp add: apaf_test_four_def r1(1) r2(1) r3(1) r4(1) l q1(2-4) q2(2-4) q3(2-4) q4(2-4) q4(5) [symmetric]
        four_errors jain_one check_def Let_def del: f64_ops One_nat_def) (simp add: q4(5))
qed

lemma apaf_test_passes: "\<exists>out. apaf_test = Some (0, out)"
proof -
  obtain o1 where o1: "apaf_test_values (1, []) = Some (1, o1)" using apaf_test_values_pass by blast
  obtain o2 where o2: "apaf_test_states (1, o1) = Some (1, o2)" using apaf_test_states_pass by blast
  obtain o3 where o3: "apaf_test_run (1, o2) = Some (1, o3)" using apaf_test_run_pass by blast
  obtain o4 where o4: "apaf_test_four (1, o3) = Some (1, o4)" using apaf_test_four_pass by blast
  show ?thesis by (simp add: apaf_test_def o1 o2 o3 o4)
qed

text \<open>
  C28. The self-tests of approx_bsa.c, approx_clti.c and approx_apaf.c are defined and return 0:
  each of their 30 checks passes on the code as it is, the runs of 100 and 200 ticks and the
  four-way comparison included.
\<close>

theorem approx_tests_pass:
  "\<exists>o1 o2 o3. bsa_test m = Some (0, o1) \<and> clti_test = Some (0, o2) \<and> apaf_test = Some (0, o3)"
  using bsa_test_passes [of m] clti_test_passes apaf_test_passes by blast

end
