(* ===== verification/Spec2Isabelle.thy ===== *)
theory Spec2Isabelle
  imports Task_Print CFS_Exact Approx_BSA Approx_CLTI Approx_APAF Metrics
    Exp1_Report Exp2_Mixed_Load Exp3_Dynamic_Spike Exp4_Error_Bound
    Kernel_Pelt Kernel_Sched_Run Kernel_Load_Run Kernel_Migrate_Ends
    Kernel_Bandwidth_Run Approx_Accuracy Apaf_Test_Pass
begin

text \<open>
  A verification library for apex-cfs, a C simulator that compares the Completely Fair Scheduler
  of Linux 6.1 with three approximations of it (src/apex-cfs).

  \<^bold>\<open>The program.\<close> A runqueue (task.c) is an array of tasks with weight, vruntime, load and CPU
  time. One tick of a scheduler advances the clock, picks the runnable task with the least
  vruntime, charges it one tick scaled by its weight, updates the loads of all tasks and the
  fairness index (fairness.c), and recounts. cfs_exact.c is the ground truth; approx_bsa.c
  (shifts and one Newton step), approx_clti.c (coarse tables) and approx_apaf.c (a polynomial
  chosen by a controller that watches the index) replace the arithmetic. metrics.c compares two
  runqueues and writes CSV files, experiments/exp1 to exp4 run the schedulers side by side, and
  each source file has a self-test. docs/ keeps the kernel files the program rewrites.

  \<^bold>\<open>Theories and code.\<close>
  \<^item> \<open>Prelude\<close>: pointers (\<open>NULL\<close>, \<open>Ref\<close>), arrays with bounds, C loops and division, words.
    \<open>IEEE_Double\<close>: binary64 as rationals, infinities and NaN, each operation rounded once.
    \<open>Printf\<close>: the conversions the program prints with.
  \<^item> \<open>Task\<close>, \<open>Task_Print\<close>: task.h, task.c. \<open>Fairness\<close>: fairness.c. \<open>Metrics\<close>: metrics.c.
  \<^item> \<open>CFS_Exact\<close>, \<open>Approx_BSA\<close>, \<open>Approx_CLTI\<close>, \<open>Approx_APAF\<close>: the four schedulers, one definition per
    C function. \<open>Tick_Policy\<close> holds their common contract, a locale whose parameters are a tick
    function and a policy (charge, decay, controller), with the abstract tick \<open>spec_tick\<close> and the
    properties of any run; \<open>Tick_Runs\<close> adds runs from fresh tasks. Each scheduler interprets it.
  \<^item> \<open>Approx_Accuracy\<close>: charges and decay of the approximations against the exact ones.
  \<^item> \<open>Exp1_Equal_Weight\<close>, \<open>Exp1_Report\<close>, \<open>Exp2_Mixed_Load\<close>, \<open>Exp3_Dynamic_Spike\<close>, \<open>Exp4_Error_Bound\<close>:
    the experiments, their main functions and the files they write.
  \<^item> \<open>Unit_Tests\<close>, \<open>Exact_Test\<close>, \<open>Approx_Tests\<close>: the self-tests; \<open>Approx_Tests_Pass\<close> and
    \<open>Apaf_Test_Pass\<close> prove that the approximations pass theirs.
  \<^item> \<open>Kernel_Pelt\<close>: docs/pelt.c with the stubs of the repository. \<open>Kernel_Fair\<close>, \<open>Kernel_Fair_Run\<close>: the
    vruntime core of docs/fair.c. \<open>Kernel_Sched\<close>: the fair scheduling class on top of it, with the books of
    a runqueue in \<open>Kernel_Sched_Queue\<close>, the operations on entities in \<open>Kernel_Sched_Ops\<close>, those on
    tasks in \<open>Kernel_Sched_Tasks\<close> and any sequence of calls in \<open>Kernel_Sched_Run\<close>. \<open>Kernel_Average\<close>: the
    averaging of docs/pelt.c on the \<open>struct sched_avg\<close> that fair.c uses. \<open>Kernel_Load\<close>,
    \<open>Kernel_Load_Run\<close>: the load averages of entities, runqueues and groups, which fair.c moves between them. \<open>Kernel_Balance\<close>,
    \<open>Kernel_Balance_Run\<close>: the statistics and decisions of its load balancer (\<open>find_busiest_group\<close>,
    \<open>find_busiest_queue\<close>). \<open>Kernel_Migrate\<close>, \<open>Kernel_Migrate_Run\<close>, \<open>Kernel_Migrate_Ends\<close>: the migration of
    tasks (\<open>detach_tasks\<close>, \<open>load_balance\<close>, \<open>active_load_balance_cpu_stop\<close>), what it keeps and that it ends.
    \<open>Kernel_Clock\<close>: the clock of docs/pelt.h. \<open>Kernel_Bandwidth\<close>: the
    bandwidth control of docs/fair.c, with the operations read as moves of run time in
    \<open>Kernel_Bandwidth_Ops\<close> and any sequence of them in \<open>Kernel_Bandwidth_Run\<close>.

  \<^bold>\<open>Reading the model.\<close> A C function is a function on values: a pointer argument is returned
  updated, \<open>None\<close> is undefined behaviour (array bounds, NULL, shift counts, conversions out of
  range), machine words wrap. \<open>rq_view rq xs\<close> says that the counter of a runqueue agrees with its
  array \<open>xs\<close>. Loops over a counter are \<open>for_loop\<close>, so they end without fuel; the doubling loop of
  \<open>bsa_nearest_pow2\<close> has a measure. The three nested loops of \<open>load_balance\<close> take fuel \<open>k\<close>, \<open>m\<close> and \<open>n\<close>, and
  \<open>load_balance_returns\<close> says how much is always enough. Whether a file
  opens and whether memory is available are arguments. In the load balancer a CPU mask is an ascending list,
  the ring of groups a list, a pointer to a group its index in it, and a flag of a domain or of
  \<open>struct lb_env\<close> a field; a task is known by its number.

  \<^bold>\<open>What the lemmas show.\<close> The schedulers refine the abstract tick; runs are safe, conserve CPU time,
  keep loads and the spread of vruntimes bounded, starve nobody and share the CPU by weight. The
  index is the formula of Jain up to rounding while its sums fit 64 bits, and wraps afterwards;
  the controller is monotone, settles and does not oscillate. Metrics are maxima and means of the
  errors, and the CSV rows read back. The experiments are defined for all their inputs; some of
  their verdicts hold whatever the schedulers do. The decay and the charge of cfs_exact.c are
  those of the kernel, with the exceptions stated there. The fair class of the kernel keeps its
  tree, counters, load and buddies consistent over any sequence of calls, dereferences no NULL
  pointer, and picks a task whose vruntime is the least, up to a granularity. The load averages of
  a runqueue are the sums of those of its entities between two period boundaries while the sums fit 32 bits, and
  a clamp of the code loses larger ones; attaching and detaching restores the averages exactly and the sums up to
  their documented floor. The load balancer selects a group that no other one exceeds, apart from those that asymmetric
  capacities rule out, decides by its documented matrix with three exceptions that are spelt out, moves no more
  than the imbalance, loses no task and respects affinities,
  ends, and backs off to a bounded interval; where one of its unsigned differences wraps, a lemma shows
  the result. A group under bandwidth control runs
  for what it had plus its quota per period, its timer always returns, and its clock stands still
  while it is throttled; the clock of a CPU is monotone and behind the task clock.

  \<^bold>\<open>Bounds.\<close> Statements about runs hold for any number of ticks where no counter is involved;
  starvation and share use the weights of the table (15 to 88761) and start from fresh tasks, for
  as many ticks as keep vruntimes below \<open>2 ^ 64\<close>. The fair class is proved while the vruntimes on a
  runqueue are within \<open>2 ^ 62\<close> of each other and its weights add up to less than \<open>2 ^ 42 - 2 ^ 10\<close>.
  The amount of load to move is proved for group loads below \<open>2 ^ 30\<close> and capacities below \<open>2 ^ 20\<close>, the end of
  \<open>load_balance\<close> for less than \<open>2 ^ 31\<close> tasks on a runqueue and capacities that are not 0. Bandwidth control is proved while pool, debts,
  charges and refills stay within \<open>2 ^ 62\<close> ns (146 years). Evaluated statements are about the constants of
  the source.

  \<^bold>\<open>Not modelled.\<close> Text on stdout of the experiments and the warnings for clamped arguments (they
  are not state); the sign of NaN and of zero; contraction of multiply and add; \<open>free\<close>. Of the
  kernel files: who starts the load balancer (\<open>rebalance_domains\<close>, \<open>newidle_balance\<close>, the nohz balancer),
  group scheduling, NUMA balancing, task placement at wake-up and statistics of fair.c, the
  fair class on several processors, the walk over the ancestors of a throttled group, the other declarations of sched.h and
  include-linux-sched.h. They are
  not compiled into the program and call kernel headers that are not in the repository; of those,
  \<open>Kernel_Fair\<close> takes the red-black tree, \<open>fls\<close> and the wide multiplications as arguments with
  their documented behaviour as hypotheses, and \<open>Kernel_Migrate\<close> the functions of core.c (\<open>core_lib\<close>, \<open>core_ok\<close>).
\<close>

section \<open>The four schedulers\<close>

abbreviation (input) tick_functions :: "(cfs_rq ptr \<Rightarrow> cfs_rq ptr option) set" where
  "tick_functions \<equiv> {exact_tick, bsa_tick, clti_tick, apaf_tick}"

text \<open>A runqueue of a nice-0, a nice-5 and a nice-19 task, the last one asleep.\<close>

definition demo_task :: "int \<Rightarrow> int \<Rightarrow> u64 \<Rightarrow> int \<Rightarrow> cfs_task" where
  "demo_task i nc w r = \<lparr>t_id = i, nice = nc, weight = w, vruntime = 0, load_avg = 0, load_sum = 0,
                        exec_runtime = 0, runnable = r\<rparr>"

definition demo_tasks :: "cfs_task list" where
  "demo_tasks = [demo_task 0 0 1024 1, demo_task 1 5 335 1, demo_task 2 19 15 0]"

definition demo_rq :: cfs_rq where
  "demo_rq = \<lparr>tasks = Ref demo_tasks, nr_tasks = 3, nr_running = 2, clock = 0, tick = 0,
              approx_mode = 0, apaf_state = APAF_MEDIUM, jain_index = 1\<rparr>"

lemma demo_view: "rq_view demo_rq demo_tasks"
  by (simp add: rq_view_def demo_rq_def demo_tasks_def)

lemma demo_fresh: "\<forall>t \<in> set demo_tasks. fresh t"
  by (simp add: demo_tasks_def demo_task_def fresh_def wf_task_def nice_to_weight_def)

lemma demo_ok:
  "\<forall>t \<in> set demo_tasks. wf_task t" "\<forall>t \<in> set demo_tasks. wf_task t \<and> load_ok t"
  "spread_ok demo_tasks" "vr_below 0 demo_tasks" "n_running demo_tasks = 2"
  using demo_fresh fresh_spread [OF demo_fresh]
  by (auto simp: fresh_def load_ok_def n_running_def demo_tasks_def demo_task_def is_runnable_def)

lemma demo_fields:
  "tick demo_rq = 0" "clock demo_rq = 0" "map weight demo_tasks = [1024, 335, 15]"
  "map runnable demo_tasks = [1, 1, 0]"
  by (simp_all add: demo_rq_def demo_tasks_def demo_task_def)

text \<open>
  C1. Every tick function implements the abstract tick of its policy: the task with the least
  vruntime (the first one among equals) is charged one tick, the load averages of all tasks
  are updated, the fairness index, the controller state and the count of runnable tasks
  follow, and nothing is undefined. With no runnable task the exact policy still decays the
  loads, the three approximations only advance the clock.
\<close>

theorem ticks_refine:
  assumes "rq_view rq xs"
  shows "exact_tick (Ref rq) = Some (Ref (spec_tick exact_policy rq xs)) \<and>
         bsa_tick (Ref rq) = Some (Ref (spec_tick bsa_policy rq xs)) \<and>
         clti_tick (Ref rq) = Some (Ref (spec_tick clti_policy rq xs)) \<and>
         apaf_tick (Ref rq) = Some (Ref (spec_tick apaf_policy rq xs))"
  using exact.refines [OF assms] bsa.refines [OF assms] clti.refines [OF assms] apaf.refines [OF assms]
  by blast

theorem ticks_refine_witness:
  "exact_tick (Ref demo_rq) = Some (Ref (spec_tick exact_policy demo_rq demo_tasks)) \<and>
   bsa_tick (Ref demo_rq) = Some (Ref (spec_tick bsa_policy demo_rq demo_tasks)) \<and>
   clti_tick (Ref demo_rq) = Some (Ref (spec_tick clti_policy demo_rq demo_tasks)) \<and>
   apaf_tick (Ref demo_rq) = Some (Ref (spec_tick apaf_policy demo_rq demo_tasks))"
  by (rule ticks_refine [OF demo_view])

text \<open>
  C6. Any number of ticks of any policy on a well-formed runqueue is defined and leaves a
  well-formed runqueue; tick counter and clock advance by one and by \<open>TICK_NS\<close> per tick; the
  ids, nice values, weights and runnable flags of the tasks do not change.
\<close>

theorem ticks_safe:
  assumes "tk \<in> tick_functions" and "rq_view rq xs"
  shows "\<exists>rq' xs'. run_ticks tk n (Ref rq) = Some (Ref rq') \<and> rq_view rq' xs' \<and>
    tick rq' = tick rq + of_nat n \<and> clock rq' = clock rq + of_nat n * TICK_NS \<and>
    map t_id xs' = map t_id xs \<and> map nice xs' = map nice xs \<and> map weight xs' = map weight xs \<and>
    map runnable xs' = map runnable xs"
  using assms(1) exact.run_frame [OF assms(2), of n] bsa.run_frame [OF assms(2), of n]
    clti.run_frame [OF assms(2), of n] apaf.run_frame [OF assms(2), of n]
  by (elim insertE emptyE) (simp_all only:)

theorem ticks_safe_witness:
  "\<exists>rq' xs'. run_ticks apaf_tick 100 (Ref demo_rq) = Some (Ref rq') \<and> rq_view rq' xs' \<and>
    tick rq' = 100 \<and> clock rq' = 100000000 \<and> map weight xs' = [1024, 335, 15] \<and>
    map runnable xs' = [1, 1, 0]"
proof -
  have "apaf_tick \<in> tick_functions" by simp
  from ticks_safe [OF this demo_view, of 100] obtain rq' xs' where
    "run_ticks apaf_tick 100 (Ref demo_rq) = Some (Ref rq')" "rq_view rq' xs'"
    "tick rq' = tick demo_rq + of_nat 100" "clock rq' = clock demo_rq + of_nat 100 * TICK_NS"
    "map weight xs' = map weight demo_tasks" "map runnable xs' = map runnable demo_tasks" by blast
  then show ?thesis by (intro exI [of _ rq'] exI [of _ xs']) (simp add: demo_fields)
qed

text \<open>
  C7. CPU time is conserved: every tick of every policy adds exactly \<open>TICK_NS\<close> to the sum of
  the execution times when some task is runnable, and nothing when none is.
\<close>

theorem ticks_conserve:
  assumes "tk \<in> tick_functions" and "rq_view rq xs"
  shows "\<exists>rq' xs'. run_ticks tk n (Ref rq) = Some (Ref rq') \<and> rq_view rq' xs' \<and>
    n_running xs' = n_running xs \<and>
    sum_list (map exec_runtime xs') =
      sum_list (map exec_runtime xs) + (if n_running xs = 0 then 0 else of_nat n * TICK_NS)"
  using assms(1) exact.run_exec [OF assms(2), of n] bsa.run_exec [OF assms(2), of n]
    clti.run_exec [OF assms(2), of n] apaf.run_exec [OF assms(2), of n]
  by (elim insertE emptyE) (simp_all only:)

theorem ticks_conserve_witness:
  "\<exists>rq' xs'. run_ticks clti_tick 7 (Ref demo_rq) = Some (Ref rq') \<and> rq_view rq' xs' \<and>
    sum_list (map exec_runtime xs') = 7000000"
  using ticks_conserve [OF _ demo_view, of clti_tick 7] demo_ok(5)
  by (auto simp: demo_tasks_def demo_task_def)

text \<open>
  C5. Load averages are bounded for ever: with the weights of the nice table, from loads
  within their bounds, no policy lets a load sum exceed 49 times the weight or a load average
  exceed the weight, so none of the 64-bit products of the update wraps.
\<close>

theorem ticks_load_bounded:
  assumes "tk \<in> tick_functions" and "rq_view rq xs" and "\<forall>t \<in> set xs. wf_task t \<and> load_ok t"
  shows "\<exists>rq' xs'. run_ticks tk n (Ref rq) = Some (Ref rq') \<and> rq_view rq' xs' \<and>
    (\<forall>t \<in> set xs'. wf_task t \<and> load_ok t)"
  using assms(1) exact.run_load [OF assms(2,3), of n] bsa.run_load [OF assms(2,3), of n]
    clti.run_load [OF assms(2,3), of n] apaf.run_load [OF assms(2,3), of n]
  by (elim insertE emptyE) (simp_all only:)

theorem ticks_load_bounded_witness:
  "\<exists>rq' xs'. run_ticks bsa_tick 1000 (Ref demo_rq) = Some (Ref rq') \<and> rq_view rq' xs' \<and>
    (\<forall>t \<in> set xs'. wf_task t \<and> load_ok t)"
  by (rule ticks_load_bounded [OF _ demo_view demo_ok(2)]) simp

text \<open>
  C4. The virtual runtimes of runnable tasks stay together under every policy, approximate or
  not: once within the largest charge of a tick (68266666 ns, a nice-19 task under the exact
  policy) they stay within it, as long as no vruntime can wrap.
\<close>

theorem ticks_spread:
  assumes "tk \<in> tick_functions" and "rq_view rq xs" and "\<forall>t \<in> set xs. wf_task t"
    and "spread_ok xs" and "vr_below b xs" and "b + n * VDELTA_MAX < 2 ^ 64"
  shows "\<exists>rq' xs'. run_ticks tk n (Ref rq) = Some (Ref rq') \<and> rq_view rq' xs' \<and>
    spread_ok xs' \<and> vr_below (b + n * VDELTA_MAX) xs'"
  using assms(1) exact.run_spread [OF assms(2-6)] bsa.run_spread [OF assms(2-6)]
    clti.run_spread [OF assms(2-6)] apaf.run_spread [OF assms(2-6)]
  by (elim insertE emptyE) (simp_all only:)

theorem ticks_spread_witness:
  "\<exists>rq' xs'. run_ticks apaf_tick 1000000 (Ref demo_rq) = Some (Ref rq') \<and> rq_view rq' xs' \<and>
    spread_ok xs' \<and> vr_below 68266666000000 xs'"
  using ticks_spread [OF _ demo_view demo_ok(1,3,4), of apaf_tick 1000000] by simp

text \<open>
  C2. No starvation: under every policy a runnable task is run at least once in any
  \<open>12413 * k\<close> consecutive ticks, where \<open>k\<close> is the number of runnable tasks, from a runqueue whose
  vruntimes are within one largest charge of each other and as long as no vruntime can wrap.
\<close>

theorem ticks_no_starvation:
  assumes "tk \<in> tick_functions" and "rq_view rq xs" and "\<forall>t \<in> set xs. wf_task t"
    and "spread_ok xs" and "vr_below b xs" and "b + n * VDELTA_MAX < 2 ^ 64"
    and "i < length xs" and "is_runnable (xs ! i)" and "12413 * n_running xs \<le> n"
  shows "\<exists>rq' xs' c. run_ticks tk n (Ref rq) = Some (Ref rq') \<and> rq_view rq' xs' \<and>
    0 < c \<and> c \<le> n \<and> exec_runtime (xs' ! i) = exec_runtime (xs ! i) + of_nat c * TICK_NS"
  using assms(1) exact.run_progress [OF assms(2-9)] bsa.run_progress [OF assms(2-9)]
    clti.run_progress [OF assms(2-9)] apaf.run_progress [OF assms(2-9)]
  by (elim insertE emptyE) (simp_all only:)

theorem ticks_no_starvation_witness:
  "\<exists>rq' xs' c. run_ticks bsa_tick 24826 (Ref demo_rq) = Some (Ref rq') \<and> rq_view rq' xs' \<and>
    0 < c \<and> c \<le> (24826::nat) \<and> exec_runtime (xs' ! 1) = of_nat c * TICK_NS"
proof -
  have "1 < length demo_tasks" "is_runnable (demo_tasks ! 1)" "exec_runtime (demo_tasks ! 1) = 0"
    by (simp_all add: demo_tasks_def demo_task_def is_runnable_def)
  then show ?thesis
    using ticks_no_starvation [OF _ demo_view demo_ok(1,3,4), of bsa_tick 24826 1] demo_ok(5) by simp
qed

text \<open>
  C3. Weighted fairness: from fresh tasks, after any number of ticks of the exact, BSA or CLTI
  policy that cannot make a vruntime wrap, the CPU times of any two runnable tasks, each multiplied by the charge its
  weight gets for a tick, differ by at most one largest charge. So CPU time is inversely
  proportional to the policy's charge, whatever the approximation.
\<close>

theorem ticks_weighted_share:
  assumes "(tk, P) \<in> {(exact_tick, exact_policy), (bsa_tick, bsa_policy), (clti_tick, clti_policy)}"
    and "rq_view rq xs" and "\<forall>t \<in> set xs. fresh t" and "n * VDELTA_MAX < 2 ^ 64"
  shows "\<exists>rq' xs'. run_ticks tk n (Ref rq) = Some (Ref rq') \<and> rq_view rq' xs' \<and>
    (\<forall>t \<in> set xs'. \<forall>u \<in> set xs'. is_runnable t \<longrightarrow> is_runnable u \<longrightarrow>
       unat (exec_runtime t) * unat (pol_vdelta P 0 (ucast (weight t)))
       \<le> unat (exec_runtime u) * unat (pol_vdelta P 0 (ucast (weight u))) + VDELTA_MAX * 1000000)"
  using assms(1) exact.run_share [OF assms(2-4)] bsa.run_share [OF assms(2-4)] clti.run_share [OF assms(2-4)]
  by (elim insertE emptyE Pair_inject) (simp_all only:)

theorem ticks_weighted_share_witness:
  "\<exists>rq' xs'. run_ticks clti_tick 1000 (Ref demo_rq) = Some (Ref rq') \<and> rq_view rq' xs' \<and>
    (\<forall>t \<in> set xs'. \<forall>u \<in> set xs'. is_runnable t \<longrightarrow> is_runnable u \<longrightarrow>
       unat (exec_runtime t) * unat (pol_vdelta clti_policy 0 (ucast (weight t)))
       \<le> unat (exec_runtime u) * unat (pol_vdelta clti_policy 0 (ucast (weight u))) + VDELTA_MAX * 1000000)"
  by (rule ticks_weighted_share [OF _ demo_view demo_fresh]) simp_all

end
